(* ===== verification/Prelude.thy ===== *)
theory Prelude
  imports Main "HOL-Library.Word"
begin

text \<open>
  Shared vocabulary of the eCam development: the C integer types, the result codes of
  ESP-IDF's \<^verbatim>\<open>esp_err.h\<close>, block copies on byte stores (C's \<^verbatim>\<open>memcpy\<close>), C's truncating
  division, and the theorem collections the component theories extend.
\<close>

unbundle bit_operations_syntax

section \<open>Theorem collections\<close>

named_theorems esp_err_defs \<open>numeric values of the ESP-IDF result codes\<close>
named_theorems mem_simps \<open>reading back block copies\<close>

section \<open>C integer types\<close>

type_synonym u8 = "8 word"
type_synonym u16 = "16 word"
type_synonym u32 = "32 word"

text \<open>\<^verbatim>\<open>size_t\<close> and \<^verbatim>\<open>uint32_t\<close> arithmetic on the 32-bit target, on values kept as \<open>nat\<close>.\<close>

definition wrap32 :: "nat \<Rightarrow> nat" where
  "wrap32 n = n mod 2 ^ 32"

lemma wrap32_le: "wrap32 n \<le> n"
  by (simp add: wrap32_def)

lemma wrap32_id [simp]: "n < 2 ^ 32 \<Longrightarrow> wrap32 n = n"
  by (simp add: wrap32_def)

section \<open>Result codes\<close>

type_synonym esp_err_t = int

definition ESP_OK :: esp_err_t where "ESP_OK = 0"
definition ESP_FAIL :: esp_err_t where "ESP_FAIL = -1"
definition ESP_ERR_NO_MEM :: esp_err_t where "ESP_ERR_NO_MEM = 0x101"
definition ESP_ERR_INVALID_ARG :: esp_err_t where "ESP_ERR_INVALID_ARG = 0x102"
definition ESP_ERR_INVALID_STATE :: esp_err_t where "ESP_ERR_INVALID_STATE = 0x103"
definition ESP_ERR_NOT_FOUND :: esp_err_t where "ESP_ERR_NOT_FOUND = 0x105"
definition ESP_ERR_NOT_SUPPORTED :: esp_err_t where "ESP_ERR_NOT_SUPPORTED = 0x106"

lemmas esp_err_values [esp_err_defs] =
  ESP_OK_def ESP_FAIL_def ESP_ERR_NO_MEM_def ESP_ERR_INVALID_ARG_def
  ESP_ERR_INVALID_STATE_def ESP_ERR_NOT_FOUND_def ESP_ERR_NOT_SUPPORTED_def

section \<open>Block copies\<close>

text \<open>
  A store is the list of its bytes. \<open>mem_write\<close> overwrites the block that starts at an
  offset, \<open>mem_read\<close> returns a block; both are only meaningful inside the store, and the
  component invariants state that every access is.
\<close>

definition mem_write :: "'a list \<Rightarrow> nat \<Rightarrow> 'a list \<Rightarrow> 'a list" where
  "mem_write st off d = take off st @ d @ drop (off + length d) st"

definition mem_read :: "'a list \<Rightarrow> nat \<Rightarrow> nat \<Rightarrow> 'a list" where
  "mem_read st off n = take n (drop off st)"

lemma length_mem_write [simp, mem_simps]:
  "off + length d \<le> length st \<Longrightarrow> length (mem_write st off d) = length st"
  by (simp add: mem_write_def)

lemma length_mem_read [simp, mem_simps]:
  "off + n \<le> length st \<Longrightarrow> length (mem_read st off n) = n"
  by (simp add: mem_read_def)

lemma mem_read_write_same [mem_simps]:
  "off + length d \<le> length st \<Longrightarrow> n = length d \<Longrightarrow> mem_read (mem_write st off d) off n = d"
  by (simp add: mem_read_def mem_write_def)

lemma nth_mem_write:
  assumes "off + length d \<le> length st" "i < length st"
  shows "mem_write st off d ! i =
    (if off \<le> i \<and> i < off + length d then d ! (i - off) else st ! i)"
  using assms by (auto simp: mem_write_def nth_append min_def)

lemma mem_read_write_disjoint [mem_simps]:
  assumes "off + length d \<le> length st" "o' + n \<le> length st"
    and "o' + n \<le> off \<or> off + length d \<le> o'"
  shows "mem_read (mem_write st off d) o' n = mem_read st o' n"
  using assms
  by (intro nth_equalityI) (auto simp: mem_read_def nth_mem_write)

section \<open>Bytes of a word\<close>

lemma masked_byte: "ucast (v AND 0xff) = (ucast v :: u8)" for v :: "'a::len word"
proof -
  have "v AND 0xff = take_bit 8 v" by (simp add: take_bit_eq_mask mask_numeral)
  moreover have "ucast (take_bit 8 v) = (ucast v :: u8)"
    by (rule bit_word_eqI) (auto simp: bit_simps dest: bit_imp_le_length)
  ultimately show ?thesis by simp
qed

section \<open>C division\<close>

text \<open>C's \<^verbatim>\<open>/\<close> on signed integers truncates towards zero.\<close>

definition c_div :: "int \<Rightarrow> int \<Rightarrow> int" where
  "c_div a b = sgn a * sgn b * (\<bar>a\<bar> div \<bar>b\<bar>)"

lemma c_div_nonneg: "0 \<le> a \<Longrightarrow> 0 < b \<Longrightarrow> c_div a b = a div b"
  by (cases "a = 0") (simp_all add: c_div_def)

section \<open>Modular distance on a ring\<close>

lemma nat_of_prod [simp]: "nat (int a * int b) = a * b"
  by (metis nat_int of_nat_mult)

lemma ring_slot_inj:
  fixes r len i j :: nat
  assumes "i < len" "j < len" "(r + i) mod len = (r + j) mod len"
  shows "i = j"
proof -
  have aux: "a = b" if "a \<le> b" "b < len" "(r + b) mod len = (r + a) mod len" for a b
  proof -
    have "len dvd (r + b) - (r + a)"
      using that by (simp add: mod_eq_dvd_iff_nat)
    then have "len dvd b - a" by simp
    moreover have "b - a < len" using that by simp
    ultimately have "b - a = 0" using nat_dvd_not_less by blast
    with \<open>a \<le> b\<close> show ?thesis by simp
  qed
  show ?thesis
  proof (cases "i \<le> j")
    case True
    then show ?thesis using aux [of i j] assms by simp
  next
    case False
    then show ?thesis using aux [of j i] assms by simp
  qed
qed

end
