(* ===== verification/FreeRTOS_Queue.thy ===== *)
theory FreeRTOS_Queue
  imports Prelude
begin

text \<open>
  The FreeRTOS kernel queue, \<^verbatim>\<open>components/freertos/queue.c\<close>, through which the camera
  driver, the frame consumers and the UART console exchange items.

  A queue keeps its items in a ring of \<^verbatim>\<open>uxLength\<close> slots of \<^verbatim>\<open>uxItemSize\<close> bytes. The pointers
  \<^verbatim>\<open>pcWriteTo\<close>, \<^verbatim>\<open>pcReadFrom\<close> and \<^verbatim>\<open>pcTail\<close> are modelled as offsets from \<^verbatim>\<open>pcHead\<close>. The two
  lists of blocked tasks hold task numbers, the head being the task that
  \<^verbatim>\<open>xTaskRemoveFromEventList\<close> takes. A blocking call leaves its critical section before it
  blocks, so what other tasks and interrupts do to the queue at those points is an
  argument: a list of \<open>env_step\<close>, one per turn of the \<^verbatim>\<open>for(;;)\<close> loop. Queue sets (the
  container pointer is \<^verbatim>\<open>NULL\<close> for every queue of the program) and mutexes are left out.

  The abstraction \<open>q_items\<close> reads the ring as a list; every operation is shown to act on
  it as a bounded FIFO, and \<open>bounded_fifo\<close> is the interface the clients rely on.
\<close>

section \<open>Data\<close>

datatype copy_position = queueSEND_TO_BACK | queueSEND_TO_FRONT | queueOVERWRITE

datatype q_result = pdPASS | errQUEUE_FULL | errQUEUE_EMPTY | assert_failed | still_blocked

record Queue_t =
  q_storage :: "u8 list"
  pcWriteTo :: int
  pcTail :: int
  pcReadFrom :: int
  xTasksWaitingToSend :: "nat list"
  xTasksWaitingToReceive :: "nat list"
  uxMessagesWaiting :: nat
  uxLength :: nat
  uxItemSize :: nat
  cRxLock :: int
  cTxLock :: int

datatype create_result = CreateAssert | CreateNULL | Created Queue_t

text \<open>The environment of one turn of a blocking call: what happens to the queue between its
  two critical sections, whether the block time has expired, what happens after the second
  one, and what happens between a receiver's last look at the queue and its next turn.\<close>

record env_step =
  es_mid :: "Queue_t \<Rightarrow> Queue_t"
  es_expired :: bool
  es_wake :: "Queue_t \<Rightarrow> Queue_t"
  es_retry :: "Queue_t \<Rightarrow> Queue_t"

definition queueUNLOCKED :: int where "queueUNLOCKED = -1"
definition queueLOCKED_UNMODIFIED :: int where "queueLOCKED_UNMODIFIED = 0"

section \<open>Creation\<close>

definition xQueueGenericReset :: "bool \<Rightarrow> Queue_t \<Rightarrow> Queue_t" where
  "xQueueGenericReset xNewQueue q =
    (let q1 = q\<lparr>pcTail := int (uxLength q * uxItemSize q),
                uxMessagesWaiting := 0,
                pcWriteTo := 0,
                pcReadFrom := (int (uxLength q) - 1) * int (uxItemSize q),
                cRxLock := queueUNLOCKED,
                cTxLock := queueUNLOCKED\<rparr>
     in if \<not> xNewQueue
        then if xTasksWaitingToSend q1 \<noteq> []
             then q1\<lparr>xTasksWaitingToSend := tl (xTasksWaitingToSend q1)\<rparr>
             else q1
        else q1\<lparr>xTasksWaitingToSend := [], xTasksWaitingToReceive := []\<rparr>)"

definition prvInitialiseNewQueue :: "nat \<Rightarrow> nat \<Rightarrow> u8 list \<Rightarrow> Queue_t" where
  "prvInitialiseNewQueue uxQueueLength uxSize pucQueueStorage =
     xQueueGenericReset True
       \<lparr>q_storage = pucQueueStorage, pcWriteTo = 0, pcTail = 0, pcReadFrom = 0,
        xTasksWaitingToSend = [], xTasksWaitingToReceive = [], uxMessagesWaiting = 0,
        uxLength = uxQueueLength, uxItemSize = uxSize, cRxLock = 0, cTxLock = 0\<rparr>"

text \<open>\<^verbatim>\<open>sizeof(Queue_t)\<close> and the allocator are arguments; \<^verbatim>\<open>size_t\<close> is 32 bits wide, so the
  size computations wrap.\<close>

definition xQueueGenericCreate ::
  "nat \<Rightarrow> (nat \<Rightarrow> u8 list option) \<Rightarrow> nat \<Rightarrow> nat \<Rightarrow> create_result" where
  "xQueueGenericCreate sizeof_Queue pvPortMalloc uxQueueLength uxSize =
    (if \<not> 0 < uxQueueLength then CreateAssert
     else let xQueueSizeInBytes =
                (if uxSize = 0 then 0 else wrap32 (uxQueueLength * uxSize))
       in if \<not> (uxSize = 0 \<or> uxQueueLength = xQueueSizeInBytes div uxSize) then CreateAssert
          else if \<not> (wrap32 (sizeof_Queue + xQueueSizeInBytes) > xQueueSizeInBytes)
          then CreateAssert
          else case pvPortMalloc (sizeof_Queue + xQueueSizeInBytes) of
                 None \<Rightarrow> CreateNULL
               | Some block \<Rightarrow>
                   Created (prvInitialiseNewQueue uxQueueLength uxSize (drop sizeof_Queue block)))"

section \<open>Copying items in and out\<close>

definition prvCopyDataToQueue :: "Queue_t \<Rightarrow> u8 list \<Rightarrow> copy_position \<Rightarrow> Queue_t" where
  "prvCopyDataToQueue q item xPosition =
    (let n = uxMessagesWaiting q; sz = uxItemSize q in
     if sz = 0 then q\<lparr>uxMessagesWaiting := n + 1\<rparr>
     else if xPosition = queueSEND_TO_BACK then
       (let q1 = q\<lparr>q_storage := mem_write (q_storage q) (nat (pcWriteTo q)) (take sz item),
                   pcWriteTo := pcWriteTo q + int sz\<rparr>;
            q2 = (if pcWriteTo q1 \<ge> pcTail q1 then q1\<lparr>pcWriteTo := 0\<rparr> else q1)
        in q2\<lparr>uxMessagesWaiting := n + 1\<rparr>)
     else
       (let q1 = q\<lparr>q_storage := mem_write (q_storage q) (nat (pcReadFrom q)) (take sz item),
                   pcReadFrom := pcReadFrom q - int sz\<rparr>;
            q2 = (if pcReadFrom q1 < 0 then q1\<lparr>pcReadFrom := pcTail q1 - int sz\<rparr> else q1);
            n' = (if xPosition = queueOVERWRITE then (if n > 0 then n - 1 else n) else n)
        in q2\<lparr>uxMessagesWaiting := n' + 1\<rparr>))"

definition prvCopyDataFromQueue :: "Queue_t \<Rightarrow> u8 list \<times> Queue_t" where
  "prvCopyDataFromQueue q =
    (if uxItemSize q \<noteq> 0 then
       (let q1 = q\<lparr>pcReadFrom := pcReadFrom q + int (uxItemSize q)\<rparr>;
            q2 = (if pcReadFrom q1 \<ge> pcTail q1 then q1\<lparr>pcReadFrom := 0\<rparr> else q1)
        in (mem_read (q_storage q2) (nat (pcReadFrom q2)) (uxItemSize q2), q2))
     else ([], q))"

definition prvIsQueueEmpty :: "Queue_t \<Rightarrow> bool" where
  "prvIsQueueEmpty q \<longleftrightarrow> uxMessagesWaiting q = 0"

definition prvIsQueueFull :: "Queue_t \<Rightarrow> bool" where
  "prvIsQueueFull q \<longleftrightarrow> uxMessagesWaiting q = uxLength q"

definition uxQueueSpacesAvailable :: "Queue_t \<Rightarrow> nat" where
  "uxQueueSpacesAvailable q = uxLength q - uxMessagesWaiting q"

section \<open>Locking\<close>

definition prvLockQueue :: "Queue_t \<Rightarrow> Queue_t" where
  "prvLockQueue q =
     q\<lparr>cRxLock := (if cRxLock q = queueUNLOCKED then queueLOCKED_UNMODIFIED else cRxLock q),
       cTxLock := (if cTxLock q = queueUNLOCKED then queueLOCKED_UNMODIFIED else cTxLock q)\<rparr>"

text \<open>The wake-up loops of \<^verbatim>\<open>prvUnlockQueue\<close>: one blocked task per unit of the lock count,
  stopping early when the list is empty.\<close>

fun unlock_waiters :: "nat \<Rightarrow> nat list \<Rightarrow> nat list" where
  "unlock_waiters 0 ws = ws"
| "unlock_waiters (Suc c) [] = []"
| "unlock_waiters (Suc c) (w # ws) = unlock_waiters c ws"

definition prvUnlockQueue :: "Queue_t \<Rightarrow> Queue_t" where
  "prvUnlockQueue q =
    (let q1 = q\<lparr>xTasksWaitingToReceive :=
                  unlock_waiters (nat (cTxLock q)) (xTasksWaitingToReceive q),
                cTxLock := queueUNLOCKED\<rparr>
     in q1\<lparr>xTasksWaitingToSend := unlock_waiters (nat (cRxLock q1)) (xTasksWaitingToSend q1),
           cRxLock := queueUNLOCKED\<rparr>)"

section \<open>Sending\<close>

definition q_room :: "Queue_t \<Rightarrow> copy_position \<Rightarrow> bool" where
  "q_room q xCopyPosition \<longleftrightarrow> uxMessagesWaiting q < uxLength q \<or> xCopyPosition = queueOVERWRITE"

definition send_now :: "Queue_t \<Rightarrow> u8 list \<Rightarrow> copy_position \<Rightarrow> Queue_t" where
  "send_now q item xCopyPosition =
    (let q1 = prvCopyDataToQueue q item xCopyPosition
     in if xTasksWaitingToReceive q1 \<noteq> []
        then q1\<lparr>xTasksWaitingToReceive := tl (xTasksWaitingToReceive q1)\<rparr>
        else q1)"

text \<open>The \<^verbatim>\<open>for(;;)\<close> loop. \<open>place\<close> inserts the calling task into the list of blocked tasks in
  priority order (\<^verbatim>\<open>vTaskPlaceOnEventList\<close>).\<close>

fun xQueueGenericSend_loop ::
  "(nat \<Rightarrow> nat list \<Rightarrow> nat list) \<Rightarrow> nat \<Rightarrow> u8 list \<Rightarrow> bool \<Rightarrow> copy_position \<Rightarrow> env_step list \<Rightarrow>
   Queue_t \<Rightarrow> q_result \<times> Queue_t" where
  "xQueueGenericSend_loop place me item wait pos [] q =
    (if q_room q pos then (pdPASS, send_now q item pos)
     else if \<not> wait then (errQUEUE_FULL, q)
     else (still_blocked, q))"
| "xQueueGenericSend_loop place me item wait pos (e # es) q =
    (if q_room q pos then (pdPASS, send_now q item pos)
     else if \<not> wait then (errQUEUE_FULL, q)
     else let q1 = prvLockQueue (es_mid e q) in
       if \<not> es_expired e then
         if prvIsQueueFull q1 then
           xQueueGenericSend_loop place me item wait pos es
             (es_wake e (prvUnlockQueue
               (q1\<lparr>xTasksWaitingToSend := place me (xTasksWaitingToSend q1)\<rparr>)))
         else
           xQueueGenericSend_loop place me item wait pos es (es_wake e (prvUnlockQueue q1))
       else (errQUEUE_FULL, prvUnlockQueue q1))"

definition xQueueGenericSend ::
  "(nat \<Rightarrow> nat list \<Rightarrow> nat list) \<Rightarrow> nat \<Rightarrow> env_step list \<Rightarrow> Queue_t \<Rightarrow> u8 list \<Rightarrow> nat \<Rightarrow>
   copy_position \<Rightarrow> q_result \<times> Queue_t" where
  "xQueueGenericSend place me env q item xTicksToWait xCopyPosition =
    (if xCopyPosition = queueOVERWRITE \<and> uxLength q \<noteq> 1 then (assert_failed, q)
     else xQueueGenericSend_loop place me item (xTicksToWait \<noteq> 0) xCopyPosition env q)"

text \<open>C's conversion of an \<^verbatim>\<open>int\<close> to \<^verbatim>\<open>int8_t\<close>.\<close>

definition to_int8 :: "int \<Rightarrow> int" where
  "to_int8 x = (x + 128) mod 256 - 128"

text \<open>\<open>higher\<close> is the scheduler's answer whether the task that is woken has a higher priority
  than the interrupted one.\<close>

definition xQueueGenericSendFromISR ::
  "bool \<Rightarrow> Queue_t \<Rightarrow> u8 list \<Rightarrow> bool \<Rightarrow> copy_position \<Rightarrow> q_result \<times> bool \<times> Queue_t" where
  "xQueueGenericSendFromISR higher q item woken xCopyPosition =
    (if xCopyPosition = queueOVERWRITE \<and> uxLength q \<noteq> 1 then (assert_failed, woken, q)
     else if q_room q xCopyPosition then
       (let lock = cTxLock q;
            q1 = prvCopyDataToQueue q item xCopyPosition
        in if lock = queueUNLOCKED then
             (if xTasksWaitingToReceive q1 \<noteq> []
              then (pdPASS, woken \<or> higher,
                    q1\<lparr>xTasksWaitingToReceive := tl (xTasksWaitingToReceive q1)\<rparr>)
              else (pdPASS, woken, q1))
           else (pdPASS, woken, q1\<lparr>cTxLock := to_int8 (lock + 1)\<rparr>))
     else (errQUEUE_FULL, woken, q))"

section \<open>Receiving\<close>

definition receive_now :: "Queue_t \<Rightarrow> u8 list \<times> Queue_t" where
  "receive_now q =
    (let n = uxMessagesWaiting q;
         (item, q1) = prvCopyDataFromQueue q;
         q2 = q1\<lparr>uxMessagesWaiting := n - 1\<rparr>
     in (item, if xTasksWaitingToSend q2 \<noteq> []
               then q2\<lparr>xTasksWaitingToSend := tl (xTasksWaitingToSend q2)\<rparr> else q2))"

fun xQueueReceive_loop ::
  "(nat \<Rightarrow> nat list \<Rightarrow> nat list) \<Rightarrow> nat \<Rightarrow> bool \<Rightarrow> env_step list \<Rightarrow> Queue_t \<Rightarrow>
   q_result \<times> u8 list \<times> Queue_t" where
  "xQueueReceive_loop place me wait [] q =
    (if uxMessagesWaiting q > 0 then (pdPASS, receive_now q)
     else if \<not> wait then (errQUEUE_EMPTY, [], q)
     else (still_blocked, [], q))"
| "xQueueReceive_loop place me wait (e # es) q =
    (if uxMessagesWaiting q > 0 then (pdPASS, receive_now q)
     else if \<not> wait then (errQUEUE_EMPTY, [], q)
     else let q1 = prvLockQueue (es_mid e q) in
       if \<not> es_expired e then
         if prvIsQueueEmpty q1 then
           xQueueReceive_loop place me wait es
             (es_wake e (prvUnlockQueue
               (q1\<lparr>xTasksWaitingToReceive := place me (xTasksWaitingToReceive q1)\<rparr>)))
         else
           xQueueReceive_loop place me wait es (es_wake e (prvUnlockQueue q1))
       else
         (let q2 = es_wake e (prvUnlockQueue q1) in
          if prvIsQueueEmpty q2 then (errQUEUE_EMPTY, [], q2)
          else xQueueReceive_loop place me wait es (es_retry e q2)))"

definition xQueueReceive ::
  "(nat \<Rightarrow> nat list \<Rightarrow> nat list) \<Rightarrow> nat \<Rightarrow> env_step list \<Rightarrow> Queue_t \<Rightarrow> nat \<Rightarrow>
   q_result \<times> u8 list \<times> Queue_t" where
  "xQueueReceive place me env q xTicksToWait =
     xQueueReceive_loop place me (xTicksToWait \<noteq> 0) env q"

section \<open>The ring as a list\<close>

definition q_slot :: "Queue_t \<Rightarrow> nat \<Rightarrow> u8 list" where
  "q_slot q i = mem_read (q_storage q) (i * uxItemSize q) (uxItemSize q)"

definition rd_slot :: "Queue_t \<Rightarrow> nat" where
  "rd_slot q = nat (pcReadFrom q) div uxItemSize q"

definition q_items :: "Queue_t \<Rightarrow> u8 list list" where
  "q_items q = map (\<lambda>k. q_slot q ((rd_slot q + 1 + k) mod uxLength q)) [0..<uxMessagesWaiting q]"

definition q_inv :: "Queue_t \<Rightarrow> bool" where
  "q_inv q \<longleftrightarrow> 0 < uxLength q \<and> 0 < uxItemSize q \<and>
     length (q_storage q) = uxLength q * uxItemSize q \<and>
     pcTail q = int (uxLength q * uxItemSize q) \<and>
     uxMessagesWaiting q \<le> uxLength q \<and>
     rd_slot q < uxLength q \<and>
     pcReadFrom q = int (rd_slot q * uxItemSize q) \<and>
     pcWriteTo q = int (((rd_slot q + 1 + uxMessagesWaiting q) mod uxLength q) * uxItemSize q)"

definition q_fits :: "Queue_t \<Rightarrow> u8 list \<Rightarrow> bool" where
  "q_fits q item \<longleftrightarrow> length item = uxItemSize q"

lemma length_q_items [simp]: "length (q_items q) = uxMessagesWaiting q"
  by (simp add: q_items_def)

lemma q_inv_bound: "q_inv q \<Longrightarrow> length (q_items q) \<le> uxLength q"
  by (simp add: q_inv_def)

text \<open>Slots: writing one leaves the others alone, and every slot lies inside the storage.\<close>

lemma slot_inside:
  fixes i len sz :: nat
  assumes "i < len"
  shows "i * sz + sz \<le> len * sz"
proof -
  have "Suc i * sz \<le> len * sz" using assms by (intro mult_le_mono1) simp
  then show ?thesis by simp
qed

lemma slot_apart:
  fixes i j sz :: nat
  assumes "i \<noteq> j"
  shows "i * sz + sz \<le> j * sz \<or> j * sz + sz \<le> i * sz"
proof (cases "i < j")
  case True
  then show ?thesis using slot_inside [of i j sz] by simp
next
  case False
  with assms show ?thesis using slot_inside [of j i sz] by simp
qed

lemma mem_read_slot_write:
  fixes i j sz len :: nat
  assumes "length st = len * sz" "i < len" "j < len" "length d = sz"
  shows "mem_read (mem_write st (j * sz) d) (i * sz) sz =
    (if i = j then d else mem_read st (i * sz) sz)"
proof (cases "i = j")
  case True
  then show ?thesis
    using assms slot_inside [of j len sz] by (simp add: mem_read_write_same)
next
  case False
  then show ?thesis
    using assms slot_inside [of j len sz] slot_inside [of i len sz] slot_apart [OF False, of sz]
    by (simp add: mem_read_write_disjoint)
qed

text \<open>Moving a slot pointer one item forward or backward with the wrap-around of the code.\<close>

lemma ptr_forward:
  assumes "0 < sz" "r < len"
  shows "(if int (r * sz) + int sz \<ge> int (len * sz) then 0 else int (r * sz) + int sz) =
    int ((r + 1) mod len * sz)"
proof (cases "r + 1 = len")
  case True
  then have "len = Suc r" by simp
  then show ?thesis using assms by (simp add: algebra_simps)
next
  case False
  then have lt: "r + 1 < len" using assms by simp
  then have "(r + 1) * sz < len * sz" using assms by (intro mult_strict_right_mono) auto
  then show ?thesis
    using lt by (simp add: algebra_simps flip: of_nat_add of_nat_mult)
qed

lemma ptr_backward:
  assumes "0 < sz" "r < len"
  shows "(if int (r * sz) - int sz < 0 then int (len * sz) - int sz else int (r * sz) - int sz) =
    int ((r + (len - 1)) mod len * sz)"
proof (cases r)
  case 0
  have "(len - 1) mod len = len - 1" using assms by simp
  moreover have "int (len * sz) - int sz = int ((len - 1) * sz)"
    using assms by (cases len) (simp_all add: algebra_simps)
  ultimately show ?thesis using 0 assms by simp
next
  case (Suc r')
  have "(r + (len - 1)) mod len = r'"
  proof -
    have "r + (len - 1) = r' + len" using Suc assms by simp
    then show ?thesis using Suc assms by simp
  qed
  moreover have "\<not> int r' * int sz < 0" by (simp add: not_less)
  ultimately show ?thesis using Suc by (simp add: algebra_simps)
qed

section \<open>Every operation acts as a bounded FIFO\<close>

lemma copy_back_eq:
  assumes "q_inv q" "q_fits q item"
  shows "prvCopyDataToQueue q item queueSEND_TO_BACK =
    q\<lparr>q_storage := mem_write (q_storage q)
        ((rd_slot q + 1 + uxMessagesWaiting q) mod uxLength q * uxItemSize q) item,
      pcWriteTo := int ((rd_slot q + 1 + Suc (uxMessagesWaiting q)) mod uxLength q * uxItemSize q),
      uxMessagesWaiting := Suc (uxMessagesWaiting q)\<rparr>"
proof -
  let ?w = "(rd_slot q + 1 + uxMessagesWaiting q) mod uxLength q"
  have w: "?w < uxLength q" using assms by (simp add: q_inv_def)
  have "(?w + 1) mod uxLength q = (rd_slot q + 1 + Suc (uxMessagesWaiting q)) mod uxLength q"
    by (simp add: mod_simps)
  then show ?thesis
    using assms ptr_forward [OF _ w, of "uxItemSize q"]
    by (auto simp: prvCopyDataToQueue_def Let_def q_inv_def q_fits_def split: if_splits)
qed

lemma copy_front_eq:
  assumes "q_inv q" "q_fits q item" "pos \<noteq> queueSEND_TO_BACK"
  shows "prvCopyDataToQueue q item pos =
    q\<lparr>q_storage := mem_write (q_storage q) (rd_slot q * uxItemSize q) item,
      pcReadFrom := int ((rd_slot q + (uxLength q - 1)) mod uxLength q * uxItemSize q),
      uxMessagesWaiting :=
        Suc (if pos = queueOVERWRITE then uxMessagesWaiting q - 1 else uxMessagesWaiting q)\<rparr>"
proof -
  have r: "rd_slot q < uxLength q" using assms by (simp add: q_inv_def)
  show ?thesis
    using assms ptr_backward [OF _ r, of "uxItemSize q"]
    by (auto simp: prvCopyDataToQueue_def Let_def q_inv_def q_fits_def split: if_splits)
qed

lemma rd_slot_of: "0 < uxItemSize q \<Longrightarrow> pcReadFrom q = int (r * uxItemSize q) \<Longrightarrow> rd_slot q = r"
  by (simp add: rd_slot_def flip: of_nat_mult)

lemma copy_back_refines:
  assumes inv: "q_inv q" and fits: "q_fits q item" and room: "uxMessagesWaiting q < uxLength q"
  shows "q_inv (prvCopyDataToQueue q item queueSEND_TO_BACK)" (is "q_inv ?q'")
    and "q_items (prvCopyDataToQueue q item queueSEND_TO_BACK) = q_items q @ [item]"
proof -
  let ?n = "uxMessagesWaiting q" and ?len = "uxLength q" and ?sz = "uxItemSize q"
  let ?r = "rd_slot q"
  let ?w = "(?r + 1 + ?n) mod ?len"
  note eq = copy_back_eq [OF inv fits]
  have len: "0 < ?len" and w: "?w < ?len" using inv by (auto simp: q_inv_def)
  have rd: "rd_slot ?q' = ?r" by (simp add: eq rd_slot_def)
  have slot: "q_slot ?q' i = (if i = ?w then item else q_slot q i)" if "i < ?len" for i
    using inv fits w that mem_read_slot_write [of "q_storage q" ?len ?sz i ?w item]
    by (simp add: q_slot_def eq q_inv_def q_fits_def)
  have "?w * ?sz + ?sz \<le> length (q_storage q)"
    using inv slot_inside [OF w, of ?sz] by (simp add: q_inv_def)
  then show "q_inv ?q'"
    using inv fits room by (auto simp: q_inv_def q_fits_def eq rd_slot_def)
  have "(?r + 1 + k) mod ?len \<noteq> ?w" if "k < ?n" for k
    using ring_slot_inj [of k ?len ?n "?r + 1"] that room by auto
  then have "map (\<lambda>k. q_slot ?q' ((?r + 1 + k) mod ?len)) [0..<?n] = q_items q"
    using len by (auto simp: q_items_def slot)
  moreover have "q_slot ?q' ?w = item" using slot [OF w] by simp
  ultimately show "q_items ?q' = q_items q @ [item]"
    unfolding q_items_def [of ?q'] rd by (simp add: eq)
qed

lemma copy_front_refines:
  assumes inv: "q_inv q" and fits: "q_fits q item" and room: "uxMessagesWaiting q < uxLength q"
  shows "q_inv (prvCopyDataToQueue q item queueSEND_TO_FRONT)" (is "q_inv ?q'")
    and "q_items (prvCopyDataToQueue q item queueSEND_TO_FRONT) = item # q_items q"
proof -
  let ?n = "uxMessagesWaiting q" and ?len = "uxLength q" and ?sz = "uxItemSize q"
  let ?r = "rd_slot q"
  let ?r' = "(?r + (?len - 1)) mod ?len"
  have ne: "queueSEND_TO_FRONT \<noteq> queueSEND_TO_BACK" by simp
  note eq = copy_front_eq [OF inv fits ne]
  have len: "0 < ?len" and r: "?r < ?len" using inv by (auto simp: q_inv_def)
  have rd: "rd_slot ?q' = ?r'" using inv by (intro rd_slot_of) (auto simp: eq q_inv_def)
  have step: "(?r' + 1 + k) mod ?len = (?r + k) mod ?len" for k
  proof -
    have "(?r' + (1 + k)) mod ?len = (?r + (?len - 1) + (1 + k)) mod ?len"
      by (rule mod_add_left_eq)
    also have "?r + (?len - 1) + (1 + k) = (?r + k) + ?len" using len by simp
    finally show ?thesis by simp
  qed
  have slot: "q_slot ?q' i = (if i = ?r then item else q_slot q i)" if "i < ?len" for i
    using inv fits r that mem_read_slot_write [of "q_storage q" ?len ?sz i ?r item]
    by (simp add: q_slot_def eq q_inv_def q_fits_def)
  have "?r * ?sz + ?sz \<le> length (q_storage q)"
    using inv slot_inside [OF r, of ?sz] by (simp add: q_inv_def)
  then show "q_inv ?q'"
    using inv fits room rd step [of "Suc ?n"] by (auto simp: q_inv_def q_fits_def eq)
  have "(?r + Suc k) mod ?len \<noteq> ?r" if "k < ?n" for k
    using ring_slot_inj [of "Suc k" ?len 0 ?r] that room r by auto
  then have "map (\<lambda>k. q_slot ?q' ((?r + Suc k) mod ?len)) [0..<?n] = q_items q"
    using len by (auto simp: q_items_def slot)
  moreover have "q_slot ?q' (?r mod ?len) = item" using slot [OF r] r by simp
  moreover have "q_items ?q' = map (\<lambda>k. q_slot ?q' ((?r + k) mod ?len)) [0..<Suc ?n]"
  proof -
    have uxn: "uxMessagesWaiting ?q' = Suc ?n" and uxl: "uxLength ?q' = ?len" by (simp_all add: eq)
    show ?thesis unfolding q_items_def rd uxn uxl step ..
  qed
  ultimately show "q_items ?q' = item # q_items q"
    by (simp add: map_upt_Suc del: upt_Suc)
qed

lemma copy_overwrite_refines:
  assumes inv: "q_inv q" and fits: "q_fits q item" and one: "uxLength q = 1"
  shows "q_inv (prvCopyDataToQueue q item queueOVERWRITE)" (is "q_inv ?q'")
    and "q_items (prvCopyDataToQueue q item queueOVERWRITE) = [item]"
proof -
  have ne: "queueOVERWRITE \<noteq> queueSEND_TO_BACK" by simp
  note eq = copy_front_eq [OF inv fits ne]
  have r: "rd_slot q = 0" and n: "uxMessagesWaiting q \<le> 1" using inv one by (auto simp: q_inv_def)
  have "mem_write (q_storage q) 0 item = item"
    using inv fits one by (simp add: q_inv_def q_fits_def mem_write_def)
  then show "q_inv ?q'" "q_items ?q' = [item]"
    using inv fits one n
    by (auto simp: q_inv_def q_fits_def eq r one rd_slot_def q_items_def q_slot_def mem_read_def)
qed

lemma receive_eq:
  assumes inv: "q_inv q"
  shows "prvCopyDataFromQueue q =
    (q_slot q ((rd_slot q + 1) mod uxLength q),
     q\<lparr>pcReadFrom := int ((rd_slot q + 1) mod uxLength q * uxItemSize q)\<rparr>)"
proof -
  have r: "rd_slot q < uxLength q" using inv by (simp add: q_inv_def)
  show ?thesis
    using inv ptr_forward [OF _ r, of "uxItemSize q"]
    by (auto simp: prvCopyDataFromQueue_def Let_def q_inv_def q_slot_def split: if_splits)
qed

lemma q_items_waiters [simp]:
  "q_items (q\<lparr>xTasksWaitingToReceive := a\<rparr>) = q_items q"
  "q_items (q\<lparr>xTasksWaitingToSend := b\<rparr>) = q_items q"
  "q_items (q\<lparr>cTxLock := c\<rparr>) = q_items q"
  "q_items (q\<lparr>cRxLock := d\<rparr>) = q_items q"
  by (simp_all add: q_items_def q_slot_def rd_slot_def)

lemma q_inv_waiters [simp]:
  "q_inv (q\<lparr>xTasksWaitingToReceive := a\<rparr>) = q_inv q"
  "q_inv (q\<lparr>xTasksWaitingToSend := b\<rparr>) = q_inv q"
  "q_inv (q\<lparr>cTxLock := c\<rparr>) = q_inv q"
  "q_inv (q\<lparr>cRxLock := d\<rparr>) = q_inv q"
  by (simp_all add: q_inv_def rd_slot_def)

lemma receive_now_refines:
  assumes inv: "q_inv q" and some: "0 < uxMessagesWaiting q"
    and res: "receive_now q = (item, q')"
  shows "q_inv q'" and "q_items q = item # q_items q'"
    and "uxLength q' = uxLength q" and "uxItemSize q' = uxItemSize q"
proof -
  let ?len = "uxLength q" and ?r = "rd_slot q"
  let ?q1 = "q\<lparr>pcReadFrom := int ((?r + 1) mod ?len * uxItemSize q),
               uxMessagesWaiting := uxMessagesWaiting q - 1\<rparr>"
  obtain n where n: "uxMessagesWaiting q = Suc n" using some by (cases "uxMessagesWaiting q") auto
  have item: "item = q_slot q ((?r + 1) mod ?len)"
    and q': "q' = (if xTasksWaitingToSend ?q1 \<noteq> []
                   then ?q1\<lparr>xTasksWaitingToSend := tl (xTasksWaitingToSend ?q1)\<rparr> else ?q1)"
    using res by (auto simp: receive_now_def receive_eq [OF inv] Let_def)
  have rd: "rd_slot ?q1 = (?r + 1) mod ?len"
    using inv by (intro rd_slot_of) (auto simp: q_inv_def)
  have step: "((?r + 1) mod ?len + 1 + k) mod ?len = (?r + 1 + Suc k) mod ?len" for k
    using mod_add_left_eq [of "?r + 1" ?len "1 + k"] by simp
  have "q_inv ?q1"
    using inv n rd step [of n] by (auto simp: q_inv_def)
  then show "q_inv q'" by (simp add: q')
  have "q_items ?q1 = map (\<lambda>k. q_slot q ((?r + 1 + Suc k) mod ?len)) [0..<n]"
  proof -
    have "q_items ?q1 = map (\<lambda>k. q_slot q (((?r + 1) mod ?len + 1 + k) mod ?len)) [0..<n]"
      unfolding q_items_def rd by (simp add: n q_slot_def)
    then show ?thesis unfolding step .
  qed
  moreover have "q_items q = map (\<lambda>k. q_slot q ((?r + 1 + k) mod ?len)) [0..<Suc n]"
    by (simp add: q_items_def n)
  ultimately have "q_items q = item # q_items ?q1"
    by (simp add: item map_upt_Suc del: upt_Suc)
  then show "q_items q = item # q_items q'" by (simp add: q')
  show "uxLength q' = uxLength q" "uxItemSize q' = uxItemSize q" by (simp_all add: q')
qed

lemma copy_frame [simp]:
  "uxLength (prvCopyDataToQueue q item pos) = uxLength q"
  "uxItemSize (prvCopyDataToQueue q item pos) = uxItemSize q"
  by (simp_all add: prvCopyDataToQueue_def Let_def)

lemma send_now_back:
  assumes "q_inv q" "q_fits q item" "uxMessagesWaiting q < uxLength q"
  shows "q_inv (send_now q item queueSEND_TO_BACK)"
    and "q_items (send_now q item queueSEND_TO_BACK) = q_items q @ [item]"
    and "uxLength (send_now q item queueSEND_TO_BACK) = uxLength q"
    and "uxItemSize (send_now q item queueSEND_TO_BACK) = uxItemSize q"
  using copy_back_refines [OF assms] by (simp_all add: send_now_def Let_def)

lemma isr_send_back:
  assumes "q_inv q" "q_fits q item"
    and "xQueueGenericSendFromISR higher q item woken queueSEND_TO_BACK = (res, woken', q')"
  shows "if uxMessagesWaiting q < uxLength q
         then res = pdPASS \<and> q_inv q' \<and> q_items q' = q_items q @ [item]
         else res = errQUEUE_FULL \<and> q' = q"
  using assms copy_back_refines [OF assms(1,2)]
  by (auto simp: xQueueGenericSendFromISR_def q_room_def Let_def split: if_splits)

lemma create_refines:
  assumes "xQueueGenericCreate sz_q malloc len sz = Created q"
    and "0 < sz" and "\<And>n b. malloc n = Some b \<Longrightarrow> length b = n"
  shows "q_inv q \<and> q_items q = [] \<and> uxLength q = len \<and> uxItemSize q = sz"
proof -
  let ?bytes = "wrap32 (len * sz)"
  have len: "0 < len" and nowrap: "len = ?bytes div sz"
    and "\<exists>b. malloc (sz_q + ?bytes) = Some b \<and> q = prvInitialiseNewQueue len sz (drop sz_q b)"
    using assms(1,2)
    by (auto simp: xQueueGenericCreate_def Let_def split: if_splits option.splits)
  then obtain b where b: "length b = sz_q + ?bytes"
    and q: "q = prvInitialiseNewQueue len sz (drop sz_q b)"
    using assms(3) by blast
  have "len * sz \<le> ?bytes"
    using div_times_less_eq_dividend [of ?bytes sz] by (simp only: nowrap [symmetric])
  then have bytes: "?bytes = len * sz" by (simp add: wrap32_le le_antisym)
  have rd: "nat ((int len - 1) * int sz) div sz = len - 1"
    using len assms(2) by (cases len) simp_all
  have "(len - 1 + 1 + 0) mod len = 0" using len by simp
  then show ?thesis
    using len assms(2) b bytes rd
    by (auto simp: q prvInitialiseNewQueue_def xQueueGenericReset_def q_inv_def q_items_def
        rd_slot_def of_nat_diff)
qed

section \<open>The interface of a bounded FIFO\<close>

datatype 'a fifo_op = Put 'a | Get

datatype 'a fifo_out = Accepted | Rejected | Got 'a | NoItem

text \<open>A run of non-blocking operations on an implementation, and the same run on a list.\<close>

fun fifo_run ::
  "('q \<Rightarrow> 'a \<Rightarrow> 'q option) \<Rightarrow> ('q \<Rightarrow> ('a \<times> 'q) option) \<Rightarrow> 'a fifo_op list \<Rightarrow> 'q \<Rightarrow>
   'a fifo_out list \<times> 'q" where
  "fifo_run put get [] q = ([], q)"
| "fifo_run put get (Put x # ops) q =
    (case put q x of
       None \<Rightarrow> (let (outs, q') = fifo_run put get ops q in (Rejected # outs, q'))
     | Some q1 \<Rightarrow> (let (outs, q') = fifo_run put get ops q1 in (Accepted # outs, q')))"
| "fifo_run put get (Get # ops) q =
    (case get q of
       None \<Rightarrow> (let (outs, q') = fifo_run put get ops q in (NoItem # outs, q'))
     | Some (x, q1) \<Rightarrow> (let (outs, q') = fifo_run put get ops q1 in (Got x # outs, q')))"

fun list_put :: "nat \<Rightarrow> 'a list \<Rightarrow> 'a \<Rightarrow> 'a list option" where
  "list_put cap xs x = (if length xs < cap then Some (xs @ [x]) else None)"

fun list_get :: "'a list \<Rightarrow> ('a \<times> 'a list) option" where
  "list_get [] = None"
| "list_get (x # xs) = Some (x, xs)"

fun ops_ok :: "('a \<Rightarrow> bool) \<Rightarrow> 'a fifo_op list \<Rightarrow> bool" where
  "ops_ok P [] = True"
| "ops_ok P (Put x # ops) = (P x \<and> ops_ok P ops)"
| "ops_ok P (Get # ops) = ops_ok P ops"

locale bounded_fifo =
  fixes inv :: "'q \<Rightarrow> bool"
    and items :: "'q \<Rightarrow> 'a list"
    and cap :: "'q \<Rightarrow> nat"
    and fits :: "'q \<Rightarrow> 'a \<Rightarrow> bool"
    and put :: "'q \<Rightarrow> 'a \<Rightarrow> 'q option"
    and get :: "'q \<Rightarrow> ('a \<times> 'q) option"
  assumes bounded: "inv q \<Longrightarrow> length (items q) \<le> cap q"
    and put_refines: "inv q \<Longrightarrow> fits q x \<Longrightarrow>
      map_option items (put q x) = list_put (cap q) (items q) x"
    and put_keeps: "inv q \<Longrightarrow> fits q x \<Longrightarrow> put q x = Some q' \<Longrightarrow>
      inv q' \<and> cap q' = cap q \<and> fits q' = fits q"
    and get_refines: "inv q \<Longrightarrow>
      map_option (map_prod id items) (get q) = list_get (items q)"
    and get_keeps: "inv q \<Longrightarrow> get q = Some (x, q') \<Longrightarrow>
      inv q' \<and> cap q' = cap q \<and> fits q' = fits q"
begin

lemma put_cases:
  assumes "inv q" "fits q x"
  obtains "cap q \<le> length (items q)" "put q x = None"
  | q' where "length (items q) < cap q" "put q x = Some q'" "inv q'"
      "items q' = items q @ [x]" "cap q' = cap q" "fits q' = fits q"
proof (cases "put q x")
  case None
  then show ?thesis using put_refines [OF assms] that(1) by (auto split: if_splits)
next
  case (Some q')
  then show ?thesis
    using put_refines [OF assms] put_keeps [OF assms Some] that(2) by (auto split: if_splits)
qed

lemma get_cases:
  assumes "inv q"
  obtains "items q = []" "get q = None"
  | x q' where "get q = Some (x, q')" "inv q'" "items q = x # items q'"
      "cap q' = cap q" "fits q' = fits q"
proof (cases "get q")
  case None
  then show ?thesis using get_refines [OF assms] that(1) by (cases "items q") auto
next
  case (Some p)
  then obtain x q' where "get q = Some (x, q')" by (cases p) auto
  then show ?thesis
    using get_refines [OF assms] get_keeps [OF assms] that(2) by (cases "items q") auto
qed

lemma run_refines:
  assumes "inv q" "ops_ok (fits q) ops"
  shows "map_prod id items (fifo_run put get ops q) =
    fifo_run (list_put (cap q)) list_get ops (items q)"
  using assms
proof (induction ops arbitrary: q)
  case Nil
  then show ?case by simp
next
  case (Cons op ops)
  show ?case
  proof (cases op)
    case (Put x)
    with Cons.prems have fx: "fits q x" and ok: "ops_ok (fits q) ops" by auto
    from \<open>inv q\<close> fx show ?thesis
    proof (rule put_cases)
      assume "cap q \<le> length (items q)" "put q x = None"
      then show ?thesis
        using Cons.IH [OF \<open>inv q\<close> ok] Put by (auto split: prod.splits)
    next
      fix q' assume q': "length (items q) < cap q" "put q x = Some q'" "inv q'"
        "items q' = items q @ [x]" "cap q' = cap q" "fits q' = fits q"
      then show ?thesis
        using Cons.IH [of q'] ok Put by (auto split: prod.splits)
    qed
  next
    case Get
    with Cons.prems have ok: "ops_ok (fits q) ops" by auto
    from \<open>inv q\<close> show ?thesis
    proof (rule get_cases)
      assume "items q = []" "get q = None"
      then show ?thesis
        using Cons.IH [OF \<open>inv q\<close> ok] Get by (auto split: prod.splits)
    next
      fix x q' assume q': "get q = Some (x, q')" "inv q'" "items q = x # items q'"
        "cap q' = cap q" "fits q' = fits q"
      then show ?thesis
        using Cons.IH [of q'] ok Get by (auto split: prod.splits)
    qed
  qed
qed

text \<open>Replacing the oldest item when the queue is full: after one \<open>get\<close> the second \<open>put\<close>
  always has room.\<close>

lemma evict_then_put:
  assumes "inv q" "fits q x" "0 < cap q" "put q x = None"
  shows "\<exists>y q1 q2. get q = Some (y, q1) \<and> put q1 x = Some q2 \<and> inv q2 \<and>
    items q = y # items q1 \<and> items q2 = tl (items q) @ [x]"
proof -
  from assms have full: "cap q \<le> length (items q)"
    using put_refines [OF assms(1,2)] by (auto split: if_splits)
  from \<open>inv q\<close> show ?thesis
  proof (rule get_cases)
    assume "items q = []"
    with full \<open>0 < cap q\<close> show ?thesis by simp
  next
    fix y q1
    assume y: "get q = Some (y, q1)" "inv q1" "items q = y # items q1"
      "cap q1 = cap q" "fits q1 = fits q"
    then have "fits q1 x" using assms by simp
    with \<open>inv q1\<close> show ?thesis
      by (rule put_cases) (use y bounded [OF \<open>inv q\<close>] in auto)
  qed
qed

end

text \<open>\<^verbatim>\<open>xQueueSend\<close> and \<^verbatim>\<open>xQueueReceive\<close> with a block time of zero, as the camera task calls them.\<close>

definition queue_put :: "Queue_t \<Rightarrow> u8 list \<Rightarrow> Queue_t option" where
  "queue_put q item =
    (case xQueueGenericSend (\<lambda>_ ws. ws) 0 [] q item 0 queueSEND_TO_BACK of
       (pdPASS, q') \<Rightarrow> Some q' | _ \<Rightarrow> None)"

definition queue_get :: "Queue_t \<Rightarrow> (u8 list \<times> Queue_t) option" where
  "queue_get q =
    (case xQueueReceive (\<lambda>_ ws. ws) 0 [] q 0 of (pdPASS, r) \<Rightarrow> Some r | _ \<Rightarrow> None)"

lemma queue_put_eq:
  "queue_put q item =
    (if uxMessagesWaiting q < uxLength q then Some (send_now q item queueSEND_TO_BACK) else None)"
  by (simp add: queue_put_def xQueueGenericSend_def q_room_def)

lemma queue_get_eq:
  "queue_get q = (if 0 < uxMessagesWaiting q then Some (receive_now q) else None)"
  by (simp add: queue_get_def xQueueReceive_def)

interpretation rtos: bounded_fifo q_inv q_items uxLength q_fits queue_put queue_get
proof
  fix q x q'
  show "q_inv q \<Longrightarrow> length (q_items q) \<le> uxLength q" by (rule q_inv_bound)
  show "q_inv q \<Longrightarrow> q_fits q x \<Longrightarrow>
      map_option q_items (queue_put q x) = list_put (uxLength q) (q_items q) x"
    by (simp add: queue_put_eq send_now_back)
  show "q_inv q \<Longrightarrow> q_fits q x \<Longrightarrow> queue_put q x = Some q' \<Longrightarrow>
      q_inv q' \<and> uxLength q' = uxLength q \<and> q_fits q' = q_fits q"
    by (auto simp: queue_put_eq send_now_back q_fits_def fun_eq_iff split: if_splits)
next
  fix q
  assume inv: "q_inv q"
  show "map_option (map_prod id q_items) (queue_get q) = list_get (q_items q)"
  proof (cases "0 < uxMessagesWaiting q")
    case True
    obtain x q' where r: "receive_now q = (x, q')" by (cases "receive_now q")
    show ?thesis using receive_now_refines [OF inv True r] True r by (simp add: queue_get_eq)
  next
    case False
    then show ?thesis by (simp add: queue_get_eq q_items_def)
  qed
next
  fix q x q'
  assume inv: "q_inv q" and got: "queue_get q = Some (x, q')"
  then have n: "0 < uxMessagesWaiting q" and r: "receive_now q = (x, q')"
    by (auto simp: queue_get_eq split: if_splits)
  show "q_inv q' \<and> uxLength q' = uxLength q \<and> q_fits q' = q_fits q"
    using receive_now_refines [OF inv n r] by (auto simp: q_fits_def fun_eq_iff)
qed

section \<open>Blocking calls\<close>

text \<open>What the other tasks and interrupts may do: they use the queue through its operations,
  so they keep its invariant and its geometry.\<close>

definition keeps_queue :: "(Queue_t \<Rightarrow> Queue_t) \<Rightarrow> bool" where
  "keeps_queue f \<longleftrightarrow> (\<forall>q. q_inv q \<longrightarrow>
     q_inv (f q) \<and> uxLength (f q) = uxLength q \<and> uxItemSize (f q) = uxItemSize q)"

definition env_keeps :: "env_step \<Rightarrow> bool" where
  "env_keeps e \<longleftrightarrow> keeps_queue (es_mid e) \<and> keeps_queue (es_wake e) \<and> keeps_queue (es_retry e)"

lemma lock_unlock_inv [simp]:
  "q_inv (prvLockQueue q) = q_inv q" "q_inv (prvUnlockQueue q) = q_inv q"
  "q_items (prvLockQueue q) = q_items q" "q_items (prvUnlockQueue q) = q_items q"
  "uxLength (prvLockQueue q) = uxLength q" "uxLength (prvUnlockQueue q) = uxLength q"
  "uxItemSize (prvLockQueue q) = uxItemSize q" "uxItemSize (prvUnlockQueue q) = uxItemSize q"
  by (simp_all add: prvLockQueue_def prvUnlockQueue_def Let_def)

lemma keeps_queueD:
  assumes "keeps_queue f" "q_inv q"
  shows "q_inv (f q)" "uxLength (f q) = uxLength q" "uxItemSize (f q) = uxItemSize q"
  using assms by (auto simp: keeps_queue_def)

lemma send_loop_safe:
  assumes "q_inv q" "length item = uxItemSize q" "\<forall>e\<in>set env. env_keeps e"
    and "xQueueGenericSend_loop place me item wait queueSEND_TO_BACK env q = (res, q')"
  shows "q_inv q' \<and> uxLength q' = uxLength q \<and> uxItemSize q' = uxItemSize q \<and>
    (res = pdPASS \<longrightarrow> (\<exists>q0. q_inv q0 \<and> uxLength q0 = uxLength q \<and>
       q_items q' = q_items q0 @ [item])) \<and>
    (res = errQUEUE_FULL \<longrightarrow> \<not> wait \<or> (\<exists>e\<in>set env. es_expired e)) \<and>
    res \<in> {pdPASS, errQUEUE_FULL, still_blocked}"
  using assms
proof (induction env arbitrary: q)
  case Nil
  then show ?case
    by (auto simp: q_room_def send_now_back q_fits_def split: if_splits)
next
  case (Cons e env)
  show ?case
  proof (cases "uxMessagesWaiting q < uxLength q \<or> \<not> wait")
    case True
    then show ?thesis
      using Cons.prems by (auto simp: q_room_def send_now_back q_fits_def split: if_splits)
  next
    case False
    let ?q1 = "prvLockQueue (es_mid e q)"
    let ?next = "\<lambda>q2. es_wake e (prvUnlockQueue q2)"
    have e: "keeps_queue (es_mid e)" "keeps_queue (es_wake e)"
      using Cons.prems(3) by (auto simp: env_keeps_def)
    note mid = keeps_queueD [OF e(1) \<open>q_inv q\<close>]
    have go: "?thesis" if "q_inv q2" "uxLength q2 = uxLength q" "uxItemSize q2 = uxItemSize q"
      "xQueueGenericSend_loop place me item wait queueSEND_TO_BACK env (?next q2) = (res, q')" for q2
      using Cons.IH [of "?next q2"] keeps_queueD [OF e(2), of "prvUnlockQueue q2"] that Cons.prems
      by auto
    show ?thesis
    proof (cases "es_expired e")
      case True
      then show ?thesis using Cons.prems(4) False mid by (auto simp: q_room_def Let_def)
    next
      case no: False
      let ?q2 = "if prvIsQueueFull ?q1
        then ?q1\<lparr>xTasksWaitingToSend := place me (xTasksWaitingToSend ?q1)\<rparr> else ?q1"
      show ?thesis
        by (rule go [of ?q2]) (use Cons.prems(4) False no mid in \<open>auto simp: q_room_def Let_def\<close>)
    qed
  qed
qed

lemma receive_loop_safe:
  assumes "q_inv q" "\<forall>e\<in>set env. env_keeps e"
    and "xQueueReceive_loop place me wait env q = (res, item, q')"
  shows "q_inv q' \<and> uxLength q' = uxLength q \<and> uxItemSize q' = uxItemSize q \<and>
    (res = pdPASS \<longrightarrow> (\<exists>q0. q_inv q0 \<and> q_items q0 = item # q_items q')) \<and>
    (res = errQUEUE_EMPTY \<longrightarrow>
       q_items q' = [] \<and> (\<not> wait \<or> (\<exists>e\<in>set env. es_expired e))) \<and>
    res \<in> {pdPASS, errQUEUE_EMPTY, still_blocked}"
  using assms
proof (induction env arbitrary: q)
  case Nil
  then show ?case
    by (auto split: if_splits dest: receive_now_refines intro!: exI [of _ q] simp: q_items_def)
next
  case (Cons e env)
  show ?case
  proof (cases "0 < uxMessagesWaiting q \<or> \<not> wait")
    case True
    then show ?thesis
      using Cons.prems
      by (auto split: if_splits dest: receive_now_refines intro!: exI [of _ q] simp: q_items_def)
  next
    case False
    have e: "keeps_queue (es_mid e)" "keeps_queue (es_wake e)" "keeps_queue (es_retry e)"
      using Cons.prems(2) by (auto simp: env_keeps_def)
    note mid = keeps_queueD [OF e(1) \<open>q_inv q\<close>]
    have go: "?thesis" if "q_inv q2" "uxLength q2 = uxLength q" "uxItemSize q2 = uxItemSize q"
      "xQueueReceive_loop place me wait env q2 = (res, item, q')" for q2
      using Cons.IH [of q2] that Cons.prems by auto
    let ?q1 = "prvLockQueue (es_mid e q)"
    show ?thesis
    proof (cases "es_expired e")
      case True
      let ?q2 = "es_wake e (prvUnlockQueue ?q1)"
      have q2: "q_inv ?q2" "uxLength ?q2 = uxLength q" "uxItemSize ?q2 = uxItemSize q"
        using keeps_queueD [OF e(2), of "prvUnlockQueue ?q1"] mid by auto
      show ?thesis
      proof (cases "prvIsQueueEmpty ?q2")
        case True
        then show ?thesis
          using Cons.prems(3) False \<open>es_expired e\<close> q2
          by (auto simp: Let_def prvIsQueueEmpty_def q_items_def)
      next
        case more: False
        show ?thesis
          by (rule go [of "es_retry e ?q2"])
            (use Cons.prems(3) False \<open>es_expired e\<close> more keeps_queueD [OF e(3) q2(1)] q2 in
              \<open>auto simp: Let_def\<close>)
      qed
    next
      case no: False
      let ?q2 = "es_wake e (prvUnlockQueue (if prvIsQueueEmpty ?q1
        then ?q1\<lparr>xTasksWaitingToReceive := place me (xTasksWaitingToReceive ?q1)\<rparr> else ?q1))"
      have q2: "q_inv ?q2" "uxLength ?q2 = uxLength q" "uxItemSize ?q2 = uxItemSize q"
        using keeps_queueD [OF e(2), of "prvUnlockQueue ?q1"] mid
          keeps_queueD [OF e(2), of "prvUnlockQueue
            (?q1\<lparr>xTasksWaitingToReceive := place me (xTasksWaitingToReceive ?q1)\<rparr>)"]
        by auto
      show ?thesis
        by (rule go [OF q2]) (use Cons.prems(3) False no in \<open>auto simp: Let_def\<close>)
    qed
  qed
qed

section \<open>Properties\<close>

text \<open>C7: any sequence of non-blocking sends and receives on a kernel queue returns the same
  results, and leaves the same contents, as the same sequence on a list bounded by the
  queue's length: items come out in the order they were accepted, a send is refused exactly
  when the queue is full, and a receive fails exactly when it is empty.\<close>

theorem queue_runs_as_bounded_list:
  assumes "q_inv q" and "ops_ok (q_fits q) ops"
  shows "map_prod id q_items (fifo_run queue_put queue_get ops q) =
    fifo_run (list_put (uxLength q)) list_get ops (q_items q)"
  using assms by (rule rtos.run_refines)

definition two_bytes :: Queue_t where
  "two_bytes = prvInitialiseNewQueue 2 1 [0, 0]"

lemma two_bytes_ok: "q_inv two_bytes" "q_items two_bytes = []" "uxLength two_bytes = 2"
  "q_fits two_bytes = (\<lambda>x. length x = 1)"
  by (simp_all add: two_bytes_def prvInitialiseNewQueue_def xQueueGenericReset_def q_inv_def
      rd_slot_def q_items_def q_fits_def fun_eq_iff)

theorem queue_runs_as_bounded_list_witness:
  "map_prod id q_items
     (fifo_run queue_put queue_get [Put [7], Put [9], Put [3], Get, Put [4], Get, Get, Get] two_bytes) =
   ([Accepted, Accepted, Rejected, Got [7], Accepted, Got [9], Got [4], NoItem], [])"
  using queue_runs_as_bounded_list
    [of two_bytes "[Put [7], Put [9], Put [3], Get, Put [4], Get, Get, Get]"]
  by (simp add: two_bytes_ok)

text \<open>A blocking send that returns success has appended its item to the back of the queue
  as it was at that moment; it reports a full queue only when no block time was given or the
  block time expired, so with \<^verbatim>\<open>portMAX_DELAY\<close> it never does; whatever happens the queue stays
  well formed.\<close>

theorem queue_blocking_send:
  assumes "q_inv q" and "q_fits q item" and "\<forall>e\<in>set env. env_keeps e"
    and "xQueueGenericSend place me env q item ticks queueSEND_TO_BACK = (res, q')"
  shows "q_inv q' \<and> uxLength q' = uxLength q \<and>
    (res = pdPASS \<longrightarrow> (\<exists>q0. q_inv q0 \<and> uxLength q0 = uxLength q \<and>
       q_items q' = q_items q0 @ [item])) \<and>
    (res = errQUEUE_FULL \<longrightarrow> ticks = 0 \<or> (\<exists>e\<in>set env. es_expired e)) \<and>
    res \<noteq> assert_failed"
  using assms send_loop_safe [of q item env place me "ticks \<noteq> 0" res q']
  by (auto simp: xQueueGenericSend_def q_fits_def)

theorem queue_blocking_send_witness:
  "q_inv (send_now two_bytes [5] queueSEND_TO_BACK) \<and>
   xQueueGenericSend (\<lambda>_ ws. ws) 0 [] two_bytes [5] 100 queueSEND_TO_BACK =
     (pdPASS, send_now two_bytes [5] queueSEND_TO_BACK)"
proof -
  have run: "xQueueGenericSend (\<lambda>_ ws. ws) 0 [] two_bytes [5] 100 queueSEND_TO_BACK =
     (pdPASS, send_now two_bytes [5] queueSEND_TO_BACK)"
    by (simp add: xQueueGenericSend_def q_room_def two_bytes_def prvInitialiseNewQueue_def
        xQueueGenericReset_def)
  show ?thesis using queue_blocking_send [OF _ _ _ run] run by (simp add: two_bytes_ok)
qed

text \<open>A blocking receive that returns success hands out the oldest item of the queue as it
  was at that moment and removes exactly it; it reports an empty queue only when the queue is
  empty and no block time was given or it expired.\<close>

theorem queue_blocking_receive:
  assumes "q_inv q" and "\<forall>e\<in>set env. env_keeps e"
    and "xQueueReceive place me env q ticks = (res, item, q')"
  shows "q_inv q' \<and> uxLength q' = uxLength q \<and>
    (res = pdPASS \<longrightarrow> (\<exists>q0. q_inv q0 \<and> q_items q0 = item # q_items q')) \<and>
    (res = errQUEUE_EMPTY \<longrightarrow>
       q_items q' = [] \<and> (ticks = 0 \<or> (\<exists>e\<in>set env. es_expired e)))"
  using assms receive_loop_safe [of q env place me "ticks \<noteq> 0" res item q']
  by (auto simp: xQueueReceive_def)

text \<open>A receiver that blocks on an empty queue and is woken by a sender.\<close>

definition one_sender :: env_step where
  "one_sender = \<lparr>es_mid = id, es_expired = False,
     es_wake = (\<lambda>q. if uxMessagesWaiting q < uxLength q \<and> uxItemSize q = 1
                     then send_now q [5] queueSEND_TO_BACK else q),
     es_retry = id\<rparr>"

lemma one_sender_keeps: "env_keeps one_sender"
  by (auto simp: env_keeps_def keeps_queue_def one_sender_def send_now_back q_fits_def)

theorem queue_blocking_receive_witness:
  "xQueueReceive (\<lambda>me ws. ws @ [me]) 9 [one_sender] two_bytes 100 =
     (pdPASS, receive_now (send_now (two_bytes\<lparr>xTasksWaitingToReceive := [9]\<rparr>) [5] queueSEND_TO_BACK)) \<and>
   q_inv (snd (receive_now (send_now (two_bytes\<lparr>xTasksWaitingToReceive := [9]\<rparr>) [5] queueSEND_TO_BACK)))"
proof -
  let ?q = "send_now (two_bytes\<lparr>xTasksWaitingToReceive := [9]\<rparr>) [5] queueSEND_TO_BACK"
  have run: "xQueueReceive (\<lambda>me ws. ws @ [me]) 9 [one_sender] two_bytes 100 = (pdPASS, receive_now ?q)"
    by (simp add: xQueueReceive_def two_bytes_def prvInitialiseNewQueue_def xQueueGenericReset_def
        one_sender_def prvLockQueue_def prvUnlockQueue_def prvIsQueueEmpty_def
        queueUNLOCKED_def queueLOCKED_UNMODIFIED_def send_now_def prvCopyDataToQueue_def)
  show ?thesis
    using run queue_blocking_receive
      [of two_bytes "[one_sender]" "\<lambda>me ws. ws @ [me]" 9 100 pdPASS "fst (receive_now ?q)"
        "snd (receive_now ?q)"]
    by (simp add: two_bytes_ok one_sender_keeps)
qed

end
