(* ===== verification/Camera_Sensor.thy ===== *)
theory Camera_Sensor
  imports Prelude
begin

text \<open>
  The sensor tables of the camera driver: \<^verbatim>\<open>components/esp32-camera/driver/sensor.c\<close> and
  \<^verbatim>\<open>include/sensor.h\<close>. The enumerations are datatypes in the order of the source; an
  enumeration used as an array index has its position as a number.
\<close>

section \<open>Enumerations\<close>

datatype pixformat_t = PIXFORMAT_RGB565 | PIXFORMAT_YUV422 | PIXFORMAT_GRAYSCALE | PIXFORMAT_JPEG
  | PIXFORMAT_RGB888 | PIXFORMAT_RAW | PIXFORMAT_RGB444 | PIXFORMAT_RGB555

datatype framesize_t = FRAMESIZE_96X96 | FRAMESIZE_QQVGA | FRAMESIZE_QCIF | FRAMESIZE_HQVGA
  | FRAMESIZE_240X240 | FRAMESIZE_QVGA | FRAMESIZE_CIF | FRAMESIZE_HVGA | FRAMESIZE_VGA
  | FRAMESIZE_SVGA | FRAMESIZE_XGA | FRAMESIZE_HD | FRAMESIZE_SXGA | FRAMESIZE_UXGA
  | FRAMESIZE_FHD | FRAMESIZE_P_HD | FRAMESIZE_P_3MP | FRAMESIZE_QXGA | FRAMESIZE_QHD
  | FRAMESIZE_WQXGA | FRAMESIZE_P_FHD | FRAMESIZE_QSXGA

datatype aspect_ratio_t = ASPECT_RATIO_4X3 | ASPECT_RATIO_3X2 | ASPECT_RATIO_16X10
  | ASPECT_RATIO_5X3 | ASPECT_RATIO_16X9 | ASPECT_RATIO_21X9 | ASPECT_RATIO_5X4
  | ASPECT_RATIO_1X1 | ASPECT_RATIO_9X16

datatype camera_model_t = CAMERA_OV7725 | CAMERA_OV2640 | CAMERA_OV3660 | CAMERA_OV5640
  | CAMERA_OV7670 | CAMERA_NT99141 | CAMERA_GC2145 | CAMERA_GC032A | CAMERA_GC0308
  | CAMERA_BF3005 | CAMERA_BF20A6

text \<open>All enumerators in order, and the number of each.\<close>

definition framesizes :: "framesize_t list" where
  "framesizes = [FRAMESIZE_96X96, FRAMESIZE_QQVGA, FRAMESIZE_QCIF, FRAMESIZE_HQVGA,
    FRAMESIZE_240X240, FRAMESIZE_QVGA, FRAMESIZE_CIF, FRAMESIZE_HVGA, FRAMESIZE_VGA,
    FRAMESIZE_SVGA, FRAMESIZE_XGA, FRAMESIZE_HD, FRAMESIZE_SXGA, FRAMESIZE_UXGA, FRAMESIZE_FHD,
    FRAMESIZE_P_HD, FRAMESIZE_P_3MP, FRAMESIZE_QXGA, FRAMESIZE_QHD, FRAMESIZE_WQXGA,
    FRAMESIZE_P_FHD, FRAMESIZE_QSXGA]"

definition camera_models :: "camera_model_t list" where
  "camera_models = [CAMERA_OV7725, CAMERA_OV2640, CAMERA_OV3660, CAMERA_OV5640, CAMERA_OV7670,
    CAMERA_NT99141, CAMERA_GC2145, CAMERA_GC032A, CAMERA_GC0308, CAMERA_BF3005, CAMERA_BF20A6]"

primrec framesize_index :: "framesize_t \<Rightarrow> nat" where
  "framesize_index FRAMESIZE_96X96 = 0"
| "framesize_index FRAMESIZE_QQVGA = 1"
| "framesize_index FRAMESIZE_QCIF = 2"
| "framesize_index FRAMESIZE_HQVGA = 3"
| "framesize_index FRAMESIZE_240X240 = 4"
| "framesize_index FRAMESIZE_QVGA = 5"
| "framesize_index FRAMESIZE_CIF = 6"
| "framesize_index FRAMESIZE_HVGA = 7"
| "framesize_index FRAMESIZE_VGA = 8"
| "framesize_index FRAMESIZE_SVGA = 9"
| "framesize_index FRAMESIZE_XGA = 10"
| "framesize_index FRAMESIZE_HD = 11"
| "framesize_index FRAMESIZE_SXGA = 12"
| "framesize_index FRAMESIZE_UXGA = 13"
| "framesize_index FRAMESIZE_FHD = 14"
| "framesize_index FRAMESIZE_P_HD = 15"
| "framesize_index FRAMESIZE_P_3MP = 16"
| "framesize_index FRAMESIZE_QXGA = 17"
| "framesize_index FRAMESIZE_QHD = 18"
| "framesize_index FRAMESIZE_WQXGA = 19"
| "framesize_index FRAMESIZE_P_FHD = 20"
| "framesize_index FRAMESIZE_QSXGA = 21"

text \<open>The product identifiers and bus addresses are 16-bit and 8-bit numbers.\<close>

definition OV9650_PID :: u16 where "OV9650_PID = 0x96"
definition OV7725_PID :: u16 where "OV7725_PID = 0x77"
definition OV2640_PID :: u16 where "OV2640_PID = 0x26"
definition OV3660_PID :: u16 where "OV3660_PID = 0x3660"
definition OV5640_PID :: u16 where "OV5640_PID = 0x5640"
definition OV7670_PID :: u16 where "OV7670_PID = 0x76"
definition NT99141_PID :: u16 where "NT99141_PID = 0x1410"
definition GC2145_PID :: u16 where "GC2145_PID = 0x2145"
definition GC032A_PID :: u16 where "GC032A_PID = 0x232a"
definition GC0308_PID :: u16 where "GC0308_PID = 0x9b"
definition BF3005_PID :: u16 where "BF3005_PID = 0x30"
definition BF20A6_PID :: u16 where "BF20A6_PID = 0x20a6"

definition OV2640_SCCB_ADDR :: u8 where "OV2640_SCCB_ADDR = 0x30"
definition OV5640_SCCB_ADDR :: u8 where "OV5640_SCCB_ADDR = 0x3C"
definition OV3660_SCCB_ADDR :: u8 where "OV3660_SCCB_ADDR = 0x3C"
definition OV7725_SCCB_ADDR :: u8 where "OV7725_SCCB_ADDR = 0x21"
definition OV7670_SCCB_ADDR :: u8 where "OV7670_SCCB_ADDR = 0x21"
definition NT99141_SCCB_ADDR :: u8 where "NT99141_SCCB_ADDR = 0x2A"
definition GC2145_SCCB_ADDR :: u8 where "GC2145_SCCB_ADDR = 0x3C"
definition GC032A_SCCB_ADDR :: u8 where "GC032A_SCCB_ADDR = 0x21"
definition GC0308_SCCB_ADDR :: u8 where "GC0308_SCCB_ADDR = 0x21"
definition BF3005_SCCB_ADDR :: u8 where "BF3005_SCCB_ADDR = 0x6E"
definition BF20A6_SCCB_ADDR :: u8 where "BF20A6_SCCB_ADDR = 0x6E"

lemmas pid_defs =
  OV9650_PID_def OV7725_PID_def OV2640_PID_def OV3660_PID_def OV5640_PID_def OV7670_PID_def
  NT99141_PID_def GC2145_PID_def GC032A_PID_def GC0308_PID_def BF3005_PID_def BF20A6_PID_def

section \<open>Tables\<close>

record camera_sensor_info_t =
  model :: camera_model_t
  sensor_name :: string
  sccb_addr :: u8
  pid :: u16
  max_size :: framesize_t
  support_jpeg :: bool

record resolution_info_t =
  res_width :: nat
  res_height :: nat
  res_aspect :: aspect_ratio_t

definition sensor_info ::
  "camera_model_t \<Rightarrow> string \<Rightarrow> u8 \<Rightarrow> u16 \<Rightarrow> framesize_t \<Rightarrow> bool \<Rightarrow> camera_sensor_info_t" where
  "sensor_info m n a p s j =
    \<lparr>model = m, sensor_name = n, sccb_addr = a, pid = p, max_size = s, support_jpeg = j\<rparr>"

definition res_info :: "nat \<Rightarrow> nat \<Rightarrow> aspect_ratio_t \<Rightarrow> resolution_info_t" where
  "res_info w h a = \<lparr>res_width = w, res_height = h, res_aspect = a\<rparr>"

definition camera_sensor :: "camera_sensor_info_t list" where
  "camera_sensor = [
    sensor_info CAMERA_OV7725 ''OV7725'' OV7725_SCCB_ADDR OV7725_PID FRAMESIZE_VGA False,
    sensor_info CAMERA_OV2640 ''OV2640'' OV2640_SCCB_ADDR OV2640_PID FRAMESIZE_UXGA True,
    sensor_info CAMERA_OV3660 ''OV3660'' OV3660_SCCB_ADDR OV3660_PID FRAMESIZE_QXGA True,
    sensor_info CAMERA_OV5640 ''OV5640'' OV5640_SCCB_ADDR OV5640_PID FRAMESIZE_QSXGA True,
    sensor_info CAMERA_OV7670 ''OV7670'' OV7670_SCCB_ADDR OV7670_PID FRAMESIZE_VGA False,
    sensor_info CAMERA_NT99141 ''NT99141'' NT99141_SCCB_ADDR NT99141_PID FRAMESIZE_HD True,
    sensor_info CAMERA_GC2145 ''GC2145'' GC2145_SCCB_ADDR GC2145_PID FRAMESIZE_UXGA False,
    sensor_info CAMERA_GC032A ''GC032A'' GC032A_SCCB_ADDR GC032A_PID FRAMESIZE_VGA False,
    sensor_info CAMERA_GC0308 ''GC0308'' GC0308_SCCB_ADDR GC0308_PID FRAMESIZE_VGA False,
    sensor_info CAMERA_BF3005 ''BF3005'' BF3005_SCCB_ADDR BF3005_PID FRAMESIZE_VGA False,
    sensor_info CAMERA_BF20A6 ''BF20A6'' BF20A6_SCCB_ADDR BF20A6_PID FRAMESIZE_VGA False]"

definition resolution_table :: "resolution_info_t list" where
  "resolution_table = [
    res_info 96 96 ASPECT_RATIO_1X1,
    res_info 160 120 ASPECT_RATIO_4X3,
    res_info 176 144 ASPECT_RATIO_5X4,
    res_info 240 176 ASPECT_RATIO_4X3,
    res_info 240 240 ASPECT_RATIO_1X1,
    res_info 320 240 ASPECT_RATIO_4X3,
    res_info 400 296 ASPECT_RATIO_4X3,
    res_info 480 320 ASPECT_RATIO_3X2,
    res_info 640 480 ASPECT_RATIO_4X3,
    res_info 800 600 ASPECT_RATIO_4X3,
    res_info 1024 768 ASPECT_RATIO_4X3,
    res_info 1280 720 ASPECT_RATIO_16X9,
    res_info 1280 1024 ASPECT_RATIO_5X4,
    res_info 1600 1200 ASPECT_RATIO_4X3,
    res_info 1920 1080 ASPECT_RATIO_16X9,
    res_info 720 1280 ASPECT_RATIO_9X16,
    res_info 864 1536 ASPECT_RATIO_9X16,
    res_info 2048 1536 ASPECT_RATIO_4X3,
    res_info 2560 1440 ASPECT_RATIO_16X9,
    res_info 2560 1600 ASPECT_RATIO_16X10,
    res_info 1088 1920 ASPECT_RATIO_9X16,
    res_info 2560 1920 ASPECT_RATIO_4X3]"

definition resolution :: "framesize_t \<Rightarrow> resolution_info_t" where
  "resolution fs = resolution_table ! framesize_index fs"

section \<open>Lookup\<close>

record sensor_id_t =
  MIDH :: u8
  MIDL :: u8
  PID :: u16
  VER :: u8

fun sensor_search :: "camera_sensor_info_t list \<Rightarrow> u16 \<Rightarrow> camera_sensor_info_t option" where
  "sensor_search [] p = None"
| "sensor_search (s # ss) p = (if p = pid s then Some s else sensor_search ss p)"

definition esp_camera_sensor_get_info :: "sensor_id_t \<Rightarrow> camera_sensor_info_t option" where
  "esp_camera_sensor_get_info i = sensor_search camera_sensor (PID i)"

lemma sensor_search_unique:
  assumes "distinct (map pid ss)" "s \<in> set ss"
  shows "sensor_search ss (pid s) = Some s"
  using assms by (induction ss) (auto simp: image_iff dest: sym)

lemma sensor_search_none: "sensor_search ss p = None \<longleftrightarrow> p \<notin> pid ` set ss"
  by (induction ss) auto

lemma sensor_search_some: "sensor_search ss p = Some s \<Longrightarrow> s \<in> set ss \<and> pid s = p"
  by (induction ss) (auto split: if_splits)

lemma sensor_pids_distinct: "distinct (map pid camera_sensor)"
  by (simp add: camera_sensor_def sensor_info_def pid_defs)

lemma framesize_cases: "fs \<in> set framesizes"
  by (cases fs) (simp_all add: framesizes_def)

lemma resolution_bounds:
  "0 < res_width (resolution fs) \<and> res_width (resolution fs) \<le> 2560 \<and>
   0 < res_height (resolution fs) \<and> res_height (resolution fs) \<le> 1920"
  by (cases fs) (simp_all add: resolution_def resolution_table_def res_info_def)

section \<open>Properties\<close>

text \<open>Looking a sensor up by its product identifier returns the table's entry for it, and
  nothing for an identifier the table does not have; the table lists the sensors in the
  order of their enumeration, as the code that indexes it needs, and every frame size has an
  entry of the resolution table.\<close>

theorem sensor_table_lookup:
  "(case esp_camera_sensor_get_info i of
      Some s \<Rightarrow> s \<in> set camera_sensor \<and> pid s = PID i \<and>
        (\<forall>t. t \<in> set camera_sensor \<and> pid t = PID i \<longleftrightarrow> t = s)
    | None \<Rightarrow> \<not> (\<exists>t. t \<in> set camera_sensor \<and> pid t = PID i)) \<and>
   map model camera_sensor = camera_models \<and>
   framesize_index fs < length resolution_table \<and> framesizes ! framesize_index fs = fs"
proof -
  have "map model camera_sensor = camera_models"
    by (simp add: camera_sensor_def camera_models_def sensor_info_def)
  moreover have "framesize_index fs < length resolution_table \<and> framesizes ! framesize_index fs = fs"
    by (cases fs) (simp_all add: resolution_table_def framesizes_def)
  moreover have "case esp_camera_sensor_get_info i of
      Some s \<Rightarrow> s \<in> set camera_sensor \<and> pid s = PID i \<and>
        (\<forall>t. t \<in> set camera_sensor \<and> pid t = PID i \<longleftrightarrow> t = s)
    | None \<Rightarrow> \<not> (\<exists>t. t \<in> set camera_sensor \<and> pid t = PID i)"
  proof (cases "sensor_search camera_sensor (PID i)")
    case None
    then have "PID i \<notin> pid ` set camera_sensor" using sensor_search_none by metis
    then have "\<not> (\<exists>t. t \<in> set camera_sensor \<and> pid t = PID i)" by (metis imageI)
    then show ?thesis using None by (simp only: esp_camera_sensor_get_info_def option.case not_False_eq_True)
  next
    case (Some s)
    have "t = s" if "t \<in> set camera_sensor" "pid t = PID i" for t
      using sensor_search_unique [OF sensor_pids_distinct that(1)] that(2) Some
      by (simp only: option.inject)
    then show ?thesis
      using sensor_search_some [OF Some] Some by (auto simp only: esp_camera_sensor_get_info_def option.case)
  qed
  ultimately show ?thesis by blast
qed

end
