(* ===== verification/LL_Cam.thy ===== *)
theory LL_Cam
  imports Camera_Sensor
begin

text \<open>
  The low-level camera layer for the ESP32-S3,
  \<^verbatim>\<open>Client/ImageProcessing/ESP/updated_driver_files/ll_cam.c\<close>, with the driver object of
  \<^verbatim>\<open>ll_cam.h\<close>. The peripheral is the record \<open>hw\<close>: what each register field holds, and the
  sequence of register writes and pin operations performed so far. The two interrupt handlers
  and \<^verbatim>\<open>ll_cam_config\<close>, which call back into \<^verbatim>\<open>cam_hal.c\<close>, are in the theory of that file.

  Sizes are natural numbers; \<open>dma_sizes_32_bit\<close> shows that they stay below \<open>2 ^ 32\<close> for every
  frame size of the resolution table, so the 32-bit arithmetic of the code does not wrap.
\<close>

section \<open>The driver object\<close>

datatype cam_event_t = CAM_IN_SUC_EOF_EVENT | CAM_VSYNC_EVENT

datatype cam_state_t = CAM_STATE_IDLE | CAM_STATE_READ_BUF

datatype camera_grab_mode_t = CAMERA_GRAB_WHEN_EMPTY | CAMERA_GRAB_LATEST

datatype camera_fb_location_t = CAMERA_FB_IN_PSRAM | CAMERA_FB_IN_DRAM

record camera_config_t =
  pin_pwdn :: int
  pin_reset :: int
  pin_xclk :: int
  pin_sscb_sda :: int
  pin_sscb_scl :: int
  pin_data :: "int list"
  pin_vsync :: int
  pin_href :: int
  pin_pclk :: int
  xclk_freq_hz :: int
  pixel_format :: pixformat_t
  frame_size :: framesize_t
  jpeg_quality :: int
  fb_count :: nat
  fb_location :: camera_fb_location_t
  grab_mode :: camera_grab_mode_t

text \<open>A frame buffer is the list of the bytes from \<^verbatim>\<open>fb.buf\<close> to the end of its allocation.\<close>

record camera_fb_t =
  fb_buf :: "u8 list"
  fb_len :: nat
  fb_width :: nat
  fb_height :: nat
  fb_format :: pixformat_t
  fb_tv_sec :: nat
  fb_tv_usec :: nat

record lldesc_t =
  ld_size :: nat
  ld_length :: nat
  ld_sosf :: bool
  ld_eof :: bool
  ld_owner :: bool
  ld_buf :: nat
  ld_empty :: nat

text \<open>A block of descriptors at a heap address; \<open>ld_buf\<close> is an offset into the buffer it
  describes and \<open>ld_empty\<close> the index of the next descriptor.\<close>

type_synonym dma_chain = "nat \<times> lldesc_t list"

record cam_frame_t =
  fr_fb :: camera_fb_t
  fr_addr :: nat
  fr_en :: bool
  fr_dma :: "dma_chain option"
  fr_offset :: nat

text \<open>A queue of the kernel as the driver sees it: its heap block, its length and its
  contents.\<close>

record 'a cam_queue =
  cq_block :: nat
  cq_cap :: nat
  cq_items :: "'a list"

record cam_obj_t =
  dma_bytes_per_item :: nat
  dma_buffer_size :: nat
  dma_half_buffer_size :: nat
  dma_half_buffer_cnt :: nat
  dma_node_buffer_size :: nat
  dma_node_cnt :: nat
  frame_copy_cnt :: nat
  cam_dma :: "dma_chain option"
  dma_buffer :: "(nat \<times> u8 list) option"
  frames_block :: "nat option"
  frames :: "cam_frame_t list"
  event_queue :: "cam_event_t cam_queue option"
  frame_buffer_queue :: "nat cam_queue option"
  task_handle :: "nat option"
  cam_intr_handle :: "nat option"
  dma_num :: nat
  dma_intr_handle :: "nat option"
  jpeg_mode :: bool
  vsync_pin :: int
  vsync_invert :: bool
  frame_cnt :: nat
  recv_size :: nat
  swap_data :: bool
  psram_mode :: bool
  cam_width :: nat
  cam_height :: nat
  in_bytes_per_pixel :: nat
  fb_bytes_per_pixel :: nat
  fb_size :: nat
  cam_state :: cam_state_t

text \<open>The zeroed object \<^verbatim>\<open>heap_caps_calloc\<close> returns.\<close>

definition cam_obj_zero :: cam_obj_t where
  "cam_obj_zero = \<lparr>dma_bytes_per_item = 0, dma_buffer_size = 0, dma_half_buffer_size = 0,
     dma_half_buffer_cnt = 0, dma_node_buffer_size = 0, dma_node_cnt = 0, frame_copy_cnt = 0,
     cam_dma = None, dma_buffer = None, frames_block = None, frames = [], event_queue = None,
     frame_buffer_queue = None, task_handle = None, cam_intr_handle = None, dma_num = 0,
     dma_intr_handle = None, jpeg_mode = False, vsync_pin = 0, vsync_invert = False,
     frame_cnt = 0, recv_size = 0, swap_data = False, psram_mode = False, cam_width = 0,
     cam_height = 0, in_bytes_per_pixel = 0, fb_bytes_per_pixel = 0, fb_size = 0,
     cam_state = CAM_STATE_IDLE\<rparr>"

section \<open>Registers\<close>

datatype hw_reg = LCD_CAM string | GDMA nat string | SYSTEM string

datatype hw_op = Reg_write hw_reg int | Pin_func int | Pin_dir int bool | Pin_float int
  | Matrix_in int nat bool | Matrix_out int nat | Delay_us nat

record hw =
  hw_regs :: "hw_reg \<Rightarrow> int"
  hw_ops :: "hw_op list"

definition hw_set :: "hw_reg \<Rightarrow> int \<Rightarrow> hw \<Rightarrow> hw" where
  "hw_set r v h = h\<lparr>hw_regs := (hw_regs h)(r := v), hw_ops := hw_ops h @ [Reg_write r v]\<rparr>"

definition hw_sets :: "(hw_reg \<times> int) list \<Rightarrow> hw \<Rightarrow> hw" where
  "hw_sets ws h = fold (\<lambda>(r, v). hw_set r v) ws h"

definition hw_pins :: "hw_op list \<Rightarrow> hw \<Rightarrow> hw" where
  "hw_pins ops h = h\<lparr>hw_ops := hw_ops h @ ops\<rparr>"

lemma hw_sets_simps [simp]:
  "hw_sets [] h = h" "hw_sets ((r, v) # ws) h = hw_sets ws (hw_set r v h)"
  by (simp_all add: hw_sets_def)

lemma hw_set_regs [simp]: "hw_regs (hw_set r v h) = (hw_regs h)(r := v)"
  by (simp add: hw_set_def)

definition ll_cam_stop :: "cam_obj_t \<Rightarrow> hw \<Rightarrow> hw" where
  "ll_cam_stop cam h =
    (let ch = GDMA (dma_num cam);
         h = (if jpeg_mode cam \<or> \<not> psram_mode cam
              then hw_sets [(ch ''int_ena.in_suc_eof'', 0), (ch ''int_clr.in_suc_eof'', 1)] h else h)
     in hw_set (ch ''link.stop'') 1 h)"

definition ll_cam_deinit :: "cam_obj_t \<Rightarrow> hw \<Rightarrow> cam_obj_t \<times> hw" where
  "ll_cam_deinit cam h =
    (cam\<lparr>cam_intr_handle := None, dma_intr_handle := None\<rparr>,
     hw_sets [(GDMA (dma_num cam) ''link.addr'', 0), (LCD_CAM ''cam_ctrl1.cam_start'', 0),
       (LCD_CAM ''cam_ctrl1.cam_reset'', 1), (LCD_CAM ''cam_ctrl1.cam_reset'', 0)] h)"

definition desc_addr :: "dma_chain option \<Rightarrow> nat" where
  "desc_addr c = (case c of None \<Rightarrow> 0 | Some (a, _) \<Rightarrow> a)"

definition ll_cam_start :: "cam_obj_t \<Rightarrow> nat \<Rightarrow> hw \<Rightarrow> bool \<times> hw" where
  "ll_cam_start cam frame_pos h =
    (let ch = GDMA (dma_num cam);
         h = hw_set (LCD_CAM ''cam_ctrl1.cam_start'') 0 h;
         h = (if jpeg_mode cam \<or> \<not> psram_mode cam
              then hw_sets [(ch ''int_clr.in_suc_eof'', 1), (ch ''int_ena.in_suc_eof'', 1)] h else h);
         addr = (if \<not> psram_mode cam then desc_addr (cam_dma cam)
                 else desc_addr (fr_dma (frames cam ! frame_pos)))
     in (True, hw_sets
       [(LCD_CAM ''cam_ctrl1.cam_reset'', 1), (LCD_CAM ''cam_ctrl1.cam_reset'', 0),
        (LCD_CAM ''cam_ctrl1.cam_afifo_reset'', 1), (LCD_CAM ''cam_ctrl1.cam_afifo_reset'', 0),
        (ch ''conf0.in_rst'', 1), (ch ''conf0.in_rst'', 0),
        (LCD_CAM ''cam_ctrl1.cam_rec_data_bytelen'', int (dma_half_buffer_size cam) - 1),
        (ch ''link.addr'', int (addr mod 2 ^ 20)),
        (ch ''link.start'', 1),
        (LCD_CAM ''cam_ctrl.cam_update'', 1), (LCD_CAM ''cam_ctrl1.cam_start'', 1)] h))"

definition ll_cam_vsync_intr_enable :: "bool \<Rightarrow> hw \<Rightarrow> hw" where
  "ll_cam_vsync_intr_enable en h =
    hw_sets [(LCD_CAM ''lc_dma_int_clr.cam_vsync_int_clr'', 1),
      (LCD_CAM ''lc_dma_int_ena.cam_vsync_int_ena'', if en then 1 else 0)] h"

text \<open>The numbers of the camera signals in the pin matrix are those of the chip's header.\<close>

definition CAM_DATA_IN0_IDX :: nat where "CAM_DATA_IN0_IDX = 133"
definition CAM_PCLK_IDX :: nat where "CAM_PCLK_IDX = 149"
definition CAM_CLK_IDX :: nat where "CAM_CLK_IDX = 149"
definition CAM_H_ENABLE_IDX :: nat where "CAM_H_ENABLE_IDX = 150"
definition CAM_V_SYNC_IDX :: nat where "CAM_V_SYNC_IDX = 152"

definition input_pin :: "int \<Rightarrow> nat \<Rightarrow> bool \<Rightarrow> hw_op list" where
  "input_pin pin sig invert = [Pin_func pin, Pin_dir pin False, Pin_float pin, Matrix_in pin sig invert]"

definition ll_cam_set_pin :: "cam_obj_t \<Rightarrow> camera_config_t \<Rightarrow> hw \<Rightarrow> hw" where
  "ll_cam_set_pin cam config h = hw_pins
    (input_pin (pin_pclk config) CAM_PCLK_IDX False @
     input_pin (pin_vsync config) CAM_V_SYNC_IDX (vsync_invert cam) @
     input_pin (pin_href config) CAM_H_ENABLE_IDX False @
     concat (map (\<lambda>i. input_pin (pin_data config ! i) (CAM_DATA_IN0_IDX + i) False) [0..<8]) @
     [Pin_func (pin_xclk config), Pin_dir (pin_xclk config) True, Pin_float (pin_xclk config),
      Matrix_out (pin_xclk config) CAM_CLK_IDX]) h"

text \<open>The two interrupt allocations are services of the system: their results (an error code
  and a handle) are arguments.\<close>

definition ll_cam_init_isr ::
  "int \<times> nat \<Rightarrow> int \<times> nat \<Rightarrow> cam_obj_t \<Rightarrow> int \<times> cam_obj_t" where
  "ll_cam_init_isr dma_alloc vsync_alloc cam =
    (if fst dma_alloc \<noteq> ESP_OK then (fst dma_alloc, cam)
     else let cam = cam\<lparr>dma_intr_handle := Some (snd dma_alloc)\<rparr>
       in if fst vsync_alloc \<noteq> ESP_OK then (fst vsync_alloc, cam)
          else (ESP_OK, cam\<lparr>cam_intr_handle := Some (snd vsync_alloc)\<rparr>))"

definition ll_cam_do_vsync :: "cam_obj_t \<Rightarrow> hw \<Rightarrow> hw" where
  "ll_cam_do_vsync cam h = hw_pins
    [Matrix_in (vsync_pin cam) CAM_V_SYNC_IDX (\<not> vsync_invert cam), Delay_us 10,
     Matrix_in (vsync_pin cam) CAM_V_SYNC_IDX (vsync_invert cam)] h"

text \<open>The return type is \<^verbatim>\<open>uint8_t\<close>.\<close>

definition ll_cam_get_dma_align :: "cam_obj_t \<Rightarrow> hw \<Rightarrow> nat" where
  "ll_cam_get_dma_align cam h =
    (16 * 2 ^ nat (hw_regs h (GDMA (dma_num cam) ''conf1.in_ext_mem_bk_size''))) mod 256"

definition xclk_timer_conf :: "int \<Rightarrow> hw \<Rightarrow> (int \<times> hw) option" where
  "xclk_timer_conf xclk h =
    (if xclk = 0 then None
     else Some (ESP_OK, hw_sets [(LCD_CAM ''cam_ctrl.cam_clkm_div_b'', 0),
       (LCD_CAM ''cam_ctrl.cam_clkm_div_a'', 0),
       (LCD_CAM ''cam_ctrl.cam_clkm_div_num'', c_div 160000000 xclk),
       (LCD_CAM ''cam_ctrl.cam_clk_sel'', 3), (LCD_CAM ''cam_ctrl.cam_update'', 1)] h))"

section \<open>Buffer sizes\<close>

definition LCD_CAM_DMA_NODE_BUFFER_MAX_SIZE :: nat where
  "LCD_CAM_DMA_NODE_BUFFER_MAX_SIZE = 4092"

definition CONFIG_CAMERA_DMA_BUFFER_SIZE_MAX :: nat where
  "CONFIG_CAMERA_DMA_BUFFER_SIZE_MAX = 32768"

text \<open>The two searches from \<open>i\<close> downwards, and the loops that adjust the number of lines. \<open>None\<close>
  stands for the loop running to its end in the searches, and for a division by zero, or a
  subtraction below zero or by zero, in the other two.\<close>

fun node_for_line :: "nat \<Rightarrow> nat \<Rightarrow> nat option" where
  "node_for_line line_width 0 = None"
| "node_for_line line_width (Suc i) =
    (if line_width mod Suc i = 0 then Some (Suc i) else node_for_line line_width i)"

fun lines_for_node :: "nat \<Rightarrow> nat \<Rightarrow> nat option" where
  "lines_for_node line_width 0 = None"
| "lines_for_node line_width (Suc i) =
    (if Suc i mod line_width = 0 then Some (Suc i) else lines_for_node line_width i)"

fun fit_lines :: "nat \<Rightarrow> nat \<Rightarrow> nat \<Rightarrow> nat \<Rightarrow> (nat \<times> nat) option" where
  "fit_lines height line_width 0 node_size = None"
| "fit_lines height line_width (Suc lines) node_size =
    (if height mod Suc lines \<noteq> 0 then fit_lines height line_width lines (lines * line_width)
     else Some (Suc lines, node_size))"

function fit_half :: "nat \<Rightarrow> nat \<Rightarrow> nat \<Rightarrow> nat \<Rightarrow> (nat \<times> nat) option" where
  "fit_half height line_width half_min half =
    (let lines = half div line_width in
     if lines = 0 \<or> half_min = 0 \<or> half < half_min then None
     else if height mod lines \<noteq> 0 then fit_half height line_width half_min (half - half_min)
     else Some (half, lines))"
  by pat_completeness auto
termination
  by (relation "measure (\<lambda>(h, lw, m, half). half)") auto

declare fit_half.simps [simp del]

text \<open>The node search of \<^verbatim>\<open>ll_cam_calc_rgb_dma\<close>: node size, nodes per line, lines per node.\<close>

definition node_sizes :: "nat \<Rightarrow> nat \<Rightarrow> nat \<Rightarrow> (nat \<times> nat \<times> nat) option" where
  "node_sizes height line_width node_max =
    (if line_width \<ge> node_max then
       (case node_for_line line_width node_max of
          Some i \<Rightarrow> Some (i, line_width div i, 1)
        | None \<Rightarrow> Some (node_max, 1, 1))
     else if line_width = 0 then None
     else (case lines_for_node line_width node_max of
          Some i \<Rightarrow>
            map_option (\<lambda>(lines, node). (node, 1, lines)) (fit_lines height line_width (i div line_width) i)
        | None \<Rightarrow> Some (node_max, 1, 1)))"

definition ll_cam_calc_rgb_dma :: "cam_obj_t \<Rightarrow> (bool \<times> cam_obj_t) option" where
  "ll_cam_calc_rgb_dma cam =
    (if dma_bytes_per_item cam = 0 then None
     else let node_max = LCD_CAM_DMA_NODE_BUFFER_MAX_SIZE div dma_bytes_per_item cam;
              line_width = cam_width cam * in_bytes_per_pixel cam
     in case node_sizes (cam_height cam) line_width node_max of
          None \<Rightarrow> None
        | Some (node_size, nodes_per_line, lines_per_node) \<Rightarrow>
          (let cam = cam\<lparr>dma_node_buffer_size := node_size * dma_bytes_per_item cam\<rparr>;
               half_max = CONFIG_CAMERA_DMA_BUFFER_SIZE_MAX div 2 div dma_bytes_per_item cam
           in if line_width > half_max then Some (False, cam)
              else let half_min = node_size * nodes_per_line
              in if half_min = 0 \<or> line_width = 0 then None
                 else case fit_half (cam_height cam) line_width half_min ((half_max div half_min) * half_min) of
                   None \<Rightarrow> None
                 | Some (half, lines) \<Rightarrow>
                   (let buffer_max = (if psram_mode cam then recv_size cam div dma_bytes_per_item cam
                                      else 2 * half_max);
                        size = (if \<not> psram_mode cam then (buffer_max div half) * half else buffer_max);
                        cam = cam\<lparr>dma_buffer_size := size * dma_bytes_per_item cam,
                                  dma_half_buffer_size := half * dma_bytes_per_item cam\<rparr>
                    in Some (True, cam\<lparr>dma_half_buffer_cnt :=
                         dma_buffer_size cam div dma_half_buffer_size cam\<rparr>))))"

definition ll_cam_dma_sizes :: "cam_obj_t \<Rightarrow> (bool \<times> cam_obj_t) option" where
  "ll_cam_dma_sizes cam =
    (let cam = cam\<lparr>dma_bytes_per_item := 1\<rparr> in
     if jpeg_mode cam then
       Some (True,
        (if psram_mode cam then
           cam\<lparr>dma_buffer_size := recv_size cam, dma_half_buffer_size := 1024,
               dma_half_buffer_cnt := recv_size cam div 1024, dma_node_buffer_size := 1024\<rparr>
         else
           cam\<lparr>dma_half_buffer_cnt := 16, dma_buffer_size := 16 * 1024,
               dma_half_buffer_size := 16 * 1024 div 16, dma_node_buffer_size := 16 * 1024 div 16\<rparr>))
     else ll_cam_calc_rgb_dma cam)"

section \<open>Copying\<close>

text \<open>Both buffers lie in one memory, at the offsets \<open>out\<close> and \<open>inp\<close>, so that the case in which
  they are the same buffer is the code's.\<close>

fun gray_copy :: "nat \<Rightarrow> 'a list \<Rightarrow> nat \<Rightarrow> nat \<Rightarrow> 'a list" where
  "gray_copy 0 mem out inp = mem"
| "gray_copy (Suc n) mem out inp =
    (let mem = mem[out := mem ! inp];
         mem = mem[out + 1 := mem ! (inp + 2)];
         mem = mem[out + 2 := mem ! (inp + 4)];
         mem = mem[out + 3 := mem ! (inp + 6)]
     in gray_copy n mem (out + 4) (inp + 8))"

definition ll_cam_memcpy :: "cam_obj_t \<Rightarrow> 'a list \<Rightarrow> nat \<Rightarrow> nat \<Rightarrow> nat \<Rightarrow> nat \<times> 'a list" where
  "ll_cam_memcpy cam mem out inp l =
    (if in_bytes_per_pixel cam = 2 \<and> fb_bytes_per_pixel cam = 1
     then (l div 2, gray_copy (l div 8) mem out inp)
     else (l, mem_write mem out (mem_read mem inp l)))"

section \<open>Sample mode\<close>

text \<open>The first condition of the code is \<^verbatim>\<open>pix_format == PIXFORMAT_GRAYSCALE || PIXFORMAT_RAW\<close>;
  the second operand is the enumerator itself, number 5, which counts as true.\<close>

definition PIXFORMAT_RAW_value :: int where "PIXFORMAT_RAW_value = 5"

definition ll_cam_set_sample_mode :: "cam_obj_t \<Rightarrow> pixformat_t \<Rightarrow> u16 \<Rightarrow> int \<times> cam_obj_t" where
  "ll_cam_set_sample_mode cam pix_format sensor_pid =
    (if pix_format = PIXFORMAT_GRAYSCALE \<or> PIXFORMAT_RAW_value \<noteq> 0 then
       (ESP_OK, cam\<lparr>in_bytes_per_pixel :=
          (if sensor_pid = OV3660_PID \<or> sensor_pid = OV5640_PID \<or> sensor_pid = NT99141_PID then 1
           else if sensor_pid = OV2640_PID \<or> pix_format = PIXFORMAT_RAW then 1 else 2),
          fb_bytes_per_pixel := 1\<rparr>)
     else if pix_format = PIXFORMAT_YUV422 \<or> pix_format = PIXFORMAT_RGB565 then
       (ESP_OK, cam\<lparr>in_bytes_per_pixel := 2, fb_bytes_per_pixel := 2\<rparr>)
     else if pix_format = PIXFORMAT_JPEG then
       (ESP_OK, cam\<lparr>in_bytes_per_pixel := 1, fb_bytes_per_pixel := 1\<rparr>)
     else (ESP_ERR_NOT_SUPPORTED, cam))"

section \<open>What the size calculation guarantees\<close>

lemma node_for_line_divides:
  "0 < n \<Longrightarrow> \<exists>i. node_for_line lw n = Some i \<and> 0 < i \<and> i \<le> n \<and> i dvd lw"
proof (induction n)
  case 0
  then show ?case by simp
next
  case (Suc n)
  then show ?case by (cases n) (auto simp: mod_eq_0_iff_dvd intro: le_SucI)
qed

lemma lines_for_node_multiple:
  "0 < lw \<Longrightarrow> lw \<le> n \<Longrightarrow> \<exists>i. lines_for_node lw n = Some i \<and> 0 < i \<and> i \<le> n \<and> lw dvd i"
proof (induction n)
  case 0
  then show ?case by simp
next
  case (Suc n)
  show ?case
  proof (cases "Suc n mod lw = 0")
    case True
    then show ?thesis by (auto simp: mod_eq_0_iff_dvd)
  next
    case False
    then have "lw \<noteq> Suc n" by auto
    then show ?thesis using Suc False by (auto intro: le_SucI)
  qed
qed

lemma fit_lines_divides:
  "\<exists>k. fit_lines h lw (Suc l) (Suc l * lw) = Some (k, k * lw) \<and> 0 < k \<and> k \<le> Suc l \<and> k dvd h"
proof (induction l)
  case 0
  then show ?case by simp
next
  case (Suc l)
  show ?case
  proof (cases "h mod Suc (Suc l) = 0")
    case True
    then show ?thesis by (auto simp: mod_eq_0_iff_dvd)
  next
    case False
    then have "fit_lines h lw (Suc (Suc l)) (Suc (Suc l) * lw) = fit_lines h lw (Suc l) (Suc l * lw)"
      by simp
    then show ?thesis using Suc by (auto intro: le_SucI)
  qed
qed

lemma node_sizes_contract:
  assumes "0 < lw" "0 < n"
  obtains node npl lpn where "node_sizes h lw n = Some (node, npl, lpn)"
    "0 < node" "node \<le> n" "node * npl = lpn * lw" "lpn dvd h" "0 < lpn"
    "lpn * lw = lw \<or> lpn * lw \<le> n"
proof (cases "lw \<ge> n")
  case True
  obtain i where "node_for_line lw n = Some i" "0 < i" "i \<le> n" "i dvd lw"
    using node_for_line_divides [OF assms(2)] by blast
  then show ?thesis using that [of i "lw div i" 1] True by (simp add: node_sizes_def)
next
  case False
  then obtain i where i: "lines_for_node lw n = Some i" "0 < i" "i \<le> n" "lw dvd i"
    using lines_for_node_multiple [OF assms(1), of n] by auto
  then obtain l where l: "i = Suc l * lw" by (metis dvd_div_mult_self gr0_implies_Suc mult_0 not_gr0)
  then have d: "i div lw = Suc l" using assms by simp
  obtain k where k: "fit_lines h lw (Suc l) (Suc l * lw) = Some (k, k * lw)" "0 < k" "k \<le> Suc l" "k dvd h"
    using fit_lines_divides by blast
  have "k * lw \<le> n" using i(3) k(3) l by (meson le_trans mult_le_mono1)
  then show ?thesis
    using that [of "k * lw" 1 k] False assms i k l d by (simp add: node_sizes_def)
qed

lemma fit_half_divides:
  assumes "0 < lw" "0 < lpn" "lpn dvd h" "0 < q"
  shows "\<exists>r. fit_half h lw (lpn * lw) (q * (lpn * lw)) = Some (r * lpn * lw, r * lpn) \<and>
    0 < r \<and> r \<le> q \<and> r * lpn dvd h"
  using assms(4)
proof (induction q)
  case 0
  then show ?case by simp
next
  case (Suc q)
  have lines: "Suc q * (lpn * lw) div lw = Suc q * lpn"
    using assms(1) by (metis mult.assoc nonzero_mult_div_cancel_right not_gr0)
  have step: "fit_half h lw (lpn * lw) (Suc q * (lpn * lw)) =
      (if h mod (Suc q * lpn) \<noteq> 0 then fit_half h lw (lpn * lw) (q * (lpn * lw))
       else Some (Suc q * (lpn * lw), Suc q * lpn))"
    by (subst fit_half.simps) (use assms lines in \<open>simp add: Let_def\<close>)
  show ?case
  proof (cases "h mod (Suc q * lpn) = 0")
    case True
    then show ?thesis
      using step by (intro exI [of _ "Suc q"]) (simp only: mod_eq_0_iff_dvd mult.assoc, simp)
  next
    case False
    then have "0 < q" using assms(3) by (cases q) auto
    then show ?thesis using Suc.IH step False by (auto intro: le_SucI)
  qed
qed

text \<open>The layout the rest of the driver relies on: a node fits the hardware's limit, nodes fill a
  half buffer, a half buffer holds whole lines and a whole number of them fills the frame.\<close>

definition dma_layout :: "cam_obj_t \<Rightarrow> bool" where
  "dma_layout cam \<longleftrightarrow>
    (let lw = cam_width cam * in_bytes_per_pixel cam; half = dma_half_buffer_size cam in
     0 < dma_node_buffer_size cam \<and> dma_node_buffer_size cam \<le> LCD_CAM_DMA_NODE_BUFFER_MAX_SIZE \<and>
     dma_node_buffer_size cam dvd half \<and> half \<le> CONFIG_CAMERA_DMA_BUFFER_SIZE_MAX div 2 \<and>
     lw dvd half \<and> half div lw dvd cam_height cam \<and>
     dma_half_buffer_cnt cam * half = dma_buffer_size cam \<and> 0 < dma_half_buffer_cnt cam \<and>
     dma_buffer_size cam = (if psram_mode cam then recv_size cam else dma_buffer_size cam) \<and>
     (\<not> psram_mode cam \<longrightarrow> dma_buffer_size cam \<le> CONFIG_CAMERA_DMA_BUFFER_SIZE_MAX \<and>
        2 \<le> dma_half_buffer_cnt cam))"

lemma dma_sizes_layout:
  assumes size: "0 < cam_width cam" "0 < cam_height cam" "0 < in_bytes_per_pixel cam"
    and raw: "\<not> jpeg_mode cam"
    and recv: "recv_size cam = cam_width cam * cam_height cam * in_bytes_per_pixel cam"
  obtains cam' where "ll_cam_dma_sizes cam = Some (True, cam')" "dma_layout cam'"
      "cam_width cam * in_bytes_per_pixel cam \<le> 16384"
      "\<exists>node half cnt buf. cam' = cam\<lparr>dma_bytes_per_item := 1, dma_node_buffer_size := node,
         dma_buffer_size := buf, dma_half_buffer_size := half, dma_half_buffer_cnt := cnt\<rparr>"
  | cam' where "ll_cam_dma_sizes cam = Some (False, cam')"
      "cam_width cam * in_bytes_per_pixel cam > 16384"
      "\<exists>node. cam' = cam\<lparr>dma_bytes_per_item := 1, dma_node_buffer_size := node\<rparr>"
proof -
  let ?lw = "cam_width cam * in_bytes_per_pixel cam" and ?h = "cam_height cam"
  let ?max = "16384 :: nat"
  have lw: "0 < ?lw" using size by simp
  obtain node npl lpn where n: "node_sizes ?h ?lw 4092 = Some (node, npl, lpn)"
    "0 < node" "node \<le> 4092" "node * npl = lpn * ?lw" "lpn dvd ?h" "0 < lpn"
    "lpn * ?lw = ?lw \<or> lpn * ?lw \<le> 4092"
    using node_sizes_contract [OF lw, of 4092 ?h] by auto
  have npl: "0 < npl" using n(4,6) lw by (metis mult_is_0 not_gr0)
  note defs = ll_cam_dma_sizes_def ll_cam_calc_rgb_dma_def LCD_CAM_DMA_NODE_BUFFER_MAX_SIZE_def
    CONFIG_CAMERA_DMA_BUFFER_SIZE_MAX_def
  show thesis
  proof (cases "?lw > ?max")
    case True
    show thesis
      by (rule that(2) [of "cam\<lparr>dma_bytes_per_item := 1, dma_node_buffer_size := node\<rparr>"])
        (use True raw n in \<open>auto simp: defs Let_def\<close>)
  next
    case False
    then have "lpn * ?lw \<le> ?max" using n(7) by linarith
    then have q: "0 < ?max div (lpn * ?lw)" using n(6) lw by (simp add: div_greater_zero_iff)
    then obtain r where r: "fit_half ?h ?lw (lpn * ?lw) (?max div (lpn * ?lw) * (lpn * ?lw)) =
        Some (r * lpn * ?lw, r * lpn)" "0 < r" "r \<le> ?max div (lpn * ?lw)" "r * lpn dvd ?h"
      using fit_half_divides [OF lw n(6,5) q] by blast
    let ?half = "r * lpn * ?lw"
    have "r * (lpn * ?lw) \<le> ?max" using r(3) by (meson div_times_less_eq_dividend le_trans mult_le_mono1)
    then have half: "0 < ?half" "?half \<le> ?max" using r n lw by (simp_all add: mult.assoc)
    let ?buf = "if psram_mode cam then recv_size cam else 32768 div ?half * ?half"
    let ?cam = "cam\<lparr>dma_bytes_per_item := 1, dma_node_buffer_size := node, dma_buffer_size := ?buf,
      dma_half_buffer_size := ?half, dma_half_buffer_cnt := ?buf div ?half\<rparr>"
    have "ll_cam_dma_sizes cam = Some (True, ?cam)"
      using False raw n r lw npl by (simp add: defs Let_def)
    moreover have "dma_layout ?cam"
    proof -
      have "recv_size cam = ?h * ?lw" using recv by simp
      then have psram: "?half dvd recv_size cam" "0 < recv_size cam"
        using r(4) lw size by (simp_all add: mult_dvd_mono)
      then have "0 < recv_size cam div ?half" using half by (simp add: div_greater_zero_iff dvd_imp_le)
      moreover have "2 \<le> 32768 div ?half" using half by (simp add: less_eq_div_iff_mult_less_eq ac_simps)
      moreover have "node dvd ?half" using n(4) by (metis dvd_mult dvd_triv_left mult.assoc)
      ultimately show ?thesis
        using n(2,3) half psram r(4) lw
        by (simp add: dma_layout_def Let_def defs div_times_less_eq_dividend)
    qed
    moreover have "?lw \<le> 16384" using False by simp
    ultimately show thesis using that(1) by blast
  qed
qed

lemma dma_sizes_32_bit:
  "res_width (resolution fs) * res_height (resolution fs) * 2 < 2 ^ 32"
proof -
  have "res_width (resolution fs) * res_height (resolution fs) \<le> 2560 * 1920"
    using resolution_bounds [of fs] by (intro mult_le_mono) auto
  then have "res_width (resolution fs) * res_height (resolution fs) * 2 \<le> 2560 * 1920 * 2"
    by (rule mult_le_mono1)
  also have "(2560 * 1920 * 2 :: nat) < 2 ^ 32" by simp
  finally show ?thesis .
qed

lemma gray_copy_even:
  assumes "out \<le> inp" "inp + 8 * n \<le> length mem"
  shows "length (gray_copy n mem out inp) = length mem \<and>
    (\<forall>k < 4 * n. gray_copy n mem out inp ! (out + k) = mem ! (inp + 2 * k)) \<and>
    (\<forall>i. i < out \<or> out + 4 * n \<le> i \<longrightarrow> gray_copy n mem out inp ! i = mem ! i)"
  using assms
proof (induction n arbitrary: mem out inp)
  case 0
  then show ?case by simp
next
  case (Suc n)
  let ?m = "mem[out := mem ! inp, out + 1 := mem ! (inp + 2), out + 2 := mem ! (inp + 4),
    out + 3 := mem ! (inp + 6)]"
  have step: "gray_copy (Suc n) mem out inp = gray_copy n ?m (out + 4) (inp + 8)"
    using Suc.prems by (simp add: Let_def)
  have IH: "length (gray_copy n ?m (out + 4) (inp + 8)) = length mem"
    "\<And>k. k < 4 * n \<Longrightarrow> gray_copy n ?m (out + 4) (inp + 8) ! (out + 4 + k) = ?m ! (inp + 8 + 2 * k)"
    "\<And>i. i < out + 4 \<or> out + 4 + 4 * n \<le> i \<Longrightarrow> gray_copy n ?m (out + 4) (inp + 8) ! i = ?m ! i"
    using Suc.IH [of "out + 4" "inp + 8" ?m] Suc.prems by auto
  have far: "?m ! (inp + 8 + 2 * k) = mem ! (inp + 8 + 2 * k)" for k using Suc.prems by simp
  have "gray_copy (Suc n) mem out inp ! (out + k) = mem ! (inp + 2 * k)" if "k < 4 * Suc n" for k
  proof (cases "k < 4")
    case True
    then have "k = 0 \<or> k = 1 \<or> k = 2 \<or> k = 3" by auto
    then show ?thesis using IH(3) [of "out + k"] Suc.prems unfolding step by (auto simp: nth_list_update)
  next
    case False
    then obtain k' where "k = 4 + k'" by (metis le_add_diff_inverse not_less)
    with that show ?thesis
      using IH(2) [of k'] far [of k'] unfolding step by (simp add: ac_simps)
  qed
  moreover have "gray_copy (Suc n) mem out inp ! i = mem ! i" if "i < out \<or> out + 4 * Suc n \<le> i" for i
    using IH(3) [of i] that unfolding step by (auto simp: nth_list_update)
  ultimately show ?case using IH(1) unfolding step by blast
qed

section \<open>Properties\<close>


definition cam_qvga :: cam_obj_t where
  "cam_qvga = cam_obj_zero\<lparr>psram_mode := True, cam_width := 320, cam_height := 240,
     in_bytes_per_pixel := 2, fb_bytes_per_pixel := 1, recv_size := 153600, fb_size := 76800\<rparr>"


text \<open>Reducing a YUV frame to its luminance copies every second byte, in place as well as
  into a buffer before the source, leaves the rest of the memory alone and returns half the
  length.\<close>

theorem gray_conversion:
  assumes "in_bytes_per_pixel cam = 2" and "fb_bytes_per_pixel cam = 1"
    and "out \<le> inp" and "inp + l \<le> length mem" and "8 dvd l"
    and "ll_cam_memcpy cam mem out inp l = (r, mem')"
  shows "r = l div 2 \<and> length mem' = length mem \<and>
    (\<forall>k < r. mem' ! (out + k) = mem ! (inp + 2 * k)) \<and>
    (\<forall>i. i < out \<or> out + r \<le> i \<longrightarrow> mem' ! i = mem ! i)"
proof -
  obtain n where n: "l = 8 * n" using assms(5) by auto
  then show ?thesis
    using gray_copy_even [of out inp n mem] assms by (simp add: ll_cam_memcpy_def)
qed

theorem gray_conversion_witness:
  "let cam = cam_obj_zero\<lparr>in_bytes_per_pixel := 2, fb_bytes_per_pixel := 1\<rparr>;
       (r, mem') = ll_cam_memcpy cam [10, 0, 11, 0, 12, 0, 13, 0 :: u8] 0 0 8
   in r = 4 \<and> length mem' = 8 \<and> mem' ! 3 = 13"
  using gray_conversion [of "cam_obj_zero\<lparr>in_bytes_per_pixel := 2, fb_bytes_per_pixel := 1\<rparr>"
      0 0 8 "[10, 0, 11, 0, 12, 0, 13, 0 :: u8]"]
  by (auto split: prod.split)

text \<open>The sample mode never distinguishes the pixel formats: because the enumerator
  \<^verbatim>\<open>PIXFORMAT_RAW\<close> stands alone as a condition, every format is accepted with one byte per
  pixel in the frame buffer, also RGB565 and YUV422, which have two.\<close>

theorem sample_mode_ignores_format:
  "fst (ll_cam_set_sample_mode cam f p) = ESP_OK \<and>
   fb_bytes_per_pixel (snd (ll_cam_set_sample_mode cam f p)) = 1 \<and>
   in_bytes_per_pixel (snd (ll_cam_set_sample_mode cam f OV2640_PID)) = 1"
  by (simp add: ll_cam_set_sample_mode_def PIXFORMAT_RAW_value_def)

end
