(* ===== verification/Cam_Hal.thy ===== *)
theory Cam_Hal
  imports LL_Cam FreeRTOS_Queue
begin

text \<open>
  The running camera driver, \<^verbatim>\<open>Client/ImageProcessing/ESP/updated_driver_files/cam_hal.c\<close>: the
  JPEG marker searches, the frame selection, the event task, the two interrupt handlers of
  \<^verbatim>\<open>ll_cam.c\<close>, and taking and giving back frames. Setting the driver up and down is in
  \<open>Cam_Setup\<close>.

  A pointer to a frame buffer is the index of its frame. The two queues hold lists, put to and
  taken from by \<open>list_put\<close> and \<open>list_get\<close>; the ring buffers of \<^verbatim>\<open>queue.c\<close> refine these
  (interpretation \<open>rtos\<close>). The operations run only while the queues exist: \<^verbatim>\<open>cam_config\<close>
  creates them before it starts the task and the interrupts.
\<close>

section \<open>JPEG markers\<close>

text \<open>The bytes from the start of a buffer on; what lies behind the buffer is an argument.\<close>

definition bytes_at :: "u8 list \<Rightarrow> (nat \<Rightarrow> u8) \<Rightarrow> nat \<Rightarrow> u8" where
  "bytes_at b behind i = (if i < length b then b ! i else behind (i - length b))"

definition sig24 :: "(nat \<Rightarrow> u8) \<Rightarrow> nat \<Rightarrow> nat" where
  "sig24 mem i = unat (mem i) + 256 * unat (mem (i + 1)) + 65536 * unat (mem (i + 2))"

definition sig16 :: "(nat \<Rightarrow> u8) \<Rightarrow> nat \<Rightarrow> nat" where
  "sig16 mem i = unat (mem i) + 256 * unat (mem (i + 1))"

definition JPEG_SOI_MARKER :: nat where "JPEG_SOI_MARKER = 0xFFD8FF"
definition JPEG_EOI_MARKER :: nat where "JPEG_EOI_MARKER = 0xD9FF"

definition cam_verify_jpeg_soi :: "(nat \<Rightarrow> u8) \<Rightarrow> nat \<Rightarrow> int" where
  "cam_verify_jpeg_soi inbuf l =
    (if sig24 inbuf 0 \<noteq> JPEG_SOI_MARKER
     then (case List.find (\<lambda>i. sig24 inbuf i = JPEG_SOI_MARKER) [0..<l] of
             Some i \<Rightarrow> int i | None \<Rightarrow> -1)
     else 0)"

text \<open>The pointer runs from \<open>l - 2\<close> down and stops above the start of the buffer.\<close>

fun eoi_from :: "(nat \<Rightarrow> u8) \<Rightarrow> nat \<Rightarrow> int" where
  "eoi_from inbuf 0 = -1"
| "eoi_from inbuf (Suc p) =
    (if sig16 inbuf (Suc p) = JPEG_EOI_MARKER then int (Suc p) else eoi_from inbuf p)"

definition cam_verify_jpeg_eoi :: "(nat \<Rightarrow> u8) \<Rightarrow> nat \<Rightarrow> int" where
  "cam_verify_jpeg_eoi inbuf l = eoi_from inbuf (l - 2)"

section \<open>Frames\<close>

definition upd_frame :: "nat \<Rightarrow> (cam_frame_t \<Rightarrow> cam_frame_t) \<Rightarrow> cam_obj_t \<Rightarrow> cam_obj_t" where
  "upd_frame x f cam = cam\<lparr>frames := (frames cam)[x := f (frames cam ! x)]\<rparr>"

definition upd_fb :: "(camera_fb_t \<Rightarrow> camera_fb_t) \<Rightarrow> cam_frame_t \<Rightarrow> cam_frame_t" where
  "upd_fb f fr = fr\<lparr>fr_fb := f (fr_fb fr)\<rparr>"

definition set_en :: "bool \<Rightarrow> cam_frame_t \<Rightarrow> cam_frame_t" where
  "set_en b fr = fr\<lparr>fr_en := b\<rparr>"

definition set_len :: "nat \<Rightarrow> cam_frame_t \<Rightarrow> cam_frame_t" where
  "set_len n = upd_fb (\<lambda>fb. fb\<lparr>fb_len := n\<rparr>)"

definition cam_get_next_frame :: "cam_obj_t \<Rightarrow> nat \<Rightarrow> bool \<times> nat" where
  "cam_get_next_frame cam frame_pos =
    (if \<not> fr_en (frames cam ! frame_pos)
     then (case List.find (\<lambda>x. fr_en (frames cam ! x)) [0..<frame_cnt cam] of
             Some x \<Rightarrow> (True, x) | None \<Rightarrow> (False, frame_pos))
     else (True, frame_pos))"

text \<open>The task's variables: the driver object, the peripheral, \<^verbatim>\<open>cnt\<close> and \<^verbatim>\<open>frame_pos\<close>.\<close>

record cam_task_st =
  ts_cam :: cam_obj_t
  ts_hw :: hw
  ts_cnt :: nat
  ts_pos :: nat

text \<open>What the task reads from outside in one turn: the microsecond timer and the memory behind
  the frame buffer.\<close>

record cam_env =
  env_us :: nat
  env_behind :: "nat \<Rightarrow> u8"

definition stop_dma :: "cam_task_st \<Rightarrow> cam_task_st" where
  "stop_dma st = st\<lparr>ts_hw := ll_cam_stop (ts_cam st) (ts_hw st)\<rparr>"

definition set_state :: "cam_state_t \<Rightarrow> cam_task_st \<Rightarrow> cam_task_st" where
  "set_state s st = st\<lparr>ts_cam := (ts_cam st)\<lparr>cam_state := s\<rparr>\<rparr>"

definition upd_pos :: "(cam_frame_t \<Rightarrow> cam_frame_t) \<Rightarrow> cam_task_st \<Rightarrow> cam_task_st" where
  "upd_pos f st = st\<lparr>ts_cam := upd_frame (ts_pos st) f (ts_cam st)\<rparr>"

definition cam_start_frame :: "cam_env \<Rightarrow> cam_task_st \<Rightarrow> bool \<times> cam_task_st" where
  "cam_start_frame env st =
    (case cam_get_next_frame (ts_cam st) (ts_pos st) of
       (False, pos) \<Rightarrow> (False, st\<lparr>ts_pos := pos\<rparr>)
     | (True, pos) \<Rightarrow>
         (let st = st\<lparr>ts_pos := pos\<rparr>;
              (ok, h) = ll_cam_start (ts_cam st) pos (ts_hw st);
              st = st\<lparr>ts_hw := h\<rparr>
          in if ok
             then (True, upd_pos (upd_fb (\<lambda>fb. fb\<lparr>fb_tv_sec := env_us env div 1000000,
                           fb_tv_usec := env_us env mod 1000000\<rparr>))
                     (st\<lparr>ts_hw := ll_cam_do_vsync (ts_cam st) (ts_hw st)\<rparr>))
             else (False, st)))"

section \<open>The queues\<close>

definition cq_put :: "'a \<Rightarrow> 'a cam_queue option \<Rightarrow> 'a cam_queue option" where
  "cq_put x q = (case q of None \<Rightarrow> None
     | Some q \<Rightarrow> map_option (\<lambda>xs. q\<lparr>cq_items := xs\<rparr>) (list_put (cq_cap q) (cq_items q) x))"

definition cq_get :: "'a cam_queue option \<Rightarrow> ('a \<times> 'a cam_queue) option" where
  "cq_get q = (case q of None \<Rightarrow> None
     | Some q \<Rightarrow> map_option (\<lambda>(x, xs). (x, q\<lparr>cq_items := xs\<rparr>)) (list_get (cq_items q)))"

definition cam_give :: "nat \<Rightarrow> cam_obj_t \<Rightarrow> cam_obj_t" where
  "cam_give x cam = (if x < frame_cnt cam then upd_frame x (set_en True) cam else cam)"

definition ll_cam_send_event :: "cam_event_t \<Rightarrow> cam_task_st \<Rightarrow> cam_task_st" where
  "ll_cam_send_event ev st =
    (case cq_put ev (event_queue (ts_cam st)) of
       Some q \<Rightarrow> st\<lparr>ts_cam := (ts_cam st)\<lparr>event_queue := Some q\<rparr>\<rparr>
     | None \<Rightarrow> set_state CAM_STATE_IDLE (stop_dma st))"

text \<open>The interrupt handlers: the status word read from the peripheral, and its bit.\<close>

definition ll_cam_vsync_isr :: "int \<Rightarrow> bool \<Rightarrow> cam_task_st \<Rightarrow> cam_task_st" where
  "ll_cam_vsync_isr status cam_vsync_int_st st =
    (if status = 0 then st
     else let st = st\<lparr>ts_hw := hw_set (LCD_CAM ''lc_dma_int_clr.val'') status (ts_hw st)\<rparr>
       in if cam_vsync_int_st then ll_cam_send_event CAM_VSYNC_EVENT st else st)"

definition ll_cam_dma_isr :: "int \<Rightarrow> bool \<Rightarrow> cam_task_st \<Rightarrow> cam_task_st" where
  "ll_cam_dma_isr status in_suc_eof st =
    (if status = 0 then st
     else let st = st\<lparr>ts_hw := hw_set (GDMA (dma_num (ts_cam st)) ''int_clr.val'') status (ts_hw st)\<rparr>
       in if in_suc_eof then ll_cam_send_event CAM_IN_SUC_EOF_EVENT st else st)"

section \<open>The event task\<close>

definition pixels_per_dma :: "cam_obj_t \<Rightarrow> nat" where
  "pixels_per_dma cam =
    (dma_half_buffer_size cam * fb_bytes_per_pixel cam) div
    (dma_bytes_per_item cam * in_bytes_per_pixel cam)"

definition dma_bytes :: "cam_obj_t \<Rightarrow> u8 list" where
  "dma_bytes cam = (case dma_buffer cam of None \<Rightarrow> [] | Some (_, b) \<Rightarrow> b)"

text \<open>Copying half buffer number \<open>cnt\<close> to the end of what the frame holds so far.\<close>

definition copy_half :: "cam_obj_t \<Rightarrow> nat \<Rightarrow> camera_fb_t \<Rightarrow> camera_fb_t" where
  "copy_half cam cnt fb =
    (let (n, mem) = ll_cam_memcpy cam (fb_buf fb @ dma_bytes cam) (fb_len fb)
           (length (fb_buf fb) + (cnt mod dma_half_buffer_cnt cam) * dma_half_buffer_size cam)
           (dma_half_buffer_size cam)
     in fb\<lparr>fb_buf := take (length (fb_buf fb)) mem, fb_len := fb_len fb + n\<rparr>)"

definition cur_fb :: "cam_task_st \<Rightarrow> camera_fb_t" where
  "cur_fb st = fr_fb (frames (ts_cam st) ! ts_pos st)"

definition on_eof :: "cam_env \<Rightarrow> cam_task_st \<Rightarrow> cam_task_st" where
  "on_eof env st =
    (if \<not> psram_mode (ts_cam st) \<and> fb_size (ts_cam st) < fb_len (cur_fb st) + pixels_per_dma (ts_cam st)
     then stop_dma st
     else
       (let st = (if \<not> psram_mode (ts_cam st)
                  then upd_pos (upd_fb (copy_half (ts_cam st) (ts_cnt st))) st else st);
            st = (if jpeg_mode (ts_cam st) \<and> ts_cnt st = 0 \<and>
                     cam_verify_jpeg_soi (bytes_at (fb_buf (cur_fb st)) (env_behind env)) (fb_len (cur_fb st)) \<noteq> 0
                  then set_state CAM_STATE_IDLE (stop_dma st) else st)
        in st\<lparr>ts_cnt := ts_cnt st + 1\<rparr>))"

text \<open>Sending the frame to the application; when the queue is full its oldest frame is taken
  out and freed.\<close>

definition send_frame :: "nat \<Rightarrow> cam_obj_t \<Rightarrow> cam_obj_t" where
  "send_frame pos cam =
    (case cq_put pos (frame_buffer_queue cam) of
       Some q \<Rightarrow> cam\<lparr>frame_buffer_queue := Some q\<rparr>
     | None \<Rightarrow>
         (case cq_get (frame_buffer_queue cam) of
            Some (fb2, q) \<Rightarrow>
              (let cam = cam\<lparr>frame_buffer_queue := Some q\<rparr>;
                   cam = (case cq_put pos (frame_buffer_queue cam) of
                            Some q \<Rightarrow> cam\<lparr>frame_buffer_queue := Some q\<rparr>
                          | None \<Rightarrow> upd_frame pos (set_en True) cam)
               in cam_give fb2 cam)
          | None \<Rightarrow> upd_frame pos (set_en True) cam))"

definition finish_frame :: "cam_task_st \<Rightarrow> cam_task_st" where
  "finish_frame st =
    (let cam = ts_cam st;
         st = (if jpeg_mode cam
               then if \<not> psram_mode cam
                    then if fb_size cam < fb_len (cur_fb st) + pixels_per_dma cam
                         then st\<lparr>ts_cnt := ts_cnt st - 1 + 1\<rparr>
                         else (upd_pos (upd_fb (copy_half cam (ts_cnt st))) st)\<lparr>ts_cnt := ts_cnt st + 1\<rparr>
                    else st\<lparr>ts_cnt := ts_cnt st + 1\<rparr>
               else st);
         st = upd_pos (set_en False) st;
         st = (if psram_mode cam
               then upd_pos (set_len (if jpeg_mode cam then ts_cnt st * dma_half_buffer_size cam
                                      else recv_size cam)) st
               else if \<not> jpeg_mode cam \<and> fb_len (cur_fb st) \<noteq> fb_size cam
               then upd_pos (set_en True) st else st)
     in if \<not> fr_en (frames (ts_cam st) ! ts_pos st)
        then st\<lparr>ts_cam := send_frame (ts_pos st) (ts_cam st)\<rparr> else st)"

definition on_vsync :: "cam_env \<Rightarrow> cam_task_st \<Rightarrow> cam_task_st" where
  "on_vsync env st =
    (let st = stop_dma st;
         st = (if ts_cnt st \<noteq> 0 \<or> \<not> jpeg_mode (ts_cam st) \<or> psram_mode (ts_cam st)
               then finish_frame st else st);
         (ok, st) = cam_start_frame env st;
         st = (if \<not> ok then set_state CAM_STATE_IDLE st else upd_pos (set_len 0) st)
     in st\<lparr>ts_cnt := 0\<rparr>)"

definition cam_task_event :: "cam_env \<Rightarrow> cam_event_t \<Rightarrow> cam_task_st \<Rightarrow> cam_task_st" where
  "cam_task_event env ev st =
    (case cam_state (ts_cam st) of
       CAM_STATE_IDLE \<Rightarrow>
         (if ev = CAM_VSYNC_EVENT
          then let (ok, st) = cam_start_frame env st;
                   st = (if ok then set_state CAM_STATE_READ_BUF (upd_pos (set_len 0) st) else st)
               in st\<lparr>ts_cnt := 0\<rparr>
          else st)
     | CAM_STATE_READ_BUF \<Rightarrow>
         (case ev of CAM_IN_SUC_EOF_EVENT \<Rightarrow> on_eof env st | CAM_VSYNC_EVENT \<Rightarrow> on_vsync env st))"

text \<open>The start of the task, and one turn of its loop: the oldest event, if there is one.\<close>

definition cam_task_init :: "cam_obj_t \<Rightarrow> hw \<Rightarrow> cam_task_st" where
  "cam_task_init cam h =
    \<lparr>ts_cam = cam\<lparr>cam_state := CAM_STATE_IDLE,
                  event_queue := map_option (\<lambda>q. q\<lparr>cq_items := []\<rparr>) (event_queue cam)\<rparr>,
     ts_hw = h, ts_cnt = 0, ts_pos = 0\<rparr>"

definition cam_task_turn :: "cam_env \<Rightarrow> cam_task_st \<Rightarrow> cam_task_st" where
  "cam_task_turn env st =
    (case cq_get (event_queue (ts_cam st)) of
       None \<Rightarrow> st
     | Some (ev, q) \<Rightarrow> cam_task_event env ev (st\<lparr>ts_cam := (ts_cam st)\<lparr>event_queue := Some q\<rparr>\<rparr>))"

section \<open>Taking frames\<close>

text \<open>What happens to the frame \<open>x\<close> received from the queue: it is delivered, perhaps with a new
  length, or given back because it has no end marker.\<close>

definition take_received :: "(nat \<Rightarrow> u8) \<Rightarrow> nat \<Rightarrow> cam_obj_t \<Rightarrow> bool \<times> cam_obj_t" where
  "take_received behind x cam =
    (let fb = fr_fb (frames cam ! x) in
     if jpeg_mode cam then
       (let offset_e = cam_verify_jpeg_eoi (bytes_at (fb_buf fb) behind) (fb_len fb)
        in if offset_e \<ge> 0 then (True, upd_frame x (set_len (nat offset_e + 2)) cam)
           else (False, cam_give x cam))
     else if psram_mode cam \<and> in_bytes_per_pixel cam \<noteq> fb_bytes_per_pixel cam then
       (let (n, b) = ll_cam_memcpy cam (fb_buf fb) 0 0 (fb_len fb)
        in (True, upd_frame x (upd_fb (\<lambda>fb. fb\<lparr>fb_buf := b, fb_len := n\<rparr>)) cam))
     else (True, cam))"

text \<open>One wait for a frame: what the other tasks do to the driver object until the receive
  returns, and the ticks that have passed by then. \<^verbatim>\<open>cam_take\<close> calls itself after a frame without
  an end marker. The result has the timeouts of the waits, and the frame, or nothing after a
  timeout; it is \<open>None\<close> while the waits given do not decide it.\<close>

record cam_wait =
  w_others :: "cam_obj_t \<Rightarrow> cam_obj_t"
  w_elapsed :: u32
  w_behind :: "nat \<Rightarrow> u8"

fun cam_take :: "cam_wait list \<Rightarrow> u32 \<Rightarrow> cam_obj_t \<Rightarrow> (u32 list \<times> nat option \<times> cam_obj_t) option" where
  "cam_take [] timeout cam = None"
| "cam_take (w # ws) timeout cam =
    (let cam = w_others w cam in
     case cq_get (frame_buffer_queue cam) of
       None \<Rightarrow> Some ([timeout], None, cam)
     | Some (x, q) \<Rightarrow>
         (case take_received (w_behind w) x (cam\<lparr>frame_buffer_queue := Some q\<rparr>) of
            (True, cam) \<Rightarrow> Some ([timeout], Some x, cam)
          | (False, cam) \<Rightarrow>
              map_option (\<lambda>(ts, r). (timeout # ts, r)) (cam_take ws (timeout - w_elapsed w) cam)))"

definition cam_stop :: "cam_obj_t \<Rightarrow> hw \<Rightarrow> hw" where
  "cam_stop cam h = ll_cam_stop cam (ll_cam_vsync_intr_enable False h)"

definition cam_start :: "hw \<Rightarrow> hw" where
  "cam_start h = ll_cam_vsync_intr_enable True h"

section \<open>Ownership of the frames\<close>

text \<open>The system: the task's state, and the frames the application holds.\<close>

record cam_sys =
  cs_st :: cam_task_st
  cs_held :: "nat list"

text \<open>The steps of its parts. Between events the hardware writes into the buffer of the current
  frame, in PSRAM mode, or into the DMA buffer, otherwise.\<close>

inductive cam_step :: "cam_sys \<Rightarrow> cam_sys \<Rightarrow> bool" where
  turn: "cam_step s (s\<lparr>cs_st := cam_task_turn env (cs_st s)\<rparr>)"
| vsync: "cam_step s (s\<lparr>cs_st := ll_cam_vsync_isr status b (cs_st s)\<rparr>)"
| eof: "cam_step s (s\<lparr>cs_st := ll_cam_dma_isr status b (cs_st s)\<rparr>)"
| dma_psram: "psram_mode (ts_cam (cs_st s)) \<Longrightarrow> cam_state (ts_cam (cs_st s)) = CAM_STATE_READ_BUF \<Longrightarrow>
    length d = length (fb_buf (cur_fb (cs_st s))) \<Longrightarrow>
    cam_step s (s\<lparr>cs_st := upd_pos (upd_fb (\<lambda>fb. fb\<lparr>fb_buf := d\<rparr>)) (cs_st s)\<rparr>)"
| dma_ring: "dma_buffer (ts_cam (cs_st s)) = Some (a, old) \<Longrightarrow> length d = length old \<Longrightarrow>
    cam_step s (s\<lparr>cs_st := (cs_st s)\<lparr>ts_cam := (ts_cam (cs_st s))\<lparr>dma_buffer := Some (a, d)\<rparr>\<rparr>\<rparr>)"
| take_frame: "cq_get (frame_buffer_queue (ts_cam (cs_st s))) = Some (x, q) \<Longrightarrow>
    take_received behind x ((ts_cam (cs_st s))\<lparr>frame_buffer_queue := Some q\<rparr>) = (ok, cam') \<Longrightarrow>
    cam_step s (s\<lparr>cs_st := (cs_st s)\<lparr>ts_cam := cam'\<rparr>,
                  cs_held := (if ok then x # cs_held s else cs_held s)\<rparr>)"
| give_frame: "x \<in> set (cs_held s) \<Longrightarrow>
    cam_step s (s\<lparr>cs_st := (cs_st s)\<lparr>ts_cam := cam_give x (ts_cam (cs_st s))\<rparr>,
                  cs_held := remove1 x (cs_held s)\<rparr>)"

text \<open>Every frame is in exactly one place: in the queue, with the application, or free for the
  driver; its flag \<^verbatim>\<open>en\<close> says that it is free. The frame being filled is free.\<close>

definition queued :: "cam_obj_t \<Rightarrow> nat list" where
  "queued cam = (case frame_buffer_queue cam of None \<Rightarrow> [] | Some q \<Rightarrow> cq_items q)"

definition queue_cap :: "cam_obj_t \<Rightarrow> nat" where
  "queue_cap cam = (case frame_buffer_queue cam of None \<Rightarrow> 0 | Some q \<Rightarrow> cq_cap q)"

definition owned_once :: "cam_obj_t \<Rightarrow> nat list \<Rightarrow> bool" where
  "owned_once cam held \<longleftrightarrow>
     length (frames cam) = frame_cnt cam \<and> 0 < queue_cap cam \<and>
     length (queued cam) \<le> queue_cap cam \<and> distinct (queued cam @ held) \<and>
     (\<forall>x \<in> set (queued cam @ held). x < frame_cnt cam) \<and>
     (\<forall>x < frame_cnt cam. fr_en (frames cam ! x) \<longleftrightarrow> x \<notin> set (queued cam @ held))"

definition expected_len :: "cam_obj_t \<Rightarrow> nat" where
  "expected_len cam = (if psram_mode cam then recv_size cam else fb_size cam)"

text \<open>Outside JPEG mode the queued frames are complete.\<close>

definition queued_complete :: "cam_obj_t \<Rightarrow> bool" where
  "queued_complete cam \<longleftrightarrow> (\<not> jpeg_mode cam \<longrightarrow>
     (\<forall>x \<in> set (queued cam). fb_len (fr_fb (frames cam ! x)) = expected_len cam))"

definition task_ok :: "cam_task_st \<Rightarrow> nat list \<Rightarrow> bool" where
  "task_ok st held \<longleftrightarrow> owned_once (ts_cam st) held \<and> queued_complete (ts_cam st) \<and>
     ts_pos st < frame_cnt (ts_cam st) \<and>
     (cam_state (ts_cam st) = CAM_STATE_READ_BUF \<longrightarrow> fr_en (frames (ts_cam st) ! ts_pos st))"

definition sys_ok :: "cam_sys \<Rightarrow> bool" where
  "sys_ok s \<longleftrightarrow> task_ok (cs_st s) (cs_held s)"

lemma upd_frame_simps [simp]:
  "frames (upd_frame x f cam) = (frames cam)[x := f (frames cam ! x)]"
  "frame_cnt (upd_frame x f cam) = frame_cnt cam"
  "frame_buffer_queue (upd_frame x f cam) = frame_buffer_queue cam"
  "event_queue (upd_frame x f cam) = event_queue cam"
  "cam_state (upd_frame x f cam) = cam_state cam"
  "jpeg_mode (upd_frame x f cam) = jpeg_mode cam"
  "psram_mode (upd_frame x f cam) = psram_mode cam"
  "recv_size (upd_frame x f cam) = recv_size cam"
  "fb_size (upd_frame x f cam) = fb_size cam"
  "dma_half_buffer_size (upd_frame x f cam) = dma_half_buffer_size cam"
  "queued (upd_frame x f cam) = queued cam"
  "queue_cap (upd_frame x f cam) = queue_cap cam"
  "expected_len (upd_frame x f cam) = expected_len cam"
  by (simp_all add: upd_frame_def queued_def queue_cap_def expected_len_def)

lemma fr_simps [simp]:
  "fr_en (upd_fb f fr) = fr_en fr" "fr_fb (upd_fb f fr) = f (fr_fb fr)"
  "fr_en (set_en b fr) = b" "fr_fb (set_en b fr) = fr_fb fr"
  "fr_en (set_len n fr) = fr_en fr" "fr_fb (set_len n fr) = (fr_fb fr)\<lparr>fb_len := n\<rparr>"
  by (simp_all add: upd_fb_def set_en_def set_len_def)

lemma ts_simps [simp]:
  "ts_cam (upd_pos f st) = upd_frame (ts_pos st) f (ts_cam st)" "ts_pos (upd_pos f st) = ts_pos st"
  "ts_cnt (upd_pos f st) = ts_cnt st"
  "ts_cam (stop_dma st) = ts_cam st" "ts_pos (stop_dma st) = ts_pos st" "ts_cnt (stop_dma st) = ts_cnt st"
  "ts_cam (set_state c st) = (ts_cam st)\<lparr>cam_state := c\<rparr>" "ts_pos (set_state c st) = ts_pos st"
  "ts_cnt (set_state c st) = ts_cnt st"
  by (simp_all add: upd_pos_def stop_dma_def set_state_def)

lemma owned_state [simp]:
  "owned_once (cam\<lparr>cam_state := c\<rparr>) held = owned_once cam held"
  "queued_complete (cam\<lparr>cam_state := c\<rparr>) = queued_complete cam"
  "queued (cam\<lparr>cam_state := c\<rparr>) = queued cam" "queue_cap (cam\<lparr>cam_state := c\<rparr>) = queue_cap cam"
  "expected_len (cam\<lparr>cam_state := c\<rparr>) = expected_len cam"
  by (simp_all add: owned_once_def queued_complete_def queued_def queue_cap_def expected_len_def)

lemma owned_event_queue [simp]:
  "owned_once (cam\<lparr>event_queue := q\<rparr>) held = owned_once cam held"
  "queued_complete (cam\<lparr>event_queue := q\<rparr>) = queued_complete cam"
  "queued (cam\<lparr>event_queue := q\<rparr>) = queued cam" "queue_cap (cam\<lparr>event_queue := q\<rparr>) = queue_cap cam"
  "expected_len (cam\<lparr>event_queue := q\<rparr>) = expected_len cam"
  by (simp_all add: owned_once_def queued_complete_def queued_def queue_cap_def expected_len_def)

lemma owned_dma_buffer [simp]:
  "owned_once (cam\<lparr>dma_buffer := d\<rparr>) held = owned_once cam held"
  "queued_complete (cam\<lparr>dma_buffer := d\<rparr>) = queued_complete cam"
  "queue_cap (cam\<lparr>dma_buffer := d\<rparr>) = queue_cap cam"
  by (simp_all add: owned_once_def queued_complete_def queued_def queue_cap_def expected_len_def)

lemma update_keeps_field:
  assumes "\<And>fr. sel (g fr) = sel fr"
  shows "sel (xs[x := g (xs ! x)] ! y) = sel (xs ! y)"
  using assms by (cases "x < length xs"; cases "y = x") (auto simp: list_update_beyond)

lemmas en_kept [simp] =
  update_keeps_field [where sel = fr_en and g = "upd_fb f", simplified] for f

lemmas en_kept_len [simp] =
  update_keeps_field [where sel = fr_en and g = "set_len n", simplified] for n

lemmas fb_kept [simp] =
  update_keeps_field [where sel = fr_fb and g = "set_en b", simplified] for b

lemma owned_upd_fb [simp]:
  "owned_once (upd_frame x (upd_fb f) cam) held = owned_once cam held"
  "owned_once (upd_frame x (set_len n) cam) held = owned_once cam held"
  by (simp_all add: owned_once_def)

lemma free_not_queued:
  "owned_once cam held \<Longrightarrow> x < frame_cnt cam \<Longrightarrow> fr_en (frames cam ! x) \<Longrightarrow>
     x \<notin> set (queued cam) \<and> x \<notin> set held"
  by (auto simp: owned_once_def)

text \<open>Selecting and starting a frame.\<close>

lemma find_upt:
  "List.find P [0..<n] = Some x \<Longrightarrow> x < n \<and> P x"
  "List.find P [0..<n] = None \<longleftrightarrow> (\<forall>x<n. \<not> P x)"
  by (auto simp: find_Some_iff find_None_iff)

lemma next_frame_free:
  assumes "cam_get_next_frame cam p = (ok, p')" "p < frame_cnt cam"
  shows "p' < frame_cnt cam" "ok \<Longrightarrow> fr_en (frames cam ! p')"
    "\<not> ok \<Longrightarrow> \<forall>x < frame_cnt cam. \<not> fr_en (frames cam ! x)"
  using assms find_upt
  by (auto simp: cam_get_next_frame_def split: if_splits option.splits)

lemma start_frame_effect:
  assumes "cam_start_frame env st = (ok, st')" "ts_pos st < frame_cnt (ts_cam st)"
  shows "ts_pos st' < frame_cnt (ts_cam st)"
    "ok \<Longrightarrow> fr_en (frames (ts_cam st) ! ts_pos st') \<and>
      (\<exists>f. ts_cam st' = upd_frame (ts_pos st') (upd_fb f) (ts_cam st))"
    "\<not> ok \<Longrightarrow> ts_cam st' = ts_cam st \<and> (\<forall>x < frame_cnt (ts_cam st). \<not> fr_en (frames (ts_cam st) ! x))"
proof -
  obtain b p where n: "cam_get_next_frame (ts_cam st) (ts_pos st) = (b, p)"
    by (cases "cam_get_next_frame (ts_cam st) (ts_pos st)")
  note nf = next_frame_free [OF n assms(2)]
  obtain h where h: "ll_cam_start (ts_cam st) p (ts_hw st) = (True, h)"
    by (simp add: ll_cam_start_def Let_def)
  have "ok = b" "ts_pos st' = p"
    and "b \<Longrightarrow> \<exists>f. ts_cam st' = upd_frame p (upd_fb f) (ts_cam st)" "\<not> b \<Longrightarrow> ts_cam st' = ts_cam st"
    using assms(1) n h by (cases b; auto simp: cam_start_frame_def Let_def)+
  with nf show "ts_pos st' < frame_cnt (ts_cam st)"
    "ok \<Longrightarrow> fr_en (frames (ts_cam st) ! ts_pos st') \<and>
      (\<exists>f. ts_cam st' = upd_frame (ts_pos st') (upd_fb f) (ts_cam st))"
    "\<not> ok \<Longrightarrow> ts_cam st' = ts_cam st \<and> (\<forall>x < frame_cnt (ts_cam st). \<not> fr_en (frames (ts_cam st) ! x))"
    by simp_all
qed

text \<open>Sending: the frame in flight joins the queue; a full queue gives its oldest frame back.\<close>

lemma cq_put_room:
  "frame_buffer_queue cam = Some q \<Longrightarrow>
    cq_put x (frame_buffer_queue cam) =
      (if length (queued cam) < queue_cap cam then Some (q\<lparr>cq_items := queued cam @ [x]\<rparr>) else None)"
  by (simp add: cq_put_def queued_def queue_cap_def)

lemma cq_get_queued:
  "cq_get (frame_buffer_queue cam) = Some (x, q) \<longleftrightarrow>
    (\<exists>q0 xs. frame_buffer_queue cam = Some q0 \<and> cq_items q0 = x # xs \<and> q = q0\<lparr>cq_items := xs\<rparr>)"
proof (cases "frame_buffer_queue cam")
  case (Some q0)
  then show ?thesis by (cases "cq_items q0") (auto simp: cq_get_def)
qed (simp add: cq_get_def)

lemma queued_upd [simp]:
  "queued (cam\<lparr>frame_buffer_queue := Some q\<rparr>) = cq_items q"
  "queue_cap (cam\<lparr>frame_buffer_queue := Some q\<rparr>) = cq_cap q"
  "expected_len (cam\<lparr>frame_buffer_queue := Some q\<rparr>) = expected_len cam"
  by (simp_all add: queued_def queue_cap_def expected_len_def)

lemma send_frame_effect:
  assumes cap: "0 < queue_cap cam" and bound: "length (queued cam) \<le> queue_cap cam"
    and inside: "\<forall>x \<in> set (queued cam). x < frame_cnt cam"
  obtains q where "queue_cap cam = cq_cap q" "length (queued cam) < queue_cap cam"
    "send_frame pos cam = cam\<lparr>frame_buffer_queue := Some (q\<lparr>cq_items := queued cam @ [pos]\<rparr>)\<rparr>"
  | q y ys where "queue_cap cam = cq_cap q" "queued cam = y # ys" "length (queued cam) = queue_cap cam"
    "send_frame pos cam =
      upd_frame y (set_en True) (cam\<lparr>frame_buffer_queue := Some (q\<lparr>cq_items := ys @ [pos]\<rparr>)\<rparr>)"
proof -
  obtain q where q: "frame_buffer_queue cam = Some q" "queue_cap cam = cq_cap q" "queued cam = cq_items q"
    using cap by (auto simp: queue_cap_def queued_def split: option.splits)
  show thesis
  proof (cases "length (queued cam) < queue_cap cam")
    case True
    then have "cq_put pos (Some q) = Some (q\<lparr>cq_items := queued cam @ [pos]\<rparr>)"
      using q by (simp add: cq_put_def)
    then show thesis using that(1) [of q] True q(1,2) by (simp add: send_frame_def)
  next
    case False
    then obtain y ys where y: "queued cam = y # ys" using cap by (cases "queued cam") auto
    let ?q = "q\<lparr>cq_items := ys\<rparr>"
    have "cq_items q = y # ys" using q y by simp
    then have get: "cq_get (Some q) = Some (y, ?q)" by (simp add: cq_get_def)
    have put: "cq_put pos (Some q) = None" using False q by (simp add: cq_put_def)
    have put2: "cq_put pos (Some ?q) = Some (q\<lparr>cq_items := ys @ [pos]\<rparr>)"
      using bound q(2) y by (simp add: cq_put_def)
    have "y < frame_cnt cam" using inside y by simp
    then have "send_frame pos cam =
      upd_frame y (set_en True) (cam\<lparr>frame_buffer_queue := Some (q\<lparr>cq_items := ys @ [pos]\<rparr>)\<rparr>)"
      by (simp add: send_frame_def q(1) get put put2 cam_give_def)
    then show thesis using that(2) [OF q(2) y] False bound by simp
  qed
qed

text \<open>What a change of the driver object leaves as it was.\<close>

definition same_config :: "cam_obj_t \<Rightarrow> cam_obj_t \<Rightarrow> bool" where
  "same_config cam cam' \<longleftrightarrow> frame_cnt cam' = frame_cnt cam \<and> queue_cap cam' = queue_cap cam \<and>
     jpeg_mode cam' = jpeg_mode cam \<and> psram_mode cam' = psram_mode cam \<and>
     recv_size cam' = recv_size cam \<and> fb_size cam' = fb_size cam"

lemma same_config_simps [simp]:
  "same_config cam cam" "same_config cam (upd_frame x f cam)" "same_config cam (cam\<lparr>cam_state := c\<rparr>)"
  "same_config cam (cam\<lparr>event_queue := e\<rparr>)"
  by (simp_all add: same_config_def)

lemma same_config_trans [trans]:
  "same_config a b \<Longrightarrow> same_config b c \<Longrightarrow> same_config a c"
  by (simp add: same_config_def)

text \<open>Sending a filled frame: ownership is kept, and the frames the application holds and the
  complete frames of the queue are left alone.\<close>

lemma send_frame_keeps:
  assumes own: "owned_once cam0 held" and pos: "pos < frame_cnt cam0" "fr_en (frames cam0 ! pos)"
    and cam: "cam = upd_frame pos F cam0" and taken: "\<not> fr_en (F (frames cam0 ! pos))"
  shows "owned_once (send_frame pos cam) held" "same_config cam0 (send_frame pos cam)"
    "\<And>x. x \<noteq> pos \<Longrightarrow> fr_fb (frames (send_frame pos cam) ! x) = fr_fb (frames cam0 ! x)"
    "set (queued (send_frame pos cam)) \<subseteq> insert pos (set (queued cam0))"
    "fr_fb (frames (send_frame pos cam) ! pos) = fr_fb (F (frames cam0 ! pos))"
    "cam_state (send_frame pos cam) = cam_state cam0"
proof -
  let ?n = "frame_cnt cam0"
  have o: "length (frames cam0) = ?n" "0 < queue_cap cam0" "length (queued cam0) \<le> queue_cap cam0"
    "distinct (queued cam0 @ held)" "\<forall>x \<in> set (queued cam0 @ held). x < ?n"
    "\<forall>x < ?n. fr_en (frames cam0 ! x) \<longleftrightarrow> x \<notin> set (queued cam0 @ held)"
    using own by (simp_all add: owned_once_def)
  have fresh: "pos \<notin> set (queued cam0)" "pos \<notin> set held" using free_not_queued [OF own pos] by simp_all
  have c: "0 < queue_cap cam" "length (queued cam) \<le> queue_cap cam" "\<forall>x \<in> set (queued cam). x < frame_cnt cam"
    using o by (simp_all add: cam)
  have "owned_once (send_frame pos cam) held \<and> same_config cam0 (send_frame pos cam) \<and>
    (\<forall>x. x \<noteq> pos \<longrightarrow> fr_fb (frames (send_frame pos cam) ! x) = fr_fb (frames cam0 ! x)) \<and>
    set (queued (send_frame pos cam)) \<subseteq> insert pos (set (queued cam0)) \<and>
    fr_fb (frames (send_frame pos cam) ! pos) = fr_fb (F (frames cam0 ! pos)) \<and>
    cam_state (send_frame pos cam) = cam_state cam0"
    using c
  proof (rule send_frame_effect [where pos = pos])
    fix q
    assume q: "queue_cap cam = cq_cap q" "length (queued cam) < queue_cap cam"
      and s: "send_frame pos cam = cam\<lparr>frame_buffer_queue := Some (q\<lparr>cq_items := queued cam @ [pos]\<rparr>)\<rparr>"
    show ?thesis
      using o fresh pos q taken unfolding s
      by (auto simp: cam owned_once_def same_config_def nth_list_update)
  next
    fix q y ys
    assume q: "queue_cap cam = cq_cap q" "queued cam = y # ys" "length (queued cam) = queue_cap cam"
      and s: "send_frame pos cam =
        upd_frame y (set_en True) (cam\<lparr>frame_buffer_queue := Some (q\<lparr>cq_items := ys @ [pos]\<rparr>)\<rparr>)"
    have y: "queued cam0 = y # ys" "y \<noteq> pos" using q(2) fresh by (auto simp: cam)
    show ?thesis
      using o fresh pos q y taken unfolding s
      by (auto simp: cam owned_once_def same_config_def nth_list_update)
  qed
  then show "owned_once (send_frame pos cam) held" "same_config cam0 (send_frame pos cam)"
    "\<And>x. x \<noteq> pos \<Longrightarrow> fr_fb (frames (send_frame pos cam) ! x) = fr_fb (frames cam0 ! x)"
    "set (queued (send_frame pos cam)) \<subseteq> insert pos (set (queued cam0))"
    "fr_fb (frames (send_frame pos cam) ! pos) = fr_fb (F (frames cam0 ! pos))"
    "cam_state (send_frame pos cam) = cam_state cam0"
    by blast+
qed

lemma upd_frame_twice [simp]:
  "upd_frame x f (upd_frame x g cam) = upd_frame x (\<lambda>fr. f (g fr)) cam" if "x < length (frames cam)"
  using that by (simp add: upd_frame_def)

lemma cur_fb_upd [simp]:
  "cur_fb (upd_pos f st) = fr_fb (f (frames (ts_cam st) ! ts_pos st))"
  if "ts_pos st < length (frames (ts_cam st))"
  using that by (simp add: cur_fb_def)

lemma ts_cnt_upd [simp]:
  "cur_fb (st\<lparr>ts_cnt := n\<rparr>) = cur_fb st" "ts_cam (st\<lparr>ts_cnt := n\<rparr>) = ts_cam st"
  by (simp_all add: cur_fb_def)

text \<open>A frame that is finished is sent, complete unless it is a JPEG, or stays free.\<close>

lemma finish_frame_effect:
  assumes pos: "ts_pos st < length (frames (ts_cam st))"
  obtains F where "ts_cam (finish_frame st) = send_frame (ts_pos st) (upd_frame (ts_pos st) F (ts_cam st))"
    "\<not> fr_en (F (frames (ts_cam st) ! ts_pos st))" "ts_pos (finish_frame st) = ts_pos st"
    "\<not> jpeg_mode (ts_cam st) \<longrightarrow>
      fb_len (fr_fb (F (frames (ts_cam st) ! ts_pos st))) = expected_len (ts_cam st)"
  | F where "ts_cam (finish_frame st) = upd_frame (ts_pos st) F (ts_cam st)"
    "fr_en (F (frames (ts_cam st) ! ts_pos st))" "ts_pos (finish_frame st) = ts_pos st"
proof -
  let ?cam = "ts_cam st" and ?p = "ts_pos st"
  define st1 where "st1 = (if jpeg_mode ?cam
               then if \<not> psram_mode ?cam
                    then if fb_size ?cam < fb_len (cur_fb st) + pixels_per_dma ?cam
                         then st\<lparr>ts_cnt := ts_cnt st - 1 + 1\<rparr>
                         else (upd_pos (upd_fb (copy_half ?cam (ts_cnt st))) st)\<lparr>ts_cnt := ts_cnt st + 1\<rparr>
                    else st\<lparr>ts_cnt := ts_cnt st + 1\<rparr>
               else st)"
  have "ts_cam st = upd_frame ?p (upd_fb id) ?cam"
    by (simp add: upd_frame_def upd_fb_def)
  moreover have "ts_cam st1 = ?cam \<or> ts_cam st1 = upd_frame ?p (upd_fb (copy_half ?cam (ts_cnt st))) ?cam"
    by (simp add: st1_def)
  ultimately obtain g where g: "ts_cam st1 = upd_frame ?p (upd_fb g) ?cam" by metis
  have p1: "ts_pos st1 = ?p" by (simp add: st1_def)
  define st2 where "st2 = upd_pos (set_en False) st1"
  define st3 where "st3 = (if psram_mode ?cam
               then upd_pos (set_len (if jpeg_mode ?cam then ts_cnt st2 * dma_half_buffer_size ?cam
                                      else recv_size ?cam)) st2
               else if \<not> jpeg_mode ?cam \<and> fb_len (cur_fb st2) \<noteq> fb_size ?cam
               then upd_pos (set_en True) st2 else st2)"
  have f: "finish_frame st = (if \<not> fr_en (frames (ts_cam st3) ! ts_pos st3)
        then st3\<lparr>ts_cam := send_frame (ts_pos st3) (ts_cam st3)\<rparr> else st3)"
    by (simp add: finish_frame_def Let_def st1_def st2_def st3_def)
  have p3: "ts_pos st3 = ?p" by (simp add: st3_def st2_def p1)
  have "\<exists>F. ts_cam st3 = upd_frame ?p F ?cam \<and>
    (\<not> fr_en (F (frames ?cam ! ?p)) \<longrightarrow> \<not> jpeg_mode ?cam \<longrightarrow>
      fb_len (fr_fb (F (frames ?cam ! ?p))) = expected_len ?cam)"
    using pos g p1 by (auto simp: st3_def st2_def expected_len_def cur_fb_def)
  then obtain F where F: "ts_cam st3 = upd_frame ?p F ?cam"
    "\<not> fr_en (F (frames ?cam ! ?p)) \<longrightarrow> \<not> jpeg_mode ?cam \<longrightarrow>
      fb_len (fr_fb (F (frames ?cam ! ?p))) = expected_len ?cam" by blast
  show thesis
  proof (cases "fr_en (F (frames ?cam ! ?p))")
    case True
    then show thesis using that(2) [of F] F(1) p3 pos by (simp add: f)
  next
    case False
    then show thesis using that(1) [of F] F p3 pos by (simp add: f)
  qed
qed

text \<open>One turn of the task keeps the invariant, does not touch the frames the application
  holds, and stops the camera only when no frame is free.\<close>

lemma queued_complete_upd:
  assumes "queued_complete cam" "owned_once cam held" "x < frame_cnt cam" "fr_en (frames cam ! x)"
  shows "queued_complete (upd_frame x f cam)"
proof -
  have "(frames cam)[x := v] ! y = frames cam ! y" if "y \<in> set (queued cam)" for v y
    using free_not_queued [OF assms(2-4)] that by (metis nth_list_update_neq)
  then show ?thesis using assms(1) by (simp add: queued_complete_def)
qed

lemma task_ok_upd_pos:
  assumes "task_ok st held" "cam_state (ts_cam st) = CAM_STATE_READ_BUF"
    and "\<And>fr. fr_en (f fr) = fr_en fr"
  shows "task_ok (upd_pos f st) held"
proof -
  have "queued_complete (upd_frame (ts_pos st) f (ts_cam st))"
    using assms by (intro queued_complete_upd [where held = held]) (simp_all add: task_ok_def)
  then show ?thesis
    using assms update_keeps_field [of fr_en f, OF assms(3)] by (simp add: task_ok_def owned_once_def)
qed

lemma task_ok_idle: "task_ok st held \<Longrightarrow> task_ok (set_state CAM_STATE_IDLE st) held"
  by (simp add: task_ok_def)

lemma task_ok_more [simp]:
  "task_ok (stop_dma st) held = task_ok st held" "task_ok (st\<lparr>ts_cnt := n\<rparr>) held = task_ok st held"
  "task_ok (st\<lparr>ts_hw := h\<rparr>) held = task_ok st held"
  by (simp_all add: task_ok_def)

definition held_same :: "nat list \<Rightarrow> cam_task_st \<Rightarrow> cam_task_st \<Rightarrow> bool" where
  "held_same held st st' \<longleftrightarrow> same_config (ts_cam st) (ts_cam st') \<and>
     (\<forall>x \<in> set held. fr_fb (frames (ts_cam st') ! x) = fr_fb (frames (ts_cam st) ! x))"

lemma held_same_simps [simp]:
  "held_same held st st" "held_same held st (stop_dma st)" "held_same held st (set_state c st)"
  "held_same held st (st\<lparr>ts_cnt := n\<rparr>)" "held_same held st (st\<lparr>ts_hw := h\<rparr>)"
  by (simp_all add: held_same_def)

lemma held_same_trans [trans]:
  "held_same held a b \<Longrightarrow> held_same held b c \<Longrightarrow> held_same held a c"
  using same_config_trans by (auto simp: held_same_def)

lemma held_same_upd_pos:
  assumes "task_ok st held" "cam_state (ts_cam st) = CAM_STATE_READ_BUF"
  shows "held_same held st (upd_pos f st)"
proof -
  have "ts_pos st \<notin> set held"
    using free_not_queued [of "ts_cam st" held "ts_pos st"] assms by (simp add: task_ok_def)
  then have "(frames (ts_cam st))[ts_pos st := v] ! x = frames (ts_cam st) ! x" if "x \<in> set held" for v x
    using that by (metis nth_list_update_neq)
  then show ?thesis by (simp add: held_same_def)
qed

text \<open>Starting the next frame, at the end of a frame or out of the idle state.\<close>

lemma start_next_keeps:
  assumes own: "owned_once (ts_cam st) held" "queued_complete (ts_cam st)"
    and pos: "ts_pos st < frame_cnt (ts_cam st)"
    and start: "cam_start_frame env st = (ok, st1)"
    and st': "ts_cam st' = (if ok then (upd_frame (ts_pos st1) (set_len 0) (ts_cam st1))\<lparr>cam_state := CAM_STATE_READ_BUF\<rparr>
              else (ts_cam st1)\<lparr>cam_state := CAM_STATE_IDLE\<rparr>)" "ts_pos st' = ts_pos st1"
  shows "task_ok st' held" "held_same held st st'"
    "(\<exists>x < frame_cnt (ts_cam st). fr_en (frames (ts_cam st) ! x)) \<Longrightarrow>
       cam_state (ts_cam st') = CAM_STATE_READ_BUF"
proof -
  let ?cam = "ts_cam st" and ?p = "ts_pos st1"
  note e = start_frame_effect [OF start pos]
  have all: "task_ok st' held \<and> held_same held st st' \<and>
    (ok \<longrightarrow> cam_state (ts_cam st') = CAM_STATE_READ_BUF)"
  proof (cases ok)
    case True
    obtain f where f: "ts_cam st1 = upd_frame ?p (upd_fb f) ?cam" and en: "fr_en (frames ?cam ! ?p)"
      using e(2) True by blast
    have len: "length (frames ?cam) = frame_cnt ?cam" using own by (simp add: owned_once_def)
    have p: "?p \<notin> set held" "?p < frame_cnt ?cam" using free_not_queued [OF own(1) e(1) en] e(1) by simp_all
    have "queued_complete (upd_frame ?p (\<lambda>fr. set_len 0 (upd_fb f fr)) ?cam)"
      by (rule queued_complete_upd [OF own(2,1) e(1) en])
    moreover have "owned_once (upd_frame ?p (set_len 0) (upd_frame ?p (upd_fb f) ?cam)) held"
      using own(1) by simp
    ultimately have "task_ok st' held"
      using True len p en by (simp add: task_ok_def st' f)
    moreover have "held_same held st st'"
      using True len p by (auto simp: held_same_def st' f same_config_def nth_list_update)
    ultimately show ?thesis using True by (simp add: st')
  next
    case False
    then show ?thesis
      using e own by (simp add: task_ok_def held_same_def st' same_config_def)
  qed
  then show "task_ok st' held" "held_same held st st'" by simp_all
  show "cam_state (ts_cam st') = CAM_STATE_READ_BUF"
    if "\<exists>x < frame_cnt (ts_cam st). fr_en (frames (ts_cam st) ! x)"
    using all e(3) that by blast
qed

lemma finish_frame_keeps:
  assumes ok: "task_ok st held" and busy: "cam_state (ts_cam st) = CAM_STATE_READ_BUF"
  shows "owned_once (ts_cam (finish_frame st)) held" "queued_complete (ts_cam (finish_frame st))"
    "held_same held st (finish_frame st)" "ts_pos (finish_frame st) = ts_pos st"
    "cam_state (ts_cam (finish_frame st)) = cam_state (ts_cam st)"
proof -
  let ?cam = "ts_cam st" and ?p = "ts_pos st"
  have own: "owned_once ?cam held" and qc: "queued_complete ?cam" and p: "?p < frame_cnt ?cam"
    and en: "fr_en (frames ?cam ! ?p)" using ok busy by (simp_all add: task_ok_def)
  have len: "?p < length (frames ?cam)" using own p by (simp add: owned_once_def)
  note fresh = free_not_queued [OF own p en]
  have "owned_once (ts_cam (finish_frame st)) held \<and> queued_complete (ts_cam (finish_frame st)) \<and>
    held_same held st (finish_frame st) \<and> ts_pos (finish_frame st) = ts_pos st \<and>
    cam_state (ts_cam (finish_frame st)) = cam_state (ts_cam st)"
    using len
  proof (rule finish_frame_effect)
    fix F
    assume f: "ts_cam (finish_frame st) = send_frame ?p (upd_frame ?p F ?cam)"
      "\<not> fr_en (F (frames ?cam ! ?p))" "ts_pos (finish_frame st) = ?p"
      "\<not> jpeg_mode ?cam \<longrightarrow> fb_len (fr_fb (F (frames ?cam ! ?p))) = expected_len ?cam"
    note s = send_frame_keeps [OF own p en refl, of F, OF f(2)]
    have "queued_complete (send_frame ?p (upd_frame ?p F ?cam))"
      unfolding queued_complete_def
    proof (intro impI ballI)
      fix x
      assume j: "\<not> jpeg_mode (send_frame ?p (upd_frame ?p F ?cam))"
        and x: "x \<in> set (queued (send_frame ?p (upd_frame ?p F ?cam)))"
      have "expected_len (send_frame ?p (upd_frame ?p F ?cam)) = expected_len ?cam"
        using s(2) by (simp add: same_config_def expected_len_def)
      moreover have "x = ?p \<or> x \<in> set (queued ?cam)" using s(4) x by blast
      moreover have "\<not> jpeg_mode ?cam" using j s(2) by (simp add: same_config_def)
      ultimately show "fb_len (fr_fb (frames (send_frame ?p (upd_frame ?p F ?cam)) ! x)) =
          expected_len (send_frame ?p (upd_frame ?p F ?cam))"
        using s(3,5) f(4) qc by (cases "x = ?p") (auto simp: queued_complete_def)
    qed
    moreover have "x \<noteq> ?p" if "x \<in> set held" for x using fresh that by blast
    ultimately show ?thesis using s(1,2,3,6) f(1,3) by (simp add: held_same_def)
  next
    fix F
    assume f: "ts_cam (finish_frame st) = upd_frame ?p F ?cam" "fr_en (F (frames ?cam ! ?p))"
      "ts_pos (finish_frame st) = ?p"
    have "fr_en ((frames ?cam)[?p := F (frames ?cam ! ?p)] ! x) = fr_en (frames ?cam ! x)" for x
      using en f(2) len by (cases "x = ?p") simp_all
    then have "owned_once (upd_frame ?p F ?cam) held" using own by (simp add: owned_once_def)
    moreover have "?p \<noteq> x" if "x \<in> set held" for x using fresh that by blast
    ultimately show ?thesis
      using f queued_complete_upd [OF qc own p en] by (simp add: held_same_def)
  qed
  then show "owned_once (ts_cam (finish_frame st)) held" "queued_complete (ts_cam (finish_frame st))"
    "held_same held st (finish_frame st)" "ts_pos (finish_frame st) = ts_pos st"
    "cam_state (ts_cam (finish_frame st)) = cam_state (ts_cam st)"
    by blast+
qed

lemma on_eof_keeps:
  assumes "task_ok st held" "cam_state (ts_cam st) = CAM_STATE_READ_BUF"
  shows "task_ok (on_eof env st) held" "held_same held st (on_eof env st)"
proof -
  let ?copy = "upd_pos (upd_fb (copy_half (ts_cam st) (ts_cnt st))) st"
  have c: "task_ok ?copy held" "held_same held st ?copy"
    using task_ok_upd_pos [OF assms] held_same_upd_pos [OF assms] by simp_all
  have "task_ok (on_eof env st) held \<and> held_same held st (on_eof env st)"
  proof (cases "\<not> psram_mode (ts_cam st) \<and> fb_size (ts_cam st) < fb_len (cur_fb st) + pixels_per_dma (ts_cam st)")
    case True
    then show ?thesis using assms by (simp add: on_eof_def)
  next
    case False
    define s where "s = (if \<not> psram_mode (ts_cam st) then ?copy else st)"
    have s: "task_ok s held" "held_same held st s" using c assms by (simp_all add: s_def)
    define b where "b \<longleftrightarrow> jpeg_mode (ts_cam s) \<and> ts_cnt s = 0 \<and>
      cam_verify_jpeg_soi (bytes_at (fb_buf (cur_fb s)) (env_behind env)) (fb_len (cur_fb s)) \<noteq> 0"
    have "on_eof env st = (let s = (if b then set_state CAM_STATE_IDLE (stop_dma s) else s)
        in s\<lparr>ts_cnt := ts_cnt s + 1\<rparr>)"
      unfolding on_eof_def if_not_P [OF False] b_def s_def by (simp only: Let_def)
    moreover have "held_same held st (set_state CAM_STATE_IDLE (stop_dma s))"
      using held_same_trans [OF s(2)] held_same_trans [OF held_same_simps(2) held_same_simps(3)] by blast
    ultimately show ?thesis
      using s held_same_trans [OF _ held_same_simps(4)] task_ok_idle [of "stop_dma s"]
      by (cases b) (auto simp: Let_def)
  qed
  then show "task_ok (on_eof env st) held" "held_same held st (on_eof env st)" by blast+
qed

lemma free_frame_exists:
  assumes "owned_once cam held" "queue_cap cam + length held < frame_cnt cam"
  shows "\<exists>x < frame_cnt cam. fr_en (frames cam ! x)"
proof (rule ccontr)
  assume "\<not> ?thesis"
  then have "{..<frame_cnt cam} \<subseteq> set (queued cam @ held)" using assms(1) by (auto simp: owned_once_def)
  then have "frame_cnt cam \<le> card (set (queued cam @ held))" by (metis card_lessThan card_mono finite_set)
  also have "\<dots> \<le> length (queued cam @ held)" by (rule card_length)
  also have "\<dots> \<le> queue_cap cam + length held" using assms(1) by (simp add: owned_once_def)
  finally show False using assms(2) by simp
qed

lemma on_vsync_keeps:
  assumes ok: "task_ok st held" and busy: "cam_state (ts_cam st) = CAM_STATE_READ_BUF"
  shows "task_ok (on_vsync env st) held" "held_same held st (on_vsync env st)"
    "queue_cap (ts_cam st) + length held < frame_cnt (ts_cam st) \<Longrightarrow>
       cam_state (ts_cam (on_vsync env st)) = CAM_STATE_READ_BUF"
proof -
  define s where "s = (if ts_cnt st \<noteq> 0 \<or> \<not> jpeg_mode (ts_cam st) \<or> psram_mode (ts_cam st)
     then finish_frame (stop_dma st) else stop_dma st)"
  have t: "task_ok (stop_dma st) held" "cam_state (ts_cam (stop_dma st)) = CAM_STATE_READ_BUF"
    using ok busy by simp_all
  have f: "held_same held st (finish_frame (stop_dma st))"
    by (rule held_same_trans [OF held_same_simps(2) finish_frame_keeps(3) [OF t]])
  have s: "owned_once (ts_cam s) held" "queued_complete (ts_cam s)" "held_same held st s"
    "ts_pos s = ts_pos st" "cam_state (ts_cam s) = CAM_STATE_READ_BUF"
    using finish_frame_keeps [OF t] ok busy f by (simp_all add: s_def task_ok_def)
  have cfg: "frame_cnt (ts_cam s) = frame_cnt (ts_cam st)" "queue_cap (ts_cam s) = queue_cap (ts_cam st)"
    using s(3) by (simp_all add: held_same_def same_config_def)
  have p: "ts_pos s < frame_cnt (ts_cam s)" using ok s(4) cfg by (simp add: task_ok_def)
  obtain b s1 where start: "cam_start_frame env s = (b, s1)" by (cases "cam_start_frame env s")
  have s1: "cam_state (ts_cam s1) = CAM_STATE_READ_BUF"
    using start_frame_effect(2,3) [OF start p] s(5) by (cases b) auto
  let ?r = "on_vsync env st"
  have r: "?r = (if \<not> b then set_state CAM_STATE_IDLE s1 else upd_pos (set_len 0) s1)\<lparr>ts_cnt := 0\<rparr>"
    using start unfolding on_vsync_def s_def by (simp add: Let_def)
  have "ts_cam ?r = (if b then (upd_frame (ts_pos s1) (set_len 0) (ts_cam s1))\<lparr>cam_state := CAM_STATE_READ_BUF\<rparr>
      else (ts_cam s1)\<lparr>cam_state := CAM_STATE_IDLE\<rparr>)" "ts_pos ?r = ts_pos s1"
    using s1 by (simp_all add: r upd_frame_def)
  note k = start_next_keeps [OF s(1,2) p start this]
  show "task_ok ?r held" by (rule k(1))
  show "held_same held st ?r" by (rule held_same_trans [OF s(3) k(2)])
  show "cam_state (ts_cam ?r) = CAM_STATE_READ_BUF"
    if "queue_cap (ts_cam st) + length held < frame_cnt (ts_cam st)"
    using k(3) free_frame_exists [OF s(1)] that cfg by simp
qed

lemma task_event_keeps:
  assumes ok: "task_ok st held"
  shows "task_ok (cam_task_event env ev st) held" "held_same held st (cam_task_event env ev st)"
proof -
  have "task_ok (cam_task_event env ev st) held \<and> held_same held st (cam_task_event env ev st)"
  proof (cases "cam_state (ts_cam st)")
    case CAM_STATE_READ_BUF
    then show ?thesis
      using on_eof_keeps [OF ok] on_vsync_keeps [OF ok] by (cases ev) (simp_all add: cam_task_event_def)
  next
    case idle: CAM_STATE_IDLE
    show ?thesis
    proof (cases "ev = CAM_VSYNC_EVENT")
      case True
      obtain b s1 where start: "cam_start_frame env st = (b, s1)" by (cases "cam_start_frame env st")
      have o: "owned_once (ts_cam st) held" "queued_complete (ts_cam st)" "ts_pos st < frame_cnt (ts_cam st)"
        using ok by (simp_all add: task_ok_def)
      let ?r = "cam_task_event env ev st"
      have r: "?r = (if b then set_state CAM_STATE_READ_BUF (upd_pos (set_len 0) s1) else s1)\<lparr>ts_cnt := 0\<rparr>"
        using start idle True by (simp add: cam_task_event_def Let_def)
      have "\<not> b \<Longrightarrow> cam_state (ts_cam s1) = CAM_STATE_IDLE"
        using start_frame_effect(3) [OF start o(3)] idle by simp
      then have "ts_cam ?r = (if b then (upd_frame (ts_pos s1) (set_len 0) (ts_cam s1))\<lparr>cam_state := CAM_STATE_READ_BUF\<rparr>
          else (ts_cam s1)\<lparr>cam_state := CAM_STATE_IDLE\<rparr>)" "ts_pos ?r = ts_pos s1"
        by (simp_all add: r)
      then show ?thesis using start_next_keeps(1,2) [OF o start] by blast
    next
      case False
      then show ?thesis using ok idle by (cases ev) (simp_all add: cam_task_event_def)
    qed
  qed
  then show "task_ok (cam_task_event env ev st) held" "held_same held st (cam_task_event env ev st)"
    by blast+
qed

lemma cam_event_queue [simp]:
  "task_ok (st\<lparr>ts_cam := (ts_cam st)\<lparr>event_queue := q\<rparr>\<rparr>) held = task_ok st held"
  "held_same held st (st\<lparr>ts_cam := (ts_cam st)\<lparr>event_queue := q\<rparr>\<rparr>)"
  by (simp_all add: task_ok_def held_same_def)

lemma turn_keeps:
  assumes ok: "task_ok st held"
  shows "task_ok (cam_task_turn env st) held \<and> held_same held st (cam_task_turn env st)"
proof (cases "cq_get (event_queue (ts_cam st))")
  case None
  then show ?thesis using ok by (simp add: cam_task_turn_def)
next
  case (Some r)
  obtain ev q where r: "r = (ev, q)" by (cases r)
  let ?s = "st\<lparr>ts_cam := (ts_cam st)\<lparr>event_queue := Some q\<rparr>\<rparr>"
  have "task_ok ?s held" using ok by simp
  note k = task_event_keeps [OF this]
  show ?thesis
    using k(1) held_same_trans [OF cam_event_queue(2) k(2)] by (simp add: cam_task_turn_def Some r)
qed

lemma send_event_keeps:
  assumes "task_ok st held"
  shows "task_ok (ll_cam_send_event ev st) held \<and> held_same held st (ll_cam_send_event ev st)"
  using assms task_ok_idle [of "stop_dma st" held] held_same_trans [OF held_same_simps(2) held_same_simps(3)]
  by (cases "cq_put ev (event_queue (ts_cam st))") (simp_all add: ll_cam_send_event_def)

lemma isr_keeps:
  assumes "task_ok st held"
  shows "task_ok (ll_cam_vsync_isr w b st) held \<and> held_same held st (ll_cam_vsync_isr w b st)"
    and "task_ok (ll_cam_dma_isr w b st) held \<and> held_same held st (ll_cam_dma_isr w b st)"
proof -
  have "task_ok (st\<lparr>ts_hw := h\<rparr>) held" for h using assms by simp
  note e = send_event_keeps [OF this]
  have k: "task_ok (ll_cam_send_event ev (st\<lparr>ts_hw := h\<rparr>)) held \<and>
      held_same held st (ll_cam_send_event ev (st\<lparr>ts_hw := h\<rparr>))" for ev h
    using e [of ev h] held_same_trans [OF held_same_simps(5)] by blast
  show "task_ok (ll_cam_vsync_isr w b st) held \<and> held_same held st (ll_cam_vsync_isr w b st)"
    using assms k by (auto simp: ll_cam_vsync_isr_def Let_def)
  show "task_ok (ll_cam_dma_isr w b st) held \<and> held_same held st (ll_cam_dma_isr w b st)"
    using assms k by (auto simp: ll_cam_dma_isr_def Let_def)
qed

text \<open>The application's operations.\<close>

lemma received_in_flight:
  assumes "owned_once cam held" "cq_get (frame_buffer_queue cam) = Some (x, q)"
  shows "queued cam = x # cq_items q" "queue_cap cam = cq_cap q" "x < frame_cnt cam"
    "x \<notin> set (cq_items q)" "x \<notin> set held" "\<not> fr_en (frames cam ! x)"
  using assms by (auto simp: cq_get_queued owned_once_def queued_def queue_cap_def)

lemma take_received_cases:
  assumes "take_received behind x cam = (ok, cam')" "x < frame_cnt cam"
  obtains f where "ok" "cam' = upd_frame x (upd_fb f) cam" | "\<not> ok" "cam' = upd_frame x (set_en True) cam"
proof -
  have id: "cam = upd_frame x (upd_fb id) cam" by (simp add: upd_frame_def upd_fb_def)
  have "set_len n = upd_fb (\<lambda>fb. fb\<lparr>fb_len := n\<rparr>)" for n by (simp add: set_len_def)
  then have "(ok \<and> (\<exists>f. cam' = upd_frame x (upd_fb f) cam)) \<or> (\<not> ok \<and> cam' = upd_frame x (set_en True) cam)"
    using assms id by (auto simp: take_received_def cam_give_def Let_def split: if_splits prod.splits)
  then show thesis using that by blast
qed

lemma take_keeps:
  assumes ok: "task_ok st held" and get: "cq_get (frame_buffer_queue (ts_cam st)) = Some (x, q)"
    and r: "take_received behind x ((ts_cam st)\<lparr>frame_buffer_queue := Some q\<rparr>) = (b, cam')"
  shows "task_ok (st\<lparr>ts_cam := cam'\<rparr>) (if b then x # held else held)"
    "held_same held st (st\<lparr>ts_cam := cam'\<rparr>)"
proof -
  let ?cam = "ts_cam st" and ?c = "(ts_cam st)\<lparr>frame_buffer_queue := Some q\<rparr>"
  have own: "owned_once ?cam held" and qc: "queued_complete ?cam" and p: "ts_pos st < frame_cnt ?cam"
    and busy: "cam_state ?cam = CAM_STATE_READ_BUF \<Longrightarrow> fr_en (frames ?cam ! ts_pos st)"
    using ok by (simp_all add: task_ok_def)
  note x = received_in_flight [OF own get]
  have apart: "(frames ?cam)[x := v] ! y = frames ?cam ! y" if "y \<in> set (cq_items q) \<or> y \<in> set held" for v y
    using x that by (metis nth_list_update_neq)
  have cnt: "x < frame_cnt ?c" using x by simp
  have o: "length (frames ?cam) = frame_cnt ?cam" "0 < cq_cap q" "length (cq_items q) < cq_cap q"
    "distinct (x # cq_items q @ held)" "\<forall>y \<in> set (cq_items q) \<union> set held. y < frame_cnt ?cam"
    "\<forall>y < frame_cnt ?cam. fr_en (frames ?cam ! y) \<longleftrightarrow> y \<noteq> x \<and> y \<notin> set (cq_items q) \<union> set held"
    using own x by (auto simp: owned_once_def)
  have "task_ok (st\<lparr>ts_cam := cam'\<rparr>) (if b then x # held else held) \<and>
    held_same held st (st\<lparr>ts_cam := cam'\<rparr>)"
    using r cnt
  proof (rule take_received_cases)
    fix f
    assume b: b and c: "cam' = upd_frame x (upd_fb f) ?c"
    have "owned_once cam' (x # held)"
      using o x by (auto simp: c owned_once_def)
    moreover have "queued_complete cam'"
      using qc x(1) apart by (auto simp: c queued_complete_def expected_len_def nth_list_update)
    ultimately show ?thesis
      using b p busy apart x by (auto simp: task_ok_def c held_same_def same_config_def nth_list_update)
  next
    assume b: "\<not> b" and c: "cam' = upd_frame x (set_en True) ?c"
    have "owned_once cam' held"
      using o x by (auto simp: c owned_once_def nth_list_update)
    moreover have "queued_complete cam'"
      using qc x(1) by (auto simp: c queued_complete_def expected_len_def)
    ultimately show ?thesis
      using b p busy apart x o by (auto simp: task_ok_def c held_same_def same_config_def nth_list_update)
  qed
  then show "task_ok (st\<lparr>ts_cam := cam'\<rparr>) (if b then x # held else held)"
    "held_same held st (st\<lparr>ts_cam := cam'\<rparr>)" by blast+
qed

lemma give_keeps:
  assumes ok: "task_ok st held" and x: "x \<in> set held"
  shows "task_ok (st\<lparr>ts_cam := cam_give x (ts_cam st)\<rparr>) (remove1 x held)"
    "held_same held st (st\<lparr>ts_cam := cam_give x (ts_cam st)\<rparr>)"
proof -
  let ?cam = "ts_cam st"
  have own: "owned_once ?cam held" using ok by (simp add: task_ok_def)
  then have n: "x < frame_cnt ?cam" "x \<notin> set (queued ?cam)" "distinct held"
    using x by (auto simp: owned_once_def)
  have "owned_once (upd_frame x (set_en True) ?cam) (remove1 x held)"
    using own n x by (auto simp: owned_once_def nth_list_update)
  then show "task_ok (st\<lparr>ts_cam := cam_give x ?cam\<rparr>) (remove1 x held)"
    using ok n own by (auto simp: task_ok_def cam_give_def queued_complete_def nth_list_update owned_once_def)
  show "held_same held st (st\<lparr>ts_cam := cam_give x ?cam\<rparr>)"
    by (simp add: held_same_def cam_give_def)
qed

inductive_cases cam_stepE: "cam_step s s'"

lemma step_keeps:
  assumes "cam_step s s'" "sys_ok s"
  shows "sys_ok s' \<and> (\<forall>x \<in> set (cs_held s). fr_fb (frames (ts_cam (cs_st s')) ! x) = fr_fb (frames (ts_cam (cs_st s)) ! x))"
proof -
  have ok: "task_ok (cs_st s) (cs_held s)" using assms(2) by (simp add: sys_ok_def)
  have conv: "sys_ok s' \<and> (\<forall>x \<in> set (cs_held s). fr_fb (frames (ts_cam (cs_st s')) ! x) = fr_fb (frames (ts_cam (cs_st s)) ! x))"
    if "task_ok (cs_st s') (cs_held s')" "held_same (cs_held s) (cs_st s) (cs_st s')" for s'
    using that by (simp add: sys_ok_def held_same_def)
  from assms(1) show ?thesis
  proof cases
    case (turn env)
    then show ?thesis using turn_keeps [OF ok, of env] by (intro conv) simp_all
  next
    case (vsync w b)
    then show ?thesis using isr_keeps(1) [OF ok, of w b] by (intro conv) simp_all
  next
    case (eof w b)
    then show ?thesis using isr_keeps(2) [OF ok, of w b] by (intro conv) simp_all
  next
    case (dma_psram d)
    then show ?thesis
      using task_ok_upd_pos [OF ok dma_psram(3)] held_same_upd_pos [OF ok dma_psram(3)] by (intro conv) simp_all
  next
    case (dma_ring a old d)
    then show ?thesis
      using ok by (intro conv) (simp_all add: task_ok_def held_same_def same_config_def)
  next
    case (take_frame x q behind b cam')
    then show ?thesis using take_keeps [OF ok take_frame(2,3)] by (intro conv) simp_all
  next
    case (give_frame x)
    then show ?thesis using give_keeps [OF ok give_frame(2)] by (intro conv) simp_all
  qed
qed

section \<open>Properties\<close>

text \<open>The system when \<^verbatim>\<open>cam_config\<close> has started the task: all frames free, the queue empty.\<close>

definition cam_ready :: "cam_obj_t \<Rightarrow> bool" where
  "cam_ready cam \<longleftrightarrow> 0 < frame_cnt cam \<and> length (frames cam) = frame_cnt cam \<and>
     list_all fr_en (frames cam) \<and> queued cam = [] \<and> 0 < queue_cap cam"

definition cam_sys_init :: "cam_obj_t \<Rightarrow> hw \<Rightarrow> cam_sys" where
  "cam_sys_init cam h = \<lparr>cs_st = cam_task_init cam h, cs_held = []\<rparr>"

lemma init_ok:
  assumes "cam_ready cam"
  shows "sys_ok (cam_sys_init cam h)"
  using assms
  by (simp add: sys_ok_def task_ok_def cam_sys_init_def cam_task_init_def owned_once_def cam_ready_def
      queued_complete_def queued_def queue_cap_def list_all_length)

lemma reachable_ok:
  assumes "cam_step\<^sup>*\<^sup>* (cam_sys_init cam h) s" "cam_ready cam"
  shows "sys_ok s"
  using assms(1) by (induction rule: rtranclp_induct) (use init_ok [OF assms(2)] step_keeps in blast)+

text \<open>Two frame buffers of four bytes, for concrete runs.\<close>

definition demo_frame :: cam_frame_t where
  "demo_frame = \<lparr>fr_fb = \<lparr>fb_buf = replicate 4 0, fb_len = 0, fb_width = 0, fb_height = 0,
     fb_format = PIXFORMAT_GRAYSCALE, fb_tv_sec = 0, fb_tv_usec = 0\<rparr>, fr_addr = 16, fr_en = True,
     fr_dma = None, fr_offset = 0\<rparr>"

definition demo_cam :: cam_obj_t where
  "demo_cam = cam_obj_zero\<lparr>psram_mode := True, frame_cnt := 2, frames := [demo_frame, demo_frame],
     recv_size := 4, fb_size := 4, in_bytes_per_pixel := 1, fb_bytes_per_pixel := 1,
     dma_bytes_per_item := 1, dma_half_buffer_size := 2, dma_half_buffer_cnt := 2,
     event_queue := Some \<lparr>cq_block = 1, cq_cap = 1, cq_items = []\<rparr>,
     frame_buffer_queue := Some \<lparr>cq_block = 2, cq_cap = 1, cq_items = []\<rparr>\<rparr>"

definition demo_hw :: hw where "demo_hw = \<lparr>hw_regs = (\<lambda>_. 0), hw_ops = []\<rparr>"

lemma demo_ready: "cam_ready demo_cam"
  by (simp add: cam_ready_def demo_cam_def demo_frame_def queued_def queue_cap_def)

text \<open>C1: however events, interrupts, hardware writes and the application's calls interleave,
  each frame is in exactly one place: queued once, held once by the application, or free; the
  free flag tells which, the frame being filled is free, and no frame is ever lost. Outside
  JPEG mode every queued frame has the full length.\<close>

theorem camera_frames_owned:
  assumes "cam_ready cam" and "cam_step\<^sup>*\<^sup>* (cam_sys_init cam h) s"
  shows "owned_once (ts_cam (cs_st s)) (cs_held s) \<and> queued_complete (ts_cam (cs_st s)) \<and>
    (cam_state (ts_cam (cs_st s)) = CAM_STATE_READ_BUF \<longrightarrow>
       fr_en (frames (ts_cam (cs_st s)) ! ts_pos (cs_st s)))"
  using reachable_ok [OF assms(2,1)] by (simp add: sys_ok_def task_ok_def)

theorem camera_frames_owned_witness:
  "owned_once (ts_cam (cam_task_init demo_cam demo_hw)) []"
  using camera_frames_owned [OF demo_ready, of demo_hw "cam_sys_init demo_cam demo_hw"]
  by (simp add: cam_sys_init_def)

text \<open>A run: two vertical synchronisations, each handled by the task, then the application takes
  the frame.\<close>

definition demo_tick :: "cam_sys \<Rightarrow> cam_sys" where
  "demo_tick s = s\<lparr>cs_st := cam_task_turn \<lparr>env_us = 5, env_behind = (\<lambda>_. 0)\<rparr>
     (ll_cam_vsync_isr 1 True (cs_st s))\<rparr>"

definition demo_filled :: cam_sys where
  "demo_filled = demo_tick (demo_tick (cam_sys_init demo_cam demo_hw))"

definition demo_taken :: cam_sys where
  "demo_taken = demo_filled\<lparr>cs_st := (cs_st demo_filled)\<lparr>ts_cam := snd (take_received (\<lambda>_. 0) 0
     ((ts_cam (cs_st demo_filled))\<lparr>frame_buffer_queue := Some \<lparr>cq_block = 2, cq_cap = 1, cq_items = []\<rparr>\<rparr>))\<rparr>,
     cs_held := [0]\<rparr>"

lemmas demo_defs = demo_filled_def demo_tick_def cam_sys_init_def cam_task_init_def demo_cam_def
  demo_frame_def cam_obj_zero_def cam_task_turn_def ll_cam_vsync_isr_def ll_cam_send_event_def
  cq_put_def cq_get_def cam_task_event_def on_vsync_def finish_frame_def send_frame_def
  cam_start_frame_def cam_get_next_frame_def ll_cam_start_def upd_pos_def upd_frame_def upd_fb_def
  set_en_def set_len_def set_state_def stop_dma_def cur_fb_def Let_def

lemma upt_two: "[0..<2] = [0, 1 :: nat]"
  by (simp add: upt_rec)

lemma demo_tick_one:
  "\<exists>h. demo_tick (cam_sys_init demo_cam demo_hw) = \<lparr>cs_st = \<lparr>ts_cam = demo_cam\<lparr>cam_state := CAM_STATE_READ_BUF,
       frames := [demo_frame\<lparr>fr_fb := (fr_fb demo_frame)\<lparr>fb_tv_usec := 5\<rparr>\<rparr>, demo_frame]\<rparr>,
     ts_hw = h, ts_cnt = 0, ts_pos = 0\<rparr>, cs_held = []\<rparr>"
  by (simp add: demo_defs upt_two)

lemma demo_tick_two:
  "\<exists>h. demo_filled = \<lparr>cs_st = \<lparr>ts_cam = demo_cam\<lparr>cam_state := CAM_STATE_READ_BUF,
       frames := [demo_frame\<lparr>fr_fb := (fr_fb demo_frame)\<lparr>fb_len := 4, fb_tv_usec := 5\<rparr>, fr_en := False\<rparr>,
         demo_frame\<lparr>fr_fb := (fr_fb demo_frame)\<lparr>fb_tv_usec := 5\<rparr>\<rparr>],
       frame_buffer_queue := Some \<lparr>cq_block = 2, cq_cap = 1, cq_items = [0]\<rparr>\<rparr>,
     ts_hw = h, ts_cnt = 0, ts_pos = 1\<rparr>, cs_held = []\<rparr>"
proof -
  obtain h where h: "demo_filled = demo_tick \<lparr>cs_st = \<lparr>ts_cam = demo_cam\<lparr>cam_state := CAM_STATE_READ_BUF,
       frames := [demo_frame\<lparr>fr_fb := (fr_fb demo_frame)\<lparr>fb_tv_usec := 5\<rparr>\<rparr>, demo_frame]\<rparr>,
     ts_hw = h, ts_cnt = 0, ts_pos = 0\<rparr>, cs_held = []\<rparr>"
    using demo_tick_one by (auto simp: demo_filled_def)
  show ?thesis unfolding h by (simp add: demo_defs upt_two)
qed

lemma demo_first:
  "frame_buffer_queue (ts_cam (cs_st demo_filled)) = Some \<lparr>cq_block = 2, cq_cap = 1, cq_items = [0]\<rparr>"
  "cam_state (ts_cam (cs_st demo_filled)) = CAM_STATE_READ_BUF" "cs_held demo_filled = []"
  "\<not> jpeg_mode (ts_cam (cs_st demo_filled))" "in_bytes_per_pixel (ts_cam (cs_st demo_filled)) = 1"
  "fb_bytes_per_pixel (ts_cam (cs_st demo_filled)) = 1" "frame_cnt (ts_cam (cs_st demo_filled)) = 2"
  by (rule exE [OF demo_tick_two], erule ssubst, simp add: demo_cam_def cam_obj_zero_def)+

lemma demo_tick_steps: "cam_step\<^sup>*\<^sup>* s (demo_tick s)"
proof -
  let ?v = "s\<lparr>cs_st := ll_cam_vsync_isr 1 True (cs_st s)\<rparr>"
  have "cam_step s ?v" by (rule cam_step.vsync)
  moreover have "cam_step ?v (?v\<lparr>cs_st := cam_task_turn \<lparr>env_us = 5, env_behind = (\<lambda>_. 0)\<rparr> (cs_st ?v)\<rparr>)"
    by (rule cam_step.turn)
  ultimately show ?thesis by (simp add: demo_tick_def)
qed

lemma demo_reachable:
  "cam_step\<^sup>*\<^sup>* (cam_sys_init demo_cam demo_hw) demo_filled"
  "cam_step\<^sup>*\<^sup>* (cam_sys_init demo_cam demo_hw) demo_taken"
proof -
  show f: "cam_step\<^sup>*\<^sup>* (cam_sys_init demo_cam demo_hw) demo_filled"
    unfolding demo_filled_def by (rule rtranclp_trans [OF demo_tick_steps demo_tick_steps])
  let ?cam = "(ts_cam (cs_st demo_filled))\<lparr>frame_buffer_queue := Some \<lparr>cq_block = 2, cq_cap = 1, cq_items = []\<rparr>\<rparr>"
  have "cq_get (frame_buffer_queue (ts_cam (cs_st demo_filled))) =
      Some (0, \<lparr>cq_block = 2, cq_cap = 1, cq_items = []\<rparr>)"
    by (simp add: demo_first cq_get_def)
  moreover have "take_received (\<lambda>_. 0) 0 ?cam = (True, snd (take_received (\<lambda>_. 0) 0 ?cam))"
    by (simp add: take_received_def demo_first)
  ultimately have "cam_step demo_filled demo_taken"
    unfolding demo_taken_def
    using cam_step.take_frame [of demo_filled 0 _ "\<lambda>_. 0" True] by (simp add: demo_first(3))
  with f show "cam_step\<^sup>*\<^sup>* (cam_sys_init demo_cam demo_hw) demo_taken" by simp
qed

text \<open>C2: while the application holds a frame, nothing the driver, its interrupts or the
  hardware do changes that frame's bytes, length or time stamp.\<close>

theorem held_frame_untouched:
  assumes "cam_ready cam" and "cam_step\<^sup>*\<^sup>* (cam_sys_init cam h) s" and "cam_step s s'"
    and "x \<in> set (cs_held s)"
  shows "fr_fb (frames (ts_cam (cs_st s')) ! x) = fr_fb (frames (ts_cam (cs_st s)) ! x)"
  using step_keeps [OF assms(3) reachable_ok [OF assms(2,1)]] assms(4) by blast

theorem held_frame_untouched_witness:
  "fr_fb (frames (ts_cam (cs_st (demo_taken\<lparr>cs_st := ll_cam_vsync_isr 1 True (cs_st demo_taken)\<rparr>))) ! 0) =
    fr_fb (frames (ts_cam (cs_st demo_taken)) ! 0)"
  by (rule held_frame_untouched [OF demo_ready demo_reachable(2) cam_step.vsync])
    (simp add: demo_taken_def)

text \<open>C31: when the frames that can be queued or held leave one over, as with
  \<^verbatim>\<open>CAMERA_GRAB_LATEST\<close> and an application that holds no frame, the end of a frame always
  starts the next one: the camera does not fall idle.\<close>

theorem camera_never_stalls:
  assumes "cam_ready cam" and "cam_step\<^sup>*\<^sup>* (cam_sys_init cam h) s"
    and "cam_state (ts_cam (cs_st s)) = CAM_STATE_READ_BUF"
    and "queue_cap (ts_cam (cs_st s)) + length (cs_held s) < frame_cnt (ts_cam (cs_st s))"
  shows "cam_state (ts_cam (cam_task_event env CAM_VSYNC_EVENT (cs_st s))) = CAM_STATE_READ_BUF"
proof -
  have "task_ok (cs_st s) (cs_held s)" using reachable_ok [OF assms(2,1)] by (simp add: sys_ok_def)
  then show ?thesis
    using on_vsync_keeps(3) assms(3,4) by (simp add: cam_task_event_def)
qed

theorem camera_never_stalls_witness:
  "cam_state (ts_cam (cam_task_event \<lparr>env_us = 7, env_behind = (\<lambda>_. 0)\<rparr> CAM_VSYNC_EVENT
     (cs_st demo_filled))) = CAM_STATE_READ_BUF"
  by (rule camera_never_stalls [OF demo_ready demo_reachable(1) demo_first(2)])
    (simp add: demo_first queue_cap_def)

lemma eoi_from_props:
  "(eoi_from m p = -1 \<and> (\<forall>i. 1 \<le> i \<and> i \<le> p \<longrightarrow> sig16 m i \<noteq> JPEG_EOI_MARKER)) \<or>
   (\<exists>i. eoi_from m p = int i \<and> 1 \<le> i \<and> i \<le> p \<and> sig16 m i = JPEG_EOI_MARKER \<and>
      (\<forall>j. i < j \<and> j \<le> p \<longrightarrow> sig16 m j \<noteq> JPEG_EOI_MARKER))"
proof (induction p)
  case 0
  then show ?case by simp
next
  case (Suc p)
  show ?case
  proof (cases "sig16 m (Suc p) = JPEG_EOI_MARKER")
    case True
    then show ?thesis by (auto intro!: exI [of _ "Suc p"])
  next
    case False
    then show ?thesis using Suc by (auto simp: le_Suc_eq)
  qed
qed

lemma sig16_marker: "sig16 m i = JPEG_EOI_MARKER \<longleftrightarrow> m i = 0xFF \<and> m (i + 1) = 0xD9"
proof -
  have "unat (m i) < 256" using unsigned_less [of "m i"] by simp
  moreover have "a + 256 * b = 55807 \<longleftrightarrow> a = 255 \<and> b = 217" if "a < 256" for a b :: nat
  proof
    assume h: "a + 256 * b = 55807"
    have "a = (a + 256 * b) mod 256" using that by simp
    also have "\<dots> = 255" by (simp only: h) simp
    finally show "a = 255 \<and> b = 217" using h by simp
  qed simp
  ultimately have "sig16 m i = JPEG_EOI_MARKER \<longleftrightarrow> unat (m i) = 255 \<and> unat (m (i + 1)) = 217"
    by (simp add: sig16_def JPEG_EOI_MARKER_def)
  then show ?thesis by (auto simp: word_unat_eq_iff)
qed

text \<open>A JPEG frame is delivered cut behind its last end-of-image marker: the new length is
  at most the old one, the two bytes before it are FF D9 and no marker follows within the
  received bytes. A frame is given back instead exactly when there is no marker after its
  first byte.\<close>

theorem jpeg_frame_ends_at_marker:
  assumes "jpeg_mode cam" and "x < length (frames cam)" and "length (frames cam) = frame_cnt cam"
    and "fb = fr_fb (frames cam ! x)" and "m = bytes_at (fb_buf fb) behind"
    and "take_received behind x cam = (ok, cam')"
  shows "(if ok
     then \<exists>n. fr_fb (frames cam' ! x) = fb\<lparr>fb_len := n\<rparr> \<and> 3 \<le> n \<and> n \<le> fb_len fb \<and>
       m (n - 2) = 0xFF \<and> m (n - 1) = 0xD9 \<and>
       (\<forall>i. n \<le> i + 1 \<and> i + 2 \<le> fb_len fb \<longrightarrow> \<not> (m i = 0xFF \<and> m (i + 1) = 0xD9))
     else fr_en (frames cam' ! x) \<and>
       (\<forall>i. 1 \<le> i \<and> i + 2 \<le> fb_len fb \<longrightarrow> \<not> (m i = 0xFF \<and> m (i + 1) = 0xD9)))"
  using eoi_from_props [of m "fb_len fb - 2"]
proof (elim disjE exE conjE)
  assume e: "eoi_from m (fb_len fb - 2) = - 1"
    and none: "\<forall>i. 1 \<le> i \<and> i \<le> fb_len fb - 2 \<longrightarrow> sig16 m i \<noteq> JPEG_EOI_MARKER"
  then have "ok = False" "cam' = cam_give x cam"
    using assms by (auto simp: take_received_def cam_verify_jpeg_eoi_def Let_def)
  then show ?thesis using none assms(2,3) by (auto simp: cam_give_def sig16_marker)
next
  fix i
  assume i: "eoi_from m (fb_len fb - 2) = int i" "1 \<le> i" "i \<le> fb_len fb - 2" "sig16 m i = JPEG_EOI_MARKER"
    and last: "\<forall>j. i < j \<and> j \<le> fb_len fb - 2 \<longrightarrow> sig16 m j \<noteq> JPEG_EOI_MARKER"
  then have "ok = True" "cam' = upd_frame x (set_len (i + 2)) cam"
    using assms by (auto simp: take_received_def cam_verify_jpeg_eoi_def Let_def)
  then show ?thesis
    using i last assms(2,4) by (auto simp: sig16_marker intro!: exI [of _ "i + 2"])
qed

definition demo_jpeg :: cam_obj_t where
  "demo_jpeg = demo_cam\<lparr>jpeg_mode := True, frames := [demo_frame\<lparr>fr_fb := (fr_fb demo_frame)
     \<lparr>fb_buf := [0xFF, 0xD8, 0xFF, 0xD9, 7, 7], fb_len := 6\<rparr>, fr_en := False\<rparr>, demo_frame]\<rparr>"

theorem jpeg_frame_ends_at_marker_witness:
  "fb_len (fr_fb (frames (snd (take_received (\<lambda>_. 0) 0 demo_jpeg)) ! 0)) = 4 \<and>
   (\<exists>n. 3 \<le> n \<and> n \<le> 6 \<and> fb_len (fr_fb (frames (snd (take_received (\<lambda>_. 0) 0 demo_jpeg)) ! 0)) = n)"
proof -
  let ?fb = "fr_fb (frames demo_jpeg ! 0)"
  have "eoi_from (bytes_at [0xFF, 0xD8, 0xFF, 0xD9, 7, 7] (\<lambda>_. 0)) (Suc (Suc (Suc (Suc 0)))) = 2"
    by (simp add: sig16_marker bytes_at_def)
  then have ok: "take_received (\<lambda>_. 0) 0 demo_jpeg = (True, upd_frame 0 (set_len 4) demo_jpeg)"
    by (simp add: take_received_def demo_jpeg_def cam_verify_jpeg_eoi_def eval_nat_numeral)
  have j: "jpeg_mode demo_jpeg" "0 < length (frames demo_jpeg)" "length (frames demo_jpeg) = frame_cnt demo_jpeg"
    "fb_len ?fb = 6"
    by (simp_all add: demo_jpeg_def demo_cam_def)
  show ?thesis
    using jpeg_frame_ends_at_marker [OF j(1-3) refl refl ok] j by (auto simp: ok)
qed

text \<open>Counting the half buffers of a JPEG frame in PSRAM mode.\<close>

lemma jpeg_eof_counts:
  assumes "jpeg_mode (ts_cam st)" "psram_mode (ts_cam st)" "cam_state (ts_cam st) = CAM_STATE_READ_BUF"
    and "cam_verify_jpeg_soi (bytes_at (fb_buf (cur_fb st)) (env_behind env)) (fb_len (cur_fb st)) = 0"
  shows "(cam_task_event env CAM_IN_SUC_EOF_EVENT ^^ n) st = st\<lparr>ts_cnt := ts_cnt st + n\<rparr>"
proof (induction n)
  case 0
  then show ?case by simp
next
  case (Suc n)
  then show ?case using assms by (simp add: cam_task_event_def on_eof_def Let_def)
qed

lemma finish_frame_jpeg:
  assumes "jpeg_mode (ts_cam st)" "psram_mode (ts_cam st)"
  shows "finish_frame st =
    (let s = upd_pos (set_len ((ts_cnt st + 1) * dma_half_buffer_size (ts_cam st)))
               (upd_pos (set_en False) (st\<lparr>ts_cnt := ts_cnt st + 1\<rparr>))
     in if \<not> fr_en (frames (ts_cam s) ! ts_pos s)
        then s\<lparr>ts_cam := send_frame (ts_pos s) (ts_cam s)\<rparr> else s)"
proof -
  have c: "ts_cnt (st\<lparr>ts_cnt := k\<rparr>) = k" for k by simp
  show ?thesis
    by (simp only: finish_frame_def Let_def assms if_True if_False not_True_eq_False ts_simps(3) c)
qed

text \<open>Finishing a JPEG frame in PSRAM mode while the queue has room.\<close>

lemma finish_jpeg_queues:
  fixes st held n
  assumes "task_ok st held" "jpeg_mode (ts_cam st)" "psram_mode (ts_cam st)"
    and "length (queued (ts_cam st)) < queue_cap (ts_cam st)"
  defines "s \<equiv> finish_frame (stop_dma (st\<lparr>ts_cnt := n\<rparr>))" and "len \<equiv> (n + 1) * dma_half_buffer_size (ts_cam st)"
  shows "ts_pos s = ts_pos st" "ts_pos st \<in> set (queued (ts_cam s))" "frame_cnt (ts_cam s) = frame_cnt (ts_cam st)"
    "\<not> fr_en (frames (ts_cam s) ! ts_pos st)" "fb_len (fr_fb (frames (ts_cam s) ! ts_pos st)) = len"
proof -
  let ?cam = "ts_cam st" and ?p = "ts_pos st"
  have own: "owned_once ?cam held" and p: "?p < frame_cnt ?cam" using assms(1) by (simp_all add: task_ok_def)
  then have l: "?p < length (frames ?cam)" by (simp add: owned_once_def)
  let ?cam1 = "upd_frame ?p (\<lambda>fr. set_len len (set_en False fr)) ?cam"
  have c1: "0 < queue_cap ?cam1" "length (queued ?cam1) \<le> queue_cap ?cam1"
    "\<forall>x \<in> set (queued ?cam1). x < frame_cnt ?cam1"
    using own by (simp_all add: owned_once_def)
  obtain q where q: "send_frame ?p ?cam1 = ?cam1\<lparr>frame_buffer_queue := Some (q\<lparr>cq_items := queued ?cam1 @ [?p]\<rparr>)\<rparr>"
  proof (rule send_frame_effect [OF c1, of ?p])
    fix q
    assume "send_frame ?p ?cam1 = ?cam1\<lparr>frame_buffer_queue := Some (q\<lparr>cq_items := queued ?cam1 @ [?p]\<rparr>)\<rparr>"
    then show thesis by (rule that)
  next
    fix q y ys
    assume "length (queued ?cam1) = queue_cap ?cam1"
    then show thesis using assms(4) by (simp only: upd_frame_simps)
  qed
  let ?s0 = "stop_dma (st\<lparr>ts_cnt := n\<rparr>)"
  let ?s1 = "upd_pos (set_len len) (upd_pos (set_en False) (?s0\<lparr>ts_cnt := n + 1\<rparr>))"
  have m: "jpeg_mode (ts_cam ?s0)" "psram_mode (ts_cam ?s0)" using assms(2,3) by simp_all
  have "s = (if \<not> fr_en (frames (ts_cam ?s1) ! ts_pos ?s1)
      then ?s1\<lparr>ts_cam := send_frame (ts_pos ?s1) (ts_cam ?s1)\<rparr> else ?s1)"
    unfolding s_def finish_frame_jpeg [OF m] by (simp only: Let_def) (simp add: len_def)
  moreover have s1: "ts_cam ?s1 = ?cam1" "ts_pos ?s1 = ?p" using l by simp_all
  moreover have "\<not> fr_en (frames ?cam1 ! ?p)" using l by simp
  ultimately have "s = ?s1\<lparr>ts_cam := send_frame ?p ?cam1\<rparr>" by (simp only: if_True simp_thms)
  then have s: "ts_cam s = send_frame ?p ?cam1" "ts_pos s = ?p" using s1(2) by simp_all
  then show "ts_pos s = ?p" "?p \<in> set (queued (ts_cam s))" "frame_cnt (ts_cam s) = frame_cnt ?cam"
    "\<not> fr_en (frames (ts_cam s) ! ?p)" "fb_len (fr_fb (frames (ts_cam s) ! ?p)) = len"
    using q l by simp_all
qed

text \<open>In PSRAM mode the length of a JPEG frame is the number of half buffers received, plus
  one, times their size, whatever the size of the frame buffer: no event is refused, so a
  frame that is longer than expected is queued with a length beyond its allocation, and the
  search for its end marker starts there.\<close>

theorem jpeg_length_not_bounded:
  assumes "task_ok st held" and "jpeg_mode (ts_cam st)" and "psram_mode (ts_cam st)"
    and "cam_state (ts_cam st) = CAM_STATE_READ_BUF" and "ts_cnt st = 0"
    and "length (queued (ts_cam st)) < queue_cap (ts_cam st)"
    and "cam_verify_jpeg_soi (bytes_at (fb_buf (cur_fb st)) (env_behind env)) (fb_len (cur_fb st)) = 0"
    and "st' = cam_task_event env CAM_VSYNC_EVENT ((cam_task_event env CAM_IN_SUC_EOF_EVENT ^^ n) st)"
  shows "ts_pos st \<in> set (queued (ts_cam st')) \<and>
    fb_len (fr_fb (frames (ts_cam st') ! ts_pos st)) = (n + 1) * dma_half_buffer_size (ts_cam st)"
proof -
  define s where "s = finish_frame (stop_dma (st\<lparr>ts_cnt := n\<rparr>))"
  note f = finish_jpeg_queues [OF assms(1-3,6), of n, folded s_def]
  have p: "ts_pos s < frame_cnt (ts_cam s)" using assms(1) f(1,3) by (simp add: task_ok_def)
  obtain b s1 where start: "cam_start_frame env s = (b, s1)" by (cases "cam_start_frame env s")
  note e = start_frame_effect [OF start p]
  have "st' = (if \<not> b then set_state CAM_STATE_IDLE s1 else upd_pos (set_len 0) s1)\<lparr>ts_cnt := 0\<rparr>"
    using jpeg_eof_counts [OF assms(2-4,7), of n] assms start
    by (simp add: cam_task_event_def on_vsync_def Let_def s_def)
  moreover have "b \<Longrightarrow> ts_pos s1 \<noteq> ts_pos st" using e(2) f(4) by auto
  ultimately show ?thesis
    using e f by (cases b) auto
qed

lemma demo_jpeg_run:
  fixes st env
  defines "st \<equiv> \<lparr>ts_cam = demo_cam\<lparr>jpeg_mode := True, dma_half_buffer_size := 1024,
       cam_state := CAM_STATE_READ_BUF, frames := [demo_frame\<lparr>fr_fb := (fr_fb demo_frame)
     \<lparr>fb_buf := [0xFF, 0xD8, 0xFF, 0xD9]\<rparr>\<rparr>, demo_frame]\<rparr>, ts_hw = demo_hw, ts_cnt = 0, ts_pos = 0\<rparr>"
    and "env \<equiv> \<lparr>env_us = 5, env_behind = (\<lambda>_. 0)\<rparr>"
  shows "task_ok st []" "jpeg_mode (ts_cam st)" "psram_mode (ts_cam st)"
    "cam_state (ts_cam st) = CAM_STATE_READ_BUF" "ts_cnt st = 0"
    "length (queued (ts_cam st)) < queue_cap (ts_cam st)"
    "cam_verify_jpeg_soi (bytes_at (fb_buf (cur_fb st)) (env_behind env)) (fb_len (cur_fb st)) = 0"
proof -
  show "task_ok st []"
    by (auto simp: st_def task_ok_def owned_once_def queued_complete_def queued_def queue_cap_def
        demo_cam_def demo_frame_def dest!: less_2_cases)
qed (simp_all add: st_def env_def queued_def queue_cap_def demo_cam_def demo_frame_def cur_fb_def
      cam_verify_jpeg_soi_def sig24_def bytes_at_def JPEG_SOI_MARKER_def)

theorem jpeg_length_not_bounded_witness:
  "let st = \<lparr>ts_cam = demo_cam\<lparr>jpeg_mode := True, dma_half_buffer_size := 1024,
       cam_state := CAM_STATE_READ_BUF, frames := [demo_frame\<lparr>fr_fb := (fr_fb demo_frame)
     \<lparr>fb_buf := [0xFF, 0xD8, 0xFF, 0xD9]\<rparr>\<rparr>, demo_frame]\<rparr>, ts_hw = demo_hw, ts_cnt = 0, ts_pos = 0\<rparr>;
     env = \<lparr>env_us = 5, env_behind = (\<lambda>_. 0)\<rparr>;
     st' = cam_task_event env CAM_VSYNC_EVENT ((cam_task_event env CAM_IN_SUC_EOF_EVENT ^^ 9) st)
   in length (fb_buf (cur_fb st)) = 4 \<and> fb_len (fr_fb (frames (ts_cam st') ! 0)) = 10240"
  using jpeg_length_not_bounded [OF demo_jpeg_run refl, of 9]
  by (simp add: Let_def cur_fb_def)

text \<open>After a frame without an end marker \<^verbatim>\<open>cam_take\<close> waits again for what is left of the
  timeout, computed modulo \<open>2 ^ 32\<close>: when more ticks have passed than the timeout allows, the
  next wait is longer than the whole timeout by almost \<open>2 ^ 32\<close> ticks.\<close>

theorem take_timeout_wraps:
  assumes "cam_take (w # ws) timeout cam = Some (ts, r)" and "2 \<le> length ts"
    and "timeout < w_elapsed w"
  shows "unat (ts ! 1) = 2 ^ 32 - (unat (w_elapsed w) - unat timeout)"
proof -
  have hd: "ts ! 0 = t" if "cam_take ws t c = Some (ts, r)" for ws t c ts r
    using that by (cases ws) (auto simp: Let_def split: option.splits prod.splits bool.splits)
  obtain c ts' where "cam_take ws (timeout - w_elapsed w) c = Some (ts', r)" "ts = timeout # ts'"
    using assms(1,2) by (auto simp: Let_def split: option.splits prod.splits bool.splits)
  then have "ts ! 1 = timeout - w_elapsed w" using hd by simp
  then show ?thesis
    using assms(3) by (simp add: unat_sub_if' word_less_nat_alt)
qed

definition demo_wait :: "u32 \<Rightarrow> cam_wait" where
  "demo_wait t = \<lparr>w_others = (\<lambda>c. c), w_elapsed = t, w_behind = (\<lambda>_. 0)\<rparr>"

theorem take_timeout_wraps_witness:
  "\<exists>ts r. cam_take [demo_wait 5, demo_wait 0] 3 (demo_cam\<lparr>jpeg_mode := True, frame_buffer_queue :=
      Some \<lparr>cq_block = 2, cq_cap = 1, cq_items = [0]\<rparr>\<rparr>) = Some (ts, r) \<and> unat (ts ! 1) = 2 ^ 32 - 2"
proof -
  let ?cam = "demo_cam\<lparr>jpeg_mode := True, frame_buffer_queue := Some \<lparr>cq_block = 2, cq_cap = 1, cq_items = [0]\<rparr>\<rparr>"
  obtain ts r where t: "cam_take [demo_wait 5, demo_wait 0] 3 ?cam = Some (ts, r)" "length ts = 2"
    by (simp add: demo_wait_def Let_def cq_get_def take_received_def demo_cam_def demo_frame_def
        cam_verify_jpeg_eoi_def cam_give_def)
  have "(3 :: u32) < w_elapsed (demo_wait 5)" by (simp add: demo_wait_def)
  with t show ?thesis
    using take_timeout_wraps [OF t(1)] by (auto simp: demo_wait_def)
qed

text \<open>The queue operations of sending a frame, on the queue of \<^verbatim>\<open>queue.c\<close>: the pointer to frame
  \<open>x\<close> is stored as the bytes \<open>enc x\<close>.\<close>

definition send_on_queue :: "(nat \<Rightarrow> u8 list) \<Rightarrow> nat \<Rightarrow> Queue_t \<Rightarrow> Queue_t" where
  "send_on_queue enc pos q =
    (case queue_put q (enc pos) of
       Some q' \<Rightarrow> q'
     | None \<Rightarrow> (case queue_get q of
         Some (y, q1) \<Rightarrow> (case queue_put q1 (enc pos) of Some q2 \<Rightarrow> q2 | None \<Rightarrow> q1)
       | None \<Rightarrow> q))"

text \<open>On the byte ring of the kernel's queue, sending a frame has exactly the effect the
  driver's model has on its list: the frame is appended, and when the queue is full its oldest
  entry makes room, so the second send cannot fail.\<close>

theorem send_frame_on_kernel_queue:
  assumes "q_inv q" and "\<And>x. q_fits q (enc x)"
    and "q_items q = map enc (queued cam)" and "uxLength q = queue_cap cam"
    and "owned_once cam held"
  shows "q_items (send_on_queue enc pos q) = map enc (queued (send_frame pos cam)) \<and>
    q_inv (send_on_queue enc pos q)"
proof -
  have c: "0 < queue_cap cam" "length (queued cam) \<le> queue_cap cam" "\<forall>x \<in> set (queued cam). x < frame_cnt cam"
    using assms(5) by (simp_all add: owned_once_def)
  show ?thesis
    using c
  proof (rule send_frame_effect [where pos = pos])
    fix k
    assume room: "length (queued cam) < queue_cap cam"
      and s: "send_frame pos cam = cam\<lparr>frame_buffer_queue := Some (k\<lparr>cq_items := queued cam @ [pos]\<rparr>)\<rparr>"
    show ?thesis
      using assms(1) assms(2) [of pos]
      by (rule rtos.put_cases) (use room s assms(3,4) in \<open>auto simp: send_on_queue_def\<close>)
  next
    fix k y ys
    assume full: "queued cam = y # ys" "length (queued cam) = queue_cap cam"
      and s: "send_frame pos cam =
        upd_frame y (set_en True) (cam\<lparr>frame_buffer_queue := Some (k\<lparr>cq_items := ys @ [pos]\<rparr>)\<rparr>)"
    have len: "length (q_items q) = uxLength q" using full assms(3,4) by simp
    have none: "queue_put q (enc pos) = None"
      using assms(1) assms(2) [of pos] by (rule rtos.put_cases) (use len in auto)
    then show ?thesis
      using rtos.evict_then_put [OF assms(1) assms(2) _ none] c(1) assms(3,4) full s
      by (auto simp: send_on_queue_def)
  qed
qed

theorem send_frame_on_kernel_queue_witness:
  "q_items (send_on_queue (\<lambda>x. [of_nat x]) 1 two_bytes) = [[1]]"
proof -
  let ?cam = "demo_cam\<lparr>frame_buffer_queue := Some \<lparr>cq_block = 2, cq_cap = 2, cq_items = []\<rparr>\<rparr>"
  have "owned_once ?cam []"
    by (auto simp: owned_once_def demo_cam_def demo_frame_def dest!: less_2_cases)
  moreover have "q_fits two_bytes [b]" for b
    by (simp add: q_fits_def two_bytes_def xQueueGenericReset_def prvInitialiseNewQueue_def)
  ultimately show ?thesis
    using send_frame_on_kernel_queue [of two_bytes "\<lambda>x. [of_nat x]" ?cam "[]" 1] two_bytes_ok
    by (simp add: send_frame_def cq_put_def)
qed

end
