(* ===== verification/Cam_Setup.thy ===== *)
theory Cam_Setup
  imports Cam_Hal "HOL-Library.Multiset"
begin

text \<open>
  Setting the camera driver up and down: \<^verbatim>\<open>cam_init\<close>, \<^verbatim>\<open>cam_config\<close>, \<^verbatim>\<open>cam_dma_config\<close>,
  \<^verbatim>\<open>allocate_dma_descriptors\<close> and \<^verbatim>\<open>cam_deinit\<close> of \<^verbatim>\<open>cam_hal.c\<close>, \<^verbatim>\<open>ll_cam_config\<close> and
  \<^verbatim>\<open>ll_cam_dma_init\<close> of \<^verbatim>\<open>ll_cam.c\<close>.

  The heap is a service of the system: the answers it will give to the following allocations
  are part of its state (an address, or nothing when memory has run out), together with the
  blocks in use and whether a pointer was freed that was not in use. Address 0 is \<^verbatim>\<open>NULL\<close>.
\<close>

section \<open>The heap\<close>

record heap =
  h_answers :: "nat option list"
  h_live :: "nat multiset"
  h_bad_free :: bool
  h_bytes :: "nat \<Rightarrow> u8"

definition heap_alloc :: "heap \<Rightarrow> nat option \<times> heap" where
  "heap_alloc h = (case h_answers h of
     [] \<Rightarrow> (None, h)
   | None # as \<Rightarrow> (None, h\<lparr>h_answers := as\<rparr>)
   | Some p # as \<Rightarrow> (Some p, h\<lparr>h_answers := as, h_live := add_mset p (h_live h)\<rparr>))"

definition heap_free :: "nat \<Rightarrow> heap \<Rightarrow> heap" where
  "heap_free p h =
    (if p = 0 then h
     else if p \<in># h_live h then h\<lparr>h_live := h_live h - {#p#}\<rparr> else h\<lparr>h_bad_free := True\<rparr>)"

definition free_opt :: "nat option \<Rightarrow> heap \<Rightarrow> heap" where
  "free_opt p h = (case p of None \<Rightarrow> h | Some a \<Rightarrow> heap_free a h)"

text \<open>The driver: its object with the object's heap block, the peripheral and the heap. A call
  may not return: \<open>Aborted\<close> is a failed assertion of the kernel or a division by zero.\<close>

record cam_driver =
  drv_obj :: "(nat \<times> cam_obj_t) option"
  drv_hw :: hw
  drv_heap :: heap

datatype outcome = Aborted | Done esp_err_t cam_driver

section \<open>Taking the driver down\<close>

text \<open>The blocks freed by \<^verbatim>\<open>cam_deinit\<close>, in its order.\<close>

definition frame_blocks :: "cam_frame_t \<Rightarrow> nat list" where
  "frame_blocks fr = (fr_addr fr - fr_offset fr) # (case fr_dma fr of None \<Rightarrow> [] | Some (a, _) \<Rightarrow> [a])"

definition deinit_blocks :: "cam_obj_t \<Rightarrow> nat list" where
  "deinit_blocks cam =
     (case event_queue cam of None \<Rightarrow> [] | Some q \<Rightarrow> [cq_block q]) @
     (case frame_buffer_queue cam of None \<Rightarrow> [] | Some q \<Rightarrow> [cq_block q]) @
     (case cam_dma cam of None \<Rightarrow> [] | Some (a, _) \<Rightarrow> [a]) @
     (case dma_buffer cam of None \<Rightarrow> [] | Some (a, _) \<Rightarrow> [a]) @
     (case frames_block cam of None \<Rightarrow> []
      | Some a \<Rightarrow> concat (map frame_blocks (take (frame_cnt cam) (frames cam))) @ [a])"

definition cam_deinit :: "cam_driver \<Rightarrow> esp_err_t \<times> cam_driver" where
  "cam_deinit d =
    (case drv_obj d of
       None \<Rightarrow> (ESP_FAIL, d)
     | Some (block, cam) \<Rightarrow>
         (let h = cam_stop cam (drv_hw d);
              heap = fold heap_free (deinit_blocks cam) (drv_heap d);
              (cam, h) = ll_cam_deinit cam h;
              heap = heap_free block heap
          in (ESP_OK, \<lparr>drv_obj = None, drv_hw = h, drv_heap = heap\<rparr>)))"

section \<open>Bringing it up\<close>

definition SOC_GDMA_PAIRS_PER_GROUP :: nat where "SOC_GDMA_PAIRS_PER_GROUP = 5"

text \<open>The search for a free DMA channel, from the highest number down.\<close>

fun free_channel :: "nat \<Rightarrow> hw \<Rightarrow> nat option" where
  "free_channel 0 h = None"
| "free_channel (Suc x) h =
    (if hw_regs h (GDMA x ''link.addr'') = 0 then Some x else free_channel x h)"

definition enable_clock :: "string \<Rightarrow> string \<Rightarrow> hw \<Rightarrow> hw" where
  "enable_clock en rst h =
    (if hw_regs h (SYSTEM en) = 0
     then hw_sets [(SYSTEM en, 0), (SYSTEM en, 1), (SYSTEM rst, 1), (SYSTEM rst, 0)] h else h)"

definition ll_cam_dma_init :: "cam_driver \<Rightarrow> esp_err_t \<times> cam_driver" where
  "ll_cam_dma_init d =
    (case free_channel SOC_GDMA_PAIRS_PER_GROUP (drv_hw d) of
       None \<Rightarrow> (ESP_FAIL, snd (cam_deinit d))
     | Some x \<Rightarrow>
         (let d = d\<lparr>drv_obj := map_option (map_prod id (\<lambda>c. c\<lparr>dma_num := x\<rparr>)) (drv_obj d)\<rparr>;
              psram = (case drv_obj d of None \<Rightarrow> False | Some (_, c) \<Rightarrow> psram_mode c);
              h = enable_clock ''DMA_CLK_EN'' ''DMA_RST'' (drv_hw d);
              ch = GDMA x;
              h = hw_sets [(ch ''int_clr.val'', -1), (ch ''int_ena.val'', 0), (ch ''conf0.val'', 0),
                    (ch ''conf0.in_rst'', 1), (ch ''conf0.in_rst'', 0)] h;
              h = (if \<not> psram
                   then hw_sets [(ch ''conf0.indscr_burst_en'', 1), (ch ''conf0.in_data_burst_en'', 1)] h else h);
              h = hw_sets [(ch ''conf1.in_check_owner'', 0), (ch ''peri_sel.sel'', 5)] h
          in (ESP_OK, d\<lparr>drv_hw := h\<rparr>)))"

definition ll_cam_config :: "camera_config_t \<Rightarrow> cam_driver \<Rightarrow> outcome" where
  "ll_cam_config config d =
    (let h = enable_clock ''LCD_CAM_CLK_EN'' ''LCD_CAM_RST'' (drv_hw d);
         swap = (case drv_obj d of None \<Rightarrow> False | Some (_, c) \<Rightarrow> swap_data c)
     in if xclk_freq_hz config = 0 then Aborted
        else let h = hw_sets
          [(LCD_CAM ''cam_ctrl.val'', 0), (LCD_CAM ''cam_ctrl.cam_clkm_div_b'', 0),
           (LCD_CAM ''cam_ctrl.cam_clkm_div_a'', 0),
           (LCD_CAM ''cam_ctrl.cam_clkm_div_num'', c_div 160000000 (xclk_freq_hz config)),
           (LCD_CAM ''cam_ctrl.cam_clk_sel'', 3), (LCD_CAM ''cam_ctrl.cam_stop_en'', 0),
           (LCD_CAM ''cam_ctrl.cam_vsync_filter_thres'', 4), (LCD_CAM ''cam_ctrl.cam_update'', 0),
           (LCD_CAM ''cam_ctrl.cam_byte_order'', if swap then 1 else 0),
           (LCD_CAM ''cam_ctrl.cam_bit_order'', 0), (LCD_CAM ''cam_ctrl.cam_line_int_en'', 0),
           (LCD_CAM ''cam_ctrl.cam_vs_eof_en'', 0), (LCD_CAM ''cam_ctrl1.val'', 0),
           (LCD_CAM ''cam_ctrl1.cam_rec_data_bytelen'', int LCD_CAM_DMA_NODE_BUFFER_MAX_SIZE - 1),
           (LCD_CAM ''cam_ctrl1.cam_line_int_num'', 0), (LCD_CAM ''cam_ctrl1.cam_clk_inv'', 0),
           (LCD_CAM ''cam_ctrl1.cam_vsync_filter_en'', 1), (LCD_CAM ''cam_ctrl1.cam_2byte_en'', 0),
           (LCD_CAM ''cam_ctrl1.cam_de_inv'', 0), (LCD_CAM ''cam_ctrl1.cam_hsync_inv'', 0),
           (LCD_CAM ''cam_ctrl1.cam_vsync_inv'', 0), (LCD_CAM ''cam_ctrl1.cam_vh_de_mode_en'', 0),
           (LCD_CAM ''cam_rgb_yuv.val'', 0), (LCD_CAM ''cam_ctrl.cam_update'', 1),
           (LCD_CAM ''cam_ctrl1.cam_start'', 1)] h;
          (err, d) = ll_cam_dma_init (d\<lparr>drv_hw := h\<rparr>)
        in Done err d)"

definition cam_init :: "camera_config_t option \<Rightarrow> cam_driver \<Rightarrow> outcome" where
  "cam_init config d =
    (case config of
       None \<Rightarrow> Done ESP_ERR_INVALID_ARG d
     | Some config \<Rightarrow>
       (case heap_alloc (drv_heap d) of
          (None, heap) \<Rightarrow> Done ESP_ERR_NO_MEM (d\<lparr>drv_obj := None, drv_heap := heap\<rparr>)
        | (Some block, heap) \<Rightarrow>
          (let cam = cam_obj_zero\<lparr>vsync_pin := pin_vsync config, vsync_invert := True\<rparr>;
               d = \<lparr>drv_obj = Some (block, cam), drv_hw = ll_cam_set_pin cam config (drv_hw d),
                    drv_heap = heap\<rparr>
           in case ll_cam_config config d of
                Aborted \<Rightarrow> Aborted
              | Done err d \<Rightarrow>
                  if err = ESP_OK then Done ESP_OK d
                  else Done ESP_FAIL
                    (d\<lparr>drv_heap := free_opt (map_option fst (drv_obj d)) (drv_heap d), drv_obj := None\<rparr>))))"

section \<open>Buffers and descriptors\<close>

definition dma_nodes :: "nat \<Rightarrow> nat \<Rightarrow> lldesc_t list" where
  "dma_nodes n sz = map (\<lambda>x. \<lparr>ld_size = sz, ld_length = 0, ld_sosf = False, ld_eof = False,
     ld_owner = True, ld_buf = sz * x, ld_empty = (x + 1) mod n\<rparr>) [0..<n]"

definition allocate_dma_descriptors :: "nat \<Rightarrow> nat \<Rightarrow> heap \<Rightarrow> dma_chain option \<times> heap" where
  "allocate_dma_descriptors n sz heap =
    (case heap_alloc heap of
       (None, heap) \<Rightarrow> (None, heap)
     | (Some a, heap) \<Rightarrow> (Some (a, dma_nodes n sz), heap))"

definition frame_zero :: cam_frame_t where
  "frame_zero = \<lparr>fr_fb = \<lparr>fb_buf = [], fb_len = 0, fb_width = 0, fb_height = 0,
     fb_format = PIXFORMAT_RGB565, fb_tv_sec = 0, fb_tv_usec = 0\<rparr>, fr_addr = 0, fr_en = False,
     fr_dma = None, fr_offset = 0\<rparr>"

text \<open>One turn of the loop over the frames: the buffer, aligned in PSRAM mode, and its
  descriptors.\<close>

definition alloc_frame :: "nat \<Rightarrow> nat \<Rightarrow> nat \<Rightarrow> cam_obj_t \<Rightarrow> heap \<Rightarrow> bool \<times> cam_obj_t \<times> heap" where
  "alloc_frame dma_align alloc_size x cam heap =
    (let cam = upd_frame x (\<lambda>fr. fr\<lparr>fr_dma := None, fr_offset := 0, fr_en := False\<rparr>) cam in
     case heap_alloc heap of
       (None, heap) \<Rightarrow> (False, upd_frame x (\<lambda>fr. fr\<lparr>fr_addr := 0\<rparr>) cam, heap)
     | (Some a, heap) \<Rightarrow>
       (if psram_mode cam then
          (let off = dma_align - (a AND (dma_align - 1));
               cam = upd_frame x (\<lambda>fr. fr\<lparr>fr_addr := a + off, fr_offset := off,
                 fr_fb := (fr_fb fr)\<lparr>fb_buf := map (h_bytes heap) [a + off..<a + alloc_size]\<rparr>\<rparr>) cam
           in case allocate_dma_descriptors (dma_node_cnt cam) (dma_node_buffer_size cam) heap of
                (None, heap) \<Rightarrow> (False, cam, heap)
              | (Some c, heap) \<Rightarrow>
                  (True, upd_frame x (\<lambda>fr. fr\<lparr>fr_dma := Some c, fr_en := True\<rparr>) cam, heap))
        else
          (True, upd_frame x (\<lambda>fr. fr\<lparr>fr_addr := a, fr_en := True,
             fr_fb := (fr_fb fr)\<lparr>fb_buf := map (h_bytes heap) [a..<a + alloc_size]\<rparr>\<rparr>) cam, heap)))"

fun alloc_frames :: "nat \<Rightarrow> nat \<Rightarrow> nat list \<Rightarrow> cam_obj_t \<Rightarrow> heap \<Rightarrow> bool \<times> cam_obj_t \<times> heap" where
  "alloc_frames dma_align alloc_size [] cam heap = (True, cam, heap)"
| "alloc_frames dma_align alloc_size (x # xs) cam heap =
    (case alloc_frame dma_align alloc_size x cam heap of
       (False, r) \<Rightarrow> (False, r)
     | (True, cam, heap) \<Rightarrow> alloc_frames dma_align alloc_size xs cam heap)"

definition alloc_all_frames :: "hw \<Rightarrow> cam_obj_t \<Rightarrow> heap \<Rightarrow> bool \<times> cam_obj_t \<times> heap" where
  "alloc_all_frames h cam heap =
    (case heap_alloc heap of
       (None, heap) \<Rightarrow> (False, cam\<lparr>frames_block := None\<rparr>, heap)
     | (Some a, heap) \<Rightarrow>
       (let cam = cam\<lparr>frames_block := Some a, frames := replicate (frame_cnt cam) frame_zero\<rparr>;
            dma_align = (if psram_mode cam then ll_cam_get_dma_align cam h else 0);
            sz = (if psram_mode cam \<and> fb_size cam < recv_size cam then recv_size cam else fb_size cam)
        in alloc_frames dma_align (sz + dma_align) [0..<frame_cnt cam] cam heap))"

definition alloc_dma_ring :: "cam_obj_t \<Rightarrow> heap \<Rightarrow> esp_err_t \<times> cam_obj_t \<times> heap" where
  "alloc_dma_ring cam heap =
    (if psram_mode cam then (ESP_OK, cam, heap)
     else (case heap_alloc heap of
         (None, heap) \<Rightarrow> (ESP_FAIL, cam, heap)
       | (Some b, heap) \<Rightarrow>
         (let cam = cam\<lparr>dma_buffer := Some (b, map (h_bytes heap) [b..<b + dma_buffer_size cam])\<rparr>
          in case allocate_dma_descriptors (dma_node_cnt cam) (dma_node_buffer_size cam) heap of
               (None, heap) \<Rightarrow> (ESP_FAIL, cam, heap)
             | (Some c, heap) \<Rightarrow> (ESP_OK, cam\<lparr>cam_dma := Some c\<rparr>, heap))))"

definition cam_dma_config :: "hw \<Rightarrow> cam_obj_t \<Rightarrow> heap \<Rightarrow> (esp_err_t \<times> cam_obj_t \<times> heap) option" where
  "cam_dma_config h cam heap =
    (case ll_cam_dma_sizes cam of
       None \<Rightarrow> None
     | Some (False, cam) \<Rightarrow> Some (ESP_FAIL, cam, heap)
     | Some (True, cam) \<Rightarrow>
       if dma_node_buffer_size cam = 0 \<or> dma_half_buffer_size cam = 0 then None
       else
         (let cam = cam\<lparr>dma_node_cnt := dma_buffer_size cam div dma_node_buffer_size cam,
                        frame_copy_cnt := recv_size cam div dma_half_buffer_size cam,
                        dma_buffer := None, cam_dma := None\<rparr>
          in case alloc_all_frames h cam heap of
               (False, cam, heap) \<Rightarrow> Some (ESP_FAIL, cam, heap)
             | (True, cam, heap) \<Rightarrow> Some (alloc_dma_ring cam heap)))"

text \<open>Creating a queue: the checks are those of \<^verbatim>\<open>xQueueGenericCreate\<close>, the block comes from the
  heap.\<close>

definition create_queue :: "nat \<Rightarrow> nat \<Rightarrow> nat \<Rightarrow> heap \<Rightarrow> ('a cam_queue option \<times> heap) option" where
  "create_queue sizeof_Queue n sz heap =
    (let (a, heap') = heap_alloc heap in
     case xQueueGenericCreate sizeof_Queue (\<lambda>k. map_option (\<lambda>_. replicate k 0) a) n sz of
       CreateAssert \<Rightarrow> None
     | CreateNULL \<Rightarrow> Some (None, heap')
     | Created q \<Rightarrow> Some (Some \<lparr>cq_block = the a, cq_cap = uxLength q, cq_items = []\<rparr>, heap'))"

text \<open>The rest of \<^verbatim>\<open>cam_config\<close> once the buffers exist. The services of the system it uses, the
  interrupt allocations and the task's handle, are arguments.\<close>

definition fail_config :: "nat \<Rightarrow> cam_obj_t \<Rightarrow> hw \<Rightarrow> heap \<Rightarrow> outcome" where
  "fail_config block cam h heap =
     Done ESP_FAIL (snd (cam_deinit \<lparr>drv_obj = Some (block, cam), drv_hw = h, drv_heap = heap\<rparr>))"

definition frame_buffer_queue_len :: "camera_config_t \<Rightarrow> cam_obj_t \<Rightarrow> nat" where
  "frame_buffer_queue_len config cam =
    (if grab_mode config = CAMERA_GRAB_LATEST \<and> frame_cnt cam > 1
     then frame_cnt cam - 1 else frame_cnt cam)"

definition config_queues ::
  "nat \<Rightarrow> int \<times> nat \<Rightarrow> int \<times> nat \<Rightarrow> nat \<Rightarrow> camera_config_t \<Rightarrow> nat \<Rightarrow> cam_obj_t \<Rightarrow> hw \<Rightarrow> heap \<Rightarrow> outcome" where
  "config_queues sizeof_Queue dma_alloc vsync_alloc task config block cam h heap =
    (case create_queue sizeof_Queue (wrap32 (dma_half_buffer_cnt cam + (2 ^ 32 - 1))) 4 heap of
       None \<Rightarrow> Aborted
     | Some (None, heap) \<Rightarrow> fail_config block cam h heap
     | Some (Some eq, heap) \<Rightarrow>
       (let cam = cam\<lparr>event_queue := Some eq\<rparr>
        in case create_queue sizeof_Queue (frame_buffer_queue_len config cam) 4 heap of
             None \<Rightarrow> Aborted
           | Some (None, heap) \<Rightarrow> fail_config block cam h heap
           | Some (Some fq, heap) \<Rightarrow>
             (case ll_cam_init_isr dma_alloc vsync_alloc (cam\<lparr>frame_buffer_queue := Some fq\<rparr>) of
                (ret, cam) \<Rightarrow>
                  if ret \<noteq> ESP_OK then fail_config block cam h heap
                  else Done ESP_OK \<lparr>drv_obj = Some (block, cam\<lparr>task_handle := Some task\<rparr>),
                                    drv_hw = h, drv_heap = heap\<rparr>)))"

definition sized_cam :: "camera_config_t \<Rightarrow> framesize_t \<Rightarrow> u16 \<Rightarrow> cam_obj_t \<Rightarrow> cam_obj_t" where
  "sized_cam config fs sensor_pid cam =
    (let (ret, cam) = ll_cam_set_sample_mode cam (pixel_format config) sensor_pid;
         cam = cam\<lparr>jpeg_mode := (pixel_format config = PIXFORMAT_JPEG), psram_mode := True,
                   frame_cnt := fb_count config, cam_width := res_width (resolution fs),
                   cam_height := res_height (resolution fs)\<rparr>
     in if jpeg_mode cam
        then cam\<lparr>recv_size := cam_width cam * cam_height cam div 5,
                 fb_size := cam_width cam * cam_height cam div 5\<rparr>
        else cam\<lparr>recv_size := cam_width cam * cam_height cam * in_bytes_per_pixel cam,
                 fb_size := cam_width cam * cam_height cam * fb_bytes_per_pixel cam\<rparr>)"

definition cam_config ::
  "nat \<Rightarrow> int \<times> nat \<Rightarrow> int \<times> nat \<Rightarrow> nat \<Rightarrow> camera_config_t option \<Rightarrow> framesize_t \<Rightarrow> u16 \<Rightarrow>
   cam_driver \<Rightarrow> outcome" where
  "cam_config sizeof_Queue dma_alloc vsync_alloc task config fs sensor_pid d =
    (case (config, drv_obj d) of
       (None, _) \<Rightarrow> Done ESP_ERR_INVALID_ARG d
     | (Some config, None) \<Rightarrow> Aborted
     | (Some config, Some (block, cam)) \<Rightarrow>
       (case cam_dma_config (drv_hw d) (sized_cam config fs sensor_pid cam) (drv_heap d) of
          None \<Rightarrow> Aborted
        | Some (ret, cam, heap) \<Rightarrow>
            if ret \<noteq> ESP_OK then fail_config block cam (drv_hw d) heap
            else config_queues sizeof_Queue dma_alloc vsync_alloc task config block cam (drv_hw d) heap))"

section \<open>Every block is accounted for\<close>

definition nz :: "nat list \<Rightarrow> nat multiset" where
  "nz ps = mset (filter (\<lambda>p. p \<noteq> 0) ps)"

lemma nz_simps [simp]:
  "nz [] = {#}" "nz (p # ps) = (if p = 0 then nz ps else add_mset p (nz ps))" "nz (ps @ qs) = nz ps + nz qs"
  by (simp_all add: nz_def)

lemma heap_frees:
  assumes "nz ps \<subseteq># h_live h"
  shows "h_live (fold heap_free ps h) = h_live h - nz ps \<and>
    h_bad_free (fold heap_free ps h) = h_bad_free h \<and> h_answers (fold heap_free ps h) = h_answers h"
  using assms
proof (induction ps arbitrary: h)
  case Nil
  then show ?case by simp
next
  case (Cons p ps)
  show ?case
  proof (cases "p = 0")
    case True
    then show ?thesis using Cons by (simp add: heap_free_def)
  next
    case False
    then have "p \<in># h_live h" using Cons.prems by (simp add: insert_subset_eq_iff)
    moreover have "nz ps \<subseteq># h_live h - {#p#}" using Cons.prems False by (simp add: insert_subset_eq_iff)
    ultimately show ?thesis
      using Cons.IH [of "heap_free p h"] False by (simp add: heap_free_def)
  qed
qed

text \<open>The heap holds the blocks of the object, and besides them those of the rest of the
  program.\<close>

definition accounts :: "cam_obj_t \<Rightarrow> nat multiset \<Rightarrow> heap \<Rightarrow> bool" where
  "accounts cam base heap \<longleftrightarrow> h_live heap = nz (deinit_blocks cam) + base \<and> Some 0 \<notin> set (h_answers heap)"

lemma alloc_cases:
  assumes "Some 0 \<notin> set (h_answers heap)"
  obtains heap' where "heap_alloc heap = (None, heap')" "h_live heap' = h_live heap"
    "h_bad_free heap' = h_bad_free heap" "Some 0 \<notin> set (h_answers heap')"
  | a heap' where "heap_alloc heap = (Some a, heap')" "h_live heap' = add_mset a (h_live heap)" "a \<noteq> 0"
    "h_bad_free heap' = h_bad_free heap" "Some 0 \<notin> set (h_answers heap')"
proof (cases "h_answers heap")
  case Nil
  then show thesis using that(1) assms by (simp add: heap_alloc_def)
next
  case (Cons r as)
  then show thesis using that assms by (cases r) (auto simp: heap_alloc_def)
qed

lemma deinit_frees:
  assumes "drv_obj d = Some (block, cam)" "block \<noteq> 0" "accounts cam (add_mset block base) (drv_heap d)"
  shows "fst (cam_deinit d) = ESP_OK" "drv_obj (snd (cam_deinit d)) = None"
    "h_live (drv_heap (snd (cam_deinit d))) = base"
    "h_bad_free (drv_heap (snd (cam_deinit d))) = h_bad_free (drv_heap d)"
proof -
  have l: "h_live (drv_heap d) = nz (deinit_blocks cam) + add_mset block base"
    using assms(3) by (simp add: accounts_def)
  then have f: "h_live (fold heap_free (deinit_blocks cam) (drv_heap d)) = add_mset block base"
    "h_bad_free (fold heap_free (deinit_blocks cam) (drv_heap d)) = h_bad_free (drv_heap d)"
    using heap_frees [of "deinit_blocks cam" "drv_heap d"] by simp_all
  show "fst (cam_deinit d) = ESP_OK" "drv_obj (snd (cam_deinit d)) = None"
    "h_live (drv_heap (snd (cam_deinit d))) = base"
    "h_bad_free (drv_heap (snd (cam_deinit d))) = h_bad_free (drv_heap d)"
    using assms(1,2) f by (simp_all add: cam_deinit_def ll_cam_deinit_def heap_free_def)
qed

text \<open>The frames' blocks, and what an update of one frame adds.\<close>

definition frames_nz :: "cam_frame_t list \<Rightarrow> nat multiset" where
  "frames_nz frs = nz (concat (map frame_blocks frs))"

lemma frames_nz_update:
  assumes "x < length frs" "nz (frame_blocks (frs ! x)) = {#}"
  shows "frames_nz (frs[x := fr]) = nz (frame_blocks fr) + frames_nz frs"
proof -
  have "frames_nz frs = frames_nz (take x frs @ frs ! x # drop (Suc x) frs)"
    using assms(1) by (simp flip: id_take_nth_drop)
  then show ?thesis
    using assms by (simp add: upd_conv_take_nth_drop frames_nz_def)
qed

text \<open>An object whose frames are being allocated: the rest of its blocks are \<open>other\<close>.\<close>

definition framed :: "nat \<Rightarrow> cam_obj_t \<Rightarrow> nat multiset \<Rightarrow> heap \<Rightarrow> bool" where
  "framed n cam other heap \<longleftrightarrow> length (frames cam) = n \<and> frame_cnt cam = n \<and>
     h_live heap = frames_nz (frames cam) + other \<and> Some 0 \<notin> set (h_answers heap)"

definition same_rest :: "cam_obj_t \<Rightarrow> cam_obj_t \<Rightarrow> bool" where
  "same_rest cam cam' \<longleftrightarrow> (\<exists>frs. cam' = cam\<lparr>frames := frs\<rparr>)"

lemma same_rest_refl [simp]: "same_rest cam cam" "same_rest cam (upd_frame x f cam)"
  "same_rest cam (cam\<lparr>frames := frs\<rparr>)"
  by (auto simp: same_rest_def upd_frame_def intro: exI [of _ "frames cam"])

lemma same_rest_trans: "same_rest a b \<Longrightarrow> same_rest b c \<Longrightarrow> same_rest a c"
  by (auto simp: same_rest_def)

lemma alloc_frame_framed:
  assumes f: "framed n cam other heap" and x: "x < n" "frames cam ! x = frame_zero"
    and r: "alloc_frame al sz x cam heap = (ok, cam', heap')"
  shows "framed n cam' other heap'" "same_rest cam cam'" "h_bad_free heap' = h_bad_free heap"
    "\<forall>y. y \<noteq> x \<longrightarrow> frames cam' ! y = frames cam ! y" "ok \<longrightarrow> fr_en (frames cam' ! x)"
proof -
  let ?c0 = "upd_frame x (\<lambda>fr. fr\<lparr>fr_dma := None, fr_offset := 0, fr_en := False\<rparr>) cam"
  have len: "x < length (frames cam)" using f x by (simp add: framed_def)
  have z: "nz (frame_blocks (frames cam ! x)) = {#}" by (simp add: x(2) frame_blocks_def frame_zero_def)
  have fr: "framed n (upd_frame x F cam) other heap1"
    if "h_live heap1 = nz (frame_blocks (F (frames cam ! x))) + h_live heap" "Some 0 \<notin> set (h_answers heap1)" for F heap1
    using f frames_nz_update [OF len z] that by (simp add: framed_def ac_simps)
  have "Some 0 \<notin> set (h_answers heap)" using f by (simp add: framed_def)
  then have "framed n cam' other heap' \<and> same_rest cam cam' \<and> h_bad_free heap' = h_bad_free heap \<and>
    (\<forall>y. y \<noteq> x \<longrightarrow> frames cam' ! y = frames cam ! y) \<and> (ok \<longrightarrow> fr_en (frames cam' ! x))"
  proof (rule alloc_cases)
    fix h1 assume h1: "heap_alloc heap = (None, h1)" "h_live h1 = h_live heap"
      "h_bad_free h1 = h_bad_free heap" "Some 0 \<notin> set (h_answers h1)"
    show ?thesis
      using r h1 len fr [of h1 "\<lambda>fr. fr\<lparr>fr_dma := None, fr_offset := 0, fr_en := False, fr_addr := 0\<rparr>"]
      by (auto simp: alloc_frame_def Let_def frame_blocks_def)
  next
    fix a h1 assume h1: "heap_alloc heap = (Some a, h1)" "h_live h1 = add_mset a (h_live heap)" "a \<noteq> 0"
      "h_bad_free h1 = h_bad_free heap" "Some 0 \<notin> set (h_answers h1)"
    show ?thesis
    proof (cases "psram_mode cam")
      case False
      then show ?thesis
        using r h1 len fr [of h1 "\<lambda>fr. fr\<lparr>fr_dma := None, fr_offset := 0, fr_addr := a, fr_en := True,
            fr_fb := (fr_fb fr)\<lparr>fb_buf := map (h_bytes h1) [a..<a + sz]\<rparr>\<rparr>"]
        by (auto simp: alloc_frame_def Let_def frame_blocks_def)
    next
      case True
      let ?off = "al - (a AND (al - 1))"
      let ?F = "\<lambda>fr. fr\<lparr>fr_dma := None, fr_en := False, fr_addr := a + ?off, fr_offset := ?off,
            fr_fb := (fr_fb fr)\<lparr>fb_buf := map (h_bytes h1) [a + ?off..<a + sz]\<rparr>\<rparr>"
      from h1(5) show ?thesis
      proof (rule alloc_cases)
        fix h2 assume h2: "heap_alloc h1 = (None, h2)" "h_live h2 = h_live h1"
          "h_bad_free h2 = h_bad_free h1" "Some 0 \<notin> set (h_answers h2)"
        then show ?thesis
          using r h1 True len fr [of h2 ?F]
          by (auto simp: alloc_frame_def allocate_dma_descriptors_def Let_def frame_blocks_def)
      next
        fix c h2 assume h2: "heap_alloc h1 = (Some c, h2)" "h_live h2 = add_mset c (h_live h1)" "c \<noteq> 0"
          "h_bad_free h2 = h_bad_free h1" "Some 0 \<notin> set (h_answers h2)"
        then show ?thesis
          using r h1 True len fr [of h2 "\<lambda>fr. (?F fr)\<lparr>fr_dma := Some (c, dma_nodes (dma_node_cnt cam)
            (dma_node_buffer_size cam)), fr_en := True\<rparr>"]
          by (auto simp: alloc_frame_def allocate_dma_descriptors_def Let_def frame_blocks_def upd_frame_def)
      qed
    qed
  qed
  then show "framed n cam' other heap'" "same_rest cam cam'" "h_bad_free heap' = h_bad_free heap"
    "\<forall>y. y \<noteq> x \<longrightarrow> frames cam' ! y = frames cam ! y" "ok \<longrightarrow> fr_en (frames cam' ! x)" by blast+
qed

lemma alloc_frames_framed:
  assumes "framed n cam other heap" "\<forall>x \<in> set xs. x < n \<and> frames cam ! x = frame_zero" "distinct xs"
    and "alloc_frames al sz xs cam heap = (ok, cam', heap')"
  shows "framed n cam' other heap' \<and> same_rest cam cam' \<and> h_bad_free heap' = h_bad_free heap \<and>
    (\<forall>y. y \<notin> set xs \<longrightarrow> frames cam' ! y = frames cam ! y) \<and> (ok \<longrightarrow> (\<forall>x \<in> set xs. fr_en (frames cam' ! x)))"
  using assms
proof (induction xs arbitrary: cam heap)
  case Nil
  then show ?case by simp
next
  case (Cons x xs)
  obtain b c1 h1 where a: "alloc_frame al sz x cam heap = (b, c1, h1)"
    by (cases "alloc_frame al sz x cam heap") auto
  have x: "x < n" "frames cam ! x = frame_zero" using Cons.prems(2) by simp_all
  note f = alloc_frame_framed [OF Cons.prems(1) x a]
  show ?case
  proof (cases b)
    case False
    then have "ok = False" "cam' = c1" "heap' = h1" using Cons.prems(4) a by simp_all
    then show ?thesis using f by simp
  next
    case True
    have z: "\<forall>y \<in> set xs. y < n \<and> frames c1 ! y = frame_zero"
      using Cons.prems(2,3) f(4) by auto
    have r: "alloc_frames al sz xs c1 h1 = (ok, cam', heap')" using Cons.prems(4) a True by simp
    note IH = Cons.IH [OF f(1) z _ r]
    then show ?thesis
      using Cons.prems(3) f(2-5) True same_rest_trans [OF f(2)] by auto
  qed
qed

text \<open>An object as \<^verbatim>\<open>cam_init\<close> leaves it: nothing allocated yet.\<close>

definition bare :: "cam_obj_t \<Rightarrow> bool" where
  "bare cam \<longleftrightarrow> event_queue cam = None \<and> frame_buffer_queue cam = None \<and> cam_dma cam = None \<and>
     dma_buffer cam = None \<and> frames_block cam = None"

lemma bare_blocks: "bare cam \<Longrightarrow> deinit_blocks cam = []"
  by (simp add: bare_def deinit_blocks_def)

lemma dma_sizes_bare:
  "ll_cam_dma_sizes cam = Some (ok, cam') \<Longrightarrow> bare cam' = bare cam \<and> frame_cnt cam' = frame_cnt cam \<and>
     psram_mode cam' = psram_mode cam"
  by (auto simp: ll_cam_dma_sizes_def ll_cam_calc_rgb_dma_def Let_def bare_def
      split: if_splits option.splits)

lemma same_rest_fields:
  assumes "same_rest cam cam'"
  shows "event_queue cam' = event_queue cam" "frame_buffer_queue cam' = frame_buffer_queue cam"
    "cam_dma cam' = cam_dma cam" "dma_buffer cam' = dma_buffer cam" "frames_block cam' = frames_block cam"
    "frame_cnt cam' = frame_cnt cam" "psram_mode cam' = psram_mode cam"
    "dma_half_buffer_cnt cam' = dma_half_buffer_cnt cam" "dma_buffer_size cam' = dma_buffer_size cam"
    "dma_node_cnt cam' = dma_node_cnt cam" "dma_node_buffer_size cam' = dma_node_buffer_size cam"
  using assms by (auto simp: same_rest_def)

lemma deinit_blocks_framed:
  assumes "event_queue cam = None" "frame_buffer_queue cam = None" "cam_dma cam = None"
    "dma_buffer cam = None" "frames_block cam = Some a" "a \<noteq> 0" "length (frames cam) = frame_cnt cam"
  shows "nz (deinit_blocks cam) = add_mset a (frames_nz (frames cam))"
  using assms by (simp add: deinit_blocks_def frames_nz_def)

lemma blocks_added:
  "dma_buffer cam = None \<Longrightarrow> a \<noteq> 0 \<Longrightarrow>
     nz (deinit_blocks (cam\<lparr>dma_buffer := Some (a, b)\<rparr>)) = add_mset a (nz (deinit_blocks cam))"
  "cam_dma cam = None \<Longrightarrow> a \<noteq> 0 \<Longrightarrow>
     nz (deinit_blocks (cam\<lparr>cam_dma := Some (a, c)\<rparr>)) = add_mset a (nz (deinit_blocks cam))"
  "event_queue cam = None \<Longrightarrow> cq_block eq \<noteq> 0 \<Longrightarrow>
     nz (deinit_blocks (cam\<lparr>event_queue := Some eq\<rparr>)) = add_mset (cq_block eq) (nz (deinit_blocks cam))"
  "frame_buffer_queue cam = None \<Longrightarrow> cq_block fq \<noteq> 0 \<Longrightarrow>
     nz (deinit_blocks (cam\<lparr>frame_buffer_queue := Some fq\<rparr>)) = add_mset (cq_block fq) (nz (deinit_blocks cam))"
  "deinit_blocks (cam\<lparr>task_handle := t\<rparr>) = deinit_blocks cam"
  "deinit_blocks (cam\<lparr>dma_intr_handle := i\<rparr>) = deinit_blocks cam"
  "deinit_blocks (cam\<lparr>cam_intr_handle := i\<rparr>) = deinit_blocks cam"
  by (cases "frames_block cam"; simp add: deinit_blocks_def)+

lemma all_frames_accounts:
  assumes b: "bare cam" and acc: "accounts cam base heap"
    and r: "alloc_all_frames h cam heap = (ok, cam', heap')"
  shows "accounts cam' base heap' \<and> h_bad_free heap' = h_bad_free heap \<and>
    event_queue cam' = None \<and> frame_buffer_queue cam' = None \<and> frame_cnt cam' = frame_cnt cam \<and>
    cam_dma cam' = None \<and> dma_buffer cam' = None \<and>
    dma_half_buffer_cnt cam' = dma_half_buffer_cnt cam \<and>
    (ok \<longrightarrow> frames_block cam' \<noteq> None \<and> length (frames cam') = frame_cnt cam' \<and> list_all fr_en (frames cam'))"
proof -
  have live: "h_live heap = base" "Some 0 \<notin> set (h_answers heap)"
    using acc bare_blocks [OF b] by (simp_all add: accounts_def)
  from live(2) show ?thesis
  proof (rule alloc_cases)
    fix h1 assume h1: "heap_alloc heap = (None, h1)" "h_live h1 = h_live heap"
      "h_bad_free h1 = h_bad_free heap" "Some 0 \<notin> set (h_answers h1)"
    have "bare (cam\<lparr>frames_block := None\<rparr>)" using b by (simp add: bare_def)
    note bb = bare_blocks [OF this]
    have "ok = False" "cam' = cam\<lparr>frames_block := None\<rparr>" "heap' = h1"
      using r h1 by (simp_all add: alloc_all_frames_def)
    then show ?thesis using b bb h1 live by (simp add: accounts_def bare_def)
  next
    fix a h1 assume h1: "heap_alloc heap = (Some a, h1)" "h_live h1 = add_mset a (h_live heap)" "a \<noteq> 0"
      "h_bad_free h1 = h_bad_free heap" "Some 0 \<notin> set (h_answers h1)"
    let ?n = "frame_cnt cam"
    let ?c = "cam\<lparr>frames_block := Some a, frames := replicate ?n frame_zero\<rparr>"
    have "frames_nz (replicate k frame_zero) = {#}" for k
      by (induction k) (auto simp: frames_nz_def frame_blocks_def frame_zero_def)
    then have f: "framed ?n ?c (add_mset a base) h1" using h1 live by (simp add: framed_def)
    obtain al sz where "alloc_frames al sz [0..<?n] ?c h1 = (ok, cam', heap')"
      using r h1 by (auto simp: alloc_all_frames_def Let_def)
    note af = alloc_frames_framed [OF f _ _ this]
    have z: "\<forall>x \<in> set [0..<?n]. x < ?n \<and> frames ?c ! x = frame_zero" by simp
    have res: "framed ?n cam' (add_mset a base) heap'" "same_rest ?c cam'" "h_bad_free heap' = h_bad_free h1"
      "ok \<longrightarrow> (\<forall>x \<in> set [0..<?n]. fr_en (frames cam' ! x))"
      using af [OF z] by auto
    note sr = same_rest_fields [OF res(2)]
    have len: "length (frames cam') = ?n" using res(1) by (simp add: framed_def)
    have "nz (deinit_blocks cam') = add_mset a (frames_nz (frames cam'))"
      by (rule deinit_blocks_framed) (use sr b len h1(3) in \<open>simp_all add: bare_def\<close>)
    then have "accounts cam' base heap'" using res(1) by (simp add: framed_def accounts_def)
    then show ?thesis
      using res sr b len h1(4) by (auto simp: bare_def list_all_length)
  qed
qed

lemma dma_ring_accounts:
  assumes acc: "accounts cam base heap" and r: "alloc_dma_ring cam heap = (ret, cam', heap')"
    and n: "cam_dma cam = None" "dma_buffer cam = None"
  shows "accounts cam' base heap' \<and> h_bad_free heap' = h_bad_free heap \<and>
    event_queue cam' = event_queue cam \<and> frame_buffer_queue cam' = frame_buffer_queue cam \<and>
    frame_cnt cam' = frame_cnt cam \<and> frames_block cam' = frames_block cam \<and> frames cam' = frames cam \<and>
    dma_half_buffer_cnt cam' = dma_half_buffer_cnt cam"
proof (cases "psram_mode cam")
  case True
  then show ?thesis using r acc by (simp add: alloc_dma_ring_def)
next
  case False
  have "Some 0 \<notin> set (h_answers heap)" using acc by (simp add: accounts_def)
  then show ?thesis
  proof (rule alloc_cases)
    fix h1 assume "heap_alloc heap = (None, h1)" "h_live h1 = h_live heap"
      "h_bad_free h1 = h_bad_free heap" "Some 0 \<notin> set (h_answers h1)"
    then show ?thesis using False r acc by (auto simp: alloc_dma_ring_def accounts_def)
  next
    fix a h1 assume h1: "heap_alloc heap = (Some a, h1)" "h_live h1 = add_mset a (h_live heap)" "a \<noteq> 0"
      "h_bad_free h1 = h_bad_free heap" "Some 0 \<notin> set (h_answers h1)"
    from h1(5) show ?thesis
    proof (rule alloc_cases)
      fix h2 assume "heap_alloc h1 = (None, h2)" "h_live h2 = h_live h1"
        "h_bad_free h2 = h_bad_free h1" "Some 0 \<notin> set (h_answers h2)"
      then show ?thesis using False r acc h1 n
        by (auto simp: alloc_dma_ring_def accounts_def allocate_dma_descriptors_def blocks_added Let_def)
    next
      fix c h2 assume "heap_alloc h1 = (Some c, h2)" "h_live h2 = add_mset c (h_live h1)" "c \<noteq> 0"
        "h_bad_free h2 = h_bad_free h1" "Some 0 \<notin> set (h_answers h2)"
      then show ?thesis using False r acc h1 n
        by (auto simp: alloc_dma_ring_def accounts_def allocate_dma_descriptors_def blocks_added Let_def)
    qed
  qed
qed

lemma dma_config_accounts:
  assumes b: "bare cam" and acc: "accounts cam base heap"
    and r: "cam_dma_config h cam heap = Some (ret, cam', heap')"
  shows "accounts cam' base heap' \<and> h_bad_free heap' = h_bad_free heap \<and>
    event_queue cam' = None \<and> frame_buffer_queue cam' = None \<and> frame_cnt cam' = frame_cnt cam \<and>
    (ret = ESP_OK \<longrightarrow> frames_block cam' \<noteq> None \<and> length (frames cam') = frame_cnt cam' \<and> list_all fr_en (frames cam'))"
proof -
  obtain ok c1 where sz: "ll_cam_dma_sizes cam = Some (ok, c1)"
    using r by (cases "ll_cam_dma_sizes cam") (auto simp: cam_dma_config_def)
  have b1: "bare c1" "frame_cnt c1 = frame_cnt cam" using dma_sizes_bare [OF sz] b by simp_all
  have live: "h_live heap = base" "Some 0 \<notin> set (h_answers heap)"
    using acc bare_blocks [OF b] by (simp_all add: accounts_def)
  show ?thesis
  proof (cases ok)
    case False
    then show ?thesis
      using r sz b1 live bare_blocks [OF b1(1)]
      by (auto simp: cam_dma_config_def accounts_def bare_def ESP_OK_def ESP_FAIL_def)
  next
    case True
    define c2 where "c2 = c1\<lparr>dma_node_cnt := dma_buffer_size c1 div dma_node_buffer_size c1,
                        frame_copy_cnt := recv_size c1 div dma_half_buffer_size c1,
                        dma_buffer := None, cam_dma := None\<rparr>"
    have b2: "bare c2" "frame_cnt c2 = frame_cnt cam" using b1 by (simp_all add: c2_def bare_def)
    obtain b3 c3 h3 where af: "alloc_all_frames h c2 heap = (b3, c3, h3)"
      by (cases "alloc_all_frames h c2 heap") auto
    have "accounts c2 base heap" using live bare_blocks [OF b2(1)] by (simp add: accounts_def)
    note f = all_frames_accounts [OF b2(1) this af]
    have res: "Some (ret, cam', heap') = (if b3 then Some (alloc_dma_ring c3 h3) else Some (ESP_FAIL, c3, h3))"
      using r sz True af by (auto simp: cam_dma_config_def c2_def [symmetric] split: if_splits bool.splits)
    show ?thesis
    proof (cases b3)
      case False
      then show ?thesis using f res b2 by (simp add: ESP_OK_def ESP_FAIL_def)
    next
      case True
      then have "alloc_dma_ring c3 h3 = (ret, cam', heap')" using res by simp
      then show ?thesis using dma_ring_accounts [of c3 base h3] f True b2 by auto
    qed
  qed
qed

lemma create_queue_accounts:
  assumes "Some 0 \<notin> set (h_answers heap)" "create_queue sizeof n sz heap = Some (q, heap')"
  shows "Some 0 \<notin> set (h_answers heap')" "h_bad_free heap' = h_bad_free heap"
    "case q of None \<Rightarrow> h_live heap' = h_live heap
     | Some q \<Rightarrow> h_live heap' = add_mset (cq_block q) (h_live heap) \<and> cq_block q \<noteq> 0 \<and> cq_items q = [] \<and>
         cq_cap q = n \<and> 0 < n"
proof -
  have "Some 0 \<notin> set (h_answers heap') \<and> h_bad_free heap' = h_bad_free heap \<and>
    (case q of None \<Rightarrow> h_live heap' = h_live heap
     | Some q \<Rightarrow> h_live heap' = add_mset (cq_block q) (h_live heap) \<and> cq_block q \<noteq> 0 \<and> cq_items q = [] \<and>
         cq_cap q = n \<and> 0 < n)"
    using assms(1)
  proof (rule alloc_cases)
    fix h1 assume "heap_alloc heap = (None, h1)" "h_live h1 = h_live heap"
      "h_bad_free h1 = h_bad_free heap" "Some 0 \<notin> set (h_answers h1)"
    then show ?thesis
      using assms(2) by (auto simp: create_queue_def xQueueGenericCreate_def Let_def split: if_splits)
  next
    fix a h1 assume "heap_alloc heap = (Some a, h1)" "h_live h1 = add_mset a (h_live heap)" "a \<noteq> 0"
        "h_bad_free h1 = h_bad_free heap" "Some 0 \<notin> set (h_answers h1)"
    then show ?thesis
      using assms(2) by (auto simp: create_queue_def xQueueGenericCreate_def Let_def
          prvInitialiseNewQueue_def xQueueGenericReset_def split: if_splits)
  qed
  then show "Some 0 \<notin> set (h_answers heap')" "h_bad_free heap' = h_bad_free heap"
    "case q of None \<Rightarrow> h_live heap' = h_live heap
     | Some q \<Rightarrow> h_live heap' = add_mset (cq_block q) (h_live heap) \<and> cq_block q \<noteq> 0 \<and> cq_items q = [] \<and>
         cq_cap q = n \<and> 0 < n"
    by blast+
qed

text \<open>What a call of \<^verbatim>\<open>cam_config\<close> may leave: a driver whose blocks are all in its object, ready
  for the task, or no driver and the heap as before.\<close>

definition settled :: "nat \<Rightarrow> nat multiset \<Rightarrow> outcome \<Rightarrow> bool" where
  "settled block base r \<longleftrightarrow> (case r of
     Aborted \<Rightarrow> True
   | Done err d \<Rightarrow> \<not> h_bad_free (drv_heap d) \<and>
       (if err = ESP_OK
        then \<exists>cam. drv_obj d = Some (block, cam) \<and> accounts cam (add_mset block base) (drv_heap d) \<and>
               length (frames cam) = frame_cnt cam \<and> list_all fr_en (frames cam) \<and>
               queued cam = [] \<and> 0 < queue_cap cam
        else drv_obj d = None \<and> h_live (drv_heap d) = base))"

lemma fail_settled:
  assumes "accounts cam (add_mset block base) heap" "block \<noteq> 0" "\<not> h_bad_free heap"
  shows "settled block base (fail_config block cam h heap)"
  using deinit_frees [of "\<lparr>drv_obj = Some (block, cam), drv_hw = h, drv_heap = heap\<rparr>" block cam base] assms
  by (simp add: settled_def fail_config_def ESP_OK_def ESP_FAIL_def)

lemma config_queues_settled:
  assumes acc: "accounts cam (add_mset block base) heap" and blk: "block \<noteq> 0" "\<not> h_bad_free heap"
    and none: "event_queue cam = None" "frame_buffer_queue cam = None"
    and fr: "length (frames cam) = frame_cnt cam" "list_all fr_en (frames cam)"
  shows "settled block base (config_queues sizeof da va task config block cam h heap)"
proof -
  have z: "Some 0 \<notin> set (h_answers heap)" using acc by (simp add: accounts_def)
  show ?thesis
  proof (cases "create_queue sizeof (wrap32 (dma_half_buffer_cnt cam + (2 ^ 32 - 1))) 4 heap :: (cam_event_t cam_queue option \<times> heap) option")
    case None
    then show ?thesis by (simp add: config_queues_def settled_def)
  next
    case (Some r)
    obtain eq h1 where r: "r = (eq, h1)" by (cases r)
    note q1 = create_queue_accounts [OF z Some [unfolded r]]
    show ?thesis
    proof (cases eq)
      case None
      have "accounts cam (add_mset block base) h1" using acc q1 None by (simp add: accounts_def)
      then show ?thesis
        using fail_settled [of cam block base h1] blk q1(2) Some r None by (simp add: config_queues_def)
    next
      case eq: (Some e)
      let ?c = "cam\<lparr>event_queue := Some e\<rparr>"
      let ?n = "frame_buffer_queue_len config ?c"
      have a1: "accounts ?c (add_mset block base) h1"
        using acc q1 eq blocks_added(3) [OF none(1), of e] by (simp add: accounts_def)
      show ?thesis
      proof (cases "create_queue sizeof ?n 4 h1 :: (nat cam_queue option \<times> heap) option")
        case None
        then show ?thesis using Some r eq by (simp add: config_queues_def settled_def Let_def)
      next
        case (Some s)
        obtain fq h2 where s: "s = (fq, h2)" by (cases s)
        note q2 = create_queue_accounts [OF q1(1) Some [unfolded s]]
        show ?thesis
        proof (cases fq)
          case None
          have "accounts ?c (add_mset block base) h2" using a1 q2 None by (simp add: accounts_def)
          then show ?thesis
            using fail_settled [of ?c block base h2] blk q1(2) q2(2) Some s r eq None \<open>create_queue _ _ 4 heap = _\<close>
            by (simp add: config_queues_def Let_def)
        next
          case fq: (Some f)
          let ?d = "?c\<lparr>frame_buffer_queue := Some f\<rparr>"
          have a2: "accounts ?d (add_mset block base) h2"
            using a1 q2 fq blocks_added(4) [of ?c f] none by (simp add: accounts_def)
          obtain ret c3 where isr: "ll_cam_init_isr da va ?d = (ret, c3)" by (cases "ll_cam_init_isr da va ?d")
          have c3: "accounts c3 (add_mset block base) h2" "frames c3 = frames cam" "frame_cnt c3 = frame_cnt cam"
            "frame_buffer_queue c3 = Some f"
            using a2 isr by (auto simp: ll_cam_init_isr_def Let_def accounts_def blocks_added split: if_splits)
          have cfg: "config_queues sizeof da va task config block cam h heap =
              (if ret \<noteq> ESP_OK then fail_config block c3 h h2
               else Done ESP_OK \<lparr>drv_obj = Some (block, c3\<lparr>task_handle := Some task\<rparr>), drv_hw = h, drv_heap = h2\<rparr>)"
            using Some s r eq fq isr \<open>create_queue _ _ 4 heap = _\<close> by (simp add: config_queues_def Let_def)
          show ?thesis
            using fail_settled [OF c3(1) blk(1)] c3 fr q1(2) q2 blk(2) fq unfolding cfg
            by (auto simp: settled_def accounts_def blocks_added queued_def queue_cap_def)
        qed
      qed
    qed
  qed
qed

lemma cam_config_settled:
  assumes d: "drv_obj d = Some (block, cam)" "bare cam" "block \<noteq> 0" "\<not> h_bad_free (drv_heap d)"
    and live: "h_live (drv_heap d) = add_mset block base" "Some 0 \<notin> set (h_answers (drv_heap d))"
  shows "settled block base (cam_config sizeof da va task (Some config) fs p d)"
proof -
  let ?c = "sized_cam config fs p cam"
  have b: "bare ?c"
    using d(2) by (auto simp: sized_cam_def ll_cam_set_sample_mode_def Let_def bare_def)
  then have acc: "accounts ?c (add_mset block base) (drv_heap d)"
    using live by (simp add: accounts_def bare_blocks)
  show ?thesis
  proof (cases "cam_dma_config (drv_hw d) ?c (drv_heap d)")
    case None
    then show ?thesis using d(1) by (simp add: cam_config_def settled_def)
  next
    case (Some r)
    obtain ret c h where r: "r = (ret, c, h)" by (cases r)
    note k = dma_config_accounts [OF b acc Some [unfolded r]]
    have h: "\<not> h_bad_free h" using k d(4) by simp
    have cfg: "cam_config sizeof da va task (Some config) fs p d =
        (if ret \<noteq> ESP_OK then fail_config block c (drv_hw d) h
         else config_queues sizeof da va task config block c (drv_hw d) h)"
      using Some r d(1) by (simp add: cam_config_def)
    show ?thesis
      using fail_settled [OF _ d(3) h] config_queues_settled [OF _ d(3) h] k unfolding cfg by simp
  qed
qed

lemma cam_init_result:
  assumes none: "drv_obj d = None" and z: "Some 0 \<notin> set (h_answers (drv_heap d))" "\<not> h_bad_free (drv_heap d)"
    and r: "cam_init (Some config) d = Done ret d'"
  shows "ret \<noteq> ESP_OK \<Longrightarrow> drv_obj d' = None \<and> h_live (drv_heap d') = h_live (drv_heap d) \<and> \<not> h_bad_free (drv_heap d')"
    and "ret = ESP_OK \<Longrightarrow> \<exists>block cam. drv_obj d' = Some (block, cam) \<and> bare cam \<and> block \<noteq> 0 \<and>
      h_live (drv_heap d') = add_mset block (h_live (drv_heap d)) \<and> \<not> h_bad_free (drv_heap d') \<and>
      Some 0 \<notin> set (h_answers (drv_heap d'))"
proof -
  have "(ret \<noteq> ESP_OK \<longrightarrow> drv_obj d' = None \<and> h_live (drv_heap d') = h_live (drv_heap d) \<and> \<not> h_bad_free (drv_heap d')) \<and>
    (ret = ESP_OK \<longrightarrow> (\<exists>block cam. drv_obj d' = Some (block, cam) \<and> bare cam \<and> block \<noteq> 0 \<and>
      h_live (drv_heap d') = add_mset block (h_live (drv_heap d)) \<and> \<not> h_bad_free (drv_heap d') \<and>
      Some 0 \<notin> set (h_answers (drv_heap d'))))"
    using z(1)
  proof (rule alloc_cases)
    fix h1 assume "heap_alloc (drv_heap d) = (None, h1)" "h_live h1 = h_live (drv_heap d)"
      "h_bad_free h1 = h_bad_free (drv_heap d)"
    then show ?thesis using r z(2) by (auto simp: cam_init_def esp_err_defs)
  next
    fix block h1 assume h1: "heap_alloc (drv_heap d) = (Some block, h1)"
      "h_live h1 = add_mset block (h_live (drv_heap d))" "block \<noteq> 0"
      "h_bad_free h1 = h_bad_free (drv_heap d)" "Some 0 \<notin> set (h_answers h1)"
    define cam where "cam = cam_obj_zero\<lparr>vsync_pin := pin_vsync config, vsync_invert := True\<rparr>"
    define d1 where "d1 = \<lparr>drv_obj = Some (block, cam), drv_hw = ll_cam_set_pin cam config (drv_hw d), drv_heap = h1\<rparr>"
    have bare: "bare cam" "bare (cam\<lparr>dma_num := x\<rparr>)" for x
      by (simp_all add: cam_def bare_def cam_obj_zero_def)
    obtain hw where ll: "ll_cam_config config d1 = (let (e, d2) = ll_cam_dma_init (d1\<lparr>drv_hw := hw\<rparr>) in Done e d2)"
      using r h1(1) unfolding cam_init_def
      by (simp add: cam_def [symmetric] d1_def [symmetric] ll_cam_config_def Let_def split: if_splits)
    have acc: "accounts cam (add_mset block (h_live (drv_heap d))) h1"
      using bare h1 by (simp add: accounts_def bare_blocks)
    show ?thesis
    proof (cases "free_channel SOC_GDMA_PAIRS_PER_GROUP hw")
      case None
      let ?d2 = "snd (cam_deinit (d1\<lparr>drv_hw := hw\<rparr>))"
      have "ll_cam_config config d1 = Done ESP_FAIL ?d2" using ll None by (simp add: ll_cam_dma_init_def)
      moreover have "drv_obj ?d2 = None" "h_live (drv_heap ?d2) = h_live (drv_heap d)"
        "h_bad_free (drv_heap ?d2) = h_bad_free h1"
        using deinit_frees [of "d1\<lparr>drv_hw := hw\<rparr>" block cam "h_live (drv_heap d)"] acc h1(3)
        by (simp_all add: d1_def)
      ultimately show ?thesis
        using r h1(1,4) z(2) unfolding cam_init_def
        by (auto simp: cam_def [symmetric] d1_def [symmetric] esp_err_defs free_opt_def)
    next
      case (Some x)
      then obtain hw' where "ll_cam_config config d1 =
          Done ESP_OK \<lparr>drv_obj = Some (block, cam\<lparr>dma_num := x\<rparr>), drv_hw = hw', drv_heap = h1\<rparr>"
        using ll by (simp add: ll_cam_dma_init_def Let_def d1_def)
      then show ?thesis
        using r h1 bare z(2) unfolding cam_init_def
        by (auto simp: cam_def [symmetric] d1_def [symmetric])
    qed
  qed
  then show "ret \<noteq> ESP_OK \<Longrightarrow> drv_obj d' = None \<and> h_live (drv_heap d') = h_live (drv_heap d) \<and> \<not> h_bad_free (drv_heap d')"
    "ret = ESP_OK \<Longrightarrow> \<exists>block cam. drv_obj d' = Some (block, cam) \<and> bare cam \<and> block \<noteq> 0 \<and>
      h_live (drv_heap d') = add_mset block (h_live (drv_heap d)) \<and> \<not> h_bad_free (drv_heap d') \<and>
      Some 0 \<notin> set (h_answers (drv_heap d'))" by blast+
qed

section \<open>Properties\<close>

text \<open>C10: whatever allocation fails during set-up, the driver leaves nothing behind: a failing
  \<^verbatim>\<open>cam_init\<close> or \<^verbatim>\<open>cam_config\<close> returns with no object and the heap's blocks as before, and a
  driver that was set up is freed completely by \<^verbatim>\<open>cam_deinit\<close>; no pointer is freed twice or
  without having been allocated.\<close>

theorem camera_setup_no_leak:
  assumes "drv_obj d = None" and "Some 0 \<notin> set (h_answers (drv_heap d))" and "\<not> h_bad_free (drv_heap d)"
    and "cam_init (Some config) d = Done r1 d1"
  shows "(r1 \<noteq> ESP_OK \<longrightarrow> drv_obj d1 = None \<and> h_live (drv_heap d1) = h_live (drv_heap d) \<and>
      \<not> h_bad_free (drv_heap d1)) \<and>
    (r1 = ESP_OK \<longrightarrow> (\<forall>r2 d2. cam_config sizeof dma_alloc vsync_alloc task (Some config) fs p d1 = Done r2 d2 \<longrightarrow>
      (r2 \<noteq> ESP_OK \<longrightarrow> drv_obj d2 = None \<and> h_live (drv_heap d2) = h_live (drv_heap d) \<and>
         \<not> h_bad_free (drv_heap d2)) \<and>
      (r2 = ESP_OK \<longrightarrow> fst (cam_deinit d2) = ESP_OK \<and>
         h_live (drv_heap (snd (cam_deinit d2))) = h_live (drv_heap d) \<and>
         \<not> h_bad_free (drv_heap (snd (cam_deinit d2))))))"
proof (intro conjI impI allI)
  note i = cam_init_result [OF assms(1-4)]
  assume "r1 \<noteq> ESP_OK"
  then show "drv_obj d1 = None" "h_live (drv_heap d1) = h_live (drv_heap d)" "\<not> h_bad_free (drv_heap d1)"
    using i(1) by simp_all
next
  note i = cam_init_result [OF assms(1-4)]
  fix r2 d2
  assume "r1 = ESP_OK" and c: "cam_config sizeof dma_alloc vsync_alloc task (Some config) fs p d1 = Done r2 d2"
  then obtain block cam where b: "drv_obj d1 = Some (block, cam)" "bare cam" "block \<noteq> 0"
    "h_live (drv_heap d1) = add_mset block (h_live (drv_heap d))" "\<not> h_bad_free (drv_heap d1)"
    "Some 0 \<notin> set (h_answers (drv_heap d1))" using i(2) by blast
  then have s: "settled block (h_live (drv_heap d)) (Done r2 d2)"
    using cam_config_settled [of d1 block cam, OF b(1-3,5,4,6)] c by metis
  {
    assume "r2 \<noteq> ESP_OK"
    then show "drv_obj d2 = None" "h_live (drv_heap d2) = h_live (drv_heap d)" "\<not> h_bad_free (drv_heap d2)"
      using s by (simp_all add: settled_def)
  next
    assume "r2 = ESP_OK"
    then obtain cam2 where "drv_obj d2 = Some (block, cam2)" "\<not> h_bad_free (drv_heap d2)"
      "accounts cam2 (add_mset block (h_live (drv_heap d))) (drv_heap d2)"
      using s by (auto simp: settled_def)
    then show "fst (cam_deinit d2) = ESP_OK" "h_live (drv_heap (snd (cam_deinit d2))) = h_live (drv_heap d)"
      "\<not> h_bad_free (drv_heap (snd (cam_deinit d2)))"
      using deinit_frees [of d2 block cam2] b(3) by simp_all
  }
qed

definition demo_config :: camera_config_t where
  "demo_config = \<lparr>pin_pwdn = -1, pin_reset = -1, pin_xclk = 15, pin_sscb_sda = 4, pin_sscb_scl = 5,
     pin_data = [11, 9, 8, 10, 12, 18, 17, 16], pin_vsync = 6, pin_href = 7, pin_pclk = 13,
     xclk_freq_hz = 20000000, pixel_format = PIXFORMAT_RGB565, frame_size = FRAMESIZE_240X240,
     jpeg_quality = 12, fb_count = 2, fb_location = CAMERA_FB_IN_PSRAM,
     grab_mode = CAMERA_GRAB_WHEN_EMPTY\<rparr>"

definition demo_driver :: "nat option list \<Rightarrow> cam_driver" where
  "demo_driver as = \<lparr>drv_obj = None, drv_hw = demo_hw,
     drv_heap = \<lparr>h_answers = as, h_live = {#}, h_bad_free = False, h_bytes = (\<lambda>_. 0)\<rparr>\<rparr>"

lemma demo_init_returns: "\<exists>r d. cam_init (Some demo_config) (demo_driver as) = Done r d"
  by (cases "heap_alloc (drv_heap (demo_driver as))")
    (auto simp: cam_init_def ll_cam_config_def Let_def demo_config_def split: option.split prod.split)

theorem camera_setup_no_leak_witness:
  "\<exists>r1 d1. cam_init (Some demo_config) (demo_driver [Some 4, Some 8, None]) = Done r1 d1 \<and>
    (r1 \<noteq> ESP_OK \<longrightarrow> h_live (drv_heap d1) = {#}) \<and>
    (r1 = ESP_OK \<longrightarrow> (\<forall>r2 d2. cam_config 80 (ESP_OK, 1) (ESP_OK, 2) 3 (Some demo_config)
       FRAMESIZE_240X240 OV2640_PID d1 = Done r2 d2 \<longrightarrow> r2 \<noteq> ESP_OK \<longrightarrow> h_live (drv_heap d2) = {#}))"
proof -
  let ?d = "demo_driver [Some 4, Some 8, None]"
  obtain r1 d1 where i: "cam_init (Some demo_config) ?d = Done r1 d1" using demo_init_returns by blast
  have d: "drv_obj ?d = None" "Some 0 \<notin> set (h_answers (drv_heap ?d))" "\<not> h_bad_free (drv_heap ?d)"
    "h_live (drv_heap ?d) = {#}" by (simp_all add: demo_driver_def)
  show ?thesis
    using camera_setup_no_leak [OF d(1-3) i, of 80 "(ESP_OK, 1)" "(ESP_OK, 2)" 3 FRAMESIZE_240X240 OV2640_PID] i d(4)
    by auto
qed

text \<open>The descriptors of a buffer form a ring: each describes the next piece of the buffer,
  none reaches beyond \<open>n\<close> pieces, and each leads to its successor, the last one to the first.\<close>

theorem dma_descriptors_ring:
  assumes "allocate_dma_descriptors n sz heap = (Some (a, nodes), heap')" and "x < n"
  shows "length nodes = n \<and> ld_buf (nodes ! x) = x * sz \<and> ld_size (nodes ! x) = sz \<and>
    ld_buf (nodes ! x) + ld_size (nodes ! x) \<le> n * sz \<and>
    ld_empty (nodes ! x) = (if x = n - 1 then 0 else x + 1) \<and>
    ld_owner (nodes ! x) \<and> \<not> ld_eof (nodes ! x)"
proof -
  have n: "nodes = dma_nodes n sz"
    using assms(1) by (auto simp: allocate_dma_descriptors_def split: prod.splits option.splits)
  have "x * sz + sz \<le> n * sz" using assms(2) by (metis Suc_leI add.commute mult_Suc mult_le_mono1)
  then show ?thesis
    using assms(2) by (auto simp: n dma_nodes_def ac_simps)
qed

theorem dma_descriptors_ring_witness:
  "\<exists>nodes heap'. allocate_dma_descriptors 3 1024 (drv_heap (demo_driver [Some 4])) = (Some (4, nodes), heap') \<and>
     ld_buf (nodes ! 2) = 2048 \<and> ld_empty (nodes ! 2) = 0"
proof -
  obtain nodes heap' where
    r: "allocate_dma_descriptors 3 1024 (drv_heap (demo_driver [Some 4])) = (Some (4, nodes), heap')"
    by (simp add: allocate_dma_descriptors_def heap_alloc_def demo_driver_def)
  show ?thesis using dma_descriptors_ring [OF r, of 2] r by auto
qed

text \<open>In PSRAM mode a frame buffer that was allocated starts at a multiple of the alignment
  and has at least the requested number of bytes, and the address \<^verbatim>\<open>cam_deinit\<close> frees is the one
  the heap gave.\<close>

theorem frame_buffer_aligned:
  assumes "psram_mode cam" and "x < length (frames cam)" and "al = 2 ^ k"
    and "heap_alloc heap = (Some a, heap1)"
    and "alloc_frame al (sz + al) x cam heap = (True, cam', heap')"
  shows "al dvd fr_addr (frames cam' ! x) \<and> sz \<le> length (fb_buf (fr_fb (frames cam' ! x))) \<and>
    fr_addr (frames cam' ! x) - fr_offset (frames cam' ! x) = a"
proof -
  have "a AND (al - 1) = take_bit k a" by (simp only: assms(3) take_bit_eq_mask mask_eq_exp_minus_1)
  then have m: "a AND (al - 1) = a mod al" by (simp only: assms(3) take_bit_eq_mod)
  let ?off = "al - a mod al"
  have al: "0 < al" using assms(3) by simp
  then have off: "?off \<le> al" "a mod al < al" by simp_all
  have "al * (a div al) + a mod al = a" by simp
  then have "a + ?off = al * (a div al) + al" using off by linarith
  then have d: "al dvd a + ?off" by simp
  have "fr_addr (frames cam' ! x) = a + ?off \<and> fr_offset (frames cam' ! x) = ?off \<and>
      length (fb_buf (fr_fb (frames cam' ! x))) = sz + al - ?off"
    using assms(1,2,4,5) unfolding alloc_frame_def
    by (auto simp: Let_def m [simplified] split: prod.splits option.splits)
  then show ?thesis using d off by simp
qed

definition demo_one_frame :: cam_obj_t where
  "demo_one_frame = cam_obj_zero\<lparr>psram_mode := True, frames := [frame_zero], frame_cnt := 1\<rparr>"

theorem frame_buffer_aligned_witness:
  "\<exists>cam' heap'. alloc_frame 16 (100 + 16) 0 demo_one_frame (drv_heap (demo_driver [Some 1000, Some 2000])) =
      (True, cam', heap') \<and> 16 dvd fr_addr (frames cam' ! 0)"
proof -
  let ?h = "drv_heap (demo_driver [Some 1000, Some 2000])"
  obtain h1 where h1: "heap_alloc ?h = (Some 1000, h1)" by (simp add: heap_alloc_def demo_driver_def)
  obtain cam' heap' where r: "alloc_frame 16 (100 + 16) 0 demo_one_frame ?h = (True, cam', heap')"
    by (auto simp: alloc_frame_def allocate_dma_descriptors_def heap_alloc_def demo_driver_def
        demo_one_frame_def Let_def)
  have "psram_mode demo_one_frame" "0 < length (frames demo_one_frame)"
    by (simp_all add: demo_one_frame_def)
  then show ?thesis
    using frame_buffer_aligned [of demo_one_frame 0 16 4 ?h 1000 h1 100 cam' heap'] h1 r by auto
qed

lemma sized_cam_fields:
  "cam_width (sized_cam config fs p cam) = res_width (resolution fs)"
  "cam_height (sized_cam config fs p cam) = res_height (resolution fs)"
  "psram_mode (sized_cam config fs p cam)" "frame_cnt (sized_cam config fs p cam) = fb_count config"
  "jpeg_mode (sized_cam config fs p cam) = (pixel_format config = PIXFORMAT_JPEG)"
  "in_bytes_per_pixel (sized_cam config fs OV2640_PID cam) = 1"
  "in_bytes_per_pixel (sized_cam config fs p cam) \<in> {1, 2}"
  "recv_size (sized_cam config fs p cam) =
     (if pixel_format config = PIXFORMAT_JPEG then res_width (resolution fs) * res_height (resolution fs) div 5
      else res_width (resolution fs) * res_height (resolution fs) * in_bytes_per_pixel (sized_cam config fs p cam))"
  by (auto simp: sized_cam_def Let_def ll_cam_set_sample_mode_def PIXFORMAT_RAW_value_def)

lemma dma_config_cnt:
  assumes "cam_dma_config h cam heap = Some (ret, cam', heap')" "ll_cam_dma_sizes cam = Some (True, c1)"
    and "bare cam" "accounts cam base heap" "ret = ESP_OK"
  shows "dma_half_buffer_cnt cam' = dma_half_buffer_cnt c1"
proof -
  define c2 where "c2 = c1\<lparr>dma_node_cnt := dma_buffer_size c1 div dma_node_buffer_size c1,
                      frame_copy_cnt := recv_size c1 div dma_half_buffer_size c1,
                      dma_buffer := None, cam_dma := None\<rparr>"
  obtain b3 c3 h3 where af: "alloc_all_frames h c2 heap = (b3, c3, h3)"
    by (cases "alloc_all_frames h c2 heap") auto
  have b2: "bare c2" using dma_sizes_bare [OF assms(2)] assms(3) by (simp add: c2_def bare_def)
  have "accounts c2 base heap" using assms(3,4) b2 by (simp add: accounts_def bare_blocks)
  note f = all_frames_accounts [OF b2 this af]
  have "Some (ret, cam', heap') = (if b3 then Some (alloc_dma_ring c3 h3) else Some (ESP_FAIL, c3, h3))"
    using assms(1,2) af by (auto simp: cam_dma_config_def c2_def [symmetric] split: if_splits bool.splits)
  then have "alloc_dma_ring c3 h3 = (ret, cam', heap')" using assms(5) by (auto simp: esp_err_defs split: if_splits)
  then show ?thesis using dma_ring_accounts [of c3 base h3] f by (simp add: c2_def)
qed

lemma lines_for_node_eq:
  "0 < lw \<Longrightarrow> lw \<le> n \<Longrightarrow> lines_for_node lw n = Some (n div lw * lw)"
proof (induction n)
  case 0
  then show ?case by simp
next
  case (Suc n)
  show ?case
  proof (cases "Suc n mod lw = 0")
    case True
    then show ?thesis by (auto simp: mod_eq_0_iff_dvd)
  next
    case False
    then have "lw \<le> n" using Suc.prems by (cases "lw = Suc n") auto
    moreover have "Suc n div lw = n div lw" using False by (metis div_Suc)
    ultimately show ?thesis using Suc False by simp
  qed
qed

lemma fit_lines_numeral:
  "fit_lines h lw (numeral k) node = (if h mod numeral k \<noteq> 0
     then fit_lines h lw (pred_numeral k) (pred_numeral k * lw) else Some (numeral k, node))"
  by (simp add: numeral_eq_Suc)

lemma sizes_96x96:
  assumes "cam_width cam = 96" "cam_height cam = 96" "in_bytes_per_pixel cam = 1" "psram_mode cam"
    and "recv_size cam = (if jpeg_mode cam then 96 * 96 div 5 else 96 * 96)"
  shows "\<exists>cam'. ll_cam_dma_sizes cam = Some (True, cam') \<and> dma_half_buffer_cnt cam' = 1"
proof (cases "jpeg_mode cam")
  case True
  then show ?thesis using assms by (simp add: ll_cam_dma_sizes_def)
next
  case False
  have n: "node_sizes 96 96 4092 = Some (3072, 1, 32)"
    by (simp add: node_sizes_def lines_for_node_eq fit_lines_numeral)
  have f: "fit_half 96 96 3072 15360 = Some (9216, 96)" by (simp add: fit_half.simps)
  show ?thesis
    using False assms n f
    by (simp add: ll_cam_dma_sizes_def ll_cam_calc_rgb_dma_def LCD_CAM_DMA_NODE_BUFFER_MAX_SIZE_def
        CONFIG_CAMERA_DMA_BUFFER_SIZE_MAX_def Let_def)
qed

lemma bare_accounts:
  "bare cam \<Longrightarrow> Some 0 \<notin> set (h_answers heap) \<Longrightarrow> accounts cam (h_live heap) heap"
  by (simp add: accounts_def bare_blocks)

lemma sized_bare: "bare cam \<Longrightarrow> bare (sized_cam config fs p cam)"
  by (auto simp: sized_cam_def ll_cam_set_sample_mode_def Let_def bare_def)

text \<open>With an OV2640 sensor and 96 x 96 frames the camera never starts: the whole frame fits
  one half buffer, so the event queue is created with length 0 and the kernel's assertion
  stops the program, unless memory runs out before.\<close>

theorem cam_config_96x96_never_starts:
  assumes "drv_obj d = Some (block, cam)" and "bare cam" and "Some 0 \<notin> set (h_answers (drv_heap d))"
  shows "cam_config sizeof dma_alloc vsync_alloc task (Some config) FRAMESIZE_96X96 OV2640_PID d = Aborted \<or>
    (\<exists>d'. cam_config sizeof dma_alloc vsync_alloc task (Some config) FRAMESIZE_96X96 OV2640_PID d =
       Done ESP_FAIL d')"
proof -
  let ?c = "sized_cam config FRAMESIZE_96X96 OV2640_PID cam"
  have res: "res_width (resolution FRAMESIZE_96X96) = 96" "res_height (resolution FRAMESIZE_96X96) = 96"
    by (simp_all add: resolution_def resolution_table_def res_info_def)
  have "recv_size ?c = (if jpeg_mode ?c then 96 * 96 div 5 else 96 * 96)"
    by (simp only: sized_cam_fields(5,8)) (simp add: sized_cam_fields(6) res)
  then obtain c1 where c1: "ll_cam_dma_sizes ?c = Some (True, c1)" "dma_half_buffer_cnt c1 = 1"
    using sizes_96x96 [of ?c] sized_cam_fields(1,2,3,6) res by metis
  show ?thesis
  proof (cases "cam_dma_config (drv_hw d) ?c (drv_heap d)")
    case None
    then show ?thesis using assms(1) by (simp add: cam_config_def)
  next
    case (Some r)
    obtain ret c h where r: "r = (ret, c, h)" by (cases r)
    show ?thesis
    proof (cases "ret = ESP_OK")
      case True
      have "dma_half_buffer_cnt c = 1"
        using dma_config_cnt [OF Some [unfolded r] c1(1) sized_bare [OF assms(2)]
            bare_accounts [OF sized_bare [OF assms(2)] assms(3)] True] c1(2) by simp
      then have "config_queues sizeof dma_alloc vsync_alloc task config block c (drv_hw d) h = Aborted"
        by (simp add: config_queues_def create_queue_def wrap32_def xQueueGenericCreate_def split: prod.split)
      then show ?thesis using Some r True assms(1) by (simp add: cam_config_def)
    next
      case False
      then show ?thesis using Some r assms(1) by (simp add: cam_config_def fail_config_def)
    qed
  qed
qed

lemma create_queue_returns:
  assumes "0 < n" "n \<le> 10 ^ 7" "0 < sizeof" "sizeof \<le> 1000"
  shows "create_queue sizeof n 4 heap \<noteq> None"
proof -
  have b: "n * 4 < 2 ^ 32" "sizeof + n * 4 < 2 ^ 32" using assms by simp_all
  have w: "wrap32 (n * 4) = n * 4" "wrap32 (sizeof + n * 4) = sizeof + n * 4"
    using b by (simp_all only: wrap32_id)
  obtain a h where a: "heap_alloc heap = (a, h)" by (cases "heap_alloc heap")
  show ?thesis
    using assms a by (cases a) (simp_all add: create_queue_def xQueueGenericCreate_def w [simplified] Let_def)
qed

lemma config_queues_return:
  assumes "wrap32 (dma_half_buffer_cnt c + (2 ^ 32 - 1)) = m" "0 < m" "m \<le> 10 ^ 7"
    and "0 < frame_buffer_queue_len config c" "frame_buffer_queue_len config c \<le> 10 ^ 7"
    and "0 < sizeof" "sizeof \<le> 1000"
  shows "config_queues sizeof da va task config block c hw heap \<noteq> Aborted"
proof -
  have len: "frame_buffer_queue_len config (c\<lparr>event_queue := e\<rparr>) = frame_buffer_queue_len config c" for e
    by (simp add: frame_buffer_queue_len_def)
  obtain eq h1 where e: "create_queue sizeof m 4 heap = Some (eq :: cam_event_t cam_queue option, h1)"
    using create_queue_returns [OF assms(2,3,6,7)] by fastforce
  obtain fq h2 where f: "create_queue sizeof (frame_buffer_queue_len config c) 4 h1 =
      Some (fq :: nat cam_queue option, h2)"
    using create_queue_returns [OF assms(4-7)] by fastforce
  show ?thesis
    unfolding config_queues_def assms(1) e
    by (cases eq; cases fq) (simp_all add: len f fail_config_def split: prod.split)
qed

lemma frame_pixels:
  "fs \<noteq> FRAMESIZE_96X96 \<Longrightarrow> 16384 < res_width (resolution fs) * res_height (resolution fs)"
  by (cases fs) (simp_all add: resolution_def resolution_table_def res_info_def)

text \<open>What a raw frame of more than 96x96 pixels comes to.\<close>

lemma raw_frame_sizes:
  fixes p cam
  assumes "fs \<noteq> FRAMESIZE_96X96" "pixel_format config \<noteq> PIXFORMAT_JPEG"
  defines "c \<equiv> sized_cam config fs p cam"
  shows "0 < cam_width c" "0 < cam_height c" "0 < in_bytes_per_pixel c" "\<not> jpeg_mode c"
    "recv_size c = cam_width c * cam_height c * in_bytes_per_pixel c"
    "16384 < recv_size c" "recv_size c < 10 ^ 7"
proof -
  let ?w = "res_width (resolution fs)" and ?h = "res_height (resolution fs)" and ?b = "in_bytes_per_pixel c"
  show sz: "0 < cam_width c" "0 < cam_height c" "0 < ?b" "\<not> jpeg_mode c"
    "recv_size c = cam_width c * cam_height c * ?b"
    using sized_cam_fields(7) [of config fs p cam] resolution_bounds [of fs] assms(2)
    by (auto simp: sized_cam_fields c_def)
  have b: "?b \<le> 2" using sized_cam_fields(7) [of config fs p cam] by (auto simp: c_def)
  have "?w * ?h \<le> 2560 * 1920" using resolution_bounds [of fs] by (intro mult_le_mono) auto
  then have "?w * ?h * ?b \<le> 2560 * 1920 * 2" using b by (rule mult_le_mono)
  moreover have "?w * ?h \<le> ?w * ?h * ?b" using mult_le_mono2 [of 1 ?b "?w * ?h"] sz(3) by linarith
  moreover have "recv_size c = ?w * ?h * ?b" using assms(2) by (simp add: sized_cam_fields c_def)
  ultimately have "16384 < recv_size c" "recv_size c \<le> 2560 * 1920 * 2"
    using frame_pixels [OF assms(1)] by linarith+
  then show "16384 < recv_size c" "recv_size c < 10 ^ 7" by simp_all
qed

text \<open>Such a frame needs at least two half buffers.\<close>

lemma layout_counts:
  assumes "dma_layout c" "psram_mode c" "16384 < recv_size c" "recv_size c < 10 ^ 7"
  shows "0 < dma_node_buffer_size c" "0 < dma_half_buffer_size c"
    and "\<exists>m. dma_half_buffer_cnt c = Suc m \<and> 0 < m \<and> m \<le> 10 ^ 7"
proof -
  have lay: "0 < dma_node_buffer_size c" "dma_half_buffer_size c \<le> 16384" "0 < dma_half_buffer_cnt c"
    "dma_half_buffer_cnt c * dma_half_buffer_size c = recv_size c"
    using assms(1,2) by (simp_all add: dma_layout_def Let_def CONFIG_CAMERA_DMA_BUFFER_SIZE_MAX_def)
  show "0 < dma_node_buffer_size c" by (fact lay(1))
  show half: "0 < dma_half_buffer_size c" using lay assms(3) by (cases "dma_half_buffer_size c") auto
  have "1 < dma_half_buffer_cnt c" using lay assms(3) by (cases "dma_half_buffer_cnt c = 1") auto
  moreover have "dma_half_buffer_cnt c * 1 \<le> recv_size c"
    using half lay(4) by (metis Suc_leI mult_le_mono2 One_nat_def)
  ultimately show "\<exists>m. dma_half_buffer_cnt c = Suc m \<and> 0 < m \<and> m \<le> 10 ^ 7"
    using assms(4) by (cases "dma_half_buffer_cnt c") auto
qed

lemma dma_config_returns:
  assumes "ll_cam_dma_sizes c = Some (True, c1)" "0 < dma_node_buffer_size c1" "0 < dma_half_buffer_size c1"
  shows "\<exists>ret c' h'. cam_dma_config hw c h = Some (ret, c', h')"
proof -
  have "cam_dma_config hw c h \<noteq> None"
    using assms by (simp add: cam_dma_config_def Let_def split: bool.split prod.split) (metis prod_cases3)
  then show ?thesis by (metis not_None_eq prod_cases3)
qed

text \<open>The queue of frames cannot be created for no frames.\<close>

lemma no_frames_no_start:
  assumes "drv_obj d = Some (block, cam)" and "bare cam" and "Some 0 \<notin> set (h_answers (drv_heap d))" and "fb_count config = 0"
  shows "cam_config sizeof dma_alloc vsync_alloc task (Some config) fs p d \<noteq> Done ESP_OK d'"
proof -
  let ?c = "sized_cam config fs p cam"
  have bare: "bare ?c" by (rule sized_bare [OF assms(2)])
  show ?thesis
  proof (cases "cam_dma_config (drv_hw d) ?c (drv_heap d)")
    case (Some r)
    obtain ret c h where r: "r = (ret, c, h)" by (cases r)
    have "frame_cnt c = 0"
      using dma_config_accounts [OF bare bare_accounts [OF bare assms(3)] Some [unfolded r]] assms(4)
      by (simp add: sized_cam_fields)
    then have "frame_buffer_queue_len config (c\<lparr>event_queue := e\<rparr>) = 0" for e
      by (simp add: frame_buffer_queue_len_def)
    then have "config_queues sizeof dma_alloc vsync_alloc task config block c (drv_hw d) h \<noteq> Done ESP_OK d'"
      by (auto simp: config_queues_def create_queue_def xQueueGenericCreate_def fail_config_def esp_err_defs
          split: prod.split option.split create_result.split)
    then show ?thesis using Some r assms(1) by (auto simp: cam_config_def fail_config_def esp_err_defs)
  qed (use assms(1) in \<open>simp add: cam_config_def\<close>)
qed

lemma config_returns:
  assumes "drv_obj d = Some (block, cam)" and "bare cam" and "Some 0 \<notin> set (h_answers (drv_heap d))"
    and "fs \<noteq> FRAMESIZE_96X96" and "pixel_format config \<noteq> PIXFORMAT_JPEG"
    and "0 < fb_count config" and "fb_count config \<le> 1000" and "0 < sizeof" and "sizeof \<le> 1000"
  shows "cam_config sizeof dma_alloc vsync_alloc task (Some config) fs p d \<noteq> Aborted"
proof -
  let ?c = "sized_cam config fs p cam"
  note sz = raw_frame_sizes [OF assms(4,5), of p cam]
  note bare = sized_bare [OF assms(2), of config fs p]
  note acc = bare_accounts [OF bare assms(3)]
  from sz(1-5) show ?thesis
  proof (rule dma_sizes_layout)
    fix c1 assume "ll_cam_dma_sizes ?c = Some (False, c1)"
    then show ?thesis
      using assms(1) by (simp add: cam_config_def cam_dma_config_def fail_config_def esp_err_defs)
  next
    fix c1
    assume c1: "ll_cam_dma_sizes ?c = Some (True, c1)" "dma_layout c1"
      and upd: "\<exists>node half cnt buf. c1 = ?c\<lparr>dma_bytes_per_item := 1, dma_node_buffer_size := node,
         dma_buffer_size := buf, dma_half_buffer_size := half, dma_half_buffer_cnt := cnt\<rparr>"
    have same: "psram_mode c1" "recv_size c1 = recv_size ?c" using upd by (auto simp: sized_cam_fields)
    note lay = layout_counts [OF c1(2) same(1)] sz(6,7) [folded same(2)]
    obtain ret c h where dc: "cam_dma_config (drv_hw d) ?c (drv_heap d) = Some (ret, c, h)"
      using dma_config_returns [OF c1(1)] lay by blast
    show ?thesis
    proof (cases "ret = ESP_OK")
      case False
      then show ?thesis using dc assms(1) by (simp add: cam_config_def fail_config_def)
    next
      case True
      have c: "dma_half_buffer_cnt c = dma_half_buffer_cnt c1" "frame_cnt c = fb_count config"
        using dma_config_cnt [OF dc c1(1) bare acc True] dma_config_accounts [OF bare acc dc]
        by (simp_all add: sized_cam_fields)
      obtain m where m: "dma_half_buffer_cnt c1 = Suc m" "0 < m" "m \<le> 10 ^ 7" using lay by blast
      have "wrap32 (dma_half_buffer_cnt c + (2 ^ 32 - 1)) = m"
        using m c(1) by (simp add: wrap32_def)
      moreover have "0 < frame_buffer_queue_len config c" "frame_buffer_queue_len config c \<le> 10 ^ 7"
        using assms(6,7) c(2) by (auto simp: frame_buffer_queue_len_def)
      ultimately have "config_queues sizeof dma_alloc vsync_alloc task config block c (drv_hw d) h \<noteq> Aborted"
        using config_queues_return m(2,3) assms(8,9) by blast
      then show ?thesis using dc True assms(1) by (simp add: cam_config_def)
    qed
  qed
qed

text \<open>C40: on the driver object \<^verbatim>\<open>cam_init\<close> leaves, for every other frame size and a raw pixel format, with between 1 and
  1000 frame buffers and a queue object of at most 1000 bytes (so that no size of a queue overflows), and with a heap
  that does not give out address 0, \<^verbatim>\<open>cam_config\<close> returns, with success or an error,
  whatever the heap answers: no division by zero, no failed assertion. Without a frame buffer it never succeeds:
  unless it fails before, creating the queue of frames stops the program.\<close>

theorem cam_config_returns:
  assumes "drv_obj d = Some (block, cam)" and "bare cam" and "Some 0 \<notin> set (h_answers (drv_heap d))"
    and "fs \<noteq> FRAMESIZE_96X96" and "pixel_format config \<noteq> PIXFORMAT_JPEG"
    and "fb_count config \<le> 1000" and "0 < sizeof" and "sizeof \<le> 1000"
  shows "(0 < fb_count config \<longrightarrow> cam_config sizeof dma_alloc vsync_alloc task (Some config) fs p d \<noteq> Aborted) \<and>
    (fb_count config = 0 \<longrightarrow> (\<forall>d'. cam_config sizeof dma_alloc vsync_alloc task (Some config) fs p d \<noteq> Done ESP_OK d'))"
  using config_returns [OF assms(1-5) _ assms(6-8)] no_frames_no_start [OF assms(1-3)] by simp

text \<open>A driver with its object, and no memory left.\<close>

definition demo_inited :: cam_driver where
  "demo_inited = (demo_driver [])\<lparr>drv_obj := Some (4, cam_obj_zero)\<rparr>"

lemma demo_inited_ok: "drv_obj demo_inited = Some (4, cam_obj_zero)" "bare cam_obj_zero"
  "Some 0 \<notin> set (h_answers (drv_heap demo_inited))"
  by (simp_all add: demo_inited_def demo_driver_def bare_def cam_obj_zero_def)

theorem cam_config_96x96_never_starts_witness:
  "\<not> (\<exists>d'. cam_config 80 (ESP_OK, 1) (ESP_OK, 2) 3 (Some demo_config) FRAMESIZE_96X96 OV2640_PID demo_inited =
     Done ESP_OK d')"
  using cam_config_96x96_never_starts [OF demo_inited_ok, of 80 "(ESP_OK, 1)" "(ESP_OK, 2)" 3 demo_config]
  by (auto simp: esp_err_defs)

theorem cam_config_returns_witness:
  "cam_config 80 (ESP_OK, 1) (ESP_OK, 2) 3 (Some demo_config) FRAMESIZE_240X240 OV2640_PID demo_inited \<noteq> Aborted \<and>
   (\<forall>d'. cam_config 80 (ESP_OK, 1) (ESP_OK, 2) 3 (Some (demo_config\<lparr>fb_count := 0\<rparr>)) FRAMESIZE_240X240 OV2640_PID demo_inited \<noteq>
     Done ESP_OK d')"
  using cam_config_returns [OF demo_inited_ok, of FRAMESIZE_240X240 demo_config 80]
    cam_config_returns [OF demo_inited_ok, of FRAMESIZE_240X240 "demo_config\<lparr>fb_count := 0\<rparr>" 80]
  by (simp add: demo_config_def)

end
