(* ===== verification/QR_Posing.thy ===== *)
theory QR_Posing
  imports Prelude
begin

text \<open>
  The QR posing task, \<^verbatim>\<open>Client/QrPosing/app/QR_Posing.c\<close> and its successor
  \<^verbatim>\<open>components/modules/QR_Posing/QR_Posing.c\<close>: a 240 x 240 RGB565 frame is reduced to black
  and white, scanned once from left to right and once from right to left for the top and
  side edges of light frames, and the positions of at most five frames are reported.

  The image array \<^verbatim>\<open>PureBOrW\<close> is modelled as the memory around it: a function from the
  element index to the 16-bit word stored there. Indices 0 to 57599 are the array; the code
  also reads outside it (see \<open>qr_scan_reads_outside\<close>), and what it finds there is
  whatever that memory holds. The C variables \<^verbatim>\<open>x\<close>, \<^verbatim>\<open>y\<close>, \<^verbatim>\<open>i\<close>, \<^verbatim>\<open>j\<close>, \<^verbatim>\<open>dx\<close> and \<^verbatim>\<open>dy\<close> stay
  below a few hundred, so they are unbounded integers here.
\<close>

section \<open>Data\<close>

type_synonym image = "int \<Rightarrow> u16"

record qr_code =
  qr_o :: bool
  qr_f :: bool
  qr_x0 :: int
  qr_y0 :: int
  qr_x1 :: int
  qr_y1 :: int
  qr_x2 :: int
  qr_y2 :: int
  qr_x3 :: int
  qr_y3 :: int
  qr_dx :: int

text \<open>The module's static settings, set by \<^verbatim>\<open>register_lcd\<close>.\<close>

record qr_settings =
  sTopMargin :: int
  sStepback :: int
  sMinL :: int

definition default_settings :: qr_settings where
  "default_settings = \<lparr>sTopMargin = 3, sStepback = 5, sMinL = 20\<rparr>"

text \<open>The settings \<^verbatim>\<open>app_main\<close> passes to \<^verbatim>\<open>register_lcd\<close>.\<close>

definition main_settings :: qr_settings where
  "main_settings = \<lparr>sTopMargin = 5, sStepback = 5, sMinL = 20\<rparr>"

text \<open>The scanner's working state: the number of codes noted and the table \<^verbatim>\<open>l1[5]\<close>.\<close>

type_synonym qr_state = "nat \<times> qr_code list"

definition empty_code :: qr_code where
  "empty_code = \<lparr>qr_o = False, qr_f = False, qr_x0 = 0, qr_y0 = 0, qr_x1 = 0, qr_y1 = 0,
     qr_x2 = 0, qr_y2 = 0, qr_x3 = 0, qr_y3 = 0, qr_dx = 0\<rparr>"

text \<open>The table is on the task's stack; at the start of each frame only the occupied flags
  are cleared, the other fields keep what the last frame left there.\<close>

definition reset_codes :: "qr_code list \<Rightarrow> qr_code list" where
  "reset_codes l1 = map (\<lambda>c. c\<lparr>qr_o := False\<rparr>) l1"

section \<open>Black or white\<close>

definition is_light :: "int \<Rightarrow> int \<Rightarrow> int \<Rightarrow> u16 \<Rightarrow> bool" where
  "is_light tr tg tb p \<longleftrightarrow>
     uint (drop_bit 11 p AND 31) > tr \<and> uint (drop_bit 5 p AND 63) > tg \<and> uint (p AND 31) > tb"

function bin_row :: "(u16 \<Rightarrow> bool) \<Rightarrow> image \<Rightarrow> int \<Rightarrow> int \<Rightarrow> image \<Rightarrow> image" where
  "bin_row light OFrame y x P =
    (if x < 240
     then bin_row light OFrame y (x + 1)
       (P(y * 240 + x := (if light (OFrame (y * 240 + x)) then 65535 else 0)))
     else P)"
  by pat_completeness auto
termination
  by (relation "measure (\<lambda>(l, fr, y, x, P). nat (240 - x))") auto

function bin_rows :: "(u16 \<Rightarrow> bool) \<Rightarrow> image \<Rightarrow> int \<Rightarrow> image \<Rightarrow> image" where
  "bin_rows light OFrame y P =
    (if y < 240 then bin_rows light OFrame (y + 1) (bin_row light OFrame y 0 P) else P)"
  by pat_completeness auto
termination
  by (relation "measure (\<lambda>(l, fr, y, P). nat (240 - y))") auto

definition pure_b_or_w :: "image \<Rightarrow> image \<Rightarrow> image" where
  "pure_b_or_w OFrame P = bin_rows (is_light 29 61 29) OFrame 0 P"

definition pure_b_or_w_module :: "image \<Rightarrow> image \<Rightarrow> image" where
  "pure_b_or_w_module OFrame P = bin_rows (is_light 24 50 24) OFrame 0 P"

section \<open>Edges\<close>

text \<open>A light element with a dark one \<open>tm\<close> rows above it. C's \<^verbatim>\<open>&\<close> evaluates both reads.\<close>

definition edge :: "image \<Rightarrow> int \<Rightarrow> int \<Rightarrow> int \<Rightarrow> bool" where
  "edge P tm y x \<longleftrightarrow> P (y * 240 + x) \<noteq> 0 \<and> P ((y - tm) * 240 + x) = 0"

function top_lr ::
  "image \<Rightarrow> qr_settings \<Rightarrow> int \<Rightarrow> int \<Rightarrow> int \<Rightarrow> int \<Rightarrow> int \<Rightarrow> bool \<Rightarrow> int \<times> int \<times> int \<times> bool" where
  "top_lr P cfg x y i j dx found =
    (if i < 240 - x then
       if edge P (sTopMargin cfg) (y + j) (x + i) then
         top_lr P cfg x y (i + 1) j (dx + 1) (if dx + 1 > sMinL cfg then True else found)
       else if edge P (sTopMargin cfg) (j + y + 1) (x + i) then
         top_lr P cfg x y (i + 1) (j + 1) (dx + 1) (if dx + 1 > sMinL cfg then True else found)
       else (i, j, dx, found)
     else (i, j, dx, found))"
  by pat_completeness auto
termination
  by (relation "measure (\<lambda>(P, cfg, x, y, i, j, dx, found). nat (240 - x - i))") auto

function top_rl ::
  "image \<Rightarrow> qr_settings \<Rightarrow> int \<Rightarrow> int \<Rightarrow> int \<Rightarrow> int \<Rightarrow> int \<Rightarrow> bool \<Rightarrow> int \<times> int \<times> int \<times> bool" where
  "top_rl P cfg x y i j dx found =
    (if i > 0 - x then
       if edge P (sTopMargin cfg) (y + j) (x + i) then
         top_rl P cfg x y (i - 1) j (dx - 1) (if dx - 1 < - sMinL cfg then True else found)
       else if edge P (sTopMargin cfg) (j + y + 1) (x + i) then
         top_rl P cfg x y (i - 1) (j + 1) (dx - 1) (if dx - 1 < - sMinL cfg then True else found)
       else (i, j, dx, found)
     else (i, j, dx, found))"
  by pat_completeness auto
termination
  by (relation "measure (\<lambda>(P, cfg, x, y, i, j, dx, found). nat (x + i))") auto

text \<open>The side line below the end of the top line; \<open>col\<close> is the column it is looked for in.\<close>

function side_line ::
  "image \<Rightarrow> qr_settings \<Rightarrow> int \<Rightarrow> int \<Rightarrow> int \<Rightarrow> int \<Rightarrow> int \<Rightarrow> bool \<Rightarrow> int \<times> int \<times> bool" where
  "side_line P cfg col y j i dy found =
    (if i < 240 - y + j then
       if P ((y + j + i) * 240 + col) \<noteq> 0 then
         side_line P cfg col y j (i + 1) (dy + 1) (if dy + 1 > sMinL cfg then True else found)
       else (i, dy, found)
     else (i, dy, found))"
  by pat_completeness auto
termination
  by (relation "measure (\<lambda>(P, cfg, col, y, j, i, dy, found). nat (240 - y + j - i))") auto

declare bin_row.simps [simp del] bin_rows.simps [simp del]
  top_lr.simps [simp del] top_rl.simps [simp del] side_line.simps [simp del]

text \<open>The three loops advance their counters together and report \<open>found\<close> exactly when the
  counter passed the minimum length.\<close>

lemma top_lr_props:
  assumes "top_lr P cfg x y i j dx found = (i', j', dx', found')" "i \<le> 240 - x"
  shows "i \<le> i' \<and> i' \<le> 240 - x \<and> dx' - dx = i' - i \<and> j \<le> j' \<and> j' - j \<le> i' - i \<and>
    (found' \<longrightarrow> found \<or> (dx < dx' \<and> sMinL cfg < dx'))"
  using assms
proof (induction P cfg x y i j dx found rule: top_lr.induct)
  case (1 P cfg x y i j dx found)
  show ?case
    using "1.prems" "1.IH"
    by (subst (asm) top_lr.simps) (fastforce split: if_splits)
qed

lemma top_rl_props:
  assumes "top_rl P cfg x y i j dx found = (i', j', dx', found')" "- x \<le> i"
  shows "i' \<le> i \<and> - x \<le> i' \<and> dx - dx' = i - i' \<and> j \<le> j' \<and> j' - j \<le> i - i' \<and>
    (found' \<longrightarrow> found \<or> (dx' < dx \<and> dx' < - sMinL cfg))"
  using assms
proof (induction P cfg x y i j dx found rule: top_rl.induct)
  case (1 P cfg x y i j dx found)
  show ?case
    using "1.prems" "1.IH"
    by (subst (asm) top_rl.simps) (fastforce split: if_splits)
qed

lemma side_line_props:
  assumes "side_line P cfg col y j i dy found = (i', dy', found')"
  shows "i \<le> i' \<and> dy' - dy = i' - i \<and> (i \<le> 240 - y + j \<longrightarrow> i' \<le> 240 - y + j) \<and>
    (found' \<longrightarrow> found \<or> (dy < dy' \<and> sMinL cfg < dy'))"
  using assms
proof (induction P cfg col y j i dy found rule: side_line.induct)
  case (1 P cfg col y j i dy found)
  show ?case
    using "1.prems" "1.IH"
    by (subst (asm) side_line.simps) (fastforce split: if_splits)
qed

section \<open>Scanning\<close>

definition in_zone_lr :: "qr_code list \<Rightarrow> int \<Rightarrow> int \<Rightarrow> bool" where
  "in_zone_lr l1 x y \<longleftrightarrow>
     list_ex (\<lambda>c. qr_o c \<and> qr_x0 c \<le> x \<and> x \<le> qr_x1 c \<and> qr_y0 c \<le> y \<and> y \<le> qr_y3 c) l1"

definition in_zone_rl :: "qr_code list \<Rightarrow> int \<Rightarrow> int \<Rightarrow> bool" where
  "in_zone_rl l1 x y \<longleftrightarrow>
     list_ex (\<lambda>c. qr_o c \<and>
       (if qr_f c then qr_x0 c \<ge> x \<and> x \<ge> qr_x1 c \<and> qr_y0 c \<le> y \<and> y \<le> qr_y3 c
        else qr_x0 c \<le> x \<and> x \<le> qr_x1 c \<and> qr_y0 c \<le> y \<and> y \<le> qr_y3 c)) l1"

text \<open>Noting a code in the next free slot, if there is one. The flag \<open>m\<close> tells the module's
  version, which also stores the width in \<^verbatim>\<open>dx\<close>, from the application's.\<close>

definition note_code ::
  "bool \<Rightarrow> bool \<Rightarrow> int \<Rightarrow> int \<Rightarrow> int \<Rightarrow> int \<Rightarrow> int \<Rightarrow> qr_state \<Rightarrow> qr_state" where
  "note_code m flipped x y j dx dy st =
    (let (k, l1) = st in
     if k < 5 then
       (k + 1,
        l1[k := (l1 ! k)\<lparr>qr_o := True, qr_f := flipped, qr_x0 := x, qr_y0 := y,
                 qr_x1 := x + dx, qr_y1 := y + j, qr_x2 := x + dx, qr_y2 := y + j + dy,
                 qr_x3 := x, qr_y3 := y + 2 * j + dy,
                 qr_dx := (if m then (if flipped then - dx else dx) else qr_dx (l1 ! k))\<rparr>])
     else st)"

definition step_lr :: "bool \<Rightarrow> image \<Rightarrow> qr_settings \<Rightarrow> int \<Rightarrow> int \<Rightarrow> qr_state \<Rightarrow> int \<times> qr_state" where
  "step_lr m P cfg y x st =
    (if \<not> in_zone_lr (snd st) x y \<and> edge P (sTopMargin cfg) y x then
       (let (i, j, dx, found) = top_lr P cfg x y 1 0 1 False in
        if found then
          (let (i, dy, found) = side_line P cfg (x + dx - sStepback cfg) y j 1 1 False in
           (x + i + 1, if found then note_code m False x y j dx dy st else st))
        else (x + i + 1, st))
     else (x + 1, st))"

definition step_rl :: "bool \<Rightarrow> image \<Rightarrow> qr_settings \<Rightarrow> int \<Rightarrow> int \<Rightarrow> qr_state \<Rightarrow> int \<times> qr_state" where
  "step_rl m P cfg y x st =
    (if \<not> in_zone_rl (snd st) x y \<and> edge P (sTopMargin cfg) y x then
       (let (i, j, dx, found) = top_rl P cfg x y (-1) 0 (-1) False in
        if found then
          (let (i, dy, found) = side_line P cfg (x + dx + sStepback cfg) y j 1 1 False in
           (x + dx - 1, if found then note_code m True x y j dx dy st else st))
        else (x + dx - 1, st))
     else (x - 1, st))"

text \<open>One step moves on by at least one column and either leaves the table alone or notes a
  code whose edges are longer than the minimum.\<close>

definition edges_ok :: "qr_settings \<Rightarrow> int \<Rightarrow> int \<Rightarrow> int \<Rightarrow> int \<Rightarrow> bool" where
  "edges_ok cfg y j w dy \<longleftrightarrow>
     1 < w \<and> sMinL cfg < w \<and> 0 \<le> j \<and> j < w \<and> 1 < dy \<and> sMinL cfg < dy \<and>
     (y < 240 \<longrightarrow> dy \<le> 240 - y + j)"

lemma side_line_start:
  assumes "side_line P cfg col y j 1 1 False = (i, dy, found)" "0 \<le> j"
  shows "1 \<le> i \<and> dy = i \<and> (y < 240 \<longrightarrow> dy \<le> 240 - y + j) \<and> (found \<longrightarrow> 1 < dy \<and> sMinL cfg < dy)"
  using side_line_props [OF assms(1)] assms(2) by auto

lemma step_lr_result:
  assumes "x < 240" "step_lr m P cfg y x st = (x', st')"
  shows "x < x' \<and> (st' = st \<or> (\<exists>j dx dy. st' = note_code m False x y j dx dy st \<and>
     edges_ok cfg y j dx dy \<and> x + dx \<le> 240 \<and> \<not> in_zone_lr (snd st) x y))"
proof (cases "\<not> in_zone_lr (snd st) x y \<and> edge P (sTopMargin cfg) y x")
  case True
  obtain i j dx found where t: "top_lr P cfg x y 1 0 1 False = (i, j, dx, found)"
    by (cases "top_lr P cfg x y 1 0 1 False") auto
  then have tp: "1 \<le> i" "x + i \<le> 240" "dx = i" "0 \<le> j" "j < i" "found \<longrightarrow> 1 < dx \<and> sMinL cfg < dx"
    using top_lr_props [OF t] assms by auto
  obtain i2 dy found2 where s:
    "side_line P cfg (x + dx - sStepback cfg) y j 1 1 False = (i2, dy, found2)"
    by (cases "side_line P cfg (x + dx - sStepback cfg) y j 1 1 False") auto
  have x': "x' = (if found then x + i2 + 1 else x + i + 1)"
    and st': "st' = (if found \<and> found2 then note_code m False x y j dx dy st else st)"
    using assms(2) True s by (auto simp: step_lr_def t split: if_splits)
  note sp = side_line_start [OF s \<open>0 \<le> j\<close>]
  have "x < x'" using x' tp sp by auto
  moreover have "edges_ok cfg y j dx dy" if "found" "found2"
    using tp sp that by (auto simp: edges_ok_def)
  ultimately show ?thesis using st' True tp by (cases "found \<and> found2") auto
next
  case False
  then show ?thesis using assms(2) by (auto simp: step_lr_def split: if_splits)
qed

lemma step_rl_result:
  assumes "0 \<le> x" "step_rl m P cfg y x st = (x', st')"
  shows "x' < x \<and> (st' = st \<or> (\<exists>j dx dy. st' = note_code m True x y j dx dy st \<and>
     edges_ok cfg y j (- dx) dy \<and> 0 \<le> x + dx \<and> \<not> in_zone_rl (snd st) x y))"
proof (cases "\<not> in_zone_rl (snd st) x y \<and> edge P (sTopMargin cfg) y x")
  case True
  obtain i j dx found where t: "top_rl P cfg x y (-1) 0 (-1) False = (i, j, dx, found)"
    by (cases "top_rl P cfg x y (-1) 0 (-1) False") auto
  have tp: "dx \<le> -1" "0 \<le> j" "j < - dx" "found \<longrightarrow> 0 \<le> x + dx \<and> dx < - 1 \<and> dx < - sMinL cfg"
  proof -
    have "x = 0 \<Longrightarrow> (i, j, dx, found) = (-1, 0, -1, False)" using t by (simp add: top_rl.simps)
    moreover have "x \<noteq> 0 \<Longrightarrow> - x \<le> - 1" using assms by simp
    ultimately show "dx \<le> -1" "0 \<le> j" "j < - dx"
      "found \<longrightarrow> 0 \<le> x + dx \<and> dx < - 1 \<and> dx < - sMinL cfg"
      using top_rl_props [OF t] by (cases "x = 0"; force)+
  qed
  obtain i2 dy found2 where s:
    "side_line P cfg (x + dx + sStepback cfg) y j 1 1 False = (i2, dy, found2)"
    by (cases "side_line P cfg (x + dx + sStepback cfg) y j 1 1 False") auto
  have x': "x' = x + dx - 1"
    and st': "st' = (if found \<and> found2 then note_code m True x y j dx dy st else st)"
    using assms(2) True s by (auto simp: step_rl_def t split: if_splits)
  note sp = side_line_start [OF s \<open>0 \<le> j\<close>]
  have "x' < x" using x' tp by auto
  moreover have "edges_ok cfg y j (- dx) dy" if "found" "found2"
    using tp sp that by (auto simp: edges_ok_def)
  ultimately show ?thesis using st' True tp by (cases "found \<and> found2") auto
next
  case False
  then show ?thesis using assms(2) by (auto simp: step_rl_def split: if_splits)
qed

lemma step_lr_advances: "x < 240 \<Longrightarrow> x < fst (step_lr m P cfg y x st)"
  using step_lr_result [of x m P cfg y st] by (cases "step_lr m P cfg y x st") auto

lemma step_rl_advances: "0 \<le> x \<Longrightarrow> fst (step_rl m P cfg y x st) < x"
  using step_rl_result [of x m P cfg y st] by (cases "step_rl m P cfg y x st") auto

function row_lr :: "bool \<Rightarrow> image \<Rightarrow> qr_settings \<Rightarrow> int \<Rightarrow> int \<Rightarrow> qr_state \<Rightarrow> qr_state" where
  "row_lr m P cfg y x st =
    (if x < 240 then (let (x', st') = step_lr m P cfg y x st in row_lr m P cfg y x' st') else st)"
  by pat_completeness auto
termination
proof (relation "measure (\<lambda>(m, P, cfg, y, x, st). nat (240 - x))", goal_cases)
  case (2 m P cfg y x st r x' st')
  then have "step_lr m P cfg y x st = (x', st')" by simp
  then have "x < x'" using step_lr_advances [of x m P cfg y st] "2"(1) by simp
  with "2"(1) show ?case by simp
qed simp

function row_rl :: "bool \<Rightarrow> image \<Rightarrow> qr_settings \<Rightarrow> int \<Rightarrow> int \<Rightarrow> qr_state \<Rightarrow> qr_state" where
  "row_rl m P cfg y x st =
    (if x \<ge> 0 then (let (x', st') = step_rl m P cfg y x st in row_rl m P cfg y x' st') else st)"
  by pat_completeness auto
termination
proof (relation "measure (\<lambda>(m, P, cfg, y, x, st). nat (x + 1))", goal_cases)
  case (2 m P cfg y x st r x' st')
  then have "step_rl m P cfg y x st = (x', st')" by simp
  then have "x' < x" using step_rl_advances [of x m P cfg y st] "2"(1) by simp
  with "2"(1) show ?case by simp
qed simp

function rows_lr :: "bool \<Rightarrow> image \<Rightarrow> qr_settings \<Rightarrow> int \<Rightarrow> qr_state \<Rightarrow> qr_state" where
  "rows_lr m P cfg y st =
    (if y < 240 then rows_lr m P cfg (y + 1) (row_lr m P cfg y 0 st) else st)"
  by pat_completeness auto
termination
  by (relation "measure (\<lambda>(m, P, cfg, y, st). nat (240 - y))") auto

function rows_rl :: "bool \<Rightarrow> image \<Rightarrow> qr_settings \<Rightarrow> int \<Rightarrow> qr_state \<Rightarrow> qr_state" where
  "rows_rl m P cfg y st =
    (if y < 240 then rows_rl m P cfg (y + 1) (row_rl m P cfg y 239 st) else st)"
  by pat_completeness auto
termination
  by (relation "measure (\<lambda>(m, P, cfg, y, st). nat (240 - y))") auto

declare row_lr.simps [simp del] row_rl.simps [simp del]
  rows_lr.simps [simp del] rows_rl.simps [simp del]

definition pass_lr :: "image \<Rightarrow> qr_settings \<Rightarrow> qr_code list \<Rightarrow> qr_state" where
  "pass_lr P cfg l1 = rows_lr False P cfg 1 (0, l1)"

definition pass_rl :: "image \<Rightarrow> qr_settings \<Rightarrow> qr_state \<Rightarrow> qr_state" where
  "pass_rl P cfg st = rows_rl False P cfg 1 st"

definition pass_lr_module :: "image \<Rightarrow> qr_settings \<Rightarrow> qr_code list \<Rightarrow> qr_state" where
  "pass_lr_module P cfg l1 = rows_lr True P cfg 1 (0, l1)"

definition pass_rl_module :: "image \<Rightarrow> qr_settings \<Rightarrow> qr_state \<Rightarrow> qr_state" where
  "pass_rl_module P cfg st = rows_rl True P cfg 1 st"

section \<open>Reporting\<close>

text \<open>The application logs one line \<^verbatim>\<open>#%d\<close> per occupied slot, or \<^verbatim>\<open>#500\<close> when the first slot
  is free.\<close>

definition report :: "qr_code list \<Rightarrow> int list" where
  "report l1 =
     map (\<lambda>c. c_div (qr_x1 c + qr_x0 c) 2) (filter qr_o l1) @
     (if \<not> qr_o (l1 ! 0) then [500] else [])"

text \<open>The module keeps the widest code, asks the code scanner (an argument: the library is a
  binary) for a payload whenever a code is wider than 130 columns, and logs \<^verbatim>\<open>#mid;width\<close>.\<close>

definition code_width :: "qr_code \<Rightarrow> int" where
  "code_width c = (if qr_f c then qr_x0 c - qr_x1 c else qr_x1 c - qr_x0 c)"

fun pick_best :: "qr_code list \<Rightarrow> qr_code \<Rightarrow> qr_code" where
  "pick_best [] best = best"
| "pick_best (c # cs) best =
     pick_best cs (if qr_o c \<and> qr_dx c > qr_dx best then c else best)"

fun decoded :: "(image \<Rightarrow> string option) \<Rightarrow> image \<Rightarrow> qr_code list \<Rightarrow> string list" where
  "decoded scan P [] = []"
| "decoded scan P (c # cs) =
     (if qr_o c \<and> code_width c > 130
      then (case scan P of None \<Rightarrow> [] | Some s \<Rightarrow> [s]) else []) @ decoded scan P cs"

definition report_module :: "(image \<Rightarrow> string option) \<Rightarrow> image \<Rightarrow> qr_code list \<Rightarrow> qr_code \<Rightarrow>
    string list \<times> (int \<times> int) \<times> qr_code" where
  "report_module scan P l1 best0 =
    (let best = pick_best l1 (best0\<lparr>qr_o := False, qr_dx := 0, qr_f := False\<rparr>)
     in (decoded scan P l1,
         (if \<not> qr_o best then (500, 5)
          else (c_div (qr_x1 best + qr_x0 best) 2,
                if qr_f best then qr_x0 best - qr_x1 best else qr_x1 best - qr_x0 best)),
         best))"

text \<open>What happens to the frame buffer afterwards.\<close>

datatype frame_fate = SentOn | ReturnedToCamera | Freed

definition frame_fate_of :: "bool \<Rightarrow> bool \<Rightarrow> frame_fate" where
  "frame_fate_of xQueueFrameO gReturnFB =
     (if xQueueFrameO then SentOn else if gReturnFB then ReturnedToCamera else Freed)"

text \<open>One turn of the task: the frame received from the queue, the table, the image array and
  its surroundings; the result is what is logged, the new table, the new array and what
  becomes of the frame.\<close>

definition process_frame ::
  "qr_settings \<Rightarrow> bool \<Rightarrow> bool \<Rightarrow> image \<Rightarrow> image \<Rightarrow> qr_code list \<Rightarrow>
   int list \<times> qr_code list \<times> image \<times> frame_fate" where
  "process_frame cfg has_out return_fb OFrame P l1 =
    (let P' = pure_b_or_w OFrame P;
         (k, l1') = pass_rl P' cfg (pass_lr P' cfg (reset_codes l1))
     in (report l1', l1', P', frame_fate_of has_out return_fb))"

definition process_frame_module ::
  "(image \<Rightarrow> string option) \<Rightarrow> qr_settings \<Rightarrow> bool \<Rightarrow> bool \<Rightarrow> image \<Rightarrow> image \<Rightarrow> qr_code list \<Rightarrow> qr_code \<Rightarrow>
   (string list \<times> (int \<times> int) \<times> qr_code) \<times> qr_code list \<times> image \<times> frame_fate" where
  "process_frame_module scan cfg has_out return_fb OFrame P l1 best =
    (let P' = pure_b_or_w_module OFrame P;
         (k, l1') = pass_rl_module P' cfg (pass_lr_module P' cfg (reset_codes l1))
     in (report_module scan P' l1' best, l1', P', frame_fate_of has_out return_fb))"

text \<open>\<^verbatim>\<open>register_lcd\<close> finds and starts the screen driver (its two results are arguments),
  stores the queues and the settings in the module's static variables and starts the task.\<close>

record 'q qr_module =
  xQueueFrameI :: "'q option"
  xQueueFrameO :: "'q option"
  gReturnFB :: bool
  settings :: qr_settings
  qr_tasks :: nat

definition qr_module_init :: "'q qr_module" where
  "qr_module_init = \<lparr>xQueueFrameI = None, xQueueFrameO = None, gReturnFB = True,
     settings = default_settings, qr_tasks = 0\<rparr>"

definition register_lcd :: "int \<Rightarrow> int \<Rightarrow> 'q option \<Rightarrow> 'q option \<Rightarrow> bool \<Rightarrow> int \<Rightarrow> int \<Rightarrow> int \<Rightarrow>
    'q qr_module \<Rightarrow> int \<times> 'q qr_module" where
  "register_lcd find_ret init_ret frame_i frame_o return_fb TopMargin MinL Stepback st =
    (if find_ret \<noteq> ESP_OK then (find_ret, st)
     else if init_ret \<noteq> ESP_OK then (ESP_FAIL, st)
     else (ESP_OK, st\<lparr>xQueueFrameI := frame_i, xQueueFrameO := frame_o, gReturnFB := return_fb,
       settings := \<lparr>sTopMargin = TopMargin, sStepback = Stepback, sMinL = MinL\<rparr>,
       qr_tasks := qr_tasks st + 1\<rparr>))"

section \<open>What the table holds\<close>

text \<open>A predicate that every step keeps is kept by the scans.\<close>

lemma row_lr_keeps:
  assumes step: "\<And>x st x' st'. 0 \<le> x \<Longrightarrow> x < 240 \<Longrightarrow> I st \<Longrightarrow> step_lr m P cfg y x st = (x', st') \<Longrightarrow> I st'"
  shows "0 \<le> x \<Longrightarrow> I st \<Longrightarrow> I (row_lr m P cfg y x st)"
proof (induction "nat (240 - x)" arbitrary: x st rule: less_induct)
  case less
  show ?case
  proof (cases "x < 240")
    case True
    obtain x' st' where s: "step_lr m P cfg y x st = (x', st')" by (cases "step_lr m P cfg y x st")
    have "x < x'" using step_lr_result [OF True s] by simp
    then have "I (row_lr m P cfg y x' st')"
      using less.hyps [of x' st'] less.prems True step [OF _ True _ s] by simp
    then show ?thesis using True s by (simp add: row_lr.simps [of m P cfg y x st])
  next
    case False
    then show ?thesis using less.prems by (simp add: row_lr.simps)
  qed
qed

lemma row_rl_keeps:
  assumes step: "\<And>x st x' st'. 0 \<le> x \<Longrightarrow> x < 240 \<Longrightarrow> I st \<Longrightarrow> step_rl m P cfg y x st = (x', st') \<Longrightarrow> I st'"
  shows "x < 240 \<Longrightarrow> I st \<Longrightarrow> I (row_rl m P cfg y x st)"
proof (induction "nat (x + 1)" arbitrary: x st rule: less_induct)
  case less
  show ?case
  proof (cases "0 \<le> x")
    case True
    obtain x' st' where s: "step_rl m P cfg y x st = (x', st')" by (cases "step_rl m P cfg y x st")
    have "x' < x" using step_rl_result [OF True s] by simp
    then have "I (row_rl m P cfg y x' st')"
      using less.hyps [of x' st'] less.prems True step [OF True _ _ s] by simp
    then show ?thesis using True s by (simp add: row_rl.simps [of m P cfg y x st])
  next
    case False
    then show ?thesis using less.prems by (simp add: row_rl.simps)
  qed
qed

lemma rows_lr_keeps:
  assumes step: "\<And>x y st x' st'. 0 \<le> x \<Longrightarrow> x < 240 \<Longrightarrow> 1 \<le> y \<Longrightarrow> y < 240 \<Longrightarrow> I st \<Longrightarrow>
      step_lr m P cfg y x st = (x', st') \<Longrightarrow> I st'"
  shows "1 \<le> y \<Longrightarrow> I st \<Longrightarrow> I (rows_lr m P cfg y st)"
proof (induction "nat (240 - y)" arbitrary: y st rule: less_induct)
  case less
  show ?case
  proof (cases "y < 240")
    case True
    have "I (row_lr m P cfg y 0 st)"
      by (rule row_lr_keeps [where I = I]) (use less.prems True step in auto)
    then show ?thesis
      using less.hyps [of "y + 1"] less.prems True by (simp add: rows_lr.simps [of m P cfg y st])
  next
    case False
    then show ?thesis using less.prems by (simp add: rows_lr.simps)
  qed
qed

lemma rows_rl_keeps:
  assumes step: "\<And>x y st x' st'. 0 \<le> x \<Longrightarrow> x < 240 \<Longrightarrow> 1 \<le> y \<Longrightarrow> y < 240 \<Longrightarrow> I st \<Longrightarrow>
      step_rl m P cfg y x st = (x', st') \<Longrightarrow> I st'"
  shows "1 \<le> y \<Longrightarrow> I st \<Longrightarrow> I (rows_rl m P cfg y st)"
proof (induction "nat (240 - y)" arbitrary: y st rule: less_induct)
  case less
  show ?case
  proof (cases "y < 240")
    case True
    have "I (row_rl m P cfg y 239 st)"
      by (rule row_rl_keeps [where I = I]) (use less.prems True step in auto)
    then show ?thesis
      using less.hyps [of "y + 1"] less.prems True by (simp add: rows_rl.simps [of m P cfg y st])
  next
    case False
    then show ?thesis using less.prems by (simp add: rows_rl.simps)
  qed
qed

definition code_ok :: "bool \<Rightarrow> qr_settings \<Rightarrow> qr_code \<Rightarrow> bool" where
  "code_ok m cfg c \<longleftrightarrow>
     0 \<le> qr_x0 c \<and> qr_x0 c < 240 \<and> 0 \<le> qr_x1 c \<and> qr_x1 c \<le> 240 \<and>
     1 \<le> qr_y0 c \<and> qr_y0 c < 240 \<and>
     qr_x2 c = qr_x1 c \<and> qr_x3 c = qr_x0 c \<and>
     1 < code_width c \<and> sMinL cfg < code_width c \<and>
     0 \<le> qr_y1 c - qr_y0 c \<and> qr_y1 c - qr_y0 c < code_width c \<and>
     1 < qr_y2 c - qr_y1 c \<and> sMinL cfg < qr_y2 c - qr_y1 c \<and>
     qr_y2 c \<le> 240 + 2 * (qr_y1 c - qr_y0 c) \<and>
     qr_y3 c - qr_y2 c = qr_y1 c - qr_y0 c \<and>
     (m \<longrightarrow> qr_dx c = code_width c)"

definition covers :: "qr_code \<Rightarrow> int \<Rightarrow> int \<Rightarrow> bool" where
  "covers c x y \<longleftrightarrow>
     (if qr_f c then qr_x1 c \<le> x \<and> x \<le> qr_x0 c else qr_x0 c \<le> x \<and> x \<le> qr_x1 c) \<and>
     qr_y0 c \<le> y \<and> y \<le> qr_y3 c"

text \<open>The table: the first \<open>k\<close> of its five slots are occupied by well-formed codes, and the
  first corner of a code lies outside the area of every code noted before it.\<close>

definition table_ok :: "bool \<Rightarrow> qr_settings \<Rightarrow> qr_state \<Rightarrow> bool" where
  "table_ok m cfg st \<longleftrightarrow>
     (let (k, l1) = st in length l1 = 5 \<and> k \<le> 5 \<and>
       (\<forall>n<5. qr_o (l1 ! n) = (n < k)) \<and>
       (\<forall>n<k. code_ok m cfg (l1 ! n)) \<and>
       (\<forall>b<k. \<forall>a<b. \<not> covers (l1 ! a) (qr_x0 (l1 ! b)) (qr_y0 (l1 ! b))))"

definition none_flipped :: "qr_state \<Rightarrow> bool" where
  "none_flipped st \<longleftrightarrow> (\<forall>n<fst st. \<not> qr_f (snd st ! n))"

lemma occupied_iff:
  assumes "table_ok m cfg (k, l1)"
  shows "list_ex (\<lambda>c. qr_o c \<and> Q c) l1 \<longleftrightarrow> (\<exists>n<k. Q (l1 ! n))"
proof -
  have t: "length l1 = 5" "k \<le> 5" "\<And>n. n < 5 \<Longrightarrow> qr_o (l1 ! n) = (n < k)"
    using assms by (auto simp: table_ok_def)
  show ?thesis using t(2,3) unfolding list_ex_length t(1) by (metis less_le_trans)
qed

lemma in_zone_rl_iff:
  assumes "table_ok m cfg (k, l1)"
  shows "in_zone_rl l1 x y \<longleftrightarrow> (\<exists>n<k. covers (l1 ! n) x y)"
  unfolding in_zone_rl_def occupied_iff [OF assms] by (auto simp: covers_def)

lemma in_zone_lr_iff:
  assumes "table_ok m cfg (k, l1)" "none_flipped (k, l1)"
  shows "in_zone_lr l1 x y \<longleftrightarrow> (\<exists>n<k. covers (l1 ! n) x y)"
  unfolding in_zone_lr_def occupied_iff [OF assms(1)]
  using assms(2) by (auto simp: covers_def none_flipped_def)

lemma note_code_table:
  assumes ok: "table_ok m cfg (k, l1)"
    and x: "0 \<le> x" "x < 240" and y: "1 \<le> y" "y < 240"
    and w: "edges_ok cfg y j (if flipped then - dx else dx) dy" "0 \<le> x + dx" "x + dx \<le> 240"
    and free: "\<not> (\<exists>n<k. covers (l1 ! n) x y)"
  shows "table_ok m cfg (note_code m flipped x y j dx dy (k, l1))"
proof (cases "k < 5")
  case True
  let ?c = "(l1 ! k)\<lparr>qr_o := True, qr_f := flipped, qr_x0 := x, qr_y0 := y,
                 qr_x1 := x + dx, qr_y1 := y + j, qr_x2 := x + dx, qr_y2 := y + j + dy,
                 qr_x3 := x, qr_y3 := y + 2 * j + dy,
                 qr_dx := (if m then (if flipped then - dx else dx) else qr_dx (l1 ! k))\<rparr>"
  have noted: "note_code m flipped x y j dx dy (k, l1) = (Suc k, l1[k := ?c])"
    using True by (simp add: note_code_def)
  have c: "code_ok m cfg ?c"
    using x y w by (auto simp: code_ok_def code_width_def edges_ok_def)
  show ?thesis
    using ok True c free unfolding noted
    by (auto simp: table_ok_def nth_list_update less_Suc_eq)
next
  case False
  then show ?thesis using ok by (simp add: note_code_def)
qed

lemma step_lr_table:
  assumes "0 \<le> x" "x < 240" "1 \<le> y" "y < 240" "table_ok m cfg st \<and> none_flipped st"
    and "step_lr m P cfg y x st = (x', st')"
  shows "table_ok m cfg st' \<and> none_flipped st'"
proof -
  obtain k l1 where st: "st = (k, l1)" by (cases st)
  have l: "length l1 = 5" using assms(5) by (simp add: st table_ok_def)
  consider "st' = st" | j dx dy where "st' = note_code m False x y j dx dy st"
    "edges_ok cfg y j dx dy" "x + dx \<le> 240" "\<not> in_zone_lr l1 x y"
    using step_lr_result [OF assms(2,6)] by (auto simp: st)
  then show ?thesis
  proof cases
    case 1
    with assms(5) show ?thesis by simp
  next
    case 2
    have "table_ok m cfg st'"
      using note_code_table [of m cfg k l1 x y j False dx dy] assms 2 in_zone_lr_iff [of m cfg k l1]
      by (auto simp: st edges_ok_def)
    moreover have "none_flipped st'"
      using assms(5) l 2 by (auto simp: st note_code_def none_flipped_def nth_list_update less_Suc_eq)
    ultimately show ?thesis ..
  qed
qed

lemma step_rl_table:
  assumes "0 \<le> x" "x < 240" "1 \<le> y" "y < 240" "table_ok m cfg st"
    and "step_rl m P cfg y x st = (x', st')"
  shows "table_ok m cfg st'"
proof -
  obtain k l1 where st: "st = (k, l1)" by (cases st)
  consider "st' = st" | j dx dy where "st' = note_code m True x y j dx dy st"
    "edges_ok cfg y j (- dx) dy" "0 \<le> x + dx" "\<not> in_zone_rl l1 x y"
    using step_rl_result [OF assms(1,6)] by (auto simp: st)
  then show ?thesis
  proof cases
    case 1
    with assms(5) show ?thesis by simp
  next
    case 2
    then show ?thesis
      using note_code_table [of m cfg k l1 x y j True dx dy] assms in_zone_rl_iff [of m cfg k l1]
      by (auto simp: st edges_ok_def)
  qed
qed

lemma reset_table: "length l1 = 5 \<Longrightarrow> table_ok m cfg (0, reset_codes l1) \<and> none_flipped (0, reset_codes l1)"
  by (auto simp: table_ok_def reset_codes_def none_flipped_def)

lemma scans_table:
  assumes "length l1 = 5"
  shows "table_ok m cfg (rows_rl m P cfg 1 (rows_lr m P cfg 1 (0, reset_codes l1)))"
proof -
  have "table_ok m cfg (rows_lr m P cfg 1 (0, reset_codes l1)) \<and>
      none_flipped (rows_lr m P cfg 1 (0, reset_codes l1))"
    by (rule rows_lr_keeps [where I = "\<lambda>st. table_ok m cfg st \<and> none_flipped st"])
      (rule step_lr_table, assumption+, simp, rule reset_table [OF assms])
  then have "table_ok m cfg (rows_lr m P cfg 1 (0, reset_codes l1))" ..
  then show ?thesis
    by (rule rows_rl_keeps [where I = "table_ok m cfg", rotated 2])
      (rule step_rl_table, assumption+, simp)
qed

section \<open>Reports\<close>

lemma code_mid:
  assumes "code_ok m cfg c"
  shows "0 \<le> c_div (qr_x1 c + qr_x0 c) 2 \<and> c_div (qr_x1 c + qr_x0 c) 2 < 240"
  using assms by (auto simp: code_ok_def c_div_nonneg)

lemma occupied_slots:
  assumes "table_ok m cfg (k, l1)"
  shows "filter qr_o l1 = take k l1"
proof -
  have t: "length l1 = 5" "k \<le> 5" "\<And>n. n < 5 \<Longrightarrow> qr_o (l1 ! n) = (n < k)"
    using assms by (auto simp: table_ok_def)
  have "filter qr_o (take k l1) = take k l1"
    using t by (intro filter_True) (auto simp: in_set_conv_nth)
  moreover have "filter qr_o (drop k l1) = []"
    using t by (intro filter_False) (auto simp: in_set_conv_nth)
  ultimately have "filter qr_o (take k l1 @ drop k l1) = take k l1"
    by (simp only: filter_append append_Nil2)
  then show ?thesis by simp
qed

lemma report_eq:
  assumes "table_ok m cfg (k, l1)"
  shows "report l1 =
    (if k = 0 then [500] else map (\<lambda>c. c_div (qr_x1 c + qr_x0 c) 2) (take k l1))"
proof -
  have "qr_o (l1 ! 0) = (0 < k)" using assms by (simp add: table_ok_def)
  then show ?thesis by (simp add: report_def occupied_slots [OF assms])
qed

lemma noted_code_ok: "table_ok m cfg (k, l1) \<Longrightarrow> c \<in> set (take k l1) \<Longrightarrow> code_ok m cfg c"
  by (auto simp: table_ok_def in_set_conv_nth)

lemma pick_best_props:
  "pick_best cs b = b \<and> (\<forall>c\<in>set cs. qr_o c \<longrightarrow> qr_dx c \<le> qr_dx b) \<or>
   pick_best cs b \<in> set cs \<and> qr_o (pick_best cs b) \<and> qr_dx b < qr_dx (pick_best cs b) \<and>
     (\<forall>c\<in>set cs. qr_o c \<longrightarrow> qr_dx c \<le> qr_dx (pick_best cs b))"
proof (induction cs arbitrary: b)
  case Nil
  then show ?case by simp
next
  case (Cons c cs)
  show ?case
    using Cons.IH [of "if qr_o c \<and> qr_dx c > qr_dx b then c else b"] by (auto split: if_splits)
qed

section \<open>Properties\<close>

lemma bin_row_at:
  "0 \<le> x \<Longrightarrow> bin_row light OFrame y x P i =
    (if y * 240 + x \<le> i \<and> i < y * 240 + 240 then (if light (OFrame i) then 65535 else 0) else P i)"
proof (induction "nat (240 - x)" arbitrary: x P rule: less_induct)
  case less
  show ?case
  proof (cases "x < 240")
    case True
    then show ?thesis
      using less.hyps [of "x + 1"] less.prems
      by (subst bin_row.simps) auto
  next
    case False
    then show ?thesis by (subst bin_row.simps) auto
  qed
qed

lemma bin_rows_at:
  "0 \<le> y \<Longrightarrow> bin_rows light OFrame y P i =
    (if y * 240 \<le> i \<and> i < 240 * 240 then (if light (OFrame i) then 65535 else 0) else P i)"
proof (induction "nat (240 - y)" arbitrary: y P rule: less_induct)
  case less
  show ?case
  proof (cases "y < 240")
    case True
    then show ?thesis
      using less.hyps [of "y + 1"] less.prems
      by (subst bin_rows.simps) (auto simp: bin_row_at)
  next
    case False
    then show ?thesis by (subst bin_rows.simps) auto
  qed
qed

text \<open>Reducing a frame to black and white sets every element of the 240 x 240 array, to 65535
  where all three colour channels of the pixel exceed their thresholds and to 0 elsewhere,
  and touches nothing outside the array.\<close>

theorem black_or_white_image:
  "pure_b_or_w OFrame P i =
    (if 0 \<le> i \<and> i < 57600
     then (if uint (drop_bit 11 (OFrame i) AND 31) > 29 \<and>
              uint (drop_bit 5 (OFrame i) AND 63) > 61 \<and> uint (OFrame i AND 31) > 29
           then 65535 else 0)
     else P i)"
  by (simp add: pure_b_or_w_def bin_rows_at is_light_def)

text \<open>Without an edge anywhere the scans note nothing.\<close>

lemma rows_no_edges:
  assumes "\<And>x y. 0 \<le> x \<Longrightarrow> x < 240 \<Longrightarrow> 1 \<le> y \<Longrightarrow> y < 240 \<Longrightarrow> \<not> edge P (sTopMargin cfg) y x"
  shows "rows_rl m P cfg 1 (rows_lr m P cfg 1 st) = st"
proof -
  have "rows_lr m P cfg 1 st = st"
    by (rule rows_lr_keeps [where I = "\<lambda>s. s = st"]) (use assms in \<open>auto simp: step_lr_def\<close>)
  moreover have "rows_rl m P cfg 1 st = st"
    by (rule rows_rl_keeps [where I = "\<lambda>s. s = st"]) (use assms in \<open>auto simp: step_rl_def\<close>)
  ultimately show ?thesis by simp
qed

lemma reset_empty [simp]: "reset_codes (replicate n empty_code) = replicate n empty_code"
  by (simp add: reset_codes_def empty_code_def)

lemma light_everywhere: "bin_rows (is_light r g b) (\<lambda>_. 65535) 0 (\<lambda>_. 65535) = (\<lambda>_. 65535)"
  if "r < 31" "g < 63" "b < 31"
  using that by (intro ext) (simp add: bin_rows_at is_light_def)

lemma light_frame_unseen:
  "process_frame main_settings out ret (\<lambda>_. 65535) (\<lambda>_. 65535) (replicate 5 empty_code) =
    ([500], replicate 5 empty_code, (\<lambda>_. 65535), frame_fate_of out ret)"
proof -
  have "rows_rl False (\<lambda>_. 65535) main_settings 1 (rows_lr False (\<lambda>_. 65535) main_settings 1
      (0, replicate 5 empty_code)) = (0, replicate 5 empty_code)"
    by (rule rows_no_edges) (simp add: edge_def)
  moreover have "report (replicate 5 empty_code) = [500]"
    by (simp add: report_def eval_nat_numeral) (simp add: empty_code_def)
  ultimately show ?thesis
    by (simp add: process_frame_def Let_def pure_b_or_w_def light_everywhere pass_lr_def pass_rl_def)
qed

lemma light_frame_unseen_module:
  "process_frame_module scan main_settings out ret (\<lambda>_. 65535) (\<lambda>_. 65535) (replicate 5 empty_code)
      empty_code =
    (([], (500, 5), empty_code), replicate 5 empty_code, (\<lambda>_. 65535), frame_fate_of out ret)"
proof -
  have "rows_rl True (\<lambda>_. 65535) main_settings 1 (rows_lr True (\<lambda>_. 65535) main_settings 1
      (0, replicate 5 empty_code)) = (0, replicate 5 empty_code)"
    by (rule rows_no_edges) (simp add: edge_def)
  moreover have "report_module scan P (replicate 5 empty_code) empty_code = ([], (500, 5), empty_code)" for P
    by (simp add: report_module_def eval_nat_numeral) (simp add: empty_code_def)
  ultimately show ?thesis
    by (simp add: process_frame_module_def Let_def pure_b_or_w_module_def light_everywhere
        pass_lr_module_def pass_rl_module_def)
qed

lemma frame_table_wellformed':
  assumes "length l1 = 5"
    and "process_frame cfg has_out return_fb OFrame P l1 = (rep, l1', P', fate)"
  shows "\<exists>k. table_ok False cfg (k, l1')"
proof -
  let ?P = "pure_b_or_w OFrame P"
  have "table_ok False cfg (pass_rl ?P cfg (pass_lr ?P cfg (reset_codes l1)))"
    unfolding pass_rl_def pass_lr_def by (rule scans_table [OF assms(1)])
  then show ?thesis
    using assms(2) by (auto simp: process_frame_def Let_def split: prod.splits)
qed

text \<open>C28: after any frame the table holds at most five codes in its first slots, every code is well
  formed (its corners lie in the image columns, its top edge and its side are longer than the
  minimum length, its lower corners repeat the slope of the upper ones), and no code starts
  inside the area of a code noted before it.\<close>

theorem frame_table_wellformed:
  assumes "length l1 = 5"
    and "process_frame cfg has_out return_fb OFrame P l1 = (rep, l1', P', fate)"
  shows "\<exists>k. table_ok False cfg (k, l1')"
  using frame_table_wellformed' [OF assms] .

theorem frame_table_wellformed_witness:
  "\<exists>k. table_ok False main_settings (k, replicate 5 empty_code)"
  using frame_table_wellformed [OF _ light_frame_unseen [of False True]] by simp

text \<open>The positions reported for a frame are image columns, one per code found and at most
  five; the value 500 is reported exactly when no code was found, and then alone, so the
  receiver can tell it from a position.\<close>

theorem frame_report_positions:
  assumes "length l1 = 5"
    and "process_frame cfg has_out return_fb OFrame P l1 = (rep, l1', P', fate)"
  shows "if list_ex qr_o l1'
    then length rep = length (filter qr_o l1') \<and> length rep \<le> 5 \<and> (\<forall>v\<in>set rep. 0 \<le> v \<and> v < 240)
    else rep = [500]"
proof -
  obtain k where t: "table_ok False cfg (k, l1')"
    using frame_table_wellformed' [OF assms] by blast
  have rep: "rep = report l1'" using assms(2) by (auto simp: process_frame_def Let_def split: prod.splits)
  have k: "list_ex qr_o l1' \<longleftrightarrow> 0 < k" using occupied_iff [OF t, of "\<lambda>_. True"] by auto
  have "k \<le> 5" "length l1' = 5" using t by (auto simp: table_ok_def)
  then show ?thesis
    using noted_code_ok [OF t] code_mid
    by (auto simp: rep report_eq [OF t] k occupied_slots [OF t])
qed

theorem frame_report_positions_witness:
  "\<not> list_ex qr_o (replicate 5 empty_code) \<and>
   fst (process_frame main_settings False True (\<lambda>_. 65535) (\<lambda>_. 65535) (replicate 5 empty_code)) = [500]"
proof -
  have "\<not> list_ex qr_o (replicate 5 empty_code)" by (simp add: list_ex_iff empty_code_def)
  then show ?thesis
    using frame_report_positions [OF _ light_frame_unseen [of False True]]
    by (simp add: light_frame_unseen)
qed

lemma frame_table_module:
  assumes "length l1 = 5"
    and "process_frame_module scan cfg has_out return_fb OFrame P l1 best =
      ((strs, rep, best'), l1', P', fate)"
  shows "\<exists>k. table_ok True cfg (k, l1')"
    and "(strs, rep, best') = report_module scan P' l1' best"
proof -
  let ?P = "pure_b_or_w_module OFrame P"
  have "table_ok True cfg (pass_rl_module ?P cfg (pass_lr_module ?P cfg (reset_codes l1)))"
    unfolding pass_rl_module_def pass_lr_module_def by (rule scans_table [OF assms(1)])
  then show "\<exists>k. table_ok True cfg (k, l1')"
    and "(strs, rep, best') = report_module scan P' l1' best"
    using assms(2) by (auto simp: process_frame_module_def Let_def split: prod.splits)
qed

text \<open>The module reports the middle and the width of the widest code found in the frame, the
  middle being an image column and the width longer than the minimum; it reports 500 and 5
  exactly when no code was found. A payload is asked for and logged only when some code is
  wider than 130 columns.\<close>

theorem module_reports_widest:
  assumes "length l1 = 5"
    and "process_frame_module scan cfg has_out return_fb OFrame P l1 best =
      ((strs, rep, best'), l1', P', fate)"
  shows "(if list_ex qr_o l1'
     then \<exists>c\<in>set l1'. qr_o c \<and> rep = (c_div (qr_x1 c + qr_x0 c) 2, code_width c) \<and>
       (\<forall>d\<in>set l1'. qr_o d \<longrightarrow> code_width d \<le> code_width c) \<and>
       0 \<le> fst rep \<and> fst rep < 240 \<and> sMinL cfg < snd rep
     else rep = (500, 5)) \<and>
    (strs \<noteq> [] \<longrightarrow> (\<exists>c\<in>set l1'. qr_o c \<and> 130 < code_width c))"
proof -
  obtain k where t: "table_ok True cfg (k, l1')" using frame_table_module(1) [OF assms] by blast
  have ok: "code_ok True cfg c" if "c \<in> set l1'" "qr_o c" for c
  proof -
    have "c \<in> set (filter qr_o l1')" using that by simp
    then show ?thesis using noted_code_ok [OF t] by (simp add: occupied_slots [OF t])
  qed
  let ?init = "best\<lparr>qr_o := False, qr_dx := 0, qr_f := False\<rparr>"
  let ?best = "pick_best l1' ?init"
  have strs: "strs = decoded scan P' l1'"
    and rep: "rep = (if \<not> qr_o ?best then (500, 5) else (c_div (qr_x1 ?best + qr_x0 ?best) 2, code_width ?best))"
    using frame_table_module(2) [OF assms] by (auto simp: report_module_def Let_def code_width_def)
  have "\<exists>c\<in>set cs. qr_o c \<and> 130 < code_width c" if "decoded scan P' cs \<noteq> []" for cs
    using that by (induction cs) (auto split: if_splits)
  then have s: "strs \<noteq> [] \<longrightarrow> (\<exists>c\<in>set l1'. qr_o c \<and> 130 < code_width c)" using strs by blast
  have w: "qr_dx c = code_width c \<and> 1 < code_width c" if "c \<in> set l1'" "qr_o c" for c
    using ok [OF that] by (simp add: code_ok_def)
  show ?thesis
  proof (cases "list_ex qr_o l1'")
    case True
    then obtain c where c: "c \<in> set l1'" "qr_o c" by (auto simp: list_ex_iff)
    then have pos: "\<not> (\<forall>d\<in>set l1'. qr_o d \<longrightarrow> qr_dx d \<le> 0)" using w [OF c] by force
    have b: "?best \<in> set l1'" "qr_o ?best" "\<forall>d\<in>set l1'. qr_o d \<longrightarrow> qr_dx d \<le> qr_dx ?best"
      using pick_best_props [of l1' ?init] pos by auto
    then show ?thesis
      using True s rep w code_mid [OF ok [OF b(1,2)]] ok [OF b(1,2)]
      by (auto simp: code_ok_def intro!: bexI [OF _ b(1)])
  next
    case False
    then have "\<not> qr_o ?best" using pick_best_props [of l1' ?init] by (auto simp: list_ex_iff)
    then show ?thesis using False s rep by simp
  qed
qed

theorem module_reports_widest_witness:
  "fst (snd (fst (process_frame_module (\<lambda>_. None) main_settings False True (\<lambda>_. 65535) (\<lambda>_. 65535)
     (replicate 5 empty_code) empty_code))) = (500, 5)"
proof -
  have "\<not> list_ex qr_o (replicate 5 empty_code)" by (simp add: list_ex_iff empty_code_def)
  then show ?thesis
    using module_reports_widest [OF _ light_frame_unseen_module [of "\<lambda>_. None" False True]]
    by (simp add: light_frame_unseen_module)
qed

lemma top_lr_straight:
  assumes "\<forall>i'. i \<le> i' \<and> i' < n \<longrightarrow> edge P (sTopMargin cfg) (y + j) (x + i')"
    and "i \<le> n" "n \<le> 240 - x"
    and "n = 240 - x \<or> \<not> edge P (sTopMargin cfg) (y + j) (x + n) \<and>
                       \<not> edge P (sTopMargin cfg) (j + y + 1) (x + n)"
  shows "top_lr P cfg x y i j dx found =
    (n, j, dx + (n - i), found \<or> (i < n \<and> sMinL cfg < dx + (n - i)))"
  using assms
proof (induction "nat (n - i)" arbitrary: i dx found rule: less_induct)
  case less
  show ?case
  proof (cases "i < n")
    case True
    then show ?thesis
      using less.hyps [of "i + 1" "dx + 1"] less.prems by (subst top_lr.simps) auto
  next
    case False
    then show ?thesis using less.prems by (subst top_lr.simps) auto
  qed
qed

lemma side_line_straight:
  assumes "\<forall>i'. i \<le> i' \<and> i' < h \<longrightarrow> P ((y + j + i') * 240 + col) \<noteq> 0"
    and "i \<le> h" "h \<le> 240 - y + j"
    and "h = 240 - y + j \<or> P ((y + j + h) * 240 + col) = 0"
  shows "side_line P cfg col y j i dy found =
    (h, dy + (h - i), found \<or> (i < h \<and> sMinL cfg < dy + (h - i)))"
  using assms
proof (induction "nat (h - i)" arbitrary: i dy found rule: less_induct)
  case less
  show ?case
  proof (cases "i < h")
    case True
    then show ?thesis
      using less.hyps [of "i + 1" "dy + 1"] less.prems by (subst side_line.simps) auto
  next
    case False
    then show ?thesis using less.prems by (subst side_line.simps) auto
  qed
qed

lemma step_lr_upright:
  assumes zone: "\<not> in_zone_lr l1 x y" and slot: "k < 5"
    and top: "\<forall>i. 0 \<le> i \<and> i < n \<longrightarrow> edge P (sTopMargin cfg) y (x + i)"
    and top_end: "n = 240 - x \<or> \<not> edge P (sTopMargin cfg) y (x + n) \<and>
                            \<not> edge P (sTopMargin cfg) (y + 1) (x + n)"
    and n: "1 < n" "sMinL cfg < n" "x + n \<le> 240"
    and side: "\<forall>i. 1 \<le> i \<and> i < h \<longrightarrow> P ((y + i) * 240 + (x + n - sStepback cfg)) \<noteq> 0"
    and side_end: "h = 240 - y \<or> P ((y + h) * 240 + (x + n - sStepback cfg)) = 0"
    and h: "1 < h" "sMinL cfg < h" "y + h \<le> 240"
  shows "step_lr m P cfg y x (k, l1) = (x + h + 1, note_code m False x y 0 n h (k, l1))"
proof -
  have t: "top_lr P cfg x y 1 0 1 False = (n, 0, n, True)"
    using top_lr_straight [of 1 n P cfg y 0 x 1 False] top top_end n by (auto simp: add.commute)
  have s: "side_line P cfg (x + n - sStepback cfg) y 0 1 1 False = (h, h, True)"
    using side_line_straight [of 1 h P y 0 "x + n - sStepback cfg" cfg 1 False] side side_end h
    by auto
  have "edge P (sTopMargin cfg) y x" using top n by (auto dest: spec [of _ 0])
  then show ?thesis using zone by (simp add: step_lr_def t s)
qed


text \<open>An all-light array in dark surroundings, as after an all-light frame.\<close>

definition light_array :: image where
  "light_array i = (if 0 \<le> i \<and> i < 57600 then 65535 else 0)"

lemma light_array_row1: "edge light_array 5 1 x \<longleftrightarrow> 0 \<le> x \<and> x < 240"
  if "0 \<le> x" "x < 240"
  using that by (simp add: edge_def light_array_def)

lemma light_array_first_step:
  "step_lr m light_array main_settings 1 0 (0, l1) = (240, note_code m False 0 1 0 240 239 (0, l1))"
  if "\<not> in_zone_lr l1 0 1"
  using step_lr_upright [OF that, where k = 0 and n = 240 and h = 239 and P = light_array
      and cfg = main_settings and m = m]
  by (simp add: main_settings_def light_array_row1) (simp add: light_array_def)


text \<open>The number of codes noted never falls.\<close>

lemma noted_grows:
  assumes "n \<le> fst st" "1 \<le> y"
  shows "n \<le> fst (rows_lr m P cfg y st)" "n \<le> fst (rows_rl m P cfg y st)"
proof -
  have noted: "n \<le> fst (note_code m f x y j dx dy s)" if "n \<le> fst s" for f x y j dx dy s
    using that by (cases s) (simp add: note_code_def)
  have lr: "n \<le> fst s'" if "x < 240" "n \<le> fst s" "step_lr m P cfg y x s = (x', s')" for x y s x' s'
    using step_lr_result [OF that(1,3)] noted [OF that(2)] that(2) by auto
  have rl: "n \<le> fst s'" if "0 \<le> x" "n \<le> fst s" "step_rl m P cfg y x s = (x', s')" for x y s x' s'
    using step_rl_result [OF that(1,3)] noted [OF that(2)] that(2) by auto
  show "n \<le> fst (rows_lr m P cfg y st)"
    by (rule rows_lr_keeps [where I = "\<lambda>s. n \<le> fst s"]) (use lr assms in blast)+
  show "n \<le> fst (rows_rl m P cfg y st)"
    by (rule rows_rl_keeps [where I = "\<lambda>s. n \<le> fst s"]) (use rl assms in blast)+
qed

lemma light_frame_seen:
  "fst (process_frame main_settings out ret (\<lambda>_. 65535) (\<lambda>_. 0) (replicate 5 empty_code)) \<noteq> [500]"
proof -
  let ?l = "replicate 5 empty_code" and ?cfg = main_settings
  have P: "pure_b_or_w (\<lambda>_. 65535) (\<lambda>_. 0) = light_array"
    by (intro ext) (simp add: pure_b_or_w_def bin_rows_at is_light_def light_array_def)
  obtain k l1 where kl: "rows_rl False light_array ?cfg 1 (rows_lr False light_array ?cfg 1 (0, ?l)) = (k, l1)"
    by (cases "rows_rl False light_array ?cfg 1 (rows_lr False light_array ?cfg 1 (0, ?l))")
  have "\<not> in_zone_lr ?l 0 1" by (simp add: in_zone_lr_def list_ex_iff empty_code_def)
  then have "row_lr False light_array ?cfg 1 0 (0, ?l) = note_code False False 0 1 0 240 239 (0, ?l)"
    by (simp add: row_lr.simps light_array_first_step)
  then have "1 \<le> fst (row_lr False light_array ?cfg 1 0 (0, ?l))" by (simp add: note_code_def)
  then have "1 \<le> fst (rows_lr False light_array ?cfg 1 (0, ?l))"
    using noted_grows(1) [of 1 _ 2] by (simp add: rows_lr.simps [of False light_array ?cfg 1])
  then have k: "1 \<le> k" using noted_grows(2) [of 1 _ 1 False light_array ?cfg] kl by (metis fst_conv order_refl)
  have t: "table_ok False ?cfg (k, l1)"
    using scans_table [of ?l False ?cfg light_array] kl by simp
  have "report l1 \<noteq> [500]"
    using k noted_code_ok [OF t] code_mid report_eq [OF t] t
    by (cases l1) (fastforce simp: table_ok_def take_Cons')+
  then show ?thesis
    using kl by (simp add: process_frame_def P pass_lr_def pass_rl_def)
qed

text \<open>The report of a frame depends on memory outside the image array. With the settings
  \<^verbatim>\<open>app_main\<close> passes, the scan of row 1 compares each element with the one five rows above it,
  which lies before the array: for an all-light frame, nothing is found when the words there
  are not 0, and a code is reported when they are.\<close>

theorem qr_scan_reads_outside:
  "fst (process_frame main_settings out ret (\<lambda>_. 65535) (\<lambda>_. 65535) (replicate 5 empty_code)) = [500] \<and>
   fst (process_frame main_settings out ret (\<lambda>_. 65535) (\<lambda>_. 0) (replicate 5 empty_code)) \<noteq> [500]"
  by (simp add: light_frame_unseen light_frame_seen)

end
