(* ===== verification/SCCB.thy ===== *)
theory SCCB
  imports Camera_Sensor
begin

text \<open>
  The camera control bus, \<^verbatim>\<open>components/esp32-camera/driver/sccb.c\<close>. A command link is the list of
  the operations queued on it. What a transfer does is the parameter \<open>i2c\<close>: the I2C controller
  and the chip behind it, which answer a command link with a result code, the byte read (if one
  arrived) and a new state of the bus. \<open>SCCB_Write16\<close>'s static counter only feeds a log message
  and is left out.
\<close>

section \<open>Command links\<close>

datatype i2c_op = I2C_START | I2C_WRITE_BYTE u8 | I2C_READ_BYTE | I2C_STOP

type_synonym 'd i2c = "i2c_op list \<Rightarrow> 'd \<Rightarrow> esp_err_t \<times> u8 option \<times> 'd"

abbreviation WRITE_BIT :: u8 where "WRITE_BIT \<equiv> 0"
abbreviation READ_BIT :: u8 where "READ_BIT \<equiv> 1"

definition addr_byte :: "u8 \<Rightarrow> u8 \<Rightarrow> u8" where
  "addr_byte slave_addr rw = push_bit 1 slave_addr OR rw"

definition write_link :: "u8 \<Rightarrow> u8 list \<Rightarrow> i2c_op list" where
  "write_link slv_addr bytes =
    I2C_START # I2C_WRITE_BYTE (addr_byte slv_addr WRITE_BIT) # map I2C_WRITE_BYTE bytes @ [I2C_STOP]"

definition read_link :: "u8 \<Rightarrow> i2c_op list" where
  "read_link slv_addr =
    [I2C_START, I2C_WRITE_BYTE (addr_byte slv_addr READ_BIT), I2C_READ_BYTE, I2C_STOP]"

section \<open>Set-up\<close>

datatype i2c_mode_t = I2C_MODE_SLAVE | I2C_MODE_MASTER

record i2c_config_t =
  i2c_mode :: i2c_mode_t
  sda_io_num :: int
  scl_io_num :: int
  sda_pullup_en :: bool
  scl_pullup_en :: bool
  clk_speed :: nat

definition SCCB_I2C_PORT :: nat where "SCCB_I2C_PORT = 1"
definition SCCB_FREQ :: nat where "SCCB_FREQ = 100000"

text \<open>The results of the two driver calls are dropped, as in the code.\<close>

definition SCCB_Init ::
  "(nat \<Rightarrow> i2c_config_t \<Rightarrow> 'd \<Rightarrow> esp_err_t \<times> 'd) \<Rightarrow> (nat \<Rightarrow> i2c_mode_t \<Rightarrow> 'd \<Rightarrow> esp_err_t \<times> 'd) \<Rightarrow>
   int \<Rightarrow> int \<Rightarrow> 'd \<Rightarrow> int \<times> 'd" where
  "SCCB_Init i2c_param_config i2c_driver_install pin_sda pin_scl d =
    (let conf = \<lparr>i2c_mode = I2C_MODE_MASTER, sda_io_num = pin_sda, scl_io_num = pin_scl,
           sda_pullup_en = True, scl_pullup_en = True, clk_speed = SCCB_FREQ\<rparr>;
         (_, d) = i2c_param_config SCCB_I2C_PORT conf d;
         (_, d) = i2c_driver_install SCCB_I2C_PORT (i2c_mode conf) d
     in (0, d))"

definition SCCB_Deinit :: "(nat \<Rightarrow> 'd \<Rightarrow> esp_err_t \<times> 'd) \<Rightarrow> 'd \<Rightarrow> esp_err_t \<times> 'd" where
  "SCCB_Deinit i2c_driver_delete d = i2c_driver_delete SCCB_I2C_PORT d"

section \<open>Transfers\<close>

fun probe_from :: "'d i2c \<Rightarrow> u8 \<Rightarrow> camera_sensor_info_t list \<Rightarrow> 'd \<Rightarrow> u8 \<times> 'd" where
  "probe_from i2c slave_addr [] d = (0, d)"
| "probe_from i2c slave_addr (s # ss) d =
    (if slave_addr = sccb_addr s then probe_from i2c slave_addr ss d
     else case i2c (write_link (sccb_addr s) []) d of (ret, _, d) \<Rightarrow>
       if ret = ESP_OK then (sccb_addr s, d) else probe_from i2c (sccb_addr s) ss d)"

definition SCCB_Probe :: "'d i2c \<Rightarrow> 'd \<Rightarrow> u8 \<times> 'd" where
  "SCCB_Probe i2c d = probe_from i2c 0 camera_sensor d"

text \<open>The second phase of a read leaves the initial 0 in \<^verbatim>\<open>data\<close> when no byte arrives.\<close>

definition read_phase :: "'d i2c \<Rightarrow> u8 \<Rightarrow> 'd \<Rightarrow> u8 \<times> 'd" where
  "read_phase i2c slv_addr d =
    (case i2c (read_link slv_addr) d of (_, data, d) \<Rightarrow> (case data of Some b \<Rightarrow> b | None \<Rightarrow> 0, d))"

definition SCCB_Read :: "'d i2c \<Rightarrow> u8 \<Rightarrow> u8 \<Rightarrow> 'd \<Rightarrow> u8 \<times> 'd" where
  "SCCB_Read i2c slv_addr reg d =
    (case i2c (write_link slv_addr [reg]) d of (ret, _, d) \<Rightarrow>
      if ret \<noteq> ESP_OK then (-1, d) else read_phase i2c slv_addr d)"

definition SCCB_Write :: "'d i2c \<Rightarrow> u8 \<Rightarrow> u8 \<Rightarrow> u8 \<Rightarrow> 'd \<Rightarrow> u8 \<times> 'd" where
  "SCCB_Write i2c slv_addr reg data d =
    (case i2c (write_link slv_addr [reg, data]) d of (ret, _, d) \<Rightarrow>
      (if ret = ESP_OK then 0 else -1, d))"

definition LITTLETOBIG :: "u16 \<Rightarrow> u16" where
  "LITTLETOBIG x = push_bit 8 x OR drop_bit 8 x"

text \<open>\<^verbatim>\<open>reg_u8[0]\<close> and \<^verbatim>\<open>reg_u8[1]\<close> of the swapped word on the little-endian target.\<close>

definition reg_u8 :: "u16 \<Rightarrow> u8 list" where
  "reg_u8 reg = (let h = LITTLETOBIG reg in [ucast h, ucast (drop_bit 8 h)])"

definition SCCB_Read16 :: "'d i2c \<Rightarrow> u8 \<Rightarrow> u16 \<Rightarrow> 'd \<Rightarrow> u8 \<times> 'd" where
  "SCCB_Read16 i2c slv_addr reg d =
    (case i2c (write_link slv_addr (reg_u8 reg)) d of (ret, _, d) \<Rightarrow>
      if ret \<noteq> ESP_OK then (-1, d) else read_phase i2c slv_addr d)"

definition SCCB_Write16 :: "'d i2c \<Rightarrow> u8 \<Rightarrow> u16 \<Rightarrow> u8 \<Rightarrow> 'd \<Rightarrow> u8 \<times> 'd" where
  "SCCB_Write16 i2c slv_addr reg data d =
    (case i2c (write_link slv_addr (reg_u8 reg @ [data])) d of (ret, _, d) \<Rightarrow>
      (if ret = ESP_OK then 0 else -1, d))"

section \<open>Link shapes\<close>

lemma write_link_inject [simp]:
  "write_link a xs = write_link b ys \<longleftrightarrow> addr_byte a 0 = addr_byte b 0 \<and> xs = ys"
  by (auto simp: write_link_def inj_on_def inj_map_eq_map)

lemma read_link_not_write [simp]: "read_link a \<noteq> write_link b xs" "write_link b xs \<noteq> read_link a"
  by (cases xs; simp add: read_link_def write_link_def)+

lemma reg_u8_big_endian: "reg_u8 reg = [ucast (drop_bit 8 reg), ucast reg]"
proof -
  have "(ucast (LITTLETOBIG reg) :: u8) = ucast (drop_bit 8 reg)"
    by (rule bit_word_eqI) (auto simp: LITTLETOBIG_def bit_simps)
  moreover have "(ucast (drop_bit 8 (LITTLETOBIG reg)) :: u8) = ucast reg"
    by (rule bit_word_eqI) (auto simp: LITTLETOBIG_def bit_simps dest: bit_imp_le_length)
  ultimately show ?thesis by (simp add: reg_u8_def Let_def)
qed

section \<open>Probing\<close>

definition answers :: "'d i2c \<Rightarrow> u8 set \<Rightarrow> bool" where
  "answers i2c present \<longleftrightarrow> (\<forall>a d. fst (i2c (write_link a []) d) = ESP_OK \<longleftrightarrow> a \<in> present)"

text \<open>The address of the first sensor of the table whose address is acknowledged, or 0.\<close>

definition first_present :: "u8 set \<Rightarrow> camera_sensor_info_t list \<Rightarrow> u8" where
  "first_present present ss =
    (case filter (\<lambda>s. sccb_addr s \<in> present) ss of [] \<Rightarrow> 0 | s # _ \<Rightarrow> sccb_addr s)"

lemma probe_from_first:
  assumes "answers i2c present" "slave_addr \<notin> present"
  shows "fst (probe_from i2c slave_addr ss d) = first_present present ss"
  using assms(2)
proof (induction ss arbitrary: slave_addr d)
  case Nil
  then show ?case by (simp add: first_present_def)
next
  case (Cons s ss)
  show ?case
  proof (cases "slave_addr = sccb_addr s")
    case True
    then show ?thesis using Cons by (simp add: first_present_def)
  next
    case False
    obtain ret b d' where i: "i2c (write_link (sccb_addr s) []) d = (ret, b, d')"
      by (cases "i2c (write_link (sccb_addr s) []) d") auto
    have "ret = ESP_OK \<longleftrightarrow> sccb_addr s \<in> present"
      using assms(1) i unfolding answers_def by (metis fst_conv)
    then show ?thesis using Cons.IH [of "sccb_addr s" d'] False i by (simp add: first_present_def)
  qed
qed

lemma first_present_zero:
  assumes "0 \<notin> present"
  shows "first_present present ss = 0 \<longleftrightarrow> sccb_addr ` set ss \<inter> present = {}"
  using assms by (induction ss) (auto simp: first_present_def)

text \<open>A bus on which exactly the given addresses acknowledge.\<close>

definition ack_bus :: "u8 list \<Rightarrow> unit i2c" where
  "ack_bus as ops d =
    (if \<exists>a \<in> set as. ops = write_link a [] then (ESP_OK, None, d) else (ESP_FAIL, None, d))"

text \<open>Probing finds the first sensor of the table whose address is acknowledged, and
  answers 0 exactly when no address of the table is; skipping a repeated address loses
  nothing.\<close>

theorem sccb_probe_first:
  assumes "answers i2c present" "0 \<notin> present"
  shows "fst (SCCB_Probe i2c d) = first_present present camera_sensor \<and>
    (fst (SCCB_Probe i2c d) = 0 \<longleftrightarrow> sccb_addr ` set camera_sensor \<inter> present = {})"
proof -
  have "fst (SCCB_Probe i2c d) = first_present present camera_sensor"
    unfolding SCCB_Probe_def by (rule probe_from_first [OF assms])
  moreover have "first_present present camera_sensor = 0 \<longleftrightarrow>
      sccb_addr ` set camera_sensor \<inter> present = {}"
    by (rule first_present_zero [OF assms(2)])
  ultimately show ?thesis by metis
qed

theorem sccb_probe_first_witness:
  "fst (SCCB_Probe (ack_bus [0x30, 0x6E]) ()) = OV2640_SCCB_ADDR"
proof -
  let ?present = "{a. addr_byte a 0 = addr_byte 0x30 0 \<or> addr_byte a 0 = addr_byte 0x6E 0}"
  have "answers (ack_bus [0x30, 0x6E]) ?present"
    by (auto simp: answers_def ack_bus_def esp_err_defs)
  moreover have "0 \<notin> ?present" by (simp add: addr_byte_def)
  ultimately show ?thesis
    using sccb_probe_first [of "ack_bus [0x30, 0x6E]" ?present "()"]
    by (simp add: first_present_def camera_sensor_def sensor_info_def OV7725_SCCB_ADDR_def
        OV2640_SCCB_ADDR_def addr_byte_def)
qed

end
