(* ===== verification/OV2640_Settings.thy ===== *)
theory OV2640_Settings
  imports Prelude
begin

text \<open>
  The register names and values of \<^verbatim>\<open>ov2640_regs.h\<close> that the driver uses, and the tables of
  \<^verbatim>\<open>ov2640_settings.h\<close> (\<^verbatim>\<open>ESP/updated_driver_files\<close>): the register scripts sent to the OV2640
  on reset, on a change of resolution and on a change of pixel format, the level tables of the
  image controls, and the window of every aspect ratio. A script is the list of its
  (register, value) pairs up to and including the terminating pair \<open>(0, 0)\<close>.
\<close>

section \<open>Registers\<close>

abbreviation (input) R_BYPASS :: u8 where "R_BYPASS \<equiv> 0x05"
abbreviation (input) QS :: u8 where "QS \<equiv> 0x44"
abbreviation (input) CTRLI :: u8 where "CTRLI \<equiv> 0x50"
abbreviation (input) HSIZE :: u8 where "HSIZE \<equiv> 0x51"
abbreviation (input) VSIZE :: u8 where "VSIZE \<equiv> 0x52"
abbreviation (input) XOFFL :: u8 where "XOFFL \<equiv> 0x53"
abbreviation (input) YOFFL :: u8 where "YOFFL \<equiv> 0x54"
abbreviation (input) VHYX :: u8 where "VHYX \<equiv> 0x55"
abbreviation (input) TEST :: u8 where "TEST \<equiv> 0x57"
abbreviation (input) ZMOW :: u8 where "ZMOW \<equiv> 0x5A"
abbreviation (input) ZMOH :: u8 where "ZMOH \<equiv> 0x5B"
abbreviation (input) ZMHH :: u8 where "ZMHH \<equiv> 0x5C"
abbreviation (input) BPADDR :: u8 where "BPADDR \<equiv> 0x7C"
abbreviation (input) BPDATA :: u8 where "BPDATA \<equiv> 0x7D"
abbreviation (input) CTRL2 :: u8 where "CTRL2 \<equiv> 0x86"
abbreviation (input) CTRL3 :: u8 where "CTRL3 \<equiv> 0x87"
abbreviation (input) SIZEL :: u8 where "SIZEL \<equiv> 0x8C"
abbreviation (input) HSIZE8 :: u8 where "HSIZE8 \<equiv> 0xC0"
abbreviation (input) VSIZE8 :: u8 where "VSIZE8 \<equiv> 0xC1"
abbreviation (input) CTRL0 :: u8 where "CTRL0 \<equiv> 0xC2"
abbreviation (input) CTRL1 :: u8 where "CTRL1 \<equiv> 0xC3"
abbreviation (input) R_DVP_SP :: u8 where "R_DVP_SP \<equiv> 0xD3"
abbreviation (input) IMAGE_MODE :: u8 where "IMAGE_MODE \<equiv> 0xDA"
abbreviation (input) RESET :: u8 where "RESET \<equiv> 0xE0"
abbreviation (input) MC_BIST :: u8 where "MC_BIST \<equiv> 0xF9"
abbreviation (input) BANK_SEL :: u8 where "BANK_SEL \<equiv> 0xFF"
abbreviation (input) CTRLI_LP_DP :: u8 where "CTRLI_LP_DP \<equiv> 0x80"
abbreviation (input) CTRL2_DCW_EN :: u8 where "CTRL2_DCW_EN \<equiv> 0x20"
abbreviation (input) CTRL3_WPC_EN :: u8 where "CTRL3_WPC_EN \<equiv> 0x40"
abbreviation (input) R_DVP_SP_AUTO_MODE :: u8 where "R_DVP_SP_AUTO_MODE \<equiv> 0x80"
abbreviation (input) R_BYPASS_DSP_EN :: u8 where "R_BYPASS_DSP_EN \<equiv> 0x00"
abbreviation (input) R_BYPASS_DSP_BYPAS :: u8 where "R_BYPASS_DSP_BYPAS \<equiv> 0x01"
abbreviation (input) IMAGE_MODE_JPEG_EN :: u8 where "IMAGE_MODE_JPEG_EN \<equiv> 0x10"
abbreviation (input) IMAGE_MODE_YUV422 :: u8 where "IMAGE_MODE_YUV422 \<equiv> 0x00"
abbreviation (input) IMAGE_MODE_RAW10 :: u8 where "IMAGE_MODE_RAW10 \<equiv> 0x04"
abbreviation (input) IMAGE_MODE_RGB565 :: u8 where "IMAGE_MODE_RGB565 \<equiv> 0x08"
abbreviation (input) IMAGE_MODE_HREF_VSYNC :: u8 where "IMAGE_MODE_HREF_VSYNC \<equiv> 0x02"
abbreviation (input) RESET_JPEG :: u8 where "RESET_JPEG \<equiv> 0x10"
abbreviation (input) RESET_DVP :: u8 where "RESET_DVP \<equiv> 0x04"
abbreviation (input) MC_BIST_RESET :: u8 where "MC_BIST_RESET \<equiv> 0x80"
abbreviation (input) MC_BIST_BOOT_ROM_SEL :: u8 where "MC_BIST_BOOT_ROM_SEL \<equiv> 0x40"
abbreviation (input) GAIN :: u8 where "GAIN \<equiv> 0x00"
abbreviation (input) COM1 :: u8 where "COM1 \<equiv> 0x03"
abbreviation (input) REG04 :: u8 where "REG04 \<equiv> 0x04"
abbreviation (input) COM2 :: u8 where "COM2 \<equiv> 0x09"
abbreviation (input) REG_VER :: u8 where "REG_VER \<equiv> 0x0B"
abbreviation (input) COM4 :: u8 where "COM4 \<equiv> 0x0D"
abbreviation (input) AEC :: u8 where "AEC \<equiv> 0x10"
abbreviation (input) CLKRC :: u8 where "CLKRC \<equiv> 0x11"
abbreviation (input) COM7 :: u8 where "COM7 \<equiv> 0x12"
abbreviation (input) COM8 :: u8 where "COM8 \<equiv> 0x13"
abbreviation (input) COM9 :: u8 where "COM9 \<equiv> 0x14"
abbreviation (input) HSTART :: u8 where "HSTART \<equiv> 0x17"
abbreviation (input) HSTOP :: u8 where "HSTOP \<equiv> 0x18"
abbreviation (input) VSTART :: u8 where "VSTART \<equiv> 0x19"
abbreviation (input) VSTOP :: u8 where "VSTOP \<equiv> 0x1A"
abbreviation (input) REG_MIDH :: u8 where "REG_MIDH \<equiv> 0x1C"
abbreviation (input) REG_MIDL :: u8 where "REG_MIDL \<equiv> 0x1D"
abbreviation (input) AEW :: u8 where "AEW \<equiv> 0x24"
abbreviation (input) AEB :: u8 where "AEB \<equiv> 0x25"
abbreviation (input) VV :: u8 where "VV \<equiv> 0x26"
abbreviation (input) REG32 :: u8 where "REG32 \<equiv> 0x32"
abbreviation (input) ARCOM2 :: u8 where "ARCOM2 \<equiv> 0x34"
abbreviation (input) REG45 :: u8 where "REG45 \<equiv> 0x45"
abbreviation (input) BD50 :: u8 where "BD50 \<equiv> 0x4F"
abbreviation (input) BD60 :: u8 where "BD60 \<equiv> 0x50"
abbreviation (input) HISTO_LOW :: u8 where "HISTO_LOW \<equiv> 0x61"
abbreviation (input) HISTO_HIGH :: u8 where "HISTO_HIGH \<equiv> 0x62"
abbreviation (input) REG04_DEFAULT :: u8 where "REG04_DEFAULT \<equiv> 0x28"
abbreviation (input) REG04_HFLIP_IMG :: u8 where "REG04_HFLIP_IMG \<equiv> 0x80"
abbreviation (input) REG04_VFLIP_IMG :: u8 where "REG04_VFLIP_IMG \<equiv> 0x40"
abbreviation (input) REG04_VREF_EN :: u8 where "REG04_VREF_EN \<equiv> 0x10"
abbreviation (input) COM2_OUT_DRIVE_3x :: u8 where "COM2_OUT_DRIVE_3x \<equiv> 0x02"
abbreviation (input) COM7_SRST :: u8 where "COM7_SRST \<equiv> 0x80"
abbreviation (input) COM7_RES_UXGA :: u8 where "COM7_RES_UXGA \<equiv> 0x00"
abbreviation (input) COM7_RES_SVGA :: u8 where "COM7_RES_SVGA \<equiv> 0x40"
abbreviation (input) COM7_RES_CIF :: u8 where "COM7_RES_CIF \<equiv> 0x20"
abbreviation (input) COM7_COLOR_BAR :: u8 where "COM7_COLOR_BAR \<equiv> 0x02"
abbreviation (input) COM8_DEFAULT :: u8 where "COM8_DEFAULT \<equiv> 0xC0"
abbreviation (input) COM8_BNDF_EN :: u8 where "COM8_BNDF_EN \<equiv> 0x20"
abbreviation (input) COM8_AGC_EN :: u8 where "COM8_AGC_EN \<equiv> 0x04"
abbreviation (input) COM8_AEC_EN :: u8 where "COM8_AEC_EN \<equiv> 0x01"
abbreviation (input) COM9_DEFAULT :: u8 where "COM9_DEFAULT \<equiv> 0x08"
abbreviation (input) COM9_AGC_GAIN_8x :: u8 where "COM9_AGC_GAIN_8x \<equiv> 0x02"
abbreviation (input) REG32_UXGA :: u8 where "REG32_UXGA \<equiv> 0x36"
abbreviation (input) REG32_SVGA :: u8 where "REG32_SVGA \<equiv> 0x09"
abbreviation (input) REG32_CIF :: u8 where "REG32_CIF \<equiv> 0x89"

text \<open>The register banks \<^verbatim>\<open>ov2640_bank_t\<close>.\<close>

abbreviation (input) BANK_DSP :: u8 where "BANK_DSP \<equiv> 0"
abbreviation (input) BANK_SENSOR :: u8 where "BANK_SENSOR \<equiv> 1"
abbreviation (input) BANK_MAX :: u8 where "BANK_MAX \<equiv> 2"

text \<open>The function-like macros.\<close>

definition COM9_AGC_SET :: "u8 \<Rightarrow> u8" where "COM9_AGC_SET x = COM9_DEFAULT OR push_bit 5 x"
definition VV_AGC_TH_SET :: "u8 \<Rightarrow> u8 \<Rightarrow> u8" where "VV_AGC_TH_SET h l = push_bit 4 h OR (l AND 0x0F)"

section \<open>Modes, clocks and windows\<close>

datatype ov2640_sensor_mode_t = OV2640_MODE_UXGA | OV2640_MODE_SVGA | OV2640_MODE_CIF
  | OV2640_MODE_MAX

text \<open>The two bytes of \<^verbatim>\<open>ov2640_clk_t\<close> as its bit fields; \<open>clk_byte\<close> and \<open>pclk_byte\<close> are the
  union members \<^verbatim>\<open>clk\<close> and \<^verbatim>\<open>pclk\<close> (bit fields are allocated from the low bit).\<close>

record ov2640_clk_t =
  pclk_div :: u8
  pclk_auto :: u8
  clk_div :: u8
  reserved :: u8
  clk_2x :: u8

definition pclk_byte :: "ov2640_clk_t \<Rightarrow> u8" where
  "pclk_byte c = (pclk_div c AND 0x7F) OR push_bit 7 (pclk_auto c AND 1)"

definition clk_byte :: "ov2640_clk_t \<Rightarrow> u8" where
  "clk_byte c = (clk_div c AND 0x3F) OR push_bit 6 (reserved c AND 1) OR push_bit 7 (clk_2x c AND 1)"

record ov2640_ratio_settings_t =
  offset_x :: nat
  offset_y :: nat
  max_x :: nat
  max_y :: nat

definition ratio_settings :: "nat \<Rightarrow> nat \<Rightarrow> nat \<Rightarrow> nat \<Rightarrow> ov2640_ratio_settings_t" where
  "ratio_settings ox oy mx my = \<lparr>offset_x = ox, offset_y = oy, max_x = mx, max_y = my\<rparr>"

definition ratio_table :: "ov2640_ratio_settings_t list" where
  "ratio_table = [
    ratio_settings 0 0 1600 1200,
    ratio_settings 8 72 1584 1056,
    ratio_settings 0 100 1600 1000,
    ratio_settings 0 120 1600 960,
    ratio_settings 0 150 1600 900,
    ratio_settings 2 258 1596 684,
    ratio_settings 50 0 1500 1200,
    ratio_settings 200 0 1200 1200,
    ratio_settings 462 0 676 1200]"

section \<open>Scripts\<close>

type_synonym reg_table = "(u8 \<times> u8) list"

definition ov2640_settings_cif :: reg_table where
  "ov2640_settings_cif = [
    (BANK_SEL, BANK_DSP), (0x2c, 0xff), (0x2e, 0xdf), (BANK_SEL, BANK_SENSOR), (0x3c, 0x32),
    (CLKRC, 0x01), (COM2, COM2_OUT_DRIVE_3x), (REG04, REG04_DEFAULT),
    (COM8, COM8_DEFAULT OR COM8_BNDF_EN OR COM8_AGC_EN OR COM8_AEC_EN),
    (COM9, COM9_AGC_SET COM9_AGC_GAIN_8x), (0x2c, 0x0c), (0x33, 0x78), (0x3a, 0x33),
    (0x3b, 0xfB), (0x3e, 0x00), (0x43, 0x11), (0x16, 0x10), (0x39, 0x92), (0x35, 0xda),
    (0x22, 0x1a), (0x37, 0xc3), (0x23, 0x00), (ARCOM2, 0xc0), (0x06, 0x88), (0x07, 0xc0),
    (COM4, 0x87), (0x0e, 0x41), (0x4c, 0x00), (0x4a, 0x81), (0x21, 0x99), (AEW, 0x40),
    (AEB, 0x38), (VV, VV_AGC_TH_SET 8 2), (0x5c, 0x00), (0x63, 0x00), (HISTO_LOW, 0x70),
    (HISTO_HIGH, 0x80), (0x7c, 0x05), (0x20, 0x80), (0x28, 0x30), (0x6c, 0x00), (0x6d, 0x80),
    (0x6e, 0x00), (0x70, 0x02), (0x71, 0x94), (0x73, 0xc1), (0x3d, 0x34), (0x5a, 0x57),
    (BD50, 0xbb), (BD60, 0x9c), (COM7, COM7_RES_CIF), (HSTART, 0x11), (HSTOP, 0x43),
    (VSTART, 0x00), (VSTOP, 0x25), (REG32, 0x89), (0x37, 0xc0), (BD50, 0xca), (BD60, 0xa8),
    (0x6d, 0x00), (0x3d, 0x38), (BANK_SEL, BANK_DSP), (0xe5, 0x7f),
    (MC_BIST, MC_BIST_RESET OR MC_BIST_BOOT_ROM_SEL), (0x41, 0x24),
    (RESET, RESET_JPEG OR RESET_DVP), (0x76, 0xff), (0x33, 0xa0), (0x42, 0x20), (0x43, 0x18),
    (0x4c, 0x00), (CTRL3, CTRL3_WPC_EN OR 0x10), (0x88, 0x3f), (0xd7, 0x03), (0xd9, 0x10),
    (R_DVP_SP, R_DVP_SP_AUTO_MODE OR 0x02), (0xc8, 0x08), (0xc9, 0x80), (BPADDR, 0x00),
    (BPDATA, 0x00), (BPADDR, 0x03), (BPDATA, 0x48), (BPDATA, 0x48), (BPADDR, 0x08),
    (BPDATA, 0x20), (BPDATA, 0x10), (BPDATA, 0x0e), (0x90, 0x00), (0x91, 0x0e), (0x91, 0x1a),
    (0x91, 0x31), (0x91, 0x5a), (0x91, 0x69), (0x91, 0x75), (0x91, 0x7e), (0x91, 0x88),
    (0x91, 0x8f), (0x91, 0x96), (0x91, 0xa3), (0x91, 0xaf), (0x91, 0xc4), (0x91, 0xd7),
    (0x91, 0xe8), (0x91, 0x20), (0x92, 0x00), (0x93, 0x06), (0x93, 0xe3), (0x93, 0x05),
    (0x93, 0x05), (0x93, 0x00), (0x93, 0x04), (0x93, 0x00), (0x93, 0x00), (0x93, 0x00),
    (0x93, 0x00), (0x93, 0x00), (0x93, 0x00), (0x93, 0x00), (0x96, 0x00), (0x97, 0x08),
    (0x97, 0x19), (0x97, 0x02), (0x97, 0x0c), (0x97, 0x24), (0x97, 0x30), (0x97, 0x28),
    (0x97, 0x26), (0x97, 0x02), (0x97, 0x98), (0x97, 0x80), (0x97, 0x00), (0x97, 0x00),
    (0xa4, 0x00), (0xa8, 0x00), (0xc5, 0x11), (0xc6, 0x51), (0xbf, 0x80), (0xc7, 0x10),
    (0xb6, 0x66), (0xb8, 0xA5), (0xb7, 0x64), (0xb9, 0x7C), (0xb3, 0xaf), (0xb4, 0x97),
    (0xb5, 0xFF), (0xb0, 0xC5), (0xb1, 0x94), (0xb2, 0x0f), (0xc4, 0x5c), (CTRL0, 0x0C),
    (CTRL1, 0xfd), (0x7f, 0x00), (0xe5, 0x1f), (0xe1, 0x67), (0xdd, 0x7f), (IMAGE_MODE, 0x00),
    (RESET, 0x00), (R_BYPASS, R_BYPASS_DSP_EN), (0, 0)]"

definition ov2640_settings_to_cif :: reg_table where
  "ov2640_settings_to_cif = [
    (BANK_SEL, BANK_SENSOR), (COM7, COM7_RES_CIF), (COM1, 0x0A), (REG32, REG32_CIF),
    (HSTART, 0x11), (HSTOP, 0x43), (VSTART, 0x00), (VSTOP, 0x25), (BD50, 0xca), (BD60, 0xa8),
    (0x5a, 0x23), (0x6d, 0x00), (0x3d, 0x38), (0x39, 0x92), (0x35, 0xda), (0x22, 0x1a),
    (0x37, 0xc3), (0x23, 0x00), (ARCOM2, 0xc0), (0x06, 0x88), (0x07, 0xc0), (COM4, 0x87),
    (0x0e, 0x41), (0x4c, 0x00), (BANK_SEL, BANK_DSP), (RESET, RESET_DVP), (HSIZE8, 0x32),
    (VSIZE8, 0x25), (SIZEL, 0x00), (HSIZE, 0x64), (VSIZE, 0x4a), (XOFFL, 0x00), (YOFFL, 0x00),
    (VHYX, 0x00), (TEST, 0x00), (CTRL2, CTRL2_DCW_EN OR 0x1D), (CTRLI, CTRLI_LP_DP OR 0x00),
    (0, 0)]"

definition ov2640_settings_to_svga :: reg_table where
  "ov2640_settings_to_svga = [
    (BANK_SEL, BANK_SENSOR), (COM7, COM7_RES_SVGA), (COM1, 0x0A), (REG32, REG32_SVGA),
    (HSTART, 0x11), (HSTOP, 0x43), (VSTART, 0x00), (VSTOP, 0x4b), (0x37, 0xc0), (BD50, 0xca),
    (BD60, 0xa8), (0x5a, 0x23), (0x6d, 0x00), (0x3d, 0x38), (0x39, 0x92), (0x35, 0xda),
    (0x22, 0x1a), (0x37, 0xc3), (0x23, 0x00), (ARCOM2, 0xc0), (0x06, 0x88), (0x07, 0xc0),
    (COM4, 0x87), (0x0e, 0x41), (0x42, 0x03), (0x4c, 0x00), (BANK_SEL, BANK_DSP),
    (RESET, RESET_DVP), (HSIZE8, 0x64), (VSIZE8, 0x4B), (SIZEL, 0x00), (HSIZE, 0xC8),
    (VSIZE, 0x96), (XOFFL, 0x00), (YOFFL, 0x00), (VHYX, 0x00), (TEST, 0x00),
    (CTRL2, CTRL2_DCW_EN OR 0x1D), (CTRLI, CTRLI_LP_DP OR 0x00), (0, 0)]"

definition ov2640_settings_to_uxga :: reg_table where
  "ov2640_settings_to_uxga = [
    (BANK_SEL, BANK_SENSOR), (COM7, COM7_RES_UXGA), (COM1, 0x0F), (REG32, REG32_UXGA),
    (HSTART, 0x11), (HSTOP, 0x75), (VSTART, 0x01), (VSTOP, 0x97), (0x3d, 0x34), (BD50, 0xbb),
    (BD60, 0x9c), (0x5a, 0x57), (0x6d, 0x80), (0x39, 0x82), (0x23, 0x00), (0x07, 0xc0),
    (0x4c, 0x00), (0x35, 0x88), (0x22, 0x0a), (0x37, 0x40), (ARCOM2, 0xa0), (0x06, 0x02),
    (COM4, 0xb7), (0x0e, 0x01), (0x42, 0x83), (BANK_SEL, BANK_DSP), (RESET, RESET_DVP),
    (HSIZE8, 0xc8), (VSIZE8, 0x96), (SIZEL, 0x00), (HSIZE, 0x90), (VSIZE, 0x2c), (XOFFL, 0x00),
    (YOFFL, 0x00), (VHYX, 0x88), (TEST, 0x00), (CTRL2, CTRL2_DCW_EN OR 0x1d), (CTRLI, 0x00),
    (0, 0)]"

definition ov2640_settings_jpeg3 :: reg_table where
  "ov2640_settings_jpeg3 = [
    (BANK_SEL, BANK_DSP), (RESET, RESET_JPEG OR RESET_DVP),
    (IMAGE_MODE, IMAGE_MODE_JPEG_EN OR IMAGE_MODE_HREF_VSYNC), (0xD7, 0x03), (0xE1, 0x77),
    (0xE5, 0x1F), (0xD9, 0x10), (0xDF, 0x80), (0x33, 0x80), (0x3C, 0x10), (0xEB, 0x30),
    (0xDD, 0x7F), (RESET, 0x00), (0, 0)]"

definition ov2640_settings_yuv422 :: reg_table where
  "ov2640_settings_yuv422 = [
    (BANK_SEL, BANK_DSP), (RESET, RESET_DVP), (IMAGE_MODE, IMAGE_MODE_YUV422), (0xD7, 0x01),
    (0xE1, 0x67), (RESET, 0x00), (0, 0)]"

definition ov2640_settings_rgb565 :: reg_table where
  "ov2640_settings_rgb565 = [
    (BANK_SEL, BANK_DSP), (RESET, RESET_DVP), (IMAGE_MODE, IMAGE_MODE_RGB565), (0xD7, 0x03),
    (0xE1, 0x77), (RESET, 0x00), (0, 0)]"

definition ov2640_settings_RAW :: reg_table where
  "ov2640_settings_RAW = [
    (BANK_SEL, BANK_DSP), (RESET, RESET_DVP), (IMAGE_MODE, IMAGE_MODE_RAW10), (CTRL0, 0x01),
    (R_DVP_SP, R_DVP_SP_AUTO_MODE OR 0x01), (0xD7, 0x03), (0xE1, 0x77), (RESET, 0x00), (0, 0)]"

section \<open>Levels\<close>

definition NUM_BRIGHTNESS_LEVELS :: int where "NUM_BRIGHTNESS_LEVELS = 5"

definition brightness_regs :: "u8 list list" where
  "brightness_regs = [
    [BPADDR, BPDATA, BPADDR, BPDATA, BPDATA],
    [0x00, 0x04, 0x09, 0x00, 0x00],
    [0x00, 0x04, 0x09, 0x10, 0x00],
    [0x00, 0x04, 0x09, 0x20, 0x00],
    [0x00, 0x04, 0x09, 0x30, 0x00],
    [0x00, 0x04, 0x09, 0x40, 0x00]]"

definition NUM_CONTRAST_LEVELS :: int where "NUM_CONTRAST_LEVELS = 5"

definition contrast_regs :: "u8 list list" where
  "contrast_regs = [
    [BPADDR, BPDATA, BPADDR, BPDATA, BPDATA, BPDATA, BPDATA],
    [0x00, 0x04, 0x07, 0x20, 0x18, 0x34, 0x06],
    [0x00, 0x04, 0x07, 0x20, 0x1c, 0x2a, 0x06],
    [0x00, 0x04, 0x07, 0x20, 0x20, 0x20, 0x06],
    [0x00, 0x04, 0x07, 0x20, 0x24, 0x16, 0x06],
    [0x00, 0x04, 0x07, 0x20, 0x28, 0x0c, 0x06]]"

definition NUM_SATURATION_LEVELS :: int where "NUM_SATURATION_LEVELS = 5"

definition saturation_regs :: "u8 list list" where
  "saturation_regs = [
    [BPADDR, BPDATA, BPADDR, BPDATA, BPDATA],
    [0x00, 0x02, 0x03, 0x28, 0x28],
    [0x00, 0x02, 0x03, 0x38, 0x38],
    [0x00, 0x02, 0x03, 0x48, 0x48],
    [0x00, 0x02, 0x03, 0x58, 0x58],
    [0x00, 0x02, 0x03, 0x68, 0x68]]"

definition NUM_SPECIAL_EFFECTS :: int where "NUM_SPECIAL_EFFECTS = 7"

definition special_effects_regs :: "u8 list list" where
  "special_effects_regs = [
    [BPADDR, BPDATA, BPADDR, BPDATA, BPDATA],
    [0x00, 0x00, 0x05, 0x80, 0x80],
    [0x00, 0x40, 0x05, 0x80, 0x80],
    [0x00, 0x18, 0x05, 0x80, 0x80],
    [0x00, 0x18, 0x05, 0x40, 0xC0],
    [0x00, 0x18, 0x05, 0x40, 0x40],
    [0x00, 0x18, 0x05, 0xA0, 0x40],
    [0x00, 0x18, 0x05, 0x40, 0xA6]]"

definition NUM_WB_MODES :: int where "NUM_WB_MODES = 11"

definition wb_modes_regs :: "u8 list list" where
  "wb_modes_regs = [
    [0xCC, 0xCD, 0xCE],
    [0x5E, 0x41, 0x54],
    [0x65, 0x41, 0x4F],
    [0x52, 0x41, 0x66],
    [0x42, 0x3F, 0x71],
    [0x71, 0x61, 0x71],
    [0xFF, 0x00, 0x00],
    [0x00, 0xFF, 0x00],
    [0x00, 0x00, 0xFF],
    [0x00, 0x88, 0x00],
    [0xFF, 0xE1, 0xC8],
    [0xFF, 0xFF, 0xFF]]"

definition NUM_AE_LEVELS :: int where "NUM_AE_LEVELS = 5"

definition ae_levels_regs :: "u8 list list" where
  "ae_levels_regs = [
    [AEW, AEB, VV],
    [0x20, 0x18, 0x60],
    [0x34, 0x1C, 0x00],
    [0x3E, 0x38, 0x81],
    [0x48, 0x40, 0x81],
    [0x58, 0x50, 0x92]]"

definition agc_gain_tbl :: "u8 list" where
  "agc_gain_tbl = [0x00, 0x10, 0x18, 0x30, 0x34, 0x38, 0x3C, 0x70, 0x72, 0x74, 0x76, 0x78, 0x7A, 0x7C, 0x7E, 0xF0,
    0xF1, 0xF2, 0xF3, 0xF4, 0xF5, 0xF6, 0xF7, 0xF8, 0xF9, 0xFA, 0xFB, 0xFC, 0xFD, 0xFE, 0xFF]"

end
