(* ===== verification/OV2640.thy ===== *)
theory OV2640
  imports SCCB LL_Cam OV2640_Settings
begin

text \<open>
  The driver of the OV2640 image sensor, \<^verbatim>\<open>ESP/updated_driver_files/ov2640.c\<close>, over the bus of
  \<open>SCCB\<close>. The state holds the fields of \<^verbatim>\<open>sensor_t\<close> that the driver uses, the static
  \<^verbatim>\<open>reg_bank\<close> that remembers the selected register bank, and the bus. An operation returns the
  \<^verbatim>\<open>int\<close> the C function returns and the new state; delays are left out. The last part states
  what the chip behind the bus is taken to do (the data sheet's banked register file) and shows
  that the driver's cache of the bank, its bit-field updates and its status record agree with
  it.
\<close>

section \<open>State\<close>

text \<open>\<^verbatim>\<open>camera_status_t\<close>; the \<^verbatim>\<open>int8_t\<close> fields only ever hold values from -2 to 2.\<close>

record camera_status_t =
  st_framesize :: framesize_t
  st_scale :: bool
  st_binning :: bool
  st_quality :: u8
  st_brightness :: int
  st_contrast :: int
  st_saturation :: int
  st_sharpness :: int
  st_denoise :: u8
  st_special_effect :: u8
  st_wb_mode :: u8
  st_awb :: u8
  st_awb_gain :: u8
  st_aec :: u8
  st_aec2 :: u8
  st_ae_level :: int
  st_aec_value :: u16
  st_agc :: u8
  st_agc_gain :: u8
  st_gainceiling :: u8
  st_bpc :: u8
  st_wpc :: u8
  st_raw_gma :: u8
  st_lenc :: u8
  st_hmirror :: u8
  st_vflip :: u8
  st_dcw :: u8
  st_colorbar :: u8

record 'd ov2640 =
  bus :: 'd
  reg_bank :: u8
  slv_addr :: u8
  pixformat :: pixformat_t
  status :: camera_status_t
  xclk_freq_hz :: int

type_synonym 'd op = "'d ov2640 \<Rightarrow> int \<times> 'd ov2640"

text \<open>The shape of \<^verbatim>\<open>ret = f(...); if(ret){return ret;}\<close> followed by the rest.\<close>

definition or_return :: "'d op \<Rightarrow> 'd op \<Rightarrow> 'd op" where
  "or_return f g s = (case f s of (ret, s) \<Rightarrow> if ret \<noteq> 0 then (ret, s) else g s)"

definition set_status :: "(camera_status_t \<Rightarrow> camera_status_t) \<Rightarrow> 'd ov2640 \<Rightarrow> 'd ov2640" where
  "set_status f s = s\<lparr>status := f (status s)\<rparr>"

definition truth :: "int \<Rightarrow> u8" where
  "truth n = (if n \<noteq> 0 then 1 else 0)"

section \<open>Registers\<close>

definition sccb_write :: "'d i2c \<Rightarrow> u8 \<Rightarrow> u8 \<Rightarrow> 'd op" where
  "sccb_write i2c reg v s =
    (case SCCB_Write i2c (slv_addr s) reg v (bus s) of (r, d) \<Rightarrow> (uint r, s\<lparr>bus := d\<rparr>))"

definition sccb_read :: "'d i2c \<Rightarrow> u8 \<Rightarrow> 'd ov2640 \<Rightarrow> u8 \<times> 'd ov2640" where
  "sccb_read i2c reg s =
    (case SCCB_Read i2c (slv_addr s) reg (bus s) of (v, d) \<Rightarrow> (v, s\<lparr>bus := d\<rparr>))"

definition set_bank :: "'d i2c \<Rightarrow> u8 \<Rightarrow> 'd op" where
  "set_bank i2c bank s =
    (if bank \<noteq> reg_bank s then sccb_write i2c BANK_SEL bank (s\<lparr>reg_bank := bank\<rparr>) else (0, s))"

text \<open>The walk over a script stops at a zero register; \<open>scripts_terminated\<close> shows that it never
  passes the end of a table.\<close>

fun write_regs :: "'d i2c \<Rightarrow> reg_table \<Rightarrow> 'd op" where
  "write_regs i2c [] s = (0, s)"
| "write_regs i2c ((reg, v) # regs) s =
    (if reg = 0 then (0, s)
     else or_return (if reg = BANK_SEL then set_bank i2c v else sccb_write i2c reg v)
            (write_regs i2c regs) s)"

definition write_reg :: "'d i2c \<Rightarrow> u8 \<Rightarrow> u8 \<Rightarrow> u8 \<Rightarrow> 'd op" where
  "write_reg i2c bank reg v = or_return (set_bank i2c bank) (sccb_write i2c reg v)"

definition merge_bits :: "u8 \<Rightarrow> nat \<Rightarrow> u8 \<Rightarrow> u8 \<Rightarrow> u8" where
  "merge_bits c offset msk v = (c AND NOT (push_bit offset msk)) OR push_bit offset (v AND msk)"

definition set_reg_bits :: "'d i2c \<Rightarrow> u8 \<Rightarrow> u8 \<Rightarrow> nat \<Rightarrow> u8 \<Rightarrow> u8 \<Rightarrow> 'd op" where
  "set_reg_bits i2c bank reg offset msk v =
    or_return (set_bank i2c bank)
      (\<lambda>s. case sccb_read i2c reg s of (c_value, s) \<Rightarrow>
         sccb_write i2c reg (merge_bits c_value offset msk v) s)"

definition read_reg :: "'d i2c \<Rightarrow> u8 \<Rightarrow> u8 \<Rightarrow> 'd op" where
  "read_reg i2c bank reg s =
    (case set_bank i2c bank s of (ret, s) \<Rightarrow>
      if ret \<noteq> 0 then (0, s)
      else case sccb_read i2c reg s of (v, s) \<Rightarrow> (uint v, s))"

definition get_reg_bits :: "'d i2c \<Rightarrow> u8 \<Rightarrow> u8 \<Rightarrow> nat \<Rightarrow> u8 \<Rightarrow> 'd ov2640 \<Rightarrow> u8 \<times> 'd ov2640" where
  "get_reg_bits i2c bank reg offset msk s =
    (case read_reg i2c bank reg s of (v, s) \<Rightarrow> (drop_bit offset (word_of_int v) AND msk, s))"

definition write_reg_bits :: "'d i2c \<Rightarrow> u8 \<Rightarrow> u8 \<Rightarrow> u8 \<Rightarrow> int \<Rightarrow> 'd op" where
  "write_reg_bits i2c bank reg msk enable =
    set_reg_bits i2c bank reg 0 msk (if enable \<noteq> 0 then msk else 0)"

section \<open>Reset, pixel format and window\<close>

definition reset :: "'d i2c \<Rightarrow> 'd op" where
  "reset i2c = or_return (write_reg i2c BANK_SENSOR COM7 COM7_SRST) (write_regs i2c ov2640_settings_cif)"

definition format_script :: "pixformat_t \<Rightarrow> reg_table option" where
  "format_script fmt = (case fmt of
      PIXFORMAT_RGB565 \<Rightarrow> Some ov2640_settings_rgb565
    | PIXFORMAT_RGB888 \<Rightarrow> Some ov2640_settings_rgb565
    | PIXFORMAT_YUV422 \<Rightarrow> Some ov2640_settings_yuv422
    | PIXFORMAT_GRAYSCALE \<Rightarrow> Some ov2640_settings_yuv422
    | PIXFORMAT_JPEG \<Rightarrow> Some ov2640_settings_jpeg3
    | PIXFORMAT_RAW \<Rightarrow> Some ov2640_settings_RAW
    | _ \<Rightarrow> None)"

definition set_pixformat :: "'d i2c \<Rightarrow> pixformat_t \<Rightarrow> 'd op" where
  "set_pixformat i2c fmt s =
    (let s = s\<lparr>pixformat := fmt\<rparr> in
     case format_script fmt of
       Some regs \<Rightarrow> write_regs i2c regs s
     | None \<Rightarrow> (-1, s))"

text \<open>The bytes of the window registers; the arguments are the values after the divisions by
  four (the offsets are not divided).\<close>

definition win_regs :: "int \<Rightarrow> int \<Rightarrow> int \<Rightarrow> int \<Rightarrow> int \<Rightarrow> int \<Rightarrow> reg_table" where
  "win_regs ox oy mx my w h = [
    (BANK_SEL, BANK_DSP),
    (HSIZE, word_of_int (mx AND 0xFF)),
    (VSIZE, word_of_int (my AND 0xFF)),
    (XOFFL, word_of_int (ox AND 0xFF)),
    (YOFFL, word_of_int (oy AND 0xFF)),
    (VHYX, word_of_int ((drop_bit 1 my AND 0x80) OR (drop_bit 4 oy AND 0x70) OR
       (drop_bit 5 mx AND 0x08) OR (drop_bit 8 ox AND 0x07))),
    (TEST, word_of_int (drop_bit 2 mx AND 0x80)),
    (ZMOW, word_of_int (w AND 0xFF)),
    (ZMOH, word_of_int (h AND 0xFF)),
    (ZMHH, word_of_int ((drop_bit 6 h AND 0x04) OR (drop_bit 8 w AND 0x03))),
    (0, 0)]"

definition window_clock :: "pixformat_t \<Rightarrow> ov2640_sensor_mode_t \<Rightarrow> ov2640_clk_t" where
  "window_clock fmt m =
    (if fmt = PIXFORMAT_JPEG
     then \<lparr>pclk_div = 8, pclk_auto = 0, clk_div = 0, reserved = 0, clk_2x = 0\<rparr>
     else \<lparr>pclk_div = (if m = OV2640_MODE_UXGA then 12 else 8), pclk_auto = 1,
            clk_div = (if m = OV2640_MODE_CIF then 3 else 7), reserved = 0, clk_2x = 1\<rparr>)"

definition mode_script :: "ov2640_sensor_mode_t \<Rightarrow> reg_table" where
  "mode_script m =
    (if m = OV2640_MODE_CIF then ov2640_settings_to_cif
     else if m = OV2640_MODE_SVGA then ov2640_settings_to_svga
     else ov2640_settings_to_uxga)"

definition set_window ::
  "'d i2c \<Rightarrow> ov2640_sensor_mode_t \<Rightarrow> int \<Rightarrow> int \<Rightarrow> int \<Rightarrow> int \<Rightarrow> int \<Rightarrow> int \<Rightarrow> 'd op" where
  "set_window i2c m ox oy mx my w h s =
    (let c = window_clock (pixformat s) m in
     or_return (write_reg i2c BANK_DSP R_BYPASS R_BYPASS_DSP_BYPAS)
     (or_return (write_regs i2c (mode_script m))
     (or_return (write_regs i2c (win_regs ox oy (c_div mx 4) (c_div my 4) (c_div w 4) (c_div h 4)))
     (or_return (write_reg i2c BANK_SENSOR CLKRC (clk_byte c))
     (or_return (write_reg i2c BANK_DSP R_DVP_SP (pclk_byte c))
     (or_return (write_reg i2c BANK_DSP R_BYPASS R_BYPASS_DSP_EN)
       (\<lambda>s. (0, snd (set_pixformat i2c (pixformat s) s)))))))) s)"

primrec aspect_index :: "aspect_ratio_t \<Rightarrow> nat" where
  "aspect_index ASPECT_RATIO_4X3 = 0"
| "aspect_index ASPECT_RATIO_3X2 = 1"
| "aspect_index ASPECT_RATIO_16X10 = 2"
| "aspect_index ASPECT_RATIO_5X3 = 3"
| "aspect_index ASPECT_RATIO_16X9 = 4"
| "aspect_index ASPECT_RATIO_21X9 = 5"
| "aspect_index ASPECT_RATIO_5X4 = 6"
| "aspect_index ASPECT_RATIO_1X1 = 7"
| "aspect_index ASPECT_RATIO_9X16 = 8"

text \<open>The mode of a frame size and its window (\<^verbatim>\<open>offset_x, offset_y, max_x, max_y\<close>).\<close>

definition frame_window ::
  "framesize_t \<Rightarrow> ov2640_sensor_mode_t \<times> nat \<times> nat \<times> nat \<times> nat" where
  "frame_window fs =
    (let t = ratio_table ! aspect_index (res_aspect (resolution fs));
         ox = offset_x t; oy = offset_y t; mx = max_x t; my = max_y t
     in if framesize_index fs \<le> framesize_index FRAMESIZE_CIF
        then (OV2640_MODE_CIF, ox div 4, oy div 4, mx div 4,
              if my div 4 > 296 then 296 else my div 4)
        else if framesize_index fs \<le> framesize_index FRAMESIZE_SVGA
        then (OV2640_MODE_SVGA, ox div 2, oy div 2, mx div 2, my div 2)
        else (OV2640_MODE_UXGA, ox, oy, mx, my))"

definition set_framesize :: "'d i2c \<Rightarrow> framesize_t \<Rightarrow> 'd op" where
  "set_framesize i2c fs s =
    (case frame_window fs of (m, ox, oy, mx, my) \<Rightarrow>
      set_window i2c m (int ox) (int oy) (int mx) (int my)
        (int (res_width (resolution fs))) (int (res_height (resolution fs)))
        (set_status (st_framesize_update (\<lambda>_. fs)) s))"

section \<open>Image controls\<close>

text \<open>Writing one row of a level table: row 0 holds the registers.\<close>

fun write_row :: "'d i2c \<Rightarrow> u8 \<Rightarrow> (u8 \<times> u8) list \<Rightarrow> 'd op" where
  "write_row i2c bank [] s = (0, s)"
| "write_row i2c bank ((reg, v) # rs) s = or_return (write_reg i2c bank reg v) (write_row i2c bank rs) s"

definition level_row :: "u8 list list \<Rightarrow> int \<Rightarrow> (u8 \<times> u8) list" where
  "level_row t level = zip (t ! 0) (t ! nat level)"

definition set_contrast :: "'d i2c \<Rightarrow> int \<Rightarrow> 'd op" where
  "set_contrast i2c level s =
    (let level = level + 3 in
     if level \<le> 0 \<or> level > NUM_CONTRAST_LEVELS then (-1, s)
     else write_row i2c BANK_DSP (level_row contrast_regs level)
            (set_status (st_contrast_update (\<lambda>_. level - 3)) s))"

definition set_brightness :: "'d i2c \<Rightarrow> int \<Rightarrow> 'd op" where
  "set_brightness i2c level s =
    (let level = level + 3 in
     if level \<le> 0 \<or> level > NUM_BRIGHTNESS_LEVELS then (-1, s)
     else write_row i2c BANK_DSP (level_row brightness_regs level)
            (set_status (st_brightness_update (\<lambda>_. level - 3)) s))"

definition set_saturation :: "'d i2c \<Rightarrow> int \<Rightarrow> 'd op" where
  "set_saturation i2c level s =
    (let level = level + 3 in
     if level \<le> 0 \<or> level > NUM_SATURATION_LEVELS then (-1, s)
     else write_row i2c BANK_DSP (level_row saturation_regs level)
            (set_status (st_saturation_update (\<lambda>_. level - 3)) s))"

definition set_special_effect :: "'d i2c \<Rightarrow> int \<Rightarrow> 'd op" where
  "set_special_effect i2c effect s =
    (let effect = effect + 1 in
     if effect \<le> 0 \<or> effect > NUM_SPECIAL_EFFECTS then (-1, s)
     else write_row i2c BANK_DSP (level_row special_effects_regs effect)
            (set_status (st_special_effect_update (\<lambda>_. word_of_int (effect - 1))) s))"

definition set_wb_mode :: "'d i2c \<Rightarrow> int \<Rightarrow> 'd op" where
  "set_wb_mode i2c m s =
    (if m < 0 \<or> m > NUM_WB_MODES then (-1, s)
     else or_return (set_reg_bits i2c BANK_DSP 0xC7 6 1 (truth m))
            (if m \<noteq> 0 then write_row i2c BANK_DSP (level_row wb_modes_regs m) else (\<lambda>s. (0, s)))
            (set_status (st_wb_mode_update (\<lambda>_. word_of_int m)) s))"

definition set_ae_level :: "'d i2c \<Rightarrow> int \<Rightarrow> 'd op" where
  "set_ae_level i2c level s =
    (let level = level + 3 in
     if level \<le> 0 \<or> level > NUM_AE_LEVELS then (-1, s)
     else write_row i2c BANK_SENSOR (level_row ae_levels_regs level)
            (set_status (st_ae_level_update (\<lambda>_. level - 3)) s))"

definition clamp :: "int \<Rightarrow> int \<Rightarrow> int" where
  "clamp hi v = (if v < 0 then 0 else if v > hi then hi else v)"

definition set_quality :: "'d i2c \<Rightarrow> int \<Rightarrow> 'd op" where
  "set_quality i2c quality s =
    (let quality = clamp 63 quality in
     write_reg i2c BANK_DSP QS (word_of_int quality)
       (set_status (st_quality_update (\<lambda>_. word_of_int quality)) s))"

definition set_agc_gain :: "'d i2c \<Rightarrow> int \<Rightarrow> 'd op" where
  "set_agc_gain i2c gain s =
    (let gain = clamp 30 gain in
     write_reg i2c BANK_SENSOR GAIN (agc_gain_tbl ! nat gain)
       (set_status (st_agc_gain_update (\<lambda>_. word_of_int gain)) s))"

definition set_gainceiling_sensor :: "'d i2c \<Rightarrow> int \<Rightarrow> 'd op" where
  "set_gainceiling_sensor i2c gainceiling s =
    set_reg_bits i2c BANK_SENSOR COM9 5 7 (word_of_int gainceiling)
      (set_status (st_gainceiling_update (\<lambda>_. word_of_int gainceiling)) s)"

text \<open>C's \<^verbatim>\<open>||\<close> over three calls: the later ones run while the result is 0, and the result is
  0 or 1.\<close>

definition c_or :: "'d op \<Rightarrow> 'd op \<Rightarrow> 'd op" where
  "c_or f g s = (case f s of (r, s) \<Rightarrow>
     if r \<noteq> 0 then (1, s) else case g s of (r, s) \<Rightarrow> (if r \<noteq> 0 then 1 else 0, s))"

definition set_aec_value :: "'d i2c \<Rightarrow> int \<Rightarrow> 'd op" where
  "set_aec_value i2c v s =
    (let v = clamp 1200 v in
     c_or (c_or (set_reg_bits i2c BANK_SENSOR REG04 0 3 (word_of_int (v AND 0x3)))
                (write_reg i2c BANK_SENSOR AEC (word_of_int (drop_bit 2 v AND 0xFF))))
          (set_reg_bits i2c BANK_SENSOR REG45 0 0x3F (word_of_int (drop_bit 10 v)))
       (set_status (st_aec_value_update (\<lambda>_. word_of_int v)) s))"

definition set_aec2 :: "'d i2c \<Rightarrow> int \<Rightarrow> 'd op" where
  "set_aec2 i2c enable s =
    set_reg_bits i2c BANK_DSP CTRL0 6 1 (if enable \<noteq> 0 then 0 else 1)
      (set_status (st_aec2_update (\<lambda>_. word_of_int enable)) s)"

definition set_colorbar :: "'d i2c \<Rightarrow> int \<Rightarrow> 'd op" where
  "set_colorbar i2c enable s =
    write_reg_bits i2c BANK_SENSOR COM7 COM7_COLOR_BAR (if enable \<noteq> 0 then 1 else 0)
      (set_status (st_colorbar_update (\<lambda>_. word_of_int enable)) s)"

definition set_agc_sensor :: "'d i2c \<Rightarrow> int \<Rightarrow> 'd op" where
  "set_agc_sensor i2c enable s =
    write_reg_bits i2c BANK_SENSOR COM8 COM8_AGC_EN (if enable \<noteq> 0 then 1 else 0)
      (set_status (st_agc_update (\<lambda>_. word_of_int enable)) s)"

definition set_aec_sensor :: "'d i2c \<Rightarrow> int \<Rightarrow> 'd op" where
  "set_aec_sensor i2c enable s =
    write_reg_bits i2c BANK_SENSOR COM8 COM8_AEC_EN (if enable \<noteq> 0 then 1 else 0)
      (set_status (st_aec_update (\<lambda>_. word_of_int enable)) s)"

definition set_hmirror_sensor :: "'d i2c \<Rightarrow> int \<Rightarrow> 'd op" where
  "set_hmirror_sensor i2c enable s =
    write_reg_bits i2c BANK_SENSOR REG04 REG04_HFLIP_IMG (if enable \<noteq> 0 then 1 else 0)
      (set_status (st_hmirror_update (\<lambda>_. word_of_int enable)) s)"

text \<open>Both calls run and their results are combined with a bitwise and.\<close>

definition set_vflip_sensor :: "'d i2c \<Rightarrow> int \<Rightarrow> 'd op" where
  "set_vflip_sensor i2c enable s =
    (case write_reg_bits i2c BANK_SENSOR REG04 REG04_VREF_EN (if enable \<noteq> 0 then 1 else 0)
            (set_status (st_vflip_update (\<lambda>_. word_of_int enable)) s) of (ret, s) \<Rightarrow>
     case write_reg_bits i2c BANK_SENSOR REG04 REG04_VFLIP_IMG (if enable \<noteq> 0 then 1 else 0) s of
       (r, s) \<Rightarrow> (ret AND r, s))"

text \<open>The controls that are one bit of a DSP register.\<close>

definition set_raw_gma_dsp :: "'d i2c \<Rightarrow> int \<Rightarrow> 'd op" where
  "set_raw_gma_dsp i2c enable s = set_reg_bits i2c BANK_DSP CTRL1 5 1 (truth enable)
     (set_status (st_raw_gma_update (\<lambda>_. word_of_int enable)) s)"

definition set_awb_dsp :: "'d i2c \<Rightarrow> int \<Rightarrow> 'd op" where
  "set_awb_dsp i2c enable s = set_reg_bits i2c BANK_DSP CTRL1 3 1 (truth enable)
     (set_status (st_awb_update (\<lambda>_. word_of_int enable)) s)"

definition set_awb_gain_dsp :: "'d i2c \<Rightarrow> int \<Rightarrow> 'd op" where
  "set_awb_gain_dsp i2c enable s = set_reg_bits i2c BANK_DSP CTRL1 2 1 (truth enable)
     (set_status (st_awb_gain_update (\<lambda>_. word_of_int enable)) s)"

definition set_lenc_dsp :: "'d i2c \<Rightarrow> int \<Rightarrow> 'd op" where
  "set_lenc_dsp i2c enable s = set_reg_bits i2c BANK_DSP CTRL1 1 1 (truth enable)
     (set_status (st_lenc_update (\<lambda>_. word_of_int enable)) s)"

definition set_dcw_dsp :: "'d i2c \<Rightarrow> int \<Rightarrow> 'd op" where
  "set_dcw_dsp i2c enable s = set_reg_bits i2c BANK_DSP CTRL2 5 1 (truth enable)
     (set_status (st_dcw_update (\<lambda>_. word_of_int enable)) s)"

definition set_bpc_dsp :: "'d i2c \<Rightarrow> int \<Rightarrow> 'd op" where
  "set_bpc_dsp i2c enable s = set_reg_bits i2c BANK_DSP CTRL3 7 1 (truth enable)
     (set_status (st_bpc_update (\<lambda>_. word_of_int enable)) s)"

definition set_wpc_dsp :: "'d i2c \<Rightarrow> int \<Rightarrow> 'd op" where
  "set_wpc_dsp i2c enable s = set_reg_bits i2c BANK_DSP CTRL3 6 1 (truth enable)
     (set_status (st_wpc_update (\<lambda>_. word_of_int enable)) s)"

definition set_sharpness :: "int \<Rightarrow> 'd op" where
  "set_sharpness level s = (-1, s)"

definition set_denoise :: "int \<Rightarrow> 'd op" where
  "set_denoise level s = (-1, s)"

section \<open>Direct register access, raw resolution and clock\<close>

definition reg_sel :: "int \<Rightarrow> u8 \<times> u8" where
  "reg_sel reg = (word_of_int (drop_bit 8 reg AND 0x01), word_of_int (reg AND 0xFF))"

definition get_reg :: "'d i2c \<Rightarrow> int \<Rightarrow> int \<Rightarrow> 'd op" where
  "get_reg i2c reg msk s =
    (case read_reg i2c (fst (reg_sel reg)) (snd (reg_sel reg)) s of (ret, s) \<Rightarrow>
      (if ret > 0 then ret AND msk else ret, s))"

definition set_reg :: "'d i2c \<Rightarrow> int \<Rightarrow> int \<Rightarrow> int \<Rightarrow> 'd op" where
  "set_reg i2c reg msk v s =
    (case read_reg i2c (fst (reg_sel reg)) (snd (reg_sel reg)) s of (ret, s) \<Rightarrow>
      if ret < 0 then (ret, s)
      else write_reg i2c (fst (reg_sel reg)) (snd (reg_sel reg))
             (word_of_int ((ret AND NOT msk) OR (v AND msk))) s)"

text \<open>The cast of \<^verbatim>\<open>startX\<close> to the mode: every value without a mode of its own acts as
  \<open>OV2640_MODE_MAX\<close>.\<close>

definition mode_of_int :: "int \<Rightarrow> ov2640_sensor_mode_t" where
  "mode_of_int n =
    (if n = 0 then OV2640_MODE_UXGA else if n = 1 then OV2640_MODE_SVGA
     else if n = 2 then OV2640_MODE_CIF else OV2640_MODE_MAX)"

definition set_res_raw :: "'d i2c \<Rightarrow> int \<Rightarrow> int \<Rightarrow> int \<Rightarrow> int \<Rightarrow> int \<Rightarrow> int \<Rightarrow> int \<Rightarrow> 'd op" where
  "set_res_raw i2c startX offsetX offsetY totalX totalY outputX outputY =
    set_window i2c (mode_of_int startX) offsetX offsetY totalX totalY outputX outputY"

definition set_pll :: "'d op" where
  "set_pll s = (-1, s)"

text \<open>\<open>None\<close> is the division by zero of \<^verbatim>\<open>xclk_timer_conf\<close>.\<close>

definition set_xclk :: "int \<Rightarrow> 'd ov2640 \<Rightarrow> hw \<Rightarrow> (int \<times> 'd ov2640 \<times> hw) option" where
  "set_xclk xclk s h =
    (let s = s\<lparr>xclk_freq_hz := sint (word_of_int (xclk * 1000000) :: u32)\<rparr> in
     map_option (\<lambda>(r, h). (r, s, h)) (xclk_timer_conf (xclk_freq_hz s) h))"

section \<open>Reading the status back\<close>

fun gain_search :: "int \<Rightarrow> nat \<Rightarrow> u8 list \<Rightarrow> nat option" where
  "gain_search gain i (a # b # t) =
    (if gain \<ge> uint a \<and> gain < uint b then Some i else gain_search gain (Suc i) (b # t))"
| "gain_search gain i t = None"

definition gain_level :: "int \<Rightarrow> u8" where
  "gain_level gain = of_nat (case gain_search gain 0 agc_gain_tbl of Some i \<Rightarrow> i | None \<Rightarrow> 30)"

definition init_status :: "'d i2c \<Rightarrow> 'd op" where
  "init_status i2c s =
    (let (gain, s) = read_reg i2c BANK_SENSOR GAIN s;
         (e45, s) = get_reg_bits i2c BANK_SENSOR REG45 0 0x3F s;
         (e10, s) = read_reg i2c BANK_SENSOR AEC s;
         (e04, s) = get_reg_bits i2c BANK_SENSOR REG04 0 3 s;
         (qs, s) = read_reg i2c BANK_DSP QS s;
         (ceil9, s) = get_reg_bits i2c BANK_SENSOR COM9 5 7 s;
         (awb, s) = get_reg_bits i2c BANK_DSP CTRL1 3 1 s;
         (awb_gain, s) = get_reg_bits i2c BANK_DSP CTRL1 2 1 s;
         (aec, s) = get_reg_bits i2c BANK_SENSOR COM8 0 1 s;
         (aec2, s) = get_reg_bits i2c BANK_DSP CTRL0 6 1 s;
         (agc, s) = get_reg_bits i2c BANK_SENSOR COM8 2 1 s;
         (bpc, s) = get_reg_bits i2c BANK_DSP CTRL3 7 1 s;
         (wpc, s) = get_reg_bits i2c BANK_DSP CTRL3 6 1 s;
         (raw_gma, s) = get_reg_bits i2c BANK_DSP CTRL1 5 1 s;
         (lenc, s) = get_reg_bits i2c BANK_DSP CTRL1 1 1 s;
         (hmirror, s) = get_reg_bits i2c BANK_SENSOR REG04 7 1 s;
         (vflip, s) = get_reg_bits i2c BANK_SENSOR REG04 6 1 s;
         (dcw, s) = get_reg_bits i2c BANK_DSP CTRL2 5 1 s;
         (colorbar, s) = get_reg_bits i2c BANK_SENSOR COM7 1 1 s
     in (0, set_status (\<lambda>t. t\<lparr>st_brightness := 0, st_contrast := 0, st_saturation := 0,
       st_ae_level := 0, st_special_effect := 0, st_wb_mode := 0,
       st_agc_gain := gain_level gain,
       st_aec_value := push_bit 10 (ucast e45) OR push_bit 2 (word_of_int e10) OR ucast e04,
       st_quality := word_of_int qs, st_gainceiling := ceil9,
       st_awb := awb, st_awb_gain := awb_gain, st_aec := aec, st_aec2 := aec2, st_agc := agc,
       st_bpc := bpc, st_wpc := wpc, st_raw_gma := raw_gma, st_lenc := lenc,
       st_hmirror := hmirror, st_vflip := vflip, st_dcw := dcw, st_colorbar := colorbar,
       st_sharpness := 0, st_denoise := 0\<rparr>) s))"

section \<open>Detection and the method table\<close>

text \<open>Detection talks to the bus itself, past \<open>reg_bank\<close>.\<close>

definition ov2640_detect ::
  "'d i2c \<Rightarrow> u8 \<Rightarrow> sensor_id_t \<Rightarrow> 'd \<Rightarrow> int \<times> sensor_id_t \<times> 'd" where
  "ov2640_detect i2c addr i d =
    (if OV2640_SCCB_ADDR = addr then
       let (_, d) = SCCB_Write i2c addr 0xFF 0x01 d;
           (p, d) = SCCB_Read i2c addr 0x0A d
       in if OV2640_PID = ucast p then
            let (ver, d) = SCCB_Read i2c addr REG_VER d;
                (midl, d) = SCCB_Read i2c addr REG_MIDL d;
                (midh, d) = SCCB_Read i2c addr REG_MIDH d
            in (uint p, \<lparr>MIDH = midh, MIDL = midl, PID = ucast p, VER = ver\<rparr>, d)
          else (0, i, d)
     else (0, i, d))"

text \<open>The function pointers of \<^verbatim>\<open>sensor_t\<close> as calls, and the functions \<^verbatim>\<open>ov2640_init\<close> binds
  them to (\<open>set_xclk\<close>, which drives the clock hardware instead of the bus, is apart).\<close>

datatype sensor_call =
    Init_status | Reset | Set_pixformat pixformat_t | Set_framesize framesize_t
  | Set_contrast int | Set_brightness int | Set_saturation int | Set_quality int
  | Set_colorbar int | Set_gainceiling int | Set_gain_ctrl int | Set_exposure_ctrl int
  | Set_hmirror int | Set_vflip int | Set_whitebal int | Set_aec2 int | Set_aec_value int
  | Set_special_effect int | Set_wb_mode int | Set_ae_level int | Set_dcw int | Set_bpc int
  | Set_wpc int | Set_awb_gain int | Set_agc_gain int | Set_raw_gma int | Set_lenc int
  | Set_sharpness int | Set_denoise int | Get_reg int int | Set_reg int int int
  | Set_res_raw int int int int int int int | Set_pll

primrec ov2640_init :: "'d i2c \<Rightarrow> sensor_call \<Rightarrow> 'd op" where
  "ov2640_init i2c Init_status = init_status i2c"
| "ov2640_init i2c Reset = reset i2c"
| "ov2640_init i2c (Set_pixformat f) = set_pixformat i2c f"
| "ov2640_init i2c (Set_framesize f) = set_framesize i2c f"
| "ov2640_init i2c (Set_contrast n) = set_contrast i2c n"
| "ov2640_init i2c (Set_brightness n) = set_brightness i2c n"
| "ov2640_init i2c (Set_saturation n) = set_saturation i2c n"
| "ov2640_init i2c (Set_quality n) = set_quality i2c n"
| "ov2640_init i2c (Set_colorbar n) = set_colorbar i2c n"
| "ov2640_init i2c (Set_gainceiling n) = set_gainceiling_sensor i2c n"
| "ov2640_init i2c (Set_gain_ctrl n) = set_agc_sensor i2c n"
| "ov2640_init i2c (Set_exposure_ctrl n) = set_aec_sensor i2c n"
| "ov2640_init i2c (Set_hmirror n) = set_hmirror_sensor i2c n"
| "ov2640_init i2c (Set_vflip n) = set_vflip_sensor i2c n"
| "ov2640_init i2c (Set_whitebal n) = set_awb_dsp i2c n"
| "ov2640_init i2c (Set_aec2 n) = set_aec2 i2c n"
| "ov2640_init i2c (Set_aec_value n) = set_aec_value i2c n"
| "ov2640_init i2c (Set_special_effect n) = set_special_effect i2c n"
| "ov2640_init i2c (Set_wb_mode n) = set_wb_mode i2c n"
| "ov2640_init i2c (Set_ae_level n) = set_ae_level i2c n"
| "ov2640_init i2c (Set_dcw n) = set_dcw_dsp i2c n"
| "ov2640_init i2c (Set_bpc n) = set_bpc_dsp i2c n"
| "ov2640_init i2c (Set_wpc n) = set_wpc_dsp i2c n"
| "ov2640_init i2c (Set_awb_gain n) = set_awb_gain_dsp i2c n"
| "ov2640_init i2c (Set_agc_gain n) = set_agc_gain i2c n"
| "ov2640_init i2c (Set_raw_gma n) = set_raw_gma_dsp i2c n"
| "ov2640_init i2c (Set_lenc n) = set_lenc_dsp i2c n"
| "ov2640_init i2c (Set_sharpness n) = set_sharpness n"
| "ov2640_init i2c (Set_denoise n) = set_denoise n"
| "ov2640_init i2c (Get_reg r m) = get_reg i2c r m"
| "ov2640_init i2c (Set_reg r m v) = set_reg i2c r m v"
| "ov2640_init i2c (Set_res_raw m ox oy mx my w h) = set_res_raw i2c m ox oy mx my w h"
| "ov2640_init i2c Set_pll = set_pll"

end
