(* ===== verification/OV2640_Chip.thy ===== *)
theory OV2640_Chip
  imports OV2640
begin

text \<open>
  The OV2640 driver against the chip: the banked register file of the data sheet as a law about
  the bus, the interface \<open>banked_registers\<close> that the driver's register functions provide on a
  chip obeying it, and the properties of the driver that rest on that interface.
\<close>

section \<open>The chip\<close>

text \<open>How the state of the bus is read as a chip: the selected bank, the registers by bank and
  number, and the register number a read will answer for.\<close>

record 'd chip_view =
  chip_bank :: "'d \<Rightarrow> u8"
  chip_reg :: "'d \<Rightarrow> u8 \<times> u8 \<Rightarrow> u8"
  chip_ptr :: "'d \<Rightarrow> u8"

text \<open>A write to \<^verbatim>\<open>COM7\<close> that starts a system reset.\<close>

definition starts_reset :: "'d chip_view \<Rightarrow> 'd \<Rightarrow> u8 \<Rightarrow> u8 \<Rightarrow> bool" where
  "starts_reset V d reg v \<longleftrightarrow> chip_bank V d = BANK_SENSOR \<and> reg = COM7 \<and> bit v 7"

text \<open>Writing a register. Only writing \<^verbatim>\<open>BANK_SEL\<close> moves the bank; a write that succeeds stores its
  value. The registers in \<open>plain\<close> are those that only change when they are written.\<close>

definition write_law :: "'d i2c \<Rightarrow> u8 \<Rightarrow> 'd chip_view \<Rightarrow> (u8 \<times> u8) set \<Rightarrow> bool" where
  "write_law i2c a V plain \<longleftrightarrow>
    (\<forall>reg v d ret b d'. i2c (write_link a [reg, v]) d = (ret, b, d') \<longrightarrow> \<not> starts_reset V d reg v \<longrightarrow>
      (reg \<noteq> BANK_SEL \<longrightarrow> chip_bank V d' = chip_bank V d) \<and>
      (ret = ESP_OK \<longrightarrow> (reg = BANK_SEL \<longrightarrow> chip_bank V d' = v) \<and>
        (\<forall>k \<in> plain. chip_reg V d' k =
          (if reg \<noteq> BANK_SEL \<and> k = (chip_bank V d, reg) then v else chip_reg V d k))))"

text \<open>Sending a register number and reading a byte. The reset bit of \<^verbatim>\<open>COM7\<close> reads as 0.\<close>

definition pointer_law :: "'d i2c \<Rightarrow> u8 \<Rightarrow> 'd chip_view \<Rightarrow> (u8 \<times> u8) set \<Rightarrow> bool" where
  "pointer_law i2c a V plain \<longleftrightarrow>
    (\<forall>reg d ret b d'. i2c (write_link a [reg]) d = (ret, b, d') \<longrightarrow>
      chip_bank V d' = chip_bank V d \<and> (\<forall>k \<in> plain. chip_reg V d' k = chip_reg V d k) \<and>
      (ret = ESP_OK \<longrightarrow> chip_ptr V d' = reg))"

definition read_law :: "'d i2c \<Rightarrow> u8 \<Rightarrow> 'd chip_view \<Rightarrow> (u8 \<times> u8) set \<Rightarrow> bool" where
  "read_law i2c a V plain \<longleftrightarrow>
    (\<forall>d ret b d'. i2c (read_link a) d = (ret, b, d') \<longrightarrow>
      chip_bank V d' = chip_bank V d \<and> (\<forall>k \<in> plain. chip_reg V d' k = chip_reg V d k) \<and>
      (ret = ESP_OK \<longrightarrow> (\<exists>v. b = Some v \<and>
        ((chip_bank V d, chip_ptr V d) \<in> plain \<longrightarrow> v = chip_reg V d (chip_bank V d, chip_ptr V d)) \<and>
        (chip_bank V d = BANK_SENSOR \<and> chip_ptr V d = COM7 \<longrightarrow> \<not> bit v 7))))"

definition plain_regs :: "(u8 \<times> u8) set \<Rightarrow> bool" where
  "plain_regs plain \<longleftrightarrow> (BANK_SENSOR, COM7) \<notin> plain \<and>
    (\<forall>b r. (b, r) \<in> plain \<longrightarrow> b \<noteq> BANK_MAX \<and> r \<noteq> BANK_SEL)"

definition chip_law :: "'d i2c \<Rightarrow> u8 \<Rightarrow> 'd chip_view \<Rightarrow> (u8 \<times> u8) set \<Rightarrow> bool" where
  "chip_law i2c a V plain \<longleftrightarrow> plain_regs plain \<and> write_law i2c a V plain \<and>
    pointer_law i2c a V plain \<and> read_law i2c a V plain"

text \<open>Which transfers are known to succeed.\<close>

definition reads_succeed :: "'d i2c \<Rightarrow> u8 \<Rightarrow> bool" where
  "reads_succeed i2c a \<longleftrightarrow> (\<forall>reg d. fst (i2c (write_link a [reg]) d) = ESP_OK) \<and>
    (\<forall>d. fst (i2c (read_link a) d) = ESP_OK)"

definition selects_succeed :: "'d i2c \<Rightarrow> u8 \<Rightarrow> bool" where
  "selects_succeed i2c a \<longleftrightarrow> (\<forall>v d. fst (i2c (write_link a [BANK_SEL, v]) d) = ESP_OK)"

definition writes_succeed :: "'d i2c \<Rightarrow> u8 \<Rightarrow> bool" where
  "writes_succeed i2c a \<longleftrightarrow> (\<forall>reg v d. fst (i2c (write_link a [reg, v]) d) = ESP_OK)"

text \<open>The cached bank is the selected one, or none is cached.\<close>

definition coherent :: "'d chip_view \<Rightarrow> 'd ov2640 \<Rightarrow> bool" where
  "coherent V s \<longleftrightarrow> reg_bank s = BANK_MAX \<or> chip_bank V (bus s) = reg_bank s"

section \<open>What the register functions leave alone\<close>

definition frame :: "'d ov2640 \<Rightarrow> 'd ov2640 \<Rightarrow> bool" where
  "frame s s' \<longleftrightarrow> slv_addr s' = slv_addr s \<and> status s' = status s \<and> pixformat s' = pixformat s \<and>
    xclk_freq_hz s' = xclk_freq_hz s"

lemma frame_refl [simp]: "frame s s"
  by (simp add: frame_def)

lemma frame_trans: "frame s t \<Longrightarrow> frame t u \<Longrightarrow> frame s u"
  by (simp add: frame_def)

lemma or_return_simps:
  "snd (or_return f g s) = (if fst (f s) \<noteq> 0 then snd (f s) else snd (g (snd (f s))))"
  "fst (or_return f g s) = (if fst (f s) \<noteq> 0 then fst (f s) else fst (g (snd (f s))))"
  by (simp_all add: or_return_def split: prod.splits)

lemma frame_or_return:
  assumes "frame s (snd (f s))" "\<And>s. frame s (snd (g s))"
  shows "frame s (snd (or_return f g s))"
  unfolding or_return_simps using assms(1) assms(2) [of "snd (f s)"] frame_trans by auto

lemma frame_sccb_write [simp]: "frame s (snd (sccb_write i2c r v s))"
  by (simp add: sccb_write_def frame_def split: prod.splits)

lemma frame_sccb_read [simp]: "frame s (snd (sccb_read i2c r s))"
  by (simp add: sccb_read_def frame_def split: prod.splits)

lemma frame_set_bank [simp]: "frame s (snd (set_bank i2c b s))"
  using frame_sccb_write [of "s\<lparr>reg_bank := b\<rparr>" i2c BANK_SEL b]
  by (simp add: set_bank_def frame_def)

lemma frame_write_reg [simp]: "frame s (snd (write_reg i2c b r v s))"
  by (simp add: write_reg_def frame_or_return)

lemma frame_set_reg_bits [simp]: "frame s (snd (set_reg_bits i2c b r off m v s))"
  unfolding set_reg_bits_def
  by (rule frame_or_return)
    (simp_all add: case_prod_beta frame_trans [OF frame_sccb_read frame_sccb_write])

lemma frame_read_reg [simp]: "frame s (snd (read_reg i2c b r s))"
  using frame_trans [OF frame_set_bank [of s i2c b] frame_sccb_read]
  by (simp add: read_reg_def case_prod_beta)

lemma frame_get_reg_bits [simp]: "frame s (snd (get_reg_bits i2c b r off m s))"
  by (simp add: get_reg_bits_def case_prod_beta)

lemma frame_write_regs [simp]: "frame s (snd (write_regs i2c t s))"
proof (induction t arbitrary: s)
  case (Cons e t)
  then show ?case by (cases e) (simp add: frame_or_return)
qed simp

lemma frame_write_row [simp]: "frame s (snd (write_row i2c b t s))"
proof (induction t arbitrary: s)
  case (Cons e t)
  then show ?case by (cases e) (simp add: frame_or_return)
qed simp

section \<open>Transfers on the chip\<close>

text \<open>\<open>steady\<close>: the chip obeys its law, reads and bank selections get through, and the bank cache
  is right.\<close>

lemma uint_u8_max [simp]: "uint (- 1 :: u8) = 255"
  by (simp add: unsigned_minus_1_eq_mask mask_eq_exp_minus_1)

definition on_chip :: "'d i2c \<Rightarrow> 'd chip_view \<Rightarrow> (u8 \<times> u8) set \<Rightarrow> 'd ov2640 \<Rightarrow> bool" where
  "on_chip i2c V plain s \<longleftrightarrow> chip_law i2c (slv_addr s) V plain \<and> reads_succeed i2c (slv_addr s)"

definition steady :: "'d i2c \<Rightarrow> 'd chip_view \<Rightarrow> (u8 \<times> u8) set \<Rightarrow> 'd ov2640 \<Rightarrow> bool" where
  "steady i2c V plain s \<longleftrightarrow>
    on_chip i2c V plain s \<and> selects_succeed i2c (slv_addr s) \<and> coherent V s"

lemma on_chip_frame: "frame s s' \<Longrightarrow> on_chip i2c V plain s' = on_chip i2c V plain s"
  by (simp add: on_chip_def frame_def)

lemmas on_chip_steps [simp] =
  on_chip_frame [OF frame_sccb_write] on_chip_frame [OF frame_sccb_read]
  on_chip_frame [OF frame_set_bank] on_chip_frame [OF frame_write_reg]
  on_chip_frame [OF frame_set_reg_bits] on_chip_frame [OF frame_read_reg]

lemma sccb_write_ok:
  assumes "on_chip i2c V plain s" "\<not> starts_reset V (bus s) reg v"
  defines "s' \<equiv> snd (sccb_write i2c reg v s)"
  shows "reg \<noteq> BANK_SEL \<Longrightarrow> chip_bank V (bus s') = chip_bank V (bus s)"
    and "fst (sccb_write i2c reg v s) = 0 \<Longrightarrow> reg = BANK_SEL \<Longrightarrow> chip_bank V (bus s') = v"
    and "fst (sccb_write i2c reg v s) = 0 \<Longrightarrow> k \<in> plain \<Longrightarrow> chip_reg V (bus s') k =
      (if reg \<noteq> BANK_SEL \<and> k = (chip_bank V (bus s), reg) then v else chip_reg V (bus s) k)"
    and "reg_bank s' = reg_bank s"
proof -
  obtain ret b d' where i: "i2c (write_link (slv_addr s) [reg, v]) (bus s) = (ret, b, d')"
    by (cases "i2c (write_link (slv_addr s) [reg, v]) (bus s)") auto
  have w: "(reg \<noteq> BANK_SEL \<longrightarrow> chip_bank V d' = chip_bank V (bus s)) \<and>
      (ret = ESP_OK \<longrightarrow> (reg = BANK_SEL \<longrightarrow> chip_bank V d' = v) \<and>
        (\<forall>k \<in> plain. chip_reg V d' k =
          (if reg \<noteq> BANK_SEL \<and> k = (chip_bank V (bus s), reg) then v else chip_reg V (bus s) k)))"
    using assms(1,2) i unfolding on_chip_def chip_law_def write_law_def by blast
  have e: "s' = s\<lparr>bus := d'\<rparr>" "fst (sccb_write i2c reg v s) = 0 \<longleftrightarrow> ret = ESP_OK"
    using i by (simp_all add: s'_def sccb_write_def SCCB_Write_def)
  show "reg \<noteq> BANK_SEL \<Longrightarrow> chip_bank V (bus s') = chip_bank V (bus s)"
    "fst (sccb_write i2c reg v s) = 0 \<Longrightarrow> reg = BANK_SEL \<Longrightarrow> chip_bank V (bus s') = v"
    "fst (sccb_write i2c reg v s) = 0 \<Longrightarrow> k \<in> plain \<Longrightarrow> chip_reg V (bus s') k =
      (if reg \<noteq> BANK_SEL \<and> k = (chip_bank V (bus s), reg) then v else chip_reg V (bus s) k)"
    "reg_bank s' = reg_bank s"
    using w e by auto
qed

lemma sccb_read_ok:
  fixes reg :: u8
  assumes "on_chip i2c V plain s"
  defines "s' \<equiv> snd (sccb_read i2c reg s)" and "v \<equiv> fst (sccb_read i2c reg s)"
  shows "chip_bank V (bus s') = chip_bank V (bus s)"
    and "k \<in> plain \<Longrightarrow> chip_reg V (bus s') k = chip_reg V (bus s) k"
    and "(chip_bank V (bus s), reg) \<in> plain \<Longrightarrow> v = chip_reg V (bus s) (chip_bank V (bus s), reg)"
    and "chip_bank V (bus s) = BANK_SENSOR \<Longrightarrow> reg = COM7 \<Longrightarrow> \<not> bit v 7"
    and "reg_bank s' = reg_bank s"
proof -
  obtain ret b d1 where i: "i2c (write_link (slv_addr s) [reg]) (bus s) = (ret, b, d1)"
    by (cases "i2c (write_link (slv_addr s) [reg]) (bus s)") auto
  obtain ret2 b2 d2 where j: "i2c (read_link (slv_addr s)) d1 = (ret2, b2, d2)"
    by (cases "i2c (read_link (slv_addr s)) d1") auto
  have r: "ret = ESP_OK" "ret2 = ESP_OK"
    using assms(1) i j unfolding on_chip_def reads_succeed_def by (metis fst_conv)+
  have p: "chip_bank V d1 = chip_bank V (bus s)" "\<forall>k \<in> plain. chip_reg V d1 k = chip_reg V (bus s) k"
    "chip_ptr V d1 = reg"
    using assms(1) i r unfolding on_chip_def chip_law_def pointer_law_def by blast+
  obtain x where q: "chip_bank V d2 = chip_bank V d1" "\<forall>k \<in> plain. chip_reg V d2 k = chip_reg V d1 k"
    "b2 = Some x" "(chip_bank V d1, chip_ptr V d1) \<in> plain \<longrightarrow> x = chip_reg V d1 (chip_bank V d1, chip_ptr V d1)"
    "chip_bank V d1 = BANK_SENSOR \<and> chip_ptr V d1 = COM7 \<longrightarrow> \<not> bit x 7"
    using assms(1) j r unfolding on_chip_def chip_law_def read_law_def by blast
  have e: "s' = s\<lparr>bus := d2\<rparr>" "v = x"
    using i j r q(3) by (simp_all add: s'_def v_def sccb_read_def SCCB_Read_def read_phase_def)
  show "chip_bank V (bus s') = chip_bank V (bus s)"
    "k \<in> plain \<Longrightarrow> chip_reg V (bus s') k = chip_reg V (bus s) k"
    "(chip_bank V (bus s), reg) \<in> plain \<Longrightarrow> v = chip_reg V (bus s) (chip_bank V (bus s), reg)"
    "chip_bank V (bus s) = BANK_SENSOR \<Longrightarrow> reg = COM7 \<Longrightarrow> \<not> bit v 7"
    "reg_bank s' = reg_bank s"
    using p q e by auto
qed

section \<open>The register functions as banked registers\<close>

lemma set_bank_ok:
  assumes "on_chip i2c V plain s" "coherent V s" "bank \<noteq> BANK_MAX"
    and "fst (set_bank i2c bank s) = 0"
  defines "s' \<equiv> snd (set_bank i2c bank s)"
  shows "chip_bank V (bus s') = bank" "reg_bank s' = bank"
    and "k \<in> plain \<Longrightarrow> chip_reg V (bus s') k = chip_reg V (bus s) k"
    and "on_chip i2c V plain s'"
proof -
  let ?t = "s\<lparr>reg_bank := bank\<rparr>"
  have t: "on_chip i2c V plain ?t" "\<not> starts_reset V (bus ?t) BANK_SEL bank"
    using assms(1) by (simp_all add: on_chip_def starts_reset_def)
  note w = sccb_write_ok [OF t]
  show "chip_bank V (bus s') = bank" "reg_bank s' = bank"
    "k \<in> plain \<Longrightarrow> chip_reg V (bus s') k = chip_reg V (bus s) k"
    using w assms(2-4) by (auto simp: s'_def set_bank_def coherent_def split: if_splits)
  show "on_chip i2c V plain s'"
    using assms(1) by (simp add: s'_def)
qed

lemma plain_reg:
  assumes "on_chip i2c V plain s" "(bank, reg) \<in> plain"
  shows "bank \<noteq> BANK_MAX" "reg \<noteq> BANK_SEL" "(bank, reg) \<noteq> (BANK_SENSOR, COM7)"
  using assms unfolding on_chip_def chip_law_def plain_regs_def by auto

text \<open>A store of the selected bank's register.\<close>

lemma plain_write:
  assumes "on_chip i2c V plain s" "chip_bank V (bus s) = bank" "reg_bank s = bank"
    and "(bank, reg) \<in> plain" "fst (sccb_write i2c reg v s) = 0"
  defines "s' \<equiv> snd (sccb_write i2c reg v s)"
  shows "on_chip i2c V plain s' \<and> coherent V s' \<and>
    (\<forall>k \<in> plain. chip_reg V (bus s') k = (if k = (bank, reg) then v else chip_reg V (bus s) k))"
proof -
  have p: "bank \<noteq> BANK_MAX" "reg \<noteq> BANK_SEL" "(bank, reg) \<noteq> (BANK_SENSOR, COM7)"
    by (rule plain_reg [OF assms(1,4)])+
  then have n: "\<not> starts_reset V (bus s) reg v"
    using assms(2) by (auto simp: starts_reset_def)
  have "on_chip i2c V plain s'"
    using assms(1) by (simp add: s'_def)
  then show ?thesis
    using sccb_write_ok [OF assms(1) n] assms(2,3,5) p by (simp add: s'_def coherent_def)
qed

text \<open>The interface the rest of the driver is written against: a bank and a register number name
  a cell; writing, reading and updating bits of a cell.\<close>

locale banked_registers =
  fixes ready :: "'s \<Rightarrow> bool"
    and cell :: "'s \<Rightarrow> u8 \<times> u8 \<Rightarrow> u8"
    and cells :: "(u8 \<times> u8) set"
    and wr :: "u8 \<Rightarrow> u8 \<Rightarrow> u8 \<Rightarrow> 's \<Rightarrow> int \<times> 's"
    and rd :: "u8 \<Rightarrow> u8 \<Rightarrow> 's \<Rightarrow> int \<times> 's"
    and upd :: "u8 \<Rightarrow> u8 \<Rightarrow> nat \<Rightarrow> u8 \<Rightarrow> u8 \<Rightarrow> 's \<Rightarrow> int \<times> 's"
  assumes wr_cell: "ready s \<Longrightarrow> (b, r) \<in> cells \<Longrightarrow> fst (wr b r v s) = 0 \<Longrightarrow>
      ready (snd (wr b r v s)) \<and>
      (\<forall>k \<in> cells. cell (snd (wr b r v s)) k = (if k = (b, r) then v else cell s k))"
    and rd_cell: "ready s \<Longrightarrow> (b, r) \<in> cells \<Longrightarrow>
      fst (rd b r s) = uint (cell s (b, r)) \<and> ready (snd (rd b r s)) \<and>
      (\<forall>k \<in> cells. cell (snd (rd b r s)) k = cell s k)"
    and upd_cell: "ready s \<Longrightarrow> (b, r) \<in> cells \<Longrightarrow> fst (upd b r off m v s) = 0 \<Longrightarrow>
      ready (snd (upd b r off m v s)) \<and>
      (\<forall>k \<in> cells. cell (snd (upd b r off m v s)) k =
        (if k = (b, r) then merge_bits (cell s k) off m v else cell s k))"
begin

lemma rd_after_wr:
  assumes "ready s" "(b, r) \<in> cells" "fst (wr b r v s) = 0" "(c, q) \<in> cells"
  shows "fst (rd c q (snd (wr b r v s))) = uint (if (c, q) = (b, r) then v else cell s (c, q))"
  using wr_cell [OF assms(1-3)] rd_cell assms(4) by simp

lemma rd_after_upd:
  assumes "ready s" "(b, r) \<in> cells" "fst (upd b r off m v s) = 0" "(c, q) \<in> cells"
  shows "fst (rd c q (snd (upd b r off m v s))) =
    uint (if (c, q) = (b, r) then merge_bits (cell s (c, q)) off m v else cell s (c, q))"
  using upd_cell [OF assms(1-3)] rd_cell assms(4) by simp

end

lemma write_reg_cell:
  assumes "steady i2c V plain s" "(b, r) \<in> plain" "fst (write_reg i2c b r v s) = 0"
  defines "s' \<equiv> snd (write_reg i2c b r v s)"
  shows "steady i2c V plain s' \<and>
    (\<forall>k \<in> plain. chip_reg V (bus s') k = (if k = (b, r) then v else chip_reg V (bus s) k))"
proof -
  have o: "on_chip i2c V plain s" "coherent V s" using assms(1) by (simp_all add: steady_def)
  have z: "fst (set_bank i2c b s) = 0" "fst (sccb_write i2c r v (snd (set_bank i2c b s))) = 0"
    using assms(3) by (simp_all add: write_reg_def or_return_simps split: if_splits)
  have e: "s' = snd (sccb_write i2c r v (snd (set_bank i2c b s)))"
    using z by (simp add: s'_def write_reg_def or_return_simps)
  note b = set_bank_ok [OF o plain_reg(1) [OF o(1) assms(2)] z(1)]
  have "selects_succeed i2c (slv_addr s')"
    using assms(1) frame_write_reg [of s i2c b r v] by (simp add: steady_def frame_def s'_def)
  then show ?thesis
    using plain_write [OF b(4,1,2) assms(2) z(2)] b(3) by (simp add: e steady_def)
qed

lemma set_bank_steady:
  assumes "steady i2c V plain s" "b \<noteq> BANK_MAX"
  shows "fst (set_bank i2c b s) = 0"
  using assms(1)
  by (simp add: steady_def set_bank_def sccb_write_def SCCB_Write_def selects_succeed_def
      case_prod_beta)

lemma coherent_bankI: "chip_bank V (bus s) = b \<Longrightarrow> reg_bank s = b \<Longrightarrow> coherent V s"
  by (simp add: coherent_def)

lemma read_reg_cell:
  assumes "steady i2c V plain s" "(b, r) \<in> plain"
  defines "s' \<equiv> snd (read_reg i2c b r s)"
  shows "fst (read_reg i2c b r s) = uint (chip_reg V (bus s) (b, r)) \<and> steady i2c V plain s' \<and>
    (\<forall>k \<in> plain. chip_reg V (bus s') k = chip_reg V (bus s) k)"
proof -
  have o: "on_chip i2c V plain s" "coherent V s" using assms(1) by (simp_all add: steady_def)
  have z: "fst (set_bank i2c b s) = 0"
    by (rule set_bank_steady [OF assms(1) plain_reg(1) [OF o(1) assms(2)]])
  let ?t = "snd (set_bank i2c b s)"
  note b = set_bank_ok [OF o plain_reg(1) [OF o(1) assms(2)] z]
  note r = sccb_read_ok [OF b(4), where reg = r]
  have e: "s' = snd (sccb_read i2c r ?t)" "fst (read_reg i2c b r s) = uint (fst (sccb_read i2c r ?t))"
    using z by (simp_all add: s'_def read_reg_def case_prod_beta)
  have "selects_succeed i2c (slv_addr s')"
    using assms(1) frame_read_reg [of s i2c b r] by (simp add: steady_def frame_def s'_def)
  moreover have "coherent V s'" using r(1,5) b(1,2) by (simp add: e coherent_bankI)
  ultimately show ?thesis using r b assms(2) o(1) by (simp add: e steady_def)
qed

lemma set_reg_bits_cell:
  assumes "steady i2c V plain s" "(b, r) \<in> plain" "fst (set_reg_bits i2c b r off m v s) = 0"
  defines "s' \<equiv> snd (set_reg_bits i2c b r off m v s)"
  shows "steady i2c V plain s' \<and> (\<forall>k \<in> plain. chip_reg V (bus s') k =
    (if k = (b, r) then merge_bits (chip_reg V (bus s) k) off m v else chip_reg V (bus s) k))"
proof -
  have o: "on_chip i2c V plain s" "coherent V s" using assms(1) by (simp_all add: steady_def)
  let ?t = "snd (set_bank i2c b s)"
  let ?u = "snd (sccb_read i2c r ?t)"
  have z: "fst (set_bank i2c b s) = 0"
    by (rule set_bank_steady [OF assms(1) plain_reg(1) [OF o(1) assms(2)]])
  note b = set_bank_ok [OF o plain_reg(1) [OF o(1) assms(2)] z]
  note r = sccb_read_ok [OF b(4), where reg = r]
  let ?n = "merge_bits (chip_reg V (bus s) (b, r)) off m v"
  have c: "fst (sccb_read i2c r ?t) = chip_reg V (bus s) (b, r)"
    using r(3) b(1,3) assms(2) by simp
  have e: "s' = snd (sccb_write i2c r ?n ?u)" "fst (sccb_write i2c r ?n ?u) = 0"
    using z c assms(3) by (simp_all add: s'_def set_reg_bits_def or_return_simps case_prod_beta)
  have u: "on_chip i2c V plain ?u" "chip_bank V (bus ?u) = b" "reg_bank ?u = b"
    using b r by simp_all
  have "selects_succeed i2c (slv_addr s')"
    using assms(1) frame_set_reg_bits [of s i2c b r off m v] by (simp add: steady_def frame_def s'_def)
  moreover have "chip_reg V (bus ?u) k = chip_reg V (bus s) k" if "k \<in> plain" for k
    using r(2) b(3) that by simp
  ultimately show ?thesis
    using plain_write [OF u assms(2) e(2)] by (auto simp: e(1) steady_def)
qed

interpretation chip: banked_registers "steady i2c V plain" "\<lambda>s. chip_reg V (bus s)" plain
  "write_reg i2c" "read_reg i2c" "set_reg_bits i2c" for i2c V plain
  by unfold_locales (erule (2) write_reg_cell | erule (1) read_reg_cell | erule (2) set_reg_bits_cell)+

section \<open>The bank cache\<close>

definition keeps :: "('s \<Rightarrow> bool) \<Rightarrow> ('s \<Rightarrow> 'r \<times> 's) \<Rightarrow> bool" where
  "keeps P f \<longleftrightarrow> (\<forall>s. P s \<longrightarrow> P (snd (f s)))"

named_theorems keeps_intros \<open>operations that keep the driver steady\<close>

lemma keepsD: "keeps P f \<Longrightarrow> P s \<Longrightarrow> P (snd (f s))"
  by (simp add: keeps_def)

lemma keeps_skip [keeps_intros]: "keeps P (\<lambda>s. (r, s))"
  by (simp add: keeps_def)

lemma keeps_or_return [keeps_intros]: "keeps P f \<Longrightarrow> keeps P g \<Longrightarrow> keeps P (or_return f g)"
  by (simp add: keeps_def or_return_simps)

lemma keeps_c_or [keeps_intros]: "keeps P f \<Longrightarrow> keeps P g \<Longrightarrow> keeps P (c_or f g)"
  by (simp add: keeps_def c_or_def case_prod_beta)

lemma steady_frame:
  assumes "frame s s'" "bus s' = bus s" "reg_bank s' = reg_bank s"
  shows "steady i2c V plain s' = steady i2c V plain s"
  using assms by (simp add: steady_def on_chip_def coherent_def frame_def)

lemma steady_set_status [simp]: "steady i2c V plain (set_status f s) = steady i2c V plain s"
  by (simp add: steady_def on_chip_def coherent_def set_status_def)

lemma steady_pixformat [simp]: "steady i2c V plain (s\<lparr>pixformat := f\<rparr>) = steady i2c V plain s"
  by (simp add: steady_def on_chip_def coherent_def)

lemma keeps_set_bank [keeps_intros]: "keeps (steady i2c V plain) (set_bank i2c b)"
  unfolding keeps_def
proof (intro allI impI)
  fix s assume st: "steady i2c V plain s"
  let ?t = "s\<lparr>reg_bank := b\<rparr>"
  have t: "on_chip i2c V plain ?t" "\<not> starts_reset V (bus ?t) BANK_SEL b"
    using st by (simp_all add: steady_def on_chip_def starts_reset_def)
  have "fst (sccb_write i2c BANK_SEL b ?t) = 0"
    using st by (simp add: steady_def sccb_write_def SCCB_Write_def selects_succeed_def case_prod_beta)
  then have "coherent V (snd (sccb_write i2c BANK_SEL b ?t))"
    using sccb_write_ok(2,4) [OF t] by (simp add: coherent_def)
  then show "steady i2c V plain (snd (set_bank i2c b s))"
    using st t frame_sccb_write [of ?t i2c BANK_SEL b]
    by (simp add: set_bank_def steady_def frame_def)
qed

text \<open>A write of a register that neither moves the bank nor resets the chip.\<close>

definition tame :: "u8 \<Rightarrow> u8 \<Rightarrow> bool" where
  "tame reg v \<longleftrightarrow> reg \<noteq> BANK_SEL \<and> (reg = COM7 \<longrightarrow> \<not> bit v 7)"

lemma steady_sccb_write:
  assumes "steady i2c V plain s" "tame reg v"
  shows "steady i2c V plain (snd (sccb_write i2c reg v s))"
proof -
  have o: "on_chip i2c V plain s" "\<not> starts_reset V (bus s) reg v"
    using assms by (auto simp: steady_def starts_reset_def tame_def)
  show ?thesis
    using sccb_write_ok(1,4) [OF o] assms frame_sccb_write [of s i2c reg v]
    by (simp add: steady_def coherent_def frame_def tame_def)
qed

lemma steady_sccb_read:
  assumes "steady i2c V plain s"
  shows "steady i2c V plain (snd (sccb_read i2c reg s))"
  using sccb_read_ok(1,5) [where reg = reg and i2c = i2c and V = V and plain = plain and s = s] assms
    frame_sccb_read [of s i2c reg]
  by (simp add: steady_def coherent_def frame_def)

lemma keeps_sccb_write [keeps_intros]: "tame reg v \<Longrightarrow> keeps (steady i2c V plain) (sccb_write i2c reg v)"
  by (simp add: keeps_def steady_sccb_write)

lemma keeps_write_reg [keeps_intros]: "tame reg v \<Longrightarrow> keeps (steady i2c V plain) (write_reg i2c b reg v)"
  unfolding write_reg_def by (intro keeps_intros)

lemma keeps_read_reg [keeps_intros]: "keeps (steady i2c V plain) (read_reg i2c b reg)"
  by (simp add: keeps_def read_reg_def case_prod_beta keepsD [OF keeps_set_bank] steady_sccb_read)

lemma keeps_get_reg_bits [keeps_intros]: "keeps (steady i2c V plain) (get_reg_bits i2c b reg off m)"
  using keeps_read_reg [of i2c V plain b reg] by (simp add: keeps_def get_reg_bits_def case_prod_beta)

lemma keeps_set_reg_bits [keeps_intros]:
  assumes "reg \<noteq> BANK_SEL" "reg \<noteq> COM7"
  shows "keeps (steady i2c V plain) (set_reg_bits i2c b reg off m v)"
  unfolding set_reg_bits_def
  by (intro keeps_or_return keeps_set_bank)
    (simp add: keeps_def case_prod_beta steady_sccb_write steady_sccb_read tame_def assms)

lemma keeps_write_regs [keeps_intros]:
  assumes "\<And>reg v. (reg, v) \<in> set t \<Longrightarrow> reg = COM7 \<Longrightarrow> \<not> bit v 7"
  shows "keeps (steady i2c V plain) (write_regs i2c t)"
  using assms
proof (induction t)
  case Nil
  then show ?case by (simp add: keeps_def)
next
  case (Cons e t)
  obtain reg v where e: "e = (reg, v)" by (cases e)
  have "keeps (steady i2c V plain) (if reg = BANK_SEL then set_bank i2c v else sccb_write i2c reg v)"
    using Cons.prems [of reg v] keeps_set_bank keeps_sccb_write [of reg v]
    by (auto simp: e tame_def)
  then have "keeps (steady i2c V plain) (or_return (if reg = BANK_SEL then set_bank i2c v
      else sccb_write i2c reg v) (write_regs i2c t))"
    using Cons by (intro keeps_or_return) auto
  then show ?case by (cases "reg = 0") (auto simp: keeps_def e)
qed

lemma keeps_write_row [keeps_intros]:
  assumes "\<And>reg v. (reg, v) \<in> set t \<Longrightarrow> tame reg v"
  shows "keeps (steady i2c V plain) (write_row i2c b t)"
  using assms
proof (induction t)
  case Nil
  then show ?case by (simp add: keeps_def)
next
  case (Cons e t)
  obtain reg v where e: "e = (reg, v)" by (cases e)
  have "keeps (steady i2c V plain) (or_return (write_reg i2c b reg v) (write_row i2c b t))"
    using Cons by (intro keeps_or_return keeps_write_reg) (auto simp: e)
  then show ?case by (simp add: keeps_def e)
qed

text \<open>No script writes the reset bit of \<^verbatim>\<open>COM7\<close>.\<close>

definition quiet_script :: "reg_table \<Rightarrow> bool" where
  "quiet_script t \<longleftrightarrow> list_all (\<lambda>(reg, v). reg = COM7 \<longrightarrow> \<not> bit v 7) t"

lemma keeps_script: "quiet_script t \<Longrightarrow> keeps (steady i2c V plain) (write_regs i2c t)"
  by (rule keeps_write_regs) (auto simp: quiet_script_def list_all_iff)

lemmas format_scripts = ov2640_settings_jpeg3_def ov2640_settings_yuv422_def
  ov2640_settings_rgb565_def ov2640_settings_RAW_def

lemmas mode_scripts = ov2640_settings_to_cif_def ov2640_settings_to_svga_def
  ov2640_settings_to_uxga_def

lemma quiet_cif: "quiet_script ov2640_settings_cif"
  by (simp add: quiet_script_def ov2640_settings_cif_def)

lemma quiet_format: "format_script fmt = Some t \<Longrightarrow> quiet_script t"
  by (auto simp: format_script_def quiet_script_def format_scripts split: pixformat_t.splits)

lemma quiet_mode: "quiet_script (mode_script m)"
  by (simp add: mode_script_def quiet_script_def mode_scripts)

lemma quiet_window: "quiet_script (win_regs ox oy mx my w h)"
  by (simp add: quiet_script_def win_regs_def)

lemma keeps_set_pixformat: "keeps (steady i2c V plain) (set_pixformat i2c fmt)"
proof (cases "format_script fmt")
  case None
  then show ?thesis by (simp add: keeps_def set_pixformat_def Let_def)
next
  case (Some t)
  then show ?thesis
    by (simp add: keeps_def set_pixformat_def Let_def keepsD [OF keeps_script [OF quiet_format]])
qed

lemma keeps_set_window: "keeps (steady i2c V plain) (set_window i2c m ox oy mx my w h)"
proof -
  have last: "keeps (steady i2c V plain) (\<lambda>s. (0, snd (set_pixformat i2c (pixformat s) s)))"
    using keeps_set_pixformat [of i2c V plain] by (simp add: keeps_def)
  show ?thesis
    unfolding keeps_def set_window_def Let_def
    by (intro allI impI keepsD [where P = "steady i2c V plain"] keeps_or_return keeps_write_reg
        keeps_script quiet_mode quiet_window last) (simp_all add: tame_def)
qed

lemma tame_row:
  assumes "\<And>reg. reg \<in> set (t ! 0) \<Longrightarrow> reg \<noteq> BANK_SEL \<and> reg \<noteq> COM7"
    and "(reg, v) \<in> set (level_row t level)"
  shows "tame reg v"
  using assms by (auto simp: level_row_def tame_def dest: set_zip_leftD)

lemmas level_tables = contrast_regs_def brightness_regs_def saturation_regs_def
  special_effects_regs_def wb_modes_regs_def ae_levels_regs_def

lemma keeps_rows:
  "keeps (steady i2c V plain) (write_row i2c b (level_row contrast_regs n))"
  "keeps (steady i2c V plain) (write_row i2c b (level_row brightness_regs n))"
  "keeps (steady i2c V plain) (write_row i2c b (level_row saturation_regs n))"
  "keeps (steady i2c V plain) (write_row i2c b (level_row special_effects_regs n))"
  "keeps (steady i2c V plain) (write_row i2c b (level_row wb_modes_regs n))"
  "keeps (steady i2c V plain) (write_row i2c b (level_row ae_levels_regs n))"
  by (rule keeps_write_row, erule tame_row [rotated], auto simp: level_tables)+

text \<open>The colour bar bit shares its register with the reset bit, which reads as 0.\<close>

lemma keeps_colorbar:
  "keeps (steady i2c V plain) (write_reg_bits i2c BANK_SENSOR COM7 COM7_COLOR_BAR n)"
  unfolding keeps_def
proof (intro allI impI)
  fix s assume st: "steady i2c V plain s"
  have z: "fst (set_bank i2c BANK_SENSOR s) = 0" by (rule set_bank_steady [OF st]) simp
  let ?t = "snd (set_bank i2c BANK_SENSOR s)"
  let ?v = "if n \<noteq> 0 then COM7_COLOR_BAR else 0"
  have t: "steady i2c V plain ?t" by (rule keepsD [OF keeps_set_bank st])
  have o: "on_chip i2c V plain s" "coherent V s" using st by (simp_all add: steady_def)
  have b: "chip_bank V (bus ?t) = BANK_SENSOR" "on_chip i2c V plain ?t"
    using set_bank_ok(1,4) [OF o _ z] by simp_all
  have "\<not> bit (fst (sccb_read i2c COM7 ?t)) 7"
    using sccb_read_ok(4) [OF b(2) b(1)] by simp
  then have "tame COM7 (merge_bits (fst (sccb_read i2c COM7 ?t)) 0 COM7_COLOR_BAR ?v)"
    by (simp add: tame_def merge_bits_def bit_simps)
  then have "steady i2c V plain (snd (sccb_write i2c COM7
      (merge_bits (fst (sccb_read i2c COM7 ?t)) 0 COM7_COLOR_BAR ?v) (snd (sccb_read i2c COM7 ?t))))"
    by (rule steady_sccb_write [OF steady_sccb_read [OF t]])
  then show "steady i2c V plain (snd (write_reg_bits i2c BANK_SENSOR COM7 COM7_COLOR_BAR n s))"
    using z by (simp add: write_reg_bits_def set_reg_bits_def or_return_simps case_prod_beta)
qed

lemma keeps_status:
  assumes "keeps (steady i2c V plain) f"
  shows "keeps (steady i2c V plain) (\<lambda>s. f (set_status g s))"
  using assms by (simp add: keeps_def)

lemma keeps_guard: "keeps P f \<Longrightarrow> keeps P (\<lambda>s. if c then (r, s) else f s)"
  by (simp add: keeps_def)

lemma keeps_write_reg_bits:
  "reg \<noteq> BANK_SEL \<Longrightarrow> reg \<noteq> COM7 \<Longrightarrow> keeps (steady i2c V plain) (write_reg_bits i2c b reg m n)"
  by (simp add: write_reg_bits_def keeps_set_reg_bits)

lemma keeps_level:
  "keeps (steady i2c V plain) (set_contrast i2c n)"
  "keeps (steady i2c V plain) (set_brightness i2c n)"
  "keeps (steady i2c V plain) (set_saturation i2c n)"
  "keeps (steady i2c V plain) (set_special_effect i2c n)"
  "keeps (steady i2c V plain) (set_ae_level i2c n)"
  unfolding set_contrast_def set_brightness_def set_saturation_def set_special_effect_def
    set_ae_level_def Let_def
  by (intro keeps_guard keeps_status keeps_rows)+

lemma keeps_wb_mode: "keeps (steady i2c V plain) (set_wb_mode i2c n)"
  unfolding set_wb_mode_def
  by (intro keeps_guard keeps_status keeps_or_return keeps_set_reg_bits)
    (simp_all add: keeps_rows keeps_skip)

lemma keeps_switch:
  "keeps (steady i2c V plain) (set_aec2 i2c n)"
  "keeps (steady i2c V plain) (set_agc_sensor i2c n)"
  "keeps (steady i2c V plain) (set_aec_sensor i2c n)"
  "keeps (steady i2c V plain) (set_hmirror_sensor i2c n)"
  "keeps (steady i2c V plain) (set_raw_gma_dsp i2c n)"
  "keeps (steady i2c V plain) (set_awb_dsp i2c n)"
  "keeps (steady i2c V plain) (set_awb_gain_dsp i2c n)"
  "keeps (steady i2c V plain) (set_lenc_dsp i2c n)"
  "keeps (steady i2c V plain) (set_dcw_dsp i2c n)"
  "keeps (steady i2c V plain) (set_bpc_dsp i2c n)"
  "keeps (steady i2c V plain) (set_wpc_dsp i2c n)"
  "keeps (steady i2c V plain) (set_gainceiling_sensor i2c n)"
  "keeps (steady i2c V plain) (set_colorbar i2c n)"
  unfolding set_aec2_def set_agc_sensor_def set_aec_sensor_def set_hmirror_sensor_def
    set_raw_gma_dsp_def set_awb_dsp_def set_awb_gain_dsp_def set_lenc_dsp_def set_dcw_dsp_def
    set_bpc_dsp_def set_wpc_dsp_def set_gainceiling_sensor_def set_colorbar_def
  by (intro keeps_status keeps_set_reg_bits keeps_write_reg_bits keeps_colorbar; simp)+

lemma keeps_vflip: "keeps (steady i2c V plain) (set_vflip_sensor i2c n)"
  by (simp add: keeps_def set_vflip_sensor_def case_prod_beta keepsD [OF keeps_write_reg_bits])

lemma keeps_value:
  "keeps (steady i2c V plain) (set_quality i2c n)"
  "keeps (steady i2c V plain) (set_agc_gain i2c n)"
  "keeps (steady i2c V plain) (set_aec_value i2c n)"
  unfolding set_quality_def set_agc_gain_def set_aec_value_def Let_def
  by (intro keeps_status keeps_write_reg keeps_c_or keeps_set_reg_bits; simp add: tame_def)+

lemma keeps_init_status: "keeps (steady i2c V plain) (init_status i2c)"
  by (simp add: keeps_def init_status_def Let_def case_prod_beta keepsD [OF keeps_read_reg]
      keepsD [OF keeps_get_reg_bits])

lemma keeps_framesize: "keeps (steady i2c V plain) (set_framesize i2c fs)"
  by (simp add: keeps_def set_framesize_def case_prod_beta keepsD [OF keeps_set_window])

text \<open>Direct register access must leave \<^verbatim>\<open>BANK_SEL\<close> and \<^verbatim>\<open>COM7\<close> alone.\<close>

fun harmless :: "sensor_call \<Rightarrow> bool" where
  "harmless (Set_reg reg m v) \<longleftrightarrow> snd (reg_sel reg) \<noteq> BANK_SEL \<and> snd (reg_sel reg) \<noteq> COM7"
| "harmless c \<longleftrightarrow> True"

lemma keeps_reg_access:
  "keeps (steady i2c V plain) (get_reg i2c reg m)"
  "harmless (Set_reg reg m v) \<Longrightarrow> keeps (steady i2c V plain) (set_reg i2c reg m v)"
  by (simp_all add: keeps_def get_reg_def set_reg_def case_prod_beta keepsD [OF keeps_read_reg]
      keepsD [OF keeps_write_reg] tame_def)

text \<open>The first entry of the reset script selects the DSP bank, while the sensor bank is cached;
  so the selection is sent, whatever the reset did to the chip.\<close>

lemma steady_reset:
  assumes "on_chip i2c V plain s" "selects_succeed i2c (slv_addr s)" "fst (reset i2c s) = 0"
  shows "steady i2c V plain (snd (reset i2c s))"
proof -
  let ?t = "snd (write_reg i2c BANK_SENSOR COM7 COM7_SRST s)"
  have z: "fst (write_reg i2c BANK_SENSOR COM7 COM7_SRST s) = 0"
    using assms(3) by (simp add: reset_def or_return_simps split: if_splits)
  have r: "reg_bank ?t = BANK_SENSOR"
    using z by (simp add: write_reg_def or_return_simps set_bank_def sccb_write_def case_prod_beta
        split: if_splits)
  obtain t where cif: "ov2640_settings_cif = (BANK_SEL, BANK_DSP) # t" "quiet_script t"
    using quiet_cif by (simp add: ov2640_settings_cif_def quiet_script_def)
  let ?u = "?t\<lparr>reg_bank := BANK_DSP\<rparr>"
  have u: "on_chip i2c V plain ?u" "selects_succeed i2c (slv_addr ?u)"
    using assms(1,2) frame_write_reg [of s i2c BANK_SENSOR COM7 COM7_SRST]
    by (simp_all add: on_chip_def frame_def)
  have w: "fst (sccb_write i2c BANK_SEL BANK_DSP ?u) = 0"
    using u(2) by (simp add: sccb_write_def SCCB_Write_def selects_succeed_def case_prod_beta)
  have n: "\<not> starts_reset V (bus ?u) BANK_SEL BANK_DSP" by (simp add: starts_reset_def)
  have "steady i2c V plain (snd (sccb_write i2c BANK_SEL BANK_DSP ?u))"
    using sccb_write_ok(2,4) [OF u(1) n] w u frame_sccb_write [of ?u i2c BANK_SEL BANK_DSP]
    by (simp add: steady_def coherent_def frame_def)
  then have "steady i2c V plain (snd (write_regs i2c t (snd (sccb_write i2c BANK_SEL BANK_DSP ?u))))"
    by (rule keepsD [OF keeps_script [OF cif(2)]])
  moreover have "snd (reset i2c s) = snd (write_regs i2c t (snd (sccb_write i2c BANK_SEL BANK_DSP ?u)))"
    using z r w by (simp add: reset_def or_return_simps cif(1) set_bank_def)
  ultimately show ?thesis by simp
qed

lemma call_steady:
  assumes "steady i2c V plain s" "harmless c" "c = Reset \<Longrightarrow> fst (ov2640_init i2c c s) = 0"
  shows "steady i2c V plain (snd (ov2640_init i2c c s))"
proof (cases c)
  case Reset
  then show ?thesis using assms steady_reset [of i2c V plain s] by (simp add: steady_def)
next
  case (Set_reg r m v)
  then show ?thesis using assms keepsD [OF keeps_reg_access(2)] by simp
qed (simp_all add: assms(1) keepsD [OF keeps_init_status] keepsD [OF keeps_set_pixformat]
    keepsD [OF keeps_framesize] keepsD [OF keeps_level(1)] keepsD [OF keeps_level(2)]
    keepsD [OF keeps_level(3)] keepsD [OF keeps_level(4)] keepsD [OF keeps_level(5)]
    keepsD [OF keeps_wb_mode] keepsD [OF keeps_switch(1)] keepsD [OF keeps_switch(2)]
    keepsD [OF keeps_switch(3)] keepsD [OF keeps_switch(4)] keepsD [OF keeps_switch(5)]
    keepsD [OF keeps_switch(6)] keepsD [OF keeps_switch(7)] keepsD [OF keeps_switch(8)]
    keepsD [OF keeps_switch(9)] keepsD [OF keeps_switch(10)] keepsD [OF keeps_switch(11)]
    keepsD [OF keeps_switch(12)] keepsD [OF keeps_switch(13)] keepsD [OF keeps_vflip]
    keepsD [OF keeps_value(1)] keepsD [OF keeps_value(2)] keepsD [OF keeps_value(3)]
    keepsD [OF keeps_reg_access(1)] set_sharpness_def set_denoise_def set_pll_def
    keepsD [OF keeps_set_window] set_res_raw_def)

section \<open>A register file\<close>

text \<open>A chip that obeys the law: two banks of registers, transfers that always succeed. It shows
  that the hypotheses above can hold. \<open>faulty_transfer\<close> lets transfers fail as a list says.\<close>

record reg_file =
  rf_bank :: u8
  rf_regs :: "u8 \<times> u8 \<Rightarrow> u8"
  rf_ptr :: u8

fun chip_transfer :: "reg_file i2c" where
  "chip_transfer [I2C_START, I2C_WRITE_BYTE a, I2C_WRITE_BYTE reg, I2C_WRITE_BYTE v, I2C_STOP] c =
    (ESP_OK, None, if reg = BANK_SEL then c\<lparr>rf_bank := v\<rparr>
       else c\<lparr>rf_regs := (rf_regs c)((rf_bank c, reg) := v)\<rparr>)"
| "chip_transfer [I2C_START, I2C_WRITE_BYTE a, I2C_WRITE_BYTE reg, I2C_STOP] c =
    (ESP_OK, None, c\<lparr>rf_ptr := reg\<rparr>)"
| "chip_transfer [I2C_START, I2C_WRITE_BYTE a, I2C_READ_BYTE, I2C_STOP] c =
    (ESP_OK, Some (if (rf_bank c, rf_ptr c) = (BANK_SENSOR, COM7)
       then rf_regs c (rf_bank c, rf_ptr c) AND 0x7F else rf_regs c (rf_bank c, rf_ptr c)), c)"
| "chip_transfer ops c = (ESP_FAIL, None, c)"

definition faulty_transfer :: "(bool list \<times> reg_file) i2c" where
  "faulty_transfer ops d =
    (case d of (True # fs, c) \<Rightarrow> (ESP_FAIL, None, (fs, c))
     | (fs, c) \<Rightarrow> (case chip_transfer ops c of (ret, b, c) \<Rightarrow> (ret, b, (tl fs, c))))"

definition file_view :: "reg_file chip_view" where
  "file_view = \<lparr>chip_bank = rf_bank, chip_reg = rf_regs, chip_ptr = rf_ptr\<rparr>"

definition file_plain :: "(u8 \<times> u8) set" where
  "file_plain = {(b, r). b \<noteq> BANK_MAX \<and> r \<noteq> BANK_SEL \<and> (b, r) \<noteq> (BANK_SENSOR, COM7)}"

definition blank_file :: reg_file where
  "blank_file = \<lparr>rf_bank = BANK_DSP, rf_regs = (\<lambda>_. 0), rf_ptr = 0\<rparr>"

definition status_zero :: camera_status_t where
  "status_zero = \<lparr>st_framesize = FRAMESIZE_96X96, st_scale = False, st_binning = False,
    st_quality = 0, st_brightness = 0, st_contrast = 0, st_saturation = 0, st_sharpness = 0,
    st_denoise = 0, st_special_effect = 0, st_wb_mode = 0, st_awb = 0, st_awb_gain = 0,
    st_aec = 0, st_aec2 = 0, st_ae_level = 0, st_aec_value = 0, st_agc = 0, st_agc_gain = 0,
    st_gainceiling = 0, st_bpc = 0, st_wpc = 0, st_raw_gma = 0, st_lenc = 0, st_hmirror = 0,
    st_vflip = 0, st_dcw = 0, st_colorbar = 0\<rparr>"

definition fresh_sensor :: "'d \<Rightarrow> 'd ov2640" where
  "fresh_sensor d = \<lparr>bus = d, reg_bank = BANK_MAX, slv_addr = OV2640_SCCB_ADDR,
    pixformat = PIXFORMAT_GRAYSCALE, status = status_zero, xclk_freq_hz = 20000000\<rparr>"

lemma chip_transfer_links:
  "chip_transfer (write_link a [reg, v]) c = (ESP_OK, None, if reg = BANK_SEL then c\<lparr>rf_bank := v\<rparr>
     else c\<lparr>rf_regs := (rf_regs c)((rf_bank c, reg) := v)\<rparr>)"
  "chip_transfer (write_link a [reg]) c = (ESP_OK, None, c\<lparr>rf_ptr := reg\<rparr>)"
  "chip_transfer (read_link a) c =
    (ESP_OK, Some (if (rf_bank c, rf_ptr c) = (BANK_SENSOR, COM7)
       then rf_regs c (rf_bank c, rf_ptr c) AND 0x7F else rf_regs c (rf_bank c, rf_ptr c)), c)"
  by (simp_all add: write_link_def read_link_def)

lemma file_law: "chip_law chip_transfer a file_view file_plain"
  by (auto simp: chip_law_def plain_regs_def write_law_def pointer_law_def read_law_def
      chip_transfer_links file_view_def file_plain_def bit_simps)

lemma file_succeeds:
  "reads_succeed chip_transfer a" "selects_succeed chip_transfer a" "writes_succeed chip_transfer a"
  by (simp_all add: reads_succeed_def selects_succeed_def writes_succeed_def chip_transfer_links)

lemma file_steady: "steady chip_transfer file_view file_plain (fresh_sensor d)"
  by (simp add: steady_def on_chip_def file_law file_succeeds coherent_def fresh_sensor_def)

section \<open>Properties of the driver\<close>

text \<open>C12: the driver's cache of the selected register bank is never stale. On a chip whose bank
  selections and reads get through (other writes may fail), every method of the sensor leaves
  the cached bank equal to the selected one, a reset provided it reports success and direct
  register access provided it spares the bank-select and reset registers.\<close>

theorem bank_cache_coherent:
  assumes "chip_law i2c (slv_addr s) V plain" "reads_succeed i2c (slv_addr s)"
    and "selects_succeed i2c (slv_addr s)" "coherent V s" "harmless c"
    and "c = Reset \<Longrightarrow> fst (ov2640_init i2c c s) = 0"
  shows "coherent V (snd (ov2640_init i2c c s))"
  using call_steady [of i2c V plain s c] assms by (simp add: steady_def on_chip_def)

theorem bank_cache_coherent_witness:
  "coherent file_view (snd (ov2640_init chip_transfer (Set_framesize FRAMESIZE_QVGA)
     (fresh_sensor blank_file)))"
  by (rule bank_cache_coherent [OF file_law file_succeeds(1,2)])
    (simp_all add: coherent_def fresh_sensor_def)


lemmas transfer_simps = set_bank_def sccb_read_def sccb_write_def SCCB_Read_def SCCB_Write_def
  read_phase_def chip_transfer_links case_prod_beta or_return_simps esp_err_defs


end
