(* ===== verification/OV2640_Status.thy ===== *)
theory OV2640_Status
  imports OV2640_Chip
begin

text \<open>
  What the OV2640 driver reads back: the status record against the registers of the chip.
\<close>

section \<open>The status record\<close>

definition field :: "u8 \<Rightarrow> nat \<Rightarrow> u8 \<Rightarrow> u8" where
  "field c off m = drop_bit off c AND m"

lemma field_merge_other:
  assumes "push_bit off' m' AND push_bit off m = (0 :: u8)"
  shows "field (merge_bits c off m v) off' m' = field c off' m'"
proof (rule bit_word_eqI)
  fix n assume "n < LENGTH(8)"
  have "\<not> (bit (push_bit off' m') (off' + n) \<and> bit (push_bit off m) (off' + n))"
    using assms by (metis bit_and_iff bit_0_eq bot_fun_def bot_bool_def)
  then show "bit (field (merge_bits c off m v) off' m') n = bit (field c off' m') n"
    by (auto simp: field_def merge_bits_def bit_simps dest: bit_imp_le_length)
qed

lemma field_merge_same:
  assumes "push_bit off' m' AND NOT (push_bit off m) = (0 :: u8)"
  shows "field (merge_bits c off m v) off' m' = field (push_bit off (v AND m)) off' m'"
proof (rule bit_word_eqI)
  fix n assume "n < LENGTH(8)"
  have "\<not> (bit (push_bit off' m') (off' + n) \<and> bit (NOT (push_bit off m)) (off' + n))"
    using assms by (metis bit_and_iff bit_0_eq bot_fun_def bot_bool_def)
  then show "bit (field (merge_bits c off m v) off' m') n = bit (field (push_bit off (v AND m)) off' m') n"
    by (auto simp: field_def merge_bits_def bit_simps dest: bit_imp_le_length)
qed

text \<open>The exposure as \<^verbatim>\<open>init_status\<close> puts it together.\<close>

definition exposure :: "u8 \<Rightarrow> u8 \<Rightarrow> u8 \<Rightarrow> u16" where
  "exposure r45 r10 r04 =
    push_bit 10 (ucast (field r45 0 0x3F)) OR push_bit 2 (ucast r10) OR ucast (field r04 0 3)"

lemma low_field:
  "field (merge_bits c 0 0x3F x) 0 0x3F = take_bit 6 x"
  "field (merge_bits c 0 3 x) 0 3 = take_bit 2 x"
  by (simp_all add: field_merge_same) (simp_all add: field_def take_bit_eq_mask mask_eq_exp_minus_1 and.assoc)

lemma exposure_roundtrip:
  "exposure (merge_bits r45 0 0x3F (word_of_int (drop_bit 10 v))) (word_of_int (drop_bit 2 v AND 0xFF))
     (merge_bits r04 0 3 (word_of_int (v AND 0x3))) = word_of_int v"
proof -
  have m: "drop_bit 2 v AND 0xFF = take_bit 8 (drop_bit 2 v)" "v AND 0x3 = take_bit 2 v"
    by (simp_all add: take_bit_eq_mask mask_eq_exp_minus_1)
  have two: "\<not> n < 2 \<Longrightarrow> Suc (Suc (n - 2)) = n" for n :: nat by arith
  have "bit (exposure (merge_bits r45 0 0x3F (word_of_int (drop_bit 10 v)))
      (word_of_int (drop_bit 2 v AND 0xFF)) (merge_bits r04 0 3 (word_of_int (v AND 0x3)))) n \<longleftrightarrow>
      n < 16 \<and> bit v n" for n
    unfolding exposure_def low_field m
    by (cases "n < 2"; cases "n < 10") (auto simp: bit_simps two)
  then show ?thesis by (intro bit_word_eqI) (simp add: bit_simps)
qed

lemma gain_roundtrip:
  assumes "0 \<le> g" "g \<le> 30"
  shows "gain_level (uint (agc_gain_tbl ! nat g)) = word_of_int g"
proof -
  have "list_all (\<lambda>n. gain_level (uint (agc_gain_tbl ! n)) = of_nat n) [0..<31]"
    by code_simp
  then have "gain_level (uint (agc_gain_tbl ! nat g)) = of_nat (nat g)"
    using assms by (auto simp: list_all_iff)
  then show ?thesis using assms by simp
qed

text \<open>The registers \<^verbatim>\<open>init_status\<close> reads, less \<^verbatim>\<open>COM7\<close>, and what it makes of them.\<close>

definition status_cells :: "(u8 \<times> u8) list" where
  "status_cells = [(BANK_SENSOR, GAIN), (BANK_SENSOR, REG45), (BANK_SENSOR, AEC), (BANK_SENSOR, REG04),
    (BANK_DSP, QS), (BANK_SENSOR, COM9), (BANK_DSP, CTRL1), (BANK_SENSOR, COM8), (BANK_DSP, CTRL0),
    (BANK_DSP, CTRL3), (BANK_DSP, CTRL2)]"

definition mirrors :: "(u8 \<times> u8 \<Rightarrow> u8) \<Rightarrow> camera_status_t \<Rightarrow> bool" where
  "mirrors R t \<longleftrightarrow>
    st_agc_gain t = gain_level (uint (R (BANK_SENSOR, GAIN))) \<and>
    st_aec_value t = exposure (R (BANK_SENSOR, REG45)) (R (BANK_SENSOR, AEC)) (R (BANK_SENSOR, REG04)) \<and>
    st_quality t = R (BANK_DSP, QS) \<and>
    st_gainceiling t = field (R (BANK_SENSOR, COM9)) 5 7 \<and>
    st_awb t = field (R (BANK_DSP, CTRL1)) 3 1 \<and>
    st_awb_gain t = field (R (BANK_DSP, CTRL1)) 2 1 \<and>
    st_aec t = field (R (BANK_SENSOR, COM8)) 0 1 \<and>
    st_agc t = field (R (BANK_SENSOR, COM8)) 2 1 \<and>
    st_bpc t = field (R (BANK_DSP, CTRL3)) 7 1 \<and>
    st_wpc t = field (R (BANK_DSP, CTRL3)) 6 1 \<and>
    st_raw_gma t = field (R (BANK_DSP, CTRL1)) 5 1 \<and>
    st_lenc t = field (R (BANK_DSP, CTRL1)) 1 1 \<and>
    st_hmirror t = field (R (BANK_SENSOR, REG04)) 7 1 \<and>
    st_vflip t = field (R (BANK_SENSOR, REG04)) 6 1 \<and>
    st_dcw t = field (R (BANK_DSP, CTRL2)) 5 1"

lemma read_reg_steps:
  assumes "steady i2c V plain s"
  shows "steady i2c V plain (snd (read_reg i2c b r s))"
    and "(b, r) \<in> plain \<Longrightarrow> fst (read_reg i2c b r s) = uint (chip_reg V (bus s) (b, r))"
    and "steady i2c V plain (snd (get_reg_bits i2c b r off m s))"
    and "(b, r) \<in> plain \<Longrightarrow> fst (get_reg_bits i2c b r off m s) = field (chip_reg V (bus s) (b, r)) off m"
  using assms read_reg_cell [OF assms] keepsD [OF keeps_read_reg]
  by (simp_all add: get_reg_bits_def case_prod_beta field_def)

text \<open>Reading never changes a plain register.\<close>

lemma read_keeps_cells:
  assumes "steady i2c V plain s" "k \<in> plain" "b \<noteq> BANK_MAX"
  shows "chip_reg V (bus (snd (read_reg i2c b r s))) k = chip_reg V (bus s) k"
    and "chip_reg V (bus (snd (get_reg_bits i2c b r off m s))) k = chip_reg V (bus s) k"
proof -
  have o: "on_chip i2c V plain s" "coherent V s" using assms(1) by (simp_all add: steady_def)
  have z: "fst (set_bank i2c b s) = 0" by (rule set_bank_steady [OF assms(1,3)])
  note b = set_bank_ok [OF o assms(3) z]
  show "chip_reg V (bus (snd (read_reg i2c b r s))) k = chip_reg V (bus s) k"
    using z b(3) [OF assms(2)] sccb_read_ok(2) [OF b(4) assms(2), where reg = r]
    by (simp add: read_reg_def case_prod_beta)
  then show "chip_reg V (bus (snd (get_reg_bits i2c b r off m s))) k = chip_reg V (bus s) k"
    by (simp add: get_reg_bits_def case_prod_beta)
qed

lemma init_status_mirrors:
  assumes "steady i2c V plain s" "set status_cells \<subseteq> plain"
  defines "s' \<equiv> snd (init_status i2c s)"
  shows "mirrors (chip_reg V (bus s')) (status s') \<and>
    st_aec2 (status s') = field (chip_reg V (bus s') (BANK_DSP, CTRL0)) 6 1 \<and>
    (\<forall>k \<in> plain. chip_reg V (bus s') k = chip_reg V (bus s) k)"
  using assms(2)
  by (simp add: s'_def init_status_def Let_def case_prod_beta set_status_def mirrors_def
      status_cells_def read_reg_steps [where V = V and plain = plain]
      read_keeps_cells [where plain = plain] assms(1) exposure_def)

text \<open>A bus without transfer errors.\<close>

definition live :: "'d i2c \<Rightarrow> 'd chip_view \<Rightarrow> (u8 \<times> u8) set \<Rightarrow> 'd ov2640 \<Rightarrow> bool" where
  "live i2c V plain s \<longleftrightarrow> steady i2c V plain s \<and> writes_succeed i2c (slv_addr s)"

lemma liveI:
  assumes "chip_law i2c (slv_addr s) V plain" "reads_succeed i2c (slv_addr s)"
    and "writes_succeed i2c (slv_addr s)" "coherent V s"
  shows "live i2c V plain s"
  using assms by (simp add: live_def steady_def on_chip_def selects_succeed_def writes_succeed_def)

lemma live_writes:
  assumes "live i2c V plain s"
  shows "fst (sccb_write i2c r v s) = 0" "fst (set_bank i2c b s) = 0"
    "fst (write_reg i2c b r v s) = 0" "fst (set_reg_bits i2c b r off m v s) = 0"
proof -
  have w: "fst (sccb_write i2c r v t) = 0" if "slv_addr t = slv_addr s" for r v t
    using assms that
    by (simp add: live_def writes_succeed_def sccb_write_def SCCB_Write_def case_prod_beta)
  then show "fst (sccb_write i2c r v s) = 0" by simp
  have a: "slv_addr (snd (set_bank i2c b s)) = slv_addr s" using frame_set_bank [of s i2c b] by (simp add: frame_def)
  have "slv_addr (snd (sccb_read i2c r t)) = slv_addr t" for t
    using frame_sccb_read [of t i2c r] by (simp add: frame_def)
  then show "fst (set_bank i2c b s) = 0" "fst (write_reg i2c b r v s) = 0"
    "fst (set_reg_bits i2c b r off m v s) = 0"
    using a by (simp_all add: set_bank_def write_reg_def set_reg_bits_def or_return_simps w case_prod_beta)
qed

lemma live_frame_writes:
  assumes "live i2c V plain s" "(b, r) \<in> plain"
  shows "live i2c V plain (snd (write_reg i2c b r v s))"
    and "live i2c V plain (snd (set_reg_bits i2c b r off m v s))"
    and "k \<in> plain \<Longrightarrow> chip_reg V (bus (snd (write_reg i2c b r v s))) k =
      (if k = (b, r) then v else chip_reg V (bus s) k)"
    and "k \<in> plain \<Longrightarrow> chip_reg V (bus (snd (set_reg_bits i2c b r off m v s))) k =
      (if k = (b, r) then merge_bits (chip_reg V (bus s) k) off m v else chip_reg V (bus s) k)"
    and "status (snd (write_reg i2c b r v s)) = status s"
    and "status (snd (set_reg_bits i2c b r off m v s)) = status s"
proof -
  have st: "steady i2c V plain s" using assms(1) by (simp add: live_def)
  note w = chip.wr_cell [OF st assms(2) live_writes(3) [OF assms(1)]]
  note u = chip.upd_cell [OF st assms(2) live_writes(4) [OF assms(1)]]
  note f = frame_write_reg [of s i2c b r v] frame_set_reg_bits [of s i2c b r off m v]
  show "live i2c V plain (snd (write_reg i2c b r v s))"
    "live i2c V plain (snd (set_reg_bits i2c b r off m v s))"
    using w u f assms(1) by (simp_all add: live_def frame_def)
  show "k \<in> plain \<Longrightarrow> chip_reg V (bus (snd (write_reg i2c b r v s))) k =
      (if k = (b, r) then v else chip_reg V (bus s) k)"
    "k \<in> plain \<Longrightarrow> chip_reg V (bus (snd (set_reg_bits i2c b r off m v s))) k =
      (if k = (b, r) then merge_bits (chip_reg V (bus s) k) off m v else chip_reg V (bus s) k)"
    using w u by simp_all
  show "status (snd (write_reg i2c b r v s)) = status s"
    "status (snd (set_reg_bits i2c b r off m v s)) = status s"
    using f by (simp_all add: frame_def)
qed

lemma live_set_status [simp]: "live i2c V plain (set_status f s) = live i2c V plain s"
  "bus (set_status f s) = bus s" "status (set_status f s) = f (status s)"
  by (simp_all add: live_def) (simp_all add: set_status_def)

text \<open>The controls that set one setting each, with the arguments they are meant for. The
  switches store their argument in the status and its truth value in the register, so they are
  for 0 and 1; a gain ceiling has three bits.\<close>

fun plain_control :: "sensor_call \<Rightarrow> bool" where
  "plain_control (Set_quality n) \<longleftrightarrow> True"
| "plain_control (Set_agc_gain n) \<longleftrightarrow> True"
| "plain_control (Set_aec_value n) \<longleftrightarrow> True"
| "plain_control (Set_gainceiling n) \<longleftrightarrow> 0 \<le> n \<and> n < 8"
| "plain_control (Set_gain_ctrl n) \<longleftrightarrow> n = 0 \<or> n = 1"
| "plain_control (Set_exposure_ctrl n) \<longleftrightarrow> n = 0 \<or> n = 1"
| "plain_control (Set_hmirror n) \<longleftrightarrow> n = 0 \<or> n = 1"
| "plain_control (Set_vflip n) \<longleftrightarrow> n = 0 \<or> n = 1"
| "plain_control (Set_whitebal n) \<longleftrightarrow> n = 0 \<or> n = 1"
| "plain_control (Set_dcw n) \<longleftrightarrow> n = 0 \<or> n = 1"
| "plain_control (Set_bpc n) \<longleftrightarrow> n = 0 \<or> n = 1"
| "plain_control (Set_wpc n) \<longleftrightarrow> n = 0 \<or> n = 1"
| "plain_control (Set_awb_gain n) \<longleftrightarrow> n = 0 \<or> n = 1"
| "plain_control (Set_raw_gma n) \<longleftrightarrow> n = 0 \<or> n = 1"
| "plain_control (Set_lenc n) \<longleftrightarrow> n = 0 \<or> n = 1"
| "plain_control c \<longleftrightarrow> False"

lemma mirrors_cong:
  "(\<And>k. k \<in> set status_cells \<Longrightarrow> R k = R' k) \<Longrightarrow> mirrors R t = mirrors R' t"
  by (simp add: mirrors_def status_cells_def)

lemma ceiling_field:
  assumes "0 \<le> c" "c < 8"
  shows "field (push_bit 5 (word_of_int c) AND 0xE0) 5 7 = word_of_int c"
proof -
  have "c \<in> {0, 1, 2, 3, 4, 5, 6, 7}" using assms by auto
  then show ?thesis by (auto simp: field_def)
qed

lemmas field_merges = field_merge_other field_merge_same

text \<open>One register updated and the matching entry of the status with it.\<close>

lemma mirrors_switch:
  assumes "mirrors R t" "n = 0 \<or> n = 1"
  shows "mirrors (R((BANK_DSP, CTRL1) := merge_bits (R (BANK_DSP, CTRL1)) 3 1 (truth n)))
      (t\<lparr>st_awb := word_of_int n\<rparr>)"
    "mirrors (R((BANK_DSP, CTRL1) := merge_bits (R (BANK_DSP, CTRL1)) 2 1 (truth n)))
      (t\<lparr>st_awb_gain := word_of_int n\<rparr>)"
    "mirrors (R((BANK_DSP, CTRL1) := merge_bits (R (BANK_DSP, CTRL1)) 5 1 (truth n)))
      (t\<lparr>st_raw_gma := word_of_int n\<rparr>)"
    "mirrors (R((BANK_DSP, CTRL1) := merge_bits (R (BANK_DSP, CTRL1)) 1 1 (truth n)))
      (t\<lparr>st_lenc := word_of_int n\<rparr>)"
    "mirrors (R((BANK_DSP, CTRL2) := merge_bits (R (BANK_DSP, CTRL2)) 5 1 (truth n)))
      (t\<lparr>st_dcw := word_of_int n\<rparr>)"
    "mirrors (R((BANK_DSP, CTRL3) := merge_bits (R (BANK_DSP, CTRL3)) 7 1 (truth n)))
      (t\<lparr>st_bpc := word_of_int n\<rparr>)"
    "mirrors (R((BANK_DSP, CTRL3) := merge_bits (R (BANK_DSP, CTRL3)) 6 1 (truth n)))
      (t\<lparr>st_wpc := word_of_int n\<rparr>)"
  using assms(1)
  by (simp_all add: mirrors_def field_merges) (use assms(2) in \<open>auto simp: truth_def field_def\<close>)

lemma mirrors_masked:
  assumes "mirrors R t" "n = 0 \<or> n = 1"
  shows "mirrors (R((BANK_SENSOR, COM8) := merge_bits (R (BANK_SENSOR, COM8)) 0 COM8_AGC_EN
        (if n \<noteq> 0 then COM8_AGC_EN else 0))) (t\<lparr>st_agc := word_of_int n\<rparr>)"
    "mirrors (R((BANK_SENSOR, COM8) := merge_bits (R (BANK_SENSOR, COM8)) 0 COM8_AEC_EN
        (if n \<noteq> 0 then COM8_AEC_EN else 0))) (t\<lparr>st_aec := word_of_int n\<rparr>)"
    "mirrors (R((BANK_SENSOR, REG04) := merge_bits (R (BANK_SENSOR, REG04)) 0 REG04_HFLIP_IMG
        (if n \<noteq> 0 then REG04_HFLIP_IMG else 0))) (t\<lparr>st_hmirror := word_of_int n\<rparr>)"
    "mirrors (R((BANK_SENSOR, REG04) := merge_bits (R (BANK_SENSOR, REG04)) 0 REG04_VREF_EN
        (if n \<noteq> 0 then REG04_VREF_EN else 0))) t"
    "mirrors (R((BANK_SENSOR, REG04) := merge_bits (R (BANK_SENSOR, REG04)) 0 REG04_VFLIP_IMG
        (if n \<noteq> 0 then REG04_VFLIP_IMG else 0))) (t\<lparr>st_vflip := word_of_int n\<rparr>)"
  using assms(1)
  by (simp_all add: mirrors_def field_merges exposure_def)
    (use assms(2) in \<open>auto simp: field_def\<close>)

lemma mirrors_value:
  assumes "mirrors R t"
  shows "mirrors (R((BANK_DSP, QS) := word_of_int q)) (t\<lparr>st_quality := word_of_int q\<rparr>)"
    "0 \<le> g \<Longrightarrow> g \<le> 30 \<Longrightarrow>
      mirrors (R((BANK_SENSOR, GAIN) := agc_gain_tbl ! nat g)) (t\<lparr>st_agc_gain := word_of_int g\<rparr>)"
    "mirrors (R((BANK_SENSOR, REG04) := merge_bits (R (BANK_SENSOR, REG04)) 0 3 (word_of_int (v AND 0x3)),
        (BANK_SENSOR, AEC) := word_of_int (drop_bit 2 v AND 0xFF),
        (BANK_SENSOR, REG45) := merge_bits (R (BANK_SENSOR, REG45)) 0 0x3F (word_of_int (drop_bit 10 v))))
      (t\<lparr>st_aec_value := word_of_int v\<rparr>)"
    "0 \<le> c \<Longrightarrow> c < 8 \<Longrightarrow> mirrors (R((BANK_SENSOR, COM9) :=
        merge_bits (R (BANK_SENSOR, COM9)) 5 7 (word_of_int c))) (t\<lparr>st_gainceiling := word_of_int c\<rparr>)"
  using assms by (simp_all add: mirrors_def field_merges exposure_roundtrip gain_roundtrip ceiling_field)

text \<open>The same on the chip.\<close>

lemma upd_mirrors:
  assumes "live i2c V plain s" "set status_cells \<subseteq> plain" "(b, r) \<in> plain"
    and "mirrors ((chip_reg V (bus s))((b, r) := merge_bits (chip_reg V (bus s) (b, r)) off m v)) (f (status s))"
  defines "s' \<equiv> snd (set_reg_bits i2c b r off m v (set_status f s))"
  shows "mirrors (chip_reg V (bus s')) (status s')"
proof -
  have l: "live i2c V plain (set_status f s)" using assms(1) by simp
  have "chip_reg V (bus s') k =
      ((chip_reg V (bus s))((b, r) := merge_bits (chip_reg V (bus s) (b, r)) off m v)) k"
    if "k \<in> set status_cells" for k
    using live_frame_writes(4) [OF l assms(3), of k off m v] that assms(2) by (auto simp: s'_def)
  moreover have "status s' = f (status s)"
    using live_frame_writes(6) [OF l assms(3)] by (simp add: s'_def)
  ultimately show ?thesis using assms(4) mirrors_cong [of "chip_reg V (bus s')"] by metis
qed

lemma wr_mirrors:
  assumes "live i2c V plain s" "set status_cells \<subseteq> plain" "(b, r) \<in> plain"
    and "mirrors ((chip_reg V (bus s))((b, r) := v)) (f (status s))"
  defines "s' \<equiv> snd (write_reg i2c b r v (set_status f s))"
  shows "mirrors (chip_reg V (bus s')) (status s')"
proof -
  have l: "live i2c V plain (set_status f s)" using assms(1) by simp
  have "chip_reg V (bus s') k = ((chip_reg V (bus s))((b, r) := v)) k"
    if "k \<in> set status_cells" for k
    using live_frame_writes(3) [OF l assms(3), of k v] that assms(2) by (auto simp: s'_def)
  moreover have "status s' = f (status s)"
    using live_frame_writes(5) [OF l assms(3)] by (simp add: s'_def)
  ultimately show ?thesis using assms(4) mirrors_cong [of "chip_reg V (bus s')"] by metis
qed

lemma status_cells_plain:
  assumes "set status_cells \<subseteq> plain"
  shows "(BANK_SENSOR, GAIN) \<in> plain" "(BANK_SENSOR, REG45) \<in> plain" "(BANK_SENSOR, AEC) \<in> plain"
    "(BANK_SENSOR, REG04) \<in> plain" "(BANK_DSP, QS) \<in> plain" "(BANK_SENSOR, COM9) \<in> plain"
    "(BANK_DSP, CTRL1) \<in> plain" "(BANK_SENSOR, COM8) \<in> plain" "(BANK_DSP, CTRL0) \<in> plain"
    "(BANK_DSP, CTRL3) \<in> plain" "(BANK_DSP, CTRL2) \<in> plain"
  using assms by (simp_all add: status_cells_def)

lemma clamp_bounds: "0 \<le> hi \<Longrightarrow> 0 \<le> clamp hi v" "0 \<le> hi \<Longrightarrow> clamp hi v \<le> hi"
  by (simp_all add: clamp_def)

lemma vflip_mirrors:
  assumes "live i2c V plain s" "set status_cells \<subseteq> plain" "n = 0 \<or> n = 1"
    and "mirrors (chip_reg V (bus s)) (status s)"
  defines "s' \<equiv> snd (set_vflip_sensor i2c n s)"
  shows "mirrors (chip_reg V (bus s')) (status s')"
proof -
  note p = status_cells_plain [OF assms(2)]
  let ?v = "\<lambda>m :: u8. if n \<noteq> 0 then m else 0"
  let ?t = "snd (set_reg_bits i2c BANK_SENSOR REG04 0 REG04_VREF_EN (?v REG04_VREF_EN) s)"
  have id: "set_status (\<lambda>t. t) u = u" for u :: "'d ov2640" by (simp add: set_status_def)
  have t: "mirrors (chip_reg V (bus ?t)) (status ?t)" "live i2c V plain ?t"
    using upd_mirrors [OF assms(1,2) p(4), of 0 REG04_VREF_EN "?v REG04_VREF_EN" "\<lambda>t. t"]
      mirrors_masked(4) [OF assms(4,3)] live_frame_writes(2) [OF assms(1) p(4)]
    by (simp_all add: id)
  have c: "set_reg_bits i2c BANK_SENSOR REG04 0 m v (set_status f s) =
      (\<lambda>(r, u). (r, set_status f u)) (set_reg_bits i2c BANK_SENSOR REG04 0 m v s)" for m v f
    by (simp add: set_reg_bits_def or_return_def set_bank_def sccb_read_def sccb_write_def
        set_status_def case_prod_beta)
  have "s' = snd (set_reg_bits i2c BANK_SENSOR REG04 0 REG04_VFLIP_IMG (?v REG04_VFLIP_IMG)
      (set_status (st_vflip_update (\<lambda>_. word_of_int n)) ?t))"
    by (simp add: s'_def set_vflip_sensor_def write_reg_bits_def case_prod_beta c)
  then show ?thesis
    using upd_mirrors [OF t(2) assms(2) p(4),
        where f = "st_vflip_update (\<lambda>_. word_of_int n)"] mirrors_masked(5) [OF t(1) assms(3)] by simp
qed

lemma aec_mirrors:
  fixes v :: int
  assumes "live i2c V plain s" "set status_cells \<subseteq> plain"
    and "mirrors (chip_reg V (bus s)) (status s)"
  defines "s' \<equiv> snd (set_aec_value i2c v s)"
  shows "mirrors (chip_reg V (bus s')) (status s')"
proof -
  note p = status_cells_plain [OF assms(2)]
  let ?R = "chip_reg V (bus s)" and ?c = "clamp 1200 v"
  let ?s = "set_status (st_aec_value_update (\<lambda>_. word_of_int ?c)) s"
  let ?s1 = "snd (set_reg_bits i2c BANK_SENSOR REG04 0 3 (word_of_int (?c AND 0x3)) ?s)"
  let ?s2 = "snd (write_reg i2c BANK_SENSOR AEC (word_of_int (drop_bit 2 ?c AND 0xFF)) ?s1)"
  let ?s3 = "snd (set_reg_bits i2c BANK_SENSOR REG45 0 0x3F (word_of_int (drop_bit 10 ?c)) ?s2)"
  have l: "live i2c V plain ?s" using assms(1) by simp
  have l1: "live i2c V plain ?s1" by (rule live_frame_writes(2) [OF l p(4)])
  have l2: "live i2c V plain ?s2" by (rule live_frame_writes(1) [OF l1 p(3)])
  have "chip_reg V (bus ?s3) k = (?R((BANK_SENSOR, REG04) :=
        merge_bits (?R (BANK_SENSOR, REG04)) 0 3 (word_of_int (?c AND 0x3)),
      (BANK_SENSOR, AEC) := word_of_int (drop_bit 2 ?c AND 0xFF),
      (BANK_SENSOR, REG45) := merge_bits (?R (BANK_SENSOR, REG45)) 0 0x3F (word_of_int (drop_bit 10 ?c)))) k"
    if "k \<in> set status_cells" for k
  proof -
    have k: "k \<in> plain" using that assms(2) by auto
    show ?thesis
      unfolding live_frame_writes(4) [OF l2 p(2) k] live_frame_writes(3) [OF l1 p(3) k]
        live_frame_writes(4) [OF l p(4) k] by auto
  qed
  moreover have "status ?s3 = (status s)\<lparr>st_aec_value := word_of_int ?c\<rparr>"
    using live_frame_writes(6) [OF l2 p(2)] live_frame_writes(5) [OF l1 p(3)]
      live_frame_writes(6) [OF l p(4)] by simp
  moreover have "s' = ?s3"
    using live_writes(4) [OF l] live_writes(3) [OF l1]
    by (simp add: s'_def set_aec_value_def Let_def c_or_def case_prod_beta)
  ultimately show ?thesis
    using mirrors_value(3) [OF assms(3), of ?c] mirrors_cong [of "chip_reg V (bus ?s3)"] by metis
qed

lemma c_truth: "((if n \<noteq> 0 then 1 else 0) \<noteq> (0 :: int)) = (n \<noteq> (0 :: int))"
  by simp

lemma call_mirrors:
  assumes "live i2c V plain s" "set status_cells \<subseteq> plain" "plain_control c"
    and "mirrors (chip_reg V (bus s)) (status s)"
  defines "s' \<equiv> snd (ov2640_init i2c c s)"
  shows "mirrors (chip_reg V (bus s')) (status s')"
proof -
  note p = status_cells_plain [OF assms(2)] and m = assms(4)
  note u = upd_mirrors [OF assms(1,2)] and w = wr_mirrors [OF assms(1,2)]
  note defs = s'_def ov2640_init.simps set_awb_dsp_def set_awb_gain_dsp_def set_raw_gma_dsp_def
    set_lenc_dsp_def set_dcw_dsp_def set_bpc_dsp_def set_wpc_dsp_def set_agc_sensor_def
    set_aec_sensor_def set_hmirror_sensor_def write_reg_bits_def set_quality_def set_agc_gain_def
    set_gainceiling_sensor_def Let_def c_truth
  show ?thesis
  proof (cases c)
    case (Set_quality n)
    show ?thesis unfolding Set_quality defs by (rule w [OF p(5)], rule mirrors_value(1) [OF m])
  next
    case (Set_agc_gain n)
    show ?thesis unfolding Set_agc_gain defs
      by (rule w [OF p(1)], rule mirrors_value(2) [OF m]) (simp_all add: clamp_bounds)
  next
    case (Set_aec_value n)
    then show ?thesis using aec_mirrors [OF assms(1,2) m, of n] by (simp add: s'_def)
  next
    case (Set_gainceiling n)
    show ?thesis unfolding Set_gainceiling defs
      by (rule u [OF p(6)], rule mirrors_value(4) [OF m]) (use assms(3) Set_gainceiling in simp_all)
  next
    case (Set_vflip n)
    then show ?thesis using vflip_mirrors [OF assms(1,2) _ m, of n] assms(3) by (simp add: s'_def)
  next
    case (Set_whitebal n)
    then have n: "n = 0 \<or> n = 1" using assms(3) by simp
    show ?thesis unfolding Set_whitebal defs by (rule u [OF p(7)], rule mirrors_switch(1) [OF m n])
  next
    case (Set_awb_gain n)
    then have n: "n = 0 \<or> n = 1" using assms(3) by simp
    show ?thesis unfolding Set_awb_gain defs by (rule u [OF p(7)], rule mirrors_switch(2) [OF m n])
  next
    case (Set_raw_gma n)
    then have n: "n = 0 \<or> n = 1" using assms(3) by simp
    show ?thesis unfolding Set_raw_gma defs by (rule u [OF p(7)], rule mirrors_switch(3) [OF m n])
  next
    case (Set_lenc n)
    then have n: "n = 0 \<or> n = 1" using assms(3) by simp
    show ?thesis unfolding Set_lenc defs by (rule u [OF p(7)], rule mirrors_switch(4) [OF m n])
  next
    case (Set_dcw n)
    then have n: "n = 0 \<or> n = 1" using assms(3) by simp
    show ?thesis unfolding Set_dcw defs by (rule u [OF p(11)], rule mirrors_switch(5) [OF m n])
  next
    case (Set_bpc n)
    then have n: "n = 0 \<or> n = 1" using assms(3) by simp
    show ?thesis unfolding Set_bpc defs by (rule u [OF p(10)], rule mirrors_switch(6) [OF m n])
  next
    case (Set_wpc n)
    then have n: "n = 0 \<or> n = 1" using assms(3) by simp
    show ?thesis unfolding Set_wpc defs by (rule u [OF p(10)], rule mirrors_switch(7) [OF m n])
  next
    case (Set_gain_ctrl n)
    then have n: "n = 0 \<or> n = 1" using assms(3) by simp
    show ?thesis unfolding Set_gain_ctrl defs by (rule u [OF p(8)], rule mirrors_masked(1) [OF m n])
  next
    case (Set_exposure_ctrl n)
    then have n: "n = 0 \<or> n = 1" using assms(3) by simp
    show ?thesis unfolding Set_exposure_ctrl defs by (rule u [OF p(8)], rule mirrors_masked(2) [OF m n])
  next
    case (Set_hmirror n)
    then have n: "n = 0 \<or> n = 1" using assms(3) by simp
    show ?thesis unfolding Set_hmirror defs by (rule u [OF p(4)], rule mirrors_masked(3) [OF m n])
  qed (use assms(3) in \<open>simp_all\<close>)
qed

text \<open>Neither reading the status nor a control changes the address of the chip.\<close>

lemma frame_addr: "frame s s' \<Longrightarrow> slv_addr s' = slv_addr s"
  by (simp add: frame_def)

lemma set_status_addr: "slv_addr (set_status f s) = slv_addr s"
  by (simp add: set_status_def)

lemmas op_addr = frame_addr [OF frame_write_reg] frame_addr [OF frame_set_reg_bits] frame_addr [OF frame_read_reg]
  frame_addr [OF frame_get_reg_bits] set_status_addr

lemma init_status_addr: "slv_addr (snd (init_status i2c s)) = slv_addr s"
  by (simp add: init_status_def Let_def case_prod_beta op_addr)

lemma plain_control_addr: "plain_control c \<Longrightarrow> slv_addr (snd (ov2640_init i2c c s)) = slv_addr s"
  by (cases c) (simp_all add: set_awb_dsp_def set_awb_gain_dsp_def set_raw_gma_dsp_def set_lenc_dsp_def set_dcw_dsp_def
      set_bpc_dsp_def set_wpc_dsp_def set_agc_sensor_def set_aec_sensor_def set_hmirror_sensor_def set_vflip_sensor_def
      write_reg_bits_def set_quality_def set_agc_gain_def set_gainceiling_sensor_def set_aec_value_def c_or_def
      case_prod_beta Let_def op_addr)

lemma plain_control_live:
  assumes "live i2c V plain s" "plain_control c"
  shows "live i2c V plain (snd (ov2640_init i2c c s))"
proof -
  have "harmless c" "c \<noteq> Reset" using assms(2) by (cases c; simp)+
  then show ?thesis
    using assms call_steady [of i2c V plain s c] plain_control_addr [OF assms(2), of i2c s] by (simp add: live_def)
qed

lemma controls_mirror:
  assumes "live i2c V plain s" "set status_cells \<subseteq> plain" "mirrors (chip_reg V (bus s)) (status s)" "\<forall>c \<in> set cs. plain_control c"
  defines "s' \<equiv> fold (\<lambda>c s. snd (ov2640_init i2c c s)) cs s"
  shows "mirrors (chip_reg V (bus s')) (status s')"
  using assms(1,3,4) unfolding s'_def
proof (induction cs arbitrary: s)
  case (Cons c cs)
  then show ?case
    using plain_control_live [of i2c V plain s c] call_mirrors [OF Cons.prems(1) assms(2), of c] by simp
qed simp


lemma file_cells: "set status_cells \<subseteq> file_plain"
  by (simp add: status_cells_def file_plain_def)


text \<open>The secondary exposure switch is the exception: it is written inverted and read back
  as it stands, so after switching it on or off a fresh reading of the status reports the
  opposite of what the status recorded.\<close>

theorem aec2_reads_back_inverted:
  assumes "chip_law i2c (slv_addr s) V plain" "reads_succeed i2c (slv_addr s)"
    and "writes_succeed i2c (slv_addr s)" "coherent V s" "set status_cells \<subseteq> plain" "n = 0 \<or> n = 1"
  shows "st_aec2 (status (snd (set_aec2 i2c n s))) = word_of_int n \<and>
    st_aec2 (status (snd (init_status i2c (snd (set_aec2 i2c n s))))) = 1 - word_of_int n"
proof -
  have l: "live i2c V plain s" by (rule liveI [OF assms(1-4)])
  let ?u = "set_status (st_aec2_update (\<lambda>_. word_of_int n)) s"
  let ?t = "snd (set_aec2 i2c n s)"
  note p = status_cells_plain [OF assms(5)]
  have lu: "live i2c V plain ?u" using l by simp
  note w = live_frame_writes [OF lu p(9)]
  have t: "?t = snd (set_reg_bits i2c BANK_DSP CTRL0 6 1 (if n \<noteq> 0 then 0 else 1) ?u)"
    by (simp add: set_aec2_def)
  have st: "steady i2c V plain ?t" using w(2) by (simp add: t live_def)
  have "st_aec2 (status (snd (init_status i2c ?t))) = field (chip_reg V (bus ?t) (BANK_DSP, CTRL0)) 6 1"
    using init_status_mirrors [OF st assms(5)] p(9) by simp
  also have "\<dots> = field (merge_bits (chip_reg V (bus ?u) (BANK_DSP, CTRL0)) 6 1 (if n \<noteq> 0 then 0 else 1)) 6 1"
    unfolding t w(4) [OF p(9)] by simp
  also have "\<dots> = 1 - word_of_int n"
    using assms(6) by (auto simp: field_merge_same) (auto simp: field_def)
  finally show ?thesis using w(6) unfolding t by simp
qed

theorem aec2_reads_back_inverted_witness:
  "st_aec2 (status (snd (init_status chip_transfer (snd (set_aec2 chip_transfer 1
     (fresh_sensor blank_file)))))) = 0"
  using aec2_reads_back_inverted [OF file_law file_succeeds(1,3) _ file_cells, of "fresh_sensor blank_file" 1]
  by (simp add: coherent_def fresh_sensor_def)

end
