(* ===== verification/OV2640_Window.thy ===== *)
theory OV2640_Window
  imports OV2640_Status
begin

text \<open>
  The window the OV2640 driver programs: the register scripts on the chip, the window registers
  against the requested window, and the window of every frame size against the sensor array;
  then the bounds of the tables and the behaviour of the driver after transfer errors.
\<close>

section \<open>The window\<close>

text \<open>The window as the DSP puts it together from its registers: size of the input window and of
  the output in units of four pixels, and the offsets.\<close>

definition decode_window :: "(u8 \<times> u8 \<Rightarrow> u8) \<Rightarrow> (u16 \<times> u16) \<times> (u16 \<times> u16) \<times> (u16 \<times> u16)" where
  "decode_window R =
    (let r = \<lambda>reg. R (BANK_DSP, reg) in
     ((ucast (r HSIZE) OR push_bit 8 (ucast (field (r VHYX) 3 1)) OR push_bit 9 (ucast (field (r TEST) 7 1)),
       ucast (r VSIZE) OR push_bit 8 (ucast (field (r VHYX) 7 1))),
      (ucast (r XOFFL) OR push_bit 8 (ucast (field (r VHYX) 0 7)),
       ucast (r YOFFL) OR push_bit 8 (ucast (field (r VHYX) 4 7))),
      (ucast (r ZMOW) OR push_bit 8 (ucast (field (r ZMHH) 0 3)),
       ucast (r ZMOH) OR push_bit 8 (ucast (field (r ZMHH) 2 1)))))"

lemma bit_small:
  assumes "0 \<le> (x :: int)" "x < 2 ^ k" "k \<le> n"
  shows "\<not> bit x n"
proof -
  have "x = take_bit k x" using assms by (simp add: take_bit_int_eq_self)
  then show ?thesis using assms(3) by (metis bit_take_bit_iff not_le)
qed

lemma bit_literals:
  "bit (0x80 :: int) n \<longleftrightarrow> n = 7" "bit (0x08 :: int) n \<longleftrightarrow> n = 3" "bit (0x04 :: int) n \<longleftrightarrow> n = 2"
  "bit (0x07 :: int) n \<longleftrightarrow> n < 3" "bit (0x70 :: int) n \<longleftrightarrow> 4 \<le> n \<and> n < 7"
  "bit (0x03 :: int) n \<longleftrightarrow> n < 2" "bit (0xFF :: int) n \<longleftrightarrow> n < 8"
proof -
  have l: "0x80 = (2 ^ 7 :: int)" "0x08 = (2 ^ 3 :: int)" "0x04 = (2 ^ 2 :: int)"
    "0x07 = (mask 3 :: int)" "0x70 = push_bit 4 (mask 3 :: int)" "0x03 = (mask 2 :: int)"
    "0xFF = (mask 8 :: int)"
    by (simp_all add: mask_eq_exp_minus_1)
  show "bit (0x80 :: int) n \<longleftrightarrow> n = 7" "bit (0x08 :: int) n \<longleftrightarrow> n = 3" "bit (0x04 :: int) n \<longleftrightarrow> n = 2"
    "bit (0x07 :: int) n \<longleftrightarrow> n < 3" "bit (0x70 :: int) n \<longleftrightarrow> 4 \<le> n \<and> n < 7"
    "bit (0x03 :: int) n \<longleftrightarrow> n < 2" "bit (0xFF :: int) n \<longleftrightarrow> n < 8"
    unfolding l bit_exp_iff bit_mask_iff bit_push_bit_iff by (auto simp: possible_bit_def)
qed

lemmas window_bits = bit_simps bit_literals field_def bit_1_iff

text \<open>The shared high-bits registers, bit by bit.\<close>

lemma vhyx_bits:
  fixes my oy mx ox :: int
  defines "b \<equiv> word_of_int ((drop_bit 1 my AND 0x80) OR (drop_bit 4 oy AND 0x70) OR
       (drop_bit 5 mx AND 0x08) OR (drop_bit 8 ox AND 0x07)) :: u8"
  shows "bit b 7 = bit my 8" "4 \<le> n \<Longrightarrow> n < 7 \<Longrightarrow> bit b n = bit oy (n + 4)"
    "bit b 3 = bit mx 8" "n < 3 \<Longrightarrow> bit b n = bit ox (n + 8)"
  by (auto simp: b_def window_bits add.commute)

lemma zmhh_bits:
  fixes w h :: int
  defines "b \<equiv> word_of_int ((drop_bit 6 h AND 0x04) OR (drop_bit 8 w AND 0x03)) :: u8"
  shows "bit b 2 = bit h 8" "n < 2 \<Longrightarrow> bit b n = bit w (n + 8)"
  by (auto simp: b_def window_bits add.commute)

lemma low_byte: "bit (ucast (word_of_int (x AND 0xFF) :: u8) :: u16) n \<longleftrightarrow> n < 8 \<and> bit x n" for x :: int
  by (auto simp: window_bits)

text \<open>A number is its low byte and the fields that hold its higher bits.\<close>

lemma join_two:
  assumes "0 \<le> x" "x < 2 ^ (8 + k)" "\<And>n. n < 8 \<Longrightarrow> bit m n = (n < k)" "k \<le> 8" "off + k \<le> 8"
    and "\<And>n. n < k \<Longrightarrow> bit c (n + off) = bit x (n + 8)"
  shows "ucast (word_of_int (x AND 0xFF) :: u8) OR push_bit 8 (ucast (field c off m)) = (word_of_int x :: u16)"
proof (rule bit_word_eqI)
  fix n assume n: "n < LENGTH(16)"
  have f: "bit (ucast (field c off m) :: u16) i \<longleftrightarrow> i < k \<and> bit c (i + off)" if "i < 8" for i
    using assms(3) [OF that] assms(4) that
    by (auto simp: field_def bit_simps add.commute dest: bit_imp_le_length)
  show "bit (ucast (word_of_int (x AND 0xFF) :: u8) OR push_bit 8 (ucast (field c off m)) :: u16) n =
      bit (word_of_int x :: u16) n"
  proof (cases "n < 8")
    case True
    then show ?thesis by (simp add: low_byte bit_or_iff bit_push_bit_iff bit_simps bit_literals)
  next
    case False
    define i where "i = n - 8"
    then have i: "n = i + 8" "i < 8" using n False by auto
    have "bit x (i + 8) \<Longrightarrow> i < k" using bit_small [OF assms(1,2), of "i + 8"] by linarith
    then have "bit (ucast (field c off m) :: u16) i = bit x (i + 8)" using f [OF i(2)] assms(6) by blast
    then show ?thesis
      using i by (simp add: bit_or_iff bit_push_bit_iff bit_word_of_int_iff low_byte)
  qed
qed

text \<open>The register script of a window decodes to the window.\<close>

definition script_get :: "reg_table \<Rightarrow> u8 \<Rightarrow> u8" where
  "script_get t reg = (case map_of t reg of Some v \<Rightarrow> v | None \<Rightarrow> 0)"

lemma decode_encode_window:
  assumes "0 \<le> mx" "mx < 2 ^ 10" "0 \<le> my" "my < 2 ^ 9" "0 \<le> ox" "ox < 2 ^ 11"
    "0 \<le> oy" "oy < 2 ^ 11" "0 \<le> w" "w < 2 ^ 10" "0 \<le> h" "h < 2 ^ 9"
    and R: "\<And>reg. reg \<in> {HSIZE, VSIZE, XOFFL, YOFFL, VHYX, TEST, ZMOW, ZMOH, ZMHH} \<Longrightarrow>
      R (BANK_DSP, reg) = script_get (win_regs ox oy mx my w h) reg"
  shows "decode_window R = ((word_of_int mx, word_of_int my), (word_of_int ox, word_of_int oy),
    (word_of_int w, word_of_int h))"
proof -
  let ?V = "word_of_int ((drop_bit 1 my AND 0x80) OR (drop_bit 4 oy AND 0x70) OR
       (drop_bit 5 mx AND 0x08) OR (drop_bit 8 ox AND 0x07)) :: u8"
  let ?Z = "word_of_int ((drop_bit 6 h AND 0x04) OR (drop_bit 8 w AND 0x03)) :: u8"
  let ?T = "word_of_int (drop_bit 2 mx AND 0x80) :: u8"
  have r: "R (BANK_DSP, HSIZE) = word_of_int (mx AND 0xFF)" "R (BANK_DSP, VSIZE) = word_of_int (my AND 0xFF)"
    "R (BANK_DSP, XOFFL) = word_of_int (ox AND 0xFF)" "R (BANK_DSP, YOFFL) = word_of_int (oy AND 0xFF)"
    "R (BANK_DSP, VHYX) = ?V" "R (BANK_DSP, TEST) = ?T"
    "R (BANK_DSP, ZMOW) = word_of_int (w AND 0xFF)" "R (BANK_DSP, ZMOH) = word_of_int (h AND 0xFF)"
    "R (BANK_DSP, ZMHH) = ?Z"
    by (simp_all add: R script_get_def win_regs_def)
  have y: "ucast (word_of_int (my AND 0xFF) :: u8) OR push_bit 8 (ucast (field ?V 7 1)) = (word_of_int my :: u16)"
    using assms(3,4) vhyx_bits(1) [of my oy mx ox] by (intro join_two [where k = 1]) (auto simp: bit_1_iff)
  have ox: "ucast (word_of_int (ox AND 0xFF) :: u8) OR push_bit 8 (ucast (field ?V 0 7)) = (word_of_int ox :: u16)"
    using assms(5,6) by (intro join_two [where k = 3]) (simp_all add: bit_literals vhyx_bits(4) del: One_nat_def)
  have oy: "ucast (word_of_int (oy AND 0xFF) :: u8) OR push_bit 8 (ucast (field ?V 4 7)) = (word_of_int oy :: u16)"
    using assms(7,8) by (intro join_two [where k = 3]) (simp_all add: bit_literals vhyx_bits(2) add.commute del: One_nat_def)
  have w: "ucast (word_of_int (w AND 0xFF) :: u8) OR push_bit 8 (ucast (field ?Z 0 3)) = (word_of_int w :: u16)"
    using assms(9,10) by (intro join_two [where k = 2]) (simp_all add: bit_literals zmhh_bits(2))
  have h: "ucast (word_of_int (h AND 0xFF) :: u8) OR push_bit 8 (ucast (field ?Z 2 1)) = (word_of_int h :: u16)"
    using assms(11,12) zmhh_bits(1) [of h w]
    by (intro join_two [where k = 1]) (auto simp: bit_1_iff numeral_2_eq_2)
  have x: "ucast (word_of_int (mx AND 0xFF) :: u8) OR push_bit 8 (ucast (field ?V 3 1)) OR
      push_bit 9 (ucast (field ?T 7 1)) = (word_of_int mx :: u16)"
  proof (rule bit_word_eqI)
    fix n assume n: "n < LENGTH(16)"
    then consider "n < 8" | "n = 8" | "n = 9" | "10 \<le> n" by linarith
    then show "bit (ucast (word_of_int (mx AND 0xFF) :: u8) OR push_bit 8 (ucast (field ?V 3 1)) OR
        push_bit 9 (ucast (field ?T 7 1)) :: u16) n = bit (word_of_int mx :: u16) n"
    proof cases
      case 4
      then show ?thesis using bit_small [OF assms(1,2), of n]
        by (auto simp: bit_or_iff bit_push_bit_iff low_byte bit_word_of_int_iff field_def bit_1_iff bit_and_iff
            bit_unsigned_iff)
    qed (use n vhyx_bits(3) [of my oy mx ox] in
        \<open>auto simp: bit_or_iff bit_push_bit_iff low_byte bit_word_of_int_iff field_def bit_1_iff bit_and_iff
          bit_unsigned_iff bit_drop_bit_eq bit_literals\<close>)
  qed
  show ?thesis unfolding decode_window_def Let_def r x y ox oy w h by simp
qed

text \<open>A script on the chip: the value last written to a cell, from a given bank on.\<close>

fun script_last :: "reg_table \<Rightarrow> u8 \<Rightarrow> u8 \<times> u8 \<Rightarrow> u8 option" where
  "script_last [] b k = None"
| "script_last ((reg, v) # t) b k =
    (if reg = 0 then None
     else if reg = BANK_SEL then script_last t v k
     else case script_last t b k of Some x \<Rightarrow> Some x
       | None \<Rightarrow> if k = (b, reg) then Some v else None)"

definition in_bank :: "'d i2c \<Rightarrow> 'd chip_view \<Rightarrow> (u8 \<times> u8) set \<Rightarrow> u8 \<Rightarrow> 'd ov2640 \<Rightarrow> bool" where
  "in_bank i2c V plain b s \<longleftrightarrow> live i2c V plain s \<and> chip_bank V (bus s) = b \<and> reg_bank s = b"

lemma in_bank_select:
  fixes c :: u8
  assumes "in_bank i2c V plain b s"
  defines "s' \<equiv> snd (set_bank i2c c s)"
  shows "in_bank i2c V plain c s' \<and> fst (set_bank i2c c s) = 0 \<and>
    (\<forall>k \<in> plain. chip_reg V (bus s') k = chip_reg V (bus s) k)"
proof -
  have l: "live i2c V plain s" using assms(1) by (simp add: in_bank_def)
  have st: "steady i2c V plain s'"
    using l by (simp add: s'_def live_def keepsD [OF keeps_set_bank])
  have a: "slv_addr s' = slv_addr s" using frame_set_bank [of s i2c c] by (simp add: s'_def frame_def)
  let ?t = "s\<lparr>reg_bank := c\<rparr>"
  have t: "on_chip i2c V plain ?t" "\<not> starts_reset V (bus ?t) BANK_SEL c"
    "fst (sccb_write i2c BANK_SEL c ?t) = 0"
    using l live_writes(1) [of i2c V plain ?t]
    by (auto simp: live_def steady_def on_chip_def starts_reset_def sccb_write_def SCCB_Write_def
        writes_succeed_def case_prod_beta)
  show ?thesis
    using sccb_write_ok(2-4) [OF t(1,2)] t(3) live_writes(2) [OF l] st a l assms(1)
    by (auto simp: s'_def set_bank_def in_bank_def live_def)
qed

lemma in_bank_write:
  assumes "in_bank i2c V plain b s" "tame reg v"
  defines "s' \<equiv> snd (sccb_write i2c reg v s)"
  shows "in_bank i2c V plain b s' \<and> fst (sccb_write i2c reg v s) = 0 \<and>
    (\<forall>k \<in> plain. chip_reg V (bus s') k = (if k = (b, reg) then v else chip_reg V (bus s) k))"
proof -
  have l: "live i2c V plain s" using assms(1) by (simp add: in_bank_def)
  have t: "on_chip i2c V plain s" "\<not> starts_reset V (bus s) reg v"
    using l assms(2) by (auto simp: live_def steady_def tame_def starts_reset_def)
  have st: "steady i2c V plain s'"
    using l by (simp add: s'_def live_def steady_sccb_write [OF _ assms(2)])
  have a: "slv_addr s' = slv_addr s" using frame_sccb_write [of s i2c reg v] by (simp add: s'_def frame_def)
  show ?thesis
    using sccb_write_ok(1,3,4) [OF t] live_writes(1) [OF l] st a l assms(1,2)
    by (auto simp: s'_def in_bank_def live_def tame_def)
qed

lemma script_on_chip:
  assumes "in_bank i2c V plain b s" "quiet_script t"
  defines "s' \<equiv> snd (write_regs i2c t s)"
  shows "(\<exists>c. in_bank i2c V plain c s') \<and> fst (write_regs i2c t s) = 0 \<and>
    (\<forall>k \<in> plain. chip_reg V (bus s') k =
      (case script_last t b k of Some v \<Rightarrow> v | None \<Rightarrow> chip_reg V (bus s) k))"
  using assms(1,2) unfolding s'_def
proof (induction t arbitrary: b s)
  case Nil
  then show ?case by auto
next
  case (Cons e t)
  obtain reg v where e: "e = (reg, v)" by (cases e)
  have q: "quiet_script t" using Cons.prems(2) by (simp add: quiet_script_def)
  consider "reg = 0" | "reg = BANK_SEL" | "reg \<noteq> 0" "reg \<noteq> BANK_SEL" by blast
  then show ?case
  proof cases
    case 1
    then show ?thesis using Cons.prems(1) by (auto simp: e)
  next
    case 2
    note b = in_bank_select [OF Cons.prems(1), of v]
    show ?thesis using Cons.IH [OF conjunct1 [OF b] q] b by (simp add: e 2 or_return_simps split: option.splits)
  next
    case 3
    have "tame reg v" using 3 Cons.prems(2) by (simp add: tame_def quiet_script_def e)
    note w = in_bank_write [OF Cons.prems(1) this]
    show ?thesis
      using Cons.IH [OF conjunct1 [OF w] q] w 3 by (auto simp: e or_return_simps split: option.splits)
  qed
qed

definition window_cells :: "(u8 \<times> u8) list" where
  "window_cells = map (Pair BANK_DSP) [HSIZE, VSIZE, XOFFL, YOFFL, VHYX, TEST, ZMOW, ZMOH, ZMHH]"

lemma in_bank_write_reg:
  assumes "live i2c V plain s" "b \<noteq> BANK_MAX" "tame reg v"
  defines "s' \<equiv> snd (write_reg i2c b reg v s)"
  shows "in_bank i2c V plain b s' \<and> fst (write_reg i2c b reg v s) = 0 \<and>
    (\<forall>k \<in> plain. chip_reg V (bus s') k = (if k = (b, reg) then v else chip_reg V (bus s) k))"
proof -
  let ?t = "snd (set_bank i2c b s)"
  have z: "fst (set_bank i2c b s) = 0" by (rule live_writes(2) [OF assms(1)])
  have o: "on_chip i2c V plain s" "coherent V s" using assms(1) by (simp_all add: live_def steady_def)
  note bk = set_bank_ok [OF o assms(2) z]
  have st: "steady i2c V plain ?t" using assms(1) by (simp add: live_def keepsD [OF keeps_set_bank])
  have "slv_addr ?t = slv_addr s" using frame_set_bank [of s i2c b] by (simp add: frame_def)
  then have "in_bank i2c V plain b ?t" using bk(1,2) st assms(1) by (simp add: in_bank_def live_def)
  from in_bank_write [OF this assms(3)] show ?thesis
    using z bk(3) by (auto simp: s'_def write_reg_def or_return_simps)
qed

lemma window_script:
  assumes "k \<in> set window_cells"
  shows "script_last (win_regs ox oy mx my w h) b k = Some (script_get (win_regs ox oy mx my w h) (snd k))"
  using assms by (auto simp: window_cells_def win_regs_def script_get_def)

lemma format_spares_window:
  assumes "format_script fmt = Some t" "k \<in> set window_cells"
  shows "script_last t b k = None"
  using assms
  by (auto simp: format_script_def window_cells_def format_scripts split: pixformat_t.splits)

lemma pixformat_spares_window:
  assumes "in_bank i2c V plain b s" "k \<in> set window_cells" "k \<in> plain"
  shows "chip_reg V (bus (snd (set_pixformat i2c fmt s))) k = chip_reg V (bus s) k"
proof (cases "format_script fmt")
  case None
  then show ?thesis by (simp add: set_pixformat_def Let_def)
next
  case (Some t)
  have "in_bank i2c V plain b (s\<lparr>pixformat := fmt\<rparr>)"
    using assms(1) by (simp add: in_bank_def live_def)
  from script_on_chip [OF this quiet_format [OF Some]] show ?thesis
    using assms(3) format_spares_window [OF Some assms(2)] Some by (simp add: set_pixformat_def Let_def)
qed

text \<open>After the window registers are written nothing else touches them.\<close>

lemma set_window_cells:
  fixes ox oy mx my w h :: int
  assumes "live i2c V plain s" "k \<in> set window_cells" "k \<in> plain"
  defines "t \<equiv> win_regs ox oy (c_div mx 4) (c_div my 4) (c_div w 4) (c_div h 4)"
  shows "fst (set_window i2c m ox oy mx my w h s) = 0 \<and>
    chip_reg V (bus (snd (set_window i2c m ox oy mx my w h s))) k = script_get t (snd k)"
proof -
  let ?c = "window_clock (pixformat s) m"
  let ?s1 = "snd (write_reg i2c BANK_DSP R_BYPASS R_BYPASS_DSP_BYPAS s)"
  let ?s2 = "snd (write_regs i2c (mode_script m) ?s1)"
  let ?s3 = "snd (write_regs i2c t ?s2)"
  let ?s4 = "snd (write_reg i2c BANK_SENSOR CLKRC (clk_byte ?c) ?s3)"
  let ?s5 = "snd (write_reg i2c BANK_DSP R_DVP_SP (pclk_byte ?c) ?s4)"
  let ?s6 = "snd (write_reg i2c BANK_DSP R_BYPASS R_BYPASS_DSP_EN ?s5)"
  have l: "in_bank i2c V plain b u \<Longrightarrow> live i2c V plain u" for b u by (simp add: in_bank_def)
  have k: "k \<noteq> (BANK_SENSOR, CLKRC)" "k \<noteq> (BANK_DSP, R_DVP_SP)" "k \<noteq> (BANK_DSP, R_BYPASS)"
    using assms(2) by (auto simp: window_cells_def)
  note b1 = in_bank_write_reg [OF assms(1), of BANK_DSP R_BYPASS R_BYPASS_DSP_BYPAS]
  have i1: "in_bank i2c V plain BANK_DSP ?s1" using b1 by (simp add: tame_def)
  obtain b2 where i2: "in_bank i2c V plain b2 ?s2" "fst (write_regs i2c (mode_script m) ?s1) = 0"
    using script_on_chip [OF i1 quiet_mode] by blast
  have q: "quiet_script t" by (simp add: t_def quiet_window)
  obtain b3 where i3: "in_bank i2c V plain b3 ?s3" "fst (write_regs i2c t ?s2) = 0"
    "chip_reg V (bus ?s3) k = script_get t (snd k)"
    using script_on_chip [OF i2(1) q] window_script [OF assms(2)] assms(3) by (auto simp: t_def)
  have w: "in_bank i2c V plain b (snd (write_reg i2c b r v u)) \<and> fst (write_reg i2c b r v u) = 0 \<and>
      chip_reg V (bus (snd (write_reg i2c b r v u))) k = chip_reg V (bus u) k"
    if "in_bank i2c V plain c u" "b \<noteq> BANK_MAX" "tame r v" "k \<noteq> (b, r)" for b c r v u
    using in_bank_write_reg [OF l [OF that(1)] that(2,3)] that(4) assms(3) by auto
  note i4 = w [OF i3(1), of BANK_SENSOR CLKRC "clk_byte ?c"]
  note i5 = w [OF conjunct1 [OF i4], of BANK_DSP R_DVP_SP "pclk_byte ?c"]
  note i6 = w [OF conjunct1 [OF i5], of BANK_DSP R_BYPASS R_BYPASS_DSP_EN]
  show ?thesis
    using b1 i2(2) i3(2,3) i4 i5 i6 k
      pixformat_spares_window [OF conjunct1 [OF i6] assms(2,3), of "pixformat ?s6"]
    by (simp add: set_window_def Let_def or_return_simps tame_def t_def)
qed

lemmas frame_window_eval = frame_window_def Let_def resolution_def resolution_table_def res_info_def
  ratio_table_def ratio_settings_def

lemma frame_window_bounds:
  assumes "frame_window fs = (m, ox, oy, mx, my)"
  shows "ox < 2 ^ 11 \<and> oy < 2 ^ 11 \<and> mx div 4 < 2 ^ 10 \<and> my div 4 < 2 ^ 9 \<and>
    res_width (resolution fs) div 4 < 2 ^ 10 \<and> res_height (resolution fs) div 4 < 2 ^ 9"
  using assms by (cases fs) (auto simp: frame_window_eval)

lemma c_div_int4: "c_div (int a) 4 = int (a div 4)"
  by (simp add: c_div_nonneg zdiv_int)

text \<open>C17: setting a frame size programs its window: on a bus without errors the call succeeds and
  the window registers, spread over nine registers with shared high bits, decode to the
  window of the frame size (input and output sizes in units of four pixels), none of the many
  later register writes of the call disturbing them.\<close>

theorem window_programmed:
  assumes "chip_law i2c (slv_addr s) V plain" "reads_succeed i2c (slv_addr s)"
    and "writes_succeed i2c (slv_addr s)" "coherent V s" "set window_cells \<subseteq> plain"
    and "frame_window fs = (m, ox, oy, mx, my)"
  shows "fst (set_framesize i2c fs s) = 0 \<and>
    decode_window (chip_reg V (bus (snd (set_framesize i2c fs s)))) =
      ((of_nat (mx div 4), of_nat (my div 4)), (of_nat ox, of_nat oy),
       (of_nat (res_width (resolution fs) div 4), of_nat (res_height (resolution fs) div 4)))"
proof -
  let ?s = "set_status (st_framesize_update (\<lambda>_. fs)) s"
  let ?w = "res_width (resolution fs)" and ?h = "res_height (resolution fs)"
  have l: "live i2c V plain ?s" using liveI [OF assms(1-4)] by simp
  note c = set_window_cells [OF l, where ox = "int ox" and oy = "int oy" and mx = "int mx"
    and my = "int my" and w = "int ?w" and h = "int ?h" and m = m, unfolded c_div_int4]
  let ?R = "chip_reg V (bus (snd (set_framesize i2c fs s)))"
  have e: "set_framesize i2c fs s = set_window i2c m (int ox) (int oy) (int mx) (int my) (int ?w) (int ?h) ?s"
    using assms(6) by (simp add: set_framesize_def)
  have R: "?R (BANK_DSP, reg) = script_get (win_regs (int ox) (int oy) (int (mx div 4)) (int (my div 4))
      (int (?w div 4)) (int (?h div 4))) reg"
    if "reg \<in> {HSIZE, VSIZE, XOFFL, YOFFL, VHYX, TEST, ZMOW, ZMOH, ZMHH}" for reg
    using c [of "(BANK_DSP, reg)"] that assms(5) by (auto simp: e window_cells_def)
  have f: "fst (set_framesize i2c fs s) = 0"
    using c [of "(BANK_DSP, HSIZE)"] assms(5) by (simp add: e window_cells_def)
  note b = frame_window_bounds [OF assms(6)]
  have i: "int a < 2 ^ n" if "a < 2 ^ n" for a n using that by (metis of_nat_less_iff of_nat_numeral of_nat_power)
  have "decode_window ?R = ((word_of_int (int (mx div 4)), word_of_int (int (my div 4))),
      (word_of_int (int ox), word_of_int (int oy)),
      (word_of_int (int (?w div 4)), word_of_int (int (?h div 4))))"
    using b by (intro decode_encode_window R i) auto
  then show ?thesis using f by simp
qed

theorem window_programmed_witness:
  "decode_window (rf_regs (bus (snd (set_framesize chip_transfer FRAMESIZE_240X240
     (fresh_sensor blank_file))))) = ((75, 74), (50, 0), (60, 60))"
proof -
  have f: "frame_window FRAMESIZE_240X240 = (OV2640_MODE_CIF, 50, 0, 300, 296)"
    by (simp add: frame_window_eval)
  have c: "set window_cells \<subseteq> file_plain" by (auto simp: window_cells_def file_plain_def)
  show ?thesis
    using window_programmed [OF file_law file_succeeds(1,3) _ c f, of "fresh_sensor blank_file"]
    by (simp add: coherent_def fresh_sensor_def file_view_def resolution_def resolution_table_def res_info_def)
qed

text \<open>Every frame size the OV2640 offers (up to UXGA) is cut from within the sensor array and
  never enlarged: the window, offsets included, fits the array size that the script of its mode
  programs, and the output is no larger than the window.\<close>

definition array_size :: "ov2640_sensor_mode_t \<Rightarrow> nat \<times> nat" where
  "array_size m = (8 * unat (script_get (mode_script m) HSIZE8), 8 * unat (script_get (mode_script m) VSIZE8))"

theorem frame_window_fits:
  assumes "framesize_index fs \<le> framesize_index (max_size (camera_sensor ! 1))"
    and "frame_window fs = (m, ox, oy, mx, my)"
  shows "ox + mx \<le> fst (array_size m) \<and> oy + my \<le> snd (array_size m) \<and>
    res_width (resolution fs) \<le> mx \<and> res_height (resolution fs) \<le> my"
proof -
  have a: "array_size OV2640_MODE_CIF = (400, 296)" "array_size OV2640_MODE_SVGA = (800, 600)"
    "array_size OV2640_MODE_UXGA = (1600, 1200)"
    by (simp_all add: array_size_def script_get_def mode_script_def mode_scripts)
  have "framesize_index fs \<le> 13"
    using assms(1) by (simp add: camera_sensor_def sensor_info_def)
  then show ?thesis using assms(2) by (cases fs) (auto simp: frame_window_eval a)
qed

theorem frame_window_fits_witness:
  "50 + 300 \<le> fst (array_size OV2640_MODE_CIF)"
  using frame_window_fits [of FRAMESIZE_240X240 OV2640_MODE_CIF 50 0 300 296]
  by (simp add: frame_window_eval camera_sensor_def sensor_info_def)

section \<open>Table bounds and rejected levels\<close>

definition terminated :: "reg_table \<Rightarrow> bool" where
  "terminated t \<longleftrightarrow> map fst t = map fst (filter (\<lambda>(r, v). r \<noteq> 0) t) @ [0]"

definition row_ok :: "u8 list list \<Rightarrow> int \<Rightarrow> nat \<Rightarrow> bool" where
  "row_ok t level n \<longleftrightarrow> 0 \<le> level \<and> nat level < length t \<and> length (t ! 0) = n \<and> length (t ! nat level) = n"

text \<open>The driver stays inside its tables. Every script ends with its only zero register, so
  walking it neither stops early nor runs past the end. A level in range names a row as wide as
  the loop over it; a level out of range is answered with -1 and changes nothing. The gain
  index is within its table for every argument.\<close>

theorem tables_in_bounds:
  "terminated ov2640_settings_cif \<and> terminated (mode_script m) \<and>
   (case format_script fmt of Some t \<Rightarrow> terminated t | None \<Rightarrow> True) \<and>
   (if -2 \<le> n \<and> n \<le> 2 then row_ok contrast_regs (n + 3) 7 else set_contrast i2c n s = (-1, s)) \<and>
   (if -2 \<le> n \<and> n \<le> 2 then row_ok brightness_regs (n + 3) 5 else set_brightness i2c n s = (-1, s)) \<and>
   (if -2 \<le> n \<and> n \<le> 2 then row_ok saturation_regs (n + 3) 5 else set_saturation i2c n s = (-1, s)) \<and>
   (if -2 \<le> n \<and> n \<le> 2 then row_ok ae_levels_regs (n + 3) 3 else set_ae_level i2c n s = (-1, s)) \<and>
   (if 0 \<le> n \<and> n \<le> 6 then row_ok special_effects_regs (n + 1) 5 else set_special_effect i2c n s = (-1, s)) \<and>
   (if 0 \<le> n \<and> n \<le> 11 then row_ok wb_modes_regs n 3 else set_wb_mode i2c n s = (-1, s)) \<and>
   nat (clamp 30 n) < length agc_gain_tbl"
proof (intro conjI)
  show "terminated ov2640_settings_cif" by (simp add: terminated_def ov2640_settings_cif_def)
  show "terminated (mode_script m)" by (simp add: terminated_def mode_script_def mode_scripts)
  show "case format_script fmt of Some t \<Rightarrow> terminated t | None \<Rightarrow> True"
    by (simp add: terminated_def format_script_def format_scripts split: pixformat_t.splits)
  have five: "nat (n + 3) \<in> {1, 2, 3, 4, 5}" if "-2 \<le> n \<and> n \<le> 2" using that by auto
  show "if -2 \<le> n \<and> n \<le> 2 then row_ok contrast_regs (n + 3) 7 else set_contrast i2c n s = (-1, s)"
    using five by (auto simp: row_ok_def contrast_regs_def set_contrast_def NUM_CONTRAST_LEVELS_def)
  show "if -2 \<le> n \<and> n \<le> 2 then row_ok brightness_regs (n + 3) 5 else set_brightness i2c n s = (-1, s)"
    using five by (auto simp: row_ok_def brightness_regs_def set_brightness_def NUM_BRIGHTNESS_LEVELS_def)
  show "if -2 \<le> n \<and> n \<le> 2 then row_ok saturation_regs (n + 3) 5 else set_saturation i2c n s = (-1, s)"
    using five by (auto simp: row_ok_def saturation_regs_def set_saturation_def NUM_SATURATION_LEVELS_def)
  show "if -2 \<le> n \<and> n \<le> 2 then row_ok ae_levels_regs (n + 3) 3 else set_ae_level i2c n s = (-1, s)"
    using five by (auto simp: row_ok_def ae_levels_regs_def set_ae_level_def NUM_AE_LEVELS_def)
  have "nat (n + 1) \<in> {1, 2, 3, 4, 5, 6, 7}" if "0 \<le> n \<and> n \<le> 6" using that by auto
  then show "if 0 \<le> n \<and> n \<le> 6 then row_ok special_effects_regs (n + 1) 5 else set_special_effect i2c n s = (-1, s)"
    by (auto simp: row_ok_def special_effects_regs_def set_special_effect_def NUM_SPECIAL_EFFECTS_def)
  have "list_all (\<lambda>i. length (wb_modes_regs ! i) = 3) [0..<12]" by code_simp
  then have "length (wb_modes_regs ! nat n) = 3" if "0 \<le> n \<and> n \<le> 11"
    using that by (simp add: list_all_iff nat_less_iff)
  moreover have "length wb_modes_regs = 12" "length (wb_modes_regs ! 0) = 3"
    by (simp_all add: wb_modes_regs_def)
  ultimately show "if 0 \<le> n \<and> n \<le> 11 then row_ok wb_modes_regs n 3 else set_wb_mode i2c n s = (-1, s)"
    by (auto simp: row_ok_def set_wb_mode_def NUM_WB_MODES_def nat_less_iff)
  have "length agc_gain_tbl = 31" by (simp add: agc_gain_tbl_def)
  then show "nat (clamp 30 n) < length agc_gain_tbl" by (simp add: clamp_def nat_less_iff)
qed

section \<open>After transfer errors\<close>

definition sensor_on :: "bool list \<Rightarrow> reg_file \<Rightarrow> (bool list \<times> reg_file) ov2640" where
  "sensor_on faults c = (fresh_sensor (faults, c))\<lparr>reg_bank := BANK_DSP\<rparr>"

lemmas fault_simps = sensor_on_def fresh_sensor_def faulty_transfer_def transfer_simps blank_file_def
  read_reg_def write_reg_def set_reg_bits_def or_return_def chip_transfer_links

text \<open>A bank selection that fails is believed. When the selection in a direct register write
  to the sensor bank gets lost, the call writes the register of the same number in the DSP
  bank instead, reports success, and leaves the cache pointing at the wrong bank.\<close>

theorem lost_bank_select_hits_wrong_register:
  "\<exists>s'. set_reg faulty_transfer 0x144 0xFF 0x2A (sensor_on [True] blank_file) = (0, s') \<and>
     rf_regs (snd (bus s')) (BANK_SENSOR, 0x44) = 0 \<and> rf_regs (snd (bus s')) (BANK_DSP, QS) = 0x2A \<and>
     reg_bank s' = BANK_SENSOR \<and> rf_bank (snd (bus s')) = BANK_DSP"
  by (simp add: set_reg_def reg_sel_def fault_simps)

text \<open>A read that fails is not noticed. When the read of a bit update gets lost, the update
  merges its bits into the answer of the failed read, all ones, and reports success: switching
  one bit of a cleared register sets all of them.\<close>

theorem lost_read_clobbers_register:
  "\<exists>s'. set_awb_dsp faulty_transfer 1 (sensor_on [True] blank_file) = (0, s') \<and>
     rf_regs (snd (bus s')) (BANK_DSP, CTRL1) = 0xFF"
  by (simp add: set_awb_dsp_def set_status_def truth_def merge_bits_def fault_simps)

text \<open>The vertical flip reports success although its first half failed.\<close>

lemma vflip_hides_error:
  "fst (set_vflip_sensor faulty_transfer 1 (sensor_on [False, False, False, True] blank_file)) = 0"
  by (simp add: set_vflip_sensor_def write_reg_bits_def set_status_def merge_bits_def fault_simps)

section \<open>Detection and reset\<close>

text \<open>Detection speaks to the chip past the bank cache, yet the reset that follows it puts the
  cache right. An OV2640 that answers with its identifier is recognised with the identifier
  read from the sensor bank, and if the reset succeeds the cached bank is the selected one,
  whatever was cached before.\<close>

theorem detect_then_reset:
  assumes "chip_law i2c OV2640_SCCB_ADDR V plain" "reads_succeed i2c OV2640_SCCB_ADDR"
    and "selects_succeed i2c OV2640_SCCB_ADDR" "slv_addr s = OV2640_SCCB_ADDR"
    and "(BANK_SENSOR, 0x0A) \<in> plain" "chip_reg V d (BANK_SENSOR, 0x0A) = 0x26"
    and "ov2640_detect i2c OV2640_SCCB_ADDR i d = (r, i', d')"
    and "reset i2c (s\<lparr>bus := d'\<rparr>) = (0, s')"
  shows "r = uint OV2640_PID \<and> PID i' = OV2640_PID \<and> coherent V s'"
proof -
  let ?t = "s\<lparr>bus := d, reg_bank := BANK_SENSOR\<rparr>"
  have o: "on_chip i2c V plain ?t" using assms(1,2,4) by (simp add: on_chip_def)
  have n: "\<not> starts_reset V (bus ?t) BANK_SEL BANK_SENSOR" by (simp add: starts_reset_def)
  have z: "fst (sccb_write i2c BANK_SEL BANK_SENSOR ?t) = 0"
    using assms(3,4) by (simp add: sccb_write_def SCCB_Write_def selects_succeed_def case_prod_beta)
  let ?u = "snd (sccb_write i2c BANK_SEL BANK_SENSOR ?t)"
  note w = sccb_write_ok [OF o n]
  have u: "on_chip i2c V plain ?u" "chip_bank V (bus ?u) = BANK_SENSOR"
    "chip_reg V (bus ?u) (BANK_SENSOR, 0x0A) = 0x26"
    using o w(2) [OF z] w(3) [OF z assms(5)] assms(6) by simp_all
  have p: "fst (sccb_read i2c 0x0A ?u) = 0x26"
    using sccb_read_ok(3) [OF u(1), where reg = "0x0A"] u(2,3) assms(5) by simp
  have "fst (SCCB_Read i2c OV2640_SCCB_ADDR 0x0A (snd (SCCB_Write i2c OV2640_SCCB_ADDR 0xFF 0x01 d))) = 0x26"
    using p assms(4) by (simp add: sccb_read_def sccb_write_def case_prod_beta)
  then have "r = 0x26 \<and> PID i' = 0x26"
    using assms(7) by (auto simp: ov2640_detect_def Let_def case_prod_beta OV2640_PID_def)
  moreover have "on_chip i2c V plain (s\<lparr>bus := d'\<rparr>)" using assms(1,2,4) by (simp add: on_chip_def)
  then have "steady i2c V plain s'"
    using steady_reset [of i2c V plain "s\<lparr>bus := d'\<rparr>"] assms(3,4,8) by simp
  ultimately show ?thesis by (simp add: steady_def OV2640_PID_def)
qed

definition ov2640_file :: reg_file where
  "ov2640_file = blank_file\<lparr>rf_regs := (\<lambda>_. 0)((BANK_SENSOR, 0x0A) := 0x26)\<rparr>"

lemma file_write_regs: "fst (write_regs chip_transfer t s) = 0"
proof (induction t arbitrary: s)
  case (Cons e t)
  then show ?case by (cases e) (simp add: transfer_simps)
qed simp

theorem detect_then_reset_witness:
  "fst (ov2640_detect chip_transfer OV2640_SCCB_ADDR \<lparr>MIDH = 0, MIDL = 0, PID = 0, VER = 0\<rparr> ov2640_file)
     = 0x26"
proof -
  let ?i = "\<lparr>MIDH = 0, MIDL = 0, PID = 0, VER = 0\<rparr>" and ?s = "fresh_sensor ov2640_file"
  obtain r i' d' where d: "ov2640_detect chip_transfer OV2640_SCCB_ADDR ?i ov2640_file = (r, i', d')"
    by (metis prod_cases3)
  have z: "reset chip_transfer (?s\<lparr>bus := d'\<rparr>) = (0, snd (reset chip_transfer (?s\<lparr>bus := d'\<rparr>)))"
    by (simp add: prod_eq_iff reset_def write_reg_def transfer_simps file_write_regs)
  show ?thesis
    using detect_then_reset [OF file_law file_succeeds(1,2) _ _ _ d z] d
    by (simp add: fresh_sensor_def file_plain_def file_view_def ov2640_file_def OV2640_PID_def)
qed

end
