(* ===== verification/Esp_Camera.thy ===== *)
theory Esp_Camera
  imports Cam_Setup OV2640_Chip
begin

text \<open>
  The front end of the camera driver, \<^verbatim>\<open>ESP/updated_driver_files/esp_camera.c\<close>: probing for a
  sensor, initialisation and its undoing, access to frames, and the settings kept in flash. It
  composes \<open>Cam_Setup\<close> (the capture side), \<open>SCCB\<close> and the sensor drivers. The table of sensor
  drivers is an argument, as the drivers of the other sensors are not modelled; the OV2640's
  entry is \<open>ov2640_entry\<close>. Log messages and delays are left out.
\<close>

section \<open>State and surroundings\<close>

definition ESP_ERR_CAMERA_NOT_DETECTED :: esp_err_t where "ESP_ERR_CAMERA_NOT_DETECTED = 0x20001"
definition ESP_ERR_CAMERA_FAILED_TO_SET_FRAME_SIZE :: esp_err_t where
  "ESP_ERR_CAMERA_FAILED_TO_SET_FRAME_SIZE = 0x20002"

lemmas camera_err_values [esp_err_defs] =
  ESP_ERR_CAMERA_NOT_DETECTED_def ESP_ERR_CAMERA_FAILED_TO_SET_FRAME_SIZE_def

text \<open>\<^verbatim>\<open>sensor_func_t\<close>: \<open>sf_call\<close> are the function pointers that \<^verbatim>\<open>init\<close> binds.\<close>

record 'd sensor_func_t =
  sf_detect :: "u8 \<Rightarrow> sensor_id_t \<Rightarrow> 'd \<Rightarrow> int \<times> sensor_id_t \<times> 'd"
  sf_call :: "sensor_call \<Rightarrow> 'd op"

definition ov2640_entry :: "'d i2c \<Rightarrow> 'd sensor_func_t" where
  "ov2640_entry i2c = \<lparr>sf_detect = ov2640_detect i2c, sf_call = ov2640_init i2c\<rparr>"

text \<open>What the front end calls outside of the driver: the I2C driver, the pins wired to the chip,
  the table of sensors, and the services \<open>cam_config\<close> needs.\<close>

datatype gpio_op = Gpio_output int | Gpio_level int bool

record 'd camera_env =
  ce_i2c :: "'d i2c"
  ce_param_config :: "nat \<Rightarrow> i2c_config_t \<Rightarrow> 'd \<Rightarrow> esp_err_t \<times> 'd"
  ce_driver_install :: "nat \<Rightarrow> i2c_mode_t \<Rightarrow> 'd \<Rightarrow> esp_err_t \<times> 'd"
  ce_driver_delete :: "nat \<Rightarrow> 'd \<Rightarrow> esp_err_t \<times> 'd"
  ce_gpio :: "gpio_op list \<Rightarrow> 'd \<Rightarrow> 'd"
  ce_sensors :: "'d sensor_func_t list"
  ce_sizeof_Queue :: nat
  ce_dma_alloc :: "int \<times> nat"
  ce_vsync_alloc :: "int \<times> nat"
  ce_task :: nat

text \<open>The capture side, the sensor (with the bus and the sensor driver's static \<^verbatim>\<open>reg_bank\<close>, which
  outlive \<^verbatim>\<open>s_state\<close>), its identifier and driver, and the heap block of \<^verbatim>\<open>s_state\<close>.\<close>

record 'd camera =
  cd :: cam_driver
  sen :: "'d ov2640"
  sen_id :: sensor_id_t
  sen_driver :: nat
  s_state :: "nat option"

datatype 'd camera_outcome = Camera_aborted | Camera_done esp_err_t "'d camera"

text \<open>The sensor part of the zeroed \<^verbatim>\<open>camera_state_t\<close>.\<close>

definition clear_sensor :: "'d camera \<Rightarrow> 'd camera" where
  "clear_sensor st = st\<lparr>sen := \<lparr>bus = bus (sen st), reg_bank = reg_bank (sen st), slv_addr = 0,
      pixformat = PIXFORMAT_RGB565, status = status_zero, xclk_freq_hz = 0\<rparr>,
    sen_id := \<lparr>MIDH = 0, MIDL = 0, PID = 0, VER = 0\<rparr>, sen_driver := 0\<rparr>"

definition on_bus :: "('d \<Rightarrow> 'd) \<Rightarrow> 'd camera \<Rightarrow> 'd camera" where
  "on_bus f st = st\<lparr>sen := (sen st)\<lparr>bus := f (bus (sen st))\<rparr>\<rparr>"

text \<open>Calling a method of the sensor.\<close>

definition call :: "'d camera_env \<Rightarrow> sensor_call \<Rightarrow> 'd camera \<Rightarrow> int \<times> 'd camera" where
  "call env c st =
    (case sf_call (ce_sensors env ! sen_driver st) c (sen st) of (r, s) \<Rightarrow> (r, st\<lparr>sen := s\<rparr>))"

definition calls :: "'d camera_env \<Rightarrow> sensor_call list \<Rightarrow> 'd camera \<Rightarrow> 'd camera" where
  "calls env cs st = fold (\<lambda>c st. snd (call env c st)) cs st"

section \<open>Probing\<close>

fun find_sensor ::
  "'d sensor_func_t list \<Rightarrow> nat \<Rightarrow> u8 \<Rightarrow> sensor_id_t \<Rightarrow> 'd \<Rightarrow>
   (nat \<times> camera_model_t) option \<times> sensor_id_t \<times> 'd" where
  "find_sensor [] i addr sid d = (None, sid, d)"
| "find_sensor (f # fs) i addr sid d =
    (case sf_detect f addr sid d of (r, sid, d) \<Rightarrow>
      if r \<noteq> 0 then
        (case esp_camera_sensor_get_info sid of
           Some info \<Rightarrow> (Some (i, model info), sid, d)
         | None \<Rightarrow> find_sensor fs (Suc i) addr sid d)
      else find_sensor fs (Suc i) addr sid d)"

text \<open>The pulses on the power-down and the reset line, if they are wired.\<close>

definition pulse :: "'d camera_env \<Rightarrow> int \<Rightarrow> bool \<Rightarrow> 'd camera \<Rightarrow> 'd camera" where
  "pulse env pin level st =
    (if pin \<ge> 0
     then on_bus (ce_gpio env [Gpio_output pin, Gpio_level pin level, Gpio_level pin (\<not> level)]) st
     else st)"

definition wake_chip :: "'d camera_env \<Rightarrow> camera_config_t \<Rightarrow> 'd camera \<Rightarrow> 'd camera" where
  "wake_chip env config st =
    (let st = (if pin_sscb_sda config \<noteq> -1
           then on_bus (\<lambda>d. snd (SCCB_Init (ce_param_config env) (ce_driver_install env)
                  (pin_sscb_sda config) (pin_sscb_scl config) d)) st
           else st)
     in pulse env (pin_reset config) False (pulse env (pin_pwdn config) True st))"

definition identify :: "'d camera_env \<Rightarrow> camera_config_t \<Rightarrow> 'd camera \<Rightarrow> esp_err_t \<times> camera_model_t option \<times> 'd camera" where
  "identify env config st =
    (case SCCB_Probe (ce_i2c env) (bus (sen st)) of (addr, d) \<Rightarrow>
      let st = on_bus (\<lambda>_. d) st in
      if addr = 0 then (ESP_ERR_NOT_FOUND, None, st)
      else
        let st = st\<lparr>sen := (sen st)\<lparr>slv_addr := addr, xclk_freq_hz := camera_config_t.xclk_freq_hz config\<rparr>\<rparr>
        in case find_sensor (ce_sensors env) 0 addr (sen_id st) (bus (sen st)) of
             (None, sid, d) \<Rightarrow> (ESP_ERR_NOT_SUPPORTED, None, on_bus (\<lambda>_. d) (st\<lparr>sen_id := sid\<rparr>))
           | (Some (i, m), sid, d) \<Rightarrow>
               (ESP_OK, Some m, snd (call env Reset (on_bus (\<lambda>_. d) (st\<lparr>sen_id := sid, sen_driver := i\<rparr>)))))"

definition camera_probe ::
  "'d camera_env \<Rightarrow> camera_config_t \<Rightarrow> 'd camera \<Rightarrow> esp_err_t \<times> camera_model_t option \<times> 'd camera" where
  "camera_probe env config st =
    (if s_state st \<noteq> None then (ESP_ERR_INVALID_STATE, None, st)
     else case heap_alloc (drv_heap (cd st)) of
       (None, h) \<Rightarrow> (ESP_ERR_NO_MEM, None, st\<lparr>cd := (cd st)\<lparr>drv_heap := h\<rparr>\<rparr>)
     | (Some b, h) \<Rightarrow>
         identify env config (wake_chip env config
           (clear_sensor (st\<lparr>cd := (cd st)\<lparr>drv_heap := h\<rparr>, s_state := Some b\<rparr>))))"

section \<open>Initialisation\<close>

definition esp_camera_deinit :: "'d camera_env \<Rightarrow> 'd camera \<Rightarrow> esp_err_t \<times> 'd camera" where
  "esp_camera_deinit env st =
    (case cam_deinit (cd st) of (ret, d) \<Rightarrow>
      let st = st\<lparr>cd := d\<rparr> in
      case s_state st of
        None \<Rightarrow> (ret, st)
      | Some b \<Rightarrow>
          (ret, (on_bus (\<lambda>d. snd (SCCB_Deinit (ce_driver_delete env) d)) st)
             \<lparr>cd := d\<lparr>drv_heap := heap_free b (drv_heap d)\<rparr>, s_state := None\<rparr>))"

definition init_failed :: "'d camera_env \<Rightarrow> esp_err_t \<Rightarrow> 'd camera \<Rightarrow> 'd camera_outcome" where
  "init_failed env err st = Camera_done err (snd (esp_camera_deinit env st))"

primrec model_index :: "camera_model_t \<Rightarrow> nat" where
  "model_index CAMERA_OV7725 = 0"
| "model_index CAMERA_OV2640 = 1"
| "model_index CAMERA_OV3660 = 2"
| "model_index CAMERA_OV5640 = 3"
| "model_index CAMERA_OV7670 = 4"
| "model_index CAMERA_NT99141 = 5"
| "model_index CAMERA_GC2145 = 6"
| "model_index CAMERA_GC032A = 7"
| "model_index CAMERA_GC0308 = 8"
| "model_index CAMERA_BF3005 = 9"
| "model_index CAMERA_BF20A6 = 10"

text \<open>The methods called once the capture side is configured.\<close>

definition tuning :: "camera_config_t \<Rightarrow> u16 \<Rightarrow> sensor_call list" where
  "tuning config p =
    [Set_pixformat (pixel_format config)] @
    (if p = OV2640_PID then [Set_gainceiling 0, Set_bpc 0, Set_wpc 1, Set_lenc 1] else []) @
    (if pixel_format config = PIXFORMAT_JPEG then [Set_quality (jpeg_quality config)] else []) @
    [Init_status]"

definition start_sensor :: "'d camera_env \<Rightarrow> camera_config_t \<Rightarrow> framesize_t \<Rightarrow> 'd camera \<Rightarrow> 'd camera_outcome" where
  "start_sensor env config fs st =
    (let st = st\<lparr>sen := (set_status (st_framesize_update (\<lambda>_. fs)) (sen st))\<lparr>pixformat := pixel_format config\<rparr>\<rparr>
     in case call env (Set_framesize fs) st of (r, st) \<Rightarrow>
       if r \<noteq> 0 then init_failed env ESP_ERR_CAMERA_FAILED_TO_SET_FRAME_SIZE st
       else let st = calls env (tuning config (PID (sen_id st))) st
            in Camera_done ESP_OK (st\<lparr>cd := (cd st)\<lparr>drv_hw := cam_start (drv_hw (cd st))\<rparr>\<rparr>))"

text \<open>What follows a successful probe.\<close>

definition configure_camera ::
  "'d camera_env \<Rightarrow> camera_config_t \<Rightarrow> camera_model_t \<Rightarrow> 'd camera \<Rightarrow> 'd camera_outcome" where
  "configure_camera env config m st =
    (let info = camera_sensor ! model_index m;
         fs = (if framesize_index (frame_size config) > framesize_index (max_size info)
               then max_size info else frame_size config)
     in if pixel_format config = PIXFORMAT_JPEG \<and> \<not> support_jpeg info
        then init_failed env ESP_ERR_NOT_SUPPORTED st
        else case cam_config (ce_sizeof_Queue env) (ce_dma_alloc env) (ce_vsync_alloc env)
               (ce_task env) (Some config) fs (PID (sen_id st)) (cd st) of
          Aborted \<Rightarrow> Camera_aborted
        | Done err d \<Rightarrow>
            if err \<noteq> ESP_OK then init_failed env err (st\<lparr>cd := d\<rparr>)
            else start_sensor env config fs (st\<lparr>cd := d\<rparr>))"

definition esp_camera_init :: "'d camera_env \<Rightarrow> camera_config_t option \<Rightarrow> 'd camera \<Rightarrow> 'd camera_outcome" where
  "esp_camera_init env conf st =
    (case (cam_init conf (cd st), conf) of
       (Aborted, _) \<Rightarrow> Camera_aborted
     | (Done err d, None) \<Rightarrow> Camera_done err (st\<lparr>cd := d\<rparr>)
     | (Done err d, Some config) \<Rightarrow>
         (if err \<noteq> ESP_OK then Camera_done err (st\<lparr>cd := d\<rparr>)
          else case camera_probe env config (st\<lparr>cd := d\<rparr>) of
            (err, Some m, st) \<Rightarrow> if err \<noteq> ESP_OK then init_failed env err st else configure_camera env config m st
          | (err, None, st) \<Rightarrow> init_failed env err st))"

section \<open>Frames and the sensor\<close>

text \<open>\<open>Fb_crash\<close> is the access to a driver object that is not there; \<open>Fb_waiting\<close> stands for a call
  that the given waits do not decide. A frame is named by its index.\<close>

datatype 'd fb_result = Fb_crash | Fb_waiting | Fb "nat option" "'d camera"

definition portMAX_DELAY :: u32 where "portMAX_DELAY = 0xffffffff"

definition esp_camera_fb_get :: "cam_wait list \<Rightarrow> 'd camera \<Rightarrow> 'd fb_result" where
  "esp_camera_fb_get ws st =
    (if s_state st = None then Fb None st
     else case drv_obj (cd st) of
       None \<Rightarrow> Fb_crash
     | Some (block, cam) \<Rightarrow>
         (case cam_take ws portMAX_DELAY cam of
            None \<Rightarrow> Fb_waiting
          | Some (_, None, cam) \<Rightarrow> Fb None (st\<lparr>cd := (cd st)\<lparr>drv_obj := Some (block, cam)\<rparr>\<rparr>)
          | Some (_, Some x, cam) \<Rightarrow>
              (let r = resolution (st_framesize (status (sen st)));
                   cam = upd_frame x (upd_fb (\<lambda>fb. fb\<lparr>fb_width := res_width r, fb_height := res_height r,
                           fb_format := pixformat (sen st)\<rparr>)) cam
               in Fb (Some x) (st\<lparr>cd := (cd st)\<lparr>drv_obj := Some (block, cam)\<rparr>\<rparr>))))"

definition esp_camera_fb_return :: "nat \<Rightarrow> 'd camera \<Rightarrow> 'd camera" where
  "esp_camera_fb_return x st =
    (if s_state st = None then st
     else st\<lparr>cd := (cd st)\<lparr>drv_obj := map_option (map_prod id (cam_give x)) (drv_obj (cd st))\<rparr>\<rparr>)"

definition esp_camera_sensor_get :: "'d camera \<Rightarrow> 'd ov2640 option" where
  "esp_camera_sensor_get st = (if s_state st = None then None else Some (sen st))"

section \<open>Settings in flash\<close>

text \<open>The non-volatile storage: opening answers a code and a handle, reading answers a code and a
  value. \<^verbatim>\<open>nvs_commit\<close> is part of the interface, but the code never calls it. The status is stored as it is. A stored byte that names no pixel format is outside the
  model, as C would keep it in the enumeration.\<close>

record 'n nvs =
  nvs_open :: "string \<Rightarrow> 'n \<Rightarrow> (esp_err_t \<times> nat) \<times> 'n"
  nvs_set_blob :: "nat \<Rightarrow> string \<Rightarrow> camera_status_t \<Rightarrow> 'n \<Rightarrow> esp_err_t \<times> 'n"
  nvs_set_u8 :: "nat \<Rightarrow> string \<Rightarrow> u8 \<Rightarrow> 'n \<Rightarrow> esp_err_t \<times> 'n"
  nvs_get_blob :: "nat \<Rightarrow> string \<Rightarrow> 'n \<Rightarrow> esp_err_t \<times> camera_status_t"
  nvs_get_u8 :: "nat \<Rightarrow> string \<Rightarrow> 'n \<Rightarrow> esp_err_t \<times> u8"
  nvs_commit :: "nat \<Rightarrow> 'n \<Rightarrow> esp_err_t \<times> 'n"
  nvs_close :: "nat \<Rightarrow> 'n \<Rightarrow> 'n"

definition CAMERA_SENSOR_NVS_KEY :: string where "CAMERA_SENSOR_NVS_KEY = ''sensor''"
definition CAMERA_PIXFORMAT_NVS_KEY :: string where "CAMERA_PIXFORMAT_NVS_KEY = ''pixformat''"

definition pixformats :: "pixformat_t list" where
  "pixformats = [PIXFORMAT_RGB565, PIXFORMAT_YUV422, PIXFORMAT_GRAYSCALE, PIXFORMAT_JPEG,
    PIXFORMAT_RGB888, PIXFORMAT_RAW, PIXFORMAT_RGB444, PIXFORMAT_RGB555]"

primrec pixformat_index :: "pixformat_t \<Rightarrow> nat" where
  "pixformat_index PIXFORMAT_RGB565 = 0"
| "pixformat_index PIXFORMAT_YUV422 = 1"
| "pixformat_index PIXFORMAT_GRAYSCALE = 2"
| "pixformat_index PIXFORMAT_JPEG = 3"
| "pixformat_index PIXFORMAT_RGB888 = 4"
| "pixformat_index PIXFORMAT_RAW = 5"
| "pixformat_index PIXFORMAT_RGB444 = 6"
| "pixformat_index PIXFORMAT_RGB555 = 7"

text \<open>Every path on which the handle was opened returns without closing it.\<close>

definition esp_camera_save_to_nvs :: "'n nvs \<Rightarrow> string \<Rightarrow> 'd camera \<Rightarrow> 'n \<Rightarrow> esp_err_t \<times> 'n" where
  "esp_camera_save_to_nvs nvs key st n =
    (case nvs_open nvs key n of ((ret, handle), n) \<Rightarrow>
      if ret \<noteq> ESP_OK then (ret, n)
      else case esp_camera_sensor_get st of
        None \<Rightarrow> (ESP_ERR_CAMERA_NOT_DETECTED, n)
      | Some s \<Rightarrow>
          (case nvs_set_blob nvs handle CAMERA_SENSOR_NVS_KEY (status s) n of (ret, n) \<Rightarrow>
            if ret = ESP_OK
            then nvs_set_u8 nvs handle CAMERA_PIXFORMAT_NVS_KEY (of_nat (pixformat_index (pixformat s))) n
            else (ret, n)))"

definition restore_calls :: "camera_status_t \<Rightarrow> sensor_call list" where
  "restore_calls t = [
    Set_ae_level (st_ae_level t), Set_aec2 (uint (st_aec2 t)), Set_aec_value (uint (st_aec_value t)),
    Set_agc_gain (uint (st_agc_gain t)), Set_awb_gain (uint (st_awb_gain t)),
    Set_bpc (uint (st_bpc t)), Set_brightness (st_brightness t), Set_colorbar (uint (st_colorbar t)),
    Set_contrast (st_contrast t), Set_dcw (uint (st_dcw t)), Set_denoise (uint (st_denoise t)),
    Set_exposure_ctrl (uint (st_aec t)), Set_framesize (st_framesize t),
    Set_gain_ctrl (uint (st_agc t)), Set_gainceiling (uint (st_gainceiling t)),
    Set_hmirror (uint (st_hmirror t)), Set_lenc (uint (st_lenc t)), Set_quality (uint (st_quality t)),
    Set_raw_gma (uint (st_raw_gma t)), Set_saturation (st_saturation t),
    Set_sharpness (st_sharpness t), Set_special_effect (uint (st_special_effect t)),
    Set_vflip (uint (st_vflip t)), Set_wb_mode (uint (st_wb_mode t)),
    Set_whitebal (uint (st_awb t)), Set_wpc (uint (st_wpc t))]"

definition esp_camera_load_from_nvs ::
  "'d camera_env \<Rightarrow> 'n nvs \<Rightarrow> string \<Rightarrow> 'd camera \<Rightarrow> 'n \<Rightarrow> esp_err_t \<times> 'd camera \<times> 'n" where
  "esp_camera_load_from_nvs env nvs key st n =
    (case nvs_open nvs key n of ((ret, handle), n) \<Rightarrow>
      if ret \<noteq> ESP_OK then (ret, st, n)
      else if esp_camera_sensor_get st = None then (ESP_ERR_CAMERA_NOT_DETECTED, st, n)
      else
        (let (ret, t) = nvs_get_blob nvs handle CAMERA_SENSOR_NVS_KEY n;
             st = (if ret = ESP_OK then calls env (restore_calls t) st else st);
             (ret, pf) = nvs_get_u8 nvs handle CAMERA_PIXFORMAT_NVS_KEY n;
             st = (if ret = ESP_OK \<and> unat pf < length pixformats
                   then snd (call env (Set_pixformat (pixformats ! unat pf)) st) else st)
         in (ret, st, nvs_close nvs handle n)))"

section \<open>All or nothing\<close>

lemma on_bus_simps [simp]:
  "cd (on_bus f st) = cd st" "s_state (on_bus f st) = s_state st"
  by (simp_all add: on_bus_def)

lemma call_simps [simp]:
  "cd (snd (call env c st)) = cd st" "s_state (snd (call env c st)) = s_state st"
  by (simp_all add: call_def case_prod_beta)

lemma calls_simps [simp]:
  "cd (calls env cs st) = cd st" "s_state (calls env cs st) = s_state st"
  unfolding calls_def by (induction cs arbitrary: st) simp_all

lemma wake_chip_simps [simp]:
  "cd (wake_chip env config st) = cd st" "s_state (wake_chip env config st) = s_state st"
  by (simp_all add: wake_chip_def pulse_def Let_def)

lemma clear_sensor_simps [simp]:
  "cd (clear_sensor st) = cd st" "s_state (clear_sensor st) = s_state st"
  by (simp_all add: clear_sensor_def)

lemma identify_simps:
  assumes "identify env config st = (err, m, st')"
  shows "cd st' = cd st" "s_state st' = s_state st" "err = ESP_OK \<longleftrightarrow> m \<noteq> None"
  using assms
  by (auto simp: identify_def Let_def esp_err_defs split: prod.splits if_splits option.splits)

text \<open>Nothing is left of the camera, and the heap is as the rest of the program has it.\<close>

definition gone :: "nat multiset \<Rightarrow> 'd camera \<Rightarrow> bool" where
  "gone base st \<longleftrightarrow> drv_obj (cd st) = None \<and> s_state st = None \<and> h_live (drv_heap (cd st)) = base \<and>
    \<not> h_bad_free (drv_heap (cd st))"

text \<open>The block of \<^verbatim>\<open>s_state\<close> and, if there is one, a driver object are what the heap holds more.\<close>

definition owned :: "nat multiset \<Rightarrow> 'd camera \<Rightarrow> bool" where
  "owned base st \<longleftrightarrow> \<not> h_bad_free (drv_heap (cd st)) \<and> (\<exists>b. s_state st = Some b \<and> b \<noteq> 0 \<and>
    (case drv_obj (cd st) of
       None \<Rightarrow> h_live (drv_heap (cd st)) = add_mset b base
     | Some (block, cam) \<Rightarrow> block \<noteq> 0 \<and> accounts cam (add_mset block (add_mset b base)) (drv_heap (cd st))))"

lemma deinit_none: "drv_obj d = None \<Longrightarrow> cam_deinit d = (ESP_FAIL, d)"
  by (simp add: cam_deinit_def)

lemma owned_deinit:
  assumes "owned base st"
  shows "gone base (snd (esp_camera_deinit env st))"
    and "drv_obj (cd st) \<noteq> None \<Longrightarrow> fst (esp_camera_deinit env st) = ESP_OK"
proof -
  obtain b where b: "s_state st = Some b" "b \<noteq> 0" using assms by (auto simp: owned_def)
  let ?d = "snd (cam_deinit (cd st))"
  have d: "drv_obj ?d = None" "h_live (drv_heap ?d) = add_mset b base" "\<not> h_bad_free (drv_heap ?d)"
    using assms b deinit_frees [of "cd st"]
    by (cases "drv_obj (cd st)"; auto simp: owned_def deinit_none)+
  show "gone base (snd (esp_camera_deinit env st))"
    using d b by (simp add: esp_camera_deinit_def case_prod_beta Let_def gone_def heap_free_def)
  show "fst (esp_camera_deinit env st) = ESP_OK" if "drv_obj (cd st) \<noteq> None"
    using that b by (auto simp: esp_camera_deinit_def case_prod_beta Let_def cam_deinit_def)
qed

lemma owned_keep:
  assumes "owned base st" "drv_obj (cd st') = drv_obj (cd st)" "drv_heap (cd st') = drv_heap (cd st)"
    and "s_state st' = s_state st"
  shows "owned base st'"
  using assms by (simp add: owned_def cong: option.case_cong)

lemma probe_owned:
  assumes "camera_probe env config st = (err, m, st')" "s_state st = None"
    and "drv_obj (cd st) = Some (block, cam)" "bare cam" "block \<noteq> 0"
    and "h_live (drv_heap (cd st)) = add_mset block base" "\<not> h_bad_free (drv_heap (cd st))"
    and "Some 0 \<notin> set (h_answers (drv_heap (cd st)))"
  shows "drv_obj (cd st') = Some (block, cam) \<and> (m \<noteq> None \<longleftrightarrow> err = ESP_OK) \<and>
    (s_state st' = None \<and> m = None \<and> h_live (drv_heap (cd st')) = add_mset block base \<and>
       \<not> h_bad_free (drv_heap (cd st')) \<and> Some 0 \<notin> set (h_answers (drv_heap (cd st'))) \<or>
     owned base st' \<and> Some 0 \<notin> set (h_answers (drv_heap (cd st'))) \<and>
       (\<exists>b. s_state st' = Some b \<and> h_live (drv_heap (cd st')) = add_mset block (add_mset b base)))"
  using assms(8)
proof (rule alloc_cases)
  fix h assume "heap_alloc (drv_heap (cd st)) = (None, h)" "h_live h = h_live (drv_heap (cd st))"
    "h_bad_free h = h_bad_free (drv_heap (cd st))" "Some 0 \<notin> set (h_answers h)"
  then show ?thesis using assms by (auto simp: camera_probe_def esp_err_defs)
next
  fix a h assume h: "heap_alloc (drv_heap (cd st)) = (Some a, h)" "h_live h = add_mset a (h_live (drv_heap (cd st)))"
    "a \<noteq> 0" "h_bad_free h = h_bad_free (drv_heap (cd st))" "Some 0 \<notin> set (h_answers h)"
  let ?t = "st\<lparr>cd := (cd st)\<lparr>drv_heap := h\<rparr>, s_state := Some a\<rparr>"
  have i: "identify env config (wake_chip env config (clear_sensor ?t)) = (err, m, st')"
    using assms(1,2) h(1) by (simp add: camera_probe_def)
  note s = identify_simps [OF i]
  show ?thesis
    using s h assms(3-7) by (auto simp: owned_def accounts_def bare_blocks)
qed

lemma start_owned:
  assumes "owned base st" "drv_obj (cd st) \<noteq> None" "start_sensor env config fs st = Camera_done r st'"
  shows "if r = ESP_OK then owned base st' \<and> drv_obj (cd st') \<noteq> None else gone base st'"
proof -
  let ?u = "st\<lparr>sen := (set_status (st_framesize_update (\<lambda>_. fs)) (sen st))\<lparr>pixformat := pixel_format config\<rparr>\<rparr>"
  let ?t = "snd (call env (Set_framesize fs) ?u)"
  have t: "owned base ?t" "drv_obj (cd ?t) \<noteq> None"
    using assms(1,2) by (auto intro: owned_keep)
  show ?thesis
  proof (cases "fst (call env (Set_framesize fs) ?u) = 0")
    case True
    then show ?thesis using assms(3) t
      by (auto simp: start_sensor_def Let_def case_prod_beta intro: owned_keep)
  next
    case False
    then show ?thesis using assms(3) owned_deinit(1) [OF t(1)]
      by (auto simp: start_sensor_def Let_def case_prod_beta init_failed_def esp_err_defs)
  qed
qed

lemma config_owned:
  assumes "owned base st" "drv_obj (cd st) = Some (block, cam)" "bare cam" "s_state st = Some b"
    and "h_live (drv_heap (cd st)) = add_mset block (add_mset b base)"
    and "Some 0 \<notin> set (h_answers (drv_heap (cd st)))"
    and "cam_config sz da va task (Some config) fs p (cd st) = Done err d"
  shows "owned base (st\<lparr>cd := d\<rparr>) \<and> (err = ESP_OK \<longrightarrow> drv_obj d \<noteq> None)"
proof -
  have z: "block \<noteq> 0" "\<not> h_bad_free (drv_heap (cd st))" "b \<noteq> 0"
    using assms(1,2,4) by (auto simp: owned_def)
  have "settled block (add_mset b base) (Done err d)"
    using cam_config_settled [OF assms(2,3) z(1,2) assms(5,6)] assms(7) by metis
  then show ?thesis
    using z assms(4) by (auto simp: settled_def owned_def split: if_splits)
qed

lemma failed_gone:
  assumes "owned base st" "c \<noteq> ESP_OK" "init_failed env c st = Camera_done r st'"
  shows "r \<noteq> ESP_OK \<and> gone base st'"
  using assms owned_deinit(1) [OF assms(1), of env] by (auto simp: init_failed_def)

lemma configure_owned:
  assumes "owned base st" "drv_obj (cd st) = Some (block, cam)" "bare cam" "s_state st = Some b"
    and "h_live (drv_heap (cd st)) = add_mset block (add_mset b base)"
    and "Some 0 \<notin> set (h_answers (drv_heap (cd st)))"
    and "configure_camera env config m st = Camera_done r st'"
  shows "if r = ESP_OK then owned base st' \<and> drv_obj (cd st') \<noteq> None else gone base st'"
proof -
  define fs where "fs = (let info = camera_sensor ! model_index m
    in if framesize_index (frame_size config) > framesize_index (max_size info)
       then max_size info else frame_size config)"
  let ?c = "cam_config (ce_sizeof_Queue env) (ce_dma_alloc env) (ce_vsync_alloc env)
    (ce_task env) (Some config) fs (PID (sen_id st)) (cd st)"
  consider (jpeg) "init_failed env ESP_ERR_NOT_SUPPORTED st = Camera_done r st'"
    | (config) err d where "?c = Done err d" "err \<noteq> ESP_OK"
        "init_failed env err (st\<lparr>cd := d\<rparr>) = Camera_done r st'"
    | (start) d where "?c = Done ESP_OK d" "start_sensor env config fs (st\<lparr>cd := d\<rparr>) = Camera_done r st'"
    using assms(7)
    by (cases ?c) (auto simp: configure_camera_def Let_def fs_def split: if_splits)
  then show ?thesis
  proof cases
    case jpeg
    then show ?thesis using failed_gone [OF assms(1) _ jpeg] by (auto simp: esp_err_defs)
  next
    case config
    then show ?thesis using config_owned [OF assms(1-6) config(1)] failed_gone by fastforce
  next
    case start
    then show ?thesis using config_owned [OF assms(1-6) start(1)] start_owned [OF _ _ start(2), of base] by auto
  qed
qed

lemma probe_failed_gone:
  assumes "drv_obj (cd st) = Some (block, cam)" "bare cam" "block \<noteq> 0"
    and "s_state st = None" "h_live (drv_heap (cd st)) = add_mset block base" "\<not> h_bad_free (drv_heap (cd st))"
    and "Some 0 \<notin> set (h_answers (drv_heap (cd st)))"
  shows "gone base (snd (esp_camera_deinit env st))"
  using assms deinit_frees [of "cd st" block cam base]
  by (simp add: esp_camera_deinit_def case_prod_beta Let_def gone_def accounts_def bare_blocks)

lemma init_owned:
  assumes "drv_obj (cd st) = None" "s_state st = None" "\<not> h_bad_free (drv_heap (cd st))"
    and "Some 0 \<notin> set (h_answers (drv_heap (cd st)))"
    and "esp_camera_init env (Some config) st = Camera_done r st'"
  defines "base \<equiv> h_live (drv_heap (cd st))"
  shows "if r = ESP_OK then owned base st' \<and> drv_obj (cd st') \<noteq> None else gone base st'"
proof (cases "cam_init (Some config) (cd st)")
  case Aborted
  then show ?thesis using assms(5) by (simp add: esp_camera_init_def)
next
  case (Done err d)
  note i = cam_init_result [OF assms(1,4,3) Done]
  show ?thesis
  proof (cases "err = ESP_OK")
    case False
    then show ?thesis using i(1) assms(2,5) Done by (auto simp: esp_camera_init_def gone_def base_def)
  next
    case True
    then obtain block cam where b: "drv_obj d = Some (block, cam)" "bare cam" "block \<noteq> 0"
      "h_live (drv_heap d) = add_mset block base" "\<not> h_bad_free (drv_heap d)"
      "Some 0 \<notin> set (h_answers (drv_heap d))" using i(2) by (auto simp: base_def)
    obtain e m st1 where p: "camera_probe env config (st\<lparr>cd := d\<rparr>) = (e, m, st1)" by (metis prod_cases3)
    have pre: "s_state (st\<lparr>cd := d\<rparr>) = None" "drv_obj (cd (st\<lparr>cd := d\<rparr>)) = Some (block, cam)"
      "h_live (drv_heap (cd (st\<lparr>cd := d\<rparr>))) = add_mset block base"
      "\<not> h_bad_free (drv_heap (cd (st\<lparr>cd := d\<rparr>)))"
      "Some 0 \<notin> set (h_answers (drv_heap (cd (st\<lparr>cd := d\<rparr>))))" using assms(2) b by simp_all
    note q = probe_owned [OF p pre(1,2) b(2,3) pre(3-5)]
    show ?thesis
    proof (cases m)
      case None
      then have "gone base (snd (esp_camera_deinit env st1))"
        using q owned_deinit(1) probe_failed_gone [of st1 block cam base env] b by blast
      then show ?thesis
        using assms(5) Done True p None q by (auto simp: esp_camera_init_def init_failed_def)
    next
      case (Some md)
      then have "e = ESP_OK" using q by auto
      then have "configure_camera env config md st1 = Camera_done r st'"
        using assms(5) Done True p Some by (simp add: esp_camera_init_def)
      moreover obtain x where "s_state st1 = Some x" "h_live (drv_heap (cd st1)) = add_mset block (add_mset x base)"
        "owned base st1" "Some 0 \<notin> set (h_answers (drv_heap (cd st1)))"
        using q Some by auto
      ultimately show ?thesis using configure_owned q b(2) by blast
    qed
  qed
qed

section \<open>Properties\<close>

text \<open>C11: initialising the camera is all or nothing. Whatever fails, an allocation, the search for
  a sensor, an unsupported format, the configuration or the frame size, \<^verbatim>\<open>esp_camera_init\<close> leaves
  no driver object, no state and no block behind; after a success \<^verbatim>\<open>esp_camera_deinit\<close> does. No
  pointer is freed wrongly.\<close>

theorem camera_init_all_or_nothing:
  assumes "drv_obj (cd st) = None" "s_state st = None" "\<not> h_bad_free (drv_heap (cd st))"
    and "Some 0 \<notin> set (h_answers (drv_heap (cd st)))"
    and "esp_camera_init env (Some config) st = Camera_done r st'"
  shows "if r = ESP_OK
    then s_state st' \<noteq> None \<and> fst (esp_camera_deinit env st') = ESP_OK \<and>
      gone (h_live (drv_heap (cd st))) (snd (esp_camera_deinit env st'))
    else gone (h_live (drv_heap (cd st))) st'"
  using init_owned [OF assms] owned_deinit [of "h_live (drv_heap (cd st))" st' env]
  by (auto simp: owned_def split: if_splits)

definition demo_env :: "reg_file camera_env" where
  "demo_env = \<lparr>ce_i2c = chip_transfer, ce_param_config = (\<lambda>_ _ d. (ESP_OK, d)),
    ce_driver_install = (\<lambda>_ _ d. (ESP_OK, d)), ce_driver_delete = (\<lambda>_ d. (ESP_OK, d)),
    ce_gpio = (\<lambda>_ d. d), ce_sensors = [ov2640_entry chip_transfer], ce_sizeof_Queue = 80,
    ce_dma_alloc = (ESP_OK, 1), ce_vsync_alloc = (ESP_OK, 2), ce_task = 3\<rparr>"

definition demo_camera :: "nat option list \<Rightarrow> reg_file camera" where
  "demo_camera as = \<lparr>cd = demo_driver as, sen = fresh_sensor blank_file,
    sen_id = \<lparr>MIDH = 0, MIDL = 0, PID = 0, VER = 0\<rparr>, sen_driver = 0, s_state = None\<rparr>"

text \<open>A first allocation that fails.\<close>

theorem camera_init_all_or_nothing_witness:
  "\<exists>st'. esp_camera_init demo_env (Some demo_config) (demo_camera [None]) = Camera_done ESP_ERR_NO_MEM st' \<and>
     gone {#} st'"
proof -
  have i: "\<exists>st'. esp_camera_init demo_env (Some demo_config) (demo_camera [None]) = Camera_done ESP_ERR_NO_MEM st'"
    by (simp add: esp_camera_init_def cam_init_def demo_camera_def demo_driver_def heap_alloc_def esp_err_defs)
  then obtain st' where st': "esp_camera_init demo_env (Some demo_config) (demo_camera [None]) = Camera_done ESP_ERR_NO_MEM st'"
    by blast
  show ?thesis
    using camera_init_all_or_nothing [OF _ _ _ _ st'] st'
    by (simp add: demo_camera_def demo_driver_def esp_err_defs)
qed

text \<open>\<^verbatim>\<open>cam_init\<close> does not look at the object there may be.\<close>

lemma cam_init_blind: "cam_init (Some config) d = cam_init (Some config) (d\<lparr>drv_obj := None\<rparr>)"
  by (cases "heap_alloc (drv_heap d)"; cases "fst (heap_alloc (drv_heap d))") (simp_all add: cam_init_def)

text \<open>Initialising a camera that is already initialised destroys it. The call fails, the driver
  object of the running camera is lost, and all its blocks (the object, the queues, the frame
  buffers) stay allocated: at most the block of the state is freed.\<close>

theorem second_init_leaks_camera:
  assumes "drv_obj (cd st) = Some (block, cam)" "s_state st = Some b" "b \<in># h_live (drv_heap (cd st))"
    and "b \<noteq> 0" "\<not> h_bad_free (drv_heap (cd st))" "Some 0 \<notin> set (h_answers (drv_heap (cd st)))"
    and "esp_camera_init env (Some config) st = Camera_done r st'"
  shows "r \<noteq> ESP_OK \<and> drv_obj (cd st') = None \<and>
    (s_state st' = Some b \<and> h_live (drv_heap (cd st')) = h_live (drv_heap (cd st)) \<or>
     s_state st' = None \<and> h_live (drv_heap (cd st')) = h_live (drv_heap (cd st)) - {#b#})"
proof (cases "cam_init (Some config) ((cd st)\<lparr>drv_obj := None\<rparr>)")
  case Aborted
  then show ?thesis using assms(7) cam_init_blind [of config "cd st"] by (simp add: esp_camera_init_def)
next
  case (Done err d)
  then have i: "cam_init (Some config) (cd st) = Done err d" using cam_init_blind [of config "cd st"] by simp
  note c = cam_init_result [OF _ _ _ Done]
  show ?thesis
  proof (cases "err = ESP_OK")
    case False
    then show ?thesis using c(1) i assms by (auto simp: esp_camera_init_def)
  next
    case True
    then obtain n cm where n: "drv_obj d = Some (n, cm)" "bare cm" "n \<noteq> 0"
      "h_live (drv_heap d) = add_mset n (h_live (drv_heap (cd st)))" "Some 0 \<notin> set (h_answers (drv_heap d))"
      using c(2) assms by auto
    have a: "accounts cm (add_mset n (h_live (drv_heap (cd st)))) (drv_heap d)"
      using n by (simp add: accounts_def bare_blocks)
    note f = deinit_frees [OF n(1,3) a]
    have "r = ESP_ERR_INVALID_STATE" "st' = snd (esp_camera_deinit env (st\<lparr>cd := d\<rparr>))"
      using assms(2,7) i True by (auto simp: esp_camera_init_def camera_probe_def init_failed_def)
    then show ?thesis
      using f assms(2-4) by (simp add: esp_camera_deinit_def case_prod_beta Let_def heap_free_def esp_err_defs)
  qed
qed

definition running_camera :: "reg_file camera" where
  "running_camera = (demo_camera [None])\<lparr>s_state := Some 8,
     cd := \<lparr>drv_obj = Some (4, cam_obj_zero), drv_hw = demo_hw,
       drv_heap = \<lparr>h_answers = [None], h_live = {#4, 8#}, h_bad_free = False, h_bytes = (\<lambda>_. 0)\<rparr>\<rparr>\<rparr>"

theorem second_init_leaks_camera_witness:
  "\<exists>r st'. esp_camera_init demo_env (Some demo_config) running_camera = Camera_done r st' \<and>
     drv_obj (cd st') = None \<and> 4 \<in># h_live (drv_heap (cd st'))"
proof -
  obtain r st' where i: "esp_camera_init demo_env (Some demo_config) running_camera = Camera_done r st'"
    by (simp add: esp_camera_init_def cam_init_def running_camera_def heap_alloc_def esp_err_defs)
  show ?thesis
    using second_init_leaks_camera [OF _ _ _ _ _ _ i, of 4 cam_obj_zero 8] i
    by (auto simp: running_camera_def)
qed

section \<open>Restoring the settings\<close>

definition settable :: "camera_status_t \<Rightarrow> bool" where
  "settable t \<longleftrightarrow> \<bar>st_ae_level t\<bar> \<le> 2 \<and> \<bar>st_brightness t\<bar> \<le> 2 \<and> \<bar>st_contrast t\<bar> \<le> 2 \<and> \<bar>st_saturation t\<bar> \<le> 2 \<and>
    uint (st_special_effect t) \<le> 6 \<and> uint (st_wb_mode t) \<le> 11 \<and> uint (st_quality t) \<le> 63 \<and>
    uint (st_agc_gain t) \<le> 30 \<and> uint (st_aec_value t) \<le> 1200"

lemma frame_status:
  "frame s s' \<Longrightarrow> status s' = status s" "frame s s' \<Longrightarrow> pixformat s' = pixformat s"
  by (simp_all add: frame_def)

lemmas op_status [simp] =
  frame_status(1) [OF frame_write_reg] frame_status(1) [OF frame_set_reg_bits]
  frame_status(1) [OF frame_write_regs] frame_status(1) [OF frame_write_row]

lemma set_status_status [simp]: "status (set_status f s) = f (status s)"
  by (simp add: set_status_def)

lemma pixformat_status [simp]: "status (snd (set_pixformat i2c f s)) = status s"
  by (simp add: set_pixformat_def Let_def split: option.splits)

lemma window_status [simp]: "status (snd (set_window i2c m ox oy mx my w h s)) = status s"
  by (simp add: set_window_def Let_def or_return_simps)

lemma level_status:
  assumes "\<bar>n\<bar> \<le> 2"
  shows "status (snd (set_ae_level i2c n s)) = (status s)\<lparr>st_ae_level := n\<rparr>"
    "status (snd (set_brightness i2c n s)) = (status s)\<lparr>st_brightness := n\<rparr>"
    "status (snd (set_contrast i2c n s)) = (status s)\<lparr>st_contrast := n\<rparr>"
    "status (snd (set_saturation i2c n s)) = (status s)\<lparr>st_saturation := n\<rparr>"
  using assms by (simp_all add: set_ae_level_def set_brightness_def set_contrast_def set_saturation_def
      NUM_AE_LEVELS_def NUM_BRIGHTNESS_LEVELS_def NUM_CONTRAST_LEVELS_def NUM_SATURATION_LEVELS_def Let_def)

lemma mode_status:
  "0 \<le> n \<Longrightarrow> n \<le> 6 \<Longrightarrow>
    status (snd (set_special_effect i2c n s)) = (status s)\<lparr>st_special_effect := word_of_int n\<rparr>"
  "0 \<le> n \<Longrightarrow> n \<le> 11 \<Longrightarrow> status (snd (set_wb_mode i2c n s)) = (status s)\<lparr>st_wb_mode := word_of_int n\<rparr>"
  by (simp_all add: set_special_effect_def set_wb_mode_def NUM_SPECIAL_EFFECTS_def NUM_WB_MODES_def
      Let_def or_return_simps)

lemma value_status:
  "0 \<le> n \<Longrightarrow> n \<le> 63 \<Longrightarrow> status (snd (set_quality i2c n s)) = (status s)\<lparr>st_quality := word_of_int n\<rparr>"
  "0 \<le> n \<Longrightarrow> n \<le> 30 \<Longrightarrow> status (snd (set_agc_gain i2c n s)) = (status s)\<lparr>st_agc_gain := word_of_int n\<rparr>"
  "0 \<le> n \<Longrightarrow> n \<le> 1200 \<Longrightarrow> status (snd (set_aec_value i2c n s)) = (status s)\<lparr>st_aec_value := word_of_int n\<rparr>"
  by (simp_all add: set_quality_def set_agc_gain_def set_aec_value_def clamp_def Let_def c_or_def case_prod_beta)

lemma switch_status:
  "status (snd (set_aec2 i2c n s)) = (status s)\<lparr>st_aec2 := word_of_int n\<rparr>"
  "status (snd (set_awb_gain_dsp i2c n s)) = (status s)\<lparr>st_awb_gain := word_of_int n\<rparr>"
  "status (snd (set_bpc_dsp i2c n s)) = (status s)\<lparr>st_bpc := word_of_int n\<rparr>"
  "status (snd (set_colorbar i2c n s)) = (status s)\<lparr>st_colorbar := word_of_int n\<rparr>"
  "status (snd (set_dcw_dsp i2c n s)) = (status s)\<lparr>st_dcw := word_of_int n\<rparr>"
  "status (snd (set_aec_sensor i2c n s)) = (status s)\<lparr>st_aec := word_of_int n\<rparr>"
  "status (snd (set_agc_sensor i2c n s)) = (status s)\<lparr>st_agc := word_of_int n\<rparr>"
  "status (snd (set_gainceiling_sensor i2c n s)) = (status s)\<lparr>st_gainceiling := word_of_int n\<rparr>"
  "status (snd (set_hmirror_sensor i2c n s)) = (status s)\<lparr>st_hmirror := word_of_int n\<rparr>"
  "status (snd (set_vflip_sensor i2c n s)) = (status s)\<lparr>st_vflip := word_of_int n\<rparr>"
  "status (snd (set_lenc_dsp i2c n s)) = (status s)\<lparr>st_lenc := word_of_int n\<rparr>"
  "status (snd (set_raw_gma_dsp i2c n s)) = (status s)\<lparr>st_raw_gma := word_of_int n\<rparr>"
  "status (snd (set_awb_dsp i2c n s)) = (status s)\<lparr>st_awb := word_of_int n\<rparr>"
  "status (snd (set_wpc_dsp i2c n s)) = (status s)\<lparr>st_wpc := word_of_int n\<rparr>"
  by (simp_all add: set_aec2_def set_awb_gain_dsp_def set_bpc_dsp_def set_colorbar_def set_dcw_dsp_def
      set_aec_sensor_def set_agc_sensor_def set_gainceiling_sensor_def set_hmirror_sensor_def
      set_vflip_sensor_def set_lenc_dsp_def set_raw_gma_dsp_def set_awb_dsp_def set_wpc_dsp_def
      write_reg_bits_def case_prod_beta)

lemma framesize_status:
  "status (snd (set_framesize i2c fs s)) = (status s)\<lparr>st_framesize := fs\<rparr>"
  by (simp add: set_framesize_def case_prod_beta)

lemma calls_ov2640:
  assumes "ce_sensors env ! sen_driver st = ov2640_entry i2c"
  shows "calls env cs st = st\<lparr>sen := fold (\<lambda>c s. snd (ov2640_init i2c c s)) cs (sen st)\<rparr>"
  using assms
proof (induction cs arbitrary: st)
  case Nil
  then show ?case by (simp add: calls_def)
next
  case (Cons c cs)
  let ?t = "snd (call env c st)"
  have t: "?t = st\<lparr>sen := snd (ov2640_init i2c c (sen st))\<rparr>"
    using Cons.prems by (simp add: call_def ov2640_entry_def case_prod_beta)
  have "calls env (c # cs) st = calls env cs ?t" by (simp add: calls_def)
  also have "\<dots> = ?t\<lparr>sen := fold (\<lambda>c s. snd (ov2640_init i2c c s)) cs (sen ?t)\<rparr>"
    by (rule Cons.IH) (use Cons.prems in \<open>simp add: t\<close>)
  finally show ?case by (simp add: t)
qed

lemma restored_status:
  assumes "settable t"
  shows "status (fold (\<lambda>c s. snd (ov2640_init i2c c s)) (restore_calls t) s) =
    t\<lparr>st_scale := st_scale (status s), st_binning := st_binning (status s),
      st_sharpness := st_sharpness (status s), st_denoise := st_denoise (status s)\<rparr>"
  using assms
  by (simp add: restore_calls_def settable_def level_status mode_status value_status switch_status
      framesize_status set_sharpness_def set_denoise_def)

text \<open>Loading a stored status within the ranges of the controls and a stored pixel format.\<close>

lemma settings_restored:
  assumes "nvs_open nvs key n = ((ESP_OK, handle), n')" "s_state st \<noteq> None"
    and "nvs_get_blob nvs handle CAMERA_SENSOR_NVS_KEY n' = (ESP_OK, t)" "settable t"
    and "nvs_get_u8 nvs handle CAMERA_PIXFORMAT_NVS_KEY n' = (ESP_OK, of_nat (pixformat_index f))"
    and "ce_sensors env ! sen_driver st = ov2640_entry i2c"
  shows "\<exists>st'. esp_camera_load_from_nvs env nvs key st n = (ESP_OK, st', nvs_close nvs handle n') \<and>
    status (sen st') = t\<lparr>st_scale := st_scale (status (sen st)), st_binning := st_binning (status (sen st)),
      st_sharpness := st_sharpness (status (sen st)), st_denoise := st_denoise (status (sen st))\<rparr> \<and>
    pixformat (sen st') = f"
proof -
  let ?s = "fold (\<lambda>c s. snd (ov2640_init i2c c s)) (restore_calls t) (sen st)"
  have c: "calls env (restore_calls t) st = st\<lparr>sen := ?s\<rparr>" by (rule calls_ov2640 [OF assms(6)])
  have f: "unat (of_nat (pixformat_index f) :: u8) = pixformat_index f"
    "pixformat_index f < length pixformats" "pixformats ! pixformat_index f = f"
    by (cases f; simp add: pixformats_def)+
  let ?st = "st\<lparr>sen := snd (set_pixformat i2c f ?s)\<rparr>"
  have l: "esp_camera_load_from_nvs env nvs key st n = (ESP_OK, ?st, nvs_close nvs handle n')"
    using assms(1,2,3,5,6)
    by (auto simp: esp_camera_load_from_nvs_def esp_camera_sensor_get_def c f call_def ov2640_entry_def
        case_prod_beta)
  have "pixformat (snd (set_pixformat i2c f ?s)) = f"
    by (simp add: set_pixformat_def Let_def frame_status(2) [OF frame_write_regs] split: option.splits)
  then show ?thesis using l restored_status [OF assms(4), of i2c "sen st"] by simp
qed

text \<open>
  What \<^verbatim>\<open>nvs.h\<close> documents of the storage. A handle belongs to the name space it was opened for. Setting a value
  changes what is set (\<open>nv_set_blobs\<close>, \<open>nv_set_bytes\<close>); what is stored, and found by reading, (\<open>nv_blobs\<close>,
  \<open>nv_bytes\<close>) is what is set for a name space after a commit through one of its handles. When a
  change that is not committed is stored, if ever, is left open.
\<close>

record 'n nvs_view =
  nv_space :: "'n \<Rightarrow> nat \<Rightarrow> string option"
  nv_set_blobs :: "'n \<Rightarrow> string \<times> string \<Rightarrow> camera_status_t option"
  nv_set_bytes :: "'n \<Rightarrow> string \<times> string \<Rightarrow> u8 option"
  nv_blobs :: "'n \<Rightarrow> string \<times> string \<Rightarrow> camera_status_t option"
  nv_bytes :: "'n \<Rightarrow> string \<times> string \<Rightarrow> u8 option"

definition nvs_law :: "'n nvs \<Rightarrow> 'n nvs_view \<Rightarrow> bool" where
  "nvs_law nvs V \<longleftrightarrow>
    (\<forall>key n h n'. nvs_open nvs key n = ((ESP_OK, h), n') \<longrightarrow> nv_space V n' h = Some key \<and>
       nv_set_blobs V n' = nv_set_blobs V n \<and> nv_set_bytes V n' = nv_set_bytes V n \<and>
       nv_blobs V n' = nv_blobs V n \<and> nv_bytes V n' = nv_bytes V n) \<and>
    (\<forall>h k v n n' key. nvs_set_blob nvs h k v n = (ESP_OK, n') \<longrightarrow> nv_space V n h = Some key \<longrightarrow>
       nv_space V n' = nv_space V n \<and>
       nv_set_blobs V n' = (nv_set_blobs V n)((key, k) \<mapsto> v) \<and> nv_set_bytes V n' = nv_set_bytes V n) \<and>
    (\<forall>h k v n n' key. nvs_set_u8 nvs h k v n = (ESP_OK, n') \<longrightarrow> nv_space V n h = Some key \<longrightarrow>
       nv_space V n' = nv_space V n \<and>
       nv_set_blobs V n' = nv_set_blobs V n \<and> nv_set_bytes V n' = (nv_set_bytes V n)((key, k) \<mapsto> v)) \<and>
    (\<forall>h n n' key. nvs_commit nvs h n = (ESP_OK, n') \<longrightarrow> nv_space V n h = Some key \<longrightarrow>
       (\<forall>k. nv_blobs V n' (key, k) = nv_set_blobs V n (key, k) \<and> nv_bytes V n' (key, k) = nv_set_bytes V n (key, k))) \<and>
    (\<forall>h k v n key. nv_space V n h = Some key \<longrightarrow> nv_blobs V n (key, k) = Some v \<longrightarrow> nvs_get_blob nvs h k n = (ESP_OK, v)) \<and>
    (\<forall>h k v n key. nv_space V n h = Some key \<longrightarrow> nv_bytes V n (key, k) = Some v \<longrightarrow> nvs_get_u8 nvs h k n = (ESP_OK, v))"

lemma nvs_lawD:
  assumes "nvs_law nvs V"
  shows "nvs_open nvs key n = ((ESP_OK, h), n') \<Longrightarrow> nv_space V n' h = Some key \<and>
      nv_set_blobs V n' = nv_set_blobs V n \<and> nv_set_bytes V n' = nv_set_bytes V n \<and>
      nv_blobs V n' = nv_blobs V n \<and> nv_bytes V n' = nv_bytes V n"
    and "nvs_set_blob nvs h k v n = (ESP_OK, n') \<Longrightarrow> nv_space V n h = Some key \<Longrightarrow> nv_space V n' = nv_space V n \<and>
      nv_set_blobs V n' = (nv_set_blobs V n)((key, k) \<mapsto> v) \<and> nv_set_bytes V n' = nv_set_bytes V n"
    and "nvs_set_u8 nvs h k w n = (ESP_OK, n') \<Longrightarrow> nv_space V n h = Some key \<Longrightarrow> nv_space V n' = nv_space V n \<and>
      nv_set_blobs V n' = nv_set_blobs V n \<and> nv_set_bytes V n' = (nv_set_bytes V n)((key, k) \<mapsto> w)"
    and "nv_space V n h = Some key \<Longrightarrow> nv_blobs V n (key, k) = Some v \<Longrightarrow> nvs_get_blob nvs h k n = (ESP_OK, v)"
    and "nv_space V n h = Some key \<Longrightarrow> nv_bytes V n (key, k) = Some w \<Longrightarrow> nvs_get_u8 nvs h k n = (ESP_OK, w)"
    and "nvs_commit nvs h n = (ESP_OK, n') \<Longrightarrow> nv_space V n h = Some key \<Longrightarrow>
      nv_blobs V n' (key, k) = nv_set_blobs V n (key, k) \<and> nv_bytes V n' (key, k) = nv_set_bytes V n (key, k)"
  using assms unfolding nvs_law_def by metis+

lemma saved_settings:
  assumes "nvs_law nvs V" "s_state st \<noteq> None"
    and "esp_camera_save_to_nvs nvs key st n = (ESP_OK, n')"
  shows "nv_set_blobs V n' (key, CAMERA_SENSOR_NVS_KEY) = Some (status (sen st))"
    and "nv_set_bytes V n' (key, CAMERA_PIXFORMAT_NVS_KEY) = Some (of_nat (pixformat_index (pixformat (sen st))))"
proof -
  obtain r h n1 where o: "nvs_open nvs key n = ((r, h), n1)" by (metis surj_pair)
  obtain e n2 where b: "nvs_set_blob nvs h CAMERA_SENSOR_NVS_KEY (status (sen st)) n1 = (e, n2)" by (metis surj_pair)
  have r: "r = ESP_OK" "e = ESP_OK"
    "nvs_set_u8 nvs h CAMERA_PIXFORMAT_NVS_KEY (of_nat (pixformat_index (pixformat (sen st)))) n2 = (ESP_OK, n')"
    using assms(2,3) o b
    by (auto simp: esp_camera_save_to_nvs_def esp_camera_sensor_get_def split: if_splits)
  note 1 = nvs_lawD(1) [OF assms(1) o [unfolded r]]
  note 2 = nvs_lawD(2) [OF assms(1) b [unfolded r], of key]
  note 3 = nvs_lawD(3) [OF assms(1) r(3), of key]
  show "nv_set_blobs V n' (key, CAMERA_SENSOR_NVS_KEY) = Some (status (sen st))"
    "nv_set_bytes V n' (key, CAMERA_PIXFORMAT_NVS_KEY) = Some (of_nat (pixformat_index (pixformat (sen st))))"
    using 1 2 3 by simp_all
qed

text \<open>
  The camera \<open>st'\<close> has the settings \<open>t\<close> and the pixel format \<open>f\<close>, all but sharpness and denoising, which the
  sensor refuses, and scaling and binning, which the code does not load: these it has from \<open>st\<close>.
\<close>

definition has_settings :: "camera_status_t \<Rightarrow> pixformat_t \<Rightarrow> 'd camera \<Rightarrow> 'd camera \<Rightarrow> bool" where
  "has_settings t f st st' \<longleftrightarrow> pixformat (sen st') = f \<and>
    status (sen st') = t\<lparr>st_scale := st_scale (status (sen st)), st_binning := st_binning (status (sen st)),
      st_sharpness := st_sharpness (status (sen st)), st_denoise := st_denoise (status (sen st))\<rparr>"

text \<open>What is stored is what a load puts into the camera.\<close>

lemma stored_settings_loaded:
  assumes "nvs_law nvs V" "nvs_open nvs key n = ((ESP_OK, handle), n')"
    and "nv_blobs V n (key, CAMERA_SENSOR_NVS_KEY) = Some t" "settable t"
    and "nv_bytes V n (key, CAMERA_PIXFORMAT_NVS_KEY) = Some (of_nat (pixformat_index f))"
    and "s_state st \<noteq> None" "ce_sensors env ! sen_driver st = ov2640_entry i2c"
  shows "\<exists>st'. esp_camera_load_from_nvs env nvs key st n = (ESP_OK, st', nvs_close nvs handle n') \<and> has_settings t f st st'"
proof -
  note o = nvs_lawD(1) [OF assms(1,2)]
  have "nvs_get_blob nvs handle CAMERA_SENSOR_NVS_KEY n' = (ESP_OK, t)"
    using o assms(3) by (intro nvs_lawD(4) [OF assms(1)]) auto
  moreover have "nvs_get_u8 nvs handle CAMERA_PIXFORMAT_NVS_KEY n' = (ESP_OK, of_nat (pixformat_index f))"
    using o assms(5) by (intro nvs_lawD(5) [OF assms(1)]) auto
  ultimately show ?thesis
    using settings_restored [OF assms(2,6) _ assms(4) _ assms(7)] by (auto simp: has_settings_def)
qed

text \<open>C18: settings saved to flash and loaded again are restored, once they are committed. After a successful
  save of a camera whose status is within the ranges of the controls, and a commit of the name space, loading
  under the same key into any running OV2640 gives it the saved settings and pixel format, whatever it had and
  whatever the bus does, and closes the handle. The code itself never commits: as long as the store has not
  written the new values of its own accord, a load finds the settings stored before the save.\<close>

theorem settings_round_trip:
  assumes "nvs_law nvs V" "s_state saved \<noteq> None" "settable (status (sen saved))"
    and "esp_camera_save_to_nvs nvs key saved n = (ESP_OK, n1)"
    and "s_state st \<noteq> None" "ce_sensors env ! sen_driver st = ov2640_entry i2c"
  shows "(\<forall>h n2 handle n3. nv_space V n1 h = Some key \<and> nvs_commit nvs h n1 = (ESP_OK, n2) \<and>
        nvs_open nvs key n2 = ((ESP_OK, handle), n3) \<longrightarrow>
      (\<exists>st'. esp_camera_load_from_nvs env nvs key st n2 = (ESP_OK, st', nvs_close nvs handle n3) \<and>
         has_settings (status (sen saved)) (pixformat (sen saved)) st st')) \<and>
    (\<forall>t f handle n2. nv_blobs V n (key, CAMERA_SENSOR_NVS_KEY) = Some t \<and> settable t \<and>
        nv_bytes V n (key, CAMERA_PIXFORMAT_NVS_KEY) = Some (of_nat (pixformat_index f)) \<and>
        nv_blobs V n1 = nv_blobs V n \<and> nv_bytes V n1 = nv_bytes V n \<and> nvs_open nvs key n1 = ((ESP_OK, handle), n2) \<longrightarrow>
      (\<exists>st'. esp_camera_load_from_nvs env nvs key st n1 = (ESP_OK, st', nvs_close nvs handle n2) \<and> has_settings t f st st'))"
proof (intro conjI allI impI; elim conjE)
  fix h n2 handle n3
  assume "nv_space V n1 h = Some key" "nvs_commit nvs h n1 = (ESP_OK, n2)" and o: "nvs_open nvs key n2 = ((ESP_OK, handle), n3)"
  then have "nv_blobs V n2 (key, CAMERA_SENSOR_NVS_KEY) = Some (status (sen saved))"
    "nv_bytes V n2 (key, CAMERA_PIXFORMAT_NVS_KEY) = Some (of_nat (pixformat_index (pixformat (sen saved))))"
    using nvs_lawD(6) [OF assms(1), of h n1 n2 key] saved_settings [OF assms(1,2,4)] by simp_all
  then show "\<exists>st'. esp_camera_load_from_nvs env nvs key st n2 = (ESP_OK, st', nvs_close nvs handle n3) \<and>
      has_settings (status (sen saved)) (pixformat (sen saved)) st st'"
    using stored_settings_loaded [OF assms(1) o _ assms(3) _ assms(5,6)] by simp
next
  fix t f handle n2
  assume "nv_blobs V n (key, CAMERA_SENSOR_NVS_KEY) = Some t" and t: "settable t"
    and "nv_bytes V n (key, CAMERA_PIXFORMAT_NVS_KEY) = Some (of_nat (pixformat_index f))"
    and "nv_blobs V n1 = nv_blobs V n" "nv_bytes V n1 = nv_bytes V n" and o: "nvs_open nvs key n1 = ((ESP_OK, handle), n2)"
  then show "\<exists>st'. esp_camera_load_from_nvs env nvs key st n1 = (ESP_OK, st', nvs_close nvs handle n2) \<and> has_settings t f st st'"
    using stored_settings_loaded [OF assms(1) o _ t _ assms(5,6)] by simp
qed

text \<open>
  A storage in memory that writes only when committed: the name spaces of the handles given out, the entries
  stored, and before them the changes that wait.
\<close>

record flash =
  fl_open :: "string list"
  fl_blobs :: "((string \<times> string) \<times> camera_status_t) list"
  fl_bytes :: "((string \<times> string) \<times> u8) list"
  fl_new_blobs :: "((string \<times> string) \<times> camera_status_t) list"
  fl_new_bytes :: "((string \<times> string) \<times> u8) list"

definition flash_space :: "flash \<Rightarrow> nat \<Rightarrow> string option" where
  "flash_space n h = (if h < length (fl_open n) then Some (fl_open n ! h) else None)"

definition flash_nvs :: "flash nvs" where
  "flash_nvs = \<lparr>
    nvs_open = (\<lambda>key n. ((ESP_OK, length (fl_open n)), n\<lparr>fl_open := fl_open n @ [key]\<rparr>)),
    nvs_set_blob = (\<lambda>h k v n. case flash_space n h of None \<Rightarrow> (ESP_FAIL, n)
      | Some key \<Rightarrow> (ESP_OK, n\<lparr>fl_new_blobs := ((key, k), v) # fl_new_blobs n\<rparr>)),
    nvs_set_u8 = (\<lambda>h k v n. case flash_space n h of None \<Rightarrow> (ESP_FAIL, n)
      | Some key \<Rightarrow> (ESP_OK, n\<lparr>fl_new_bytes := ((key, k), v) # fl_new_bytes n\<rparr>)),
    nvs_get_blob = (\<lambda>h k n. case flash_space n h of None \<Rightarrow> (ESP_FAIL, status_zero)
      | Some key \<Rightarrow> (case map_of (fl_blobs n) (key, k) of None \<Rightarrow> (ESP_FAIL, status_zero) | Some v \<Rightarrow> (ESP_OK, v))),
    nvs_get_u8 = (\<lambda>h k n. case flash_space n h of None \<Rightarrow> (ESP_FAIL, 0)
      | Some key \<Rightarrow> (case map_of (fl_bytes n) (key, k) of None \<Rightarrow> (ESP_FAIL, 0) | Some v \<Rightarrow> (ESP_OK, v))),
    nvs_commit = (\<lambda>h n. case flash_space n h of None \<Rightarrow> (ESP_FAIL, n)
      | Some key \<Rightarrow> (ESP_OK, n\<lparr>fl_blobs := fl_new_blobs n @ fl_blobs n, fl_bytes := fl_new_bytes n @ fl_bytes n,
           fl_new_blobs := [], fl_new_bytes := []\<rparr>)),
    nvs_close = (\<lambda>h n. n)\<rparr>"

definition flash_view :: "flash nvs_view" where
  "flash_view = \<lparr>nv_space = flash_space,
     nv_set_blobs = (\<lambda>n. map_of (fl_new_blobs n @ fl_blobs n)), nv_set_bytes = (\<lambda>n. map_of (fl_new_bytes n @ fl_bytes n)),
     nv_blobs = (\<lambda>n. map_of (fl_blobs n)), nv_bytes = (\<lambda>n. map_of (fl_bytes n))\<rparr>"

lemma flash_law: "nvs_law flash_nvs flash_view"
  by (auto simp: nvs_law_def flash_nvs_def flash_view_def flash_space_def esp_err_defs split: option.splits if_splits)

text \<open>Settings with quality 40 are stored, and a camera with quality 0 is saved: with a commit the load gives
  quality 0, and without one quality 40.\<close>

definition old_flash :: flash where
  "old_flash = \<lparr>fl_open = [], fl_blobs = [((''cam'', CAMERA_SENSOR_NVS_KEY), status_zero\<lparr>st_quality := 40\<rparr>)],
     fl_bytes = [((''cam'', CAMERA_PIXFORMAT_NVS_KEY), 0)], fl_new_blobs = [], fl_new_bytes = []\<rparr>"

lemma flash_saves:
  "\<exists>n1. esp_camera_save_to_nvs flash_nvs ''cam'' running_camera old_flash = (ESP_OK, n1) \<and>
     fl_open n1 = [''cam''] \<and> fl_blobs n1 = fl_blobs old_flash \<and> fl_bytes n1 = fl_bytes old_flash"
  by (simp add: esp_camera_save_to_nvs_def flash_nvs_def flash_space_def esp_camera_sensor_get_def running_camera_def old_flash_def)

theorem settings_round_trip_witness:
  "\<exists>n1 n2. esp_camera_save_to_nvs flash_nvs ''cam'' running_camera old_flash = (ESP_OK, n1) \<and>
     nvs_commit flash_nvs 0 n1 = (ESP_OK, n2) \<and>
     st_quality (status (sen (fst (snd (esp_camera_load_from_nvs demo_env flash_nvs ''cam'' running_camera n2))))) = 0 \<and>
     st_quality (status (sen (fst (snd (esp_camera_load_from_nvs demo_env flash_nvs ''cam'' running_camera n1))))) = 40"
proof -
  obtain n1 where n1: "esp_camera_save_to_nvs flash_nvs ''cam'' running_camera old_flash = (ESP_OK, n1)"
    "fl_open n1 = [''cam'']" "fl_blobs n1 = fl_blobs old_flash" "fl_bytes n1 = fl_bytes old_flash"
    using flash_saves by blast
  let ?n2 = "snd (nvs_commit flash_nvs 0 n1)"
  have c: "nv_space flash_view n1 0 = Some ''cam''" "nvs_commit flash_nvs 0 n1 = (ESP_OK, ?n2)"
    using n1(2) by (simp_all add: flash_view_def flash_nvs_def flash_space_def)
  have o: "nvs_open flash_nvs ''cam'' n = ((ESP_OK, length (fl_open n)), n\<lparr>fl_open := fl_open n @ [''cam'']\<rparr>)" for n
    by (simp add: flash_nvs_def)
  have z: "status (sen running_camera) = status_zero" "s_state running_camera \<noteq> None" "settable status_zero"
    "settable (status_zero\<lparr>st_quality := 40\<rparr>)" "st_quality status_zero = 0"
    by (simp_all add: running_camera_def demo_camera_def fresh_sensor_def settable_def status_zero_def)
  have e: "ce_sensors demo_env ! sen_driver running_camera = ov2640_entry chip_transfer"
    by (simp add: running_camera_def demo_camera_def demo_env_def)
  have old: "nv_blobs flash_view old_flash (''cam'', CAMERA_SENSOR_NVS_KEY) = Some (status_zero\<lparr>st_quality := 40\<rparr>)"
    "nv_bytes flash_view old_flash (''cam'', CAMERA_PIXFORMAT_NVS_KEY) = Some (of_nat (pixformat_index PIXFORMAT_RGB565))"
    "nv_blobs flash_view n1 = nv_blobs flash_view old_flash" "nv_bytes flash_view n1 = nv_bytes flash_view old_flash"
    using n1(3,4) by (simp_all add: flash_view_def old_flash_def)
  note rt = settings_round_trip [OF flash_law z(2) _ n1(1) z(2) e, unfolded z(1), OF z(3)]
  have "st_quality (status (sen (fst (snd (esp_camera_load_from_nvs demo_env flash_nvs ''cam'' running_camera ?n2))))) = 0"
    using rt [THEN conjunct1, rule_format, OF conjI [OF c(1) conjI [OF c(2) o]]] z(5) by (auto simp: has_settings_def)
  moreover have "st_quality (status (sen (fst (snd (esp_camera_load_from_nvs demo_env flash_nvs ''cam'' running_camera n1))))) = 40"
    using rt [THEN conjunct2, rule_format, of "status_zero\<lparr>st_quality := 40\<rparr>" PIXFORMAT_RGB565] z(4) old o [of n1]
    by (auto simp: has_settings_def)
  ultimately show ?thesis using n1(1) c(2) by blast
qed

end
