(* ===== verification/Event_Group.thy ===== *)
theory Event_Group
  imports Prelude
begin

text \<open>
  FreeRTOS event groups, \<^verbatim>\<open>components/freertos/event_groups.c\<close>, with the three functions of
  \<^verbatim>\<open>tasks.c\<close> they use: a word of flags and a list of tasks that wait for some of them. A task's wait
  is encoded in the value of its event list item, and so is the answer. A blocking call is split
  where it blocks; \<open>eg_step\<close> interleaves the calls of any number of tasks. Tracing and the critical
  sections (each of which is one step) are left out.
\<close>

unbundle bit_operations_syntax

section \<open>Model\<close>

type_synonym EventBits_t = u32

definition eventCLEAR_EVENTS_ON_EXIT_BIT :: EventBits_t where "eventCLEAR_EVENTS_ON_EXIT_BIT = 0x01000000"
definition eventUNBLOCKED_DUE_TO_BIT_SET :: EventBits_t where "eventUNBLOCKED_DUE_TO_BIT_SET = 0x02000000"
definition eventWAIT_FOR_ALL_BITS :: EventBits_t where "eventWAIT_FOR_ALL_BITS = 0x04000000"
definition eventEVENT_BITS_CONTROL_BYTES :: EventBits_t where "eventEVENT_BITS_CONTROL_BYTES = 0xff000000"
definition taskEVENT_LIST_ITEM_VALUE_IN_USE :: EventBits_t where
  "taskEVENT_LIST_ITEM_VALUE_IN_USE = 0x80000000"

lemmas control_defs = eventCLEAR_EVENTS_ON_EXIT_BIT_def eventUNBLOCKED_DUE_TO_BIT_SET_def
  eventWAIT_FOR_ALL_BITS_def eventEVENT_BITS_CONTROL_BYTES_def taskEVENT_LIST_ITEM_VALUE_IN_USE_def

text \<open>The group, with the values of the tasks' event list items; \<open>reset_value\<close> is the value an item
  gets when it is reset, which depends on the task's priority.\<close>

record EventGroup_t =
  uxEventBits :: EventBits_t
  xTasksWaitingForBits :: "nat list"
  ucStaticallyAllocated :: bool
  xEventListItem :: "nat \<Rightarrow> EventBits_t"
  reset_value :: "nat \<Rightarrow> EventBits_t"

definition xEventGroupCreate :: "bool \<Rightarrow> (nat \<Rightarrow> EventBits_t) \<Rightarrow> (nat \<Rightarrow> EventBits_t) \<Rightarrow> EventGroup_t option" where
  "xEventGroupCreate pvPortMalloc_ok items rv =
    (if pvPortMalloc_ok
     then Some \<lparr>uxEventBits = 0, xTasksWaitingForBits = [], ucStaticallyAllocated = False,
            xEventListItem = items, reset_value = rv\<rparr>
     else None)"

definition xEventGroupCreateStatic :: "(nat \<Rightarrow> EventBits_t) \<Rightarrow> (nat \<Rightarrow> EventBits_t) \<Rightarrow> EventGroup_t" where
  "xEventGroupCreateStatic items rv =
    \<lparr>uxEventBits = 0, xTasksWaitingForBits = [], ucStaticallyAllocated = True,
     xEventListItem = items, reset_value = rv\<rparr>"

definition vTaskPlaceOnUnorderedEventList :: "nat \<Rightarrow> EventBits_t \<Rightarrow> EventGroup_t \<Rightarrow> EventGroup_t" where
  "vTaskPlaceOnUnorderedEventList t xItemValue g =
    g\<lparr>xEventListItem := (xEventListItem g)(t := xItemValue OR taskEVENT_LIST_ITEM_VALUE_IN_USE),
      xTasksWaitingForBits := xTasksWaitingForBits g @ [t]\<rparr>"

definition vTaskRemoveFromUnorderedEventList :: "nat \<Rightarrow> EventBits_t \<Rightarrow> EventGroup_t \<Rightarrow> EventGroup_t" where
  "vTaskRemoveFromUnorderedEventList t xItemValue g =
    g\<lparr>xEventListItem := (xEventListItem g)(t := xItemValue OR taskEVENT_LIST_ITEM_VALUE_IN_USE),
      xTasksWaitingForBits := remove1 t (xTasksWaitingForBits g)\<rparr>"

definition uxTaskResetEventItemValue :: "nat \<Rightarrow> EventGroup_t \<Rightarrow> EventBits_t \<times> EventGroup_t" where
  "uxTaskResetEventItemValue t g =
    (xEventListItem g t, g\<lparr>xEventListItem := (xEventListItem g)(t := reset_value g t)\<rparr>)"

definition prvTestWaitCondition :: "EventBits_t \<Rightarrow> EventBits_t \<Rightarrow> bool \<Rightarrow> bool" where
  "prvTestWaitCondition uxCurrentEventBits uxBitsToWaitFor xWaitForAllBits =
    (if \<not> xWaitForAllBits then uxCurrentEventBits AND uxBitsToWaitFor \<noteq> 0
     else uxCurrentEventBits AND uxBitsToWaitFor = uxBitsToWaitFor)"

definition clear_event_bits :: "EventBits_t \<Rightarrow> EventGroup_t \<Rightarrow> EventGroup_t" where
  "clear_event_bits b g = g\<lparr>uxEventBits := uxEventBits g AND NOT b\<rparr>"

text \<open>The loop over the waiting tasks; the result is what to clear. \<open>None\<close> below stands for a failed
  assertion.\<close>

fun unblock_tasks :: "nat list \<Rightarrow> EventBits_t \<Rightarrow> EventGroup_t \<Rightarrow> EventBits_t \<times> EventGroup_t" where
  "unblock_tasks [] uxBitsToClear g = (uxBitsToClear, g)"
| "unblock_tasks (t # ts) uxBitsToClear g =
    (let uxBitsWaitedFor = xEventListItem g t;
         uxControlBits = uxBitsWaitedFor AND eventEVENT_BITS_CONTROL_BYTES;
         uxBitsWaitedFor = uxBitsWaitedFor AND NOT eventEVENT_BITS_CONTROL_BYTES;
         xMatchFound =
           (if uxControlBits AND eventWAIT_FOR_ALL_BITS = 0
            then uxBitsWaitedFor AND uxEventBits g \<noteq> 0
            else uxBitsWaitedFor AND uxEventBits g = uxBitsWaitedFor)
     in if xMatchFound
        then unblock_tasks ts
               (if uxControlBits AND eventCLEAR_EVENTS_ON_EXIT_BIT \<noteq> 0
                then uxBitsToClear OR uxBitsWaitedFor else uxBitsToClear)
               (vTaskRemoveFromUnorderedEventList t (uxEventBits g OR eventUNBLOCKED_DUE_TO_BIT_SET) g)
        else unblock_tasks ts uxBitsToClear g)"

definition xEventGroupSetBits :: "EventBits_t \<Rightarrow> EventGroup_t \<Rightarrow> (EventBits_t \<times> EventGroup_t) option" where
  "xEventGroupSetBits uxBitsToSet g =
    (if uxBitsToSet AND eventEVENT_BITS_CONTROL_BYTES \<noteq> 0 then None
     else let g = g\<lparr>uxEventBits := uxEventBits g OR uxBitsToSet\<rparr>;
              (uxBitsToClear, g) = unblock_tasks (xTasksWaitingForBits g) 0 g;
              g = clear_event_bits uxBitsToClear g
          in Some (uxEventBits g, g))"

definition vEventGroupSetBitsCallback :: "u32 \<Rightarrow> EventGroup_t \<Rightarrow> EventGroup_t option" where
  "vEventGroupSetBitsCallback ulBitsToSet g = map_option snd (xEventGroupSetBits ulBitsToSet g)"

definition xEventGroupClearBits :: "EventBits_t \<Rightarrow> EventGroup_t \<Rightarrow> (EventBits_t \<times> EventGroup_t) option" where
  "xEventGroupClearBits uxBitsToClear g =
    (if uxBitsToClear AND eventEVENT_BITS_CONTROL_BYTES \<noteq> 0 then None
     else Some (uxEventBits g, clear_event_bits uxBitsToClear g))"

definition vEventGroupClearBitsCallback :: "u32 \<Rightarrow> EventGroup_t \<Rightarrow> EventGroup_t option" where
  "vEventGroupClearBitsCallback ulBitsToClear g = map_option snd (xEventGroupClearBits ulBitsToClear g)"

definition xEventGroupGetBitsFromISR :: "EventGroup_t \<Rightarrow> EventBits_t" where
  "xEventGroupGetBitsFromISR g = uxEventBits g"

text \<open>What a blocking call does first: it fails an assertion, returns, or blocks.\<close>

datatype eg_outcome = Asserted | Returned EventBits_t EventGroup_t | Blocked EventGroup_t

definition control_bits :: "bool \<Rightarrow> bool \<Rightarrow> EventBits_t" where
  "control_bits xClearOnExit xWaitForAllBits =
    (if xClearOnExit then eventCLEAR_EVENTS_ON_EXIT_BIT else 0) OR
    (if xWaitForAllBits then eventWAIT_FOR_ALL_BITS else 0)"

definition xEventGroupWaitBits ::
  "nat \<Rightarrow> EventBits_t \<Rightarrow> bool \<Rightarrow> bool \<Rightarrow> u32 \<Rightarrow> EventGroup_t \<Rightarrow> eg_outcome" where
  "xEventGroupWaitBits t uxBitsToWaitFor xClearOnExit xWaitForAllBits xTicksToWait g =
    (if uxBitsToWaitFor AND eventEVENT_BITS_CONTROL_BYTES \<noteq> 0 \<or> uxBitsToWaitFor = 0 then Asserted
     else if prvTestWaitCondition (uxEventBits g) uxBitsToWaitFor xWaitForAllBits
     then Returned (uxEventBits g) (if xClearOnExit then clear_event_bits uxBitsToWaitFor g else g)
     else if xTicksToWait = 0 then Returned (uxEventBits g) g
     else Blocked (vTaskPlaceOnUnorderedEventList t
            (uxBitsToWaitFor OR control_bits xClearOnExit xWaitForAllBits) g))"

text \<open>The rest of the call, when the task runs again.\<close>

definition wait_resume ::
  "nat \<Rightarrow> EventBits_t \<Rightarrow> bool \<Rightarrow> bool \<Rightarrow> EventGroup_t \<Rightarrow> EventBits_t \<times> EventGroup_t" where
  "wait_resume t uxBitsToWaitFor xClearOnExit xWaitForAllBits g =
    (let (uxReturn, g) = uxTaskResetEventItemValue t g;
         (uxReturn, g) =
           (if uxReturn AND eventUNBLOCKED_DUE_TO_BIT_SET = 0
            then (uxEventBits g,
                  if prvTestWaitCondition (uxEventBits g) uxBitsToWaitFor xWaitForAllBits \<and> xClearOnExit
                  then clear_event_bits uxBitsToWaitFor g else g)
            else (uxReturn, g))
     in (uxReturn AND NOT eventEVENT_BITS_CONTROL_BYTES, g))"

definition xEventGroupSync ::
  "nat \<Rightarrow> EventBits_t \<Rightarrow> EventBits_t \<Rightarrow> u32 \<Rightarrow> EventGroup_t \<Rightarrow> eg_outcome" where
  "xEventGroupSync t uxBitsToSet uxBitsToWaitFor xTicksToWait g =
    (if uxBitsToWaitFor AND eventEVENT_BITS_CONTROL_BYTES \<noteq> 0 \<or> uxBitsToWaitFor = 0 then Asserted
     else let uxOriginalBitValue = uxEventBits g
          in case xEventGroupSetBits uxBitsToSet g of
            None \<Rightarrow> Asserted
          | Some (_, g) \<Rightarrow>
              (if (uxOriginalBitValue OR uxBitsToSet) AND uxBitsToWaitFor = uxBitsToWaitFor
               then Returned (uxOriginalBitValue OR uxBitsToSet) (clear_event_bits uxBitsToWaitFor g)
               else if xTicksToWait \<noteq> 0
               then Blocked (vTaskPlaceOnUnorderedEventList t
                      (uxBitsToWaitFor OR eventCLEAR_EVENTS_ON_EXIT_BIT OR eventWAIT_FOR_ALL_BITS) g)
               else Returned (uxEventBits g) g))"

definition sync_resume :: "nat \<Rightarrow> EventBits_t \<Rightarrow> EventGroup_t \<Rightarrow> EventBits_t \<times> EventGroup_t" where
  "sync_resume t uxBitsToWaitFor g =
    (let (uxReturn, g) = uxTaskResetEventItemValue t g;
         (uxReturn, g) =
           (if uxReturn AND eventUNBLOCKED_DUE_TO_BIT_SET = 0
            then (uxEventBits g,
                  if uxEventBits g AND uxBitsToWaitFor = uxBitsToWaitFor
                  then clear_event_bits uxBitsToWaitFor g else g)
            else (uxReturn, g))
     in (uxReturn AND NOT eventEVENT_BITS_CONTROL_BYTES, g))"

text \<open>Deleting wakes every task with an empty answer; the flag says whether the memory is freed.\<close>

definition vEventGroupDelete :: "EventGroup_t \<Rightarrow> bool \<times> EventGroup_t" where
  "vEventGroupDelete g =
    (\<not> ucStaticallyAllocated g,
     fold (\<lambda>t. vTaskRemoveFromUnorderedEventList t eventUNBLOCKED_DUE_TO_BIT_SET) (xTasksWaitingForBits g) g)"

section \<open>The group at work\<close>

text \<open>A task inside a blocking call, and the group shared by the tasks.\<close>

datatype eg_call = In_wait EventBits_t bool bool | In_sync EventBits_t

record eg_system =
  grp :: EventGroup_t
  pending :: "nat \<rightharpoonup> eg_call"

primrec call_want :: "eg_call \<Rightarrow> EventBits_t" where
  "call_want (In_wait w c a) = w"
| "call_want (In_sync w) = w"

primrec call_clears :: "eg_call \<Rightarrow> bool" where
  "call_clears (In_wait w c a) = c"
| "call_clears (In_sync w) = True"

primrec call_all :: "eg_call \<Rightarrow> bool" where
  "call_all (In_wait w c a) = a"
| "call_all (In_sync w) = True"

primrec resume :: "nat \<Rightarrow> eg_call \<Rightarrow> EventGroup_t \<Rightarrow> EventBits_t \<times> EventGroup_t" where
  "resume t (In_wait w c a) = wait_resume t w c a"
| "resume t (In_sync w) = sync_resume t w"

text \<open>When its time is over, the tick interrupt takes a task off the list and leaves its item.\<close>

definition expire :: "nat \<Rightarrow> EventGroup_t \<Rightarrow> EventGroup_t" where
  "expire t g = g\<lparr>xTasksWaitingForBits := remove1 t (xTasksWaitingForBits g)\<rparr>"

inductive eg_step :: "eg_system \<Rightarrow> eg_system \<Rightarrow> bool" where
  set_bits: "xEventGroupSetBits b (grp s) = Some (r, g) \<Longrightarrow> eg_step s (s\<lparr>grp := g\<rparr>)"
| clear_bits: "xEventGroupClearBits b (grp s) = Some (r, g) \<Longrightarrow> eg_step s (s\<lparr>grp := g\<rparr>)"
| wait_now: "pending s t = None \<Longrightarrow> xEventGroupWaitBits t w c a n (grp s) = Returned r g \<Longrightarrow>
    eg_step s (s\<lparr>grp := g\<rparr>)"
| wait_block: "pending s t = None \<Longrightarrow> xEventGroupWaitBits t w c a n (grp s) = Blocked g \<Longrightarrow>
    eg_step s (s\<lparr>grp := g, pending := (pending s)(t \<mapsto> In_wait w c a)\<rparr>)"
| sync_now: "pending s t = None \<Longrightarrow> xEventGroupSync t b w n (grp s) = Returned r g \<Longrightarrow>
    eg_step s (s\<lparr>grp := g\<rparr>)"
| sync_block: "pending s t = None \<Longrightarrow> xEventGroupSync t b w n (grp s) = Blocked g \<Longrightarrow>
    eg_step s (s\<lparr>grp := g, pending := (pending s)(t \<mapsto> In_sync w)\<rparr>)"
| timeout: "t \<in> set (xTasksWaitingForBits (grp s)) \<Longrightarrow> eg_step s (s\<lparr>grp := expire t (grp s)\<rparr>)"
| resumed: "pending s t = Some c \<Longrightarrow> t \<notin> set (xTasksWaitingForBits (grp s)) \<Longrightarrow>
    resume t c (grp s) = (r, g) \<Longrightarrow> eg_step s (s\<lparr>grp := g, pending := (pending s)(t := None)\<rparr>)"

definition eg_start :: "(nat \<Rightarrow> EventBits_t) \<Rightarrow> (nat \<Rightarrow> EventBits_t) \<Rightarrow> eg_system" where
  "eg_start items rv = \<lparr>grp = the (xEventGroupCreate True items rv), pending = Map.empty\<rparr>"

inductive eg_reachable :: "eg_system \<Rightarrow> bool" where
  start: "eg_reachable (eg_start items rv)"
| step: "eg_reachable s \<Longrightarrow> eg_step s s' \<Longrightarrow> eg_reachable s'"

section \<open>Encoding of a wait\<close>

definition item_of :: "eg_call \<Rightarrow> EventBits_t" where
  "item_of c = call_want c OR control_bits (call_clears c) (call_all c)"

definition met :: "eg_call \<Rightarrow> EventBits_t \<Rightarrow> bool" where
  "met c b = prvTestWaitCondition b (call_want c) (call_all c)"

definition valid_call :: "eg_call \<Rightarrow> bool" where
  "valid_call c \<longleftrightarrow> call_want c AND eventEVENT_BITS_CONTROL_BYTES = 0 \<and> call_want c \<noteq> 0"

text \<open>The test of \<open>unblock_tasks\<close> on an item.\<close>

definition item_matches :: "EventBits_t \<Rightarrow> EventBits_t \<Rightarrow> bool" where
  "item_matches v b =
    (let w = v AND NOT eventEVENT_BITS_CONTROL_BYTES
     in if (v AND eventEVENT_BITS_CONTROL_BYTES) AND eventWAIT_FOR_ALL_BITS = 0
        then w AND b \<noteq> 0 else w AND b = w)"

lemma split_field:
  fixes a k m :: "'a::len word"
  assumes "a AND m = 0" "k AND NOT m = 0"
  shows "(a OR k) AND m = k" "(a OR k) AND NOT m = a"
  using assms by (auto simp: bit_eq_iff bit_simps)

lemma item_split:
  assumes "valid_call c"
  shows "(item_of c OR taskEVENT_LIST_ITEM_VALUE_IN_USE) AND eventEVENT_BITS_CONTROL_BYTES =
      control_bits (call_clears c) (call_all c) OR taskEVENT_LIST_ITEM_VALUE_IN_USE"
    and "(item_of c OR taskEVENT_LIST_ITEM_VALUE_IN_USE) AND NOT eventEVENT_BITS_CONTROL_BYTES = call_want c"
proof -
  have "(control_bits (call_clears c) (call_all c) OR taskEVENT_LIST_ITEM_VALUE_IN_USE)
      AND NOT eventEVENT_BITS_CONTROL_BYTES = 0"
    by (cases "call_clears c"; cases "call_all c") (simp_all add: control_bits_def control_defs)
  from split_field [OF _ this, of "call_want c"] assms
  show "(item_of c OR taskEVENT_LIST_ITEM_VALUE_IN_USE) AND eventEVENT_BITS_CONTROL_BYTES =
      control_bits (call_clears c) (call_all c) OR taskEVENT_LIST_ITEM_VALUE_IN_USE"
    "(item_of c OR taskEVENT_LIST_ITEM_VALUE_IN_USE) AND NOT eventEVENT_BITS_CONTROL_BYTES = call_want c"
    by (simp_all add: item_of_def valid_call_def or.assoc)
qed

lemma item_waits [simp]:
  assumes "valid_call c"
  shows "item_matches (item_of c OR taskEVENT_LIST_ITEM_VALUE_IN_USE) b \<longleftrightarrow> met c b"
proof -
  have "(control_bits (call_clears c) (call_all c) OR taskEVENT_LIST_ITEM_VALUE_IN_USE)
      AND eventWAIT_FOR_ALL_BITS = 0 \<longleftrightarrow> \<not> call_all c"
    by (cases "call_clears c"; cases "call_all c") (simp_all add: control_bits_def control_defs)
  then show ?thesis
    unfolding item_matches_def met_def prvTestWaitCondition_def Let_def item_split [OF assms]
    by (simp add: and.commute [of b])
qed

lemma waiting_item_not_unblocked:
  assumes "valid_call c"
  shows "(item_of c OR taskEVENT_LIST_ITEM_VALUE_IN_USE) AND eventUNBLOCKED_DUE_TO_BIT_SET = 0"
proof -
  let ?v = "item_of c OR taskEVENT_LIST_ITEM_VALUE_IN_USE"
  have "?v AND eventUNBLOCKED_DUE_TO_BIT_SET =
      ?v AND (eventEVENT_BITS_CONTROL_BYTES AND eventUNBLOCKED_DUE_TO_BIT_SET)"
    by (simp add: control_defs)
  also have "\<dots> = (?v AND eventEVENT_BITS_CONTROL_BYTES) AND eventUNBLOCKED_DUE_TO_BIT_SET"
    by (rule and.assoc [symmetric])
  also have "\<dots> = (control_bits (call_clears c) (call_all c) OR taskEVENT_LIST_ITEM_VALUE_IN_USE)
      AND eventUNBLOCKED_DUE_TO_BIT_SET"
    by (simp only: item_split(1) [OF assms])
  also have "\<dots> = 0"
    by (cases "call_clears c"; cases "call_all c") (simp_all add: control_bits_def control_defs)
  finally show ?thesis .
qed

lemma answer_split:
  assumes "b AND eventEVENT_BITS_CONTROL_BYTES = 0"
  shows "((b OR eventUNBLOCKED_DUE_TO_BIT_SET) OR taskEVENT_LIST_ITEM_VALUE_IN_USE)
    AND NOT eventEVENT_BITS_CONTROL_BYTES = b"
  using split_field(2) [OF assms, of "eventUNBLOCKED_DUE_TO_BIT_SET OR taskEVENT_LIST_ITEM_VALUE_IN_USE"]
  by (simp add: control_defs or.assoc)

lemma answer_woken:
  "((b OR eventUNBLOCKED_DUE_TO_BIT_SET) OR taskEVENT_LIST_ITEM_VALUE_IN_USE) AND eventUNBLOCKED_DUE_TO_BIT_SET \<noteq> 0"
proof -
  have "((b OR k) OR i) AND k = k" for k i :: u32 by (auto simp: bit_eq_iff bit_simps)
  then show ?thesis by (simp add: eventUNBLOCKED_DUE_TO_BIT_SET_def)
qed

lemma met_mono: "met c b \<Longrightarrow> b AND b' = b \<Longrightarrow> met c b'"
  unfolding met_def prvTestWaitCondition_def
  by (auto simp: bit_eq_iff bit_simps split: if_splits)

section \<open>Setting flags\<close>

lemma unblock_tasks_Cons:
  "unblock_tasks (t # ts) c g =
    (if item_matches (xEventListItem g t) (uxEventBits g)
     then unblock_tasks ts
       (if (xEventListItem g t AND eventEVENT_BITS_CONTROL_BYTES) AND eventCLEAR_EVENTS_ON_EXIT_BIT \<noteq> 0
        then c OR (xEventListItem g t AND NOT eventEVENT_BITS_CONTROL_BYTES) else c)
       (vTaskRemoveFromUnorderedEventList t (uxEventBits g OR eventUNBLOCKED_DUE_TO_BIT_SET) g)
     else unblock_tasks ts c g)"
  by (simp only: unblock_tasks.simps Let_def item_matches_def)

text \<open>What the loop makes of the group: the tasks whose item matches leave with the flags as answer.\<close>

definition awake :: "nat list \<Rightarrow> EventGroup_t \<Rightarrow> nat \<Rightarrow> bool" where
  "awake ts g t \<longleftrightarrow> t \<in> set ts \<and> item_matches (xEventListItem g t) (uxEventBits g)"

lemma unblock_tasks_result:
  assumes "distinct ts" "distinct (xTasksWaitingForBits g)"
  shows "snd (unblock_tasks ts c g) = g\<lparr>
      xTasksWaitingForBits := filter (\<lambda>t. \<not> awake ts g t) (xTasksWaitingForBits g),
      xEventListItem := (\<lambda>t. if awake ts g t
        then (uxEventBits g OR eventUNBLOCKED_DUE_TO_BIT_SET) OR taskEVENT_LIST_ITEM_VALUE_IN_USE
        else xEventListItem g t)\<rparr>"
  using assms
proof (induction ts arbitrary: c g)
  case Nil
  then show ?case by (simp add: awake_def)
next
  case (Cons t ts)
  show ?case
  proof (cases "item_matches (xEventListItem g t) (uxEventBits g)")
    case True
    let ?g = "vTaskRemoveFromUnorderedEventList t (uxEventBits g OR eventUNBLOCKED_DUE_TO_BIT_SET) g"
    have a: "awake (t # ts) g u \<longleftrightarrow> u = t \<or> awake ts ?g u" for u
      using True Cons.prems(1) by (auto simp: awake_def vTaskRemoveFromUnorderedEventList_def)
    have f: "filter (\<lambda>u. \<not> awake ts ?g u) (remove1 t (xTasksWaitingForBits g)) =
        filter (\<lambda>u. \<not> awake (t # ts) g u) (xTasksWaitingForBits g)"
      using Cons.prems(2) by (simp add: a distinct_remove1_removeAll removeAll_filter_not_eq conj_commute eq_commute)
    have "distinct (xTasksWaitingForBits ?g)"
      using Cons.prems(2) by (simp add: vTaskRemoveFromUnorderedEventList_def)
    note IH = Cons.IH [OF _ this]
    have "snd (unblock_tasks (t # ts) c g) = ?g\<lparr>
      xTasksWaitingForBits := filter (\<lambda>t. \<not> awake ts ?g t) (xTasksWaitingForBits ?g),
      xEventListItem := (\<lambda>t. if awake ts ?g t
        then (uxEventBits ?g OR eventUNBLOCKED_DUE_TO_BIT_SET) OR taskEVENT_LIST_ITEM_VALUE_IN_USE
        else xEventListItem ?g t)\<rparr>"
      unfolding unblock_tasks_Cons using True Cons.prems(1) by (simp add: IH del: unblock_tasks.simps)
    then show ?thesis using f
      by (simp add: a) (simp add: vTaskRemoveFromUnorderedEventList_def fun_eq_iff)
  next
    case False
    then have a: "awake (t # ts) g = awake ts g" by (auto simp: awake_def fun_eq_iff)
    show ?thesis
      unfolding unblock_tasks_Cons a using False Cons by simp
  qed
qed

section \<open>Invariant\<close>

text \<open>Where a blocked task stands: on the list, its item encodes its wait and the flags do not
  satisfy it; off the list it timed out or its item answers with flags that do.\<close>

definition call_ok :: "EventGroup_t \<Rightarrow> nat \<Rightarrow> eg_call \<Rightarrow> bool" where
  "call_ok g t c \<longleftrightarrow> valid_call c \<and>
    (if t \<in> set (xTasksWaitingForBits g)
     then xEventListItem g t = item_of c OR taskEVENT_LIST_ITEM_VALUE_IN_USE \<and> \<not> met c (uxEventBits g)
     else xEventListItem g t AND eventUNBLOCKED_DUE_TO_BIT_SET \<noteq> 0 \<longrightarrow>
       met c (xEventListItem g t AND NOT eventEVENT_BITS_CONTROL_BYTES))"

definition group_ok :: "EventGroup_t \<Rightarrow> (nat \<rightharpoonup> eg_call) \<Rightarrow> bool" where
  "group_ok g p \<longleftrightarrow> distinct (xTasksWaitingForBits g) \<and> set (xTasksWaitingForBits g) \<subseteq> dom p \<and>
    uxEventBits g AND eventEVENT_BITS_CONTROL_BYTES = 0 \<and> (\<forall>t c. p t = Some c \<longrightarrow> call_ok g t c)"

lemma group_okD:
  assumes "group_ok g p"
  shows "distinct (xTasksWaitingForBits g)" "set (xTasksWaitingForBits g) \<subseteq> dom p"
    "uxEventBits g AND eventEVENT_BITS_CONTROL_BYTES = 0" "p t = Some c \<Longrightarrow> call_ok g t c"
  using assms by (auto simp: group_ok_def)

lemma group_okI:
  assumes "distinct (xTasksWaitingForBits g)" "set (xTasksWaitingForBits g) \<subseteq> dom p"
    "uxEventBits g AND eventEVENT_BITS_CONTROL_BYTES = 0" "\<And>t c. p t = Some c \<Longrightarrow> call_ok g t c"
  shows "group_ok g p"
  using assms by (auto simp: group_ok_def)

lemma met_fewer: "met c (b AND NOT k) \<Longrightarrow> met c b"
  by (rule met_mono) (auto simp: bit_eq_iff bit_simps)

lemma clear_ok:
  assumes "group_ok g p"
  shows "group_ok (clear_event_bits b g) p"
proof (rule group_okI)
  show "call_ok (clear_event_bits b g) t c" if "p t = Some c" for t c
    using group_okD(4) [OF assms that] met_fewer by (auto simp: call_ok_def clear_event_bits_def)
qed (use group_okD [OF assms] in \<open>auto simp: clear_event_bits_def bit_eq_iff bit_simps\<close>)

lemma set_ok:
  assumes "group_ok g p" "xEventGroupSetBits b g = Some (r, g')"
  shows "group_ok g' p" "uxEventBits g' AND (uxEventBits g OR b) = uxEventBits g'"
proof -
  let ?g = "g\<lparr>uxEventBits := uxEventBits g OR b\<rparr>"
  let ?ts = "xTasksWaitingForBits g"
  let ?u = "snd (unblock_tasks ?ts 0 ?g)"
  note ok = group_okD [OF assms(1)]
  have b: "b AND eventEVENT_BITS_CONTROL_BYTES = 0"
    and g': "g' = clear_event_bits (fst (unblock_tasks ?ts 0 ?g)) ?u"
    using assms(2) by (auto simp: xEventGroupSetBits_def Let_def case_prod_beta split: if_splits)
  have c: "uxEventBits ?g AND eventEVENT_BITS_CONTROL_BYTES = 0"
    using b ok(3) by (auto simp: bit_eq_iff bit_simps)
  have u: "?u = ?g\<lparr>
      xTasksWaitingForBits := filter (\<lambda>t. \<not> awake ?ts ?g t) ?ts,
      xEventListItem := (\<lambda>t. if awake ?ts ?g t
        then (uxEventBits ?g OR eventUNBLOCKED_DUE_TO_BIT_SET) OR taskEVENT_LIST_ITEM_VALUE_IN_USE
        else xEventListItem ?g t)\<rparr>"
    using unblock_tasks_result [of ?ts ?g 0] ok(1) by simp
  have "call_ok ?u t c" if "p t = Some c" for t c
  proof -
    have k: "call_ok g t c" using that ok(4) by blast
    have a: "awake ?ts ?g t \<longleftrightarrow> t \<in> set ?ts \<and> met c (uxEventBits ?g)"
      using k by (auto simp: awake_def call_ok_def)
    show ?thesis using k a answer_split [OF c] by (auto simp: call_ok_def u)
  qed
  then have "group_ok ?u p" using ok(1,2) c by (auto simp: group_ok_def u)
  then show "group_ok g' p" unfolding g' by (rule clear_ok)
  show "uxEventBits g' AND (uxEventBits g OR b) = uxEventBits g'"
    by (simp add: g' clear_event_bits_def u) (auto simp: bit_eq_iff bit_simps)
qed

lemma place_ok:
  assumes "group_ok g p" "p t = None" "valid_call c" "\<not> met c (uxEventBits g)"
  shows "group_ok (vTaskPlaceOnUnorderedEventList t (item_of c) g) (p(t \<mapsto> c))"
proof -
  have "t \<notin> set (xTasksWaitingForBits g)" using group_okD(2) [OF assms(1)] assms(2) by auto
  then show ?thesis
    using assms by (auto simp: group_ok_def call_ok_def vTaskPlaceOnUnorderedEventList_def)
qed

lemma expire_ok:
  assumes "group_ok g p"
  shows "group_ok (expire t g) p"
proof (rule group_okI)
  show "call_ok (expire t g) u c" if "p u = Some c" for u c
    using group_okD(1) [OF assms] group_okD(4) [OF assms that] waiting_item_not_unblocked [of c]
    by (cases "u = t") (auto simp: call_ok_def expire_def split: if_splits)
qed (use group_okD [OF assms] in \<open>auto simp: expire_def dest: notin_set_remove1\<close>)

lemma reset_ok:
  assumes "group_ok g p" "t \<notin> set (xTasksWaitingForBits g)" 
  shows "group_ok (snd (uxTaskResetEventItemValue t g)) (p(t := None))"
  using assms by (auto simp: group_ok_def call_ok_def uxTaskResetEventItemValue_def)

lemma resume_ok:
  assumes "group_ok g p" "t \<notin> set (xTasksWaitingForBits g)" "resume t c g = (r, g')"
  shows "group_ok g' (p(t := None))"
  using assms(3) reset_ok [OF assms(1,2)] clear_ok
  by (cases c) (auto simp: wait_resume_def sync_resume_def Let_def case_prod_beta split: if_splits)

lemma item_of_wait: "item_of (In_wait w c a) = w OR control_bits c a"
  by (simp add: item_of_def)

lemma item_of_sync: "item_of (In_sync w) = w OR eventCLEAR_EVENTS_ON_EXIT_BIT OR eventWAIT_FOR_ALL_BITS"
  by (simp add: item_of_def control_bits_def)

lemma wait_ok:
  assumes "group_ok g p"
  shows "xEventGroupWaitBits t w c a n g = Returned r g' \<Longrightarrow> group_ok g' p"
    and "xEventGroupWaitBits t w c a n g = Blocked g' \<Longrightarrow> p t = None \<Longrightarrow> group_ok g' (p(t \<mapsto> In_wait w c a))"
  using assms clear_ok place_ok [of g p t "In_wait w c a"]
  by (auto simp: xEventGroupWaitBits_def valid_call_def met_def item_of_wait split: if_splits)

lemma sync_ok:
  assumes "group_ok g p"
  shows "xEventGroupSync t b w n g = Returned r g' \<Longrightarrow> group_ok g' p"
    and "xEventGroupSync t b w n g = Blocked g' \<Longrightarrow> p t = None \<Longrightarrow> group_ok g' (p(t \<mapsto> In_sync w))"
proof -
  show "group_ok g' p" if "xEventGroupSync t b w n g = Returned r g'"
    using that set_ok(1) [OF assms] clear_ok
    by (auto simp: xEventGroupSync_def Let_def split: if_splits option.splits)
next
  assume p: "p t = None" and s: "xEventGroupSync t b w n g = Blocked g'"
  then obtain r1 g1 where g1: "xEventGroupSetBits b g = Some (r1, g1)"
    "\<not> met (In_sync w) (uxEventBits g OR b)" "valid_call (In_sync w)"
    "g' = vTaskPlaceOnUnorderedEventList t (item_of (In_sync w)) g1"
    by (auto simp: xEventGroupSync_def Let_def met_def prvTestWaitCondition_def valid_call_def item_of_sync
        split: if_splits option.splits)
  have "\<not> met (In_sync w) (uxEventBits g1)"
    using met_mono [of _ "uxEventBits g1" "uxEventBits g OR b"] set_ok(2) [OF assms g1(1)] g1(2) by blast
  then show "group_ok g' (p(t \<mapsto> In_sync w))"
    using place_ok [OF set_ok(1) [OF assms g1(1)] p g1(3)] g1(4) by simp
qed

lemma eg_reachable_ok: "eg_reachable s \<Longrightarrow> group_ok (grp s) (pending s)"
proof (induction rule: eg_reachable.induct)
  case (start items rv)
  then show ?case by (simp add: eg_start_def xEventGroupCreate_def group_ok_def)
next
  case (step s s')
  from step(2,3) show ?case
  proof (cases rule: eg_step.cases)
    case clear_bits
    then show ?thesis using step(3) clear_ok by (auto simp: xEventGroupClearBits_def split: if_splits)
  qed (auto intro: set_ok wait_ok sync_ok expire_ok resume_ok simp del: fun_upd_apply)
qed

section \<open>Waiting\<close>

definition woken :: "EventGroup_t \<Rightarrow> nat \<Rightarrow> bool" where
  "woken g t \<longleftrightarrow> xEventListItem g t AND eventUNBLOCKED_DUE_TO_BIT_SET \<noteq> 0"

lemma resume_result:
  "fst (resume t c g) =
    (if woken g t then xEventListItem g t else uxEventBits g) AND NOT eventEVENT_BITS_CONTROL_BYTES"
  by (cases c) (simp_all add: woken_def wait_resume_def sync_resume_def uxTaskResetEventItemValue_def)

lemma without_control:
  "b AND eventEVENT_BITS_CONTROL_BYTES = 0 \<Longrightarrow> b AND NOT eventEVENT_BITS_CONTROL_BYTES = b"
  using split_field(2) [of b eventEVENT_BITS_CONTROL_BYTES 0] by simp

text \<open>C6: nobody waits for flags that are there, and nobody is woken without them. Whatever sets,
  clears, waits, rendezvous and time-outs of any number of tasks interleave: a task on the list
  waits for something the flags do not satisfy; a task that was woken gets an answer that
  satisfies its wait, even if the flags have changed since; one that timed out gets the flags as
  they are. No answer shows the kernel's control bits.\<close>

theorem event_group_waits:
  assumes "eg_reachable s" "pending s t = Some c"
  shows "if t \<in> set (xTasksWaitingForBits (grp s)) then \<not> met c (uxEventBits (grp s))
    else fst (resume t c (grp s)) AND eventEVENT_BITS_CONTROL_BYTES = 0 \<and>
      (if woken (grp s) t then met c (fst (resume t c (grp s)))
       else fst (resume t c (grp s)) = uxEventBits (grp s))"
proof -
  note ok = group_okD [OF eg_reachable_ok [OF assms(1)]]
  have "b AND NOT m AND m = 0" for b m :: u32 by (auto simp: bit_eq_iff bit_simps)
  then have "fst (resume t c (grp s)) AND eventEVENT_BITS_CONTROL_BYTES = 0"
    by (simp add: resume_result and.assoc)
  then show ?thesis
    using ok(4) [OF assms(2)] without_control [OF ok(3)]
    by (auto simp: call_ok_def woken_def resume_result split: if_splits)
qed

text \<open>A task waits for either of two flags, another sets one of them.\<close>

definition eg_demo :: eg_system where
  "eg_demo = \<lparr>grp = snd (the (xEventGroupSetBits 1
      (vTaskPlaceOnUnorderedEventList 7 (item_of (In_wait 3 False False)) (grp (eg_start (\<lambda>_. 0) (\<lambda>_. 24)))))),
    pending = [7 \<mapsto> In_wait 3 False False]\<rparr>"

lemma eg_demo_reachable: "eg_reachable eg_demo"
proof -
  let ?s = "eg_start (\<lambda>_. 0) (\<lambda>_. 24)"
  let ?g = "vTaskPlaceOnUnorderedEventList 7 (item_of (In_wait 3 False False)) (grp ?s)"
  have "eg_step ?s (?s\<lparr>grp := ?g, pending := (pending ?s)(7 \<mapsto> In_wait 3 False False)\<rparr>)"
    by (rule eg_step.wait_block [where n = 1])
      (simp_all add: eg_start_def xEventGroupCreate_def xEventGroupWaitBits_def prvTestWaitCondition_def
        item_of_wait control_defs)
  then have r: "eg_reachable (?s\<lparr>grp := ?g, pending := (pending ?s)(7 \<mapsto> In_wait 3 False False)\<rparr>)" (is "eg_reachable ?t")
    using eg_reachable.start eg_reachable.step by blast
  have "xEventGroupSetBits 1 ?g = Some (fst (the (xEventGroupSetBits 1 ?g)), grp eg_demo)"
    by (simp add: xEventGroupSetBits_def eg_demo_def control_defs case_prod_beta Let_def)
  then have "eg_step ?t (?t\<lparr>grp := grp eg_demo\<rparr>)"
    by (intro eg_step.set_bits) simp
  moreover have "?t\<lparr>grp := grp eg_demo\<rparr> = eg_demo" by (simp add: eg_demo_def eg_start_def)
  ultimately show ?thesis using r eg_reachable.step by metis
qed

theorem event_group_waits_witness:
  "7 \<notin> set (xTasksWaitingForBits (grp eg_demo)) \<and> woken (grp eg_demo) 7 \<and>
   met (In_wait 3 False False) (fst (resume 7 (In_wait 3 False False) (grp eg_demo)))"
proof -
  have g: "7 \<notin> set (xTasksWaitingForBits (grp eg_demo))" "woken (grp eg_demo) 7"
    by (simp_all add: eg_demo_def eg_start_def xEventGroupCreate_def xEventGroupSetBits_def
        vTaskPlaceOnUnorderedEventList_def vTaskRemoveFromUnorderedEventList_def item_of_wait control_bits_def
        clear_event_bits_def woken_def control_defs Let_def)
  show ?thesis
    using event_group_waits [OF eg_demo_reachable, of 7 "In_wait 3 False False"] g by (simp add: eg_demo_def)
qed

text \<open>Setting flags that satisfy a wait wakes the task, and the answer is the flags at that moment.\<close>

lemma set_wakes:
  assumes "group_ok g p" "p t = Some c" "xEventGroupSetBits b g = Some (r, g')"
  shows "t \<in> set (xTasksWaitingForBits g') \<longleftrightarrow> t \<in> set (xTasksWaitingForBits g) \<and> \<not> met c (uxEventBits g OR b)"
    and "t \<in> set (xTasksWaitingForBits g) \<Longrightarrow> met c (uxEventBits g OR b) \<Longrightarrow>
      woken g' t \<and> fst (resume t c g') = uxEventBits g OR b"
    and "t \<notin> set (xTasksWaitingForBits g) \<Longrightarrow> xEventListItem g' t = xEventListItem g t"
proof -
  let ?g = "g\<lparr>uxEventBits := uxEventBits g OR b\<rparr>"
  let ?ts = "xTasksWaitingForBits g"
  note ok = group_okD [OF assms(1)]
  have b: "b AND eventEVENT_BITS_CONTROL_BYTES = 0"
    using assms(3) by (auto simp: xEventGroupSetBits_def split: if_splits)
  have g': "xTasksWaitingForBits g' = filter (\<lambda>t. \<not> awake ?ts ?g t) ?ts"
    "xEventListItem g' t = (if awake ?ts ?g t
        then (uxEventBits ?g OR eventUNBLOCKED_DUE_TO_BIT_SET) OR taskEVENT_LIST_ITEM_VALUE_IN_USE
        else xEventListItem g t)"
    using unblock_tasks_result [of ?ts ?g 0] ok(1) assms(3)
    by (auto simp: xEventGroupSetBits_def Let_def case_prod_beta clear_event_bits_def split: if_splits)
  have a: "awake ?ts ?g t \<longleftrightarrow> t \<in> set ?ts \<and> met c (uxEventBits ?g)"
    using ok(4) [OF assms(2)] by (auto simp: awake_def call_ok_def)
  show "t \<in> set (xTasksWaitingForBits g') \<longleftrightarrow> t \<in> set ?ts \<and> \<not> met c (uxEventBits g OR b)"
    using g' a by auto
  show "xEventListItem g' t = xEventListItem g t" if "t \<notin> set ?ts" using g' a that by simp
  have "uxEventBits ?g AND eventEVENT_BITS_CONTROL_BYTES = 0"
    using b ok(3) by (auto simp: bit_eq_iff bit_simps)
  from answer_split [OF this]
  have "woken g' t \<and> fst (resume t c g') = uxEventBits g OR b" if "awake ?ts ?g t"
    using that g'(2) answer_woken by (simp add: resume_result woken_def)
  then show "woken g' t \<and> fst (resume t c g') = uxEventBits g OR b" if "t \<in> set ?ts" "met c (uxEventBits g OR b)"
    using a that by simp
qed

end
