(* ===== verification/Wifi_Connection.thy ===== *)
theory Wifi_Connection
  imports Event_Group
begin

text \<open>
  Joining the network, \<^verbatim>\<open>eCamClientV2/main/wifi_connection.c\<close>: the handler of the network events with
  its retry counter, and the start-up that waits for the handler's verdict on a FreeRTOS event
  group. What the handler relies on is stated by the locale \<open>flag_waiter\<close>, which the event group
  of \<open>Event_Group\<close> interprets. The answers of ESP-IDF are arguments; log messages are left out.
\<close>

section \<open>Model\<close>

definition CONFIG_ESP_MAXIMUM_RETRY :: int where "CONFIG_ESP_MAXIMUM_RETRY = 5"
definition WIFI_CONNECTED_BIT :: EventBits_t where "WIFI_CONNECTED_BIT = 1"
definition WIFI_FAIL_BIT :: EventBits_t where "WIFI_FAIL_BIT = 2"
definition ESP_ERR_NVS_NO_FREE_PAGES :: esp_err_t where "ESP_ERR_NVS_NO_FREE_PAGES = 0x110d"
definition ESP_ERR_NVS_NEW_VERSION_FOUND :: esp_err_t where "ESP_ERR_NVS_NEW_VERSION_FOUND = 0x1110"

lemmas wifi_bits = WIFI_CONNECTED_BIT_def WIFI_FAIL_BIT_def

datatype wifi_event = WIFI_EVENT_STA_START | WIFI_EVENT_STA_DISCONNECTED | IP_EVENT_STA_GOT_IP | Other_event

text \<open>The statics of the file, and the number of connection attempts asked of the driver.\<close>

record wifi =
  s_wifi_event_group :: EventGroup_t
  s_retry_num :: int
  connects :: nat

text \<open>\<open>None\<close> is a failed assertion.\<close>

definition signal :: "EventBits_t \<Rightarrow> wifi \<Rightarrow> wifi option" where
  "signal b w = map_option (\<lambda>(_, g). w\<lparr>s_wifi_event_group := g\<rparr>) (xEventGroupSetBits b (s_wifi_event_group w))"

definition event_handler :: "wifi_event \<Rightarrow> wifi \<Rightarrow> wifi option" where
  "event_handler e w =
    (case e of
       WIFI_EVENT_STA_START \<Rightarrow> Some (w\<lparr>connects := connects w + 1\<rparr>)
     | WIFI_EVENT_STA_DISCONNECTED \<Rightarrow>
         if s_retry_num w < CONFIG_ESP_MAXIMUM_RETRY
         then Some (w\<lparr>connects := connects w + 1, s_retry_num := s_retry_num w + 1\<rparr>)
         else signal WIFI_FAIL_BIT w
     | IP_EVENT_STA_GOT_IP \<Rightarrow> signal WIFI_CONNECTED_BIT (w\<lparr>s_retry_num := 0\<rparr>)
     | Other_event \<Rightarrow> Some w)"

fun handle_events :: "wifi_event list \<Rightarrow> wifi \<Rightarrow> wifi option" where
  "handle_events [] w = Some w"
| "handle_events (e # es) w = (case event_handler e w of None \<Rightarrow> None | Some w \<Rightarrow> handle_events es w)"

text \<open>The answers of the calls that \<^verbatim>\<open>ESP_ERROR_CHECK\<close> guards, in their order, whether the event
  group gets its memory, the items of the tasks, and the calling task.\<close>

record wifi_env =
  we_netif_init :: esp_err_t
  we_event_loop :: esp_err_t
  we_wifi_init :: esp_err_t
  we_register_any :: esp_err_t
  we_register_ip :: esp_err_t
  we_set_mode :: esp_err_t
  we_set_config :: esp_err_t
  we_wifi_start :: esp_err_t
  we_malloc :: bool
  we_items :: "nat \<Rightarrow> EventBits_t"
  we_reset :: "nat \<Rightarrow> EventBits_t"
  we_task :: nat

datatype wifi_result = Wifi_abort | Wifi_waiting | Wifi_connected | Wifi_failed | Wifi_unexpected

definition guarded_calls :: "wifi_env \<Rightarrow> esp_err_t list" where
  "guarded_calls env = [we_netif_init env, we_event_loop env, we_wifi_init env, we_register_any env,
     we_register_ip env, we_set_mode env, we_set_config env, we_wifi_start env]"

definition wifi_report :: "EventBits_t \<Rightarrow> wifi_result" where
  "wifi_report bits =
    (if bits AND WIFI_CONNECTED_BIT \<noteq> 0 then Wifi_connected
     else if bits AND WIFI_FAIL_BIT \<noteq> 0 then Wifi_failed
     else Wifi_unexpected)"

text \<open>The handler runs in the task of the event loop: \<open>pre\<close> are the events it has handled when the
  start-up task comes to wait, \<open>post\<close> the later ones.\<close>

definition wifi_init_sta :: "wifi_env \<Rightarrow> wifi_event list \<Rightarrow> wifi_event list \<Rightarrow> wifi_result" where
  "wifi_init_sta env pre post =
    (if \<not> list_all (\<lambda>r. r = ESP_OK) (guarded_calls env) then Wifi_abort
     else case xEventGroupCreate (we_malloc env) (we_items env) (we_reset env) of
       None \<Rightarrow> Wifi_abort
     | Some g \<Rightarrow>
         (case handle_events pre \<lparr>s_wifi_event_group = g, s_retry_num = 0, connects = 0\<rparr> of
            None \<Rightarrow> Wifi_abort
          | Some w \<Rightarrow>
              (case xEventGroupWaitBits (we_task env) (WIFI_CONNECTED_BIT OR WIFI_FAIL_BIT) False False
                      0xffffffff (s_wifi_event_group w) of
                 Asserted \<Rightarrow> Wifi_abort
               | Returned bits _ \<Rightarrow> wifi_report bits
               | Blocked g \<Rightarrow>
                   (case handle_events post (w\<lparr>s_wifi_event_group := g\<rparr>) of
                      None \<Rightarrow> Wifi_abort
                    | Some w \<Rightarrow>
                        if we_task env \<in> set (xTasksWaitingForBits (s_wifi_event_group w)) then Wifi_waiting
                        else wifi_report (fst (wait_resume (we_task env) (WIFI_CONNECTED_BIT OR WIFI_FAIL_BIT)
                               False False (s_wifi_event_group w)))))))"

definition wifi_connect ::
  "esp_err_t \<Rightarrow> esp_err_t \<Rightarrow> esp_err_t \<Rightarrow> wifi_env \<Rightarrow> wifi_event list \<Rightarrow> wifi_event list \<Rightarrow> wifi_result" where
  "wifi_connect flash_init flash_erase flash_init_again env pre post =
    (if flash_init = ESP_ERR_NVS_NO_FREE_PAGES \<or> flash_init = ESP_ERR_NVS_NEW_VERSION_FOUND
     then if flash_erase = ESP_OK \<and> flash_init_again = ESP_OK then wifi_init_sta env pre post else Wifi_abort
     else if flash_init = ESP_OK then wifi_init_sta env pre post else Wifi_abort)"

section \<open>What the handler relies on\<close>

text \<open>Flags raised one after the other, and one task that may wait for any of \<open>want\<close>.\<close>

locale flag_waiter =
  fixes idle :: "'g \<Rightarrow> bool" and busy :: "'g \<Rightarrow> bool"
    and flags :: "'g \<Rightarrow> EventBits_t" and waiting :: "'g \<Rightarrow> bool" and answer :: "'g \<Rightarrow> EventBits_t"
    and raise :: "EventBits_t \<Rightarrow> 'g \<Rightarrow> 'g option" and want :: EventBits_t
  assumes raise_idle: "b AND want = b \<Longrightarrow> idle g \<Longrightarrow> \<exists>g'. raise b g = Some g' \<and> idle g' \<and> flags g' = flags g OR b"
    and raise_busy: "b AND want = b \<Longrightarrow> busy g \<Longrightarrow> \<exists>g'. raise b g = Some g' \<and> busy g' \<and>
      (if waiting g then flags g' = flags g OR b \<and> (waiting g' \<longleftrightarrow> (flags g OR b) AND want = 0) \<and>
          ((flags g OR b) AND want \<noteq> 0 \<longrightarrow> answer g' = flags g OR b)
       else \<not> waiting g' \<and> answer g' = answer g)"
begin

primrec raise_all :: "EventBits_t list \<Rightarrow> 'g \<Rightarrow> 'g option" where
  "raise_all [] g = Some g"
| "raise_all (b # bs) g = (case raise b g of None \<Rightarrow> None | Some g \<Rightarrow> raise_all bs g)"

lemma raise_all_idle:
  assumes "\<forall>b\<in>set bs. b AND want = b" "idle g"
  shows "\<exists>g'. raise_all bs g = Some g' \<and> idle g' \<and> flags g' = fold (OR) bs (flags g)"
  using assms
proof (induction bs arbitrary: g)
  case Nil
  then show ?case by simp
next
  case (Cons b bs)
  obtain g1 where "raise b g = Some g1" "idle g1" "flags g1 = flags g OR b"
    using raise_idle [of b g] Cons.prems by auto
  then show ?case using Cons.IH [of g1] Cons.prems(1) by (simp add: or.commute)
qed

lemma answered_stays:
  assumes "\<forall>b\<in>set bs. b AND want = b" "busy g" "\<not> waiting g"
  shows "\<exists>g'. raise_all bs g = Some g' \<and> \<not> waiting g' \<and> answer g' = answer g"
  using assms
proof (induction bs arbitrary: g)
  case Nil
  then show ?case by simp
next
  case (Cons b bs)
  obtain g1 where "raise b g = Some g1" "busy g1" "\<not> waiting g1" "answer g1 = answer g"
    using raise_busy [of b g] Cons.prems by auto
  then show ?case using Cons.IH [of g1] Cons.prems(1) by simp
qed

text \<open>The first flag raised is the answer.\<close>

lemma first_flag_answers:
  assumes "\<forall>b\<in>set bs. b AND want = b \<and> b \<noteq> 0" "busy g" "waiting g" "flags g = 0"
  shows "\<exists>g'. raise_all bs g = Some g' \<and> (waiting g' \<longleftrightarrow> bs = []) \<and> (bs \<noteq> [] \<longrightarrow> answer g' = hd bs)"
proof (cases bs)
  case Nil
  then show ?thesis using assms(3) by simp
next
  case (Cons b cs)
  then obtain g1 where g1: "raise b g = Some g1" "busy g1" "\<not> waiting g1" "answer g1 = b"
    using raise_busy [of b g] assms by auto
  then show ?thesis using answered_stays [of cs g1] assms(1) Cons by simp
qed

end

text \<open>The event group keeps these promises for a task that waits for any of some flags and leaves
  them set, when it is the only one that waits.\<close>

definition eg_raise :: "EventBits_t \<Rightarrow> EventGroup_t \<Rightarrow> EventGroup_t option" where
  "eg_raise b g = map_option snd (xEventGroupSetBits b g)"

definition any_of :: "EventBits_t \<Rightarrow> eg_call" where
  "any_of w = In_wait w False False"

definition eg_idle :: "EventGroup_t \<Rightarrow> bool" where
  "eg_idle g \<longleftrightarrow> group_ok g Map.empty"

definition eg_busy :: "nat \<Rightarrow> EventBits_t \<Rightarrow> EventGroup_t \<Rightarrow> bool" where
  "eg_busy t w g \<longleftrightarrow> group_ok g [t \<mapsto> any_of w] \<and> (t \<in> set (xTasksWaitingForBits g) \<or> woken g t)"

lemma met_any [simp]: "met (any_of w) b \<longleftrightarrow> b AND w \<noteq> 0"
  by (simp add: met_def any_of_def prvTestWaitCondition_def)

lemma raise_defined:
  assumes "b AND eventEVENT_BITS_CONTROL_BYTES = 0"
  shows "\<exists>r g'. xEventGroupSetBits b g = Some (r, g')"
  using assms by (simp add: xEventGroupSetBits_def Let_def case_prod_beta)

text \<open>Such a task leaves the flags as they are.\<close>

lemma nothing_cleared:
  assumes "group_ok g p" "set (xTasksWaitingForBits g) \<subseteq> {t}" "p t = Some (any_of w) \<or> xTasksWaitingForBits g = []"
    and "xEventGroupSetBits b g = Some (r, g')"
  shows "uxEventBits g' = uxEventBits g OR b"
proof -
  let ?g = "g\<lparr>uxEventBits := uxEventBits g OR b\<rparr>"
  have "fst (unblock_tasks (xTasksWaitingForBits g) 0 ?g) = 0"
  proof (cases "xTasksWaitingForBits g")
    case (Cons u us)
    then have l: "xTasksWaitingForBits g = [t]"
      using assms(2) group_okD(1) [OF assms(1)] by (cases us) auto
    then have c: "call_ok g t (any_of w)" using assms(3) group_okD(4) [OF assms(1)] by auto
    have "(xEventListItem g t AND eventEVENT_BITS_CONTROL_BYTES) AND eventCLEAR_EVENTS_ON_EXIT_BIT = 0"
      using c l item_split(1) [of "any_of w"]
      by (simp add: call_ok_def any_of_def) (simp add: control_bits_def control_defs)
    then show ?thesis unfolding l unblock_tasks_Cons by simp
  qed simp
  moreover have "uxEventBits (snd (unblock_tasks (xTasksWaitingForBits g) 0 ?g)) = uxEventBits g OR b"
    using unblock_tasks_result [of "xTasksWaitingForBits g" ?g 0] group_okD(1) [OF assms(1)] by simp
  ultimately show ?thesis
    using assms(4) by (auto simp: xEventGroupSetBits_def Let_def case_prod_beta clear_event_bits_def split: if_splits)
qed

definition wifi_flags :: EventBits_t where
  "wifi_flags = WIFI_CONNECTED_BIT OR WIFI_FAIL_BIT"

lemma wifi_flag_free:
  assumes "b AND wifi_flags = b"
  shows "b AND eventEVENT_BITS_CONTROL_BYTES = 0"
proof -
  have "b AND eventEVENT_BITS_CONTROL_BYTES = b AND (wifi_flags AND eventEVENT_BITS_CONTROL_BYTES)"
    using assms by (metis and.assoc)
  also have "wifi_flags AND eventEVENT_BITS_CONTROL_BYTES = 0"
    by (simp add: wifi_flags_def wifi_bits control_defs)
  finally show ?thesis by simp
qed

lemma eg_raise_idle:
  assumes "b AND wifi_flags = b" "eg_idle g"
  shows "\<exists>g'. eg_raise b g = Some g' \<and> eg_idle g' \<and> uxEventBits g' = uxEventBits g OR b"
proof -
  obtain r g' where r: "xEventGroupSetBits b g = Some (r, g')"
    using raise_defined [OF wifi_flag_free [OF assms(1)]] by blast
  have ok: "group_ok g Map.empty" using assms(2) by (simp add: eg_idle_def)
  then have "xTasksWaitingForBits g = []" using group_okD(2) by fastforce
  then show ?thesis
    using r set_ok(1) [OF ok r] nothing_cleared [OF ok _ _ r] by (simp add: eg_raise_def eg_idle_def)
qed

lemma eg_raise_busy:
  assumes "b AND wifi_flags = b" "eg_busy t wifi_flags g"
  shows "\<exists>g'. eg_raise b g = Some g' \<and> eg_busy t wifi_flags g' \<and>
    (if t \<in> set (xTasksWaitingForBits g)
     then uxEventBits g' = uxEventBits g OR b \<and>
       (t \<in> set (xTasksWaitingForBits g') \<longleftrightarrow> (uxEventBits g OR b) AND wifi_flags = 0) \<and>
       ((uxEventBits g OR b) AND wifi_flags \<noteq> 0 \<longrightarrow> fst (resume t (any_of wifi_flags) g') = uxEventBits g OR b)
     else t \<notin> set (xTasksWaitingForBits g') \<and>
       fst (resume t (any_of wifi_flags) g') = fst (resume t (any_of wifi_flags) g))"
proof -
  obtain r g' where r: "xEventGroupSetBits b g = Some (r, g')"
    using raise_defined [OF wifi_flag_free [OF assms(1)]] by blast
  have ok: "group_ok g [t \<mapsto> any_of wifi_flags]" and w: "t \<in> set (xTasksWaitingForBits g) \<or> woken g t"
    using assms(2) by (auto simp: eg_busy_def)
  have s: "set (xTasksWaitingForBits g) \<subseteq> {t}" using group_okD(2) [OF ok] by auto
  note k = set_wakes [OF ok _ r, of t "any_of wifi_flags"]
  note ok' = set_ok(1) [OF ok r]
  have n: "uxEventBits g' = uxEventBits g OR b" using nothing_cleared [OF ok s _ r, of wifi_flags] by simp
  have wk: "t \<in> set (xTasksWaitingForBits g') \<or> woken g' t"
    using k w by (cases "t \<in> set (xTasksWaitingForBits g)") (auto simp: woken_def)
  then show ?thesis
    using r k n ok' w by (auto simp: eg_raise_def eg_busy_def resume_result woken_def)
qed

interpretation eg: flag_waiter eg_idle "eg_busy t wifi_flags" uxEventBits
  "\<lambda>g. t \<in> set (xTasksWaitingForBits g)" "\<lambda>g. fst (resume t (any_of wifi_flags) g)" eg_raise wifi_flags for t
  by unfold_locales (rule eg_raise_idle eg_raise_busy; assumption)+

section \<open>The flags the handler raises\<close>

fun raised :: "int \<Rightarrow> wifi_event list \<Rightarrow> EventBits_t list" where
  "raised n [] = []"
| "raised n (WIFI_EVENT_STA_DISCONNECTED # es) =
    (if n < CONFIG_ESP_MAXIMUM_RETRY then raised (n + 1) es else WIFI_FAIL_BIT # raised n es)"
| "raised n (IP_EVENT_STA_GOT_IP # es) = WIFI_CONNECTED_BIT # raised 0 es"
| "raised n (_ # es) = raised n es"

fun retries :: "int \<Rightarrow> wifi_event list \<Rightarrow> int" where
  "retries n [] = n"
| "retries n (WIFI_EVENT_STA_DISCONNECTED # es) = retries (if n < CONFIG_ESP_MAXIMUM_RETRY then n + 1 else n) es"
| "retries n (IP_EVENT_STA_GOT_IP # es) = retries 0 es"
| "retries n (_ # es) = retries n es"

lemma raised_append: "raised n (es @ fs) = raised n es @ raised (retries n es) fs"
  by (induction n es rule: raised.induct) simp_all

lemma raised_flags:
  "b \<in> set (raised n es) \<Longrightarrow> b AND wifi_flags = b \<and> b \<noteq> 0"
  "WIFI_CONNECTED_BIT \<in> set (raised n es) \<longleftrightarrow> IP_EVENT_STA_GOT_IP \<in> set es"
  "set (raised n es) \<subseteq> {WIFI_CONNECTED_BIT, WIFI_FAIL_BIT}"
  by (induction n es rule: raised.induct) (auto simp: wifi_flags_def wifi_bits split: if_splits)

lemma signal_raises: "signal b w = map_option (\<lambda>g. w\<lparr>s_wifi_event_group := g\<rparr>) (eg_raise b (s_wifi_event_group w))"
  by (cases "xEventGroupSetBits b (s_wifi_event_group w)") (auto simp: signal_def eg_raise_def)

lemma handler_raises:
  "map_option s_wifi_event_group (handle_events es w) = eg.raise_all (raised (s_retry_num w) es) (s_wifi_event_group w)"
proof (induction es arbitrary: w)
  case (Cons e es)
  show ?case
    by (cases e) (auto simp: Cons.IH event_handler_def signal_raises split: option.splits)
qed simp

lemma handler_retries:
  "handle_events es w = Some w' \<Longrightarrow> s_retry_num w' = retries (s_retry_num w) es"
proof (induction es arbitrary: w)
  case (Cons e es)
  then show ?case
    by (cases e) (auto simp: event_handler_def signal_def dest!: Cons.IH split: option.splits if_splits)
qed simp

text \<open>How often the connection was lost before the first address was got.\<close>

definition losses :: "wifi_event list \<Rightarrow> nat" where
  "losses es = length (filter (\<lambda>e. e = WIFI_EVENT_STA_DISCONNECTED) (takeWhile (\<lambda>e. e \<noteq> IP_EVENT_STA_GOT_IP) es))"

lemma first_raised:
  assumes "n \<le> CONFIG_ESP_MAXIMUM_RETRY"
  shows "raised n es = [] \<longleftrightarrow> n + int (losses es) \<le> CONFIG_ESP_MAXIMUM_RETRY \<and> IP_EVENT_STA_GOT_IP \<notin> set es"
    and "raised n es \<noteq> [] \<Longrightarrow> hd (raised n es) =
      (if n + int (losses es) > CONFIG_ESP_MAXIMUM_RETRY then WIFI_FAIL_BIT else WIFI_CONNECTED_BIT)"
  using assms by (induction n es rule: raised.induct) (auto simp: losses_def)

lemma losses_append: "losses es \<le> losses (es @ fs)"
  by (induction es) (simp_all add: losses_def)

lemma fold_or_and:
  fixes bs :: "EventBits_t list"
  shows "fold (OR) bs a AND k = 0 \<longleftrightarrow> a AND k = 0 \<and> (\<forall>b\<in>set bs. b AND k = 0)"
proof (induction bs arbitrary: a)
  case (Cons b bs)
  have "(b OR a) AND k = 0 \<longleftrightarrow> a AND k = 0 \<and> b AND k = 0" by (auto simp: bit_eq_iff bit_simps)
  then show ?case using Cons.IH by auto
qed simp

lemma handled_before:
  fixes g :: EventGroup_t
  assumes "group_ok g Map.empty" "uxEventBits g = 0"
  shows "\<exists>w. handle_events es \<lparr>s_wifi_event_group = g, s_retry_num = 0, connects = 0\<rparr> = Some w \<and>
    group_ok (s_wifi_event_group w) Map.empty \<and> s_retry_num w = retries 0 es \<and>
    uxEventBits (s_wifi_event_group w) = fold (OR) (raised 0 es) 0"
proof -
  let ?w = "\<lparr>s_wifi_event_group = g, s_retry_num = 0, connects = 0\<rparr>"
  obtain g' where g': "eg.raise_all (raised 0 es) g = Some g'" "eg_idle g'" "uxEventBits g' = fold (OR) (raised 0 es) 0"
    using eg.raise_all_idle [of "raised 0 es" g] raised_flags(1) assms by (auto simp: eg_idle_def)
  then obtain w where "handle_events es ?w = Some w" "s_wifi_event_group w = g'"
    using handler_raises [of es ?w] by auto
  then show ?thesis using g' handler_retries [of es ?w] by (auto simp: eg_idle_def)
qed

lemma handled_while_waiting:
  assumes "eg_busy t wifi_flags (s_wifi_event_group w)" "t \<in> set (xTasksWaitingForBits (s_wifi_event_group w))"
    and "uxEventBits (s_wifi_event_group w) = 0"
  fixes es :: "wifi_event list"
  defines "bs \<equiv> raised (s_retry_num w) es"
  shows "\<exists>w'. handle_events es w = Some w' \<and> (t \<in> set (xTasksWaitingForBits (s_wifi_event_group w')) \<longleftrightarrow> bs = []) \<and>
    (bs \<noteq> [] \<longrightarrow> fst (wait_resume t wifi_flags False False (s_wifi_event_group w')) = hd bs)"
proof -
  obtain g' where g': "eg.raise_all bs (s_wifi_event_group w) = Some g'"
    "t \<in> set (xTasksWaitingForBits g') \<longleftrightarrow> bs = []" "bs \<noteq> [] \<longrightarrow> fst (resume t (any_of wifi_flags) g') = hd bs"
    using eg.first_flag_answers [of bs t "s_wifi_event_group w"] raised_flags(1) assms by blast
  then obtain w' where "handle_events es w = Some w'" "s_wifi_event_group w' = g'"
    using handler_raises [of es w] by (auto simp: bs_def)
  then show ?thesis using g' by (auto simp: any_of_def)
qed

text \<open>Coming to wait before anything was decided.\<close>

lemma wait_blocks:
  assumes "group_ok g Map.empty" "uxEventBits g = 0"
  shows "\<exists>g'. xEventGroupWaitBits t wifi_flags False False 0xffffffff g = Blocked g' \<and>
    eg_busy t wifi_flags g' \<and> t \<in> set (xTasksWaitingForBits g') \<and> uxEventBits g' = 0"
proof -
  let ?g = "vTaskPlaceOnUnorderedEventList t (wifi_flags OR control_bits False False) g"
  have w: "xEventGroupWaitBits t wifi_flags False False 0xffffffff g = Blocked ?g"
    using assms(2) by (simp add: xEventGroupWaitBits_def prvTestWaitCondition_def wifi_flags_def wifi_bits control_defs)
  then have "group_ok ?g [t \<mapsto> any_of wifi_flags]" using wait_ok(2) [OF assms(1) w] by (simp add: any_of_def)
  then show ?thesis using w assms(2) by (simp add: eg_busy_def vTaskPlaceOnUnorderedEventList_def)
qed

lemma report_flags:
  assumes "raised 0 es \<noteq> []"
  shows "fold (OR) (raised 0 es) 0 AND wifi_flags \<noteq> 0"
    and "wifi_report (fold (OR) (raised 0 es) 0) = (if IP_EVENT_STA_GOT_IP \<in> set es then Wifi_connected else Wifi_failed)"
proof -
  obtain b where b: "b \<in> set (raised 0 es)" using assms by (cases "raised 0 es") auto
  then show "fold (OR) (raised 0 es) 0 AND wifi_flags \<noteq> 0"
    using raised_flags(1) [OF b] by (auto simp: fold_or_and intro!: bexI [of _ b])
  have "fold (OR) (raised 0 es) 0 AND WIFI_CONNECTED_BIT = 0 \<longleftrightarrow> IP_EVENT_STA_GOT_IP \<notin> set es"
    using raised_flags(2,3) [of 0 es] by (auto simp: fold_or_and wifi_bits)
  moreover have "fold (OR) (raised 0 es) 0 AND WIFI_FAIL_BIT \<noteq> 0" if "IP_EVENT_STA_GOT_IP \<notin> set es"
  proof -
    have "b = WIFI_FAIL_BIT" using that b raised_flags(2,3) [of 0 es] by auto
    then show ?thesis using b by (auto simp: fold_or_and wifi_bits intro!: bexI [of _ 2])
  qed
  ultimately show "wifi_report (fold (OR) (raised 0 es) 0) =
      (if IP_EVENT_STA_GOT_IP \<in> set es then Wifi_connected else Wifi_failed)"
    by (simp add: wifi_report_def)
qed

section \<open>Properties\<close>

text \<open>C37: what the start-up reports about the connection. If every ESP-IDF call succeeds, the report
  depends on the network events only: connected, if an address was got before the task came to
  wait, and else what comes first, more losses of the connection than the permitted retries
  (failed) or an address (connected). Until then the task waits. No assertion fails, and
  whatever the event loop does between its steps, no verdict is missed.\<close>

theorem wifi_verdict:
  assumes "list_all (\<lambda>r. r = ESP_OK) (guarded_calls env)" "we_malloc env"
  shows "wifi_init_sta env pre post =
    (if IP_EVENT_STA_GOT_IP \<in> set pre then Wifi_connected
     else if int (losses (pre @ post)) > CONFIG_ESP_MAXIMUM_RETRY then Wifi_failed
     else if IP_EVENT_STA_GOT_IP \<in> set post then Wifi_connected
     else Wifi_waiting)"
proof -
  let ?t = "we_task env"
  obtain g where g: "xEventGroupCreate (we_malloc env) (we_items env) (we_reset env) = Some g"
    "group_ok g Map.empty" "uxEventBits g = 0"
    using assms(2) by (auto simp: xEventGroupCreate_def group_ok_def)
  obtain w where w: "handle_events pre \<lparr>s_wifi_event_group = g, s_retry_num = 0, connects = 0\<rparr> = Some w"
    "group_ok (s_wifi_event_group w) Map.empty" "s_retry_num w = retries 0 pre"
    "uxEventBits (s_wifi_event_group w) = fold (OR) (raised 0 pre) 0"
    using handled_before [OF g(2,3)] by blast
  let ?r = "\<lambda>x. case x of Asserted \<Rightarrow> Wifi_abort | Returned bits _ \<Rightarrow> wifi_report bits
    | Blocked g \<Rightarrow> (case handle_events post (w\<lparr>s_wifi_event_group := g\<rparr>) of None \<Rightarrow> Wifi_abort
        | Some w \<Rightarrow> if ?t \<in> set (xTasksWaitingForBits (s_wifi_event_group w)) then Wifi_waiting
            else wifi_report (fst (wait_resume ?t wifi_flags False False (s_wifi_event_group w))))"
  have i: "wifi_init_sta env pre post =
      ?r (xEventGroupWaitBits ?t wifi_flags False False 0xffffffff (s_wifi_event_group w))"
    using assms g(1) w(1) unfolding wifi_init_sta_def wifi_flags_def by simp
  show ?thesis
  proof (cases "raised 0 pre = []")
    case False
    have "xEventGroupWaitBits ?t wifi_flags False False 0xffffffff (s_wifi_event_group w) =
        Returned (fold (OR) (raised 0 pre) 0) (s_wifi_event_group w)"
      using report_flags(1) [OF False] w(4)
      by (simp add: xEventGroupWaitBits_def prvTestWaitCondition_def) (simp add: wifi_flags_def wifi_bits control_defs)
    moreover have "int (losses (pre @ post)) > CONFIG_ESP_MAXIMUM_RETRY" if "IP_EVENT_STA_GOT_IP \<notin> set pre"
      using that False first_raised(1) [of 0 pre] losses_append [of pre post]
      by (simp add: CONFIG_ESP_MAXIMUM_RETRY_def)
    ultimately show ?thesis using i report_flags(2) [OF False] by simp
  next
    case True
    obtain g' where g': "xEventGroupWaitBits ?t wifi_flags False False 0xffffffff (s_wifi_event_group w) = Blocked g'"
      "eg_busy ?t wifi_flags g'" "?t \<in> set (xTasksWaitingForBits g')" "uxEventBits g' = 0"
      using wait_blocks [OF w(2)] w(4) True by fastforce
    have bs: "raised (retries 0 pre) post = raised 0 (pre @ post)" using True by (simp add: raised_append)
    obtain w' where w': "handle_events post (w\<lparr>s_wifi_event_group := g'\<rparr>) = Some w'"
      "?t \<in> set (xTasksWaitingForBits (s_wifi_event_group w')) \<longleftrightarrow> raised 0 (pre @ post) = []"
      "raised 0 (pre @ post) \<noteq> [] \<longrightarrow>
        fst (wait_resume ?t wifi_flags False False (s_wifi_event_group w')) = hd (raised 0 (pre @ post))"
      using handled_while_waiting [of ?t "w\<lparr>s_wifi_event_group := g'\<rparr>" post] g' w(3) bs by auto
    have "IP_EVENT_STA_GOT_IP \<notin> set pre" using True raised_flags(2) [of 0 pre] by simp
    then show ?thesis
      using i g'(1) w' first_raised [of 0 "pre @ post"] by (auto simp: CONFIG_ESP_MAXIMUM_RETRY_def wifi_report_def wifi_bits)
  qed
qed

definition demo_wifi :: wifi_env where
  "demo_wifi = \<lparr>we_netif_init = ESP_OK, we_event_loop = ESP_OK, we_wifi_init = ESP_OK, we_register_any = ESP_OK,
    we_register_ip = ESP_OK, we_set_mode = ESP_OK, we_set_config = ESP_OK, we_wifi_start = ESP_OK,
    we_malloc = True, we_items = (\<lambda>_. 24), we_reset = (\<lambda>_. 24), we_task = 1\<rparr>"

theorem wifi_verdict_witness:
  "wifi_init_sta demo_wifi [WIFI_EVENT_STA_START]
     [WIFI_EVENT_STA_DISCONNECTED, WIFI_EVENT_STA_DISCONNECTED, IP_EVENT_STA_GOT_IP] = Wifi_connected \<and>
   wifi_init_sta demo_wifi [WIFI_EVENT_STA_START] (replicate 6 WIFI_EVENT_STA_DISCONNECTED) = Wifi_failed"
  using wifi_verdict [of demo_wifi "[WIFI_EVENT_STA_START]"]
  by (simp add: demo_wifi_def guarded_calls_def losses_def CONFIG_ESP_MAXIMUM_RETRY_def numeral_eq_Suc)

end
