(* ===== verification/Api_Communication.thy ===== *)
theory Api_Communication
  imports Wifi_Connection "HOL-Library.Multiset"
begin

text \<open>
  The client of the server's interface, \<^verbatim>\<open>eCamClientV2/main/api_communication.c\<close>: the two calls
  that write a request into a static buffer and start a task, and the task that sends the buffer
  over a socket and reads the answer. A C string is the list of its characters; a copy that does
  not fit its array is the error value. The network is whatever answers its calls get. Log
  messages, the characters printed and the delays between attempts are left out.
\<close>

section \<open>C strings\<close>

datatype api_error = Overflow string

type_synonym 'a checked = "api_error + 'a"

definition bind :: "'a checked \<Rightarrow> ('a \<Rightarrow> 'b checked) \<Rightarrow> 'b checked" where
  "bind x f = (case x of Inl e \<Rightarrow> Inl e | Inr a \<Rightarrow> f a)"

text \<open>\<^verbatim>\<open>strcpy\<close> into the array of that name and size; the final zero needs a place too.\<close>

definition strcpy :: "string \<Rightarrow> nat \<Rightarrow> string \<Rightarrow> string checked" where
  "strcpy name cap src = (if length src < cap then Inr src else Inl (Overflow name))"

primrec strcat_all :: "string \<Rightarrow> nat \<Rightarrow> string list \<Rightarrow> string \<Rightarrow> string checked" where
  "strcat_all name cap [] dst = Inr dst"
| "strcat_all name cap (src # srcs) dst = bind (strcpy name cap (dst @ src)) (strcat_all name cap srcs)"

fun decimal :: "nat \<Rightarrow> string" where
  "decimal n = (if n < 10 then [char_of (48 + n)] else decimal (n div 10) @ [char_of (48 + n mod 10)])"

declare decimal.simps [simp del]

definition itoa_text :: "int \<Rightarrow> string" where
  "itoa_text n = (if n < 0 then ''-'' @ decimal (nat (- n)) else decimal (nat n))"

definition itoa :: "int \<Rightarrow> string \<Rightarrow> nat \<Rightarrow> string checked" where
  "itoa n name cap = strcpy name cap (itoa_text n)"

definition crlf :: string where "crlf = [CHR 0x0D, CHR 0x0A]"
definition quote :: string where "quote = [CHR 0x22]"

section \<open>Requests\<close>

definition REQUEST_LENGTH :: nat where "REQUEST_LENGTH = 400"
definition WEB_PATH_LENGTH :: nat where "WEB_PATH_LENGTH = 80"
definition GET_PREFIX :: string where "GET_PREFIX = ''GET ''"
definition PUT_PREFIX :: string where "PUT_PREFIX = ''PUT ''"
definition HTTP_REQUEST_SUFFIX :: string where
  "HTTP_REQUEST_SUFFIX = '' HTTP/1.0'' @ crlf @ ''Host: 172.20.10.12:80'' @ crlf @
     ''User-Agent: esp-idf/1.0 esp32'' @ crlf"
definition JSON_CONTENT_SUFFIX :: string where
  "JSON_CONTENT_SUFFIX = ''Content-Type: application/json'' @ crlf @ ''Content-Length: ''"
definition MANAGER_PREFIX_PATH :: string where "MANAGER_PREFIX_PATH = ''/api/manager/robot/''"
definition GET_NEXT_TASK_SUFFIX_PATH :: string where "GET_NEXT_TASK_SUFFIX_PATH = ''/nexttask''"
definition UPDATE_STATUS_SUFFIX_PATH :: string where "UPDATE_STATUS_SUFFIX_PATH = ''/updatestatus''"

lemmas text_defs = GET_PREFIX_def PUT_PREFIX_def HTTP_REQUEST_SUFFIX_def JSON_CONTENT_SUFFIX_def
  MANAGER_PREFIX_PATH_def GET_NEXT_TASK_SUFFIX_PATH_def UPDATE_STATUS_SUFFIX_PATH_def crlf_def quote_def

text \<open>The contents of \<^verbatim>\<open>web_path\<close> and \<^verbatim>\<open>request\<close>.\<close>

definition api_get_nexttask :: "int \<Rightarrow> (string \<times> string) checked" where
  "api_get_nexttask i =
    bind (itoa i ''id_str'' 5) (\<lambda>id_str.
    bind (strcpy ''request'' REQUEST_LENGTH GET_PREFIX) (\<lambda>request.
    bind (strcpy ''web_path'' WEB_PATH_LENGTH MANAGER_PREFIX_PATH) (\<lambda>web_path.
    bind (strcat_all ''request'' REQUEST_LENGTH
      [web_path, id_str, GET_NEXT_TASK_SUFFIX_PATH, HTTP_REQUEST_SUFFIX] request) (\<lambda>request.
    Inr (web_path, request)))))"

definition json_pieces :: "int \<Rightarrow> string \<Rightarrow> string \<Rightarrow> string \<Rightarrow> string list" where
  "json_pieces qr_id id_str qrid_str qrdistance_str =
    [quote @ ''RobotID'' @ quote @ '': '', id_str, '','' @ crlf] @
    (if qr_id \<ge> 0
     then [quote @ ''QR_ID_InFront'' @ quote @ '': '', qrid_str, '','' @ crlf,
           quote @ ''QR_Distance_InFront'' @ quote @ '': '' @ quote, qrdistance_str, quote @ ''}'']
     else [])"

text \<open>\<open>qr_distance\<close> is the distance as \<^verbatim>\<open>printf\<close> writes it with \<^verbatim>\<open>%g\<close>.\<close>

definition api_update_status :: "int \<Rightarrow> int \<Rightarrow> int \<Rightarrow> string \<Rightarrow> (string \<times> string) checked" where
  "api_update_status i task_id qr_id qr_distance =
    bind (itoa i ''id_str'' 5) (\<lambda>id_str.
    bind (itoa task_id ''taskid_str'' 5) (\<lambda>taskid_str.
    bind (itoa qr_id ''qrid_str'' 5) (\<lambda>qrid_str.
    bind (strcpy ''qrdistance_str'' 14 qr_distance) (\<lambda>qrdistance_str.
    bind (strcpy ''json_body'' 200 ''{'') (\<lambda>json_body.
    bind (strcat_all ''json_body'' 200 (json_pieces qr_id id_str qrid_str qrdistance_str) json_body) (\<lambda>json_body.
    bind (itoa (int (length json_body)) ''jsoncapstr'' 5) (\<lambda>jsoncapstr.
    bind (strcpy ''request'' REQUEST_LENGTH PUT_PREFIX) (\<lambda>request.
    bind (strcpy ''web_path'' WEB_PATH_LENGTH MANAGER_PREFIX_PATH) (\<lambda>web_path.
    bind (strcat_all ''request'' REQUEST_LENGTH
      [web_path, id_str, UPDATE_STATUS_SUFFIX_PATH, HTTP_REQUEST_SUFFIX, JSON_CONTENT_SUFFIX, jsoncapstr,
       crlf, json_body] request) (\<lambda>request.
    Inr (web_path, request)))))))))))"

section \<open>The task\<close>

text \<open>Where the task stands, with the address list and the socket it has; \<open>Deleted\<close> is the end.\<close>

datatype http_phase = Resolving | Opening nat | Connecting nat int | Sending int | Setting_timeout int
  | Reading int | Deleted

text \<open>The answer to the call the task makes there; a failed lookup yields no list.\<close>

datatype net_answer = Dns_failed int | Dns_null | Dns_list nat | Socket_is int | Connect_is int
  | Write_is int | Setsockopt_is int | Read_is int

datatype net_action = Alloc_list nat | Free_list nat | Open_socket int | Close_socket int | Send int string

fun http_get_task :: "string \<Rightarrow> http_phase \<Rightarrow> net_answer \<Rightarrow> (net_action list \<times> http_phase) option" where
  "http_get_task request Resolving (Dns_failed err) = (if err \<noteq> 0 then Some ([], Resolving) else None)"
| "http_get_task request Resolving Dns_null = Some ([], Resolving)"
| "http_get_task request Resolving (Dns_list res) = Some ([Alloc_list res], Opening res)"
| "http_get_task request (Opening res) (Socket_is s) =
    (if s < 0 then Some ([Free_list res], Resolving) else Some ([Open_socket s], Connecting res s))"
| "http_get_task request (Connecting res s) (Connect_is r) =
    (if r \<noteq> 0 then Some ([Close_socket s, Free_list res], Resolving) else Some ([Free_list res], Sending s))"
| "http_get_task request (Sending s) (Write_is r) =
    (if r < 0 then Some ([Close_socket s], Resolving) else Some ([Send s (take (nat r) request)], Setting_timeout s))"
| "http_get_task request (Setting_timeout s) (Setsockopt_is r) =
    (if r < 0 then Some ([Close_socket s], Resolving) else Some ([], Reading s))"
| "http_get_task request (Reading s) (Read_is r) =
    (if r > 0 then Some ([], Reading s) else Some ([Close_socket s], Deleted))"
| "http_get_task request _ _ = None"

text \<open>The network as the client sees it; \<open>misused\<close> records the release of something not held.\<close>

record network =
  lists :: "nat multiset"
  sockets :: "int multiset"
  sent :: "string list"
  misused :: bool

primrec act :: "net_action \<Rightarrow> network \<Rightarrow> network" where
  "act (Alloc_list r) n = n\<lparr>lists := add_mset r (lists n)\<rparr>"
| "act (Free_list r) n = n\<lparr>lists := lists n - {#r#}, misused := misused n \<or> r \<notin># lists n\<rparr>"
| "act (Open_socket s) n = n\<lparr>sockets := add_mset s (sockets n)\<rparr>"
| "act (Close_socket s) n = n\<lparr>sockets := sockets n - {#s#}, misused := misused n \<or> s \<notin># sockets n\<rparr>"
| "act (Send s t) n = n\<lparr>sent := sent n @ [t]\<rparr>"

text \<open>The static buffers, the tasks started so far, and the network.\<close>

record api =
  request :: string
  web_path :: string
  tasks :: "http_phase list"
  net :: network

definition start_task :: "(string \<times> string) checked \<Rightarrow> api \<Rightarrow> api checked" where
  "start_task call s = bind call (\<lambda>(p, r). Inr (s\<lparr>web_path := p, request := r, tasks := tasks s @ [Resolving]\<rparr>))"

definition task_step :: "nat \<Rightarrow> net_answer \<Rightarrow> api \<Rightarrow> api option" where
  "task_step i a s =
    (if i < length (tasks s)
     then map_option (\<lambda>(acts, p). s\<lparr>tasks := (tasks s)[i := p], net := fold act acts (net s)\<rparr>)
            (http_get_task (request s) (tasks s ! i) a)
     else None)"

inductive api_step :: "api \<Rightarrow> api \<Rightarrow> bool" where
  get_nexttask: "start_task (api_get_nexttask i) s = Inr s' \<Longrightarrow> api_step s s'"
| update_status: "start_task (api_update_status i t q d) s = Inr s' \<Longrightarrow> api_step s s'"
| task: "task_step i a s = Some s' \<Longrightarrow> api_step s s'"

definition api_start :: api where
  "api_start = \<lparr>request = [], web_path = [], tasks = [],
     net = \<lparr>lists = {#}, sockets = {#}, sent = [], misused = False\<rparr>\<rparr>"

inductive api_reachable :: "api \<Rightarrow> bool" where
  start: "api_reachable api_start"
| step: "api_reachable s \<Longrightarrow> api_step s s' \<Longrightarrow> api_reachable s'"

text \<open>\<^verbatim>\<open>main.c\<close>: the calls follow whatever the connection came to, unless the program stops or waits
  there; \<^verbatim>\<open>5.6\<close> is written as such.\<close>

definition app_main :: "wifi_result \<Rightarrow> api \<Rightarrow> api checked option" where
  "app_main wifi s =
    (if wifi = Wifi_abort \<or> wifi = Wifi_waiting then None
     else Some (bind (start_task (api_get_nexttask 3) s) (start_task (api_update_status 3 2 1 ''5.6''))))"

section \<open>Decimal numbers\<close>

definition read_decimal :: "string \<Rightarrow> nat" where
  "read_decimal cs = fold (\<lambda>c n. 10 * n + (of_char c - 48)) cs 0"

lemma read_decimal_snoc: "read_decimal (cs @ [c]) = 10 * read_decimal cs + (of_char c - 48)"
  by (simp add: read_decimal_def)

lemma read_decimal_decimal [simp]: "read_decimal (decimal n) = n"
proof (induction n rule: decimal.induct)
  case (1 n)
  show ?case
  proof (cases "n < 10")
    case True
    then show ?thesis using decimal.simps [of n] by (simp add: read_decimal_def)
  next
    case False
    then have "decimal n = decimal (n div 10) @ [char_of (48 + n mod 10)]" using decimal.simps [of n] by simp
    then show ?thesis using 1 False by (simp add: read_decimal_snoc)
  qed
qed

lemma length_decimal: "length (decimal n) \<le> Suc k \<longleftrightarrow> n < 10 ^ Suc k"
proof (induction n arbitrary: k rule: decimal.induct)
  case (1 n)
  show ?case
  proof (cases "n < 10")
    case True
    have "(10::nat) * 1 \<le> 10 * 10 ^ k" by (intro mult_le_mono2) simp
    then have "n < 10 * 10 ^ k" using True by linarith
    then show ?thesis using True decimal.simps [of n] by simp
  next
    case False
    then have d: "length (decimal n) = Suc (length (decimal (n div 10)))" using decimal.simps [of n] by simp
    show ?thesis
    proof (cases k)
      case 0
      then show ?thesis using d False decimal.simps [of "n div 10"] by auto
    next
      case (Suc j)
      have "length (decimal (n div 10)) \<le> Suc j \<longleftrightarrow> n div 10 < 10 ^ Suc j" using 1 False by blast
      also have "\<dots> \<longleftrightarrow> n < 10 ^ Suc k" using Suc by (simp add: div_less_iff_less_mult mult.commute)
      finally show ?thesis using d Suc by simp
    qed
  qed
qed

lemma itoa_fits: "length (itoa_text n) < 5 \<longleftrightarrow> -999 \<le> n \<and> n \<le> 9999"
  using length_decimal [of "nat (- n)" 2] length_decimal [of "nat n" 3]
  by (cases "n < 0") (auto simp: itoa_text_def)

lemma decimal_chars: "c \<in> set (decimal n) \<Longrightarrow> of_char c \<ge> (48::nat)"
proof (induction n rule: decimal.induct)
  case (1 n)
  then show ?case using decimal.simps [of n] by (cases "n < 10") auto
qed

section \<open>The text of the requests\<close>

lemma bind_simps [simp]: "bind (Inl e) f = Inl e" "bind (Inr a) f = f a"
  by (simp_all add: bind_def)

lemma strcat_all_fits:
  "length dst + length (concat srcs) < cap \<Longrightarrow> strcat_all name cap srcs dst = Inr (dst @ concat srcs)"
  by (induction srcs arbitrary: dst) (simp_all add: strcpy_def)

text \<open>What a request should be.\<close>

definition get_request :: "int \<Rightarrow> string" where
  "get_request i = ''GET /api/manager/robot/'' @ itoa_text i @ ''/nexttask'' @ HTTP_REQUEST_SUFFIX"

definition status_body :: "int \<Rightarrow> int \<Rightarrow> string \<Rightarrow> string" where
  "status_body i qr_id d = ''{'' @ concat (json_pieces qr_id (itoa_text i) (itoa_text qr_id) d)"

definition status_request :: "int \<Rightarrow> int \<Rightarrow> string \<Rightarrow> string" where
  "status_request i qr_id d = ''PUT /api/manager/robot/'' @ itoa_text i @ ''/updatestatus'' @
     HTTP_REQUEST_SUFFIX @ JSON_CONTENT_SUFFIX @ decimal (length (status_body i qr_id d)) @ crlf @
     status_body i qr_id d"

lemma body_length:
  assumes "length (itoa_text i) < 5" "length (itoa_text qr_id) < 5" "length d < 14"
  shows "length (status_body i qr_id d) < 100"
  using assms by (auto simp: status_body_def json_pieces_def quote_def crlf_def)

lemma itoa_nat: "itoa_text (int n) = decimal n"
  by (simp add: itoa_text_def)

lemma update_status_text:
  assumes "length (itoa_text i) < 5" "length (itoa_text task_id) < 5" "length (itoa_text qr_id) < 5" "length d < 14"
  shows "api_update_status i task_id qr_id d = Inr (MANAGER_PREFIX_PATH, status_request i qr_id d)"
    "length (status_request i qr_id d) < REQUEST_LENGTH"
proof -
  note b = body_length [OF assms(1,3,4)]
  have n: "length (decimal (length (status_body i qr_id d))) < 5"
    using b itoa_fits [of "int (length (status_body i qr_id d))"] by (simp add: itoa_nat)
  have j: "strcat_all ''json_body'' 200 (json_pieces qr_id (itoa_text i) (itoa_text qr_id) d) ''{'' =
      Inr (status_body i qr_id d)"
    using b strcat_all_fits [of "''{''" _ 200] by (simp add: status_body_def)
  show r: "length (status_request i qr_id d) < REQUEST_LENGTH"
    using assms(1) b n by (simp add: status_request_def REQUEST_LENGTH_def text_defs)
  have "strcat_all ''request'' REQUEST_LENGTH
      [MANAGER_PREFIX_PATH, itoa_text i, UPDATE_STATUS_SUFFIX_PATH, HTTP_REQUEST_SUFFIX, JSON_CONTENT_SUFFIX,
       decimal (length (status_body i qr_id d)), crlf, status_body i qr_id d] PUT_PREFIX =
      Inr (status_request i qr_id d)"
    using r by (subst strcat_all_fits)
      (simp_all add: status_request_def PUT_PREFIX_def MANAGER_PREFIX_PATH_def UPDATE_STATUS_SUFFIX_PATH_def)
  then show "api_update_status i task_id qr_id d = Inr (MANAGER_PREFIX_PATH, status_request i qr_id d)"
    using assms n j unfolding api_update_status_def
    by (simp add: itoa_def strcpy_def itoa_nat PUT_PREFIX_def REQUEST_LENGTH_def WEB_PATH_LENGTH_def
        MANAGER_PREFIX_PATH_def)
qed

lemma get_nexttask_text:
  assumes "length (itoa_text i) < 5"
  shows "api_get_nexttask i = Inr (MANAGER_PREFIX_PATH, get_request i)" "length (get_request i) < REQUEST_LENGTH"
proof -
  show r: "length (get_request i) < REQUEST_LENGTH"
    using assms by (simp add: get_request_def REQUEST_LENGTH_def text_defs)
  have "strcat_all ''request'' REQUEST_LENGTH
      [MANAGER_PREFIX_PATH, itoa_text i, GET_NEXT_TASK_SUFFIX_PATH, HTTP_REQUEST_SUFFIX] GET_PREFIX =
      Inr (get_request i)"
    using r by (subst strcat_all_fits)
      (simp_all add: get_request_def GET_PREFIX_def MANAGER_PREFIX_PATH_def GET_NEXT_TASK_SUFFIX_PATH_def)
  then show "api_get_nexttask i = Inr (MANAGER_PREFIX_PATH, get_request i)"
    using assms unfolding api_get_nexttask_def
    by (simp add: itoa_def strcpy_def GET_PREFIX_def REQUEST_LENGTH_def WEB_PATH_LENGTH_def MANAGER_PREFIX_PATH_def)
qed

definition four_chars :: "int \<Rightarrow> bool" where
  "four_chars n \<longleftrightarrow> -999 \<le> n \<and> n \<le> 9999"

text \<open>C39: which requests are written. Given a distance of at most 13 characters, a status update is
  written exactly when each of the three identifiers has at most four characters, and otherwise
  one of the small arrays is overrun. The request fits its buffer, and the number it announces
  after \<^verbatim>\<open>Content-Length\<close> reads as the length of the body that ends it.\<close>

theorem status_request_written:
  assumes "length d \<le> 13"
  shows "if four_chars i \<and> four_chars task_id \<and> four_chars qr_id
    then \<exists>head len. api_update_status i task_id qr_id d =
        Inr (MANAGER_PREFIX_PATH, head @ ''Content-Length: '' @ len @ crlf @ status_body i qr_id d) \<and>
      length (head @ ''Content-Length: '' @ len @ crlf @ status_body i qr_id d) < REQUEST_LENGTH \<and>
      read_decimal len = length (status_body i qr_id d)
    else \<exists>name. api_update_status i task_id qr_id d = Inl (Overflow name)"
proof (cases "four_chars i \<and> four_chars task_id \<and> four_chars qr_id")
  case True
  then have l: "length (itoa_text i) < 5" "length (itoa_text task_id) < 5" "length (itoa_text qr_id) < 5"
    by (simp_all add: itoa_fits four_chars_def)
  have "length d < 14" using assms by simp
  note u = update_status_text [OF l this]
  have "\<exists>head. status_request i qr_id d =
      head @ ''Content-Length: '' @ decimal (length (status_body i qr_id d)) @ crlf @ status_body i qr_id d"
    by (simp add: status_request_def JSON_CONTENT_SUFFIX_def)
  then show ?thesis using True u by (metis read_decimal_decimal)
next
  case False
  then show ?thesis
    by (auto simp: api_update_status_def itoa_def strcpy_def itoa_fits four_chars_def)
qed

theorem status_request_written_witness:
  "(\<exists>head len. api_update_status 3 2 1 ''5.6'' =
      Inr (MANAGER_PREFIX_PATH, head @ ''Content-Length: '' @ len @ crlf @ status_body 3 1 ''5.6'') \<and>
      read_decimal len = length (status_body 3 1 ''5.6'')) \<and>
   (\<exists>name. api_update_status 10000 2 1 ''5.6'' = Inl (Overflow name))"
  using status_request_written [of "''5.6''" 3 2 1] status_request_written [of "''5.6''" 10000 2 1]
  by (auto simp: four_chars_def)

section \<open>The end of the header\<close>

text \<open>No carriage return directly after a line feed.\<close>

fun calm :: "string \<Rightarrow> bool" where
  "calm (x # y # zs) \<longleftrightarrow> \<not> (x = CHR 0x0A \<and> y = CHR 0x0D) \<and> calm (y # zs)"
| "calm _ \<longleftrightarrow> True"

lemma calm_append:
  "calm (xs @ ys) \<longleftrightarrow> calm xs \<and> calm ys \<and> (xs = [] \<or> ys = [] \<or> \<not> (last xs = CHR 0x0A \<and> hd ys = CHR 0x0D))"
proof (induction xs)
  case (Cons x xs)
  then show ?case by (cases xs; cases ys) auto
qed simp

lemma calm_plain: "CHR 0x0A \<notin> set xs \<Longrightarrow> calm xs"
  by (induction xs rule: calm.induct) auto

lemma no_blank_line: "calm xs \<Longrightarrow> xs \<noteq> u @ crlf @ crlf @ v"
  by (auto simp: crlf_def calm_append)

text \<open>Pieces of text that may follow one another.\<close>

definition framed :: "string \<Rightarrow> bool" where
  "framed xs \<longleftrightarrow> xs \<noteq> [] \<and> hd xs \<noteq> CHR 0x0D \<and> calm xs"

lemma framed_append [intro]: "framed xs \<Longrightarrow> framed ys \<Longrightarrow> framed (xs @ ys)"
  by (auto simp: framed_def calm_append)

lemma framed_plain: "xs \<noteq> [] \<Longrightarrow> hd xs \<noteq> CHR 0x0D \<Longrightarrow> CHR 0x0A \<notin> set xs \<Longrightarrow> framed xs"
  by (simp add: framed_def calm_plain)

lemma framed_line:
  assumes "xs \<noteq> []" "hd xs \<noteq> CHR 0x0D" "CHR 0x0A \<notin> set xs"
  shows "framed (xs @ crlf)"
proof -
  have "last xs \<noteq> CHR 0x0A" using assms(1,3) last_in_set by metis
  then show ?thesis using assms by (simp add: framed_def calm_append calm_plain crlf_def)
qed

lemma decimal_plain: "CHR 0x0A \<notin> set (decimal n)" "hd (decimal n) \<noteq> CHR 0x0D" "decimal n \<noteq> []"
proof -
  show "CHR 0x0A \<notin> set (decimal n)" using decimal_chars [of "CHR 0x0A" n] by auto
  show n: "decimal n \<noteq> []" using decimal.simps [of n] by simp
  show "hd (decimal n) \<noteq> CHR 0x0D" using decimal_chars [of "hd (decimal n)" n] n by auto
qed

lemma framed_itoa: "framed (itoa_text n)" "framed (decimal m @ crlf)"
  using decimal_plain [of m] decimal_plain [of "nat n"] decimal_plain [of "nat (- n)"]
  by (simp_all add: framed_line) (simp add: itoa_text_def framed_plain)

lemma framed_body:
  assumes "CHR 0x0A \<notin> set d"
  shows "framed (status_body i qr_id d)"
proof -
  have p: "framed (''{'' @ quote @ ''RobotID'' @ quote @ '': '')" "framed ('','' @ crlf)"
    "framed (quote @ ''QR_ID_InFront'' @ quote @ '': '')"
    by (simp_all add: framed_def quote_def crlf_def)
  have q: "framed ((quote @ ''QR_Distance_InFront'' @ quote @ '': '' @ quote) @ d @ (quote @ ''}''))"
    using assms by (intro framed_plain) (auto simp: quote_def)
  have "framed ((''{'' @ quote @ ''RobotID'' @ quote @ '': '') @ itoa_text i @ ('','' @ crlf))"
    by (intro framed_append framed_itoa p)
  moreover have "framed ((quote @ ''QR_ID_InFront'' @ quote @ '': '') @ itoa_text qr_id @ ('','' @ crlf) @
      ((quote @ ''QR_Distance_InFront'' @ quote @ '': '' @ quote) @ d @ (quote @ ''}'')))"
    by (intro framed_append framed_itoa p q)
  ultimately show ?thesis
    using framed_append by (fastforce simp: status_body_def json_pieces_def)
qed

lemma framed_header: "framed HTTP_REQUEST_SUFFIX" "framed JSON_CONTENT_SUFFIX"
  by (simp_all add: framed_def HTTP_REQUEST_SUFFIX_def JSON_CONTENT_SUFFIX_def crlf_def)

lemma framed_status_request:
  assumes "CHR 0x0A \<notin> set d"
  shows "framed (status_request i qr_id d)"
proof -
  have "framed (''PUT /api/manager/robot/'' @ itoa_text i @ ''/updatestatus'' @ HTTP_REQUEST_SUFFIX @
      JSON_CONTENT_SUFFIX @ (decimal (length (status_body i qr_id d)) @ crlf) @ status_body i qr_id d)"
    by (intro framed_append framed_itoa framed_header framed_body assms) (simp_all add: framed_def)
  then show ?thesis by (simp add: status_request_def)
qed

lemma framed_get_request: "framed (get_request i)"
  unfolding get_request_def
  by (intro framed_append framed_itoa framed_header) (simp_all add: framed_def)

text \<open>No request ever ends its header. Neither call writes the empty line that separates the header
  of an HTTP request from its body, whatever its arguments (a distance written without line
  feeds): the server sees the body of a status update, if at all, as more header lines.\<close>

theorem request_header_never_ends:
  assumes "CHR 0x0A \<notin> set d"
    and "api_get_nexttask i = Inr (p, r) \<or> length d \<le> 13 \<and> api_update_status i t q d = Inr (p, r)"
  shows "r \<noteq> u @ crlf @ crlf @ v"
proof -
  have "r = get_request i \<or> r = status_request i q d"
  proof (cases "api_get_nexttask i = Inr (p, r)")
    case True
    then have "length (itoa_text i) < 5"
      by (auto simp: api_get_nexttask_def itoa_def strcpy_def split: if_splits)
    then show ?thesis using get_nexttask_text(1) True by simp
  next
    case False
    then have u: "api_update_status i t q d = Inr (p, r)" "length d < 14" using assms(2) by auto
    then have "length (itoa_text i) < 5" "length (itoa_text t) < 5" "length (itoa_text q) < 5"
      by (auto simp: api_update_status_def itoa_def strcpy_def split: if_splits)
    then show ?thesis using update_status_text(1) u by simp
  qed
  then have "framed r" using framed_get_request framed_status_request [OF assms(1)] by auto
  then show ?thesis using no_blank_line by (auto simp: framed_def)
qed

theorem request_header_never_ends_witness:
  "(\<exists>p r. api_update_status 3 2 1 ''5.6'' = Inr (p, r) \<and> \<not> (\<exists>u v. r = u @ crlf @ crlf @ v))"
proof -
  obtain p r where r: "api_update_status 3 2 1 ''5.6'' = Inr (p, r)"
    using update_status_text(1) [of 3 2 1 "''5.6''"] by (simp add: itoa_fits)
  show ?thesis
    using request_header_never_ends [of "''5.6''" 3 p r 2 1] r by auto
qed

section \<open>Sockets and address lists\<close>

primrec held_lists :: "http_phase \<Rightarrow> nat multiset" where
  "held_lists Resolving = {#}"
| "held_lists (Opening r) = {#r#}"
| "held_lists (Connecting r s) = {#r#}"
| "held_lists (Sending s) = {#}"
| "held_lists (Setting_timeout s) = {#}"
| "held_lists (Reading s) = {#}"
| "held_lists Deleted = {#}"

primrec held_sockets :: "http_phase \<Rightarrow> int multiset" where
  "held_sockets Resolving = {#}"
| "held_sockets (Opening r) = {#}"
| "held_sockets (Connecting r s) = {#s#}"
| "held_sockets (Sending s) = {#s#}"
| "held_sockets (Setting_timeout s) = {#s#}"
| "held_sockets (Reading s) = {#s#}"
| "held_sockets Deleted = {#}"

lemma task_actions:
  assumes "http_get_task req p a = Some (acts, p')"
    and "lists n = L + held_lists p" "sockets n = S + held_sockets p"
  shows "lists (fold act acts n) = L + held_lists p' \<and> sockets (fold act acts n) = S + held_sockets p' \<and>
    misused (fold act acts n) = misused n"
  using assms by (cases "(req, p, a)" rule: http_get_task.cases) (auto split: if_splits)

lemma sum_list_update_parts:
  fixes f :: "'a \<Rightarrow> 'b::comm_monoid_add"
  assumes "i < length xs"
  shows "\<exists>rest. sum_list (map f xs) = rest + f (xs ! i) \<and> (\<forall>y. sum_list (map f (xs[i := y])) = rest + f y)"
  using assms
proof (induction xs arbitrary: i)
  case (Cons x xs)
  show ?case
  proof (cases i)
    case 0
    then show ?thesis by (intro exI [of _ "sum_list (map f xs)"]) (simp add: add.commute)
  next
    case (Suc j)
    obtain rest where "sum_list (map f xs) = rest + f (xs ! j)" "\<forall>y. sum_list (map f (xs[j := y])) = rest + f y"
      using Cons Suc by auto
    then show ?thesis using Suc by (intro exI [of _ "f x + rest"]) (simp add: add.assoc)
  qed
qed simp

definition accounted :: "api \<Rightarrow> bool" where
  "accounted s \<longleftrightarrow> lists (net s) = sum_list (map held_lists (tasks s)) \<and>
    sockets (net s) = sum_list (map held_sockets (tasks s)) \<and> \<not> misused (net s)"

lemma start_accounted: "accounted s \<Longrightarrow> start_task c s = Inr s' \<Longrightarrow> accounted s'"
  by (cases c) (auto simp: start_task_def accounted_def)

lemma task_accounted:
  assumes "accounted s" "task_step i a s = Some s'"
  shows "accounted s'"
proof -
  obtain acts p where i: "i < length (tasks s)" "http_get_task (request s) (tasks s ! i) a = Some (acts, p)"
    "s' = s\<lparr>tasks := (tasks s)[i := p], net := fold act acts (net s)\<rparr>"
    using assms(2) by (auto simp: task_step_def split: if_splits)
  obtain L where L: "sum_list (map held_lists (tasks s)) = L + held_lists (tasks s ! i)"
    "\<forall>y. sum_list (map held_lists ((tasks s)[i := y])) = L + held_lists y"
    using sum_list_update_parts [OF i(1)] by blast
  obtain S where S: "sum_list (map held_sockets (tasks s)) = S + held_sockets (tasks s ! i)"
    "\<forall>y. sum_list (map held_sockets ((tasks s)[i := y])) = S + held_sockets y"
    using sum_list_update_parts [OF i(1)] by blast
  show ?thesis
    using task_actions [OF i(2), of "net s" L S] L S assms(1) i(3) by (simp add: accounted_def)
qed

lemma reachable_accounted: "api_reachable s \<Longrightarrow> accounted s"
proof (induction rule: api_reachable.induct)
  case start
  then show ?case by (simp add: accounted_def api_start_def)
next
  case (step s s')
  from step(2,3) show ?case
    by (cases rule: api_step.cases) (auto intro: start_accounted task_accounted)
qed

text \<open>C38: the tasks give back what they take. However many requests are made and whatever the network
  answers in whatever order, the sockets and address lists in use are exactly those of the tasks
  that are between getting and releasing them, and nothing is released twice. So when every task
  is at its end or looking up the server again, none is in use.\<close>

theorem tasks_release:
  assumes "api_reachable s"
  shows "lists (net s) = sum_list (map held_lists (tasks s)) \<and>
    sockets (net s) = sum_list (map held_sockets (tasks s)) \<and> \<not> misused (net s) \<and>
    (set (tasks s) \<subseteq> {Resolving, Deleted} \<longrightarrow> lists (net s) = {#} \<and> sockets (net s) = {#})"
proof -
  have "sum_list (map held_lists ts) = {#} \<and> sum_list (map held_sockets ts) = {#}"
    if "set ts \<subseteq> {Resolving, Deleted}" for ts
    using that by (induction ts) auto
  then show ?thesis using reachable_accounted [OF assms] by (auto simp: accounted_def)
qed

text \<open>A connection that is refused, after the lookup and the socket succeeded.\<close>

fun task_steps :: "nat \<Rightarrow> net_answer list \<Rightarrow> api \<Rightarrow> api option" where
  "task_steps i [] s = Some s"
| "task_steps i (a # as) s = (case task_step i a s of None \<Rightarrow> None | Some s \<Rightarrow> task_steps i as s)"

lemma task_steps_reachable: "api_reachable s \<Longrightarrow> task_steps i as s = Some s' \<Longrightarrow> api_reachable s'"
  by (induction i as s rule: task_steps.induct)
    (auto split: option.splits intro: api_reachable.step api_step.task)

definition asked :: api where
  "asked = api_start\<lparr>web_path := MANAGER_PREFIX_PATH, request := get_request 3, tasks := [Resolving]\<rparr>"

lemma asked_reachable: "api_reachable asked"
proof -
  have "start_task (api_get_nexttask 3) api_start = Inr asked"
    using get_nexttask_text(1) [of 3] by (simp add: itoa_fits start_task_def asked_def api_start_def)
  then show ?thesis using api_reachable.start api_reachable.step api_step.get_nexttask by blast
qed

theorem tasks_release_witness:
  "\<exists>s. task_steps 0 [Dns_list 1, Socket_is 5, Connect_is (-1)] asked = Some s \<and>
     sockets (net s) = {#} \<and> lists (net s) = {#} \<and> \<not> misused (net s)"
proof -
  obtain s where s: "task_steps 0 [Dns_list 1, Socket_is 5, Connect_is (-1)] asked = Some s"
    "tasks s = [Resolving]"
    by (simp add: task_step_def asked_def)
  show ?thesis
    using tasks_release [OF task_steps_reachable [OF asked_reachable s(1)]] s by auto
qed

section \<open>One buffer for all requests\<close>

inductive task_run :: "api \<Rightarrow> api \<Rightarrow> bool" where
  refl: "task_run s s"
| step: "task_run s t \<Longrightarrow> task_step i a t = Some u \<Longrightarrow> task_run s u"

lemma http_sends:
  "http_get_task req p a = Some (acts, p') \<Longrightarrow>
    \<exists>ts. sent (fold act acts n) = sent n @ ts \<and> (\<forall>t\<in>set ts. \<exists>k. t = take k req)"
  by (cases "(req, p, a)" rule: http_get_task.cases) (auto split: if_splits)

lemma run_sends:
  assumes "task_run s s'" "sent (net s) = []"
  shows "request s' = request s \<and> (\<forall>t\<in>set (sent (net s')). \<exists>k. t = take k (request s))"
  using assms
proof (induction rule: task_run.induct)
  case (refl s)
  then show ?case by simp
next
  case (step s t i a u)
  obtain acts p where h: "http_get_task (request t) (tasks t ! i) a = Some (acts, p)"
    "u = t\<lparr>tasks := (tasks t)[i := p], net := fold act acts (net t)\<rparr>"
    using step(2) by (auto simp: task_step_def split: if_splits)
  then show ?case using step(3,4) http_sends [OF h(1), of "net t"] by auto
qed

text \<open>The first request of the program is never sent if its task does not get to send it before the
  second call. Both calls of \<^verbatim>\<open>app_main\<close> write the same buffer and both tasks read it when they
  send: from then on whatever either task sends is the status update, or a part of it, in every
  interleaving of the tasks and whatever the network answers.\<close>

theorem first_request_lost:
  assumes "app_main wifi api_start = Some (Inr s)" "task_run s s'"
  shows "length (tasks s') = 2 \<and>
    (\<forall>t\<in>set (sent (net s')). \<exists>k. t = take k (status_request 3 1 ''5.6''))"
proof -
  have s: "s = api_start\<lparr>web_path := MANAGER_PREFIX_PATH, request := status_request 3 1 ''5.6'', tasks := [Resolving, Resolving]\<rparr>"
    using assms(1) get_nexttask_text(1) [of 3] update_status_text(1) [of 3 2 1 "''5.6''"]
    by (auto simp: app_main_def start_task_def itoa_fits api_start_def split: if_splits)
  have "length (tasks s') = length (tasks s)"
    using assms(2) by (induction rule: task_run.induct) (auto simp: task_step_def split: if_splits)
  then show ?thesis using run_sends [OF assms(2)] s by (simp add: api_start_def)
qed

theorem first_request_lost_witness:
  "\<exists>s s'. app_main Wifi_connected api_start = Some (Inr s) \<and> task_run s s' \<and> sent (net s') \<noteq> [] \<and>
     (\<forall>t\<in>set (sent (net s')). \<exists>k. t = take k (status_request 3 1 ''5.6''))"
proof -
  let ?s = "api_start\<lparr>web_path := MANAGER_PREFIX_PATH, request := status_request 3 1 ''5.6'', tasks := [Resolving, Resolving]\<rparr>"
  have m: "app_main Wifi_connected api_start = Some (Inr ?s)"
    using get_nexttask_text(1) [of 3] update_status_text(1) [of 3 2 1 "''5.6''"]
    by (simp add: app_main_def start_task_def itoa_fits api_start_def)
  have run: "task_run s s'" if "task_steps i as t = Some s'" "task_run s t" for i as s t s'
    using that by (induction i as t rule: task_steps.induct) (auto split: option.splits intro: task_run.step)
  obtain s' where s': "task_steps 0 [Dns_list 1, Socket_is 5, Connect_is 0, Write_is 4] ?s = Some s'" "sent (net s') \<noteq> []"
    by (simp add: task_step_def api_start_def)
  then have "task_run ?s s'" using run task_run.refl by blast
  then show ?thesis using m s'(2) first_request_lost [OF m] by blast
qed

end
