(* ===== verification/FreeRTOS_Mutex.thy ===== *)
theory FreeRTOS_Mutex
  imports FreeRTOS_Queue
begin

text \<open>
  The rest of \<^verbatim>\<open>freertos/queue.c\<close> that works on queues: looking at the front of a queue, receiving
  from interrupts, and semaphores and mutexes, which are queues of items of size zero whose number
  of messages is the count. Mutexes lend their holder the priority of the tasks that wait; the four
  functions of \<^verbatim>\<open>tasks.c\<close> that do this are modelled with the fields of a task they use, and the bound on the
  holder's priority is proved for the time that a task waits. Tasks are numbers. A blocking call is a loop over what its environment does, as in the theory of the queue;
  a failed \<^verbatim>\<open>configASSERT\<close> is a result.
\<close>

section \<open>Looking at a queue\<close>

text \<open>The read pointer is put back after the copy; a task that waits for data is woken.\<close>

definition peek_now :: "Queue_t \<Rightarrow> u8 list \<times> Queue_t" where
  "peek_now q =
    (let (item, q1) = prvCopyDataFromQueue q; q2 = q1\<lparr>pcReadFrom := pcReadFrom q\<rparr>
     in (item, if xTasksWaitingToReceive q2 \<noteq> []
               then q2\<lparr>xTasksWaitingToReceive := tl (xTasksWaitingToReceive q2)\<rparr> else q2))"

fun xQueuePeek_loop ::
  "(nat \<Rightarrow> nat list \<Rightarrow> nat list) \<Rightarrow> nat \<Rightarrow> bool \<Rightarrow> env_step list \<Rightarrow> Queue_t \<Rightarrow>
   q_result \<times> u8 list \<times> Queue_t" where
  "xQueuePeek_loop place me wait [] q =
    (if uxMessagesWaiting q > 0 then (pdPASS, peek_now q)
     else if \<not> wait then (errQUEUE_EMPTY, [], q)
     else (still_blocked, [], q))"
| "xQueuePeek_loop place me wait (e # es) q =
    (if uxMessagesWaiting q > 0 then (pdPASS, peek_now q)
     else if \<not> wait then (errQUEUE_EMPTY, [], q)
     else let q1 = prvLockQueue (es_mid e q) in
       if \<not> es_expired e then
         if prvIsQueueEmpty q1 then
           xQueuePeek_loop place me wait es
             (es_wake e (prvUnlockQueue
               (q1\<lparr>xTasksWaitingToReceive := place me (xTasksWaitingToReceive q1)\<rparr>)))
         else
           xQueuePeek_loop place me wait es (es_wake e (prvUnlockQueue q1))
       else
         (let q2 = es_wake e (prvUnlockQueue q1) in
          if prvIsQueueEmpty q2 then (errQUEUE_EMPTY, [], q2)
          else xQueuePeek_loop place me wait es (es_retry e q2)))"

definition xQueuePeek ::
  "(nat \<Rightarrow> nat list \<Rightarrow> nat list) \<Rightarrow> nat \<Rightarrow> env_step list \<Rightarrow> Queue_t \<Rightarrow> nat \<Rightarrow>
   q_result \<times> u8 list \<times> Queue_t" where
  "xQueuePeek place me env q xTicksToWait = xQueuePeek_loop place me (xTicksToWait \<noteq> 0) env q"

definition xQueuePeekFromISR :: "Queue_t \<Rightarrow> q_result \<times> u8 list \<times> Queue_t" where
  "xQueuePeekFromISR q =
    (if uxItemSize q = 0 then (assert_failed, [], q)
     else if uxMessagesWaiting q > 0 then
       (case prvCopyDataFromQueue q of (item, q1) \<Rightarrow> (pdPASS, item, q1\<lparr>pcReadFrom := pcReadFrom q\<rparr>))
     else (errQUEUE_EMPTY, [], q))"

definition xQueueReceiveFromISR ::
  "bool \<Rightarrow> Queue_t \<Rightarrow> bool \<Rightarrow> q_result \<times> bool \<times> u8 list \<times> Queue_t" where
  "xQueueReceiveFromISR higher q woken =
    (if uxMessagesWaiting q > 0 then
       (let lock = cRxLock q;
            (item, q1) = prvCopyDataFromQueue q;
            q2 = q1\<lparr>uxMessagesWaiting := uxMessagesWaiting q - 1\<rparr>
        in if lock = queueUNLOCKED then
             (if xTasksWaitingToSend q2 \<noteq> []
              then (pdPASS, woken \<or> higher, item, q2\<lparr>xTasksWaitingToSend := tl (xTasksWaitingToSend q2)\<rparr>)
              else (pdPASS, woken, item, q2))
           else (pdPASS, woken, item, q2\<lparr>cRxLock := to_int8 (lock + 1)\<rparr>))
     else (errQUEUE_EMPTY, woken, [], q))"

definition uxQueueMessagesWaiting :: "Queue_t \<Rightarrow> nat" where
  "uxQueueMessagesWaiting q = uxMessagesWaiting q"

definition xQueueIsQueueEmptyFromISR :: "Queue_t \<Rightarrow> bool" where
  "xQueueIsQueueEmptyFromISR q \<longleftrightarrow> uxMessagesWaiting q = 0"

definition xQueueIsQueueFullFromISR :: "Queue_t \<Rightarrow> bool" where
  "xQueueIsQueueFullFromISR q \<longleftrightarrow> uxMessagesWaiting q = uxLength q"

text \<open>The copy out of the front of the queue, with the read pointer put back.\<close>

lemma copy_front_back:
  assumes "q_inv q" "0 < uxMessagesWaiting q"
  shows "fst (prvCopyDataFromQueue q) = hd (q_items q)"
    and "(snd (prvCopyDataFromQueue q))\<lparr>pcReadFrom := pcReadFrom q\<rparr> = q"
proof -
  obtain x q' where r: "receive_now q = (x, q')" by (cases "receive_now q")
  have "fst (prvCopyDataFromQueue q) = x"
    using r by (auto simp: receive_now_def Let_def split: prod.splits if_splits)
  then show "fst (prvCopyDataFromQueue q) = hd (q_items q)"
    using receive_now_refines [OF assms r] by simp
  show "(snd (prvCopyDataFromQueue q))\<lparr>pcReadFrom := pcReadFrom q\<rparr> = q"
    by (simp add: prvCopyDataFromQueue_def Let_def)
qed

lemma copy_keeps_waiters [simp]:
  "xTasksWaitingToReceive (snd (prvCopyDataFromQueue q)) = xTasksWaitingToReceive q"
  by (simp add: prvCopyDataFromQueue_def Let_def)

lemma peek_now_eq:
  assumes "q_inv q" "0 < uxMessagesWaiting q"
  shows "peek_now q = (hd (q_items q), q\<lparr>xTasksWaitingToReceive := tl (xTasksWaitingToReceive q)\<rparr>)"
  using copy_front_back [OF assms]
  by (cases "xTasksWaitingToReceive q") (auto simp: peek_now_def case_prod_beta Let_def)

text \<open>Looking at a queue without a block time: the oldest item, and nothing is removed.\<close>

lemma peek_refines:
  assumes "q_inv q"
  shows "xQueuePeek place me [] q 0 =
      (case q_items q of [] \<Rightarrow> (errQUEUE_EMPTY, [], q)
       | item # rest \<Rightarrow> (pdPASS, item, q\<lparr>xTasksWaitingToReceive := tl (xTasksWaitingToReceive q)\<rparr>))"
    and "xQueuePeekFromISR q = (case q_items q of [] \<Rightarrow> (errQUEUE_EMPTY, [], q) | item # rest \<Rightarrow> (pdPASS, item, q))"
proof -
  have n: "uxMessagesWaiting q = length (q_items q)" by simp
  show "xQueuePeek place me [] q 0 =
      (case q_items q of [] \<Rightarrow> (errQUEUE_EMPTY, [], q)
       | item # rest \<Rightarrow> (pdPASS, item, q\<lparr>xTasksWaitingToReceive := tl (xTasksWaitingToReceive q)\<rparr>))"
    using peek_now_eq [OF assms] n by (cases "q_items q") (auto simp: xQueuePeek_def)
  show "xQueuePeekFromISR q = (case q_items q of [] \<Rightarrow> (errQUEUE_EMPTY, [], q) | item # rest \<Rightarrow> (pdPASS, item, q))"
    using copy_front_back [OF assms] n assms
    by (cases "q_items q") (auto simp: xQueuePeekFromISR_def case_prod_beta q_inv_def)
qed

lemma isr_receive_refines:
  assumes "q_inv q" "xQueueReceiveFromISR higher q woken = (res, woken', item, q')"
  shows "if q_items q = [] then res = errQUEUE_EMPTY \<and> q' = q
    else res = pdPASS \<and> q_inv q' \<and> q_items q = item # q_items q'"
proof (cases "0 < uxMessagesWaiting q")
  case True
  define q2 where "q2 = (snd (prvCopyDataFromQueue q))\<lparr>uxMessagesWaiting := uxMessagesWaiting q - 1\<rparr>"
  have "receive_now q = (fst (prvCopyDataFromQueue q),
      if xTasksWaitingToSend q2 \<noteq> [] then q2\<lparr>xTasksWaitingToSend := tl (xTasksWaitingToSend q2)\<rparr> else q2)"
    by (simp add: receive_now_def q2_def case_prod_beta Let_def)
  from receive_now_refines [OF assms(1) True this]
  have base: "q_inv q2" "q_items q = fst (prvCopyDataFromQueue q) # q_items q2"
    by (simp_all split: if_splits)
  moreover have "q_items q \<noteq> []" using True by (metis length_q_items less_nat_zero_code list.size(3))
  ultimately show ?thesis
    using assms(2) True
    by (auto simp: xQueueReceiveFromISR_def case_prod_beta Let_def q2_def split: if_splits)
qed (use assms(2) in \<open>simp add: xQueueReceiveFromISR_def q_items_def\<close>)

section \<open>Priority inheritance\<close>

text \<open>
  The fields of a task control block that mutexes use. \<open>ev_prio\<close> is the priority by which the task
  is listed in an event list (the item's value is \<^verbatim>\<open>configMAX_PRIORITIES\<close> less it); \<open>ev_in_use\<close> is the
  flag in that value by which another user of the item, an event group, claims it.
\<close>

record TCB_t =
  uxPriority :: nat
  uxBasePriority :: nat
  uxMutexesHeld :: nat
  ev_prio :: nat
  ev_in_use :: bool

type_synonym tasks = "nat \<Rightarrow> TCB_t"

definition tskIDLE_PRIORITY :: nat where "tskIDLE_PRIORITY = 0"

definition xTaskPriorityInherit :: "nat \<Rightarrow> nat option \<Rightarrow> tasks \<Rightarrow> bool \<times> tasks" where
  "xTaskPriorityInherit me pxMutexHolder ts = (case pxMutexHolder of
     None \<Rightarrow> (False, ts)
   | Some h \<Rightarrow>
       if uxPriority (ts h) < uxPriority (ts me)
       then (True, ts(h := (ts h)\<lparr>uxPriority := uxPriority (ts me),
               ev_prio := (if ev_in_use (ts h) then ev_prio (ts h) else uxPriority (ts me))\<rparr>))
       else (uxBasePriority (ts h) < uxPriority (ts me), ts))"

definition xTaskPriorityDisinherit :: "nat \<Rightarrow> nat option \<Rightarrow> tasks \<Rightarrow> (bool \<times> tasks) option" where
  "xTaskPriorityDisinherit me pxMutexHolder ts = (case pxMutexHolder of
     None \<Rightarrow> Some (False, ts)
   | Some h \<Rightarrow>
       if h \<noteq> me \<or> uxMutexesHeld (ts h) = 0 then None
       else let t = (ts h)\<lparr>uxMutexesHeld := uxMutexesHeld (ts h) - 1\<rparr> in
         if uxPriority t \<noteq> uxBasePriority t \<and> uxMutexesHeld t = 0
         then Some (True, ts(h := t\<lparr>uxPriority := uxBasePriority t, ev_prio := uxBasePriority t\<rparr>))
         else Some (False, ts(h := t)))"

definition vTaskPriorityDisinheritAfterTimeout :: "nat \<Rightarrow> nat option \<Rightarrow> nat \<Rightarrow> tasks \<Rightarrow> tasks option" where
  "vTaskPriorityDisinheritAfterTimeout me pxMutexHolder uxHighest ts = (case pxMutexHolder of
     None \<Rightarrow> Some ts
   | Some h \<Rightarrow>
       if uxMutexesHeld (ts h) = 0 then None
       else let p = (if uxBasePriority (ts h) < uxHighest then uxHighest else uxBasePriority (ts h)) in
         if uxPriority (ts h) \<noteq> p \<and> uxMutexesHeld (ts h) = 1
         then if h = me then None
              else Some (ts(h := (ts h)\<lparr>uxPriority := p,
                     ev_prio := (if ev_in_use (ts h) then ev_prio (ts h) else p)\<rparr>))
         else Some ts)"

definition pvTaskIncrementMutexHeldCount :: "nat \<Rightarrow> tasks \<Rightarrow> nat option \<times> tasks" where
  "pvTaskIncrementMutexHeldCount me ts =
    (Some me, ts(me := (ts me)\<lparr>uxMutexesHeld := uxMutexesHeld (ts me) + 1\<rparr>))"

section \<open>Semaphores and mutexes\<close>

record Semaphore_t =
  sm_q :: Queue_t
  sm_is_mutex :: bool
  xMutexHolder :: "nat option"
  uxRecursiveCallCount :: nat

datatype sem_create = SemAssert | SemNULL | SemCreated Semaphore_t

definition semaphore_of :: "bool \<Rightarrow> Queue_t \<Rightarrow> Semaphore_t" where
  "semaphore_of is_mutex q =
    \<lparr>sm_q = q, sm_is_mutex = is_mutex, xMutexHolder = None, uxRecursiveCallCount = 0\<rparr>"

text \<open>
  Giving: \<^verbatim>\<open>xQueueGenericSend\<close> of nothing with block time zero. The copy of an item of size zero into
  a mutex ends the holder's borrowed priority and clears the holder.
\<close>

definition sem_give :: "nat \<Rightarrow> Semaphore_t \<Rightarrow> tasks \<Rightarrow> q_result \<times> Semaphore_t \<times> tasks" where
  "sem_give me s ts = (case xQueueGenericSend (\<lambda>_ ws. ws) me [] (sm_q s) [] 0 queueSEND_TO_BACK of
     (r, q) \<Rightarrow>
       if r \<noteq> pdPASS then (r, s\<lparr>sm_q := q\<rparr>, ts)
       else if \<not> sm_is_mutex s then (pdPASS, s\<lparr>sm_q := q\<rparr>, ts)
       else case xTaskPriorityDisinherit me (xMutexHolder s) ts of
         None \<Rightarrow> (assert_failed, s, ts)
       | Some (_, ts') \<Rightarrow> (pdPASS, s\<lparr>sm_q := q, xMutexHolder := None\<rparr>, ts'))"

text \<open>A new mutex is given once.\<close>

definition prvInitialiseMutex :: "nat \<Rightarrow> tasks \<Rightarrow> Queue_t \<Rightarrow> Semaphore_t" where
  "prvInitialiseMutex me ts q = fst (snd (sem_give me (semaphore_of True q) ts))"

definition xQueueCreateMutex ::
    "nat \<Rightarrow> (nat \<Rightarrow> u8 list option) \<Rightarrow> nat \<Rightarrow> tasks \<Rightarrow> sem_create" where
  "xQueueCreateMutex sizeof_Queue pvPortMalloc me ts =
    (case xQueueGenericCreate sizeof_Queue pvPortMalloc 1 0 of
       CreateAssert \<Rightarrow> SemAssert
     | CreateNULL \<Rightarrow> SemNULL
     | Created q \<Rightarrow> SemCreated (prvInitialiseMutex me ts q))"

definition xQueueCreateCountingSemaphore ::
    "nat \<Rightarrow> (nat \<Rightarrow> u8 list option) \<Rightarrow> nat \<Rightarrow> nat \<Rightarrow> sem_create" where
  "xQueueCreateCountingSemaphore sizeof_Queue pvPortMalloc uxMaxCount uxInitialCount =
    (if uxMaxCount = 0 \<or> \<not> uxInitialCount \<le> uxMaxCount then SemAssert
     else case xQueueGenericCreate sizeof_Queue pvPortMalloc uxMaxCount 0 of
       CreateAssert \<Rightarrow> SemAssert
     | CreateNULL \<Rightarrow> SemNULL
     | Created q \<Rightarrow> SemCreated (semaphore_of False (q\<lparr>uxMessagesWaiting := uxInitialCount\<rparr>)))"

definition xQueueGetMutexHolder :: "Semaphore_t \<Rightarrow> nat option" where
  "xQueueGetMutexHolder s = (if sm_is_mutex s then xMutexHolder s else None)"

definition xQueueGiveFromISR :: "bool \<Rightarrow> Semaphore_t \<Rightarrow> bool \<Rightarrow> q_result \<times> bool \<times> Semaphore_t" where
  "xQueueGiveFromISR higher s woken =
    (let q = sm_q s in
     if uxItemSize q \<noteq> 0 then (assert_failed, woken, s)
     else if sm_is_mutex s \<and> xMutexHolder s \<noteq> None then (assert_failed, woken, s)
     else if uxMessagesWaiting q < uxLength q then
       (let q1 = q\<lparr>uxMessagesWaiting := uxMessagesWaiting q + 1\<rparr> in
        if cTxLock q = queueUNLOCKED then
          (if xTasksWaitingToReceive q1 \<noteq> []
           then (pdPASS, woken \<or> higher, s\<lparr>sm_q := q1\<lparr>xTasksWaitingToReceive := tl (xTasksWaitingToReceive q1)\<rparr>\<rparr>)
           else (pdPASS, woken, s\<lparr>sm_q := q1\<rparr>))
        else (pdPASS, woken, s\<lparr>sm_q := q1\<lparr>cTxLock := to_int8 (cTxLock q + 1)\<rparr>\<rparr>))
     else (errQUEUE_FULL, woken, s))"

text \<open>Taking: the part that finds the count positive, the part that blocks, and the end of a wait
  that timed out (\<open>None\<close>: a failed assertion).\<close>

definition sem_take_now :: "nat \<Rightarrow> Semaphore_t \<Rightarrow> tasks \<Rightarrow> Semaphore_t \<times> tasks" where
  "sem_take_now me s ts =
    (let q1 = (sm_q s)\<lparr>uxMessagesWaiting := uxMessagesWaiting (sm_q s) - 1\<rparr>;
         q2 = (if xTasksWaitingToSend q1 \<noteq> []
               then q1\<lparr>xTasksWaitingToSend := tl (xTasksWaitingToSend q1)\<rparr> else q1)
     in if sm_is_mutex s
        then (case pvTaskIncrementMutexHeldCount me ts of (h, ts') \<Rightarrow> (s\<lparr>sm_q := q2, xMutexHolder := h\<rparr>, ts'))
        else (s\<lparr>sm_q := q2\<rparr>, ts))"

definition sem_block ::
    "(nat \<Rightarrow> nat list \<Rightarrow> nat list) \<Rightarrow> nat \<Rightarrow> bool \<Rightarrow> Semaphore_t \<Rightarrow> tasks \<Rightarrow> bool \<times> Semaphore_t \<times> tasks" where
  "sem_block place me inherited s ts =
    (let (inherited', ts') = (if sm_is_mutex s then xTaskPriorityInherit me (xMutexHolder s) ts else (inherited, ts));
         q = sm_q s
     in (inherited', s\<lparr>sm_q := q\<lparr>xTasksWaitingToReceive := place me (xTasksWaitingToReceive q)\<rparr>\<rparr>, ts'))"

definition prvGetDisinheritPriorityAfterTimeout :: "Queue_t \<Rightarrow> tasks \<Rightarrow> nat" where
  "prvGetDisinheritPriorityAfterTimeout q ts = (case xTasksWaitingToReceive q of
     [] \<Rightarrow> tskIDLE_PRIORITY | t # _ \<Rightarrow> ev_prio (ts t))"

definition sem_timeout :: "nat \<Rightarrow> bool \<Rightarrow> Semaphore_t \<Rightarrow> tasks \<Rightarrow> tasks option" where
  "sem_timeout me inherited s ts =
    (if inherited
     then vTaskPriorityDisinheritAfterTimeout me (xMutexHolder s) (prvGetDisinheritPriorityAfterTimeout (sm_q s) ts) ts
     else Some ts)"

record sem_env =
  se_mid :: "Semaphore_t \<times> tasks \<Rightarrow> Semaphore_t \<times> tasks"
  se_expired :: bool
  se_wake :: "Semaphore_t \<times> tasks \<Rightarrow> Semaphore_t \<times> tasks"
  se_retry :: "Semaphore_t \<times> tasks \<Rightarrow> Semaphore_t \<times> tasks"

definition on_q :: "(Queue_t \<Rightarrow> Queue_t) \<Rightarrow> Semaphore_t \<Rightarrow> Semaphore_t" where
  "on_q f s = s\<lparr>sm_q := f (sm_q s)\<rparr>"

fun xQueueSemaphoreTake_loop ::
  "(nat \<Rightarrow> nat list \<Rightarrow> nat list) \<Rightarrow> nat \<Rightarrow> bool \<Rightarrow> bool \<Rightarrow> sem_env list \<Rightarrow> Semaphore_t \<times> tasks \<Rightarrow>
   q_result \<times> Semaphore_t \<times> tasks" where
  "xQueueSemaphoreTake_loop place me wait inherited [] (s, ts) =
    (if uxMessagesWaiting (sm_q s) > 0 then (pdPASS, sem_take_now me s ts)
     else if \<not> wait then (if inherited then assert_failed else errQUEUE_EMPTY, s, ts)
     else (still_blocked, s, ts))"
| "xQueueSemaphoreTake_loop place me wait inherited (e # es) (s, ts) =
    (if uxMessagesWaiting (sm_q s) > 0 then (pdPASS, sem_take_now me s ts)
     else if \<not> wait then (if inherited then assert_failed else errQUEUE_EMPTY, s, ts)
     else case se_mid e (s, ts) of (s, ts) \<Rightarrow> let s = on_q prvLockQueue s in
       if \<not> se_expired e then
         if prvIsQueueEmpty (sm_q s) then
           (case sem_block place me inherited s ts of (inherited, s, ts) \<Rightarrow>
              xQueueSemaphoreTake_loop place me wait inherited es (se_wake e (on_q prvUnlockQueue s, ts)))
         else xQueueSemaphoreTake_loop place me wait inherited es (se_wake e (on_q prvUnlockQueue s, ts))
       else
         (case se_wake e (on_q prvUnlockQueue s, ts) of (s, ts) \<Rightarrow>
            if prvIsQueueEmpty (sm_q s) then
              (case sem_timeout me inherited s ts of
                 None \<Rightarrow> (assert_failed, s, ts)
               | Some ts \<Rightarrow> (errQUEUE_EMPTY, s, ts))
            else xQueueSemaphoreTake_loop place me wait inherited es (se_retry e (s, ts))))"

definition xQueueSemaphoreTake ::
  "(nat \<Rightarrow> nat list \<Rightarrow> nat list) \<Rightarrow> nat \<Rightarrow> sem_env list \<Rightarrow> Semaphore_t \<Rightarrow> nat \<Rightarrow> tasks \<Rightarrow>
   q_result \<times> Semaphore_t \<times> tasks" where
  "xQueueSemaphoreTake place me env s xTicksToWait ts =
    (if uxItemSize (sm_q s) \<noteq> 0 then (assert_failed, s, ts)
     else xQueueSemaphoreTake_loop place me (xTicksToWait \<noteq> 0) False env (s, ts))"

definition xQueueTakeMutexRecursive ::
  "(nat \<Rightarrow> nat list \<Rightarrow> nat list) \<Rightarrow> nat \<Rightarrow> sem_env list \<Rightarrow> Semaphore_t \<Rightarrow> nat \<Rightarrow> tasks \<Rightarrow>
   q_result \<times> Semaphore_t \<times> tasks" where
  "xQueueTakeMutexRecursive place me env s xTicksToWait ts =
    (if xMutexHolder s = Some me
     then (pdPASS, s\<lparr>uxRecursiveCallCount := uxRecursiveCallCount s + 1\<rparr>, ts)
     else case xQueueSemaphoreTake place me env s xTicksToWait ts of (r, s, ts) \<Rightarrow>
       (r, if r = pdPASS then s\<lparr>uxRecursiveCallCount := uxRecursiveCallCount s + 1\<rparr> else s, ts))"

definition xQueueGiveMutexRecursive :: "nat \<Rightarrow> Semaphore_t \<Rightarrow> tasks \<Rightarrow> q_result \<times> Semaphore_t \<times> tasks" where
  "xQueueGiveMutexRecursive me s ts =
    (if xMutexHolder s = Some me then
       (let s = s\<lparr>uxRecursiveCallCount := uxRecursiveCallCount s - 1\<rparr> in
        if uxRecursiveCallCount s = 0
        then (case sem_give me s ts of (r, s, ts) \<Rightarrow> (if r = assert_failed then r else pdPASS, s, ts))
        else (pdPASS, s, ts))
     else (errQUEUE_EMPTY, s, ts))"

section \<open>Invariants\<close>

definition sem_inv :: "Semaphore_t \<Rightarrow> bool" where
  "sem_inv s \<longleftrightarrow> uxItemSize (sm_q s) = 0 \<and> uxMessagesWaiting (sm_q s) \<le> uxLength (sm_q s) \<and>
     (if sm_is_mutex s then uxLength (sm_q s) = 1 \<and> (xMutexHolder s = None \<longleftrightarrow> uxMessagesWaiting (sm_q s) = 1)
      else xMutexHolder s = None)"

lemma count_kept [simp]:
  "uxMessagesWaiting (prvLockQueue q) = uxMessagesWaiting q"
  "uxMessagesWaiting (prvUnlockQueue q) = uxMessagesWaiting q"
  by (simp_all add: prvLockQueue_def prvUnlockQueue_def Let_def)

lemma sem_inv_on_q [simp]:
  "sem_inv (on_q prvLockQueue s) = sem_inv s" "sem_inv (on_q prvUnlockQueue s) = sem_inv s"
  "sem_inv (s\<lparr>uxRecursiveCallCount := n\<rparr>) = sem_inv s"
  "sem_inv (s\<lparr>sm_q := (sm_q s)\<lparr>xTasksWaitingToReceive := ws\<rparr>\<rparr>) = sem_inv s"
  by (simp_all add: sem_inv_def on_q_def)

lemma give_send:
  assumes "uxItemSize q = 0"
  shows "\<exists>ws. xQueueGenericSend (\<lambda>_ ws. ws) me [] q [] 0 queueSEND_TO_BACK =
    (if uxMessagesWaiting q < uxLength q
     then (pdPASS, q\<lparr>uxMessagesWaiting := uxMessagesWaiting q + 1, xTasksWaitingToReceive := ws\<rparr>)
     else (errQUEUE_FULL, q))"
  using assms
  by (intro exI [of _ "tl (xTasksWaitingToReceive q)"], cases q)
     (simp add: xQueueGenericSend_def q_room_def send_now_def prvCopyDataToQueue_def Let_def)

text \<open>The effect of a give: the count goes up and, for a mutex, the holder returns it.\<close>

lemma sem_give_cases:
  assumes "sem_inv s" "sem_give me s ts = (r, s', ts')"
  obtains (full) "r = errQUEUE_FULL" "s' = s" "ts' = ts" "uxMessagesWaiting (sm_q s) = uxLength (sm_q s)"
  | (wrong) "r = assert_failed" "s' = s" "ts' = ts" "sm_is_mutex s" "xTaskPriorityDisinherit me (xMutexHolder s) ts = None"
  | (given) ws b where "r = pdPASS" "uxMessagesWaiting (sm_q s) < uxLength (sm_q s)"
      "s' = s\<lparr>sm_q := (sm_q s)\<lparr>uxMessagesWaiting := uxMessagesWaiting (sm_q s) + 1, xTasksWaitingToReceive := ws\<rparr>,
        xMutexHolder := None\<rparr>"
      "if sm_is_mutex s then xTaskPriorityDisinherit me (xMutexHolder s) ts = Some (b, ts') else ts' = ts"
proof -
  obtain ws where send: "xQueueGenericSend (\<lambda>_ ws. ws) me [] (sm_q s) [] 0 queueSEND_TO_BACK =
    (if uxMessagesWaiting (sm_q s) < uxLength (sm_q s)
     then (pdPASS, (sm_q s)\<lparr>uxMessagesWaiting := uxMessagesWaiting (sm_q s) + 1, xTasksWaitingToReceive := ws\<rparr>)
     else (errQUEUE_FULL, sm_q s))"
    using give_send [of "sm_q s" me] assms(1) by (auto simp: sem_inv_def)
  have holder: "\<not> sm_is_mutex s \<Longrightarrow> s\<lparr>sm_q := q\<rparr> = s\<lparr>sm_q := q, xMutexHolder := None\<rparr>" for q
    using assms(1) by (cases s) (simp add: sem_inv_def)
  show thesis
    using assms send full wrong given holder
    by (fastforce simp: sem_give_def sem_inv_def split: if_splits option.splits prod.splits)
qed

lemma sem_give_inv:
  assumes "sem_inv s" "sem_give me s ts = (r, s', ts')"
  shows "sem_inv s'" "sm_is_mutex s' = sm_is_mutex s"
  using assms(1)
  by (cases rule: sem_give_cases [OF assms]; auto simp: sem_inv_def)+

lemma sem_take_now_inv:
  assumes "sem_inv s" "uxMessagesWaiting (sm_q s) > 0" "sem_take_now me s ts = (s', ts')"
  shows "sem_inv s'" "sm_is_mutex s' = sm_is_mutex s"
    "uxMessagesWaiting (sm_q s') = uxMessagesWaiting (sm_q s) - 1"
    "xMutexHolder s' = (if sm_is_mutex s then Some me else None)" "uxRecursiveCallCount s' = uxRecursiveCallCount s"
    "ts' = (if sm_is_mutex s then ts(me := (ts me)\<lparr>uxMutexesHeld := uxMutexesHeld (ts me) + 1\<rparr>) else ts)"
  using assms
  by (auto simp: sem_take_now_def Let_def pvTaskIncrementMutexHeldCount_def sem_inv_def split: if_splits)

text \<open>A take that waits, among tasks that keep the semaphore sound: when it succeeds on a mutex, the
  caller is the holder.\<close>

definition sem_keeps :: "(Semaphore_t \<times> tasks \<Rightarrow> Semaphore_t \<times> tasks) \<Rightarrow> bool" where
  "sem_keeps f \<longleftrightarrow> (\<forall>s ts. sem_inv s \<longrightarrow> sem_inv (fst (f (s, ts))) \<and> sm_is_mutex (fst (f (s, ts))) = sm_is_mutex s)"

definition sem_env_keeps :: "sem_env \<Rightarrow> bool" where
  "sem_env_keeps e \<longleftrightarrow> sem_keeps (se_mid e) \<and> sem_keeps (se_wake e) \<and> sem_keeps (se_retry e)"

lemma sem_block_inv:
  "sem_inv s \<Longrightarrow> sem_block place me b s ts = (b', s', ts') \<Longrightarrow> sem_inv s' \<and> sm_is_mutex s' = sm_is_mutex s"
  by (auto simp: sem_block_def case_prod_beta Let_def)

lemma on_q_mutex [simp]: "sm_is_mutex (on_q f s) = sm_is_mutex s"
  by (simp add: on_q_def)

lemma sem_keepsD:
  "sem_keeps f \<Longrightarrow> sem_inv s \<Longrightarrow> f (s, ts) = (s', ts') \<Longrightarrow> sem_inv s' \<and> sm_is_mutex s' = sm_is_mutex s"
  unfolding sem_keeps_def by (metis fst_conv)

lemma take_now_safe:
  assumes "sem_take_now me s ts = (s', ts')" "sem_inv s" "0 < uxMessagesWaiting (sm_q s)"
  shows "sem_inv s' \<and> (sm_is_mutex s \<longrightarrow> xMutexHolder s' = Some me)"
  using sem_take_now_inv(1,4) [OF assms(2,3,1)] by simp

lemma take_loop_safe:
  assumes "\<forall>e\<in>set es. sem_env_keeps e" "sem_inv s"
    and "xQueueSemaphoreTake_loop place me wait b es (s, ts) = (r, s', ts')"
  shows "sem_inv s' \<and> (r = pdPASS \<and> sm_is_mutex s \<longrightarrow> xMutexHolder s' = Some me)"
  using assms
proof (induction es arbitrary: b s ts)
  case Nil
  then show ?case
    by (cases "sem_take_now me s ts") (auto split: if_splits dest!: take_now_safe)
next
  case (Cons e es)
  show ?case
  proof (cases "0 < uxMessagesWaiting (sm_q s) \<or> \<not> wait")
    case True
    then show ?thesis
      using Cons.prems by (cases "sem_take_now me s ts") (auto split: if_splits dest!: take_now_safe)
  next
    case False
    have e: "sem_keeps (se_mid e)" "sem_keeps (se_wake e)" "sem_keeps (se_retry e)"
      using Cons.prems(1) by (simp_all add: sem_env_keeps_def)
    obtain s1 ts1 where mid: "se_mid e (s, ts) = (s1, ts1)" by fastforce
    let ?s = "on_q prvLockQueue s1"
    have s: "sem_inv ?s" "sm_is_mutex ?s = sm_is_mutex s"
      using sem_keepsD [OF e(1) Cons.prems(2) mid] by simp_all
    have go: ?thesis if "sem_inv s2" "sm_is_mutex s2 = sm_is_mutex s" "sem_keeps f"
      "xQueueSemaphoreTake_loop place me wait b' es (f (s2, ts2)) = (r, s', ts')" for b' s2 ts2 f
      using Cons.IH [of "fst (f (s2, ts2))" b' "snd (f (s2, ts2))"] that Cons.prems(1) by (simp add: sem_keeps_def)
    obtain b2 s2 ts2 where blk: "sem_block place me b ?s ts1 = (b2, s2, ts2)" by (metis prod_cases3)
    obtain s3 ts3 where wake: "se_wake e (on_q prvUnlockQueue ?s, ts1) = (s3, ts3)" by fastforce
    have s3: "sem_inv s3" "sm_is_mutex s3 = sm_is_mutex s"
      using sem_keepsD [OF e(2) _ wake] s by simp_all
    consider "\<not> se_expired e" "prvIsQueueEmpty (sm_q ?s)" | "\<not> se_expired e" "\<not> prvIsQueueEmpty (sm_q ?s)"
      | "se_expired e" "prvIsQueueEmpty (sm_q s3)" | "se_expired e" "\<not> prvIsQueueEmpty (sm_q s3)" by blast
    then show ?thesis
    proof cases
      case 1
      then show ?thesis
        using go [OF _ _ e(2), of "on_q prvUnlockQueue s2" b2 ts2] sem_block_inv [OF s(1) blk] s(2) Cons.prems(3) False mid blk
        by (simp add: Let_def)
    next
      case 2
      then show ?thesis
        using go [OF _ _ e(2), of "on_q prvUnlockQueue ?s" b ts1] s Cons.prems(3) False mid by (simp add: Let_def)
    next
      case 3
      then show ?thesis using s3 Cons.prems(3) False mid wake by (auto simp: Let_def split: option.splits)
    next
      case 4
      then show ?thesis
        using go [OF s3 e(3), of b ts3] Cons.prems(3) False mid wake by (simp add: Let_def)
    qed
  qed
qed

section \<open>Mutexes and the priorities of their holders\<close>

text \<open>The semaphores and mutexes of a system and its tasks.\<close>

record kernel =
  k_sems :: "Semaphore_t list"
  k_tasks :: tasks

definition k_set :: "nat \<Rightarrow> Semaphore_t \<Rightarrow> tasks \<Rightarrow> kernel \<Rightarrow> kernel" where
  "k_set i s ts k = k\<lparr>k_sems := (k_sems k)[i := s], k_tasks := ts\<rparr>"

text \<open>
  The critical sections of the calls, by any task on any semaphore. A task that times out has been
  removed from the list of waiting tasks by the scheduler.
\<close>

inductive mutex_step :: "kernel \<Rightarrow> kernel \<Rightarrow> bool" where
  take: "i < length (k_sems k) \<Longrightarrow> uxMessagesWaiting (sm_q (k_sems k ! i)) > 0 \<Longrightarrow>
    sem_take_now t (k_sems k ! i) (k_tasks k) = (s, ts) \<Longrightarrow> mutex_step k (k_set i s ts k)"
| block: "i < length (k_sems k) \<Longrightarrow> uxMessagesWaiting (sm_q (k_sems k ! i)) = 0 \<Longrightarrow>
    sem_block place t inherited (k_sems k ! i) (k_tasks k) = (inherited', s, ts) \<Longrightarrow> mutex_step k (k_set i s ts k)"
| timeout: "i < length (k_sems k) \<Longrightarrow> uxMessagesWaiting (sm_q (k_sems k ! i)) = 0 \<Longrightarrow>
    s = on_q (\<lambda>q. q\<lparr>xTasksWaitingToReceive := remove1 t (xTasksWaitingToReceive q)\<rparr>) (k_sems k ! i) \<Longrightarrow>
    sem_timeout t inherited s (k_tasks k) = Some ts \<Longrightarrow> mutex_step k (k_set i s ts k)"
| give: "i < length (k_sems k) \<Longrightarrow> sem_give t (k_sems k ! i) (k_tasks k) = (r, s, ts) \<Longrightarrow>
    mutex_step k (k_set i s ts k)"

definition held_count :: "Semaphore_t list \<Rightarrow> nat \<Rightarrow> nat" where
  "held_count ms t = length (filter (\<lambda>m. xMutexHolder m = Some t) ms)"

definition kernel_inv :: "kernel \<Rightarrow> bool" where
  "kernel_inv k \<longleftrightarrow> (\<forall>s\<in>set (k_sems k). sem_inv s) \<and>
     (\<forall>t. uxMutexesHeld (k_tasks k t) = held_count (k_sems k) t \<and>
        uxBasePriority (k_tasks k t) \<le> uxPriority (k_tasks k t) \<and>
        (uxMutexesHeld (k_tasks k t) = 0 \<longrightarrow> uxPriority (k_tasks k t) = uxBasePriority (k_tasks k t)))"

lemma held_count_update:
  "i < length ms \<Longrightarrow> held_count (ms[i := s]) t + (if xMutexHolder (ms ! i) = Some t then 1 else 0) =
    held_count ms t + (if xMutexHolder s = Some t then 1 else 0)"
proof (induction ms arbitrary: i)
  case (Cons m ms)
  then show ?case by (cases i) (auto simp: held_count_def)
qed simp

text \<open>Replacing one semaphore: what has to be shown of the tasks.\<close>

lemma kernel_inv_set:
  assumes "kernel_inv k" "i < length (k_sems k)" "sem_inv s"
    and "\<And>t. uxMutexesHeld (ts t) + (if xMutexHolder (k_sems k ! i) = Some t then 1 else 0) =
        uxMutexesHeld (k_tasks k t) + (if xMutexHolder s = Some t then 1 else 0)"
    and "\<And>t. uxBasePriority (ts t) \<le> uxPriority (ts t)"
    and "\<And>t. uxMutexesHeld (ts t) = 0 \<Longrightarrow> uxPriority (ts t) = uxBasePriority (ts t)"
  shows "kernel_inv (k_set i s ts k)"
proof -
  have "uxMutexesHeld (ts t) = held_count ((k_sems k)[i := s]) t" for t
    using held_count_update [OF assms(2), of s t] assms(1) assms(4) [of t] by (simp add: kernel_inv_def)
  then show ?thesis
    using assms set_update_subset_insert [of "k_sems k" i s]
    by (auto simp: kernel_inv_def k_set_def)
qed

lemma kernel_take:
  assumes "kernel_inv k" "i < length (k_sems k)" "uxMessagesWaiting (sm_q (k_sems k ! i)) > 0"
    "sem_take_now t (k_sems k ! i) (k_tasks k) = (s, ts)"
  shows "kernel_inv (k_set i s ts k)"
proof -
  have inv: "sem_inv (k_sems k ! i)" using assms(1,2) by (simp add: kernel_inv_def)
  note st = sem_take_now_inv [OF inv assms(3,4)]
  have free: "xMutexHolder (k_sems k ! i) = None"
    using inv assms(3) by (auto simp: sem_inv_def split: if_splits)
  show ?thesis
    by (rule kernel_inv_set [OF assms(1,2) st(1)])
       (use st free assms(1) in \<open>auto simp: kernel_inv_def\<close>)
qed

text \<open>Waiting changes at most the priorities of tasks that hold a mutex.\<close>

lemma kernel_waits:
  assumes "kernel_inv k" "i < length (k_sems k)" "sem_inv s" "xMutexHolder s = xMutexHolder (k_sems k ! i)"
    and ts: "\<And>u. uxMutexesHeld (ts u) = uxMutexesHeld (k_tasks k u) \<and> uxBasePriority (ts u) = uxBasePriority (k_tasks k u) \<and>
      (uxPriority (ts u) = uxPriority (k_tasks k u) \<or>
       uxMutexesHeld (k_tasks k u) \<noteq> 0 \<and> uxBasePriority (k_tasks k u) \<le> uxPriority (ts u))"
  shows "kernel_inv (k_set i s ts k)"
proof (rule kernel_inv_set [OF assms(1-3)])
  fix u
  note k = assms(1) [unfolded kernel_inv_def]
  show "uxMutexesHeld (ts u) + (if xMutexHolder (k_sems k ! i) = Some u then 1 else 0) =
      uxMutexesHeld (k_tasks k u) + (if xMutexHolder s = Some u then 1 else 0)"
    using ts [of u] assms(4) by simp
  show "uxBasePriority (ts u) \<le> uxPriority (ts u)" using ts [of u] k by auto
  show "uxMutexesHeld (ts u) = 0 \<Longrightarrow> uxPriority (ts u) = uxBasePriority (ts u)"
    using ts [of u] k by auto
qed

lemma kernel_block:
  assumes "kernel_inv k" "i < length (k_sems k)"
    "sem_block place t b (k_sems k ! i) (k_tasks k) = (b', s, ts)"
  shows "kernel_inv (k_set i s ts k)"
proof -
  have inv: "sem_inv (k_sems k ! i)" using assms(1,2) by (simp add: kernel_inv_def)
  have s: "sem_inv s" "xMutexHolder s = xMutexHolder (k_sems k ! i)"
    using assms(3) inv by (auto simp: sem_block_def case_prod_beta Let_def)
  have pos: "uxMutexesHeld (k_tasks k h) \<noteq> 0" if "xMutexHolder (k_sems k ! i) = Some h" for h
    using that assms(1,2) by (auto simp: kernel_inv_def held_count_def filter_empty_conv)
  have base: "uxBasePriority (k_tasks k h) \<le> uxPriority (k_tasks k h)" for h
    using assms(1) by (simp add: kernel_inv_def)
  show ?thesis
    by (rule kernel_waits [OF assms(1,2) s])
       (use assms(3) pos in \<open>auto simp: sem_block_def case_prod_beta Let_def xTaskPriorityInherit_def
          split: if_splits option.splits intro: order_trans [OF base less_imp_le]\<close>)
qed

lemma kernel_timeout:
  assumes "kernel_inv k" "i < length (k_sems k)"
    "s = on_q (\<lambda>q. q\<lparr>xTasksWaitingToReceive := remove1 t (xTasksWaitingToReceive q)\<rparr>) (k_sems k ! i)"
    "sem_timeout t b s (k_tasks k) = Some ts"
  shows "kernel_inv (k_set i s ts k)"
proof -
  have inv: "sem_inv (k_sems k ! i)" using assms(1,2) by (simp add: kernel_inv_def)
  have s: "sem_inv s" "xMutexHolder s = xMutexHolder (k_sems k ! i)"
    using assms(3) inv by (simp_all add: on_q_def)
  show ?thesis
    by (rule kernel_waits [OF assms(1,2) s])
       (use assms(4) in \<open>auto simp: sem_timeout_def vTaskPriorityDisinheritAfterTimeout_def Let_def
          split: if_splits option.splits\<close>)
qed

lemma kernel_give:
  assumes "kernel_inv k" "i < length (k_sems k)" "sem_give t (k_sems k ! i) (k_tasks k) = (r, s, ts)"
  shows "kernel_inv (k_set i s ts k)"
proof -
  have inv: "sem_inv (k_sems k ! i)" using assms(1,2) by (simp add: kernel_inv_def)
  have same: "kernel_inv (k_set i (k_sems k ! i) (k_tasks k) k)"
    using assms(1) by (simp add: k_set_def)
  from inv assms(3) show ?thesis
  proof (cases rule: sem_give_cases)
    case (given ws b)
    note ok = sem_give_inv(1) [OF inv assms(3)]
    have ts: "if xMutexHolder (k_sems k ! i) = Some u
        then uxMutexesHeld (ts u) + 1 = uxMutexesHeld (k_tasks k u) \<and> uxBasePriority (ts u) \<le> uxPriority (ts u) \<and>
          (uxMutexesHeld (ts u) = 0 \<longrightarrow> uxPriority (ts u) = uxBasePriority (ts u))
        else ts u = k_tasks k u" for u
      using given(4) inv assms(1)
      by (auto simp: sem_inv_def kernel_inv_def xTaskPriorityDisinherit_def Let_def split: if_splits option.splits)
    show ?thesis
    proof (rule kernel_inv_set [OF assms(1,2) ok])
      show "uxMutexesHeld (ts u) + (if xMutexHolder (k_sems k ! i) = Some u then 1 else 0) =
          uxMutexesHeld (k_tasks k u) + (if xMutexHolder s = Some u then 1 else 0)" for u
        using ts [of u] given(3) by (simp split: if_splits)
      show "uxBasePriority (ts u) \<le> uxPriority (ts u)" for u
        using ts [of u] assms(1) by (simp add: kernel_inv_def split: if_splits)
      show "uxPriority (ts u) = uxBasePriority (ts u)" if "uxMutexesHeld (ts u) = 0" for u
        using ts [of u] that assms(1) by (simp add: kernel_inv_def split: if_splits)
    qed
  qed (use same in simp_all)
qed

lemma mutex_step_inv: "mutex_step k k' \<Longrightarrow> kernel_inv k \<Longrightarrow> kernel_inv k'"
  by (induction rule: mutex_step.induct)
     (blast intro: kernel_take kernel_block kernel_timeout kernel_give)+

lemma create_semaphore_queue:
  assumes "xQueueGenericCreate sz_q malloc len 0 = Created q"
  shows "0 < len" "uxItemSize q = 0" "uxLength q = len" "uxMessagesWaiting q = 0"
  using assms
  by (auto simp: xQueueGenericCreate_def Let_def prvInitialiseNewQueue_def xQueueGenericReset_def
      split: if_splits option.splits)

lemma create_mutex:
  assumes "xQueueCreateMutex sz_q malloc me ts = SemCreated s"
  shows "sem_inv s" "sm_is_mutex s" "xMutexHolder s = None" "uxRecursiveCallCount s = 0"
proof -
  obtain q where q: "xQueueGenericCreate sz_q malloc 1 0 = Created q" "s = prvInitialiseMutex me ts q"
    using assms by (auto simp: xQueueCreateMutex_def split: create_result.splits)
  note c = create_semaphore_queue [OF q(1)]
  obtain ws where "xQueueGenericSend (\<lambda>_ ws. ws) me [] q [] 0 queueSEND_TO_BACK =
      (pdPASS, q\<lparr>uxMessagesWaiting := 1, xTasksWaitingToReceive := ws\<rparr>)"
    using give_send [of q me] c by auto
  then have "s = semaphore_of True (q\<lparr>uxMessagesWaiting := 1, xTasksWaitingToReceive := ws\<rparr>)"
    using q(2) by (simp add: prvInitialiseMutex_def sem_give_def semaphore_of_def xTaskPriorityDisinherit_def)
  then show "sem_inv s" "sm_is_mutex s" "xMutexHolder s = None" "uxRecursiveCallCount s = 0"
    using c by (simp_all add: semaphore_of_def sem_inv_def)
qed

lemma create_counting:
  assumes "xQueueCreateCountingSemaphore sz_q malloc maxc n = SemCreated s"
  shows "sem_inv s" "xMutexHolder s = None"
  using assms create_semaphore_queue [of sz_q malloc maxc]
  by (auto simp: xQueueCreateCountingSemaphore_def semaphore_of_def sem_inv_def
      split: if_splits create_result.splits)

text \<open>A system with new semaphores and mutexes, and tasks that hold none.\<close>

definition kernel_started :: "kernel \<Rightarrow> bool" where
  "kernel_started k \<longleftrightarrow>
     (\<forall>s\<in>set (k_sems k). (\<exists>sz_q malloc me ts. xQueueCreateMutex sz_q malloc me ts = SemCreated s) \<or>
        (\<exists>sz_q malloc maxc n. xQueueCreateCountingSemaphore sz_q malloc maxc n = SemCreated s)) \<and>
     (\<forall>t. uxMutexesHeld (k_tasks k t) = 0 \<and> uxPriority (k_tasks k t) = uxBasePriority (k_tasks k t))"

lemma kernel_reachable_inv:
  assumes "kernel_started k" "mutex_step\<^sup>*\<^sup>* k k'"
  shows "kernel_inv k'"
  using assms(2)
proof (induction rule: rtranclp_induct)
  case base
  have "sem_inv s" "xMutexHolder s = None" if "s \<in> set (k_sems k)" for s
    using assms(1) that create_mutex(1,3) create_counting by (auto simp: kernel_started_def)
  then show ?case
    using assms(1) by (auto simp: kernel_inv_def kernel_started_def held_count_def filter_empty_conv)
qed (use mutex_step_inv in blast)

section \<open>Lending a priority for the time of the wait\<close>

text \<open>The place of a task in an event list: behind those of at least its priority.\<close>

fun vListInsert :: "tasks \<Rightarrow> nat \<Rightarrow> nat list \<Rightarrow> nat list" where
  "vListInsert ts t [] = [t]"
| "vListInsert ts t (w # ws) = (if ev_prio (ts t) \<le> ev_prio (ts w) then w # vListInsert ts t ws else t # w # ws)"

definition sem_waiters :: "Semaphore_t \<Rightarrow> nat list" where
  "sem_waiters s = xTasksWaitingToReceive (sm_q s)"

definition is_waiting :: "kernel \<Rightarrow> nat \<Rightarrow> bool" where
  "is_waiting k t \<longleftrightarrow> (\<exists>s\<in>set (k_sems k). t \<in> set (sem_waiters s))"

definition holds_none :: "kernel \<Rightarrow> nat \<Rightarrow> bool" where
  "holds_none k t \<longleftrightarrow> (\<forall>s\<in>set (k_sems k). xMutexHolder s \<noteq> Some t)"

text \<open>
  Orderly tasks: one that waits does nothing else, and one that waits for a mutex holds none. Waiting tasks are
  listed by \<^verbatim>\<open>vListInsert\<close>. Other use is not covered by the bound below: the lists are not sorted again when
  the priority of a waiting task changes.
\<close>

definition blocks_on :: "nat \<Rightarrow> nat \<Rightarrow> kernel \<Rightarrow> kernel \<Rightarrow> bool" where
  "blocks_on t i k k' \<longleftrightarrow> i < length (k_sems k) \<and> \<not> is_waiting k t \<and> (sm_is_mutex (k_sems k ! i) \<longrightarrow> holds_none k t) \<and>
     uxMessagesWaiting (sm_q (k_sems k ! i)) = 0 \<and>
     (\<exists>b b' s ts. sem_block (vListInsert (k_tasks k)) t b (k_sems k ! i) (k_tasks k) = (b', s, ts) \<and> k' = k_set i s ts k)"

inductive orderly_step :: "kernel \<Rightarrow> kernel \<Rightarrow> bool" where
  take: "i < length (k_sems k) \<Longrightarrow> \<not> is_waiting k t \<Longrightarrow> uxMessagesWaiting (sm_q (k_sems k ! i)) > 0 \<Longrightarrow>
    sem_take_now t (k_sems k ! i) (k_tasks k) = (s, ts) \<Longrightarrow> orderly_step k (k_set i s ts k)"
| block: "blocks_on t i k k' \<Longrightarrow> orderly_step k k'"
| timeout: "i < length (k_sems k) \<Longrightarrow> \<forall>j < length (k_sems k). j \<noteq> i \<longrightarrow> t \<notin> set (sem_waiters (k_sems k ! j)) \<Longrightarrow>
    uxMessagesWaiting (sm_q (k_sems k ! i)) = 0 \<Longrightarrow>
    s = on_q (\<lambda>q. q\<lparr>xTasksWaitingToReceive := remove1 t (xTasksWaitingToReceive q)\<rparr>) (k_sems k ! i) \<Longrightarrow>
    sem_timeout t inherited s (k_tasks k) = Some ts \<Longrightarrow> orderly_step k (k_set i s ts k)"
| give: "i < length (k_sems k) \<Longrightarrow> \<not> is_waiting k t \<Longrightarrow> sem_give t (k_sems k ! i) (k_tasks k) = (r, s, ts) \<Longrightarrow>
    orderly_step k (k_set i s ts k)"

lemma orderly_is_mutex_step: "orderly_step k k' \<Longrightarrow> mutex_step k k'"
proof (induction rule: orderly_step.induct)
  case (block t i k k')
  then obtain b b' s ts where "sem_block (vListInsert (k_tasks k)) t b (k_sems k ! i) (k_tasks k) = (b', s, ts)"
    "k' = k_set i s ts k" by (auto simp: blocks_on_def split: prod.splits)
  with block show ?case using mutex_step.block [of i k] by (auto simp: blocks_on_def)
qed (blast intro: mutex_step.intros)+

text \<open>Tasks whose places in event lists follow their priorities; no event group uses the places.\<close>

definition listed :: "tasks \<Rightarrow> bool" where
  "listed ts \<longleftrightarrow> (\<forall>t. ev_prio (ts t) = uxPriority (ts t) \<and> \<not> ev_in_use (ts t))"

definition by_priority :: "tasks \<Rightarrow> nat list \<Rightarrow> bool" where
  "by_priority ts ws \<longleftrightarrow> sorted_wrt (\<lambda>a b. uxBasePriority (ts b) \<le> uxBasePriority (ts a)) ws"

definition orderly_inv :: "kernel \<Rightarrow> bool" where
  "orderly_inv k \<longleftrightarrow> kernel_inv k \<and> listed (k_tasks k) \<and>
     (\<forall>s\<in>set (k_sems k). sm_is_mutex s \<longrightarrow> by_priority (k_tasks k) (sem_waiters s) \<and> (\<forall>t\<in>set (sem_waiters s). holds_none k t))"

lemma holds_none_base:
  assumes "kernel_inv k" "holds_none k t"
  shows "uxPriority (k_tasks k t) = uxBasePriority (k_tasks k t)"
proof -
  have "uxMutexesHeld (k_tasks k t) = 0"
    using assms by (auto simp: kernel_inv_def holds_none_def held_count_def filter_empty_conv)
  with assms(1) show ?thesis by (simp add: kernel_inv_def)
qed

lemma set_vListInsert [simp]: "set (vListInsert ts t ws) = insert t (set ws)"
  by (induction ws) auto

lemma vListInsert_by_priority:
  assumes "\<And>w. w \<in> insert t (set ws) \<Longrightarrow> ev_prio (ts w) = uxBasePriority (ts w)" "by_priority ts ws"
  shows "by_priority ts (vListInsert ts t ws)"
  using assms by (induction ws) (auto simp: by_priority_def)

lemma by_priority_cong:
  "(\<And>t. uxBasePriority (ts' t) = uxBasePriority (ts t)) \<Longrightarrow> by_priority ts' ws = by_priority ts ws"
  by (simp add: by_priority_def)

lemma by_priority_smaller:
  assumes "by_priority ts ws"
  shows "by_priority ts (tl ws)" "by_priority ts (remove1 t ws)"
proof -
  show "by_priority ts (tl ws)" using assms by (cases ws) (auto simp: by_priority_def)
  show "by_priority ts (remove1 t ws)"
    using assms by (induction ws) (auto simp: by_priority_def dest: in_set_remove1 notin_set_remove1)
qed

text \<open>What has to be shown of a semaphore that replaces another.\<close>

lemma orderly_inv_set:
  assumes k: "orderly_inv k" "i < length (k_sems k)" and "kernel_inv (k_set i s ts k)"
    and ts: "\<And>u. ev_prio (ts u) = uxPriority (ts u) \<and> \<not> ev_in_use (ts u) \<and>
      uxBasePriority (ts u) = uxBasePriority (k_tasks k u)"
    and ws: "sm_is_mutex s \<Longrightarrow> by_priority (k_tasks k) (sem_waiters s)"
      "\<And>t. sm_is_mutex s \<Longrightarrow> t \<in> set (sem_waiters s) \<Longrightarrow> holds_none k t"
    and h: "\<And>t. xMutexHolder s = Some t \<Longrightarrow>
      xMutexHolder (k_sems k ! i) = Some t \<or> \<not> is_waiting k t \<and> t \<notin> set (sem_waiters s)"
  shows "orderly_inv (k_set i s ts k)"
proof -
  have in_set: "m = s \<or> m \<in> set (k_sems k)" if "m \<in> set ((k_sems k)[i := s])" for m
    using that set_update_subset_insert by fast
  have none: "holds_none (k_set i s ts k) t" if "holds_none k t" "is_waiting k t \<or> t \<in> set (sem_waiters s)" for t
    using that k(2) h [of t] in_set unfolding holds_none_def k_set_def by (metis kernel.select_convs(1) kernel.surjective
      kernel.update_convs(1) kernel.update_convs(2) nth_mem)
  have "by_priority ts (sem_waiters m) \<and> (\<forall>t\<in>set (sem_waiters m). holds_none (k_set i s ts k) t)"
    if m: "m \<in> set ((k_sems k)[i := s])" "sm_is_mutex m" for m
    using in_set [OF m(1)]
  proof
    assume "m = s"
    with m(2) ws none show ?thesis by (simp add: by_priority_cong [of ts "k_tasks k"] ts)
  next
    assume "m \<in> set (k_sems k)"
    with k(1) m(2) none show ?thesis
      by (auto simp: by_priority_cong [of ts "k_tasks k"] ts orderly_inv_def is_waiting_def)
  qed
  with assms(3) ts show ?thesis by (auto simp: orderly_inv_def listed_def k_set_def)
qed

lemma give_waiters:
  assumes "uxItemSize (sm_q s) = 0" "sem_give me s ts = (r, s', ts')"
  shows "sem_waiters s' = sem_waiters s \<or> sem_waiters s' = tl (sem_waiters s)"
proof -
  have "xTasksWaitingToReceive (snd (xQueueGenericSend (\<lambda>_ ws. ws) me [] (sm_q s) [] 0 queueSEND_TO_BACK)) \<in>
      {sem_waiters s, tl (sem_waiters s)}"
    using assms(1) by (cases "sm_q s")
       (simp add: xQueueGenericSend_def q_room_def send_now_def prvCopyDataToQueue_def Let_def sem_waiters_def)
  then show ?thesis
    using assms(2) by (auto simp: sem_give_def sem_waiters_def split: prod.splits if_splits option.splits)
qed

lemma take_waiters: "sem_take_now me s ts = (s', ts') \<Longrightarrow> sem_waiters s' = sem_waiters s"
  by (auto simp: sem_take_now_def Let_def sem_waiters_def pvTaskIncrementMutexHeldCount_def split: if_splits)

text \<open>What each step does to tasks that are listed by their priorities.\<close>

lemma inherit_tasks:
  assumes "sem_block place me b s ts = (b', s', ts')" "listed ts"
  shows "listed ts'" "uxBasePriority (ts' u) = uxBasePriority (ts u)"
    "uxPriority (ts' u) = (if sm_is_mutex s \<and> xMutexHolder s = Some u then max (uxPriority (ts u)) (uxPriority (ts me))
       else uxPriority (ts u))"
  using assms
  by (auto simp: sem_block_def xTaskPriorityInherit_def Let_def listed_def split: if_splits option.splits)

lemma timeout_tasks:
  assumes "sem_timeout me b s ts = Some ts'" "listed ts"
  shows "listed ts'" "uxBasePriority (ts' u) = uxBasePriority (ts u)"
    "uxPriority (ts' u) = uxPriority (ts u) \<or> xMutexHolder s = Some u \<and> uxMutexesHeld (ts u) = 1 \<and>
      uxPriority (ts' u) = max (uxBasePriority (ts u)) (prvGetDisinheritPriorityAfterTimeout (sm_q s) ts)"
  using assms
  by (auto simp: sem_timeout_def vTaskPriorityDisinheritAfterTimeout_def Let_def listed_def
      split: if_splits option.splits)

lemma give_tasks:
  assumes "sem_inv s" "sem_give me s ts = (r, s', ts')" "listed ts"
  shows "listed ts'" "uxBasePriority (ts' u) = uxBasePriority (ts u)"
    "uxPriority (ts' u) = uxPriority (ts u) \<or> sm_is_mutex s \<and> xMutexHolder s = Some u \<and> uxMutexesHeld (ts u) = 1"
    "xMutexHolder s' = None \<or> s' = s"
  using assms(3)
  by (cases rule: sem_give_cases [OF assms(1,2)];
      auto simp: xTaskPriorityDisinherit_def Let_def listed_def split: if_splits option.splits)+

lemma orderlyD:
  assumes "orderly_inv k"
  shows "kernel_inv k" "listed (k_tasks k)"
    "i < length (k_sems k) \<Longrightarrow> sem_inv (k_sems k ! i)"
    "i < length (k_sems k) \<Longrightarrow> sm_is_mutex (k_sems k ! i) \<Longrightarrow> by_priority (k_tasks k) (sem_waiters (k_sems k ! i))"
    "i < length (k_sems k) \<Longrightarrow> sm_is_mutex (k_sems k ! i) \<Longrightarrow> t \<in> set (sem_waiters (k_sems k ! i)) \<Longrightarrow> holds_none k t"
  using assms by (auto simp: orderly_inv_def kernel_inv_def)

lemma waiter_listed:
  assumes "orderly_inv k" "holds_none k t"
  shows "ev_prio (k_tasks k t) = uxBasePriority (k_tasks k t)"
  using orderlyD(1,2) [OF assms(1)] holds_none_base [OF _ assms(2)] by (simp add: listed_def)

lemma orderly_step_inv: "orderly_step k k' \<Longrightarrow> orderly_inv k \<Longrightarrow> orderly_inv k'"
proof (induction rule: orderly_step.induct)
  case (take i k t s ts)
  note D = orderlyD [OF take.prems] and eff = sem_take_now_inv [OF orderlyD(3) [OF take.prems take(1)] take(3,4)]
  have w: "sem_waiters s = sem_waiters (k_sems k ! i)" by (rule take_waiters [OF take(4)])
  show ?case
  proof (rule orderly_inv_set [OF take.prems take(1) kernel_take [OF D(1) take(1,3,4)]])
    show "ev_prio (ts u) = uxPriority (ts u) \<and> \<not> ev_in_use (ts u) \<and> uxBasePriority (ts u) = uxBasePriority (k_tasks k u)" for u
      using D(2) eff(6) by (simp add: listed_def)
    show "xMutexHolder s = Some u \<Longrightarrow> xMutexHolder (k_sems k ! i) = Some u \<or> \<not> is_waiting k u \<and> u \<notin> set (sem_waiters s)" for u
      using eff(4) take(1,2) w by (auto simp: is_waiting_def split: if_splits)
  qed (use D(4,5) [OF take(1)] w eff(2) in simp_all)
next
  case (block t i k k')
  then obtain b b' s ts where b: "i < length (k_sems k)" "sm_is_mutex (k_sems k ! i) \<Longrightarrow> holds_none k t"
      "sem_block (vListInsert (k_tasks k)) t b (k_sems k ! i) (k_tasks k) = (b', s, ts)" "k' = k_set i s ts k"
    by (auto simp: blocks_on_def)
  note D = orderlyD [OF block.prems] and eff = inherit_tasks [OF b(3) orderlyD(2) [OF block.prems]]
  have s: "sem_waiters s = vListInsert (k_tasks k) t (sem_waiters (k_sems k ! i))" "sm_is_mutex s = sm_is_mutex (k_sems k ! i)"
      "xMutexHolder s = xMutexHolder (k_sems k ! i)"
    using b(3) by (auto simp: sem_block_def Let_def sem_waiters_def split: prod.splits)
  have none: "holds_none k u" if "sm_is_mutex (k_sems k ! i)" "u \<in> insert t (set (sem_waiters (k_sems k ! i)))" for u
    using that b(2) D(5) [OF b(1)] by auto
  show ?case unfolding b(4)
  proof (rule orderly_inv_set [OF block.prems b(1) kernel_block [OF D(1) b(1,3)]])
    show "ev_prio (ts u) = uxPriority (ts u) \<and> \<not> ev_in_use (ts u) \<and> uxBasePriority (ts u) = uxBasePriority (k_tasks k u)" for u
      using eff(1,2) by (simp add: listed_def)
    show "by_priority (k_tasks k) (sem_waiters s)" if "sm_is_mutex s"
      using vListInsert_by_priority [OF waiter_listed [OF block.prems none] D(4) [OF b(1)]] s that by simp
  qed (use none s in auto)
next
  case (timeout i k t s inherited ts)
  note D = orderlyD [OF timeout.prems] and eff = timeout_tasks [OF timeout(5) orderlyD(2) [OF timeout.prems]]
  have s: "sem_waiters s = remove1 t (sem_waiters (k_sems k ! i))" "sm_is_mutex s = sm_is_mutex (k_sems k ! i)"
      "xMutexHolder s = xMutexHolder (k_sems k ! i)"
    using timeout(4) by (simp_all add: on_q_def sem_waiters_def)
  show ?case
  proof (rule orderly_inv_set [OF timeout.prems timeout(1) kernel_timeout [OF D(1) timeout(1,4,5)]])
    show "ev_prio (ts u) = uxPriority (ts u) \<and> \<not> ev_in_use (ts u) \<and> uxBasePriority (ts u) = uxBasePriority (k_tasks k u)" for u
      using eff(1,2) by (simp add: listed_def)
  qed (use s D(4,5) [OF timeout(1)] by_priority_smaller(2) in \<open>auto dest: set_remove1_subset [THEN subsetD]\<close>)
next
  case (give i k t r s ts)
  note D = orderlyD [OF give.prems]
  note eff = give_tasks [OF D(3) [OF give(1)] give(3) D(2)]
  have w: "sem_waiters s = sem_waiters (k_sems k ! i) \<or> sem_waiters s = tl (sem_waiters (k_sems k ! i))"
    using give_waiters [OF _ give(3)] D(3) [OF give(1)] by (simp add: sem_inv_def)
  then have sub: "set (sem_waiters s) \<subseteq> set (sem_waiters (k_sems k ! i))"
    by (metis list.set_sel(2) list.sel(2) subsetI)
  show ?case
  proof (rule orderly_inv_set [OF give.prems give(1) kernel_give [OF D(1) give(1,3)]])
    show "ev_prio (ts u) = uxPriority (ts u) \<and> \<not> ev_in_use (ts u) \<and> uxBasePriority (ts u) = uxBasePriority (k_tasks k u)" for u
      using eff(1,2) by (simp add: listed_def)
    show "by_priority (k_tasks k) (sem_waiters s)" if "sm_is_mutex s"
      using that w D(4) [OF give(1)] by_priority_smaller(1) sem_give_inv(2) [OF D(3) [OF give(1)] give(3)] by metis
    show "holds_none k u" if "sm_is_mutex s" "u \<in> set (sem_waiters s)" for u
      using that sub D(5) [OF give(1)] sem_give_inv(2) [OF D(3) [OF give(1)] give(3)] by blast
  qed (use eff(4) in auto)
qed

lemma held_two:
  assumes "i < length ms" "j < length ms" "i \<noteq> j" "xMutexHolder (ms ! i) = Some h" "xMutexHolder (ms ! j) = Some h"
  shows "held_count ms h \<noteq> 1"
proof -
  let ?ms = "ms[j := (ms ! j)\<lparr>xMutexHolder := None\<rparr>]"
  have "?ms ! i = ms ! i" "i < length ?ms" using assms(1,3) by simp_all
  then have "ms ! i \<in> set ?ms" by (metis nth_mem)
  then have "held_count ?ms h \<noteq> 0" using assms(4) by (auto simp: held_count_def filter_empty_conv)
  then show ?thesis using held_count_update [OF assms(2), of "(ms ! j)\<lparr>xMutexHolder := None\<rparr>" h] assms(5) by simp
qed

text \<open>The mutex that a task waits for, and the task that holds it.\<close>

definition lent :: "nat \<Rightarrow> nat \<Rightarrow> nat \<Rightarrow> kernel \<Rightarrow> bool" where
  "lent i h me k \<longleftrightarrow> i < length (k_sems k) \<and> sm_is_mutex (k_sems k ! i) \<and> xMutexHolder (k_sems k ! i) = Some h \<and>
     me \<in> set (sem_waiters (k_sems k ! i))"

lemma lent_priority:
  assumes "orderly_inv k" "lent i h me k"
  shows "uxPriority (k_tasks k me) = uxBasePriority (k_tasks k me)"
  using assms by (intro holds_none_base) (auto simp: lent_def dest: orderlyD)

lemma head_priority:
  assumes "by_priority ts ws" "me \<in> set ws"
  shows "uxBasePriority (ts me) \<le> uxBasePriority (ts (hd ws))"
  using assms by (cases ws) (auto simp: by_priority_def)

lemma lent_block:
  assumes "orderly_inv k" "blocks_on me i k k'" "lent i h me k'"
  shows "uxPriority (k_tasks k' me) \<le> uxPriority (k_tasks k' h)"
proof -
  obtain b b' s ts where b: "i < length (k_sems k)" "k' = k_set i s ts k"
      "sem_block (vListInsert (k_tasks k)) me b (k_sems k ! i) (k_tasks k) = (b', s, ts)"
    using assms(2) by (auto simp: blocks_on_def)
  have "sm_is_mutex (k_sems k ! i) \<and> xMutexHolder (k_sems k ! i) = Some h"
    using assms(3) b by (auto simp: lent_def k_set_def sem_block_def Let_def split: prod.splits)
  then show ?thesis
    using inherit_tasks(3) [OF b(3) orderlyD(2) [OF assms(1)]] b(2) by (auto simp: k_set_def)
qed

text \<open>No step lowers the priority of the holder under that of a task that goes on waiting.\<close>

lemma lent_step:
  assumes "orderly_step k k'" "orderly_inv k" "lent i h me k" "lent i h me k'"
    and "uxBasePriority (k_tasks k me) \<le> uxPriority (k_tasks k h)"
  shows "uxBasePriority (k_tasks k' me) \<le> uxPriority (k_tasks k' h)"
  using assms
proof (induction rule: orderly_step.induct)
  case (take j k t s ts)
  then show ?case using sem_take_now_inv(6) [OF orderlyD(3) [OF take.prems(1) take(1)] take(3,4)] by (auto simp: k_set_def)
next
  case (block t j k k')
  then obtain b b' s ts where b: "sem_block (vListInsert (k_tasks k)) t b (k_sems k ! j) (k_tasks k) = (b', s, ts)"
      "k' = k_set j s ts k"
    by (auto simp: blocks_on_def)
  show ?case
    using inherit_tasks(2,3) [OF b(1) orderlyD(2) [OF block.prems(1)]] b(2) block.prems(4) by (simp add: k_set_def le_max_iff_disj)
next
  case (timeout j k t s inherited ts)
  note D = orderlyD [OF timeout.prems(1)] and eff = timeout_tasks [OF timeout(5) orderlyD(2) [OF timeout.prems(1)]]
  have same: "uxBasePriority (ts me) = uxBasePriority (k_tasks k me)" by (rule eff(2))
  from eff(3) [of h] show ?case
  proof
    assume h: "xMutexHolder s = Some h \<and> uxMutexesHeld (k_tasks k h) = 1 \<and>
      uxPriority (ts h) = max (uxBasePriority (k_tasks k h)) (prvGetDisinheritPriorityAfterTimeout (sm_q s) (k_tasks k))"
    then have "held_count (k_sems k) h = 1" using D(1) by (simp add: kernel_inv_def)
    then have "j = i"
      using held_two [of i "k_sems k" j h] timeout(1,4) timeout.prems(2) h by (auto simp: lent_def on_q_def)
    then have in_ws: "me \<in> set (sem_waiters s)" "sm_is_mutex (k_sems k ! j)"
      using timeout.prems(2,3) timeout(1) by (simp_all add: lent_def k_set_def)
    have ws: "sem_waiters s = remove1 t (sem_waiters (k_sems k ! j))" using timeout(4) by (simp add: on_q_def sem_waiters_def)
    then have hd_in: "hd (sem_waiters s) \<in> set (sem_waiters (k_sems k ! j))"
      using in_ws(1) by (metis hd_in_set list.set_cases list.distinct(1) notin_set_remove1)
    have "uxBasePriority (k_tasks k me) \<le> uxBasePriority (k_tasks k (hd (sem_waiters s)))"
      using D(4) [OF timeout(1) in_ws(2)] head_priority in_ws(1) by_priority_smaller(2) unfolding ws by blast
    also have "\<dots> = prvGetDisinheritPriorityAfterTimeout (sm_q s) (k_tasks k)"
      using in_ws(1) waiter_listed [OF timeout.prems(1) D(5) [OF timeout(1) in_ws(2) hd_in]]
      by (cases "xTasksWaitingToReceive (sm_q s)") (simp_all add: sem_waiters_def prvGetDisinheritPriorityAfterTimeout_def)
    finally show ?thesis using h same by (simp add: k_set_def)
  qed (use same timeout.prems(4) in \<open>simp add: k_set_def\<close>)
next
  case (give j k t r s ts)
  note D = orderlyD [OF give.prems(1)]
  note eff = give_tasks [OF D(3) [OF give(1)] give(3) D(2)]
  from eff(3) [of h] show ?case
  proof
    assume h: "sm_is_mutex (k_sems k ! j) \<and> xMutexHolder (k_sems k ! j) = Some h \<and> uxMutexesHeld (k_tasks k h) = 1"
    then have "held_count (k_sems k) h = 1" using D(1) by (simp add: kernel_inv_def)
    then have "j = i"
      using held_two [of i "k_sems k" j h] give(1) give.prems(2) h by (auto simp: lent_def)
    then have "s = k_sems k ! j" using eff(4) give.prems(3) give(1) by (auto simp: lent_def k_set_def)
    then have "ts = k_tasks k"
      using D(3) [OF give(1)] h give(3)
      by (cases rule: sem_give_cases [OF D(3) [OF give(1)] give(3)]) (auto dest: arg_cong [of _ _ xMutexHolder])
    then show ?thesis using give.prems(4) by (simp add: k_set_def)
  qed (use eff(2) give.prems(4) in \<open>simp add: k_set_def\<close>)
qed

lemma created_waiters:
  "xQueueCreateMutex sz_q malloc me ts = SemCreated s \<Longrightarrow> sem_waiters s = []"
  "xQueueCreateCountingSemaphore sz_q malloc maxc n = SemCreated s \<Longrightarrow> sem_waiters s = []"
proof -
  have new: "uxItemSize q = 0 \<and> xTasksWaitingToReceive q = []" if "xQueueGenericCreate sz_q malloc len 0 = Created q" for len q
    using that by (auto simp: xQueueGenericCreate_def Let_def prvInitialiseNewQueue_def xQueueGenericReset_def
      split: if_splits option.splits)
  show "sem_waiters s = []" if c: "xQueueCreateMutex sz_q malloc me ts = SemCreated s"
  proof -
    obtain q where q: "xQueueGenericCreate sz_q malloc 1 0 = Created q" "s = prvInitialiseMutex me ts q"
      using c by (auto simp: xQueueCreateMutex_def split: create_result.splits)
    obtain r s' ts' where g: "sem_give me (semaphore_of True q) ts = (r, s', ts')" by (metis prod_cases3)
    then show ?thesis using give_waiters [OF _ g] new [OF q(1)] q(2)
      by (simp add: prvInitialiseMutex_def semaphore_of_def sem_waiters_def)
  qed
  show "sem_waiters s = []" if "xQueueCreateCountingSemaphore sz_q malloc maxc n = SemCreated s"
    using that new by (auto simp: xQueueCreateCountingSemaphore_def semaphore_of_def sem_waiters_def
      split: if_splits create_result.splits)
qed

lemma orderly_reachable_inv:
  assumes "kernel_started k" "listed (k_tasks k)" "orderly_step\<^sup>*\<^sup>* k k'"
  shows "orderly_inv k'"
  using assms(3)
proof (induction rule: rtranclp_induct)
  case base
  have "sem_waiters s = []" if "s \<in> set (k_sems k)" for s
    using assms(1) that created_waiters by (auto simp: kernel_started_def)
  then show ?case
    using kernel_reachable_inv [OF assms(1) rtranclp.rtrancl_refl] assms(2) by (simp add: orderly_inv_def by_priority_def)
qed (use orderly_step_inv in blast)

text \<open>From the block on, as long as the holder keeps the mutex and the task waits for it.\<close>

lemma lent_while_waiting:
  assumes "orderly_inv k1" "blocks_on me i k1 k2" "lent i h me k2"
    and "(\<lambda>a b. orderly_step a b \<and> lent i h me b)\<^sup>*\<^sup>* k2 k3"
  shows "uxPriority (k_tasks k3 me) \<le> uxPriority (k_tasks k3 h)"
proof -
  have inv: "orderly_inv k2" using orderly_step_inv [OF orderly_step.block] assms(1,2) by blast
  have "orderly_inv k3 \<and> lent i h me k3 \<and> uxBasePriority (k_tasks k3 me) \<le> uxPriority (k_tasks k3 h)"
    using assms(4)
  proof (induction rule: rtranclp_induct)
    case base
    then show ?case using inv assms(3) lent_block [OF assms(1-3)] lent_priority by simp
  next
    case (step a b)
    then show ?case using lent_step orderly_step_inv by blast
  qed
  then show ?thesis using lent_priority by fastforce
qed

text \<open>
  C8: Mutexes and the priorities they lend. However tasks take, wait for, give up waiting for and
  give the mutexes and semaphores of a system: a mutex has a holder exactly while it is taken, and
  no count exceeds its maximum. A task never runs below its own priority, and one that holds no mutex
  runs exactly at its own: whatever it borrowed is given back with its last mutex. A task that
  waits lends its priority: among orderly tasks (a task that waits does nothing else, one that waits
  for a mutex holds none, and no event group uses their places in lists), the holder runs at least at
  the priority of the waiting task from the moment it blocks and as long as the holder keeps the mutex
  and the task waits, whatever mutexes all tasks take, wait for, time out on and give in between.
\<close>

theorem borrowed_priority_returned:
  assumes "kernel_started k"
  shows "(\<forall>k'. mutex_step\<^sup>*\<^sup>* k k' \<longrightarrow>
      (\<forall>s\<in>set (k_sems k'). uxMessagesWaiting (sm_q s) \<le> uxLength (sm_q s) \<and>
        (sm_is_mutex s \<longrightarrow> (xMutexHolder s = None \<longleftrightarrow> uxMessagesWaiting (sm_q s) = 1))) \<and>
      (\<forall>t. uxBasePriority (k_tasks k' t) \<le> uxPriority (k_tasks k' t)) \<and>
      (\<forall>t. holds_none k' t \<longrightarrow> uxPriority (k_tasks k' t) = uxBasePriority (k_tasks k' t))) \<and>
    (\<forall>k1 k2 k3 i h me. listed (k_tasks k) \<and> orderly_step\<^sup>*\<^sup>* k k1 \<and> blocks_on me i k1 k2 \<and> lent i h me k2 \<and>
      (\<lambda>a b. orderly_step a b \<and> lent i h me b)\<^sup>*\<^sup>* k2 k3 \<longrightarrow>
      uxPriority (k_tasks k3 me) \<le> uxPriority (k_tasks k3 h))"
proof (intro conjI)
  have "(\<forall>s\<in>set (k_sems k'). uxMessagesWaiting (sm_q s) \<le> uxLength (sm_q s) \<and>
        (sm_is_mutex s \<longrightarrow> (xMutexHolder s = None \<longleftrightarrow> uxMessagesWaiting (sm_q s) = 1))) \<and>
      (\<forall>t. uxBasePriority (k_tasks k' t) \<le> uxPriority (k_tasks k' t)) \<and>
      (\<forall>t. holds_none k' t \<longrightarrow> uxPriority (k_tasks k' t) = uxBasePriority (k_tasks k' t))" (is "?sound k'")
    if "mutex_step\<^sup>*\<^sup>* k k'" for k'
  proof -
    have inv: "kernel_inv k'" by (rule kernel_reachable_inv [OF assms that])
    then show ?thesis using holds_none_base [OF inv] by (auto simp: kernel_inv_def sem_inv_def)
  qed
  then show "\<forall>k'. mutex_step\<^sup>*\<^sup>* k k' \<longrightarrow> ?sound k'" by blast
next
  show "\<forall>k1 k2 k3 i h me. listed (k_tasks k) \<and> orderly_step\<^sup>*\<^sup>* k k1 \<and> blocks_on me i k1 k2 \<and> lent i h me k2 \<and>
      (\<lambda>a b. orderly_step a b \<and> lent i h me b)\<^sup>*\<^sup>* k2 k3 \<longrightarrow>
      uxPriority (k_tasks k3 me) \<le> uxPriority (k_tasks k3 h)"
    by (intro allI impI, elim conjE, rule lent_while_waiting [OF orderly_reachable_inv [OF assms]])
qed

section \<open>Recursive mutexes\<close>

text \<open>One mutex, the tasks, and for each task its takes that are not given back yet.\<close>

record rec_mutex =
  rm_s :: Semaphore_t
  rm_tasks :: tasks
  rm_depth :: "nat \<Rightarrow> nat"

text \<open>
  The calls of the tasks, and what a call that has to wait does before it tries again: it lends
  its priority and, when its time is over, may take it back.
\<close>

inductive rec_step :: "rec_mutex \<Rightarrow> rec_mutex \<Rightarrow> bool" where
  take: "xQueueTakeMutexRecursive place t [] (rm_s m) 0 (rm_tasks m) = (r, s, ts) \<Longrightarrow>
    rec_step m \<lparr>rm_s = s, rm_tasks = ts,
      rm_depth = (if r = pdPASS then (rm_depth m)(t := rm_depth m t + 1) else rm_depth m)\<rparr>"
| give: "xQueueGiveMutexRecursive t (rm_s m) (rm_tasks m) = (r, s, ts) \<Longrightarrow>
    rec_step m \<lparr>rm_s = s, rm_tasks = ts,
      rm_depth = (if r = pdPASS then (rm_depth m)(t := rm_depth m t - 1) else rm_depth m)\<rparr>"
| wait: "sem_block place t b (rm_s m) (rm_tasks m) = (b', s, ts) \<Longrightarrow>
    rec_step m (m\<lparr>rm_s := s, rm_tasks := ts\<rparr>)"
| late: "sem_timeout t b (rm_s m) (rm_tasks m) = Some ts \<Longrightarrow> rec_step m (m\<lparr>rm_tasks := ts\<rparr>)"

definition rec_inv :: "rec_mutex \<Rightarrow> bool" where
  "rec_inv m \<longleftrightarrow> sem_inv (rm_s m) \<and> sm_is_mutex (rm_s m) \<and>
     (case xMutexHolder (rm_s m) of
        None \<Rightarrow> uxRecursiveCallCount (rm_s m) = 0 \<and> rm_depth m = (\<lambda>_. 0)
      | Some h \<Rightarrow> 0 < uxRecursiveCallCount (rm_s m) \<and> 0 < uxMutexesHeld (rm_tasks m h) \<and>
          rm_depth m = (\<lambda>t. if t = h then uxRecursiveCallCount (rm_s m) else 0))"

lemma rec_take:
  assumes "rec_inv m" "xQueueTakeMutexRecursive place t [] (rm_s m) 0 (rm_tasks m) = (r, s, ts)"
  shows "rec_inv \<lparr>rm_s = s, rm_tasks = ts,
      rm_depth = (if r = pdPASS then (rm_depth m)(t := rm_depth m t + 1) else rm_depth m)\<rparr>"
proof (cases "xMutexHolder (rm_s m) = Some t")
  case True
  then show ?thesis using assms by (auto simp: rec_inv_def xQueueTakeMutexRecursive_def fun_eq_iff)
next
  case False
  obtain s1 ts1 where now: "sem_take_now t (rm_s m) (rm_tasks m) = (s1, ts1)" by fastforce
  have size: "uxItemSize (sm_q (rm_s m)) = 0" and inv: "sem_inv (rm_s m)" "sm_is_mutex (rm_s m)"
    using assms(1) by (auto simp: rec_inv_def sem_inv_def)
  show ?thesis
  proof (cases "uxMessagesWaiting (sm_q (rm_s m)) > 0")
    case pos: True
    have "xMutexHolder (rm_s m) = None" using inv pos by (auto simp: sem_inv_def split: if_splits)
    then show ?thesis
      using assms False pos now size sem_take_now_inv [OF inv(1) pos now]
      by (auto simp: rec_inv_def xQueueTakeMutexRecursive_def xQueueSemaphoreTake_def intro!: ext)
  next
    case False
    then show ?thesis
      using assms \<open>xMutexHolder (rm_s m) \<noteq> Some t\<close> size
      by (auto simp: xQueueTakeMutexRecursive_def xQueueSemaphoreTake_def rec_inv_def split: option.splits)
  qed
qed

lemma rec_give:
  assumes "rec_inv m" "xQueueGiveMutexRecursive t (rm_s m) (rm_tasks m) = (r, s, ts)"
  shows "rec_inv \<lparr>rm_s = s, rm_tasks = ts,
      rm_depth = (if r = pdPASS then (rm_depth m)(t := rm_depth m t - 1) else rm_depth m)\<rparr>"
    and "r = (if 0 < rm_depth m t then pdPASS else errQUEUE_EMPTY)"
proof -
  have "rec_inv \<lparr>rm_s = s, rm_tasks = ts,
      rm_depth = (if r = pdPASS then (rm_depth m)(t := rm_depth m t - 1) else rm_depth m)\<rparr> \<and>
    r = (if 0 < rm_depth m t then pdPASS else errQUEUE_EMPTY)"
  proof (cases "xMutexHolder (rm_s m) = Some t")
    case False
    then show ?thesis using assms by (auto simp: rec_inv_def xQueueGiveMutexRecursive_def split: option.splits)
  next
    case True
    let ?s = "(rm_s m)\<lparr>uxRecursiveCallCount := uxRecursiveCallCount (rm_s m) - 1\<rparr>"
    have inv: "sem_inv (rm_s m)" "sm_is_mutex (rm_s m)" "0 < uxMutexesHeld (rm_tasks m t)"
        "0 < uxRecursiveCallCount (rm_s m)" "rm_depth m = (\<lambda>u. if u = t then uxRecursiveCallCount (rm_s m) else 0)"
      using assms(1) True by (auto simp: rec_inv_def)
    show ?thesis
    proof (cases "uxRecursiveCallCount (rm_s m) = 1")
      case False
      then show ?thesis
        using assms True inv by (auto simp: rec_inv_def xQueueGiveMutexRecursive_def fun_eq_iff)
    next
      case one: True
      obtain r1 s1 ts1 where g: "sem_give t ?s (rm_tasks m) = (r1, s1, ts1)" by (metis prod_cases3)
      have "sem_inv ?s" using inv by simp
      then have "r1 = pdPASS \<and> xMutexHolder s1 = None \<and> uxRecursiveCallCount s1 = 0"
        using g inv True one
        by (cases rule: sem_give_cases) (auto simp: sem_inv_def xTaskPriorityDisinherit_def Let_def split: if_splits)
      then show ?thesis
        using assms(2) True inv one g sem_give_inv [OF \<open>sem_inv ?s\<close> g]
        by (auto simp: rec_inv_def xQueueGiveMutexRecursive_def fun_eq_iff)
    qed
  qed
  then show "rec_inv \<lparr>rm_s = s, rm_tasks = ts,
      rm_depth = (if r = pdPASS then (rm_depth m)(t := rm_depth m t - 1) else rm_depth m)\<rparr>"
    and "r = (if 0 < rm_depth m t then pdPASS else errQUEUE_EMPTY)" by blast+
qed

text \<open>Waiting leaves the mutex with its holder.\<close>

lemma rec_wait:
  assumes "rec_inv m" "sem_block place t b (rm_s m) (rm_tasks m) = (b', s, ts)"
  shows "rec_inv (m\<lparr>rm_s := s, rm_tasks := ts\<rparr>)"
proof -
  have "uxMutexesHeld (ts u) = uxMutexesHeld (rm_tasks m u)" for u
    using assms(2)
    by (auto simp: sem_block_def case_prod_beta Let_def xTaskPriorityInherit_def split: if_splits option.splits)
  moreover have "s = (rm_s m)\<lparr>sm_q := sm_q s\<rparr>" "sem_inv s = sem_inv (rm_s m)"
    using assms(2) by (auto simp: sem_block_def case_prod_beta Let_def)
  ultimately show ?thesis
    using assms(1) by (cases s) (auto simp: rec_inv_def split: option.splits)
qed

lemma rec_late:
  assumes "rec_inv m" "sem_timeout t b (rm_s m) (rm_tasks m) = Some ts"
  shows "rec_inv (m\<lparr>rm_tasks := ts\<rparr>)"
proof -
  have "uxMutexesHeld (ts u) = uxMutexesHeld (rm_tasks m u)" for u
    using assms(2)
    by (auto simp: sem_timeout_def vTaskPriorityDisinheritAfterTimeout_def Let_def split: if_splits option.splits)
  then show ?thesis using assms(1) by (auto simp: rec_inv_def split: option.splits)
qed

lemma rec_step_inv: "rec_step m m' \<Longrightarrow> rec_inv m \<Longrightarrow> rec_inv m'"
  by (induction rule: rec_step.induct) (blast intro: rec_take rec_give(1) rec_wait rec_late)+

definition new_mutex :: "Semaphore_t \<Rightarrow> tasks \<Rightarrow> rec_mutex" where
  "new_mutex s ts = \<lparr>rm_s = s, rm_tasks = ts, rm_depth = (\<lambda>_. 0)\<rparr>"

lemma rec_reachable_inv:
  assumes "xQueueCreateMutex sz_q malloc me ts0 = SemCreated s" "rec_step\<^sup>*\<^sup>* (new_mutex s ts) m"
  shows "rec_inv m"
  using assms(2)
proof (induction rule: rtranclp_induct)
  case base
  show ?case using create_mutex [OF assms(1)] by (simp add: rec_inv_def new_mutex_def)
qed (use rec_step_inv in blast)

text \<open>
  A recursive mutex excludes. Starting from a new mutex, however tasks take it, wait for it and
  give it, at most one task has takes it has not given back: that task is the holder the kernel
  reports, and its number of takes is the kernel's count; a give succeeds exactly for that task, and
  the mutex is free exactly when every take has been given back.
\<close>

theorem recursive_mutex_excludes:
  assumes "xQueueCreateMutex sz_q malloc me ts0 = SemCreated s" "rec_step\<^sup>*\<^sup>* (new_mutex s ts) m"
  shows "(\<forall>t. 0 < rm_depth m t \<longleftrightarrow> xQueueGetMutexHolder (rm_s m) = Some t) \<and>
    (\<forall>t. 0 < rm_depth m t \<longrightarrow> rm_depth m t = uxRecursiveCallCount (rm_s m)) \<and>
    (\<forall>t. fst (xQueueGiveMutexRecursive t (rm_s m) (rm_tasks m)) = pdPASS \<longleftrightarrow> 0 < rm_depth m t) \<and>
    (uxMessagesWaiting (sm_q (rm_s m)) = 1 \<longleftrightarrow> rm_depth m = (\<lambda>_. 0))"
proof -
  have inv: "rec_inv m" by (rule rec_reachable_inv [OF assms])
  have "fst (xQueueGiveMutexRecursive t (rm_s m) (rm_tasks m)) = pdPASS \<longleftrightarrow> 0 < rm_depth m t" for t
    using rec_give(2) [OF inv, of t] by (metis prod.collapse q_result.distinct(3))
  moreover have "uxMessagesWaiting (sm_q (rm_s m)) = 1 \<longleftrightarrow> xMutexHolder (rm_s m) = None"
    using inv by (auto simp: rec_inv_def sem_inv_def)
  ultimately show ?thesis
    using inv by (auto simp: rec_inv_def xQueueGetMutexHolder_def fun_eq_iff split: option.splits)
qed

section \<open>Examples\<close>

definition demo_tasks :: tasks where
  "demo_tasks t = \<lparr>uxPriority = t, uxBasePriority = t, uxMutexesHeld = 0, ev_prio = t, ev_in_use = False\<rparr>"

definition demo_mutex :: Semaphore_t where
  "demo_mutex = prvInitialiseMutex 1 demo_tasks (prvInitialiseNewQueue 1 0 [])"

lemma demo_mutex_created: "xQueueCreateMutex 80 (\<lambda>n. Some (replicate n 0)) 1 demo_tasks = SemCreated demo_mutex"
  by (simp add: xQueueCreateMutex_def xQueueGenericCreate_def demo_mutex_def wrap32_def)

lemma demo_mutex_free: "uxMessagesWaiting (sm_q demo_mutex) = 1" "sem_inv demo_mutex" "sm_is_mutex demo_mutex"
    "xMutexHolder demo_mutex = None" "uxRecursiveCallCount demo_mutex = 0"
  using create_mutex [OF demo_mutex_created] by (auto simp: sem_inv_def)

text \<open>
  Task 1 takes the mutex; tasks 5 and 7 wait for it, and task 7 gives up: task 1 falls from priority 7 to
  that of task 5.
\<close>

theorem borrowed_priority_returned_witness:
  "\<exists>k1 k2 k3 k4. orderly_step\<^sup>*\<^sup>* \<lparr>k_sems = [demo_mutex], k_tasks = demo_tasks\<rparr> k1 \<and> blocks_on 5 0 k1 k2 \<and>
     orderly_step k2 k3 \<and> orderly_step k3 k4 \<and>
     map (\<lambda>k. uxPriority (k_tasks k 1)) [k1, k2, k3] = [1, 5, 7] \<and> uxPriority (k_tasks k4 1) < 7 \<and>
     5 = uxPriority (k_tasks k4 5) \<and> uxPriority (k_tasks k4 5) \<le> uxPriority (k_tasks k4 1)"
proof -
  let ?k = "\<lparr>k_sems = [demo_mutex], k_tasks = demo_tasks\<rparr>"
  obtain s ts where st: "sem_take_now 1 demo_mutex demo_tasks = (s, ts)" by fastforce
  note eff = sem_take_now_inv [OF demo_mutex_free(2) _ st, unfolded demo_mutex_free]
  have none: "sem_waiters demo_mutex = []" by (rule created_waiters(1) [OF demo_mutex_created])
  have s: "xMutexHolder s = Some 1" "sm_is_mutex s" "uxMessagesWaiting (sm_q s) = 0" "xTasksWaitingToReceive (sm_q s) = []"
    using eff take_waiters [OF st] none demo_mutex_free(3) by (simp_all add: sem_waiters_def)
  have ts: "ts = demo_tasks(1 := (demo_tasks 1)\<lparr>uxMutexesHeld := 1\<rparr>)" using eff demo_mutex_free(3) by (simp add: demo_tasks_def)
  let ?s = "\<lambda>ws. s\<lparr>sm_q := (sm_q s)\<lparr>xTasksWaitingToReceive := ws\<rparr>\<rparr>"
  let ?ts = "\<lambda>p. ts(1 := (ts 1)\<lparr>uxPriority := p, ev_prio := p\<rparr>)"
  let ?kn = "\<lambda>ws p. \<lparr>k_sems = [?s ws], k_tasks = ?ts p\<rparr>"
  note defs = k_set_def is_waiting_def sem_waiters_def holds_none_def demo_tasks_def on_q_def
  let ?k1 = "\<lparr>k_sems = [s], k_tasks = ts\<rparr>"
  have take: "orderly_step ?k ?k1"
    using orderly_step.take [of 0 ?k 1 s ts] st none demo_mutex_free(1) by (simp add: defs)
  then have reach: "orderly_step\<^sup>*\<^sup>* ?k ?k1" by blast
  have b5: "blocks_on 5 0 ?k1 (?kn [5] 5)"
    unfolding blocks_on_def using s ts
    by (auto simp: defs sem_block_def xTaskPriorityInherit_def)
  have b7: "orderly_step (?kn [5] 5) (?kn [7, 5] 7)"
    by (rule orderly_step.block [of 7 0], unfold blocks_on_def)
       (use s ts in \<open>auto simp: defs sem_block_def xTaskPriorityInherit_def\<close>)
  have t7: "orderly_step (?kn [7, 5] 7) (?kn [5] 5)"
    using orderly_step.timeout [of 0 "?kn [7, 5] 7" 7 "?s [5]" True "?ts 5"] s ts
    by (simp add: defs sem_timeout_def vTaskPriorityDisinheritAfterTimeout_def prvGetDisinheritPriorityAfterTimeout_def)
  have start: "kernel_started ?k" "listed (k_tasks ?k)"
    using demo_mutex_created by (auto simp: kernel_started_def listed_def demo_tasks_def)
  have lent: "lent 0 1 5 (?kn ws p)" if "5 \<in> set ws" for ws p
    using s that by (simp add: lent_def sem_waiters_def)
  have "(\<lambda>a b. orderly_step a b \<and> lent 0 1 5 b)\<^sup>*\<^sup>* (?kn [5] 5) (?kn [5] 5)"
    using b7 t7 lent by (blast intro: converse_rtranclp_into_rtranclp)
  then have "uxPriority (k_tasks (?kn [5] 5) 5) \<le> uxPriority (k_tasks (?kn [5] 5) 1)"
    using borrowed_priority_returned [OF start(1), THEN conjunct2, rule_format, of ?k1 5 0 "?kn [5] 5" 1 "?kn [5] 5"]
      start(2) reach b5 lent [of "[5]" 5] by simp
  then show ?thesis
    using take b5 b7 t7 by (intro exI [of _ "?k1"] exI [of _ "?kn [5] 5"] exI [of _ "?kn [7, 5] 7"] conjI)
      (auto simp: ts demo_tasks_def)
qed

theorem recursive_mutex_excludes_witness:
  "\<exists>m. rec_step\<^sup>*\<^sup>* (new_mutex demo_mutex demo_tasks) m \<and> rm_depth m 3 = 1 \<and> xQueueGetMutexHolder (rm_s m) = Some 3"
proof -
  let ?r = "xQueueTakeMutexRecursive (\<lambda>t ws. ws) 3 [] demo_mutex 0 demo_tasks"
  have "fst ?r = pdPASS"
    using demo_mutex_free
    by (simp add: xQueueTakeMutexRecursive_def xQueueSemaphoreTake_def case_prod_beta sem_inv_def)
  then obtain s ts where r: "?r = (pdPASS, s, ts)" by (cases ?r) auto
  define m where "m = \<lparr>rm_s = s, rm_tasks = ts, rm_depth = (\<lambda>_. 0)(3 := 0 + 1)\<rparr>"
  have "rec_step (new_mutex demo_mutex demo_tasks) m"
    using rec_step.take [of "\<lambda>t ws. ws" 3 "new_mutex demo_mutex demo_tasks" pdPASS s ts] r
    by (simp add: new_mutex_def m_def)
  then have reach: "rec_step\<^sup>*\<^sup>* (new_mutex demo_mutex demo_tasks) m" by simp
  have "xQueueGetMutexHolder (rm_s m) = Some 3"
    using recursive_mutex_excludes [OF demo_mutex_created reach, THEN conjunct1, THEN spec, of 3] by (simp add: m_def)
  with reach show ?thesis by (intro exI [of _ m]) (simp add: m_def)
qed

end
