(* ===== verification/Split_Argv.thy ===== *)
theory Split_Argv
  imports Prelude
begin

text \<open>
  The splitting of a command line into arguments, \<^verbatim>\<open>console/split_argv.c\<close>. The routine works in
  place: it writes the arguments, each ended by a zero, over the line it is reading, and notes
  where each starts. The line is the list of the characters of its buffer, a pointer into it an
  offset; an access outside the buffer, or a store outside \<^verbatim>\<open>argv\<close>, is the value \<open>None\<close>. A
  recursive tokenizer serves as the reference: the in-place routine finds the same arguments.
\<close>

section \<open>Strings in a buffer\<close>

definition NUL :: char where "NUL = CHR 0x00"
definition QUOTE :: char where "QUOTE = CHR 0x22"
definition ESCAPE :: char where "ESCAPE = CHR 0x5C"
definition SPACE :: char where "SPACE = CHR 0x20"

lemmas split_chars = NUL_def QUOTE_def ESCAPE_def SPACE_def

text \<open>The string that starts at an offset, and the buffer that holds a string and its end.\<close>

definition cstr :: "string \<Rightarrow> nat \<Rightarrow> string" where
  "cstr buf i = takeWhile (\<lambda>c. c \<noteq> NUL) (drop i buf)"

definition terminated :: "string \<Rightarrow> bool" where
  "terminated buf \<longleftrightarrow> NUL \<in> set buf"

section \<open>The routine\<close>

datatype split_state = SS_SPACE | SS_ARG | SS_QUOTED_ARG | SS_ARG_ESCAPED | SS_QUOTED_ARG_ESCAPED

record split_vars =
  sp_line :: string
  out_ptr :: nat
  next_arg_start :: nat
  sp_argv :: "nat list"
  sp_state :: split_state

text \<open>Clearing \<^verbatim>\<open>SS_FLAG_ESCAPE\<close>.\<close>

fun unescaped :: "split_state \<Rightarrow> split_state" where
  "unescaped SS_ARG_ESCAPED = SS_ARG"
| "unescaped SS_QUOTED_ARG_ESCAPED = SS_QUOTED_ARG"
| "unescaped s = s"

definition END_ARG :: "split_vars \<Rightarrow> char option \<times> split_vars" where
  "END_ARG v = (Some NUL, v\<lparr>sp_argv := sp_argv v @ [next_arg_start v], sp_state := SS_SPACE\<rparr>)"

text \<open>The \<^verbatim>\<open>switch\<close>: the character to write, if any, and the new state.\<close>

definition split_switch :: "char \<Rightarrow> split_vars \<Rightarrow> char option \<times> split_vars" where
  "split_switch char_in v = (case sp_state v of
     SS_SPACE \<Rightarrow>
       if char_in = SPACE then (None, v)
       else if char_in = QUOTE then
         (None, v\<lparr>next_arg_start := out_ptr v, sp_state := SS_QUOTED_ARG\<rparr>)
       else if char_in = ESCAPE then
         (None, v\<lparr>next_arg_start := out_ptr v, sp_state := SS_ARG_ESCAPED\<rparr>)
       else (Some char_in, v\<lparr>next_arg_start := out_ptr v, sp_state := SS_ARG\<rparr>)
   | SS_QUOTED_ARG \<Rightarrow>
       if char_in = QUOTE then END_ARG v
       else if char_in = ESCAPE then (None, v\<lparr>sp_state := SS_QUOTED_ARG_ESCAPED\<rparr>)
       else (Some char_in, v)
   | SS_ARG \<Rightarrow>
       if char_in = SPACE then END_ARG v
       else if char_in = ESCAPE then (None, v\<lparr>sp_state := SS_ARG_ESCAPED\<rparr>)
       else (Some char_in, v)
   | _ \<Rightarrow>
       (if char_in = ESCAPE \<or> char_in = QUOTE \<or> char_in = SPACE then Some char_in else None,
        v\<lparr>sp_state := unescaped (sp_state v)\<rparr>))"

text \<open>A write through \<^verbatim>\<open>out_ptr\<close>.\<close>

definition put_out :: "char \<Rightarrow> split_vars \<Rightarrow> split_vars option" where
  "put_out c v = (if out_ptr v < length (sp_line v)
     then Some (v\<lparr>sp_line := (sp_line v)[out_ptr v := c]\<rparr>) else None)"

definition split_step :: "nat \<Rightarrow> char \<Rightarrow> split_vars \<Rightarrow> split_vars option" where
  "split_step argv_size char_in v = (case split_switch char_in v of (char_out, v') \<Rightarrow>
     if argv_size < length (sp_argv v') then None
     else case char_out of
       None \<Rightarrow> Some v'
     | Some c \<Rightarrow> map_option (\<lambda>w. w\<lparr>out_ptr := out_ptr w + 1\<rparr>) (put_out c v'))"

text \<open>\<^verbatim>\<open>argv_size - 1\<close>, a \<^verbatim>\<open>size_t\<close>.\<close>

definition argv_limit :: "nat \<Rightarrow> nat" where
  "argv_limit argv_size = (argv_size + 2 ^ 32 - 1) mod 2 ^ 32"

lemma split_step_length:
  "split_step n c v = Some v' \<Longrightarrow> length (sp_line v') = length (sp_line v)"
  by (auto simp: split_step_def split_switch_def put_out_def END_ARG_def
      split: split_state.splits if_splits)

function split_loop :: "nat \<Rightarrow> nat \<Rightarrow> split_vars \<Rightarrow> split_vars option" where
  "split_loop argv_size in_ptr v =
    (if \<not> length (sp_argv v) < argv_limit argv_size then Some v
     else if \<not> in_ptr < length (sp_line v) then None
     else if sp_line v ! in_ptr = NUL then Some v
     else case split_step argv_size (sp_line v ! in_ptr) v of
       None \<Rightarrow> None
     | Some v' \<Rightarrow> split_loop argv_size (in_ptr + 1) v')"
  by pat_completeness auto
termination
  by (relation "measure (\<lambda>(n, p, v). length (sp_line v) - p)") (auto dest: split_step_length)

declare split_loop.simps [simp del]

definition split_start :: "string \<Rightarrow> split_vars" where
  "split_start line = \<lparr>sp_line = line, out_ptr = 0, next_arg_start = 0, sp_argv = [], sp_state = SS_SPACE\<rparr>"

text \<open>
  The buffer the call leaves and the offsets it put into \<^verbatim>\<open>argv\<close>; their number is the result. The
  last store is the \<^verbatim>\<open>NULL\<close> behind them.
\<close>

definition esp_console_split_argv :: "string \<Rightarrow> nat \<Rightarrow> (string \<times> nat list) option" where
  "esp_console_split_argv line argv_size =
    (case split_loop argv_size 0 (split_start line) of
       None \<Rightarrow> None
     | Some v \<Rightarrow>
         (case put_out NUL v of
            None \<Rightarrow> None
          | Some v \<Rightarrow>
              let argv = (if sp_state v \<noteq> SS_SPACE \<and> length (sp_argv v) < argv_limit argv_size
                          then sp_argv v @ [next_arg_start v] else sp_argv v)
              in if length argv < argv_size then Some (sp_line v, argv) else None))"

section \<open>The reference\<close>

text \<open>
  The meaning of a line: arguments are separated by spaces; one that starts with a quote goes on
  to the next quote; a backslash takes a quote, a backslash or a space literally, and is dropped
  with the character behind it otherwise.
\<close>

definition escape_of :: "char \<Rightarrow> string" where
  "escape_of c = (if c = ESCAPE \<or> c = QUOTE \<or> c = SPACE then [c] else [])"

fun take_arg :: "char \<Rightarrow> string \<Rightarrow> string \<times> string" where
  "take_arg stop [] = ([], [])"
| "take_arg stop (c # cs) =
    (if c = stop then ([], cs)
     else if c = ESCAPE then
       (case cs of [] \<Rightarrow> ([], [])
        | d # ds \<Rightarrow> let (a, r) = take_arg stop ds in (escape_of d @ a, r))
     else let (a, r) = take_arg stop cs in (c # a, r))"

lemma take_arg_le: "length (snd (take_arg stop cs)) \<le> length cs"
  by (induction stop cs rule: take_arg.induct)
     (auto simp: case_prod_beta le_SucI split: list.splits)

lemma take_arg_length: "length (snd (take_arg stop (c # cs))) \<le> length cs"
  using take_arg_le [of stop cs] take_arg_le [of stop "tl cs"]
  by (auto simp: case_prod_beta split: list.splits)

function tokens :: "string \<Rightarrow> string list" where
  "tokens [] = []"
| "tokens (c # cs) =
    (if c = SPACE then tokens cs
     else if c = QUOTE then (case take_arg QUOTE cs of (a, r) \<Rightarrow> a # tokens r)
     else (case take_arg SPACE (c # cs) of (a, r) \<Rightarrow> a # tokens r))"
  by pat_completeness auto
termination
proof (relation "measure length", goal_cases)
  case (3 c cs a r)
  then show ?case using take_arg_le [of QUOTE cs] by (metis in_measure le_imp_less_Suc length_Cons snd_conv)
next
  case (4 c cs a r)
  then show ?case using take_arg_length [of SPACE c cs] by (metis in_measure le_imp_less_Suc length_Cons snd_conv)
qed auto

declare take_arg.simps(2) [simp del] tokens.simps(2) [simp del]

section \<open>The invariant of the loop\<close>

text \<open>The arguments that are complete lie one behind the other, each with its zero.\<close>

definition flat :: "string list \<Rightarrow> string" where
  "flat ds = concat (map (\<lambda>s. s @ [NUL]) ds)"

primrec starts :: "nat \<Rightarrow> string list \<Rightarrow> nat list" where
  "starts k [] = []"
| "starts k (s # ds) = k # starts (k + length s + 1) ds"

lemma flat_simps [simp]: "flat [] = []" "flat (s # ds) = s @ NUL # flat ds" "flat (ds @ es) = flat ds @ flat es"
  by (simp_all add: flat_def)

lemma starts_append [simp]: "starts k (ds @ es) = starts k ds @ starts (k + length (flat ds)) es"
  by (induction ds arbitrary: k) (simp_all add: add.assoc)

lemma length_starts [simp]: "length (starts k ds) = length ds"
  by (induction ds arbitrary: k) simp_all

lemma cstr_prefix: "NUL \<notin> set s \<Longrightarrow> cstr (pre @ s @ NUL # post) (length pre) = s"
  by (simp add: cstr_def takeWhile_append)

lemma cstr_starts:
  "\<forall>s\<in>set ds. NUL \<notin> set s \<Longrightarrow> map (cstr (pre @ flat ds @ post)) (starts (length pre) ds) = ds"
proof (induction ds arbitrary: pre)
  case (Cons s ds)
  from Cons.IH [of "pre @ s @ [NUL]"] Cons.prems show ?case
    by (simp add: cstr_prefix)
qed simp

definition split_inv :: "split_vars \<Rightarrow> string list \<Rightarrow> string \<Rightarrow> bool" where
  "split_inv v ds pend \<longleftrightarrow>
     out_ptr v \<le> length (sp_line v) \<and> take (out_ptr v) (sp_line v) = flat ds @ pend \<and>
     sp_argv v = starts 0 ds \<and> (\<forall>s\<in>set (pend # ds). NUL \<notin> set s) \<and>
     (if sp_state v = SS_SPACE then pend = [] else next_arg_start v = length (flat ds))"

text \<open>The arguments a state still expects from the rest of the line.\<close>

definition arg_stop :: "split_state \<Rightarrow> char" where
  "arg_stop s = (if unescaped s = SS_QUOTED_ARG then QUOTE else SPACE)"

definition expects :: "split_state \<Rightarrow> string \<Rightarrow> string \<Rightarrow> string list" where
  "expects s pend r =
    (if s = SS_SPACE then tokens r
     else case take_arg (arg_stop s) (if unescaped s = s then r else ESCAPE # r) of
       (a, q) \<Rightarrow> (pend @ a) # tokens q)"

lemma expects_end: "expects s pend [] = (if s = SS_SPACE then [] else [pend])"
  by (simp add: expects_def take_arg.simps)

lemma take_arg_unfold:
  "take_arg stop (c # cs) =
    (if c = stop then ([], cs)
     else if c = ESCAPE then
       (if cs = [] then ([], []) else apfst ((@) (escape_of (hd cs))) (take_arg stop (tl cs)))
     else apfst ((#) c) (take_arg stop cs))"
  by (cases cs) (simp_all add: take_arg.simps case_prod_beta prod_eq_iff)

lemma split_chars_distinct [simp]:
  "SPACE \<noteq> QUOTE" "QUOTE \<noteq> SPACE" "SPACE \<noteq> ESCAPE" "ESCAPE \<noteq> SPACE"
  "QUOTE \<noteq> ESCAPE" "ESCAPE \<noteq> QUOTE" "NUL \<noteq> SPACE" "NUL \<noteq> QUOTE" "NUL \<noteq> ESCAPE"
  by (simp_all add: split_chars)

lemma expects_step:
  "expects SS_SPACE pend (c # r) =
    (if c = SPACE then expects SS_SPACE [] r else if c = QUOTE then expects SS_QUOTED_ARG [] r
     else if c = ESCAPE then expects SS_ARG_ESCAPED [] r else expects SS_ARG [c] r)"
  "expects SS_ARG pend (c # r) =
    (if c = SPACE then pend # expects SS_SPACE [] r
     else if c = ESCAPE then expects SS_ARG_ESCAPED pend r else expects SS_ARG (pend @ [c]) r)"
  "expects SS_QUOTED_ARG pend (c # r) =
    (if c = QUOTE then pend # expects SS_SPACE [] r
     else if c = ESCAPE then expects SS_QUOTED_ARG_ESCAPED pend r else expects SS_QUOTED_ARG (pend @ [c]) r)"
  "expects SS_ARG_ESCAPED pend (c # r) = expects SS_ARG (pend @ escape_of c) r"
  "expects SS_QUOTED_ARG_ESCAPED pend (c # r) = expects SS_QUOTED_ARG (pend @ escape_of c) r"
  by (simp_all add: expects_def arg_stop_def tokens.simps take_arg_unfold case_prod_beta)

text \<open>One character of the line: what the switch writes extends the completed arguments.\<close>

lemma split_switch_inv:
  assumes "split_inv v ds pend" "c \<noteq> NUL" "split_switch c v = (co, v1)"
  obtains ds' pend' where
    "flat ds' @ pend' = flat ds @ pend @ (case co of None \<Rightarrow> [] | Some k \<Rightarrow> [k])"
    "sp_argv v1 = starts 0 ds'" "\<forall>s\<in>set (pend' # ds'). NUL \<notin> set s"
    "if sp_state v1 = SS_SPACE then pend' = [] else next_arg_start v1 = length (flat ds')"
    "length ds' \<le> Suc (length ds)"
    "\<forall>r. ds' @ expects (sp_state v1) pend' r = ds @ expects (sp_state v) pend (c # r)"
proof -
  note [simp] = split_switch_def split_inv_def expects_step END_ARG_def escape_of_def
  have no_space: "take (out_ptr v) (sp_line v) = flat ds @ pend" "out_ptr v \<le> length (sp_line v)"
    using assms by simp_all
  then have out: "out_ptr v = length (flat ds @ pend)" by (metis length_take min.absorb2)
  show thesis
  proof (cases "sp_state v")
    case SS_SPACE
    then show ?thesis
      using assms out that [of ds pend] that [of ds "pend @ [c]"] by (auto split: if_splits)
  next
    case SS_ARG
    then show ?thesis
      using assms out that [of ds pend] that [of ds "pend @ [c]"] that [of "ds @ [pend]" "[]"]
      by (auto split: if_splits)
  next
    case SS_QUOTED_ARG
    then show ?thesis
      using assms out that [of ds pend] that [of ds "pend @ [c]"] that [of "ds @ [pend]" "[]"]
      by (auto split: if_splits)
  next
    case SS_ARG_ESCAPED
    then show ?thesis
      using assms out that [of ds pend] that [of ds "pend @ [c]"] by (auto split: if_splits)
  next
    case SS_QUOTED_ARG_ESCAPED
    then show ?thesis
      using assms out that [of ds pend] that [of ds "pend @ [c]"] by (auto split: if_splits)
  qed
qed

lemma split_step_inv:
  assumes inv: "split_inv v ds pend" and p: "out_ptr v \<le> p" "p < length (sp_line v)"
    and c: "c \<noteq> NUL" and room: "length ds < n"
  obtains v' ds' pend' where "split_step n c v = Some v'" "split_inv v' ds' pend'"
    "out_ptr v' \<le> Suc p" "drop (Suc p) (sp_line v') = drop (Suc p) (sp_line v)"
    "length (sp_line v') = length (sp_line v)" "length ds' \<le> Suc (length ds)"
    "\<forall>r. ds' @ expects (sp_state v') pend' r = ds @ expects (sp_state v) pend (c # r)"
proof -
  obtain co v1 where sw: "split_switch c v = (co, v1)" by (cases "split_switch c v")
  have line: "sp_line v1 = sp_line v" "out_ptr v1 = out_ptr v"
    using sw by (auto simp: split_switch_def END_ARG_def split: split_state.splits if_splits)
  obtain ds' pend' where sw':
    "flat ds' @ pend' = flat ds @ pend @ (case co of None \<Rightarrow> [] | Some k \<Rightarrow> [k])"
    "sp_argv v1 = starts 0 ds'" "\<forall>s\<in>set (pend' # ds'). NUL \<notin> set s"
    "if sp_state v1 = SS_SPACE then pend' = [] else next_arg_start v1 = length (flat ds')"
    "length ds' \<le> Suc (length ds)"
    "\<forall>r. ds' @ expects (sp_state v1) pend' r = ds @ expects (sp_state v) pend (c # r)"
    by (rule split_switch_inv [OF inv c sw])
  define w where "w = (case co of None \<Rightarrow> v1
    | Some k \<Rightarrow> v1\<lparr>sp_line := (sp_line v)[out_ptr v := k], out_ptr := out_ptr v + 1\<rparr>)"
  have "split_step n c v = Some w"
    using sw sw' line p room by (simp add: split_step_def w_def put_out_def split: option.split)
  moreover have "split_inv w ds' pend'"
    using inv sw' line p
    by (auto simp: split_inv_def w_def take_Suc_conv_app_nth split: option.split)
  ultimately show thesis
    using that [of w ds' pend'] sw' line p by (simp add: w_def split: option.split)
qed

lemma split_loop_inv:
  assumes "split_inv v ds pend" "out_ptr v \<le> p" "terminated (drop p (sp_line v))"
    "length ds \<le> argv_limit n" "argv_limit n < n"
  shows "\<exists>v' ds' pend'. split_loop n p v = Some v' \<and> split_inv v' ds' pend' \<and>
    length (sp_line v') = length (sp_line v) \<and>
    out_ptr v' < length (sp_line v') \<and> length ds' \<le> argv_limit n \<and>
    take (argv_limit n) (ds @ expects (sp_state v) pend (cstr (sp_line v) p)) =
    take (argv_limit n) (ds' @ expects (sp_state v') pend' [])"
  using assms
proof (induction n p v arbitrary: ds pend rule: split_loop.induct)
  case (1 n p v)
  have p: "p < length (sp_line v)"
    using "1.prems"(3) by (cases "p < length (sp_line v)") (simp_all add: terminated_def)
  have argv: "length (sp_argv v) = length ds"
    using "1.prems"(1) by (simp add: split_inv_def)
  let ?c = "sp_line v ! p"
  have rest: "drop p (sp_line v) = ?c # drop (Suc p) (sp_line v)"
    using p by (simp add: Cons_nth_drop_Suc)
  consider "length ds = argv_limit n" | "length ds < argv_limit n" "?c = NUL"
    | "length ds < argv_limit n" "?c \<noteq> NUL"
    using "1.prems"(4) by linarith
  then show ?case
  proof cases
    case 1
    then have "split_loop n p v = Some v" using argv by (simp add: split_loop.simps)
    with 1 "1.prems" p show ?thesis by (intro exI [of _ v] exI [of _ ds] exI [of _ pend]) simp
  next
    case 2
    then have "split_loop n p v = Some v" "cstr (sp_line v) p = []"
      using argv p rest by (simp_all add: split_loop.simps cstr_def)
    with 2 "1.prems" p show ?thesis by (intro exI [of _ v] exI [of _ ds] exI [of _ pend]) simp
  next
    case 3
    obtain v' ds' pend' where st: "split_step n ?c v = Some v'" "split_inv v' ds' pend'"
      "out_ptr v' \<le> Suc p" "drop (Suc p) (sp_line v') = drop (Suc p) (sp_line v)"
      "length (sp_line v') = length (sp_line v)" "length ds' \<le> Suc (length ds)"
      "\<forall>r. ds' @ expects (sp_state v') pend' r = ds @ expects (sp_state v) pend (?c # r)"
      by (rule split_step_inv [OF "1.prems"(1,2) p 3(2) less_trans [OF 3(1) "1.prems"(5)]])
    have "split_loop n p v = split_loop n (p + 1) v'"
      using 3 argv p st(1) by (simp add: split_loop.simps [of n p v])
    moreover have "cstr (sp_line v) p = ?c # cstr (sp_line v') (p + 1)"
      using rest 3 st(4) by (simp add: cstr_def)
    moreover have "terminated (drop (p + 1) (sp_line v'))"
      using rest 3 st(4) "1.prems"(3) by (simp add: terminated_def)
    ultimately show ?thesis
      using "1.IH" [OF _ _ _ st(1), of ds' pend'] 3 argv p st "1.prems"(5) by simp
  qed
qed

lemma argv_limit: "0 < n \<Longrightarrow> n \<le> 2 ^ 32 \<Longrightarrow> argv_limit n = n - 1"
  by (cases n) (simp_all add: argv_limit_def)

lemma split_argv_run:
  assumes "terminated line" "0 < n" "n \<le> 2 ^ 32"
  obtains buf argv where "esp_console_split_argv line n = Some (buf, argv)"
    "length buf = length line" "map (cstr buf) argv = take (n - 1) (tokens (cstr line 0))"
proof -
  let ?n = "argv_limit n"
  have lim: "?n = n - 1" using assms by (simp add: argv_limit)
  obtain v ds pend where v: "split_loop n 0 (split_start line) = Some v" "split_inv v ds pend"
    "out_ptr v < length (sp_line v)" "length ds \<le> ?n" "length (sp_line v) = length line"
    "take ?n (tokens (cstr line 0)) = take ?n (ds @ expects (sp_state v) pend [])"
    using split_loop_inv [of "split_start line" "[]" "[]" 0 n] assms lim
    by (auto simp: split_start_def split_inv_def expects_def [of SS_SPACE])
  define es where "es = (if sp_state v \<noteq> SS_SPACE \<and> length ds < ?n then ds @ [pend] else ds)"
  define buf where "buf = (sp_line v)[out_ptr v := NUL]"
  define post where "post = drop (Suc (out_ptr v)) buf"
  have nul: "\<forall>s\<in>set (pend # ds). NUL \<notin> set s" using v(2) by (simp add: split_inv_def)
  have "take (Suc (out_ptr v)) buf = flat ds @ pend @ [NUL]"
    using v(2,3) by (simp add: buf_def take_Suc_conv_app_nth split_inv_def)
  then have buf: "buf = flat ds @ pend @ NUL # post"
    unfolding post_def by (metis append.assoc append_Cons append_Nil append_take_drop_id)
  have "map (cstr buf) (starts 0 es) = es"
    using nul cstr_starts [of ds "[]" "pend @ NUL # post"] cstr_starts [of "ds @ [pend]" "[]" post]
    unfolding buf es_def by simp
  moreover have "es = take ?n (ds @ expects (sp_state v) pend [])"
    using v(4) by (cases "?n - length ds") (auto simp: expects_end es_def)
  moreover have "esp_console_split_argv line n = Some (buf, starts 0 es)"
    using v(1-4) lim assms(2)
    by (auto simp: esp_console_split_argv_def put_out_def split_inv_def es_def buf_def)
  ultimately show thesis using that v(5,6) lim by (simp add: buf_def)
qed

text \<open>
  C9: For every line that ends inside its buffer, and every array with at least one slot, the
  routine that splits the line in place returns, keeps inside the line and inside the array, and
  \<^verbatim>\<open>argv\<close> then points to the first \<^verbatim>\<open>argv_size - 1\<close> arguments that the reference tokenizer finds
  in the line. With no slot the number of arguments is not limited: the array is overrun even
  when the line holds no argument at all.
\<close>

theorem split_matches_reference:
  assumes "terminated line" "argv_size \<le> 2 ^ 32"
  shows "if argv_size = 0 then esp_console_split_argv line argv_size = None
    else \<exists>buf argv. esp_console_split_argv line argv_size = Some (buf, argv) \<and> length buf = length line \<and>
      map (cstr buf) argv = take (argv_size - 1) (tokens (cstr line 0))"
proof (cases "argv_size = 0")
  case True
  then show ?thesis by (simp add: esp_console_split_argv_def split: option.split)
next
  case False
  with assms show ?thesis using split_argv_run by (metis gr0I)
qed

theorem split_matches_reference_witness:
  "\<exists>buf argv. esp_console_split_argv
       (''ls '' @ [QUOTE] @ ''a b'' @ [QUOTE, SPACE, ESCAPE, QUOTE] @ ''c'' @ [NUL] @ ''zz'') 3 = Some (buf, argv) \<and>
     map (cstr buf) argv = [''ls'', ''a b'']"
proof -
  let ?line = "''ls '' @ [QUOTE] @ ''a b'' @ [QUOTE, SPACE, ESCAPE, QUOTE] @ ''c'' @ [NUL] @ ''zz''"
  have "terminated ?line" by (simp add: terminated_def)
  moreover have "take 2 (tokens (cstr ?line 0)) = [''ls'', ''a b'']"
    by (simp add: cstr_def split_chars tokens.simps take_arg_unfold escape_of_def)
  ultimately show ?thesis using split_matches_reference [of ?line 3] by auto
qed

section \<open>Quoting\<close>

text \<open>The text a user types to pass a string as one argument.\<close>

definition quote_char :: "char \<Rightarrow> string" where
  "quote_char c = (if c = QUOTE \<or> c = ESCAPE then [ESCAPE, c] else [c])"

definition quote_arg :: "string \<Rightarrow> string" where
  "quote_arg s = QUOTE # concat (map quote_char s) @ [QUOTE]"

definition command_line :: "string list \<Rightarrow> string" where
  "command_line args = concat (map (\<lambda>s. quote_arg s @ [SPACE]) args)"

lemma take_arg_quoted: "take_arg QUOTE (concat (map quote_char s) @ QUOTE # r) = (s, r)"
  by (induction s) (simp_all add: take_arg_unfold quote_char_def escape_of_def)

lemma tokens_command_line: "tokens (command_line args) = args"
proof (induction args)
  case (Cons s args)
  then show ?case
    using take_arg_quoted [of s "SPACE # command_line args"]
    by (simp add: command_line_def quote_arg_def tokens.simps)
qed (simp add: command_line_def)

lemma NUL_command_line: "NUL \<in> set (command_line args) \<longleftrightarrow> (\<exists>s\<in>set args. NUL \<in> set s)"
  by (induction args) (auto simp: command_line_def quote_arg_def quote_char_def split: if_splits)

end
