(* ===== verification/Console.thy ===== *)
theory Console
  imports Split_Argv
begin

text \<open>
  The command interpreter of ESP-IDF, \<^verbatim>\<open>console/commands.c\<close>: the list of registered commands and
  the dispatch of a command line. The list is the linked list of the code, head first; a handler
  is whatever the application registers. The text of a hint is allocated memory: an item's hint
  is a null pointer, a pointer to its text, or a pointer to memory that has been freed; to free
  such memory once more, and an access outside a buffer, is the value \<open>None\<close>. What
  \<^verbatim>\<open>argtable3\<close> prints for a table and whether memory is available are arguments.
\<close>

section \<open>State\<close>

record esp_console_config_t =
  max_cmdline_length :: nat
  max_cmdline_args :: nat
  hint_color :: int
  hint_bold :: int

record 'f esp_console_cmd_t =
  ec_command :: "string option"
  ec_help :: "string option"
  ec_hint :: "string option"
  ec_func :: 'f
  ec_argtable :: "nat option"

datatype hint_ptr = HintNull | HintText string | HintFreed

record 'f cmd_item_t =
  ci_command :: string
  ci_help :: "string option"
  ci_hint :: hint_ptr
  ci_func :: 'f
  ci_argtable :: "nat option"

record 'f console =
  s_cmd_list :: "'f cmd_item_t list"
  s_config :: esp_console_config_t
  s_tmp_line_buf :: "string option"

text \<open>Whether an allocation succeeds, and the syntax that is printed for an argument table.\<close>

record console_env =
  item_memory :: bool
  text_memory :: bool
  arg_print_syntax :: "nat \<Rightarrow> string"

definition ANSI_COLOR_DEFAULT :: int where "ANSI_COLOR_DEFAULT = 39"

section \<open>Operations\<close>

definition esp_console_init ::
    "bool \<Rightarrow> esp_console_config_t option \<Rightarrow> 'f console \<Rightarrow> esp_err_t \<times> 'f console" where
  "esp_console_init memory config st = (case config of
     None \<Rightarrow> (ESP_ERR_INVALID_ARG, st)
   | Some cfg \<Rightarrow>
       if s_tmp_line_buf st \<noteq> None then (ESP_ERR_INVALID_STATE, st)
       else let st = st\<lparr>s_config :=
              if hint_color cfg = 0 then cfg\<lparr>hint_color := ANSI_COLOR_DEFAULT\<rparr> else cfg\<rparr>
            in if \<not> memory then (ESP_ERR_NO_MEM, st)
               else (ESP_OK, st\<lparr>s_tmp_line_buf := Some (replicate (max_cmdline_length cfg) NUL)\<rparr>))"

text \<open>\<^verbatim>\<open>free(item->hint)\<close>: freeing a null pointer does nothing.\<close>

definition free_hint :: "'f cmd_item_t \<Rightarrow> 'f cmd_item_t option" where
  "free_hint it = (case ci_hint it of
     HintNull \<Rightarrow> Some it
   | HintText t \<Rightarrow> Some (it\<lparr>ci_hint := HintFreed\<rparr>)
   | HintFreed \<Rightarrow> None)"

definition esp_console_deinit :: "'f console \<Rightarrow> (esp_err_t \<times> 'f console) option" where
  "esp_console_deinit st =
    (if s_tmp_line_buf st = None then Some (ESP_ERR_INVALID_STATE, st)
     else if \<exists>it\<in>set (s_cmd_list st). free_hint it = None then None
     else Some (ESP_OK, st\<lparr>s_tmp_line_buf := None, s_cmd_list := []\<rparr>))"

definition find_command_by_name :: "string \<Rightarrow> 'f cmd_item_t list \<Rightarrow> 'f cmd_item_t option" where
  "find_command_by_name name items =
    find (\<lambda>it. length (ci_command it) = length name \<and> name = ci_command it) items"

text \<open>
  The hint an item gets. A command without hint and argument table leaves the pointer as it is,
  and so does an \<^verbatim>\<open>asprintf\<close> that finds no memory.
\<close>

definition new_hint :: "console_env \<Rightarrow> 'f esp_console_cmd_t \<Rightarrow> hint_ptr \<Rightarrow> hint_ptr" where
  "new_hint env cmd h = (case ec_hint cmd of
     Some t \<Rightarrow> if text_memory env then HintText (SPACE # t) else h
   | None \<Rightarrow>
       (case ec_argtable cmd of
          Some tab \<Rightarrow> if text_memory env then HintText (arg_print_syntax env tab) else HintNull
        | None \<Rightarrow> h))"

text \<open>The item to fill in and the list without it: a new item or the one of that name.\<close>

definition take_item :: "console_env \<Rightarrow> string \<Rightarrow> 'f esp_console_cmd_t \<Rightarrow> 'f cmd_item_t list \<Rightarrow>
    (esp_err_t + 'f cmd_item_t \<times> 'f cmd_item_t list) option" where
  "take_item env name cmd items = (case find_command_by_name name items of
     None \<Rightarrow>
       if item_memory env
       then Some (Inr (\<lparr>ci_command = name, ci_help = None, ci_hint = HintNull, ci_func = ec_func cmd,
                        ci_argtable = None\<rparr>, items))
       else Some (Inl ESP_ERR_NO_MEM)
   | Some it \<Rightarrow> map_option (\<lambda>it'. Inr (it', remove1 it items)) (free_hint it))"

definition esp_console_cmd_register :: "console_env \<Rightarrow> 'f esp_console_cmd_t option \<Rightarrow> 'f console \<Rightarrow>
    (esp_err_t \<times> 'f console) option" where
  "esp_console_cmd_register env c st = (case c of
     None \<Rightarrow> Some (ESP_ERR_INVALID_ARG, st)
   | Some cmd \<Rightarrow>
       (case ec_command cmd of
          None \<Rightarrow> Some (ESP_ERR_INVALID_ARG, st)
        | Some name \<Rightarrow>
            if SPACE \<in> set name then Some (ESP_ERR_INVALID_ARG, st)
            else (case take_item env name cmd (s_cmd_list st) of
                None \<Rightarrow> None
              | Some (Inl err) \<Rightarrow> Some (err, st)
              | Some (Inr (item, items)) \<Rightarrow>
                  Some (ESP_OK, st\<lparr>s_cmd_list := items @ [item\<lparr>
                    ci_command := name, ci_help := ec_help cmd,
                    ci_hint := new_hint env cmd (ci_hint item),
                    ci_argtable := ec_argtable cmd, ci_func := ec_func cmd\<rparr>]\<rparr>))))"

text \<open>The completions that are added, in order.\<close>

definition esp_console_get_completion :: "string \<Rightarrow> 'f console \<Rightarrow> string list" where
  "esp_console_get_completion buf st =
    (if length buf = 0 then []
     else filter (\<lambda>name. take (length buf) name = buf) (map ci_command (s_cmd_list st)))"

text \<open>The hint, colour and weight of the command that is the whole line.\<close>

definition esp_console_get_hint :: "string \<Rightarrow> 'f console \<Rightarrow> (hint_ptr \<times> int \<times> int) option" where
  "esp_console_get_hint buf st =
    map_option (\<lambda>it. (ci_hint it, hint_color (s_config st), hint_bold (s_config st)))
      (find (\<lambda>it. length (ci_command it) = length buf \<and> take (length buf) (ci_command it) = buf)
        (s_cmd_list st))"

text \<open>\<^verbatim>\<open>strlcpy\<close>: as much of the string as fits, and a zero.\<close>

definition strlcpy :: "string \<Rightarrow> string \<Rightarrow> nat \<Rightarrow> string" where
  "strlcpy dst src n = (if n = 0 then dst else mem_write dst 0 (take (n - 1) src @ [NUL]))"

text \<open>
  The call \<^verbatim>\<open>(*cmd->func)(argc, argv)\<close> is the function \<open>call\<close>, on whatever state the handlers
  have. The answer is the result code, the result of the handler if one ran, and the states.
\<close>

definition esp_console_run ::
    "('f \<Rightarrow> string list \<Rightarrow> 'w \<Rightarrow> int \<times> 'w) \<Rightarrow> bool \<Rightarrow> string \<Rightarrow> 'f console \<Rightarrow> 'w \<Rightarrow>
     (esp_err_t \<times> int option \<times> 'f console \<times> 'w) option" where
  "esp_console_run call memory cmdline st w = (case s_tmp_line_buf st of
     None \<Rightarrow> Some (ESP_ERR_INVALID_STATE, None, st, w)
   | Some line \<Rightarrow>
       if \<not> memory then Some (ESP_ERR_NO_MEM, None, st, w)
       else (case esp_console_split_argv (strlcpy line cmdline (max_cmdline_length (s_config st)))
                    (max_cmdline_args (s_config st)) of
           None \<Rightarrow> None
         | Some (buf, argv) \<Rightarrow>
             let st = st\<lparr>s_tmp_line_buf := Some buf\<rparr>; args = map (cstr buf) argv in
             if args = [] then Some (ESP_ERR_INVALID_ARG, None, st, w)
             else (case find_command_by_name (hd args) (s_cmd_list st) of
                 None \<Rightarrow> Some (ESP_ERR_NOT_FOUND, None, st, w)
               | Some cmd \<Rightarrow>
                   (case call (ci_func cmd) args w of (r, w') \<Rightarrow> Some (ESP_OK, Some r, st, w')))))"

text \<open>The entries that \<^verbatim>\<open>help\<close> prints: name, hint, help text, argument table.\<close>

definition help_command :: "'f console \<Rightarrow> (string \<times> hint_ptr \<times> string \<times> nat option) list" where
  "help_command st = List.map_filter
    (\<lambda>it. map_option (\<lambda>h. (ci_command it, ci_hint it, h, ci_argtable it)) (ci_help it)) (s_cmd_list st)"

definition esp_console_register_help_command :: "'f \<Rightarrow> console_env \<Rightarrow> 'f console \<Rightarrow> (esp_err_t \<times> 'f console) option" where
  "esp_console_register_help_command help_func env =
    esp_console_cmd_register env (Some \<lparr>ec_command = Some ''help'',
      ec_help = Some ''Print the list of registered commands'', ec_hint = None,
      ec_func = help_func, ec_argtable = None\<rparr>)"

section \<open>A table of commands\<close>

text \<open>What a client of the registry relies on: the last entry put under a name is the one found.\<close>

locale command_table =
  fixes put :: "'c \<Rightarrow> 's \<Rightarrow> 's" and get :: "string \<Rightarrow> 's \<Rightarrow> 'c option"
    and key :: "'c \<Rightarrow> string" and ok :: "'s \<Rightarrow> bool"
  assumes ok_put: "ok s \<Longrightarrow> ok (put c s)"
    and get_put: "ok s \<Longrightarrow> get n (put c s) = (if n = key c then Some c else get n s)"
begin

lemma ok_put_all: "ok s \<Longrightarrow> ok (fold put cs s)"
  by (induction cs arbitrary: s) (simp_all add: ok_put)

lemma get_other: "ok s \<Longrightarrow> n \<notin> key ` set cs \<Longrightarrow> get n (fold put cs s) = get n s"
  by (induction cs arbitrary: s) (auto simp: ok_put get_put)

lemma get_registered:
  "ok s \<Longrightarrow> distinct (map key cs) \<Longrightarrow> c \<in> set cs \<Longrightarrow> get (key c) (fold put cs s) = Some c"
  by (induction cs arbitrary: s) (auto simp: ok_put get_put get_other)

end

text \<open>The list after a registration: the item of the same name leaves, the new one goes to the end.\<close>

definition slist_put :: "'f cmd_item_t \<Rightarrow> 'f cmd_item_t list \<Rightarrow> 'f cmd_item_t list" where
  "slist_put it items = (case find_command_by_name (ci_command it) items of
     None \<Rightarrow> items | Some old \<Rightarrow> remove1 old items) @ [it]"

definition names_distinct :: "'f cmd_item_t list \<Rightarrow> bool" where
  "names_distinct items \<longleftrightarrow> distinct (map ci_command items)"

lemma find_command: "find_command_by_name name items = find (\<lambda>it. ci_command it = name) items"
  unfolding find_command_by_name_def by (rule arg_cong [of _ _ "\<lambda>P. find P items"]) auto

lemma find_command_iff:
  "names_distinct items \<Longrightarrow>
   find_command_by_name name items = Some it \<longleftrightarrow> it \<in> set items \<and> ci_command it = name"
  by (induction items) (auto simp: find_command names_distinct_def)

lemma find_command_None: "find_command_by_name name items = None \<longleftrightarrow> name \<notin> ci_command ` set items"
  by (auto simp: find_command find_None_iff)

lemma names_remove1: "names_distinct items \<Longrightarrow> names_distinct (remove1 x items)"
  by (induction items) (auto simp: names_distinct_def image_iff dest: notin_set_remove1)

lemma set_remove_named:
  "names_distinct items \<Longrightarrow> find_command_by_name n items = Some old \<Longrightarrow>
   set (remove1 old items) = {it \<in> set items. ci_command it \<noteq> n}"
  by (auto simp: find_command_iff names_distinct_def set_remove1_eq distinct_map inj_on_def)

lemma set_slist_put:
  "names_distinct items \<Longrightarrow>
   set (slist_put it items) = insert it {x \<in> set items. ci_command x \<noteq> ci_command it}"
  by (auto simp: slist_put_def find_command_None image_iff set_remove_named split: option.split)

lemma names_slist_put: "names_distinct items \<Longrightarrow> names_distinct (slist_put it items)"
  using names_remove1 [of items] set_remove_named [of items "ci_command it"]
  by (fastforce simp: slist_put_def names_distinct_def find_command_None split: option.split)

lemma find_slist_put:
  assumes "names_distinct items"
  shows "find_command_by_name n (slist_put it items) =
    (if n = ci_command it then Some it else find_command_by_name n items)"
proof (cases "n = ci_command it")
  case True
  then show ?thesis using assms by (simp add: find_command_iff names_slist_put set_slist_put)
next
  case False
  have "find_command_by_name n (slist_put it items) = Some x \<longleftrightarrow> find_command_by_name n items = Some x" for x
    using False assms by (auto simp: find_command_iff names_slist_put set_slist_put)
  with False show ?thesis by (metis not_None_eq)
qed

interpretation commands: command_table slist_put find_command_by_name ci_command names_distinct
  by unfold_locales (simp_all add: names_slist_put find_slist_put)

section \<open>Invariant\<close>

definition console_ok :: "'f console \<Rightarrow> bool" where
  "console_ok st \<longleftrightarrow> names_distinct (s_cmd_list st) \<and>
     (\<forall>it\<in>set (s_cmd_list st). ci_hint it \<noteq> HintFreed \<and> SPACE \<notin> set (ci_command it)) \<and>
     (\<forall>line. s_tmp_line_buf st = Some line \<longrightarrow> length line = max_cmdline_length (s_config st))"

text \<open>The item that a command describes.\<close>

definition item_of :: "console_env \<Rightarrow> string \<Rightarrow> 'f esp_console_cmd_t \<Rightarrow> hint_ptr \<Rightarrow> 'f cmd_item_t" where
  "item_of env name cmd h = \<lparr>ci_command = name, ci_help = ec_help cmd, ci_hint = new_hint env cmd h,
     ci_func = ec_func cmd, ci_argtable = ec_argtable cmd\<rparr>"

definition brings_hint :: "console_env \<Rightarrow> 'f esp_console_cmd_t \<Rightarrow> bool" where
  "brings_hint env cmd \<longleftrightarrow> ec_hint cmd \<noteq> None \<and> text_memory env \<or> ec_hint cmd = None \<and> ec_argtable cmd \<noteq> None"

lemma new_hint_brought: "brings_hint env cmd \<Longrightarrow> new_hint env cmd h = new_hint env cmd HintNull"
  by (auto simp: brings_hint_def new_hint_def split: option.split)

lemma new_hint_null: "new_hint env cmd HintNull \<noteq> HintFreed"
  by (auto simp: new_hint_def split: option.split)

text \<open>A registration that finds its memory puts the item; \<open>h\<close> is the hint the item had before.\<close>

lemma register_puts:
  assumes "ec_command cmd = Some name" "SPACE \<notin> set name" "item_memory env"
    and h: "(case find_command_by_name name (s_cmd_list st) of None \<Rightarrow> Some HintNull
           | Some it \<Rightarrow> map_option ci_hint (free_hint it)) = Some h"
  shows "esp_console_cmd_register env (Some cmd) st =
    Some (ESP_OK, st\<lparr>s_cmd_list := slist_put (item_of env name cmd h) (s_cmd_list st)\<rparr>)"
  using assms
  by (auto simp: esp_console_cmd_register_def take_item_def item_of_def slist_put_def
      split: option.splits)

lemma freed_hint:
  "ci_hint it \<noteq> HintFreed \<Longrightarrow>
   map_option ci_hint (free_hint it) = Some (if ci_hint it = HintNull then HintNull else HintFreed)"
  by (auto simp: free_hint_def split: hint_ptr.split)

text \<open>
  C14: The registry is a table of commands by name. Registering a command that is valid and finds
  memory succeeds and enters exactly what the command describes under its name, over whatever was
  there, and changes no other name; the command becomes the last of the list, names stay unique,
  and no item points to freed memory. The one condition, that a command registered again brings a
  hint or an argument table when the old item had a hint, is what the code needs.
\<close>

theorem register_refines_table:
  assumes "console_ok st" "ec_command cmd = Some name" "SPACE \<notin> set name" "item_memory env"
    and "brings_hint env cmd \<or>
      (\<forall>it. find_command_by_name name (s_cmd_list st) = Some it \<longrightarrow> ci_hint it = HintNull)"
  shows "\<exists>st'. esp_console_cmd_register env (Some cmd) st = Some (ESP_OK, st') \<and> console_ok st' \<and>
    (\<lambda>n. find_command_by_name n (s_cmd_list st')) =
      (\<lambda>n. find_command_by_name n (s_cmd_list st))(name \<mapsto> item_of env name cmd HintNull) \<and>
    ci_command (last (s_cmd_list st')) = name"
proof -
  let ?it = "item_of env name cmd HintNull"
  let ?st = "st\<lparr>s_cmd_list := slist_put ?it (s_cmd_list st)\<rparr>"
  have ok: "names_distinct (s_cmd_list st)" using assms(1) by (simp add: console_ok_def)
  have "\<exists>h. (case find_command_by_name name (s_cmd_list st) of None \<Rightarrow> Some HintNull
      | Some it \<Rightarrow> map_option ci_hint (free_hint it)) = Some h \<and>
      item_of env name cmd h = ?it"
    using assms(1,5) new_hint_brought [of env cmd]
    by (auto simp: freed_hint console_ok_def find_command_iff [OF ok] item_of_def split: option.split)
  then have "esp_console_cmd_register env (Some cmd) st = Some (ESP_OK, ?st)"
    using register_puts [OF assms(2-4)] by metis
  moreover have "console_ok ?st"
    using assms(1,3) ok
    by (auto simp: console_ok_def commands.ok_put set_slist_put item_of_def new_hint_null)
  moreover have "ci_command (last (s_cmd_list ?st)) = name"
    by (simp add: slist_put_def item_of_def)
  ultimately show ?thesis
    using ok by (intro exI [of _ ?st]) (auto simp: commands.get_put item_of_def fun_eq_iff)
qed

definition demo_console_env :: console_env where
  "demo_console_env = \<lparr>item_memory = True, text_memory = True, arg_print_syntax = \<lambda>_. '' <n>''\<rparr>"

definition demo_cmd :: "string option \<Rightarrow> nat esp_console_cmd_t" where
  "demo_cmd h = \<lparr>ec_command = Some ''blink'', ec_help = None, ec_hint = h, ec_func = 7, ec_argtable = None\<rparr>"

definition demo_console :: "nat console" where
  "demo_console = \<lparr>s_cmd_list = [\<lparr>ci_command = ''blink'', ci_help = None, ci_hint = HintText '' <n>'',
      ci_func = 3, ci_argtable = None\<rparr>],
    s_config = \<lparr>max_cmdline_length = 64, max_cmdline_args = 8, hint_color = 39, hint_bold = 0\<rparr>,
    s_tmp_line_buf = Some (replicate 64 NUL)\<rparr>"

lemma demo_console_ok: "console_ok demo_console"
  by (simp add: console_ok_def demo_console_def names_distinct_def SPACE_def)

theorem register_refines_table_witness:
  "\<exists>st'. esp_console_cmd_register demo_console_env (Some (demo_cmd (Some ''<ms>''))) demo_console = Some (ESP_OK, st') \<and>
     find_command_by_name ''blink'' (s_cmd_list st') = Some (item_of demo_console_env ''blink'' (demo_cmd (Some ''<ms>'')) HintNull)"
  using register_refines_table [of demo_console "demo_cmd (Some ''<ms>'')" "''blink''" demo_console_env] demo_console_ok
  by (auto simp: demo_cmd_def demo_console_env_def brings_hint_def SPACE_def fun_upd_def fun_eq_iff)

lemma get_hint_find:
  "esp_console_get_hint buf st =
    map_option (\<lambda>it. (ci_hint it, hint_color (s_config st), hint_bold (s_config st)))
      (find_command_by_name buf (s_cmd_list st))"
proof -
  have "(\<lambda>it. length (ci_command it) = length buf \<and> take (length buf) (ci_command it) = buf) =
      (\<lambda>it. ci_command it = buf)"
    by auto
  then show ?thesis unfolding esp_console_get_hint_def find_command by metis
qed

text \<open>
  Registering a command again without a hint and without an argument table, when the item had
  a hint, leaves the item with the pointer that the call has just freed. The call reports success;
  afterwards the hint of the command is freed memory, and to register the command a third time or to
  shut the console down frees it once more.
\<close>

theorem reregistered_hint_dangles:
  assumes "console_ok st" "s_tmp_line_buf st \<noteq> None"
    and "find_command_by_name name (s_cmd_list st) = Some it" "ci_hint it = HintText t"
    and "ec_command cmd = Some name" "ec_hint cmd = None" "ec_argtable cmd = None" "item_memory env"
  shows "\<exists>st'. esp_console_cmd_register env (Some cmd) st = Some (ESP_OK, st') \<and>
    map_option fst (esp_console_get_hint name st') = Some HintFreed \<and>
    esp_console_cmd_register env (Some cmd) st' = None \<and> esp_console_deinit st' = None"
proof -
  let ?it = "item_of env name cmd HintFreed"
  let ?st = "st\<lparr>s_cmd_list := slist_put ?it (s_cmd_list st)\<rparr>"
  have ok: "names_distinct (s_cmd_list st)" using assms(1) by (simp add: console_ok_def)
  have name: "SPACE \<notin> set name" using assms(1,3) by (auto simp: console_ok_def find_command_iff [OF ok])
  have hint: "ci_hint ?it = HintFreed" using assms(6,7) by (simp add: item_of_def new_hint_def)
  have found: "find_command_by_name name (s_cmd_list ?st) = Some ?it"
    using ok by (simp add: commands.get_put item_of_def)
  have "esp_console_cmd_register env (Some cmd) st = Some (ESP_OK, ?st)"
    by (rule register_puts) (use assms name in \<open>simp_all add: free_hint_def\<close>)
  moreover have "esp_console_cmd_register env (Some cmd) ?st = None"
    using assms(5) name found hint
    by (simp add: esp_console_cmd_register_def take_item_def free_hint_def)
  moreover have "esp_console_deinit ?st = None"
    using assms(2) hint ok by (auto simp: esp_console_deinit_def set_slist_put free_hint_def)
  moreover have "map_option fst (esp_console_get_hint name ?st) = Some HintFreed"
    using found hint by (simp add: get_hint_find)
  ultimately show ?thesis by blast
qed

theorem reregistered_hint_dangles_witness:
  "\<exists>st'. esp_console_cmd_register demo_console_env (Some (demo_cmd None)) demo_console = Some (ESP_OK, st') \<and>
     esp_console_deinit st' = None"
  using reregistered_hint_dangles [of demo_console "''blink''" "hd (s_cmd_list demo_console)" "'' <n>''" "demo_cmd None" demo_console_env]
    demo_console_ok
  by (auto simp: demo_cmd_def demo_console_env_def demo_console_def find_command)

section \<open>Dispatch\<close>

lemma strlcpy_line:
  "0 < n \<Longrightarrow> length line = n \<Longrightarrow> \<exists>rest. strlcpy line src n = take (n - 1) src @ NUL # rest \<and>
     length (strlcpy line src n) = n"
  by (auto simp: strlcpy_def mem_write_def)

text \<open>Any line, in terms of the reference tokenizer; what does not fit is cut off.\<close>

lemma run_line:
  assumes "console_ok st" "s_tmp_line_buf st \<noteq> None" "NUL \<notin> set cmdline"
    and "0 < max_cmdline_length (s_config st)"
    and "0 < max_cmdline_args (s_config st)" "max_cmdline_args (s_config st) \<le> 2 ^ 32"
    and "args = take (max_cmdline_args (s_config st) - 1)
      (tokens (take (max_cmdline_length (s_config st) - 1) cmdline))"
  obtains buf where "esp_console_run call True cmdline st w =
      (let st' = st\<lparr>s_tmp_line_buf := Some buf\<rparr> in
       if args = [] then Some (ESP_ERR_INVALID_ARG, None, st', w)
       else case find_command_by_name (hd args) (s_cmd_list st) of
         None \<Rightarrow> Some (ESP_ERR_NOT_FOUND, None, st', w)
       | Some cmd \<Rightarrow> Some (ESP_OK, Some (fst (call (ci_func cmd) args w)), st', snd (call (ci_func cmd) args w)))"
    "console_ok (st\<lparr>s_tmp_line_buf := Some buf\<rparr>)"
proof -
  let ?n = "max_cmdline_length (s_config st)"
  obtain line where line: "s_tmp_line_buf st = Some line" using assms(2) by blast
  have len: "length line = ?n" using assms(1) line by (simp add: console_ok_def)
  obtain rest where copy: "strlcpy line cmdline ?n = take (?n - 1) cmdline @ NUL # rest"
      "length (strlcpy line cmdline ?n) = ?n"
    using strlcpy_line [OF assms(4) len] by blast
  have nul: "NUL \<notin> set (take (?n - 1) cmdline)" using assms(3) by (meson in_set_takeD)
  then have str: "cstr (strlcpy line cmdline ?n) 0 = take (?n - 1) cmdline"
    using cstr_prefix [of _ "[]" rest] copy by simp
  obtain buf argv where split: "esp_console_split_argv (strlcpy line cmdline ?n) (max_cmdline_args (s_config st)) = Some (buf, argv)"
      "length buf = ?n" "map (cstr buf) argv = args"
    using split_argv_run [of "strlcpy line cmdline ?n" "max_cmdline_args (s_config st)" thesis] assms(5-7) copy str
    by (auto simp: terminated_def)
  have "console_ok (st\<lparr>s_tmp_line_buf := Some buf\<rparr>)" using assms(1) split(2) by (simp add: console_ok_def)
  moreover have "argv = [] \<longleftrightarrow> args = []" using split(3) by auto
  ultimately show thesis
    using that [of buf] line split
    by (simp add: esp_console_run_def Let_def case_prod_beta del: map_eq_Cons_conv split: option.split)
qed

text \<open>
  C15: A command line means what was typed. In a console with a line buffer, the line that quotes a
  registered name and any strings without a zero byte, if it is shorter than the buffer and has fewer
  words than the array of arguments has places, runs the handler of that command once, with
  exactly these strings, and reports its result; the console stays sound. A name that is not
  registered runs nothing and is reported as not found.
\<close>

theorem console_runs_quoted_line:
  assumes "console_ok st" "s_tmp_line_buf st \<noteq> None" "\<forall>s\<in>set (name # args). NUL \<notin> set s"
    and "length (command_line (name # args)) < max_cmdline_length (s_config st)"
    and "Suc (length args) < max_cmdline_args (s_config st)" "max_cmdline_args (s_config st) \<le> 2 ^ 32"
  shows "\<exists>st'. esp_console_run call True (command_line (name # args)) st w =
      (case find_command_by_name name (s_cmd_list st) of
         None \<Rightarrow> Some (ESP_ERR_NOT_FOUND, None, st', w)
       | Some cmd \<Rightarrow> Some (ESP_OK, Some (fst (call (ci_func cmd) (name # args) w)), st',
           snd (call (ci_func cmd) (name # args) w))) \<and>
    console_ok st' \<and> s_cmd_list st' = s_cmd_list st \<and> s_config st' = s_config st"
proof -
  let ?n = "max_cmdline_args (s_config st)" and ?l = "command_line (name # args)"
  have "take (?n - 1) (tokens (take (max_cmdline_length (s_config st) - 1) ?l)) = name # args"
    using assms(4,5) by (simp add: tokens_command_line)
  moreover have "NUL \<notin> set ?l" using assms(3) by (simp add: NUL_command_line)
  ultimately obtain buf where "esp_console_run call True ?l st w =
      (let st' = st\<lparr>s_tmp_line_buf := Some buf\<rparr> in
       case find_command_by_name name (s_cmd_list st) of
         None \<Rightarrow> Some (ESP_ERR_NOT_FOUND, None, st', w)
       | Some cmd \<Rightarrow> Some (ESP_OK, Some (fst (call (ci_func cmd) (name # args) w)), st',
           snd (call (ci_func cmd) (name # args) w)))"
    "console_ok (st\<lparr>s_tmp_line_buf := Some buf\<rparr>)"
    using run_line [OF assms(1,2), of ?l "name # args" call w thesis] assms(4-6) by auto
  then show ?thesis
    by (intro exI [of _ "st\<lparr>s_tmp_line_buf := Some buf\<rparr>"]) (simp add: Let_def)
qed

theorem console_runs_quoted_line_witness:
  "\<exists>st'. esp_console_run (\<lambda>f args w. (int (length args), w + f)) True (command_line [''blink'', ''a b'']) demo_console 10 =
     Some (ESP_OK, Some 2, st', 13)"
  using console_runs_quoted_line [of demo_console "''blink''" "[''a b'']" "\<lambda>f args w. (int (length args), w + f)" 10]
    demo_console_ok
  by (auto simp: demo_console_def find_command command_line_def quote_arg_def quote_char_def split_chars)

end
