(* ===== verification/Esp_Cli.thy ===== *)
theory Esp_Cli
  imports Console
begin

text \<open>
  The command line of the floor detector, \<^verbatim>\<open>floor_detection/main/esp_cli.c\<close>: the task that collects
  a line from the serial port and hands it to the console, the commands it offers, and the table of
  test images. The serial driver is the sequence of what its event queue delivers: a failed
  receive, an event of another type, or data, the bytes that are read until none is left. The
  line is collected in an array of 256 bytes; the byte in front of it, which the code reads when a
  line is still empty, is an argument. An access that would change memory outside the array is a
  fault.
\<close>

definition CR :: char where "CR = CHR 0x0D"

section \<open>Commands\<close>

definition IMAGE_COUNT :: nat where "IMAGE_COUNT = 10"

datatype cli_func = Help_func | Mem_dump_func | Task_dump_func | Cpu_dump_func | Inference_func

datatype cli_out =
    Echo string
  | Message string
  | Help_page "(string \<times> hint_ptr \<times> string \<times> nat option) list"
  | Task_table "(string \<times> nat \<times> nat \<times> nat) list"
  | Mem_table "(nat \<times> nat) list"
  | Run_time_stats

text \<open>The test images are known by their number; a null pointer is \<open>None\<close>.\<close>

record cli_world =
  image_database :: "nat option list"
  cli_started :: bool
  inferences :: "nat option list"
  cli_output :: "cli_out list"

text \<open>What the system answers: free memory, tasks, and whether memory is available.\<close>

record cli_env =
  free_8bit :: nat
  free_spiram :: nat
  largest_internal :: nat
  largest_spiram :: nat
  minimum_8bit :: nat
  minimum_spiram :: nat
  task_list :: "(string \<times> nat \<times> nat \<times> nat) list"
  table_memory :: bool
  argv_memory :: bool

definition say :: "cli_out list \<Rightarrow> cli_world \<Rightarrow> cli_world" where
  "say out w = w\<lparr>cli_output := cli_output w @ out\<rparr>"

definition task_dump_cli_handler :: "cli_env \<Rightarrow> cli_world \<Rightarrow> int \<times> cli_world" where
  "task_dump_cli_handler env w =
    (if \<not> table_memory env then (0, say [Message ''Memory not allocated for task list.''] w)
     else (0, say [Task_table (task_list env)] w))"

definition cpu_dump_cli_handler :: "cli_world \<Rightarrow> int \<times> cli_world" where
  "cpu_dump_cli_handler w = (0, say [Run_time_stats] w)"

text \<open>The differences of sizes are \<^verbatim>\<open>size_t\<close> values.\<close>

definition mem_dump_cli_handler :: "cli_env \<Rightarrow> cli_world \<Rightarrow> int \<times> cli_world" where
  "mem_dump_cli_handler env w = (0, say [Mem_table
     [(wrap32 (free_8bit env + 2 ^ 32 - free_spiram env), free_spiram env),
      (largest_internal env, largest_spiram env),
      (wrap32 (minimum_8bit env + 2 ^ 32 - minimum_spiram env), minimum_spiram env)]] w)"

text \<open>\<^verbatim>\<open>atoi\<close>: blanks, a sign, digits; a value outside the range of \<^verbatim>\<open>long\<close> becomes its bound.\<close>

definition isspace :: "char \<Rightarrow> bool" where
  "isspace c \<longleftrightarrow> c = SPACE \<or> 9 \<le> (of_char c :: nat) \<and> (of_char c :: nat) \<le> 13"

definition isdigit :: "char \<Rightarrow> bool" where
  "isdigit c \<longleftrightarrow> 48 \<le> (of_char c :: nat) \<and> (of_char c :: nat) \<le> 57"

definition digits_value :: "string \<Rightarrow> int" where
  "digits_value s = foldl (\<lambda>v c. 10 * v + (of_char c - 48)) 0 (takeWhile isdigit s)"

definition atoi :: "string \<Rightarrow> int" where
  "atoi s = (let t = dropWhile isspace s;
      v = (if t \<noteq> [] \<and> hd t = CHR 0x2D then - digits_value (tl t)
           else if t \<noteq> [] \<and> hd t = CHR 0x2B then digits_value (tl t) else digits_value t)
    in max (- (2 ^ 31)) (min (2 ^ 31 - 1) v))"

definition inference_cli_handler :: "string list \<Rightarrow> cli_world \<Rightarrow> int \<times> cli_world" where
  "inference_cli_handler argv w =
    (if length argv \<noteq> 2 then (0, say [Message ''Incorrect arguments''] w)
     else let image_number = atoi (argv ! 1) in
       if image_number < 0 \<or> image_number \<ge> int IMAGE_COUNT
       then (-1, say [Message ''Please Enter a valid Number''] w)
       else (0, w\<lparr>inferences := inferences w @ [image_database w ! nat image_number]\<rparr>))"

definition cli_call :: "cli_env \<Rightarrow> cli_func console \<Rightarrow> cli_func \<Rightarrow> string list \<Rightarrow> cli_world \<Rightarrow> int \<times> cli_world" where
  "cli_call env st f argv w = (case f of
     Help_func \<Rightarrow> (0, say [Help_page (help_command st)] w)
   | Mem_dump_func \<Rightarrow> mem_dump_cli_handler env w
   | Task_dump_func \<Rightarrow> task_dump_cli_handler env w
   | Cpu_dump_func \<Rightarrow> cpu_dump_cli_handler w
   | Inference_func \<Rightarrow> inference_cli_handler argv w)"

definition diag_cmds :: "cli_func esp_console_cmd_t list" where
  "diag_cmds =
    [\<lparr>ec_command = Some ''mem-dump'', ec_help = Some '''', ec_hint = None, ec_func = Mem_dump_func, ec_argtable = None\<rparr>,
     \<lparr>ec_command = Some ''task-dump'', ec_help = Some '''', ec_hint = None, ec_func = Task_dump_func, ec_argtable = None\<rparr>,
     \<lparr>ec_command = Some ''cpu-dump'', ec_help = Some '''', ec_hint = None, ec_func = Cpu_dump_func, ec_argtable = None\<rparr>,
     \<lparr>ec_command = Some ''detect_image'',
      ec_help = Some ''detect_image <image_number>Note: image numbers ranging from 0 - 9 only are valid'',
      ec_hint = None, ec_func = Inference_func, ec_argtable = None\<rparr>]"

text \<open>The results of the registrations are not looked at.\<close>

definition esp_cli_register_cmds :: "console_env \<Rightarrow> cli_func console \<Rightarrow> cli_func console option" where
  "esp_cli_register_cmds env st = fold (\<lambda>cmd r. case r of None \<Rightarrow> None
      | Some st \<Rightarrow> map_option snd (esp_console_cmd_register env (Some cmd) st)) diag_cmds (Some st)"

definition image_database_init :: "cli_world \<Rightarrow> cli_world" where
  "image_database_init w = w\<lparr>image_database :=
     [Some 0, Some 1, Some 2, Some 3, Some 4, Some 5, Some 6, Some 8, Some 8, Some 9]\<rparr>"

text \<open>Whether the task is created is an argument.\<close>

definition esp_cli_init :: "bool \<Rightarrow> cli_world \<Rightarrow> int \<times> cli_world" where
  "esp_cli_init created w =
    (let w = image_database_init w in
     if cli_started w then (0, w)
     else if \<not> created then (-1, w) else (0, w\<lparr>cli_started := True\<rparr>))"

section \<open>Reading a line\<close>

datatype uart_ev = Receive_failed | Other_event | Uart_data string

datatype cli_fault = Line_overrun | Line_unterminated | Line_underrun | Console_fault

definition stop :: int where "stop = 0"

primrec read_bytes :: "string \<Rightarrow> string \<Rightarrow> nat \<Rightarrow> cli_out list \<Rightarrow> cli_fault + (string \<times> nat \<times> cli_out list)" where
  "read_bytes [] linebuf i out = Inr (linebuf, i, out)"
| "read_bytes (c # cs) linebuf i out =
    (if i < length linebuf
     then read_bytes cs (linebuf[i := c]) (i + 1) (out @ [Echo (if c = CR then [CR, CHR 0x0A] else [c])])
     else Inl Line_overrun)"

text \<open>
  The \<^verbatim>\<open>do\<close> loop. A \<^verbatim>\<open>continue\<close> goes to the condition of the loop, so that it is evaluated
  after every event. \<open>None\<close>: still waiting for an event.
\<close>

fun read_line :: "char \<Rightarrow> uart_ev list \<Rightarrow> string \<Rightarrow> nat \<Rightarrow> cli_out list \<Rightarrow>
    (cli_fault + (string \<times> nat \<times> cli_out list \<times> uart_ev list)) option" where
  "read_line before [] linebuf i out = None"
| "read_line before (ev # evs) linebuf i out =
    (case (case ev of Uart_data cs \<Rightarrow> read_bytes cs linebuf i out | _ \<Rightarrow> Inr (linebuf, i, out)) of
       Inl f \<Rightarrow> Some (Inl f)
     | Inr (linebuf, i, out) \<Rightarrow>
         if ev = Receive_failed \<and> stop = 1 then Some (Inr (linebuf, i, out, evs))
         else if i < 255 \<and> (if i = 0 then before else linebuf ! (i - 1)) \<noteq> CR
         then read_line before evs linebuf i out
         else Some (Inr (linebuf, i, out, evs)))"

text \<open>\<^verbatim>\<open>linebuf[strlen(linebuf) - 1] = 0\<close>, and the string that is left.\<close>

definition cut_line :: "string \<Rightarrow> cli_fault + string" where
  "cut_line linebuf =
    (if NUL \<notin> set linebuf then Inl Line_unterminated
     else let n = length (cstr linebuf 0) in
       if n = 0 then Inl Line_underrun else Inr (cstr (linebuf[n - 1 := NUL]) 0))"

datatype cli_end =
    Cli_waiting "cli_func console" cli_world
  | Cli_stopped "cli_func console" cli_world
  | Cli_fault cli_fault

lemma read_line_consumes:
  "read_line before evs linebuf i out = Some (Inr (linebuf', i', out', evs')) \<Longrightarrow> length evs' < length evs"
proof (induction evs arbitrary: linebuf i out)
  case (Cons ev evs)
  from Cons.prems show ?case
    by (cases "case ev of Uart_data cs \<Rightarrow> read_bytes cs linebuf i out | _ \<Rightarrow> Inr (linebuf, i, out)")
       (auto split: if_splits dest!: Cons.IH)
qed simp

function cli_loop :: "char \<Rightarrow> cli_env \<Rightarrow> uart_ev list \<Rightarrow> cli_func console \<Rightarrow> cli_world \<Rightarrow> cli_end" where
  "cli_loop before env evs st w =
    (if stop \<noteq> 0 then Cli_stopped st w
     else let w = say [Echo (CHR 0x0A # ''>> '')] w in
     (case read_line before evs (replicate 256 NUL) 0 [] of
        None \<Rightarrow> Cli_waiting st w
      | Some (Inl f) \<Rightarrow> Cli_fault f
      | Some (Inr (linebuf, i, out, evs')) \<Rightarrow>
          if stop \<noteq> 0 then Cli_stopped st w
          else (case cut_line linebuf of
              Inl f \<Rightarrow> Cli_fault f
            | Inr line \<Rightarrow>
                (case esp_console_run (cli_call env st) (argv_memory env) line st (say out w) of
                   None \<Rightarrow> Cli_fault Console_fault
                 | Some (ret, cmd_ret, st, w) \<Rightarrow>
                     if ret < 0 then Cli_stopped st (say [Message ''Console dispatcher error''] w)
                     else cli_loop before env evs' st w))))"
  by pat_completeness auto
termination
  by (relation "measure (\<lambda>(before, env, evs, st, w). length evs)") (auto dest: read_line_consumes)

declare cli_loop.simps [simp del]

text \<open>The task: the results of the two calls that prepare the console are not looked at.\<close>

definition cli_config :: esp_console_config_t where
  "cli_config = \<lparr>max_cmdline_length = 256, max_cmdline_args = 8, hint_color = 0, hint_bold = 0\<rparr>"

definition cli_prepare :: "bool \<Rightarrow> console_env \<Rightarrow> cli_func console \<Rightarrow> cli_func console option" where
  "cli_prepare memory cenv st =
    map_option snd (esp_console_register_help_command Help_func cenv (snd (esp_console_init memory (Some cli_config) st)))"

definition esp_cli_task :: "char \<Rightarrow> bool \<Rightarrow> console_env \<Rightarrow> cli_env \<Rightarrow> uart_ev list \<Rightarrow> cli_func console \<Rightarrow> cli_world \<Rightarrow> cli_end" where
  "esp_cli_task before memory cenv env evs st w = (case cli_prepare memory cenv st of
     None \<Rightarrow> Cli_fault Console_fault
   | Some st \<Rightarrow> cli_loop before env evs st w)"

section \<open>Lines that are typed\<close>

definition ev_bytes :: "uart_ev \<Rightarrow> string" where
  "ev_bytes ev = (case ev of Uart_data cs \<Rightarrow> cs | _ \<Rightarrow> [])"

definition echoes :: "string \<Rightarrow> cli_out list" where
  "echoes cs = map (\<lambda>c. Echo (if c = CR then [CR, CHR 0x0A] else [c])) cs"

lemma read_bytes_eq:
  "read_bytes cs linebuf i out =
    (if i + length cs \<le> length linebuf \<or> cs = [] then Inr (mem_write linebuf i cs, i + length cs, out @ echoes cs)
     else Inl Line_overrun)"
proof (induction cs arbitrary: linebuf i out)
  case (Cons c cs)
  have "mem_write (linebuf[i := c]) (Suc i) cs = mem_write linebuf i (c # cs)" if "i < length linebuf"
    using that by (simp add: mem_write_def take_Suc_conv_app_nth)
  then show ?case by (auto simp: Cons.IH echoes_def)
qed (simp add: mem_write_def echoes_def)

text \<open>The array while a line comes in: the bytes so far, then zeros.\<close>

definition line_image :: "string \<Rightarrow> string" where
  "line_image cs = cs @ replicate (256 - length cs) NUL"

lemma length_line_image [simp]: "length cs \<le> 256 \<Longrightarrow> length (line_image cs) = 256"
  by (simp add: line_image_def)

lemma line_image_last: "cs \<noteq> [] \<Longrightarrow> line_image cs ! (length cs - 1) = last cs"
  by (simp add: line_image_def nth_append last_conv_nth)

lemma line_image_extends:
  "length (cs @ ds) \<le> 256 \<Longrightarrow> mem_write (line_image cs) (length cs) ds = line_image (cs @ ds)"
  by (simp add: line_image_def mem_write_def drop_replicate)

lemma read_event:
  assumes "length (cs @ ev_bytes ev) \<le> 256"
  shows "(case ev of Uart_data ds \<Rightarrow> read_bytes ds (line_image cs) (length cs) out
      | _ \<Rightarrow> Inr (line_image cs, length cs, out)) =
    Inr (line_image (cs @ ev_bytes ev), length (cs @ ev_bytes ev), out @ echoes (ev_bytes ev))"
  using assms
  by (cases ev) (auto simp: ev_bytes_def read_bytes_eq line_image_extends [symmetric] mem_write_def echoes_def)

lemma read_line_goes_on:
  assumes "length (cs @ concat (map ev_bytes evs)) < 255" "CR \<notin> set (cs @ concat (map ev_bytes evs))" "before \<noteq> CR"
  shows "read_line before (evs @ rest) (line_image cs) (length cs) out =
    read_line before rest (line_image (cs @ concat (map ev_bytes evs))) (length (cs @ concat (map ev_bytes evs)))
      (out @ echoes (concat (map ev_bytes evs)))"
  using assms
proof (induction evs arbitrary: cs out)
  case (Cons ev evs)
  define ds where "ds = cs @ ev_bytes ev"
  have ds: "length ds < 255" "CR \<notin> set ds" using Cons.prems(1,2) by (auto simp: ds_def)
  have last: "(if length ds = 0 then before else line_image ds ! (length ds - 1)) \<noteq> CR"
  proof (cases "ds = []")
    case False
    then have "last ds \<in> set ds" by (rule last_in_set)
    then have "last ds \<noteq> CR" using ds(2) by auto
    then show ?thesis using line_image_last [OF False] False by (metis length_0_conv)
  qed (use Cons.prems(3) in auto)
  have "read_line before ((ev # evs) @ rest) (line_image cs) (length cs) out =
      read_line before (evs @ rest) (line_image ds) (length ds) (out @ echoes (ev_bytes ev))"
    using read_event [of cs ev out, folded ds_def] last ds(1) by (simp add: stop_def)
  with Cons.IH [of ds "out @ echoes (ev_bytes ev)"] Cons.prems show ?case
    by (simp add: echoes_def ds_def)
qed (simp add: echoes_def)

text \<open>A line of at most 254 characters that ends with the last byte of a burst.\<close>

lemma read_line_typed:
  assumes "typed = concat (map ev_bytes evs) @ cs" "CR \<notin> set typed" "length typed < 255" "before \<noteq> CR"
  shows "read_line before (evs @ Uart_data (cs @ [CR]) # rest) (replicate 256 NUL) 0 [] =
    Some (Inr (line_image (typed @ [CR]), Suc (length typed), echoes (typed @ [CR]), rest))"
proof -
  let ?t = "concat (map ev_bytes evs)"
  have image: "replicate 256 NUL = line_image []" by (simp add: line_image_def)
  have "read_line before (evs @ Uart_data (cs @ [CR]) # rest) (line_image []) 0 [] =
      read_line before (Uart_data (cs @ [CR]) # rest) (line_image ?t) (length ?t) (echoes ?t)"
    using read_line_goes_on [of "[]" evs before _ "[]"] assms by auto
  also have "\<dots> = Some (Inr (line_image (typed @ [CR]), Suc (length typed), echoes (typed @ [CR]), rest))"
    using assms read_event [of ?t "Uart_data (cs @ [CR])" "echoes ?t"]
    by (simp add: ev_bytes_def echoes_def stop_def line_image_def nth_append)
  finally show ?thesis by (simp add: image)
qed

lemma CR_NUL [simp]: "CR \<noteq> NUL" "NUL \<noteq> CR"
  by (simp_all add: CR_def NUL_def)

lemma cut_line_typed:
  assumes "NUL \<notin> set typed" "length typed < 255"
  shows "cut_line (line_image (typed @ [CR])) = Inr typed"
proof -
  let ?rest = "replicate (254 - length typed) NUL"
  have image: "line_image (typed @ [CR]) = typed @ [CR] @ NUL # ?rest"
    using assms(2) by (simp add: line_image_def Suc_diff_Suc flip: replicate_Suc)
  have "cstr (line_image (typed @ [CR])) 0 = typed @ [CR]"
    using cstr_prefix [of "typed @ [CR]" "[]" ?rest] assms(1) by (simp add: image CR_NUL)
  moreover have "cstr (typed @ NUL # NUL # ?rest) 0 = typed"
    using cstr_prefix [of typed "[]"] assms(1) by simp
  ultimately show ?thesis by (simp add: cut_line_def image)
qed

section \<open>What a typed line does\<close>

definition cli_ready :: "cli_func console \<Rightarrow> bool" where
  "cli_ready st \<longleftrightarrow> console_ok st \<and> s_tmp_line_buf st \<noteq> None \<and>
     max_cmdline_length (s_config st) = 256 \<and> max_cmdline_args (s_config st) = 8"

definition prompt :: cli_out where
  "prompt = Echo (CHR 0x0A # ''>> '')"

lemma say_say [simp]: "say b (say a w) = say (a @ b) w"
  by (simp add: say_def)

lemma run_ready:
  assumes "cli_ready st" "NUL \<notin> set cmdline" "args = take 7 (tokens (take 255 cmdline))"
  obtains st' where "cli_ready st'" "s_cmd_list st' = s_cmd_list st"
    "esp_console_run call True cmdline st w =
      (if args = [] then Some (ESP_ERR_INVALID_ARG, None, st', w)
       else case find_command_by_name (hd args) (s_cmd_list st) of
         None \<Rightarrow> Some (ESP_ERR_NOT_FOUND, None, st', w)
       | Some cmd \<Rightarrow> Some (ESP_OK, Some (fst (call (ci_func cmd) args w)), st', snd (call (ci_func cmd) args w)))"
proof -
  obtain buf where "esp_console_run call True cmdline st w =
      (let st' = st\<lparr>s_tmp_line_buf := Some buf\<rparr> in
       if args = [] then Some (ESP_ERR_INVALID_ARG, None, st', w)
       else case find_command_by_name (hd args) (s_cmd_list st) of
         None \<Rightarrow> Some (ESP_ERR_NOT_FOUND, None, st', w)
       | Some cmd \<Rightarrow> Some (ESP_OK, Some (fst (call (ci_func cmd) args w)), st', snd (call (ci_func cmd) args w)))"
    "console_ok (st\<lparr>s_tmp_line_buf := Some buf\<rparr>)"
    by (rule run_line [of st cmdline args call w]) (use assms in \<open>simp_all add: cli_ready_def\<close>)
  then show thesis
    using that [of "st\<lparr>s_tmp_line_buf := Some buf\<rparr>"] assms(1) by (simp add: cli_ready_def Let_def)
qed

text \<open>The world after a line: nothing happens when it is empty or names no command.\<close>

definition line_effect :: "cli_env \<Rightarrow> cli_func console \<Rightarrow> string list \<Rightarrow> cli_world \<Rightarrow> cli_world" where
  "line_effect env st args w =
    (if args = [] then w
     else case find_command_by_name (hd args) (s_cmd_list st) of
       None \<Rightarrow> w | Some cmd \<Rightarrow> snd (cli_call env st (ci_func cmd) args w))"

lemma cli_loop_typed:
  assumes "cli_ready st" "argv_memory env" "before \<noteq> CR"
    and "typed = concat (map ev_bytes evs) @ cs" "CR \<notin> set typed" "NUL \<notin> set typed" "length typed < 255"
  obtains st' where "cli_ready st'" "s_cmd_list st' = s_cmd_list st"
    "cli_loop before env (evs @ Uart_data (cs @ [CR]) # rest) st w =
      cli_loop before env rest st'
        (line_effect env st (take 7 (tokens typed)) (say (prompt # echoes (typed @ [CR])) w))"
proof -
  let ?w = "say (prompt # echoes (typed @ [CR])) w" and ?args = "take 7 (tokens typed)"
  obtain st' where st': "cli_ready st'" "s_cmd_list st' = s_cmd_list st"
    "esp_console_run (cli_call env st) True typed st ?w =
      (if ?args = [] then Some (ESP_ERR_INVALID_ARG, None, st', ?w)
       else case find_command_by_name (hd ?args) (s_cmd_list st) of
         None \<Rightarrow> Some (ESP_ERR_NOT_FOUND, None, st', ?w)
       | Some cmd \<Rightarrow> Some (ESP_OK, Some (fst (cli_call env st (ci_func cmd) ?args ?w)), st',
           snd (cli_call env st (ci_func cmd) ?args ?w)))"
    by (rule run_ready [OF assms(1,6), of ?args]) (use assms(7) in simp)
  have "cli_loop before env (evs @ Uart_data (cs @ [CR]) # rest) st w =
      (case esp_console_run (cli_call env st) True typed st ?w of
         None \<Rightarrow> Cli_fault Console_fault
       | Some (ret, cmd_ret, st, w) \<Rightarrow>
           if ret < 0 then Cli_stopped st (say [Message ''Console dispatcher error''] w)
           else cli_loop before env rest st w)"
    using read_line_typed [OF assms(4,5,7,3)] cut_line_typed [OF assms(6,7)] assms(2)
    by (simp add: cli_loop.simps [of before env "_ @ _"] stop_def prompt_def)
  with st' show thesis
    using that [of st'] by (simp add: line_effect_def esp_err_defs split: option.split)
qed

text \<open>
  C22: The command line does what is typed. Into a task that waits with a prepared console, a line
  of at most 254 characters is typed, in any bursts, with failed receives and other events between
  them, and ended by a carriage return that ends a burst: the task echoes it and runs the command
  that its first word names, once, with the first seven words of the line as the reference
  tokenizer finds them, and then waits for the next line. A line without words, or one whose first
  word names no command, only gets its echo.
\<close>

theorem typed_line_runs_command:
  assumes "cli_ready st" "argv_memory env" "before \<noteq> CR"
    and "typed = concat (map ev_bytes evs) @ cs" "CR \<notin> set typed" "NUL \<notin> set typed" "length typed < 255"
  shows "\<exists>st'. cli_ready st' \<and> s_cmd_list st' = s_cmd_list st \<and>
    cli_loop before env (evs @ Uart_data (cs @ [CR]) # rest) st w =
      cli_loop before env rest st'
        (line_effect env st (take 7 (tokens typed)) (say (prompt # echoes (typed @ [CR])) w))"
  using cli_loop_typed [OF assms] by metis

lemma read_line_fault: "read_line before evs linebuf i out = Some (Inl f) \<Longrightarrow> f = Line_overrun"
proof (induction evs arbitrary: linebuf i out)
  case (Cons ev evs)
  from Cons.prems show ?case
    by (cases ev) (auto simp: read_bytes_eq split: if_splits dest!: Cons.IH)
qed simp

lemma cut_line_result: "cut_line b = Inr line \<Longrightarrow> NUL \<notin> set line" "cut_line b = Inl f \<Longrightarrow> f \<noteq> Console_fault"
  by (auto simp: cut_line_def cstr_def Let_def dest: set_takeWhileD split: if_splits)

text \<open>Whatever line it gets, the dispatcher answers with a code that is not negative.\<close>

lemma run_ready_code:
  assumes "cli_ready st" "NUL \<notin> set line"
  obtains ret cmd_ret st' w' where "esp_console_run call memory line st w = Some (ret, cmd_ret, st', w')"
    "cli_ready st'" "0 \<le> ret"
proof (cases memory)
  case True
  obtain st' where "cli_ready st'"
    "esp_console_run call True line st w =
      (if take 7 (tokens (take 255 line)) = [] then Some (ESP_ERR_INVALID_ARG, None, st', w)
       else case find_command_by_name (hd (take 7 (tokens (take 255 line)))) (s_cmd_list st) of
         None \<Rightarrow> Some (ESP_ERR_NOT_FOUND, None, st', w)
       | Some cmd \<Rightarrow> Some (ESP_OK, Some (fst (call (ci_func cmd) (take 7 (tokens (take 255 line))) w)), st',
           snd (call (ci_func cmd) (take 7 (tokens (take 255 line))) w)))"
    by (rule run_ready [OF assms refl])
  with True that show thesis by (auto simp: esp_err_defs split: if_splits option.splits)
next
  case False
  then have "esp_console_run call memory line st w = Some (ESP_ERR_NO_MEM, None, st, w)"
    using assms(1) by (auto simp: esp_console_run_def cli_ready_def)
  with assms(1) that show thesis by (simp add: esp_err_defs)
qed

text \<open>
  The task never gives up: from a prepared console, whatever the serial port delivers, it does
  not stop, since no result of the dispatcher is negative, also when the command is unknown, the
  line is empty or memory is short; and the console never leaves its buffers. What can go wrong is
  the collecting of the line.
\<close>

theorem cli_never_stops:
  assumes "cli_ready st"
  shows "cli_loop before env evs st w \<noteq> Cli_stopped st' w' \<and>
    cli_loop before env evs st w \<noteq> Cli_fault Console_fault"
  using assms
proof (induction before env evs st w rule: cli_loop.induct)
  case (1 before env evs st w)
  consider "read_line before evs (replicate 256 NUL) 0 [] = None"
    | "read_line before evs (replicate 256 NUL) 0 [] = Some (Inl Line_overrun)"
    | b i out evs' f where "read_line before evs (replicate 256 NUL) 0 [] = Some (Inr (b, i, out, evs'))"
        "cut_line b = Inl f" "f \<noteq> Console_fault"
    | b i out evs' line where "read_line before evs (replicate 256 NUL) 0 [] = Some (Inr (b, i, out, evs'))"
        "cut_line b = Inr line" "NUL \<notin> set line"
    by (metis cut_line_result not_None_eq old.prod.exhaust read_line_fault sumE)
  then show ?case
  proof cases
    case (4 b i out evs' line)
    obtain ret cmd_ret st1 w1 where run:
      "esp_console_run (cli_call env st) (argv_memory env) line st (say (prompt # out) w) = Some (ret, cmd_ret, st1, w1)"
      "cli_ready st1" "0 \<le> ret"
      by (rule run_ready_code [OF "1.prems" 4(3)])
    have "cli_loop before env evs st w = cli_loop before env evs' st1 w1"
      using 4 run by (subst cli_loop.simps) (simp add: stop_def flip: prompt_def)
    moreover have "cli_loop before env evs' st1 w1 \<noteq> Cli_stopped st' w' \<and>
        cli_loop before env evs' st1 w1 \<noteq> Cli_fault Console_fault"
      using "1.IH" 4 run by (simp add: stop_def flip: prompt_def)
    ultimately show ?thesis by simp
  qed (subst (1 2) cli_loop.simps, simp add: stop_def)+
qed

text \<open>
  The array is not guarded. The limit of the loop is tested only between bursts: when bytes
  without a carriage return have come in and the next burst takes them beyond 256, the task writes
  behind its array; when it makes them exactly 256, the array is full and the search for the end
  of the string leaves it.
\<close>

theorem burst_overruns_line:
  assumes "before \<noteq> CR" "CR \<notin> set (concat (map ev_bytes evs))" "length (concat (map ev_bytes evs)) < 255"
    and "length (concat (map ev_bytes evs) @ cs) \<ge> 256" "NUL \<notin> set (concat (map ev_bytes evs) @ cs)"
  shows "cli_loop before env (evs @ Uart_data cs # rest) st w =
    Cli_fault (if length (concat (map ev_bytes evs) @ cs) = 256 then Line_unterminated else Line_overrun)"
proof -
  let ?t = "concat (map ev_bytes evs)"
  have image: "replicate 256 NUL = line_image []" by (simp add: line_image_def)
  have "read_line before (evs @ Uart_data cs # rest) (replicate 256 NUL) 0 [] =
      read_line before (Uart_data cs # rest) (line_image ?t) (length ?t) (echoes ?t)"
    using read_line_goes_on [of "[]" evs before "Uart_data cs # rest" "[]"] assms(1-3) by (simp add: image)
  also have "\<dots> = Some (if length (?t @ cs) = 256 then Inr (?t @ cs, 256, echoes (?t @ cs), rest) else Inl Line_overrun)"
    using assms(3,4) by (auto simp: read_bytes_eq stop_def echoes_def line_image_extends line_image_def mem_write_def)
  finally show ?thesis
    using assms(5) by (subst cli_loop.simps) (simp add: stop_def cut_line_def)
qed

section \<open>From start-up to a detection\<close>

text \<open>A list in which no item has a hint, and commands that bring none.\<close>

definition hintless :: "'f console \<Rightarrow> bool" where
  "hintless st \<longleftrightarrow> console_ok st \<and> (\<forall>it\<in>set (s_cmd_list st). ci_hint it = HintNull)"

definition plain_cmd :: "'f esp_console_cmd_t \<Rightarrow> bool" where
  "plain_cmd cmd \<longleftrightarrow> ec_command cmd \<noteq> None \<and> SPACE \<notin> set (the (ec_command cmd)) \<and>
     ec_hint cmd = None \<and> ec_argtable cmd = None"

definition plain_item :: "'f esp_console_cmd_t \<Rightarrow> 'f cmd_item_t" where
  "plain_item cmd = \<lparr>ci_command = the (ec_command cmd), ci_help = ec_help cmd, ci_hint = HintNull,
     ci_func = ec_func cmd, ci_argtable = None\<rparr>"

lemma register_plain:
  assumes "hintless st" "plain_cmd cmd" "item_memory env"
  shows "esp_console_cmd_register env (Some cmd) st =
    Some (ESP_OK, st\<lparr>s_cmd_list := slist_put (plain_item cmd) (s_cmd_list st)\<rparr>)"
    "hintless (st\<lparr>s_cmd_list := slist_put (plain_item cmd) (s_cmd_list st)\<rparr>)"
proof -
  have ok: "names_distinct (s_cmd_list st)" using assms(1) by (simp add: hintless_def console_ok_def)
  have item: "item_of env (the (ec_command cmd)) cmd HintNull = plain_item cmd"
    using assms(2) by (simp add: plain_cmd_def item_of_def plain_item_def new_hint_def)
  have "(case find_command_by_name (the (ec_command cmd)) (s_cmd_list st) of None \<Rightarrow> Some HintNull
      | Some it \<Rightarrow> map_option ci_hint (free_hint it)) = Some HintNull"
    using assms(1) by (auto simp: hintless_def find_command_iff [OF ok] free_hint_def split: option.split)
  then show "esp_console_cmd_register env (Some cmd) st =
      Some (ESP_OK, st\<lparr>s_cmd_list := slist_put (plain_item cmd) (s_cmd_list st)\<rparr>)"
    using register_puts [of cmd "the (ec_command cmd)" env st HintNull] assms(2,3)
    by (simp add: item plain_cmd_def)
  show "hintless (st\<lparr>s_cmd_list := slist_put (plain_item cmd) (s_cmd_list st)\<rparr>)"
    using assms(1,2) ok
    by (auto simp: hintless_def console_ok_def commands.ok_put set_slist_put plain_item_def plain_cmd_def)
qed

lemma register_all_plain:
  assumes "hintless st" "\<forall>cmd\<in>set cmds. plain_cmd cmd" "item_memory env"
  shows "fold (\<lambda>cmd r. case r of None \<Rightarrow> None
      | Some st \<Rightarrow> map_option snd (esp_console_cmd_register env (Some cmd) st)) cmds (Some st) =
    Some (st\<lparr>s_cmd_list := fold slist_put (map plain_item cmds) (s_cmd_list st)\<rparr>)"
    "hintless (st\<lparr>s_cmd_list := fold slist_put (map plain_item cmds) (s_cmd_list st)\<rparr>)"
  using assms
proof (induction cmds arbitrary: st)
  case (Cons cmd cmds)
  case 1
  then show ?case using Cons(1) [OF register_plain(2)] by (simp add: register_plain(1))
next
  case (Cons cmd cmds)
  case 2
  then show ?case using Cons(2) [OF register_plain(2)] by simp
qed simp_all

definition no_console :: "cli_func console" where
  "no_console = \<lparr>s_cmd_list = [], s_config = \<lparr>max_cmdline_length = 0, max_cmdline_args = 0, hint_color = 0, hint_bold = 0\<rparr>,
     s_tmp_line_buf = None\<rparr>"

definition help_cmd :: "cli_func esp_console_cmd_t" where
  "help_cmd = \<lparr>ec_command = Some ''help'', ec_help = Some ''Print the list of registered commands'',
     ec_hint = None, ec_func = Help_func, ec_argtable = None\<rparr>"

lemma cli_set_up:
  assumes "item_memory cenv"
  obtains st st' where "cli_prepare True cenv no_console = Some st" "esp_cli_register_cmds cenv st = Some st'"
    "cli_ready st'" "s_cmd_list st' = fold slist_put (map plain_item (help_cmd # diag_cmds)) []"
proof -
  let ?st = "snd (esp_console_init True (Some cli_config) no_console)"
  let ?st1 = "?st\<lparr>s_cmd_list := fold slist_put (map plain_item [help_cmd]) (s_cmd_list ?st)\<rparr>"
  let ?st2 = "?st1\<lparr>s_cmd_list := fold slist_put (map plain_item diag_cmds) (s_cmd_list ?st1)\<rparr>"
  have init: "s_tmp_line_buf ?st = Some (replicate 256 NUL)" "max_cmdline_length (s_config ?st) = 256"
      "max_cmdline_args (s_config ?st) = 8" "s_cmd_list ?st = []"
    by (simp_all add: esp_console_init_def no_console_def cli_config_def Let_def)
  have start: "hintless ?st"
    using init by (simp add: hintless_def console_ok_def names_distinct_def)
  have plain: "plain_cmd help_cmd" "\<forall>cmd\<in>set diag_cmds. plain_cmd cmd"
    by (simp_all add: plain_cmd_def help_cmd_def diag_cmds_def SPACE_def)
  have "cli_prepare True cenv no_console = Some ?st1"
    using register_plain(1) [OF start plain(1) assms]
    by (simp add: cli_prepare_def esp_console_register_help_command_def help_cmd_def)
  moreover have hl: "hintless ?st1" using register_plain(2) [OF start plain(1) assms] by simp
  moreover have "esp_cli_register_cmds cenv ?st1 = Some ?st2"
    unfolding esp_cli_register_cmds_def by (rule register_all_plain(1) [OF hl plain(2) assms])
  moreover have "cli_ready ?st2"
    using register_all_plain(2) [OF hl plain(2) assms] init by (simp add: cli_ready_def hintless_def)
  ultimately show thesis using that [of ?st1 ?st2] init(4) by simp
qed

lemma detect_image_found:
  assumes "s_cmd_list st = fold slist_put (map plain_item (help_cmd # diag_cmds)) []"
  shows "map_option ci_func (find_command_by_name ''detect_image'' (s_cmd_list st)) = Some Inference_func"
proof -
  let ?it = "plain_item (last diag_cmds)"
  have "find_command_by_name (ci_command ?it) (s_cmd_list st) = Some ?it"
    unfolding assms
    by (rule commands.get_registered)
       (simp_all add: names_distinct_def plain_item_def help_cmd_def diag_cmds_def)
  then show ?thesis by (simp add: plain_item_def diag_cmds_def)
qed

lemma detect_image_tokens:
  fixes n :: nat
  assumes "n < 10"
  shows "tokens (''detect_image '' @ [char_of (48 + n)]) = [''detect_image'', [char_of (48 + n)]]"
    "atoi [char_of (48 + n)] = int n" "char_of (48 + n) \<notin> {NUL, CR}"
proof -
  define c :: char where "c = char_of (48 + n)"
  have nat: "(of_char c :: nat) = 48 + n" using assms by (simp add: c_def)
  then have int: "(of_char c :: int) = 48 + int n" using of_nat_of_char [of c, where 'a = int] by simp
  have other: "c \<noteq> d" if "(of_char d :: nat) < 48" for d using nat that by auto
  then have "c \<noteq> SPACE" "c \<noteq> ESCAPE" "c \<noteq> NUL" "c \<noteq> CR" "c \<noteq> CHR 0x2D" "c \<noteq> CHR 0x2B"
    using nat assms by (auto simp: split_chars CR_def)
  then show "tokens (''detect_image '' @ [char_of (48 + n)]) = [''detect_image'', [char_of (48 + n)]]"
    "char_of (48 + n) \<notin> {NUL, CR}"  "atoi [char_of (48 + n)] = int n"
    unfolding c_def [symmetric] using other nat int assms
    by (simp_all add: tokens.simps take_arg_unfold split_chars atoi_def digits_value_def isspace_def isdigit_def)
qed

text \<open>
  After start-up, typing \<^verbatim>\<open>detect_image\<close> and a digit runs the detector once, on the test image
  of that number, in every way the line can be split into bursts; except for 7, which the table
  of images maps to image 8, so that image 7 is never used.
\<close>

theorem detect_image_runs_inference:
  assumes "n < 10" "item_memory cenv" "argv_memory env" "before \<noteq> CR"
    and "concat (map ev_bytes evs) @ cs = ''detect_image '' @ [char_of (48 + n)]"
  shows "\<exists>st st' st'' w'. cli_prepare True cenv no_console = Some st \<and> esp_cli_register_cmds cenv st = Some st' \<and>
    cli_loop before env (evs @ [Uart_data (cs @ [CR])]) st' (snd (esp_cli_init True w)) = Cli_waiting st'' w' \<and>
    inferences w' = inferences w @ [Some (if n = 7 then 8 else n)]"
proof -
  let ?line = "''detect_image '' @ [char_of (48 + n)]" and ?w = "snd (esp_cli_init True w)"
  obtain st st' where st: "cli_prepare True cenv no_console = Some st" "esp_cli_register_cmds cenv st = Some st'"
    "cli_ready st'" "s_cmd_list st' = fold slist_put (map plain_item (help_cmd # diag_cmds)) []"
    by (rule cli_set_up [OF assms(2)])
  have line: "CR \<notin> set ?line" "NUL \<notin> set ?line" "length ?line < 255"
    using detect_image_tokens(3) [OF assms(1)] by (auto simp: CR_def NUL_def)
  obtain st1 where loop: "cli_loop before env (evs @ Uart_data (cs @ [CR]) # []) st' ?w =
      cli_loop before env [] st1 (line_effect env st' (take 7 (tokens ?line)) (say (prompt # echoes (?line @ [CR])) ?w))"
    using cli_loop_typed [OF st(3) assms(3,4) assms(5) [symmetric] line, of "[]" ?w] by metis
  obtain cmd where cmd: "find_command_by_name ''detect_image'' (s_cmd_list st') = Some cmd" "ci_func cmd = Inference_func"
    using detect_image_found [OF st(4)] by auto
  have db: "image_database ?w = [Some 0, Some 1, Some 2, Some 3, Some 4, Some 5, Some 6, Some 8, Some 8, Some 9]"
      "inferences ?w = inferences w"
    by (simp_all add: esp_cli_init_def image_database_init_def Let_def)
  have image: "image_database ?w ! n = Some (if n = 7 then 8 else n)"
    unfolding db using assms(1) by (auto simp: less_Suc_eq numeral_eq_Suc)
  define w1 where "w1 = line_effect env st' (take 7 (tokens ?line)) (say (prompt # echoes (?line @ [CR])) ?w)"
  have "inferences w1 = inferences w @ [Some (if n = 7 then 8 else n)]"
    using assms(1) cmd detect_image_tokens(1,2) [OF assms(1)] image
    by (simp add: w1_def line_effect_def cli_call_def inference_cli_handler_def say_def IMAGE_COUNT_def db(2))
  moreover have "cli_loop before env [] st1 w1 = Cli_waiting st1 (say [prompt] w1)"
    by (subst cli_loop.simps) (simp add: stop_def prompt_def)
  ultimately show ?thesis
    using st(1,2) loop [folded w1_def] by (intro exI [of _ st] exI [of _ st'] exI [of _ st1] exI [of _ "say [prompt] w1"])
      (simp add: say_def)
qed

section \<open>Examples\<close>

definition demo_world :: cli_world where
  "demo_world = \<lparr>image_database = replicate 10 None, cli_started = False, inferences = [], cli_output = []\<rparr>"

definition demo_cli_env :: cli_env where
  "demo_cli_env = \<lparr>free_8bit = 0, free_spiram = 0, largest_internal = 0, largest_spiram = 0, minimum_8bit = 0,
     minimum_spiram = 0, task_list = [], table_memory = True, argv_memory = True\<rparr>"

definition demo_cli :: "cli_func console" where
  "demo_cli = no_console\<lparr>s_tmp_line_buf := Some (replicate 256 NUL), s_config := cli_config,
     s_cmd_list := map plain_item diag_cmds\<rparr>"

lemma demo_cli_ready: "cli_ready demo_cli"
  by (simp add: cli_ready_def console_ok_def names_distinct_def demo_cli_def cli_config_def
      plain_item_def diag_cmds_def no_console_def SPACE_def)

lemma digit_seven: "char_of (48 + 7 :: nat) = CHR ''7''"
  by code_simp

theorem detect_image_runs_inference_witness:
  "\<exists>st st' st'' w'. cli_prepare True demo_console_env no_console = Some st \<and> esp_cli_register_cmds demo_console_env st = Some st' \<and>
    cli_loop NUL demo_cli_env [Other_event, Uart_data ''detect_'', Uart_data (''image 7'' @ [CR])] st'
      (snd (esp_cli_init True demo_world)) = Cli_waiting st'' w' \<and> inferences w' = [Some 8]"
  using detect_image_runs_inference [of 7 demo_console_env demo_cli_env NUL "[Other_event, Uart_data ''detect_'']" "''image 7''" demo_world]
  unfolding digit_seven by (simp add: demo_console_env_def demo_cli_env_def ev_bytes_def demo_world_def)

theorem typed_line_runs_command_witness:
  "\<exists>st'. cli_ready st' \<and>
    cli_loop NUL demo_cli_env [Uart_data ''detect_image '', Receive_failed, Uart_data (''12'' @ [CR])] demo_cli demo_world =
      cli_loop NUL demo_cli_env [] st' (line_effect demo_cli_env demo_cli (take 7 (tokens ''detect_image 12''))
        (say (prompt # echoes (''detect_image 12'' @ [CR])) demo_world))"
  using typed_line_runs_command [OF demo_cli_ready, of demo_cli_env NUL "''detect_image 12''"
      "[Uart_data ''detect_image '', Receive_failed]" "''12''" "[]" demo_world]
  by (auto simp: demo_cli_env_def ev_bytes_def CR_def NUL_def)

theorem cli_never_stops_witness:
  "cli_loop NUL demo_cli_env [Uart_data [CR]] demo_cli demo_world \<noteq> Cli_stopped demo_cli demo_world \<and>
   cli_loop NUL demo_cli_env [Uart_data [CR]] demo_cli demo_world \<noteq> Cli_fault Console_fault"
  by (rule cli_never_stops [OF demo_cli_ready])

theorem burst_overruns_line_witness:
  "cli_loop NUL demo_cli_env [Uart_data ''x'', Uart_data (replicate 300 (CHR ''a''))] demo_cli demo_world =
     Cli_fault Line_overrun"
  using burst_overruns_line [of NUL "[Uart_data ''x'']" "replicate 300 (CHR ''a'')" demo_cli_env "[]" demo_cli demo_world]
  by (simp add: ev_bytes_def CR_def NUL_def)

end
