(* ===== verification/Frame_Pipeline.thy ===== *)
theory Frame_Pipeline
  imports Esp_Camera QR_Posing
begin

text \<open>
  The application of the QR posing client put together: \<^verbatim>\<open>main.cpp\<close> makes a queue of two frame
  pointers and starts the camera task of \<^verbatim>\<open>modules/camera/who_camera.c\<close>, which gets frames from the
  camera driver and sends them, and the task of \<^verbatim>\<open>QR_Posing.c\<close>, which receives them and returns
  them to the driver. The three run against the driver's task and the hardware in any
  interleaving. The queue is the byte ring of \<^verbatim>\<open>queue.c\<close>; \<open>enc\<close> gives the bytes of the pointer to a
  frame. The history of frames got and returned, and the images as they were got, are recorded
  beside the state for the statements.
\<close>

section \<open>Registration\<close>

definition who_camera_config :: "pixformat_t \<Rightarrow> framesize_t \<Rightarrow> nat \<Rightarrow> camera_config_t" where
  "who_camera_config fmt fs n = \<lparr>pin_pwdn = -1, pin_reset = -1, pin_xclk = 15, pin_sscb_sda = 4,
     pin_sscb_scl = 5, pin_data = [11, 9, 8, 10, 12, 18, 17, 16], pin_vsync = 6, pin_href = 7,
     pin_pclk = 13, xclk_freq_hz = 15000000, pixel_format = fmt, frame_size = fs,
     jpeg_quality = 12, fb_count = n, fb_location = CAMERA_FB_IN_PSRAM,
     grab_mode = CAMERA_GRAB_WHEN_EMPTY\<rparr>"

text \<open>Whether the camera task is created, and the camera; \<open>None\<close> when a check in the driver stops
  the program.\<close>

definition register_camera ::
    "'d camera_env \<Rightarrow> pixformat_t \<Rightarrow> framesize_t \<Rightarrow> nat \<Rightarrow> 'd camera \<Rightarrow> (bool \<times> 'd camera) option" where
  "register_camera env fmt fs n st =
    (case esp_camera_init env (Some (who_camera_config fmt fs n)) st of
       Camera_aborted \<Rightarrow> None
     | Camera_done err st \<Rightarrow>
         if err \<noteq> ESP_OK then Some (False, st)
         else Some (True, calls env (Set_vflip 1 #
                (if PID (sen_id st) = OV3660_PID then [Set_brightness 1, Set_saturation (-2)] else [])) st))"

section \<open>The tasks\<close>

record pipeline =
  pl_cam :: cam_sys
  pl_hand :: "nat option"
  pl_queue :: Queue_t
  pl_qr :: "nat option"
  pl_got :: "nat list"
  pl_done :: "nat list"
  pl_shot :: "nat \<Rightarrow> camera_fb_t"

text \<open>What \<^verbatim>\<open>esp_camera_fb_get\<close> enters into the frame it returns.\<close>

definition stamp :: "nat \<Rightarrow> nat \<Rightarrow> pixformat_t \<Rightarrow> camera_fb_t \<Rightarrow> camera_fb_t" where
  "stamp w h fmt fb = fb\<lparr>fb_width := w, fb_height := h, fb_format := fmt\<rparr>"

definition frame_at :: "cam_sys \<Rightarrow> nat \<Rightarrow> camera_fb_t" where
  "frame_at s x = fr_fb (frames (ts_cam (cs_st s)) ! x)"

definition on_cam :: "(cam_obj_t \<Rightarrow> cam_obj_t) \<Rightarrow> cam_sys \<Rightarrow> cam_sys" where
  "on_cam f s = s\<lparr>cs_st := (cs_st s)\<lparr>ts_cam := f (ts_cam (cs_st s))\<rparr>\<rparr>"

text \<open>The end of a turn of the QR task.\<close>

definition release_frame :: "frame_fate \<Rightarrow> nat \<Rightarrow> cam_sys \<Rightarrow> cam_sys" where
  "release_frame fate x s = (case fate of
     ReturnedToCamera \<Rightarrow> (on_cam (cam_give x) s)\<lparr>cs_held := remove1 x (cs_held s)\<rparr>
   | _ \<Rightarrow> s)"

text \<open>
  \<open>driver\<close>: the driver's task, its interrupts and the hardware, and a damaged picture that
  \<^verbatim>\<open>cam_take\<close> drops. The other rules are the calls of the two tasks; a call that blocks has no
  step until it can go on.
\<close>

inductive pipe_step :: "(nat \<Rightarrow> u8 list) \<Rightarrow> pipeline \<Rightarrow> pipeline \<Rightarrow> bool" for enc where
  driver: "cam_step (pl_cam p) c \<Longrightarrow> cs_held c = cs_held (pl_cam p) \<Longrightarrow>
    pipe_step enc p (p\<lparr>pl_cam := c\<rparr>)"
| get: "pl_hand p = None \<Longrightarrow>
    cq_get (frame_buffer_queue (ts_cam (cs_st (pl_cam p)))) = Some (x, q) \<Longrightarrow>
    take_received behind x ((ts_cam (cs_st (pl_cam p)))\<lparr>frame_buffer_queue := Some q\<rparr>) = (True, cam') \<Longrightarrow>
    c = on_cam (\<lambda>_. upd_frame x (upd_fb (stamp w h fmt)) cam') ((pl_cam p)\<lparr>cs_held := x # cs_held (pl_cam p)\<rparr>) \<Longrightarrow>
    pipe_step enc p (p\<lparr>pl_cam := c, pl_hand := Some x, pl_got := pl_got p @ [x],
      pl_shot := (pl_shot p)(x := frame_at c x)\<rparr>)"
| send: "pl_hand p = Some x \<Longrightarrow>
    xQueueGenericSend place me [] (pl_queue p) (enc x) (unat portMAX_DELAY) queueSEND_TO_BACK = (pdPASS, q) \<Longrightarrow>
    pipe_step enc p (p\<lparr>pl_queue := q, pl_hand := None\<rparr>)"
| receive: "pl_qr p = None \<Longrightarrow> x < frame_cnt (ts_cam (cs_st (pl_cam p))) \<Longrightarrow>
    xQueueReceive place me [] (pl_queue p) (unat portMAX_DELAY) = (pdPASS, enc x, q) \<Longrightarrow>
    pipe_step enc p (p\<lparr>pl_queue := q, pl_qr := Some x\<rparr>)"
| finish: "pl_qr p = Some x \<Longrightarrow>
    pipe_step enc p (p\<lparr>pl_cam := release_frame (frame_fate_of False True) x (pl_cam p), pl_qr := None,
      pl_done := pl_done p @ [x]\<rparr>)"

definition app_queue :: "nat \<Rightarrow> (nat \<Rightarrow> u8 list option) \<Rightarrow> create_result" where
  "app_queue sizeof_Queue malloc = xQueueGenericCreate sizeof_Queue malloc 2 4"

definition pipe_init :: "cam_obj_t \<Rightarrow> hw \<Rightarrow> Queue_t \<Rightarrow> pipeline" where
  "pipe_init cam h q = \<lparr>pl_cam = cam_sys_init cam h, pl_hand = None, pl_queue = q, pl_qr = None,
     pl_got = [], pl_done = [], pl_shot = (\<lambda>_. undefined)\<rparr>"

section \<open>Invariant\<close>

definition in_order :: "(nat \<Rightarrow> u8 list) \<Rightarrow> pipeline \<Rightarrow> nat list \<Rightarrow> bool" where
  "in_order enc p xs \<longleftrightarrow> q_items (pl_queue p) = map enc xs \<and>
     pl_got p = pl_done p @ (case pl_qr p of None \<Rightarrow> [] | Some x \<Rightarrow> [x]) @ xs @
       (case pl_hand p of None \<Rightarrow> [] | Some x \<Rightarrow> [x]) \<and>
     mset (cs_held (pl_cam p)) =
       mset ((case pl_qr p of None \<Rightarrow> [] | Some x \<Rightarrow> [x]) @ xs @ (case pl_hand p of None \<Rightarrow> [] | Some x \<Rightarrow> [x]))"

definition pipe_ok :: "(nat \<Rightarrow> u8 list) \<Rightarrow> pipeline \<Rightarrow> bool" where
  "pipe_ok enc p \<longleftrightarrow> sys_ok (pl_cam p) \<and> frame_cnt (ts_cam (cs_st (pl_cam p))) = 2 \<and>
     q_inv (pl_queue p) \<and> uxLength (pl_queue p) = 2 \<and> uxItemSize (pl_queue p) = 4 \<and>
     (\<exists>xs. in_order enc p xs) \<and> (\<forall>x\<in>set (cs_held (pl_cam p)). frame_at (pl_cam p) x = pl_shot p x)"

lemma cam_step_config:
  assumes "cam_step s s'" "sys_ok s"
  shows "same_config (ts_cam (cs_st s)) (ts_cam (cs_st s'))"
proof -
  have ok: "task_ok (cs_st s) (cs_held s)" using assms(2) by (simp add: sys_ok_def)
  note hs = held_same_def
  from assms(1) show ?thesis
  proof cases
    case (turn env)
    then show ?thesis using turn_keeps [OF ok, of env] by (simp add: hs)
  next
    case (vsync w b)
    then show ?thesis using isr_keeps(1) [OF ok, of w b] by (simp add: hs)
  next
    case (eof w b)
    then show ?thesis using isr_keeps(2) [OF ok, of w b] by (simp add: hs)
  next
    case (take_frame x q behind b cam')
    then show ?thesis using take_keeps(2) [OF ok take_frame(2,3)] by (simp add: hs)
  next
    case (give_frame x)
    then show ?thesis using give_keeps(2) [OF ok give_frame(2)] by (simp add: hs)
  next
    case (dma_psram d)
    then show ?thesis using held_same_upd_pos [OF ok dma_psram(3)] by (simp add: hs)
  qed (simp add: same_config_def)
qed

text \<open>Two frames: one in the hand leaves room in the queue.\<close>

lemma held_bound: "sys_ok s \<Longrightarrow> length (cs_held s) \<le> frame_cnt (ts_cam (cs_st s))"
proof -
  assume "sys_ok s"
  then have "distinct (cs_held s)" "set (cs_held s) \<subseteq> {..<frame_cnt (ts_cam (cs_st s))}"
    by (auto simp: sys_ok_def task_ok_def owned_once_def)
  then show ?thesis by (metis card_lessThan card_mono distinct_card finite_lessThan)
qed

lemma queue_room:
  assumes "pipe_ok enc p" "pl_hand p = Some x"
  shows "uxMessagesWaiting (pl_queue p) < uxLength (pl_queue p)"
proof -
  obtain xs where xs: "in_order enc p xs" using assms(1) by (auto simp: pipe_ok_def)
  then have "length (cs_held (pl_cam p)) =
      length ((case pl_qr p of None \<Rightarrow> [] | Some x \<Rightarrow> [x]) @ xs @ (case pl_hand p of None \<Rightarrow> [] | Some x \<Rightarrow> [x]))"
    unfolding in_order_def by (metis mset_eq_length)
  then have "length xs < length (cs_held (pl_cam p))" using assms(2) by simp
  moreover have "length xs = uxMessagesWaiting (pl_queue p)"
    using xs by (metis in_order_def length_map length_q_items)
  ultimately show ?thesis using assms(1) held_bound [of "pl_cam p"] by (simp add: pipe_ok_def)
qed

lemma send_immediate:
  assumes "pipe_ok enc p" "pl_hand p = Some x" "\<And>x. length (enc x) = 4"
  shows "xQueueGenericSend place me [] (pl_queue p) (enc x) (unat portMAX_DELAY) queueSEND_TO_BACK =
      (pdPASS, send_now (pl_queue p) (enc x) queueSEND_TO_BACK)"
    and "q_inv (send_now (pl_queue p) (enc x) queueSEND_TO_BACK)"
    and "q_items (send_now (pl_queue p) (enc x) queueSEND_TO_BACK) = q_items (pl_queue p) @ [enc x]"
    and "uxLength (send_now (pl_queue p) (enc x) queueSEND_TO_BACK) = 2"
    and "uxItemSize (send_now (pl_queue p) (enc x) queueSEND_TO_BACK) = 4"
  using queue_room [OF assms(1,2)] send_now_back [of "pl_queue p" "enc x"] assms
  by (auto simp: xQueueGenericSend_def q_room_def pipe_ok_def q_fits_def)

lemma receive_immediate:
  assumes "q_inv q" "q_items q = i # is"
  obtains q' where "xQueueReceive place me [] q t = (pdPASS, i, q')" "q_inv q'" "q_items q' = is"
    "uxLength q' = uxLength q" "uxItemSize q' = uxItemSize q"
proof -
  have n: "0 < uxMessagesWaiting q" using assms(2) by (metis length_Cons length_q_items zero_less_Suc)
  obtain j q' where r: "receive_now q = (j, q')" by (cases "receive_now q")
  show thesis
    using that receive_now_refines [OF assms(1) n r] r n assms(2) by (auto simp: xQueueReceive_def)
qed

lemma pipe_driver:
  assumes "pipe_ok enc p" "cam_step (pl_cam p) c" "cs_held c = cs_held (pl_cam p)"
  shows "pipe_ok enc (p\<lparr>pl_cam := c\<rparr>)"
  using assms step_keeps [OF assms(2)] cam_step_config [OF assms(2)]
  by (auto simp: pipe_ok_def in_order_def frame_at_def same_config_def)

lemma pipe_get:
  assumes ok: "pipe_ok enc p" and hand: "pl_hand p = None"
    and q: "cq_get (frame_buffer_queue (ts_cam (cs_st (pl_cam p)))) = Some (x, q)"
    and cam: "take_received behind x ((ts_cam (cs_st (pl_cam p)))\<lparr>frame_buffer_queue := Some q\<rparr>) = (True, cam')"
    and c: "c = on_cam (\<lambda>_. upd_frame x (upd_fb (stamp w h fmt)) cam') ((pl_cam p)\<lparr>cs_held := x # cs_held (pl_cam p)\<rparr>)"
  shows "pipe_ok enc (p\<lparr>pl_cam := c, pl_hand := Some x, pl_got := pl_got p @ [x],
      pl_shot := (pl_shot p)(x := frame_at c x)\<rparr>)"
proof -
  have t: "task_ok (cs_st (pl_cam p)) (cs_held (pl_cam p))" using ok by (simp add: pipe_ok_def sys_ok_def)
  note k = take_keeps [OF t q cam, simplified]
  have new: "x \<notin> set (cs_held (pl_cam p))" using t received_in_flight(5) [OF _ q] by (simp add: task_ok_def)
  have "frame_at c y = frame_at (pl_cam p) y" if "y \<in> set (cs_held (pl_cam p))" for y
  proof -
    have "x \<noteq> y" using that new by auto
    then show ?thesis using k(2) that by (simp add: frame_at_def c on_cam_def held_same_def)
  qed
  moreover have "sys_ok c"
  proof -
    have "fb_len (fr_fb ((frames cam')[x := upd_fb (stamp w h fmt) (frames cam' ! x)] ! y)) =
        fb_len (fr_fb (frames cam' ! y))" for y
      by (rule update_keeps_field) (simp add: upd_fb_def stamp_def)
    then show ?thesis using k(1)
      by (simp add: sys_ok_def task_ok_def c on_cam_def queued_complete_def expected_len_def)
  qed
  moreover have "frame_cnt (ts_cam (cs_st c)) = 2"
    using k(2) ok by (simp add: c on_cam_def held_same_def same_config_def pipe_ok_def)
  moreover have "cs_held c = x # cs_held (pl_cam p)" by (simp add: c on_cam_def)
  moreover obtain xs where "in_order enc p xs" using ok by (auto simp: pipe_ok_def)
  ultimately show ?thesis
    using ok hand new by (auto simp: pipe_ok_def in_order_def intro!: exI [of _ xs])
qed

lemma pipe_send:
  assumes ok: "pipe_ok enc p" and hand: "pl_hand p = Some x" and enc: "\<And>x. length (enc x) = 4"
    and "xQueueGenericSend place me [] (pl_queue p) (enc x) (unat portMAX_DELAY) queueSEND_TO_BACK = (pdPASS, q)"
  shows "pipe_ok enc (p\<lparr>pl_queue := q, pl_hand := None\<rparr>)"
proof -
  have q: "q = send_now (pl_queue p) (enc x) queueSEND_TO_BACK"
    using send_immediate(1) [OF ok hand enc] assms(4) by simp
  obtain xs where "in_order enc p xs" using ok by (auto simp: pipe_ok_def)
  then have "in_order enc (p\<lparr>pl_queue := q, pl_hand := None\<rparr>) (xs @ [x])"
    using hand send_immediate(3) [OF ok hand enc] by (simp add: in_order_def q)
  then show ?thesis
    using ok send_immediate(2,4,5) [OF ok hand enc] by (auto simp: pipe_ok_def q)
qed

lemma frames_below:
  assumes "pipe_ok enc p" "in_order enc p xs" "x \<in> set xs"
  shows "x < 2"
proof -
  have "mset xs \<subseteq># mset (cs_held (pl_cam p))" using assms(2) by (simp add: in_order_def)
  then have "x \<in> set (cs_held (pl_cam p))" using assms(3) by (metis mset_subset_eqD set_mset_mset)
  then show ?thesis using assms(1) by (auto simp: pipe_ok_def sys_ok_def task_ok_def owned_once_def)
qed

lemma pipe_receive:
  assumes ok: "pipe_ok enc p" and qr: "pl_qr p = None" and enc: "inj_on enc {..<2}" and x: "x < 2"
    and r: "xQueueReceive place me [] (pl_queue p) (unat portMAX_DELAY) = (pdPASS, enc x, q)"
  shows "pipe_ok enc (p\<lparr>pl_queue := q, pl_qr := Some x\<rparr>)"
proof -
  obtain xs where xs: "in_order enc p xs" using ok by (auto simp: pipe_ok_def)
  have inv: "q_inv (pl_queue p)" using ok by (simp add: pipe_ok_def)
  show ?thesis
  proof (cases xs)
    case Nil
    then have "uxMessagesWaiting (pl_queue p) = 0" using xs by (metis in_order_def length_q_items list.size(3) map_is_Nil_conv)
    then show ?thesis using r by (simp add: xQueueReceive_def split: if_splits)
  next
    case (Cons y ys)
    then have items: "q_items (pl_queue p) = enc y # map enc ys" using xs by (simp add: in_order_def)
    obtain q' where q': "xQueueReceive place me [] (pl_queue p) (unat portMAX_DELAY) = (pdPASS, enc y, q')"
      "q_inv q'" "q_items q' = map enc ys" "uxLength q' = uxLength (pl_queue p)" "uxItemSize q' = uxItemSize (pl_queue p)"
      by (rule receive_immediate [OF inv items])
    moreover have "y < 2" using frames_below [OF ok xs] Cons by simp
    ultimately have "q = q'" "x = y" using r enc x by (auto dest: inj_onD)
    moreover have "in_order enc (p\<lparr>pl_queue := q', pl_qr := Some y\<rparr>) ys"
      using xs qr q'(3) Cons by (simp add: in_order_def)
    ultimately show ?thesis using ok q' by (auto simp: pipe_ok_def)
  qed
qed

lemma pipe_finish:
  assumes ok: "pipe_ok enc p" and qr: "pl_qr p = Some x"
  shows "pipe_ok enc (p\<lparr>pl_cam := release_frame (frame_fate_of False True) x (pl_cam p), pl_qr := None,
      pl_done := pl_done p @ [x]\<rparr>)"
proof -
  let ?c = "release_frame (frame_fate_of False True) x (pl_cam p)"
  have c: "?c = (on_cam (cam_give x) (pl_cam p))\<lparr>cs_held := remove1 x (cs_held (pl_cam p))\<rparr>"
    by (simp add: release_frame_def frame_fate_of_def)
  have t: "task_ok (cs_st (pl_cam p)) (cs_held (pl_cam p))" using ok by (simp add: pipe_ok_def sys_ok_def)
  obtain xs where xs: "in_order enc p xs" using ok by (auto simp: pipe_ok_def)
  have held: "x \<in> set (cs_held (pl_cam p))"
    using xs qr by (metis in_order_def append_Cons in_set_conv_decomp_first list.set_intros(1) option.simps(5) set_mset_mset)
  note g = give_keeps [OF t held]
  have same: "held_same (cs_held (pl_cam p)) (cs_st (pl_cam p)) (cs_st ?c)" "sys_ok ?c"
    using g by (simp_all add: c on_cam_def sys_ok_def)
  then have "frame_at ?c y = frame_at (pl_cam p) y" if "y \<in> set (cs_held (pl_cam p))" for y
    using that by (simp add: frame_at_def held_same_def)
  moreover have "set (cs_held ?c) \<subseteq> set (cs_held (pl_cam p))"
    by (simp add: c set_remove1_subset)
  moreover have "in_order enc (p\<lparr>pl_cam := ?c, pl_qr := None, pl_done := pl_done p @ [x]\<rparr>) xs"
    using xs qr held by (auto simp: in_order_def c)
  ultimately show ?thesis
    using ok same by (auto simp: pipe_ok_def held_same_def same_config_def subset_iff)
qed

lemma pipe_step_ok:
  assumes "pipe_step enc p p'" "pipe_ok enc p" "inj_on enc {..<2}" "\<And>x. length (enc x) = 4"
  shows "pipe_ok enc p'"
  using assms(1)
proof cases
  case driver
  then show ?thesis using pipe_driver [OF assms(2)] by simp
next
  case get
  then show ?thesis using pipe_get [OF assms(2)] by simp
next
  case send
  then show ?thesis using pipe_send [OF assms(2) _ assms(4)] by simp
next
  case receive
  then show ?thesis using pipe_receive [OF assms(2) _ assms(3)] assms(2) by (simp add: pipe_ok_def)
next
  case finish
  then show ?thesis using pipe_finish [OF assms(2)] by simp
qed

text \<open>The pointers to the two frames differ and have four bytes.\<close>

definition pointers :: "(nat \<Rightarrow> u8 list) \<Rightarrow> bool" where
  "pointers enc \<longleftrightarrow> inj_on enc {..<2} \<and> (\<forall>x. length (enc x) = 4)"

definition app_started :: "cam_obj_t \<Rightarrow> Queue_t \<Rightarrow> bool" where
  "app_started cam q \<longleftrightarrow> cam_ready cam \<and> frame_cnt cam = 2 \<and>
     (\<exists>sizeof_Queue malloc. (\<forall>n b. malloc n = Some b \<longrightarrow> length b = n) \<and>
        app_queue sizeof_Queue malloc = Created q)"

lemma pipe_reachable_ok:
  assumes "app_started cam q" "pointers enc" "(pipe_step enc)\<^sup>*\<^sup>* (pipe_init cam h q) p"
  shows "pipe_ok enc p"
  using assms(3)
proof (induction rule: rtranclp_induct)
  case base
  have q: "q_inv q" "q_items q = []" "uxLength q = 2" "uxItemSize q = 4"
    using assms(1) create_refines by (fastforce simp: app_started_def app_queue_def)+
  have "in_order enc (pipe_init cam h q) []"
    using q by (simp add: in_order_def pipe_init_def cam_sys_init_def)
  then show ?case
    using q init_ok [of cam h] assms(1)
    by (auto simp: pipe_ok_def pipe_init_def app_started_def cam_sys_init_def cam_task_init_def)
next
  case (step p p')
  then show ?case using pipe_step_ok assms(2) by (simp add: pointers_def)
qed

text \<open>Emptying the pipeline with the calls of the two tasks alone.\<close>

lemma drain_queue:
  assumes "pipe_ok enc p" "pointers enc" "in_order enc p xs" "pl_hand p = None" "pl_qr p = None"
  shows "\<exists>p'. (pipe_step enc)\<^sup>*\<^sup>* p p' \<and> cs_held (pl_cam p') = [] \<and> pl_done p' = pl_got p \<and> pl_got p' = pl_got p"
  using assms
proof (induction xs arbitrary: p)
  case Nil
  then show ?case by (intro exI [of _ p]) (simp add: in_order_def)
next
  case (Cons x xs)
  have inv: "q_inv (pl_queue p)" and items: "q_items (pl_queue p) = enc x # map enc xs"
    using Cons.prems by (simp_all add: pipe_ok_def in_order_def)
  obtain q where q: "xQueueReceive (\<lambda>_ ws. ws) 0 [] (pl_queue p) (unat portMAX_DELAY) = (pdPASS, enc x, q)"
      "q_items q = map enc xs"
    by (rule receive_immediate [OF inv items])
  let ?p1 = "p\<lparr>pl_queue := q, pl_qr := Some x\<rparr>"
  let ?p2 = "?p1\<lparr>pl_cam := release_frame (frame_fate_of False True) x (pl_cam ?p1), pl_qr := None,
      pl_done := pl_done ?p1 @ [x]\<rparr>"
  have x: "x < frame_cnt (ts_cam (cs_st (pl_cam p)))"
    using frames_below [OF Cons.prems(1,3), of x] Cons.prems(1) by (simp add: pipe_ok_def)
  have s1: "pipe_step enc p ?p1" by (rule pipe_step.receive) (fact Cons.prems(5) x q(1))+
  have s2: "pipe_step enc ?p1 ?p2" by (rule pipe_step.finish) simp
  have ok: "pipe_ok enc ?p2"
    using pipe_step_ok [OF s1 Cons.prems(1)] pipe_step_ok [OF s2] Cons.prems(2) by (simp add: pointers_def)
  have "in_order enc ?p2 xs"
    using Cons.prems(3-5) q(2) by (simp add: in_order_def release_frame_def frame_fate_of_def)
  then obtain p' where "(pipe_step enc)\<^sup>*\<^sup>* ?p2 p'" "cs_held (pl_cam p') = []" "pl_done p' = pl_got p" "pl_got p' = pl_got p"
    using Cons.IH [OF ok Cons.prems(2)] Cons.prems(4) by auto
  moreover have "(pipe_step enc)\<^sup>*\<^sup>* p ?p2" using s1 s2 by (meson converse_rtranclp_into_rtranclp rtranclp.rtrancl_refl)
  ultimately show ?case by (meson rtranclp_trans)
qed

lemma drain_hand:
  assumes "pipe_ok enc p" "pointers enc"
  obtains p' where "(pipe_step enc)\<^sup>*\<^sup>* p p'" "pl_hand p' = None" "pl_qr p' = None" "pl_got p' = pl_got p"
proof -
  obtain p1 where p1: "(pipe_step enc)\<^sup>*\<^sup>* p p1" "pl_hand p1 = None" "pl_got p1 = pl_got p"
  proof (cases "pl_hand p")
    case (Some x)
    have len: "\<And>x. length (enc x) = 4" using assms(2) by (simp add: pointers_def)
    have "pipe_step enc p (p\<lparr>pl_queue := send_now (pl_queue p) (enc x) queueSEND_TO_BACK, pl_hand := None\<rparr>)"
      by (rule pipe_step.send) (fact Some send_immediate(1) [OF assms(1) Some len, of "\<lambda>_ ws. ws" 0])+
    then show thesis by (intro that) (rule r_into_rtranclp, assumption, simp_all)
  qed (use that in auto)
  show thesis
  proof (cases "pl_qr p1")
    case (Some x)
    have "pipe_step enc p1 (p1\<lparr>pl_cam := release_frame (frame_fate_of False True) x (pl_cam p1), pl_qr := None,
        pl_done := pl_done p1 @ [x]\<rparr>)"
      by (rule pipe_step.finish [OF Some])
    then show thesis using p1 by (intro that) (rule rtranclp.rtrancl_into_rtrancl, assumption+, simp_all)
  qed (use that p1 in auto)
qed

text \<open>
  C3: The frames of the application in order. However the driver, the hardware and the two tasks
  interleave, the frames got from the driver are, in this order, those returned to it, the one the
  QR task works on, those in the queue, and the one the camera task is about to send; these last
  three are exactly the frames the driver counts as held by the application, each once. Every one
  of them still holds the picture it held when it was got.
\<close>

theorem pipeline_frames_in_order:
  assumes "app_started cam q" "pointers enc" "(pipe_step enc)\<^sup>*\<^sup>* (pipe_init cam h q) p"
  shows "\<exists>xs. q_items (pl_queue p) = map enc xs \<and>
    pl_got p = pl_done p @ (case pl_qr p of None \<Rightarrow> [] | Some x \<Rightarrow> [x]) @ xs @
      (case pl_hand p of None \<Rightarrow> [] | Some x \<Rightarrow> [x]) \<and>
    mset (cs_held (pl_cam p)) = mset ((case pl_qr p of None \<Rightarrow> [] | Some x \<Rightarrow> [x]) @ xs @
      (case pl_hand p of None \<Rightarrow> [] | Some x \<Rightarrow> [x])) \<and>
    distinct (cs_held (pl_cam p)) \<and>
    (\<forall>x. x \<in> set (cs_held (pl_cam p)) \<longrightarrow> frame_at (pl_cam p) x = pl_shot p x)"
  using pipe_reachable_ok [OF assms]
  by (auto simp: pipe_ok_def in_order_def sys_ok_def task_ok_def owned_once_def)

text \<open>
  C32: The application never gets stuck. In every state it can reach, a frame that the camera task
  holds is accepted by the queue at once, so that the call with an endless time-out never waits; and
  by the calls of the two tasks alone every frame got so far, in the order it was got, ends up
  returned, until the application holds none.
\<close>

theorem pipeline_always_drains:
  assumes "app_started cam q" "pointers enc" "(pipe_step enc)\<^sup>*\<^sup>* (pipe_init cam h q) p"
  shows "(\<forall>x. pl_hand p = Some x \<longrightarrow>
      fst (xQueueGenericSend place me [] (pl_queue p) (enc x) (unat portMAX_DELAY) queueSEND_TO_BACK) = pdPASS) \<and>
    (\<exists>p'. (pipe_step enc)\<^sup>*\<^sup>* p p' \<and> cs_held (pl_cam p') = [] \<and> pl_done p' = pl_got p)"
proof -
  have ok: "pipe_ok enc p" by (rule pipe_reachable_ok [OF assms])
  obtain p1 where p1: "(pipe_step enc)\<^sup>*\<^sup>* p p1" "pl_hand p1 = None" "pl_qr p1 = None" "pl_got p1 = pl_got p"
    by (rule drain_hand [OF ok assms(2)])
  have ok1: "pipe_ok enc p1" using assms(3) p1(1) by (intro pipe_reachable_ok [OF assms(1,2)]) (rule rtranclp_trans)
  then obtain xs where "in_order enc p1 xs" by (auto simp: pipe_ok_def)
  from drain_queue [OF ok1 assms(2) this p1(2,3)] p1 show ?thesis
    using send_immediate(1) [OF ok] assms(2) by (auto simp: pointers_def intro: rtranclp_trans)
qed

section \<open>A run\<close>

definition demo_ptr :: "nat \<Rightarrow> u8 list" where
  "demo_ptr x = [of_nat x * 64, 0, 0, 0x3F]"

definition demo_queue :: Queue_t where
  "demo_queue = prvInitialiseNewQueue 2 4 (replicate 8 0)"

definition demo_got :: pipeline where
  "demo_got = (pipe_init demo_cam demo_hw demo_queue)\<lparr>pl_hand := Some 0, pl_got := [0],
     pl_cam := on_cam (upd_frame 0 (upd_fb (stamp 240 240 PIXFORMAT_RGB565))) demo_taken,
     pl_shot := (pl_shot (pipe_init demo_cam demo_hw demo_queue))
       (0 := frame_at (on_cam (upd_frame 0 (upd_fb (stamp 240 240 PIXFORMAT_RGB565))) demo_taken) 0)\<rparr>"

lemma demo_pointers: "pointers demo_ptr"
  by (auto simp: pointers_def demo_ptr_def inj_on_def dest!: less_2_cases)

lemma demo_app_started: "app_started demo_cam demo_queue"
proof -
  have "app_queue 80 (\<lambda>n. Some (replicate n 0)) = Created demo_queue"
    by (simp add: app_queue_def xQueueGenericCreate_def demo_queue_def wrap32_def Let_def)
  then show ?thesis
    unfolding app_started_def using demo_ready
    by (intro conjI exI [of _ 80] exI [of _ "\<lambda>n. Some (replicate n 0)"]) (simp_all add: demo_cam_def)
qed

lemma pipe_tick: "(pipe_step enc)\<^sup>*\<^sup>* p (p\<lparr>pl_cam := demo_tick (pl_cam p)\<rparr>)"
proof -
  let ?v = "(pl_cam p)\<lparr>cs_st := ll_cam_vsync_isr 1 True (cs_st (pl_cam p))\<rparr>"
  have "pipe_step enc p (p\<lparr>pl_cam := ?v\<rparr>)" by (rule pipe_step.driver [OF cam_step.vsync]) simp
  moreover have "pipe_step enc (p\<lparr>pl_cam := ?v\<rparr>) ((p\<lparr>pl_cam := ?v\<rparr>)\<lparr>pl_cam := demo_tick (pl_cam p)\<rparr>)"
    using cam_step.turn [of ?v "\<lparr>env_us = 5, env_behind = (\<lambda>_. 0)\<rparr>"]
    by (intro pipe_step.driver) (simp_all add: demo_tick_def)
  ultimately show ?thesis by simp
qed

lemma demo_got_reachable: "(pipe_step demo_ptr)\<^sup>*\<^sup>* (pipe_init demo_cam demo_hw demo_queue) demo_got"
proof -
  let ?p = "pipe_init demo_cam demo_hw demo_queue"
  let ?cam = "(ts_cam (cs_st demo_filled))\<lparr>frame_buffer_queue := Some \<lparr>cq_block = 2, cq_cap = 1, cq_items = []\<rparr>\<rparr>"
  have "(pipe_step demo_ptr)\<^sup>*\<^sup>* ?p (?p\<lparr>pl_cam := demo_filled\<rparr>)"
    using rtranclp_trans [OF pipe_tick pipe_tick, of demo_ptr ?p] by (simp add: demo_filled_def pipe_init_def)
  moreover have "cq_get (frame_buffer_queue (ts_cam (cs_st demo_filled))) =
      Some (0, \<lparr>cq_block = 2, cq_cap = 1, cq_items = []\<rparr>)"
    by (simp add: demo_first cq_get_def)
  moreover have "take_received (\<lambda>_. 0) 0 ?cam = (True, ts_cam (cs_st demo_taken))"
    by (simp add: take_received_def demo_first demo_taken_def)
  ultimately have "pipe_step demo_ptr (?p\<lparr>pl_cam := demo_filled\<rparr>) demo_got"
    using pipe_step.get [of "?p\<lparr>pl_cam := demo_filled\<rparr>" 0 "\<lparr>cq_block = 2, cq_cap = 1, cq_items = []\<rparr>" "\<lambda>_. 0"
        "ts_cam (cs_st demo_taken)" _ 240 240 PIXFORMAT_RGB565 demo_ptr]
    by (simp add: demo_got_def demo_taken_def on_cam_def demo_first(3) pipe_init_def)
  then show ?thesis
    using \<open>(pipe_step demo_ptr)\<^sup>*\<^sup>* ?p (?p\<lparr>pl_cam := demo_filled\<rparr>)\<close> by simp
qed

lemma demo_got_fields: "pl_hand demo_got = Some 0" "pl_qr demo_got = None" "pl_got demo_got = [0]"
  "pl_done demo_got = []" "cs_held (pl_cam demo_got) = [0]"
  by (simp_all add: demo_got_def pipe_init_def on_cam_def demo_taken_def)

theorem pipeline_frames_in_order_witness:
  "\<exists>xs. q_items (pl_queue demo_got) = map demo_ptr xs \<and> [0] = pl_done demo_got @ xs @ [0] \<and>
     frame_at (pl_cam demo_got) 0 = pl_shot demo_got 0"
proof -
  obtain xs where "q_items (pl_queue demo_got) = map demo_ptr xs" "[0] = pl_done demo_got @ xs @ [0]"
    "\<forall>x. x \<in> set [0] \<longrightarrow> frame_at (pl_cam demo_got) x = pl_shot demo_got x"
    using pipeline_frames_in_order [OF demo_app_started demo_pointers demo_got_reachable]
    unfolding demo_got_fields option.case by auto
  then show ?thesis by (intro exI [of _ xs]) simp
qed

theorem pipeline_always_drains_witness:
  "fst (xQueueGenericSend (\<lambda>_ ws. ws) 0 [] (pl_queue demo_got) (demo_ptr 0) (unat portMAX_DELAY) queueSEND_TO_BACK) = pdPASS \<and>
   (\<exists>p'. (pipe_step demo_ptr)\<^sup>*\<^sup>* demo_got p' \<and> cs_held (pl_cam p') = [] \<and> pl_done p' = [0])"
  using pipeline_always_drains [OF demo_app_started demo_pointers demo_got_reachable, of "\<lambda>_ ws. ws" 0]
  unfolding demo_got_fields by blast

end
