(* ===== verification/FreeMono_Font.thy ===== *)
theory FreeMono_Font
  imports LL_Cam
begin

text \<open>
  The font of the display, \<^verbatim>\<open>fb_gfx/FreeMonoBold12pt7b.h\<close>: the bitmaps of its glyphs, one behind the
  other, and for each character from the blank to the tilde where its bitmap starts, the size of the
  bitmap, the advance of the cursor and the place of the bitmap relative to the cursor.
\<close>

record GFXglyph =
  bitmapOffset :: nat
  gl_width :: nat
  gl_height :: nat
  xAdvance :: nat
  xOffset :: int
  yOffset :: int

definition glyph :: "nat \<Rightarrow> nat \<Rightarrow> nat \<Rightarrow> nat \<Rightarrow> int \<Rightarrow> int \<Rightarrow> GFXglyph" where
  "glyph off w h xa xo yo = \<lparr>bitmapOffset = off, gl_width = w, gl_height = h, xAdvance = xa, xOffset = xo, yOffset = yo\<rparr>"

record GFXfont =
  gf_bitmap :: "u8 list"
  gf_glyph :: "GFXglyph list"
  gf_first :: nat
  gf_last :: nat
  gf_yAdvance :: nat
  gf_yOffset :: int

definition FreeMonoBold12pt7bBitmaps :: "u8 list" where
  "FreeMonoBold12pt7bBitmaps = [
    0xFF, 0xFF, 0xFF, 0xF6, 0x66, 0x60, 0x6F, 0x60, 0xE7, 0xE7, 0x62, 0x42, 0x42, 0x42, 0x42, 0x11,
    0x87, 0x30, 0xC6, 0x18, 0xC3, 0x31, 0xFF, 0xFF, 0xF9, 0x98, 0x33, 0x06, 0x60, 0xCC, 0x7F, 0xEF,
    0xFC, 0x66, 0x0C, 0xC3, 0x98, 0x63, 0x04, 0x40, 0x0C, 0x03, 0x00, 0xC0, 0xFE, 0x7F, 0x9C, 0x66,
    0x09, 0x80, 0x78, 0x0F, 0xE0, 0x7F, 0x03, 0xE0, 0xF8, 0x7F, 0xFB, 0xFC, 0x0C, 0x03, 0x00, 0xC0,
    0x30, 0x38, 0x1F, 0x0C, 0x42, 0x10, 0xC4, 0x1F, 0x03, 0x9C, 0x3C, 0x7F, 0x33, 0xE0, 0x8C, 0x21,
    0x08, 0xC3, 0xE0, 0x70, 0x3E, 0x1F, 0xC6, 0x61, 0x80, 0x70, 0x0C, 0x07, 0x83, 0xEE, 0xDF, 0xB3,
    0xCC, 0x73, 0xFE, 0x7F, 0x80, 0xFD, 0x24, 0x90, 0x39, 0xDC, 0xE6, 0x73, 0x18, 0xC6, 0x31, 0x8C,
    0x31, 0x8E, 0x31, 0xC4, 0xE7, 0x1C, 0xE3, 0x1C, 0x63, 0x18, 0xC6, 0x31, 0x98, 0xCE, 0x67, 0x10,
    0x0C, 0x03, 0x00, 0xC3, 0xB7, 0xFF, 0xDF, 0xE1, 0xE0, 0xFC, 0x33, 0x0C, 0xC0, 0x06, 0x00, 0x60,
    0x06, 0x00, 0x60, 0x06, 0x0F, 0xFF, 0xFF, 0xF0, 0x60, 0x06, 0x00, 0x60, 0x06, 0x00, 0x60, 0x06,
    0x00, 0x3B, 0x9C, 0xCE, 0x62, 0x00, 0xFF, 0xFF, 0xFF, 0xFF, 0x80, 0x00, 0x40, 0x30, 0x1C, 0x07,
    0x03, 0x80, 0xE0, 0x30, 0x1C, 0x06, 0x03, 0x80, 0xC0, 0x70, 0x18, 0x0E, 0x03, 0x01, 0xC0, 0x60,
    0x38, 0x0E, 0x01, 0x00, 0x1E, 0x0F, 0xC6, 0x1B, 0x87, 0xC0, 0xF0, 0x3C, 0x0F, 0x03, 0xC0, 0xF0,
    0x3C, 0x0F, 0x87, 0x61, 0x8F, 0xC1, 0xE0, 0x1C, 0x0F, 0x0F, 0xC3, 0xB0, 0x0C, 0x03, 0x00, 0xC0,
    0x30, 0x0C, 0x03, 0x00, 0xC0, 0x30, 0x0C, 0x3F, 0xFF, 0xFC, 0x1F, 0x1F, 0xEE, 0x1F, 0x83, 0xC0,
    0xC0, 0x70, 0x38, 0x1E, 0x0F, 0x07, 0x83, 0xC1, 0xE3, 0xF0, 0xFF, 0xFF, 0xFC, 0x3F, 0x0F, 0xF1,
    0x87, 0x00, 0x60, 0x0C, 0x03, 0x83, 0xE0, 0x7C, 0x01, 0xC0, 0x0C, 0x01, 0x80, 0x3C, 0x0F, 0xFF,
    0x9F, 0xC0, 0x07, 0x07, 0x83, 0xC3, 0xE1, 0xB1, 0xD8, 0xCC, 0xC6, 0xE3, 0x7F, 0xFF, 0xE0, 0x61,
    0xF8, 0xFC, 0x7F, 0x9F, 0xE6, 0x01, 0x80, 0x60, 0x1F, 0x87, 0xF9, 0x86, 0x00, 0xC0, 0x30, 0x0C,
    0x03, 0xC1, 0xBF, 0xE7, 0xE0, 0x07, 0xC7, 0xF3, 0xC1, 0xC0, 0x60, 0x38, 0x0E, 0xF3, 0xFE, 0xF1,
    0xF8, 0x3E, 0x0F, 0x83, 0x71, 0xCF, 0xE1, 0xF0, 0xFF, 0xFF, 0xFC, 0x1F, 0x07, 0x01, 0x80, 0x60,
    0x38, 0x0C, 0x03, 0x01, 0xC0, 0x60, 0x18, 0x0E, 0x03, 0x00, 0xC0, 0x1E, 0x1F, 0xEE, 0x1F, 0x03,
    0xC0, 0xF0, 0x36, 0x19, 0xFE, 0x7F, 0xB8, 0x7C, 0x0F, 0x03, 0xE1, 0xDF, 0xE3, 0xF0, 0x3E, 0x1F,
    0xCE, 0x3B, 0x07, 0xC1, 0xF0, 0x7E, 0x3D, 0xFF, 0x3D, 0xC0, 0x70, 0x18, 0x0E, 0x0F, 0x3F, 0x8F,
    0x80, 0xFF, 0x80, 0x00, 0xFF, 0x80, 0x77, 0x70, 0x00, 0x00, 0x76, 0x6C, 0xC8, 0x80, 0x00, 0x30,
    0x0F, 0x03, 0xE0, 0xF8, 0x3E, 0x0F, 0x80, 0x3E, 0x00, 0xF8, 0x03, 0xE0, 0x0F, 0x00, 0x20, 0xFF,
    0xFF, 0xFF, 0x00, 0x00, 0x00, 0x00, 0x0F, 0xFF, 0xFF, 0xF0, 0x60, 0x0F, 0x80, 0x3E, 0x00, 0xF8,
    0x03, 0xE0, 0x1F, 0x07, 0xC1, 0xF0, 0x7C, 0x0F, 0x00, 0x40, 0x00, 0x7C, 0x7F, 0xB0, 0xF8, 0x30,
    0x18, 0x1C, 0x3C, 0x3C, 0x18, 0x08, 0x00, 0x07, 0x03, 0x81, 0xC0, 0x1E, 0x07, 0xF1, 0xC7, 0x30,
    0x6C, 0x0D, 0x87, 0xB3, 0xF6, 0xE6, 0xD8, 0xDB, 0x1B, 0x73, 0x67, 0xFC, 0x7F, 0x80, 0x30, 0x03,
    0x00, 0x71, 0xC7, 0xF8, 0x7C, 0x00, 0x3F, 0x80, 0x7F, 0x80, 0x1F, 0x00, 0x76, 0x00, 0xEE, 0x01,
    0x8C, 0x07, 0x18, 0x0E, 0x38, 0x1F, 0xF0, 0x7F, 0xF0, 0xC0, 0x61, 0x80, 0xCF, 0xC7, 0xFF, 0x8F,
    0xC0, 0xFF, 0xC7, 0xFF, 0x0C, 0x1C, 0x60, 0x63, 0x03, 0x18, 0x38, 0xFF, 0x87, 0xFE, 0x30, 0x39,
    0x80, 0xCC, 0x06, 0x60, 0x7F, 0xFF, 0x7F, 0xF0, 0x0F, 0xF3, 0xFF, 0x70, 0x76, 0x03, 0xC0, 0x3C,
    0x00, 0xC0, 0x0C, 0x00, 0xC0, 0x0C, 0x00, 0x60, 0x37, 0x07, 0x3F, 0xF0, 0xFC, 0xFF, 0x0F, 0xFC,
    0x60, 0xE6, 0x06, 0x60, 0x36, 0x03, 0x60, 0x36, 0x03, 0x60, 0x36, 0x03, 0x60, 0x76, 0x0E, 0xFF,
    0xCF, 0xF8, 0xFF, 0xF7, 0xFF, 0x8C, 0x0C, 0x60, 0x63, 0x1B, 0x18, 0xC0, 0xFE, 0x07, 0xF0, 0x31,
    0x81, 0x8C, 0xCC, 0x06, 0x60, 0x3F, 0xFF, 0xFF, 0xFC, 0xFF, 0xFF, 0xFF, 0xCC, 0x06, 0x60, 0x33,
    0x19, 0x98, 0xC0, 0xFE, 0x07, 0xF0, 0x31, 0x81, 0x8C, 0x0C, 0x00, 0x60, 0x0F, 0xF0, 0x7F, 0x80,
    0x0F, 0xF1, 0xFF, 0x9C, 0x1C, 0xC0, 0x6C, 0x03, 0x60, 0x03, 0x00, 0x18, 0x7F, 0xC3, 0xFE, 0x01,
    0xB8, 0x0C, 0xE0, 0xE3, 0xFF, 0x07, 0xE0, 0x7C, 0xF9, 0xF3, 0xE3, 0x03, 0x0C, 0x0C, 0x30, 0x30,
    0xC0, 0xC3, 0xFF, 0x0F, 0xFC, 0x30, 0x30, 0xC0, 0xC3, 0x03, 0x0C, 0x0C, 0xFC, 0xFF, 0xF3, 0xF0,
    0xFF, 0xFF, 0xF0, 0xC0, 0x30, 0x0C, 0x03, 0x00, 0xC0, 0x30, 0x0C, 0x03, 0x00, 0xC0, 0x30, 0xFF,
    0xFF, 0xF0, 0x0F, 0xF8, 0x7F, 0xC0, 0x30, 0x01, 0x80, 0x0C, 0x00, 0x60, 0x03, 0x18, 0x18, 0xC0,
    0xC6, 0x06, 0x30, 0x31, 0xC3, 0x0F, 0xF8, 0x1F, 0x00, 0xFC, 0xFB, 0xF3, 0xE3, 0x0E, 0x0C, 0x70,
    0x33, 0x80, 0xFC, 0x03, 0xF0, 0x0F, 0xE0, 0x39, 0xC0, 0xC3, 0x03, 0x0E, 0x0C, 0x18, 0xFC, 0x7F,
    0xF0, 0xF0, 0xFF, 0x0F, 0xF0, 0x18, 0x01, 0x80, 0x18, 0x01, 0x80, 0x18, 0x01, 0x80, 0x18, 0x31,
    0x83, 0x18, 0x31, 0x83, 0xFF, 0xFF, 0xFF, 0xF0, 0x3F, 0xC0, 0xF7, 0x87, 0x9E, 0x1E, 0x7C, 0xF9,
    0xB3, 0xE6, 0xFD, 0x99, 0xF6, 0x67, 0x99, 0x8E, 0x66, 0x31, 0x98, 0x06, 0xFC, 0xFF, 0xF3, 0xF0,
    0xF1, 0xFF, 0xCF, 0xCF, 0x0C, 0x78, 0x63, 0xE3, 0x1B, 0x18, 0xDC, 0xC6, 0x76, 0x31, 0xB1, 0x8F,
    0x8C, 0x3C, 0x61, 0xE7, 0xE7, 0x3F, 0x18, 0x0F, 0x03, 0xFC, 0x70, 0xE6, 0x06, 0xE0, 0x7C, 0x03,
    0xC0, 0x3C, 0x03, 0xC0, 0x3E, 0x07, 0x60, 0x67, 0x0E, 0x3F, 0xC0, 0xF0, 0xFF, 0x8F, 0xFE, 0x30,
    0x73, 0x03, 0x30, 0x33, 0x03, 0x30, 0x73, 0xFE, 0x3F, 0x83, 0x00, 0x30, 0x03, 0x00, 0xFF, 0x0F,
    0xF0, 0x0F, 0x03, 0xFC, 0x70, 0xE6, 0x06, 0xE0, 0x7C, 0x03, 0xC0, 0x3C, 0x03, 0xC0, 0x3E, 0x07,
    0x60, 0x67, 0x0E, 0x3F, 0xC1, 0xF0, 0x18, 0x33, 0xFF, 0x3F, 0xE0, 0xFF, 0x83, 0xFF, 0x83, 0x07,
    0x0C, 0x0C, 0x30, 0x30, 0xC1, 0xC3, 0xFE, 0x0F, 0xF0, 0x31, 0xE0, 0xC3, 0x83, 0x07, 0x0C, 0x0C,
    0xFE, 0x3F, 0xF8, 0x70, 0x3F, 0xDF, 0xFE, 0x1F, 0x03, 0xC0, 0xF8, 0x07, 0xE0, 0x7E, 0x01, 0xF0,
    0x3C, 0x0F, 0x87, 0xFF, 0xBF, 0xC0, 0xFF, 0xFF, 0xFF, 0xC6, 0x3C, 0x63, 0xC6, 0x3C, 0x63, 0x06,
    0x00, 0x60, 0x06, 0x00, 0x60, 0x06, 0x00, 0x60, 0x3F, 0xC3, 0xFC, 0xFF, 0xFF, 0xFF, 0x60, 0x66,
    0x06, 0x60, 0x66, 0x06, 0x60, 0x66, 0x06, 0x60, 0x66, 0x06, 0x60, 0x63, 0x9C, 0x1F, 0xC0, 0xF0,
    0xFC, 0x3F, 0xFC, 0x3F, 0x30, 0x0C, 0x38, 0x1C, 0x18, 0x18, 0x1C, 0x38, 0x1C, 0x38, 0x0E, 0x70,
    0x0E, 0x70, 0x0F, 0x60, 0x07, 0xE0, 0x07, 0xE0, 0x03, 0xC0, 0x03, 0xC0, 0xFC, 0xFF, 0xF3, 0xF6,
    0x01, 0xDC, 0xC6, 0x77, 0x99, 0xDE, 0x67, 0x79, 0x8D, 0xFE, 0x3F, 0xF8, 0xF3, 0xE3, 0xCF, 0x8F,
    0x3C, 0x38, 0x70, 0xE1, 0xC0, 0xF8, 0xFB, 0xE3, 0xE3, 0x86, 0x0F, 0x38, 0x1F, 0xC0, 0x3E, 0x00,
    0x70, 0x03, 0xE0, 0x0F, 0x80, 0x77, 0x03, 0x8E, 0x1E, 0x1C, 0xFC, 0xFF, 0xF3, 0xF0, 0xF9, 0xFF,
    0x9F, 0x30, 0xC3, 0x9C, 0x19, 0x81, 0xF8, 0x0F, 0x00, 0x60, 0x06, 0x00, 0x60, 0x06, 0x00, 0x60,
    0x3F, 0xC3, 0xFC, 0xFF, 0xBF, 0xEC, 0x3B, 0x0C, 0xC6, 0x33, 0x80, 0xC0, 0x60, 0x38, 0xCC, 0x36,
    0x0F, 0x03, 0xFF, 0xFF, 0xF0, 0xFF, 0xF1, 0x8C, 0x63, 0x18, 0xC6, 0x31, 0x8C, 0x63, 0x18, 0xC7,
    0xFE, 0x40, 0x30, 0x0E, 0x01, 0x80, 0x70, 0x0C, 0x03, 0x80, 0x60, 0x1C, 0x03, 0x00, 0xE0, 0x18,
    0x07, 0x00, 0xC0, 0x38, 0x0E, 0x01, 0xC0, 0x70, 0x0C, 0x01, 0xFF, 0xC6, 0x31, 0x8C, 0x63, 0x18,
    0xC6, 0x31, 0x8C, 0x63, 0x1F, 0xFE, 0x04, 0x03, 0x01, 0xE0, 0xFC, 0x7B, 0x9C, 0x7E, 0x1F, 0x03,
    0xFF, 0xFF, 0xFF, 0xF0, 0xCE, 0x73, 0x3F, 0x07, 0xF8, 0x00, 0xC0, 0x0C, 0x1F, 0xC7, 0xFC, 0x60,
    0xCC, 0x0C, 0xC1, 0xCF, 0xFF, 0x3F, 0xF0, 0xF0, 0x07, 0x80, 0x0C, 0x00, 0x60, 0x03, 0x7C, 0x1F,
    0xF8, 0xF1, 0xC7, 0x07, 0x30, 0x19, 0x80, 0xCC, 0x06, 0x60, 0x73, 0xC7, 0x7F, 0xFB, 0xDF, 0x00,
    0x1F, 0xB3, 0xFF, 0x70, 0xFE, 0x07, 0xC0, 0x3C, 0x00, 0xC0, 0x0C, 0x00, 0x70, 0x77, 0xFF, 0x1F,
    0xC0, 0x01, 0xE0, 0x0F, 0x00, 0x18, 0x00, 0xC1, 0xF6, 0x3F, 0xF1, 0xC7, 0x9C, 0x1C, 0xC0, 0x66,
    0x03, 0x30, 0x19, 0x81, 0xC7, 0x1E, 0x3F, 0xFC, 0x7D, 0xE0, 0x1F, 0x83, 0xFC, 0x70, 0xEE, 0x07,
    0xFF, 0xFF, 0xFF, 0xE0, 0x0E, 0x00, 0x70, 0x73, 0xFF, 0x1F, 0xC0, 0x07, 0xC3, 0xFC, 0x60, 0x0C,
    0x0F, 0xFD, 0xFF, 0x86, 0x00, 0xC0, 0x18, 0x03, 0x00, 0x60, 0x0C, 0x01, 0x81, 0xFF, 0xBF, 0xF0,
    0x1F, 0x79, 0xFF, 0xDC, 0x79, 0x81, 0xCC, 0x06, 0x60, 0x33, 0x01, 0x9C, 0x1C, 0x71, 0xE1, 0xFF,
    0x07, 0xD8, 0x00, 0xC0, 0x06, 0x00, 0x70, 0x7F, 0x03, 0xF0, 0xF0, 0x03, 0xC0, 0x03, 0x00, 0x0C,
    0x00, 0x37, 0xC0, 0xFF, 0x83, 0xC7, 0x0C, 0x0C, 0x30, 0x30, 0xC0, 0xC3, 0x03, 0x0C, 0x0C, 0x30,
    0x33, 0xF3, 0xFF, 0xCF, 0xC0, 0x06, 0x00, 0xC0, 0x00, 0x3F, 0x07, 0xE0, 0x0C, 0x01, 0x80, 0x30,
    0x06, 0x00, 0xC0, 0x18, 0x03, 0x0F, 0xFF, 0xFF, 0xC0, 0x06, 0x06, 0x00, 0xFF, 0xFF, 0x03, 0x03,
    0x03, 0x03, 0x03, 0x03, 0x03, 0x03, 0x03, 0x03, 0x03, 0x07, 0xFE, 0xFC, 0xF0, 0x07, 0x80, 0x0C,
    0x00, 0x60, 0x03, 0x3F, 0x19, 0xF8, 0xDE, 0x07, 0xE0, 0x3E, 0x01, 0xF0, 0x0F, 0xC0, 0x6F, 0x03,
    0x1C, 0x78, 0xFF, 0xC7, 0xE0, 0x7E, 0x0F, 0xC0, 0x18, 0x03, 0x00, 0x60, 0x0C, 0x01, 0x80, 0x30,
    0x06, 0x00, 0xC0, 0x18, 0x03, 0x00, 0x61, 0xFF, 0xFF, 0xF8, 0xFE, 0xF1, 0xFF, 0xF1, 0xCE, 0x63,
    0x18, 0xC6, 0x31, 0x8C, 0x63, 0x18, 0xC6, 0x31, 0x8C, 0x63, 0x19, 0xF7, 0xBF, 0xEF, 0x78, 0x77,
    0xC1, 0xFF, 0x83, 0xC7, 0x0C, 0x0C, 0x30, 0x30, 0xC0, 0xC3, 0x03, 0x0C, 0x0C, 0x30, 0x33, 0xF1,
    0xFF, 0xC7, 0xC0, 0x1F, 0x83, 0xFC, 0x70, 0xEE, 0x07, 0xC0, 0x3C, 0x03, 0xC0, 0x3E, 0x07, 0x70,
    0xE3, 0xFC, 0x1F, 0x80, 0xF7, 0xE3, 0xFF, 0xC3, 0xC3, 0x8E, 0x07, 0x30, 0x0C, 0xC0, 0x33, 0x00,
    0xCE, 0x07, 0x3C, 0x38, 0xFF, 0xC3, 0x7E, 0x0C, 0x00, 0x30, 0x00, 0xC0, 0x0F, 0xE0, 0x3F, 0x80,
    0x1F, 0xBC, 0xFF, 0xF7, 0x0F, 0x38, 0x1C, 0xC0, 0x33, 0x00, 0xCC, 0x03, 0x38, 0x1C, 0x70, 0xF0,
    0xFF, 0xC1, 0xFB, 0x00, 0x0C, 0x00, 0x30, 0x00, 0xC0, 0x1F, 0xC0, 0x7F, 0x79, 0xE7, 0xFF, 0x1F,
    0x31, 0xC0, 0x18, 0x01, 0x80, 0x18, 0x01, 0x80, 0x18, 0x0F, 0xFC, 0xFF, 0xC0, 0x3F, 0x9F, 0xFE,
    0x1F, 0x82, 0xFE, 0x1F, 0xE0, 0xFF, 0x03, 0xE0, 0xFF, 0xFF, 0xF0, 0x30, 0x06, 0x00, 0xC0, 0x7F,
    0xEF, 0xFC, 0x60, 0x0C, 0x01, 0x80, 0x30, 0x06, 0x00, 0xC0, 0x18, 0x71, 0xFE, 0x1F, 0x00, 0xF1,
    0xF7, 0x8F, 0x8C, 0x0C, 0x60, 0x63, 0x03, 0x18, 0x18, 0xC0, 0xC6, 0x06, 0x38, 0xF0, 0xFF, 0xC3,
    0xEE, 0xFC, 0xFF, 0xF3, 0xF3, 0x87, 0x0E, 0x1C, 0x1C, 0x60, 0x73, 0x80, 0xEC, 0x03, 0xF0, 0x07,
    0x80, 0x1E, 0x00, 0x78, 0x00, 0xF8, 0x7F, 0xE1, 0xF7, 0x39, 0x8C, 0xE6, 0x37, 0xB0, 0xFF, 0xC3,
    0xFF, 0x07, 0xBC, 0x1C, 0xF0, 0x73, 0x81, 0x86, 0x00, 0x7C, 0xF9, 0xF3, 0xE3, 0xCF, 0x07, 0xF8,
    0x0F, 0xC0, 0x1E, 0x00, 0xFC, 0x07, 0x38, 0x38, 0x73, 0xF3, 0xFF, 0xCF, 0xC0, 0xF9, 0xFF, 0x9F,
    0x70, 0xE3, 0x0C, 0x39, 0xC1, 0x98, 0x19, 0x81, 0xF8, 0x0F, 0x00, 0xF0, 0x06, 0x00, 0x60, 0x0E,
    0x00, 0xC0, 0xFF, 0x0F, 0xF0, 0x7F, 0xCF, 0xF9, 0x8E, 0x33, 0x80, 0x70, 0x1C, 0x07, 0x01, 0xC6,
    0x70, 0xFF, 0xFF, 0xFF, 0x80, 0x0E, 0x3C, 0x60, 0xC1, 0x83, 0x06, 0x0C, 0x39, 0xE3, 0xC0, 0xC1,
    0x83, 0x06, 0x0C, 0x18, 0x3C, 0x38, 0xFF, 0xFF, 0xFF, 0xFF, 0xF0, 0xE1, 0xC0, 0xC1, 0x83, 0x06,
    0x0C, 0x18, 0x30, 0x3C, 0x79, 0x83, 0x06, 0x0C, 0x18, 0x31, 0xE3, 0x80, 0x3C, 0x37, 0xE7, 0x67,
    0xE6, 0x1C]"

definition FreeMonoBold12pt7bGlyphs :: "GFXglyph list" where
  "FreeMonoBold12pt7bGlyphs = [
    glyph 0 0 0 14 0 1,
    glyph 0 4 15 14 5 (-14),
    glyph 8 8 7 14 3 (-13),
    glyph 15 11 18 14 2 (-15),
    glyph 40 10 20 14 2 (-16),
    glyph 65 10 15 14 2 (-14),
    glyph 84 10 13 14 2 (-12),
    glyph 101 3 7 14 5 (-13),
    glyph 104 5 19 14 6 (-14),
    glyph 116 5 19 14 3 (-14),
    glyph 128 10 10 14 2 (-14),
    glyph 141 12 13 14 1 (-12),
    glyph 161 5 7 14 4 (-2),
    glyph 166 12 2 14 1 (-7),
    glyph 169 3 3 14 5 (-2),
    glyph 171 10 20 14 2 (-16),
    glyph 196 10 15 14 2 (-14),
    glyph 215 10 15 14 2 (-14),
    glyph 234 10 15 14 2 (-14),
    glyph 253 11 15 14 1 (-14),
    glyph 274 9 14 14 2 (-13),
    glyph 290 10 15 14 2 (-14),
    glyph 309 10 15 14 2 (-14),
    glyph 328 10 15 14 2 (-14),
    glyph 347 10 15 14 2 (-14),
    glyph 366 10 15 14 3 (-14),
    glyph 385 3 11 14 5 (-10),
    glyph 390 4 15 14 4 (-10),
    glyph 398 12 11 14 1 (-11),
    glyph 415 12 7 14 1 (-9),
    glyph 426 12 11 14 1 (-11),
    glyph 443 9 14 14 3 (-13),
    glyph 459 11 19 14 2 (-14),
    glyph 486 15 14 14 (-1) (-13),
    glyph 513 13 14 14 0 (-13),
    glyph 536 12 14 14 1 (-13),
    glyph 557 12 14 14 1 (-13),
    glyph 578 13 14 14 0 (-13),
    glyph 601 13 14 14 0 (-13),
    glyph 624 13 14 14 1 (-13),
    glyph 647 14 14 14 0 (-13),
    glyph 672 10 14 14 2 (-13),
    glyph 690 13 14 14 1 (-13),
    glyph 713 14 14 14 0 (-13),
    glyph 738 12 14 14 1 (-13),
    glyph 759 14 14 14 0 (-13),
    glyph 784 13 14 14 0 (-13),
    glyph 807 12 14 14 1 (-13),
    glyph 828 12 14 14 0 (-13),
    glyph 849 12 17 14 1 (-13),
    glyph 875 14 14 14 0 (-13),
    glyph 900 10 14 14 2 (-13),
    glyph 918 12 14 14 1 (-13),
    glyph 939 12 14 14 1 (-13),
    glyph 960 16 14 14 (-1) (-13),
    glyph 988 14 14 14 0 (-13),
    glyph 1013 14 14 14 0 (-13),
    glyph 1038 12 14 14 1 (-13),
    glyph 1059 10 14 14 2 (-13),
    glyph 1077 5 19 14 6 (-14),
    glyph 1089 10 20 14 2 (-16),
    glyph 1114 5 19 14 3 (-14),
    glyph 1126 10 8 14 2 (-15),
    glyph 1136 14 2 14 0 4,
    glyph 1140 4 4 14 4 (-15),
    glyph 1142 12 11 14 1 (-10),
    glyph 1159 13 15 14 0 (-14),
    glyph 1184 12 11 14 1 (-10),
    glyph 1201 13 15 14 1 (-14),
    glyph 1226 12 11 14 1 (-10),
    glyph 1243 11 15 14 2 (-14),
    glyph 1264 13 16 14 1 (-10),
    glyph 1290 14 15 14 0 (-14),
    glyph 1317 11 14 14 1 (-13),
    glyph 1337 8 19 15 3 (-13),
    glyph 1356 13 15 14 1 (-14),
    glyph 1381 11 15 14 1 (-14),
    glyph 1402 15 11 14 0 (-10),
    glyph 1423 14 11 14 0 (-10),
    glyph 1443 12 11 14 1 (-10),
    glyph 1460 14 16 14 0 (-10),
    glyph 1488 14 16 14 0 (-10),
    glyph 1516 12 11 14 1 (-10),
    glyph 1533 10 11 14 2 (-10),
    glyph 1547 11 14 14 1 (-13),
    glyph 1567 13 11 14 0 (-10),
    glyph 1585 14 11 14 0 (-10),
    glyph 1605 14 11 14 0 (-10),
    glyph 1625 14 11 14 0 (-10),
    glyph 1645 12 16 14 1 (-10),
    glyph 1669 11 11 14 1 (-10),
    glyph 1685 7 19 14 3 (-14),
    glyph 1702 2 19 14 6 (-14),
    glyph 1707 7 19 14 4 (-14),
    glyph 1724 12 4 14 1 (-7)]"

definition gfxFont :: GFXfont where
  "gfxFont = \<lparr>gf_bitmap = FreeMonoBold12pt7bBitmaps, gf_glyph = FreeMonoBold12pt7bGlyphs,
     gf_first = 0x20, gf_last = 0x7E, gf_yAdvance = 24, gf_yOffset = 17\<rparr>"

text \<open>
  What the drawing relies on: every glyph reads its bitmap inside the table, is drawn in a box of
  23 rows at the cursor, from one column before it to 15 columns behind, and moves the cursor by 14
  or 15.
\<close>

definition glyph_ok :: "GFXglyph \<Rightarrow> bool" where
  "glyph_ok g \<longleftrightarrow> 8 * bitmapOffset g + gl_width g * gl_height g \<le> 8 * 1730 \<and> 14 \<le> xAdvance g \<and> xAdvance g \<le> 15 \<and>
     - 1 \<le> xOffset g \<and> xOffset g + int (gl_width g) \<le> 15 \<and>
     0 \<le> yOffset g + 17 \<and> yOffset g + 17 + int (gl_height g) \<le> 23"

lemma length_bitmaps: "length FreeMonoBold12pt7bBitmaps = 1730"
  by (simp add: FreeMonoBold12pt7bBitmaps_def)

lemma length_glyphs: "length FreeMonoBold12pt7bGlyphs = 95"
  by (simp add: FreeMonoBold12pt7bGlyphs_def)

lemma glyphs_ok: "list_all glyph_ok FreeMonoBold12pt7bGlyphs"
  by (simp add: FreeMonoBold12pt7bGlyphs_def glyph_ok_def glyph_def)

end
