(* ===== verification/Fb_Gfx.thy ===== *)
theory Fb_Gfx
  imports FreeMono_Font
begin

text \<open>
  Drawing into a frame buffer, \<^verbatim>\<open>fb_gfx/fb_gfx.c\<close>. A write outside the buffer is the value \<open>None\<close>;
  the pointer \<^verbatim>\<open>data\<close> is its distance from the start of the buffer, as an integer, since it can lie
  before the start. A character is drawn in horizontal runs of its bitmap; the reference draws
  every set bit by itself.
\<close>

section \<open>Rectangles\<close>

fun bytes_per_pixel :: "pixformat_t \<Rightarrow> nat" where
  "bytes_per_pixel PIXFORMAT_GRAYSCALE = 1"
| "bytes_per_pixel PIXFORMAT_RGB565 = 2"
| "bytes_per_pixel PIXFORMAT_RGB888 = 3"
| "bytes_per_pixel _ = 0"

text \<open>The bytes of a pixel: the low bytes of the colour, high byte first.\<close>

definition colour_bytes :: "nat \<Rightarrow> u32 \<Rightarrow> u8 list" where
  "colour_bytes bpp color = drop (3 - bpp) [ucast (drop_bit 16 color), ucast (drop_bit 8 color), ucast color]"

definition put_bytes :: "u8 list \<Rightarrow> int \<Rightarrow> u8 list \<Rightarrow> u8 list option" where
  "put_bytes buf data bs =
    (if bs = [] then Some buf
     else if 0 \<le> data \<and> nat data + length bs \<le> length buf then Some (mem_write buf (nat data) bs) else None)"

primrec fill_cols :: "nat \<Rightarrow> u8 list \<Rightarrow> int \<Rightarrow> u8 list \<Rightarrow> (int \<times> u8 list) option" where
  "fill_cols 0 bs data buf = Some (data, buf)"
| "fill_cols (Suc w) bs data buf = (case put_bytes buf data bs of
     None \<Rightarrow> None | Some buf \<Rightarrow> fill_cols w bs (data + int (length bs)) buf)"

primrec fill_rows :: "nat \<Rightarrow> nat \<Rightarrow> int \<Rightarrow> u8 list \<Rightarrow> int \<Rightarrow> u8 list \<Rightarrow> u8 list option" where
  "fill_rows 0 w line_step bs data buf = Some buf"
| "fill_rows (Suc h) w line_step bs data buf = (case fill_cols w bs data buf of
     None \<Rightarrow> None | Some (data, buf) \<Rightarrow> fill_rows h w line_step bs (data + line_step) buf)"

text \<open>The step from line to line always counts three bytes for a pixel.\<close>

definition fb_gfx_fillRect :: "int \<Rightarrow> int \<Rightarrow> int \<Rightarrow> int \<Rightarrow> u32 \<Rightarrow> camera_fb_t \<Rightarrow> camera_fb_t option" where
  "fb_gfx_fillRect x y w h color fb =
    (let bpp = bytes_per_pixel (fb_format fb);
         line_step = (int (fb_width fb) - w) * 3;
         data = (x + y * int (fb_width fb)) * int bpp
     in map_option (\<lambda>buf. fb\<lparr>fb_buf := buf\<rparr>)
          (fill_rows (nat h) (nat w) line_step (colour_bytes bpp color) data (fb_buf fb)))"

definition fb_gfx_drawFastHLine :: "int \<Rightarrow> int \<Rightarrow> int \<Rightarrow> u32 \<Rightarrow> camera_fb_t \<Rightarrow> camera_fb_t option" where
  "fb_gfx_drawFastHLine x y w color = fb_gfx_fillRect x y w 1 color"

definition fb_gfx_drawFastVLine :: "int \<Rightarrow> int \<Rightarrow> int \<Rightarrow> u32 \<Rightarrow> camera_fb_t \<Rightarrow> camera_fb_t option" where
  "fb_gfx_drawFastVLine x y h color = fb_gfx_fillRect x y 1 h color"

section \<open>Characters\<close>

text \<open>The variables of the scan of a bitmap: \<^verbatim>\<open>bit\<close>, \<^verbatim>\<open>bits\<close>, the pointer and \<^verbatim>\<open>line_width\<close>.\<close>

record putc_vars =
  pv_bit :: u8
  pv_bits :: u8
  pv_bitmap :: nat
  pv_line_width :: nat
  pv_fb :: camera_fb_t

text \<open>The end of a run.\<close>

definition end_run :: "int \<Rightarrow> int \<Rightarrow> u32 \<Rightarrow> putc_vars \<Rightarrow> putc_vars option" where
  "end_run x y color v =
    (if pv_line_width v = 0 then Some v
     else map_option (\<lambda>fb. v\<lparr>pv_fb := fb, pv_line_width := 0\<rparr>)
       (fb_gfx_drawFastHLine (x - int (pv_line_width v)) y (int (pv_line_width v)) color (pv_fb v)))"

text \<open>One column; a read behind the bitmaps is \<open>None\<close>.\<close>

definition putc_col :: "u8 list \<Rightarrow> int \<Rightarrow> int \<Rightarrow> u32 \<Rightarrow> putc_vars \<Rightarrow> putc_vars option" where
  "putc_col bitmaps x y color v =
    (case (if pv_bit v = 0
           then if pv_bitmap v < length bitmaps
                then Some (v\<lparr>pv_bits := bitmaps ! pv_bitmap v, pv_bitmap := pv_bitmap v + 1, pv_bit := 0x80\<rparr>) else None
           else Some v) of
       None \<Rightarrow> None
     | Some v \<Rightarrow>
         map_option (\<lambda>v. v\<lparr>pv_bit := drop_bit 1 (pv_bit v)\<rparr>)
           (if (pv_bits v AND pv_bit v) \<noteq> 0 then Some (v\<lparr>pv_line_width := pv_line_width v + 1\<rparr>)
            else end_run x y color v))"

fun putc_cols :: "u8 list \<Rightarrow> nat \<Rightarrow> int \<Rightarrow> int \<Rightarrow> u32 \<Rightarrow> putc_vars \<Rightarrow> putc_vars option" where
  "putc_cols bitmaps 0 x y color v = Some v"
| "putc_cols bitmaps (Suc n) x y color v = (case putc_col bitmaps x y color v of
     None \<Rightarrow> None | Some v \<Rightarrow> putc_cols bitmaps n (x + 1) y color v)"

fun putc_rows :: "u8 list \<Rightarrow> nat \<Rightarrow> nat \<Rightarrow> int \<Rightarrow> int \<Rightarrow> u32 \<Rightarrow> putc_vars \<Rightarrow> putc_vars option" where
  "putc_rows bitmaps 0 w x y color v = Some v"
| "putc_rows bitmaps (Suc n) w x y color v = (case putc_cols bitmaps w x y color v of
     None \<Rightarrow> None
   | Some v \<Rightarrow> (case end_run (x + int w) y color v of
       None \<Rightarrow> None | Some v \<Rightarrow> putc_rows bitmaps n w x (y + 1) color v))"

text \<open>The advance of the cursor and the frame.\<close>

definition fb_gfx_putc :: "GFXfont \<Rightarrow> int \<Rightarrow> int \<Rightarrow> u32 \<Rightarrow> nat \<Rightarrow> camera_fb_t \<Rightarrow> (nat \<times> camera_fb_t) option" where
  "fb_gfx_putc font x y color c fb =
    (if c < 32 \<or> c < gf_first font \<or> c > gf_last font then Some (0, fb)
     else let g = gf_glyph font ! (c - gf_first font) in
       map_option (\<lambda>v. (xAdvance g, pv_fb v))
         (putc_rows (gf_bitmap font) (gl_height g) (gl_width g) (x + xOffset g) (y + yOffset g + gf_yOffset font) color
           \<lparr>pv_bit = 0, pv_bits = 0, pv_bitmap = bitmapOffset g, pv_line_width = 0, pv_fb = fb\<rparr>))"

fun print_chars :: "GFXfont \<Rightarrow> int \<Rightarrow> u32 \<Rightarrow> string \<Rightarrow> int \<Rightarrow> int \<Rightarrow> camera_fb_t \<Rightarrow> camera_fb_t option" where
  "print_chars font x color [] xc yc fb = Some fb"
| "print_chars font x color (c # cs) xc yc fb =
    (let lc = int (fb_width fb) - int (xAdvance (gf_glyph font ! 0)); fh = int (gf_yAdvance font) in
     if c = CHR 0x0D then print_chars font x color cs xc yc fb
     else if c = CHR 0x0A then print_chars font x color cs x (yc + fh) fb
     else let (xc, yc) = (if xc > lc then (x, yc + fh) else (xc, yc)) in
       (case fb_gfx_putc font xc yc color (of_char c) fb of
          None \<Rightarrow> None
        | Some (xa, fb) \<Rightarrow> print_chars font x color cs (xc + int xa) yc fb))"

text \<open>The number of characters and the frame.\<close>

definition fb_gfx_print :: "GFXfont \<Rightarrow> int \<Rightarrow> int \<Rightarrow> u32 \<Rightarrow> string \<Rightarrow> camera_fb_t \<Rightarrow> (nat \<times> camera_fb_t) option" where
  "fb_gfx_print font x y color str fb = map_option (\<lambda>fb. (length str, fb)) (print_chars font x color str x y fb)"

text \<open>
  The text that \<^verbatim>\<open>vsnprintf\<close> produces is an argument, and whether memory is available. The answer is
  the length, the frame, and whether the memory taken for a text that does not fit the local array is
  still taken at the end.
\<close>

definition fb_gfx_printf :: "GFXfont \<Rightarrow> bool \<Rightarrow> int \<Rightarrow> int \<Rightarrow> u32 \<Rightarrow> string \<Rightarrow> camera_fb_t \<Rightarrow> (nat \<times> camera_fb_t \<times> bool) option" where
  "fb_gfx_printf font memory x y color str fb =
    (let len = length str; allocated = (len \<ge> 64) in
     if allocated \<and> \<not> memory then Some (0, fb, False)
     else map_option (\<lambda>(_, fb). (len, fb, allocated \<and> \<not> len > 64)) (fb_gfx_print font x y color str fb))"

section \<open>The reference\<close>

text \<open>One pixel, and a row of them from left to right.\<close>

definition pixel :: "int \<Rightarrow> int \<Rightarrow> u32 \<Rightarrow> camera_fb_t \<Rightarrow> camera_fb_t option" where
  "pixel x y color fb = map_option (\<lambda>buf. fb\<lparr>fb_buf := buf\<rparr>)
     (put_bytes (fb_buf fb) ((x + y * int (fb_width fb)) * int (bytes_per_pixel (fb_format fb)))
       (colour_bytes (bytes_per_pixel (fb_format fb)) color))"

primrec pixel_run :: "nat \<Rightarrow> int \<Rightarrow> int \<Rightarrow> u32 \<Rightarrow> camera_fb_t \<Rightarrow> camera_fb_t option" where
  "pixel_run 0 x y color fb = Some fb"
| "pixel_run (Suc n) x y color fb = Option.bind (pixel x y color fb) (pixel_run n (x + 1) y color)"

text \<open>Bit \<open>k\<close> of a bitmap that starts at a byte.\<close>

definition bitmap_bit :: "u8 list \<Rightarrow> nat \<Rightarrow> nat \<Rightarrow> bool option" where
  "bitmap_bit bitmaps off k =
    (if off + k div 8 < length bitmaps then Some (bit (bitmaps ! (off + k div 8)) (7 - k mod 8)) else None)"

definition draw_bit :: "u8 list \<Rightarrow> nat \<Rightarrow> nat \<Rightarrow> int \<Rightarrow> int \<Rightarrow> u32 \<Rightarrow> camera_fb_t \<Rightarrow> camera_fb_t option" where
  "draw_bit bitmaps off k x y color fb = Option.bind (bitmap_bit bitmaps off k)
     (\<lambda>b. if b then pixel x y color fb else Some fb)"

fun draw_cols :: "u8 list \<Rightarrow> nat \<Rightarrow> nat \<Rightarrow> nat \<Rightarrow> int \<Rightarrow> int \<Rightarrow> u32 \<Rightarrow> camera_fb_t \<Rightarrow> camera_fb_t option" where
  "draw_cols bitmaps off k 0 x y color fb = Some fb"
| "draw_cols bitmaps off k (Suc n) x y color fb =
     Option.bind (draw_bit bitmaps off k x y color fb) (draw_cols bitmaps off (k + 1) n (x + 1) y color)"

fun draw_rows :: "u8 list \<Rightarrow> nat \<Rightarrow> nat \<Rightarrow> nat \<Rightarrow> nat \<Rightarrow> int \<Rightarrow> int \<Rightarrow> u32 \<Rightarrow> camera_fb_t \<Rightarrow> camera_fb_t option" where
  "draw_rows bitmaps off k 0 w x y color fb = Some fb"
| "draw_rows bitmaps off k (Suc n) w x y color fb =
     Option.bind (draw_cols bitmaps off k w x y color fb) (draw_rows bitmaps off (k + w) n w x (y + 1) color)"

section \<open>Runs are pixels\<close>

lemma pixel_keeps: "pixel x y color fb = Some fb' \<Longrightarrow> fb_width fb' = fb_width fb \<and> fb_format fb' = fb_format fb"
  by (auto simp: pixel_def)

lemma length_colour_bytes [simp]: "bpp \<le> 3 \<Longrightarrow> length (colour_bytes bpp color) = bpp"
  by (simp add: colour_bytes_def)

lemma bytes_per_pixel_le: "bytes_per_pixel f \<le> 3"
  by (cases f) simp_all

lemma hline_run: "fb_gfx_drawFastHLine x y (int n) color fb = pixel_run n x y color fb"
proof -
  have row: "fb_gfx_drawFastHLine x y (int n) color fb = map_option (\<lambda>(_, buf). fb\<lparr>fb_buf := buf\<rparr>)
      (fill_cols n (colour_bytes (bytes_per_pixel (fb_format fb)) color)
        ((x + y * int (fb_width fb)) * int (bytes_per_pixel (fb_format fb))) (fb_buf fb))" for x n fb
    by (auto simp: fb_gfx_drawFastHLine_def fb_gfx_fillRect_def Let_def split: option.split)
  show ?thesis
  proof (induction n arbitrary: x fb)
    case (Suc n)
    let ?bpp = "bytes_per_pixel (fb_format fb)" and ?w = "fb_width fb"
    have step: "(x + 1 + y * int ?w) * int ?bpp = (x + y * int ?w) * int ?bpp + int ?bpp" by (simp add: algebra_simps)
    show ?case
    proof (cases "put_bytes (fb_buf fb) ((x + y * int ?w) * int ?bpp) (colour_bytes ?bpp color)")
      case (Some buf)
      have "fb_gfx_drawFastHLine x y (int (Suc n)) color fb = fb_gfx_drawFastHLine (x + 1) y (int n) color (fb\<lparr>fb_buf := buf\<rparr>)"
        unfolding row by (simp add: Some step bytes_per_pixel_le case_prod_beta)
      then show ?thesis using Suc.IH [of "x + 1" "fb\<lparr>fb_buf := buf\<rparr>"] Some by (simp add: pixel_def)
    qed (unfold row, simp add: pixel_def)
  qed (unfold row, simp)
qed

lemma bind_eq_some_run: "Option.bind z (pixel_run 0 x y color) = z"
  by (cases z) simp_all

lemma pixel_run_snoc: "pixel_run (Suc n) x y color fb = Option.bind (pixel_run n x y color fb) (pixel (x + int n) y color)"
proof (induction n arbitrary: x fb)
  case (Suc n)
  have "pixel_run (Suc (Suc n)) x y color fb = Option.bind (pixel x y color fb) (\<lambda>fb. pixel_run (Suc n) (x + 1) y color fb)"
    by (rule pixel_run.simps)
  also have "\<dots> = Option.bind (pixel x y color fb)
      (\<lambda>fb. Option.bind (pixel_run n (x + 1) y color fb) (pixel (x + 1 + int n) y color))"
    by (simp only: Suc.IH)
  also have "\<dots> = Option.bind (pixel_run (Suc n) x y color fb) (pixel (x + int (Suc n)) y color)"
    by (cases "pixel x y color fb") (simp_all add: add.assoc)
  finally show ?case .
qed (simp add: bind_eq_some_run)

text \<open>Where the scan of a bitmap that starts at \<open>off\<close> stands before bit \<open>k\<close>.\<close>

definition scan_at :: "u8 list \<Rightarrow> nat \<Rightarrow> nat \<Rightarrow> putc_vars \<Rightarrow> bool" where
  "scan_at bitmaps off k v \<longleftrightarrow>
    (if k mod 8 = 0 then pv_bit v = 0 \<and> pv_bitmap v = off + k div 8
     else pv_bit v = push_bit (7 - k mod 8) 1 \<and> pv_bitmap v = off + k div 8 + 1 \<and>
       off + k div 8 < length bitmaps \<and> pv_bits v = bitmaps ! (off + k div 8))"

text \<open>The frame once the pending run is drawn.\<close>

definition pending :: "int \<Rightarrow> int \<Rightarrow> u32 \<Rightarrow> putc_vars \<Rightarrow> camera_fb_t option" where
  "pending x y color v = pixel_run (pv_line_width v) (x - int (pv_line_width v)) y color (pv_fb v)"

lemma end_run_pending:
  "end_run x y color v = map_option (\<lambda>fb. v\<lparr>pv_fb := fb, pv_line_width := 0\<rparr>) (pending x y color v)"
  by (cases v) (auto simp: end_run_def pending_def hline_run)

lemma scan_bit:
  "k mod 8 \<noteq> 7 \<Longrightarrow> drop_bit 1 (push_bit (7 - k mod 8) (1 :: u8)) = push_bit (7 - (k mod 8 + 1)) 1"
  "k mod 8 = 7 \<Longrightarrow> drop_bit 1 (push_bit (7 - k mod 8) (1 :: u8)) = 0"
proof -
  have "k mod 8 < 8" by simp
  then have "k mod 8 \<in> {0, 1, 2, 3, 4, 5, 6, 7}" by auto
  then show "k mod 8 \<noteq> 7 \<Longrightarrow> drop_bit 1 (push_bit (7 - k mod 8) (1 :: u8)) = push_bit (7 - (k mod 8 + 1)) 1"
    by (elim insertE) simp_all
qed simp

lemma scan_next:
  assumes "pv_bit v = push_bit (7 - k mod 8) 1" "pv_bitmap v = off + k div 8 + 1"
    "off + k div 8 < length bitmaps" "pv_bits v = bitmaps ! (off + k div 8)"
  shows "scan_at bitmaps off (k + 1) (v\<lparr>pv_bit := drop_bit 1 (pv_bit v)\<rparr>)"
proof (cases "k mod 8 = 7")
  case True
  then have "(k + 1) mod 8 = 0" "(k + 1) div 8 = k div 8 + 1" by (simp_all add: mod_Suc div_Suc)
  then show ?thesis using assms scan_bit(2) [OF True] by (simp add: scan_at_def)
next
  case False
  then have "(k + 1) mod 8 = k mod 8 + 1" "(k + 1) div 8 = k div 8" by (simp_all add: mod_Suc div_Suc)
  then show ?thesis using assms scan_bit(1) [OF False] by (simp add: scan_at_def)
qed

lemma test_bit: "k \<le> 7 \<Longrightarrow> ((b :: u8) AND 2 ^ k = 0) = (\<not> bit b k)"
  using bit_iff_and_push_bit_not_eq_0 [of b k] by (simp add: push_bit_eq_mult)

text \<open>One column of the scan against the reference.\<close>

lemma putc_col_draws:
  assumes "scan_at bitmaps off k v"
  shows "(case putc_col bitmaps x y color v of
       None \<Rightarrow> Option.bind (pending x y color v) (draw_bit bitmaps off k x y color) = None
     | Some v' \<Rightarrow> scan_at bitmaps off (k + 1) v' \<and>
         pending (x + 1) y color v' = Option.bind (pending x y color v) (draw_bit bitmaps off k x y color))"
proof (cases "off + k div 8 < length bitmaps")
  case False
  then have "draw_bit bitmaps off k x y color = (\<lambda>fb. None)" by (auto simp: draw_bit_def bitmap_bit_def)
  then show ?thesis using assms False by (auto simp: scan_at_def putc_col_def split: if_splits)
next
  case True
  define v1 where "v1 = v\<lparr>pv_bit := push_bit (7 - k mod 8) 1, pv_bits := bitmaps ! (off + k div 8), pv_bitmap := off + k div 8 + 1\<rparr>"
  have nz: "push_bit (7 - k mod 8) (1 :: u8) \<noteq> 0"
    using bit_push_bit_iff [of "7 - k mod 8" "1 :: u8" "7 - k mod 8"] by (auto simp: bit_1_iff)
  have fetch: "(if pv_bit v = 0
      then if pv_bitmap v < length bitmaps
           then Some (v\<lparr>pv_bits := bitmaps ! pv_bitmap v, pv_bitmap := pv_bitmap v + 1, pv_bit := 0x80\<rparr>) else None
      else Some v) = Some v1"
    using assms True nz by (cases v) (auto simp: v1_def scan_at_def split: if_splits)
  let ?v = "\<lambda>v. v\<lparr>pv_bit := drop_bit 1 (pv_bit v)\<rparr>" and ?b = "bit (bitmaps ! (off + k div 8)) (7 - k mod 8)"
  have "putc_col bitmaps x y color v = map_option ?v
      (if pv_bits v1 AND pv_bit v1 \<noteq> 0 then Some (v1\<lparr>pv_line_width := pv_line_width v1 + 1\<rparr>) else end_run x y color v1)"
    unfolding putc_col_def fetch by simp
  then have col: "putc_col bitmaps x y color v = map_option ?v
      (if ?b then Some (v1\<lparr>pv_line_width := pv_line_width v1 + 1\<rparr>) else end_run x y color v1)"
    by (simp add: v1_def test_bit)
  have draw: "draw_bit bitmaps off k x y color = (\<lambda>fb. if ?b then pixel x y color fb else Some fb)"
    using True by (auto simp: draw_bit_def bitmap_bit_def)
  have p1: "pending x y color v = pending x y color v1" by (simp add: pending_def v1_def)
  have scan: "scan_at bitmaps off (k + 1) (?v (v1\<lparr>pv_fb := u, pv_line_width := m\<rparr>))" for m u
    using True by (intro scan_next) (simp_all add: v1_def)
  show ?thesis
  proof (cases ?b)
    case True
    let ?w = "v1\<lparr>pv_line_width := pv_line_width v1 + 1\<rparr>"
    have "pending (x + 1) y color (?v ?w) = Option.bind (pending x y color v1) (pixel x y color)"
      using pixel_run_snoc [of "pv_line_width v1" "x - int (pv_line_width v1)"] by (simp add: pending_def)
    then show ?thesis using True scan [of "pv_line_width v1 + 1" "pv_fb v1"] by (simp add: col draw p1)
  next
    case False
    then show ?thesis using scan [of 0]
      by (cases "pending x y color v1") (simp_all add: col draw p1 end_run_pending, simp add: pending_def)
  qed
qed

lemma putc_cols_draws:
  assumes "scan_at bitmaps off k v"
  shows "(case putc_cols bitmaps n x y color v of
       None \<Rightarrow> Option.bind (pending x y color v) (draw_cols bitmaps off k n x y color) = None
     | Some v' \<Rightarrow> scan_at bitmaps off (k + n) v' \<and>
         pending (x + int n) y color v' = Option.bind (pending x y color v) (draw_cols bitmaps off k n x y color))"
  using assms
proof (induction n arbitrary: k x v)
  case 0
  then show ?case by (cases "pending x y color v") simp_all
next
  case (Suc n)
  have first: "Option.bind z (draw_cols bitmaps off k (Suc n) x y color) =
      Option.bind (Option.bind z (draw_bit bitmaps off k x y color)) (draw_cols bitmaps off (k + 1) n (x + 1) y color)" for z
    by (cases z) simp_all
  note col = putc_col_draws [OF Suc.prems, where x = x and y = y and color = color]
  show ?case
  proof (cases "putc_col bitmaps x y color v")
    case None
    then show ?thesis using col by (simp add: first del: draw_cols.simps)
  next
    case (Some v')
    then have "scan_at bitmaps off (k + 1) v'" using col by simp
    from Suc.IH [OF this, where x = "x + 1"] Some col show ?thesis
      by (simp add: first add.assoc add.commute [of 1] del: draw_cols.simps cong: option.case_cong)
  qed
qed

lemma putc_rows_draws:
  assumes "scan_at bitmaps off k v" "pv_line_width v = 0"
  shows "map_option pv_fb (putc_rows bitmaps n w x y color v) = draw_rows bitmaps off k n w x y color (pv_fb v)"
  using assms
proof (induction n arbitrary: k y v)
  case (Suc n)
  have "pending x y color v = Some (pv_fb v)" using Suc.prems(2) by (simp add: pending_def)
  note cols = putc_cols_draws [OF Suc.prems(1), where n = w and x = x and y = y and color = color, unfolded this]
  show ?case
  proof (cases "putc_cols bitmaps w x y color v")
    case None
    then show ?thesis using cols by simp
  next
    case (Some v')
    then have scan: "scan_at bitmaps off (k + w) v'"
      and pend: "pending (x + int w) y color v' = draw_cols bitmaps off k w x y color (pv_fb v)" using cols by simp_all
    show ?thesis
    proof (cases "pending (x + int w) y color v'")
      case (Some fb)
      have "scan_at bitmaps off (k + w) (v'\<lparr>pv_fb := fb, pv_line_width := 0\<rparr>)" using scan by (simp add: scan_at_def)
      from Suc.IH [OF this, where y = "y + 1"] show ?thesis
        using Some pend \<open>putc_cols bitmaps w x y color v = Some v'\<close> by (simp add: end_run_pending)
    qed (use pend \<open>putc_cols bitmaps w x y color v = Some v'\<close> in \<open>simp add: end_run_pending\<close>)
  qed
qed simp

lemma putc_rows_only:
  "fb_gfx_putc font x y color c fb =
    (if c < 32 \<or> c < gf_first font \<or> gf_last font < c then Some (0, fb)
     else map_option (Pair (xAdvance (gf_glyph font ! (c - gf_first font))))
       (draw_rows (gf_bitmap font) (bitmapOffset (gf_glyph font ! (c - gf_first font))) 0
         (gl_height (gf_glyph font ! (c - gf_first font))) (gl_width (gf_glyph font ! (c - gf_first font)))
         (x + xOffset (gf_glyph font ! (c - gf_first font)))
         (y + yOffset (gf_glyph font ! (c - gf_first font)) + gf_yOffset font) color fb))"
proof -
  have "map_option (\<lambda>v. (a, pv_fb v)) (putc_rows bitmaps n w x y color
        \<lparr>pv_bit = 0, pv_bits = 0, pv_bitmap = off, pv_line_width = 0, pv_fb = fb\<rparr>) =
      map_option (Pair a) (draw_rows bitmaps off 0 n w x y color fb)" for a :: nat and bitmaps n w x y off
    using putc_rows_draws [of bitmaps off 0 "\<lparr>pv_bit = 0, pv_bits = 0, pv_bitmap = off, pv_line_width = 0, pv_fb = fb\<rparr>"]
    by (simp add: scan_at_def option.map_comp [unfolded comp_def, symmetric] flip: option.map_comp)
  then show ?thesis by (simp add: fb_gfx_putc_def Let_def)
qed

text \<open>
  C23: drawing a character by the horizontal runs of its bitmap has the effect of drawing each set bit of
  the bitmap by itself: bit \<open>i * width + j\<close> of the glyph, high bit of each byte first, is the pixel
  \<open>j\<close> columns right of and \<open>i\<close> rows below the corner of the glyph. This holds for any font,
  position, colour and frame, and one fails (a read behind the bitmaps, a write outside the frame)
  exactly when the other does. Characters outside the font draw nothing and advance the cursor by 0.
\<close>

theorem putc_draws_set_bits:
  "fb_gfx_putc font x y color c fb =
    (if c < 32 \<or> c < gf_first font \<or> gf_last font < c then Some (0, fb)
     else let g = gf_glyph font ! (c - gf_first font) in
       map_option (Pair (xAdvance g))
         (draw_rows (gf_bitmap font) (bitmapOffset g) 0 (gl_height g) (gl_width g)
           (x + xOffset g) (y + yOffset g + gf_yOffset font) color fb))"
  by (simp add: putc_rows_only Let_def)

section \<open>Where drawing stays\<close>

text \<open>A frame with a pixel for each of its places; drawing changes the bytes of the buffer alone.\<close>

definition frame_full :: "camera_fb_t \<Rightarrow> bool" where
  "frame_full fb \<longleftrightarrow> length (fb_buf fb) = fb_width fb * fb_height fb * bytes_per_pixel (fb_format fb)"

definition same_frame :: "camera_fb_t \<Rightarrow> camera_fb_t \<Rightarrow> bool" where
  "same_frame fb fb' \<longleftrightarrow> (\<exists>buf. fb' = fb\<lparr>fb_buf := buf\<rparr> \<and> length buf = length (fb_buf fb))"

lemma same_frame_refl [simp]: "same_frame fb fb"
  by (auto simp: same_frame_def intro: exI [of _ "fb_buf fb"])

lemma same_frame_trans: "same_frame a b \<Longrightarrow> same_frame b c \<Longrightarrow> same_frame a c"
  by (auto simp: same_frame_def)

lemma same_frameD:
  "same_frame fb fb' \<Longrightarrow> fb_width fb' = fb_width fb \<and> fb_height fb' = fb_height fb \<and> fb_format fb' = fb_format fb \<and>
     length (fb_buf fb') = length (fb_buf fb)"
  by (auto simp: same_frame_def)

lemma same_frame_full: "same_frame fb fb' \<Longrightarrow> frame_full fb \<Longrightarrow> frame_full fb'"
  by (auto simp: same_frame_def frame_full_def)

text \<open>The place of a pixel in the buffer.\<close>

definition on_frame :: "camera_fb_t \<Rightarrow> int \<Rightarrow> int \<Rightarrow> bool" where
  "on_frame fb x y \<longleftrightarrow> bytes_per_pixel (fb_format fb) = 0 \<or>
     (let a = x + y * int (fb_width fb) in 0 \<le> a \<and> (a + 1) * int (bytes_per_pixel (fb_format fb)) \<le> int (length (fb_buf fb)))"

lemma colour_bytes_Nil: "bpp \<le> 3 \<Longrightarrow> colour_bytes bpp color = [] \<longleftrightarrow> bpp = 0"
  by (auto simp: colour_bytes_def)

lemma put_bytes_length: "put_bytes buf data bs = Some buf' \<Longrightarrow> length buf' = length buf"
  by (auto simp: put_bytes_def split: if_splits)

lemma block_inside:
  "0 < b \<Longrightarrow> 0 \<le> a * int b \<and> nat (a * int b) + b \<le> n \<longleftrightarrow> 0 \<le> a \<and> (a + 1) * int b \<le> int n"
  by (cases "0 \<le> a") (auto simp: zero_le_mult_iff algebra_simps nat_mult_distrib simp flip: of_nat_mult of_nat_add elim!: nonneg_int_cases)

lemma pixel_some: "(\<exists>fb'. pixel x y color fb = Some fb') \<longleftrightarrow> on_frame fb x y"
proof -
  note b = block_inside [of "bytes_per_pixel (fb_format fb)" "x + y * int (fb_width fb)" "length (fb_buf fb)"]
  show ?thesis
    using bytes_per_pixel_le [of "fb_format fb"] b
    by (auto simp: pixel_def put_bytes_def on_frame_def colour_bytes_Nil Let_def simp del: of_nat_mult)
qed

lemma pixel_same: "pixel x y color fb = Some fb' \<Longrightarrow> same_frame fb fb'"
  by (auto simp: pixel_def same_frame_def dest: put_bytes_length)

lemma on_frame_same: "same_frame fb fb' \<Longrightarrow> on_frame fb' x y = on_frame fb x y"
  by (auto simp: same_frame_def on_frame_def)

lemma on_frame_full:
  assumes "frame_full fb" "0 \<le> x" "x < int (fb_width fb)" "0 \<le> y" "y < int (fb_height fb)"
  shows "on_frame fb x y"
proof -
  have "x + y * int (fb_width fb) + 1 \<le> (y + 1) * int (fb_width fb)" using assms(3) by (simp add: algebra_simps)
  also have "\<dots> \<le> int (fb_height fb) * int (fb_width fb)" using assms(5) by (intro mult_right_mono) simp_all
  finally have "(x + y * int (fb_width fb) + 1) * int (bytes_per_pixel (fb_format fb)) \<le>
      int (fb_height fb) * int (fb_width fb) * int (bytes_per_pixel (fb_format fb))" by (intro mult_right_mono) simp_all
  then have "(x + y * int (fb_width fb) + 1) * int (bytes_per_pixel (fb_format fb)) \<le> int (length (fb_buf fb))"
    using assms(1) by (simp add: frame_full_def mult.commute mult.left_commute)
  then show ?thesis using assms by (simp add: on_frame_def Let_def)
qed

lemma draw_bit_inside:
  assumes "frame_full fb" "0 \<le> x" "x < int (fb_width fb)" "0 \<le> y" "y < int (fb_height fb)" "8 * off + k < 8 * length bitmaps"
  shows "\<exists>fb'. draw_bit bitmaps off k x y color fb = Some fb' \<and> same_frame fb fb'"
proof -
  obtain fb' where "pixel x y color fb = Some fb'" using pixel_some on_frame_full assms(1-5) by blast
  moreover have "off + k div 8 < length bitmaps" using assms(6) by simp
  ultimately show ?thesis by (auto simp: draw_bit_def bitmap_bit_def dest: pixel_same)
qed

lemma draw_cols_inside:
  assumes "frame_full fb" "0 \<le> x" "x + int n \<le> int (fb_width fb)" "0 \<le> y" "y < int (fb_height fb)"
    "8 * off + k + n \<le> 8 * length bitmaps"
  shows "\<exists>fb'. draw_cols bitmaps off k n x y color fb = Some fb' \<and> same_frame fb fb'"
  using assms
proof (induction n arbitrary: k x fb)
  case (Suc n)
  then obtain fb1 where d: "draw_bit bitmaps off k x y color fb = Some fb1" and same: "same_frame fb fb1"
    using draw_bit_inside [of fb x y off k bitmaps color] by auto
  obtain fb2 where "draw_cols bitmaps off (k + 1) n (x + 1) y color fb1 = Some fb2 \<and> same_frame fb1 fb2"
    using Suc.IH [of fb1 "x + 1" "k + 1"] Suc.prems same_frameD [OF same] same_frame_full [OF same] by auto
  then show ?case using d same_frame_trans [OF same] by simp
qed simp

lemma draw_rows_inside:
  assumes "frame_full fb" "0 \<le> x" "x + int w \<le> int (fb_width fb)" "0 \<le> y" "y + int n \<le> int (fb_height fb)"
    "8 * off + k + n * w \<le> 8 * length bitmaps"
  shows "\<exists>fb'. draw_rows bitmaps off k n w x y color fb = Some fb' \<and> same_frame fb fb'"
  using assms
proof (induction n arbitrary: k y fb)
  case (Suc n)
  then obtain fb1 where d: "draw_cols bitmaps off k w x y color fb = Some fb1" and same: "same_frame fb fb1"
    using draw_cols_inside [of fb x w y off k bitmaps color] by auto
  obtain fb2 where "draw_rows bitmaps off (k + w) n w x (y + 1) color fb1 = Some fb2 \<and> same_frame fb1 fb2"
    using Suc.IH [of fb1 "y + 1" "k + w"] Suc.prems same_frameD [OF same] same_frame_full [OF same]
    by (auto simp: algebra_simps)
  then show ?case using d same_frame_trans [OF same] by simp
qed simp

text \<open>Conversely, a drawing that succeeds has every set bit inside the buffer.\<close>

lemma draw_bit_some:
  "draw_bit bitmaps off k x y color fb = Some fb' \<Longrightarrow>
     same_frame fb fb' \<and> (bitmap_bit bitmaps off k = Some True \<longrightarrow> on_frame fb x y)"
  using pixel_some [of x y color fb] by (auto simp: draw_bit_def bind_eq_Some_conv split: if_splits dest: pixel_same)

lemma draw_cols_some:
  "draw_cols bitmaps off k n x y color fb = Some fb' \<Longrightarrow>
     same_frame fb fb' \<and> (\<forall>j < n. bitmap_bit bitmaps off (k + j) = Some True \<longrightarrow> on_frame fb (x + int j) y)"
proof (induction n arbitrary: k x fb)
  case (Suc n)
  then obtain fb1 where d: "draw_bit bitmaps off k x y color fb = Some fb1"
    and r: "draw_cols bitmaps off (k + 1) n (x + 1) y color fb1 = Some fb'" by (auto simp: bind_eq_Some_conv)
  note one = draw_bit_some [OF d] and rest = Suc.IH [OF r]
  have "on_frame fb (x + int j) y" if "j < Suc n" "bitmap_bit bitmaps off (k + j) = Some True" for j
  proof (cases j)
    case (Suc i)
    then show ?thesis using rest one that on_frame_same by (auto simp: algebra_simps)
  qed (use one that in simp)
  then show ?case using one rest same_frame_trans by blast
qed simp

lemma draw_rows_some:
  "draw_rows bitmaps off k n w x y color fb = Some fb' \<Longrightarrow>
     same_frame fb fb' \<and>
     (\<forall>i < n. \<forall>j < w. bitmap_bit bitmaps off (k + i * w + j) = Some True \<longrightarrow> on_frame fb (x + int j) (y + int i))"
proof (induction n arbitrary: k y fb)
  case (Suc n)
  then obtain fb1 where d: "draw_cols bitmaps off k w x y color fb = Some fb1"
    and r: "draw_rows bitmaps off (k + w) n w x (y + 1) color fb1 = Some fb'" by (auto simp: bind_eq_Some_conv)
  note one = draw_cols_some [OF d] and rest = Suc.IH [OF r]
  have "on_frame fb (x + int j) (y + int i)" if "i < Suc n" "j < w" "bitmap_bit bitmaps off (k + i * w + j) = Some True" for i j
  proof (cases i)
    case (Suc m)
    then show ?thesis using rest one that on_frame_same by (auto simp: algebra_simps)
  qed (use one that in simp)
  then show ?case using one rest same_frame_trans by blast
qed simp

section \<open>A line of text\<close>

text \<open>The printable characters of the advance 14: all but \<^verbatim>\<open>j\<close>.\<close>

definition regular :: "char \<Rightarrow> bool" where
  "regular c \<longleftrightarrow> 32 \<le> (of_char c :: nat) \<and> (of_char c :: nat) \<le> 126 \<and> c \<noteq> CHR ''j''"

lemma regular_advances: "list_all (\<lambda>(c, g). c = 106 \<or> xAdvance g = 14) (zip [32 ..< 127] FreeMonoBold12pt7bGlyphs)"
  by (simp add: FreeMonoBold12pt7bGlyphs_def glyph_def upt_rec)

lemma regular_glyph:
  assumes "regular c"
  shows "xAdvance (gf_glyph gfxFont ! (of_char c - gf_first gfxFont)) = 14"
    "glyph_ok (gf_glyph gfxFont ! (of_char c - gf_first gfxFont))"
proof -
  let ?i = "of_char c - 32 :: nat"
  have i: "?i < 95" "[32 ..< 127] ! ?i = (of_char c :: nat)" 
    using assms nth_upt [of 32 "of_char c - 32" 127] by (auto simp: regular_def simp del: upt_rec_numeral)
  have "(of_char c :: nat) \<noteq> 106" using assms of_char_eq_iff [of c "CHR ''j''"] by (auto simp: regular_def)
  then show "xAdvance (gf_glyph gfxFont ! (of_char c - gf_first gfxFont)) = 14"
    using regular_advances i by (auto simp: list_all_length length_glyphs gfxFont_def simp del: upt_rec_numeral)
  show "glyph_ok (gf_glyph gfxFont ! (of_char c - gf_first gfxFont))"
    using glyphs_ok i by (simp add: list_all_length length_glyphs gfxFont_def)
qed

lemma putc_inside:
  assumes "regular c" "frame_full fb" "1 \<le> x" "x + 15 \<le> int (fb_width fb)" "0 \<le> y" "y + 23 \<le> int (fb_height fb)"
  shows "\<exists>fb'. fb_gfx_putc gfxFont x y color (of_char c) fb = Some (14, fb') \<and> same_frame fb fb'"
proof -
  let ?g = "gf_glyph gfxFont ! (of_char c - gf_first gfxFont)"
  have ok: "glyph_ok ?g" by (rule regular_glyph(2) [OF assms(1)])
  have "\<exists>fb'. draw_rows (gf_bitmap gfxFont) (bitmapOffset ?g) 0 (gl_height ?g) (gl_width ?g)
      (x + xOffset ?g) (y + yOffset ?g + gf_yOffset gfxFont) color fb = Some fb' \<and> same_frame fb fb'"
    using assms ok by (intro draw_rows_inside) (auto simp: glyph_ok_def gfxFont_def length_bitmaps algebra_simps)
  then show ?thesis
    using assms(1) regular_glyph(1) [OF assms(1)]
    unfolding putc_rows_only by (auto simp: regular_def gfxFont_def)
qed

text \<open>A text that fits on the line is drawn there, and the cursor stands behind it.\<close>

lemma print_inside:
  assumes "list_all regular cs" "frame_full fb" "1 \<le> xc" "xc + 14 * int (length cs) + 1 \<le> int (fb_width fb)"
    "0 \<le> yc" "yc + 23 \<le> int (fb_height fb)"
  shows "\<exists>fb'. same_frame fb fb' \<and> print_chars gfxFont x color (cs @ rest) xc yc fb =
      print_chars gfxFont x color rest (xc + 14 * int (length cs)) yc fb'"
  using assms
proof (induction cs arbitrary: xc fb)
  case (Cons c cs)
  then obtain fb1 where d: "fb_gfx_putc gfxFont xc yc color (of_char c) fb = Some (14, fb1)" and same: "same_frame fb fb1"
    using putc_inside [of c fb xc yc color] by auto
  have c: "c \<noteq> CHR 0x0D" "c \<noteq> CHR 0x0A" using Cons.prems(1) by (auto simp: regular_def)
  have "print_chars gfxFont x color ((c # cs) @ rest) xc yc fb = print_chars gfxFont x color (cs @ rest) (xc + 14) yc fb1"
    using Cons.prems(4) c d by (simp add: Let_def gfxFont_def FreeMonoBold12pt7bGlyphs_def glyph_def)
  moreover obtain fb2 where "same_frame fb1 fb2 \<and> print_chars gfxFont x color (cs @ rest) (xc + 14) yc fb1 =
      print_chars gfxFont x color rest (xc + 14 + 14 * int (length cs)) yc fb2"
    using Cons.IH [of fb1 "xc + 14"] Cons.prems same_frameD [OF same] same_frame_full [OF same] by auto
  ultimately show ?case using same_frame_trans [OF same] by (auto simp: algebra_simps)
qed (use same_frame_refl in fastforce)

end
