(* ===== verification/Floor_Display.thy ===== *)
theory Floor_Display
  imports Fb_Gfx Esp_Camera Api_Communication
begin

text \<open>
  The display of the floor detection client: \<^verbatim>\<open>esp_lcd.c\<close>, the sending side in
  \<^verbatim>\<open>detection_responder.cc\<close>, and the conversion of a camera picture in \<^verbatim>\<open>image_provider.cc\<close>. The screen
  driver and the allocators are parameters; what is drawn is the list of the calls of
  \<^verbatim>\<open>draw_bitmap\<close>. The queue is the one of \<^verbatim>\<open>queue.c\<close>, made for items of 12 bytes; the address of a
  frame is 4 bytes long, and the copies of an item read and write 8 bytes behind the variable. What
  lies there is the argument \<open>behind\<close>.
\<close>

section \<open>Pictures\<close>

definition kNumCols :: nat where "kNumCols = 96"
definition kNumRows :: nat where "kNumRows = 96"

text \<open>An element of the picture read as \<^verbatim>\<open>uint16_t\<close>, low byte first.\<close>

definition pixel_at :: "u8 list \<Rightarrow> nat \<Rightarrow> u16" where
  "pixel_at buf i = ucast (buf ! (2 * i)) OR push_bit 8 (ucast (buf ! (2 * i + 1)))"

definition pixel_r :: "u16 \<Rightarrow> u8" where
  "pixel_r p = push_bit 3 (ucast (drop_bit 8 p) AND 0x1F)"
definition pixel_g :: "u16 \<Rightarrow> u8" where
  "pixel_g p = push_bit 5 (ucast p AND 0x07) OR drop_bit 3 (ucast (drop_bit 8 p) AND 0xE0)"
definition pixel_b :: "u16 \<Rightarrow> u8" where
  "pixel_b p = ucast p AND 0xF8"

definition grey_pixel :: "u16 \<Rightarrow> u8" where
  "grey_pixel p = word_of_int ((305 * uint (pixel_r p) + 600 * uint (pixel_g p) + 119 * uint (pixel_b p)) div 2 ^ 10 - 128)"

text \<open>One pixel, a row and all rows; an access outside an array is \<open>None\<close>.\<close>

definition convert_pixel :: "u8 list \<Rightarrow> nat \<Rightarrow> nat \<Rightarrow> u8 list \<times> u16 list \<Rightarrow> (u8 list \<times> u16 list) option" where
  "convert_pixel buf i j = (\<lambda>(image_data, display_buf).
    (let k = i * kNumCols + j; pixel = pixel_at buf k;
         a = 2 * i * kNumCols * 2 + 2 * j; b = (2 * i + 1) * kNumCols * 2 + 2 * j
     in if 2 * k + 1 < length buf \<and> k < length image_data \<and> b + 1 < length display_buf
        then Some (image_data[k := grey_pixel pixel],
                   display_buf[a := pixel, a + 1 := pixel, b := pixel, b + 1 := pixel])
        else None))"

fun convert_cols :: "nat \<Rightarrow> u8 list \<Rightarrow> nat \<Rightarrow> nat \<Rightarrow> u8 list \<times> u16 list \<Rightarrow> (u8 list \<times> u16 list) option" where
  "convert_cols 0 buf i j s = Some s"
| "convert_cols (Suc n) buf i j s = Option.bind (convert_pixel buf i j s) (convert_cols n buf i (j + 1))"

fun convert_rows :: "nat \<Rightarrow> u8 list \<Rightarrow> nat \<Rightarrow> u8 list \<times> u16 list \<Rightarrow> (u8 list \<times> u16 list) option" where
  "convert_rows 0 buf i s = Some s"
| "convert_rows (Suc n) buf i s = Option.bind (convert_cols kNumCols buf i 0 s) (convert_rows n buf (i + 1))"

definition convert_image :: "u8 list \<Rightarrow> u8 list \<times> u16 list \<Rightarrow> (u8 list \<times> u16 list) option" where
  "convert_image buf = convert_rows kNumRows buf 0"

section \<open>The screen\<close>

text \<open>A call of \<^verbatim>\<open>draw_bitmap\<close>: corner, width, height and the pixels.\<close>

datatype draw = Draw int int nat nat "u16 list"

record lcd_env =
  le_find :: esp_err_t
  le_init :: esp_err_t
  le_width :: nat
  le_height :: nat
  le_row_alloc :: bool
  le_logo_alloc :: bool
  le_strip_alloc :: "nat \<Rightarrow> u8 list option"
  le_fb_alloc :: bool
  le_logo :: "u16 list"
  le_sizeof_Queue :: nat
  le_queue_alloc :: "nat \<Rightarrow> u8 list option"

text \<open>The variables of \<^verbatim>\<open>esp_lcd.c\<close>, its task's and \<^verbatim>\<open>xQueueLCDFrame\<close>.\<close>

record lcd =
  color_det :: int
  strip_buf :: "u8 list"
  lcd_running :: bool
  start_time :: "64 word"
  total_frames :: "32 word"
  lcd_queue :: "Queue_t option"
  lcd_draws :: "draw list"

definition lcd_start :: lcd where
  "lcd_start = \<lparr>color_det = 65535, strip_buf = [], lcd_running = False, start_time = 0, total_frames = 0,
     lcd_queue = None, lcd_draws = []\<rparr>"

definition draws :: "draw list \<Rightarrow> lcd \<Rightarrow> lcd" where
  "draws ds st = st\<lparr>lcd_draws := lcd_draws st @ ds\<rparr>"

definition app_lcd_set_color :: "lcd_env \<Rightarrow> int \<Rightarrow> lcd \<Rightarrow> lcd" where
  "app_lcd_set_color env color st =
    (if le_row_alloc env
     then draws (map (\<lambda>y. Draw 0 (int y) (le_width env) 1 (replicate (le_width env) (word_of_int color))) [0 ..< le_height env]) st
     else st)"

definition app_lcd_draw_wallpaper :: "lcd_env \<Rightarrow> lcd \<Rightarrow> lcd" where
  "app_lcd_draw_wallpaper env st = (if le_logo_alloc env then draws [Draw 0 0 240 240 (le_logo env)] st else st)"

definition app_lcd_color_for_detection :: "int \<Rightarrow> lcd \<Rightarrow> lcd" where
  "app_lcd_color_for_detection color st = st\<lparr>color_det := color\<rparr>"

text \<open>The task that is created takes its start time and a frame for the strip at once; it ends when
  there is no memory.\<close>

definition register_lcd_floor :: "lcd_env \<Rightarrow> 64 word \<Rightarrow> lcd \<Rightarrow> esp_err_t \<times> lcd" where
  "register_lcd_floor env now st =
    (if le_find env \<noteq> ESP_OK then (le_find env, st)
     else if le_init env \<noteq> ESP_OK then (ESP_FAIL, st)
     else let st = app_lcd_draw_wallpaper env (app_lcd_set_color env 0 st) in
       (case le_strip_alloc env (nat (int (le_width env) * (int (le_height env) - 192) * 2 mod 2 ^ 32)) of
          None \<Rightarrow> (ESP_FAIL, st)
        | Some strip \<Rightarrow> (ESP_OK, st\<lparr>strip_buf := strip, lcd_running := le_fb_alloc env, start_time := now, total_frames := 0\<rparr>)))"

section \<open>The task of the display\<close>

datatype lcd_fault = Strip_overrun | Division_by_zero

text \<open>The frame that stands for the strip below the picture.\<close>

definition strip_fb :: "u8 list \<Rightarrow> camera_fb_t" where
  "strip_fb strip = \<lparr>fb_buf = strip, fb_len = 240 * (240 - 192), fb_width = 240, fb_height = 240 - 192,
     fb_format = PIXFORMAT_RGB565, fb_tv_sec = 0, fb_tv_usec = 0\<rparr>"

definition fill_strip :: "int \<Rightarrow> u8 list \<Rightarrow> u8 list option" where
  "fill_strip color strip =
    (let n = 240 * (240 - 192); c = word_of_int color :: u16 in
     if 2 * n \<le> length strip
     then Some (mem_write strip 0 (concat (replicate n [ucast c, ucast (drop_bit 8 c)])))
     else None)"

text \<open>\<^verbatim>\<open>(total_frames * 1000) / total_time\<close>: the product is a 32 bit integer, the quotient an unsigned one
  of 64 bits, the result a 32 bit integer.\<close>

definition avg_fps :: "32 word \<Rightarrow> 64 word \<Rightarrow> int option" where
  "avg_fps n total_time =
    (if total_time = 0 then None else Some (sint (ucast (scast (n * 1000) div total_time) :: 32 word)))"

definition fps_text :: "int \<Rightarrow> string" where
  "fps_text n = ''avg fps:'' @ replicate (3 - length (itoa_text n)) CHR '' '' @ itoa_text n"

definition strip_pixels :: "u8 list \<Rightarrow> u16 list" where
  "strip_pixels strip = map (pixel_at strip) [0 ..< 240 * (240 - 192)]"

text \<open>What the task does with a frame: \<open>picture\<close> is what the picture's buffer holds at that time.\<close>

definition show_frame :: "64 word \<Rightarrow> u16 list \<Rightarrow> lcd \<Rightarrow> lcd_fault + lcd" where
  "show_frame now picture st =
    (let st = draws [Draw 24 0 (96 * 2) (96 * 2) picture] st in
     case fill_strip (color_det st) (strip_buf st) of
       None \<Rightarrow> Inl Strip_overrun
     | Some strip \<Rightarrow>
         (let shown = total_frames st + 1; total_time = (now - start_time st) div 1000 in
          case avg_fps shown total_time of
            None \<Rightarrow> Inl Division_by_zero
          | Some n \<Rightarrow>
              (case fb_gfx_printf gfxFont True 40 12 0xffff (fps_text n) (strip_fb strip) of
                 None \<Rightarrow> Inl Strip_overrun
               | Some (_, fb, _) \<Rightarrow>
                   Inr (draws [Draw 0 192 (fb_width fb) (fb_height fb) (strip_pixels (fb_buf fb))]
                     (st\<lparr>strip_buf := fb_buf fb, total_frames := shown\<rparr>)))))"

text \<open>A turn of the task: the item it receives covers the variable \<^verbatim>\<open>frame\<close> and what lies behind it.\<close>

datatype lcd_result = Waiting lcd | Fault lcd_fault | Shown "u8 list" "u8 list" lcd

definition lcd_turn :: "(nat \<Rightarrow> nat list \<Rightarrow> nat list) \<Rightarrow> nat \<Rightarrow> env_step list \<Rightarrow> 64 word \<Rightarrow> u16 list \<Rightarrow> Queue_t \<Rightarrow> lcd \<Rightarrow> lcd_result" where
  "lcd_turn place me env now picture q st =
    (case xQueueReceive place me env q (unat portMAX_DELAY) of
       (pdPASS, item, q) \<Rightarrow>
         (case show_frame now picture (st\<lparr>lcd_queue := Some q\<rparr>) of
            Inl f \<Rightarrow> Fault f | Inr st \<Rightarrow> Shown (take 4 item) (drop 4 item) st)
     | (_, _, q) \<Rightarrow> Waiting (st\<lparr>lcd_queue := Some q\<rparr>))"

section \<open>Responding to a detection\<close>

text \<open>\<open>percent\<close> is the rounded score, \<open>address\<close> the frame the allocator gives.\<close>

datatype responded = Responded lcd | Blocked lcd | Crashed

definition detection_color :: "int \<Rightarrow> int" where
  "detection_color percent = (if percent < 60 then 0x3f else push_bit 6 0x1f)"

definition open_display :: "lcd_env \<Rightarrow> 64 word \<Rightarrow> lcd \<Rightarrow> lcd" where
  "open_display env now st =
    (if lcd_queue st \<noteq> None then st
     else let q = (case xQueueGenericCreate (le_sizeof_Queue env) (le_queue_alloc env) 2 12 of Created q \<Rightarrow> Some q | _ \<Rightarrow> None)
       in (snd (register_lcd_floor env now st))\<lparr>lcd_queue := q\<rparr>)"

definition RespondToDetection ::
    "lcd_env \<Rightarrow> (nat \<Rightarrow> nat list \<Rightarrow> nat list) \<Rightarrow> nat \<Rightarrow> env_step list \<Rightarrow> 64 word \<Rightarrow> u8 list option \<Rightarrow> u8 list \<Rightarrow> int \<Rightarrow> lcd \<Rightarrow> responded" where
  "RespondToDetection env place me waits now address behind percent st =
    (let st = app_lcd_color_for_detection (detection_color percent) (open_display env now st) in
     case (address, lcd_queue st) of
       (Some a, Some q) \<Rightarrow>
         (case xQueueGenericSend place me waits q (a @ behind) (unat portMAX_DELAY) queueSEND_TO_BACK of
            (still_blocked, q) \<Rightarrow> Blocked (st\<lparr>lcd_queue := Some q\<rparr>)
          | (_, q) \<Rightarrow> Responded (st\<lparr>lcd_queue := Some q\<rparr>))
     | _ \<Rightarrow> Crashed)"

section \<open>The picture is doubled\<close>

text \<open>What is in place when the conversion stands before column \<open>j\<close> of row \<open>i\<close>.\<close>

definition converted :: "u8 list \<Rightarrow> nat \<Rightarrow> nat \<Rightarrow> u8 list \<times> u16 list \<Rightarrow> bool" where
  "converted buf i j = (\<lambda>(img, disp). length img = 96 * 96 \<and> length disp = 192 * 192 \<and>
     (\<forall>k < i * 96 + j. img ! k = grey_pixel (pixel_at buf k)) \<and>
     (\<forall>r < 2 * i. \<forall>c < 192. disp ! (r * 192 + c) = pixel_at buf (r div 2 * 96 + c div 2)) \<and>
     (\<forall>c < 2 * j. disp ! (2 * i * 192 + c) = pixel_at buf (i * 96 + c div 2) \<and>
        disp ! ((2 * i + 1) * 192 + c) = pixel_at buf (i * 96 + c div 2)))"

lemma converted_start: "length img = 96 * 96 \<Longrightarrow> length disp = 192 * 192 \<Longrightarrow> converted buf 0 0 (img, disp)"
  by (simp add: converted_def)

lemma converted_row: assumes "converted buf i 96 s" shows "converted buf (i + 1) 0 s"
proof (cases s)
  case (Pair img disp)
  have "disp ! (r * 192 + c) = pixel_at buf (r div 2 * 96 + c div 2)" if "r < 2 * (i + 1)" "c < 192" for r c
  proof -
    have "r < 2 * i \<or> r = 2 * i \<or> r = 2 * i + 1" using that(1) by auto
    then show ?thesis using assms that(2) Pair by (elim disjE) (simp_all add: converted_def)
  qed
  then show ?thesis using assms Pair by (simp add: converted_def add.commute)
qed

lemma convert_pixel_step:
  assumes "converted buf i j s" "i < 96" "j < 96" "2 * 96 * 96 \<le> length buf"
  shows "\<exists>s'. convert_pixel buf i j s = Some s' \<and> converted buf i (j + 1) s'"
proof (cases s)
  case (Pair img disp)
  let ?k = "i * 96 + j" and ?a = "2 * i * 192 + 2 * j" and ?b = "(2 * i + 1) * 192 + 2 * j"
  let ?p = "pixel_at buf ?k"
  let ?img = "img[?k := grey_pixel ?p]" and ?disp = "disp[?a := ?p, ?a + 1 := ?p, ?b := ?p, ?b + 1 := ?p]"
  have len: "length img = 96 * 96" "length disp = 192 * 192" using assms(1) Pair by (simp_all add: converted_def)
  have k: "?k < 96 * 96" "?b + 1 < 192 * 192" using assms(2,3) by (simp_all add: algebra_simps)
  have run: "convert_pixel buf i j s = Some (?img, ?disp)"
    using k len assms(4) by (simp add: Pair convert_pixel_def kNumCols_def Let_def algebra_simps)
  have old: "?disp ! m = disp ! m" if "m \<notin> {?a, ?a + 1, ?b, ?b + 1}" for m using that by simp
  have new: "?disp ! m = ?p" if "m \<in> {?a, ?a + 1, ?b, ?b + 1}" for m using that k len by (auto simp: nth_list_update)
  have above: "?disp ! (r * 192 + c) = pixel_at buf (r div 2 * 96 + c div 2)" if "r < 2 * i" "c < 192" for r c
  proof -
    have "r * 192 + c < 2 * i * 192" using that by linarith
    then have "?disp ! (r * 192 + c) = disp ! (r * 192 + c)" by (intro old) auto
    then show ?thesis using assms(1) Pair that by (simp add: converted_def)
  qed
  have here: "?disp ! (2 * i * 192 + c) = pixel_at buf (i * 96 + c div 2)"
    "?disp ! ((2 * i + 1) * 192 + c) = pixel_at buf (i * 96 + c div 2)" if "c < 2 * (j + 1)" for c
  proof -
    have w: "c < 192" using that assms(3) by simp
    have "c < 2 * j \<or> c = 2 * j \<or> c = 2 * j + 1" using that by auto
    then consider "c < 2 * j" | "c = 2 * j \<or> c = 2 * j + 1" by blast
    then have "?disp ! (2 * i * 192 + c) = pixel_at buf (i * 96 + c div 2) \<and>
        ?disp ! ((2 * i + 1) * 192 + c) = pixel_at buf (i * 96 + c div 2)"
    proof cases
      case 1
      then have "?disp ! (2 * i * 192 + c) = disp ! (2 * i * 192 + c)" "?disp ! ((2 * i + 1) * 192 + c) = disp ! ((2 * i + 1) * 192 + c)"
        using w assms(3) by (intro old; auto)+
      then show ?thesis using assms(1) Pair 1 by (simp add: converted_def)
    next
      case 2
      then have d: "c div 2 = j" by auto
      have "?disp ! (2 * i * 192 + c) = ?p" "?disp ! ((2 * i + 1) * 192 + c) = ?p" using 2 by (intro new; auto)+
      then show ?thesis by (simp only: d simp_thms)
    qed
    then show "?disp ! (2 * i * 192 + c) = pixel_at buf (i * 96 + c div 2)"
      "?disp ! ((2 * i + 1) * 192 + c) = pixel_at buf (i * 96 + c div 2)" by blast+
  qed
  have "?img ! m = grey_pixel (pixel_at buf m)" if "m < i * 96 + (j + 1)" for m
    using assms(1) Pair that k len by (cases "m = ?k") (auto simp: converted_def)
  then have "converted buf i (j + 1) (?img, ?disp)" unfolding converted_def using len above here by auto
  then show ?thesis using run by blast
qed

lemma convert_cols_step:
  "converted buf i j s \<Longrightarrow> i < 96 \<Longrightarrow> j + n = 96 \<Longrightarrow> 2 * 96 * 96 \<le> length buf \<Longrightarrow>
     \<exists>s'. convert_cols n buf i j s = Some s' \<and> converted buf i 96 s'"
proof (induction n arbitrary: j s)
  case (Suc n)
  then obtain s1 where "convert_pixel buf i j s = Some s1" "converted buf i (j + 1) s1"
    using convert_pixel_step [of buf i j s] by auto
  then show ?case using Suc.IH [of "j + 1" s1] Suc.prems by simp
qed simp

lemma convert_rows_step:
  "converted buf i 0 s \<Longrightarrow> i + n = 96 \<Longrightarrow> 2 * 96 * 96 \<le> length buf \<Longrightarrow>
     \<exists>s'. convert_rows n buf i s = Some s' \<and> converted buf 96 0 s'"
proof (induction n arbitrary: i s)
  case (Suc n)
  then obtain s1 where "convert_cols 96 buf i 0 s = Some s1" "converted buf i 96 s1"
    using convert_cols_step [of buf i 0 s 96] by auto
  then show ?case using Suc.IH [of "i + 1" s1] Suc.prems converted_row [of buf i s1] by (simp add: kNumCols_def)
qed simp

lemma convert_image_all:
  assumes "2 * 96 * 96 \<le> length buf" "length img = 96 * 96" "length disp = 192 * 192"
  shows "\<exists>img' disp'. convert_image buf (img, disp) = Some (img', disp') \<and> converted buf 96 0 (img', disp')"
  using convert_rows_step [OF converted_start [OF assms(2,3)], of 96 buf] assms(1)
  by (auto simp: convert_image_def kNumRows_def)

text \<open>The grey value needs no more than eight bits.\<close>

lemma grey_exact:
  "sint (grey_pixel p) = (305 * uint (pixel_r p) + 600 * uint (pixel_g p) + 119 * uint (pixel_b p)) div 2 ^ 10 - 128"
proof -
  have "uint (pixel_r p) \<le> 255" "uint (pixel_g p) \<le> 255" "uint (pixel_b p) \<le> 255"
    using uint_lt2p [of "pixel_r p"] uint_lt2p [of "pixel_g p"] uint_lt2p [of "pixel_b p"] by simp_all
  then have "305 * uint (pixel_r p) + 600 * uint (pixel_g p) + 119 * uint (pixel_b p) < 256 * 2 ^ 10" by simp
  moreover have "0 \<le> 305 * uint (pixel_r p) + 600 * uint (pixel_g p) + 119 * uint (pixel_b p)" by simp
  ultimately show ?thesis
    unfolding grey_pixel_def sint_sbintrunc' by (intro signed_take_bit_int_eq_self) (simp_all add: pos_imp_zdiv_nonneg_iff)
qed

text \<open>
  C33: the conversion of a camera picture of at least 96 x 96 pixels in RGB565 into the arrays of the
  client ends without an access outside an array. Element \<open>k\<close> of the model's input is the weighted
  sum of the colours of pixel \<open>k\<close>, divided by 1024 and moved to start at -128, and the signed 8 bit
  element holds that number exactly, with no wrap-around. The picture for the display, 192 x 192,
  has in row \<open>r\<close> and column \<open>c\<close> the pixel of row \<open>r div 2\<close> and column \<open>c div 2\<close> of the camera's picture.
\<close>

theorem picture_grey_and_doubled:
  assumes "2 * 96 * 96 \<le> length buf" "length image_data = 96 * 96" "length display_buf = 192 * 192"
  shows "\<exists>img disp. convert_image buf (image_data, display_buf) = Some (img, disp) \<and>
    length img = 96 * 96 \<and> length disp = 192 * 192 \<and>
    (\<forall>k < 96 * 96. let p = pixel_at buf k in
       sint (img ! k) = (305 * uint (pixel_r p) + 600 * uint (pixel_g p) + 119 * uint (pixel_b p)) div 1024 - 128) \<and>
    (\<forall>r < 192. \<forall>c < 192. disp ! (r * 192 + c) = pixel_at buf (r div 2 * 96 + c div 2))"
proof -
  obtain img disp where "convert_image buf (image_data, display_buf) = Some (img, disp)" "converted buf 96 0 (img, disp)"
    using convert_image_all [OF assms] by blast
  then show ?thesis using grey_exact by (intro exI [of _ img] exI [of _ disp]) (simp add: converted_def Let_def)
qed

theorem picture_grey_and_doubled_witness:
  "\<exists>img disp. convert_image (replicate 18432 0xFF) (replicate 9216 0, replicate 36864 0) = Some (img, disp) \<and>
     sint (img ! 9215) = 122 \<and> disp ! (191 * 192 + 191) = 0xFFFF"
proof -
  have p: "pixel_at (replicate 18432 0xFF) k = 0xFFFF" if "k < 9216" for k
    using that by (simp add: pixel_at_def)
  obtain img disp where run: "convert_image (replicate 18432 0xFF) (replicate 9216 0, replicate 36864 0) = Some (img, disp)"
    and grey: "\<forall>k < 96 * 96. let p = pixel_at (replicate 18432 0xFF) k in
       sint (img ! k) = (305 * uint (pixel_r p) + 600 * uint (pixel_g p) + 119 * uint (pixel_b p)) div 1024 - 128"
    and doubled: "\<forall>r < 192. \<forall>c < 192. disp ! (r * 192 + c) = pixel_at (replicate 18432 0xFF) (r div 2 * 96 + c div 2)"
    using picture_grey_and_doubled [of "replicate 18432 0xFF" "replicate 9216 0" "replicate 36864 0"] by auto
  have "sint (img ! 9215) = 122"
    using grey [rule_format, of 9215] p [of 9215] by (simp add: Let_def pixel_r_def pixel_g_def pixel_b_def)
  moreover have "disp ! (191 * 192 + 191) = 0xFFFF" using doubled [rule_format, of 191 191] p [of 9215] by simp
  ultimately show ?thesis using run by blast
qed

section \<open>The text on the strip\<close>

lemma decimal_digits: "c \<in> set (decimal n) \<Longrightarrow> of_char c \<in> {48 .. 57 :: nat}"
proof (induction n rule: decimal.induct)
  case (1 n)
  then show ?case using decimal.simps [of n] by (cases "n < 10") auto
qed

lemma itoa_text_length: "length (itoa_text n) \<le> 6 \<longleftrightarrow> - 99999 \<le> n \<and> n \<le> 999999"
  using length_decimal [of "nat (- n)" 4] length_decimal [of "nat n" 5]
  by (cases "n < 0") (auto simp: itoa_text_def)

lemma digit_regular: "of_char c \<in> {48 .. 57 :: nat} \<Longrightarrow> regular c"
  by (auto simp: regular_def)

lemma itoa_regular: "list_all regular (itoa_text n)"
  using decimal_digits digit_regular by (auto simp: itoa_text_def list_all_iff) (simp_all add: regular_def)

lemma fps_text_regular: "list_all regular (fps_text n)"
  using itoa_regular [of n] by (auto simp: fps_text_def list_all_iff) (simp_all add: regular_def)

lemma fps_text_length: "length (fps_text n) \<le> 14 \<longleftrightarrow> - 99999 \<le> n \<and> n \<le> 999999"
  using itoa_text_length [of n] by (auto simp: fps_text_def)

lemma fps_text_digit: "14 < length (fps_text n) \<Longrightarrow> of_char (fps_text n ! 14) \<in> {48 .. 57 :: nat}"
proof -
  assume "14 < length (fps_text n)"
  then have l: "6 < length (itoa_text n)" "fps_text n = ''avg fps:'' @ itoa_text n" by (auto simp: fps_text_def)
  then have "fps_text n ! 14 = itoa_text n ! 6" by (simp add: nth_append)
  moreover have "itoa_text n ! 6 \<in> set (decimal (nat (- n))) \<union> set (decimal (nat n))"
    using l(1) by (auto simp: itoa_text_def nth_Cons' split: if_splits)
  ultimately show ?thesis using decimal_digits by auto
qed

text \<open>Every digit has a pixel 17 rows below the cursor; here is one for each.\<close>

definition low_pixels :: "(nat \<times> nat \<times> nat) list" where
  "low_pixels = [(48, 14, 3), (49, 14, 0), (50, 14, 0), (51, 14, 1), (52, 13, 3),
     (53, 14, 1), (54, 14, 3), (55, 14, 4), (56, 14, 2), (57, 14, 0)]"

definition low_pixel_of :: "GFXglyph \<Rightarrow> nat \<Rightarrow> nat \<Rightarrow> bool" where
  "low_pixel_of g i j \<longleftrightarrow> i < gl_height g \<and> j < gl_width g \<and> yOffset g + 17 + int i = 17 \<and> 0 \<le> xOffset g \<and>
     bitmap_bit (gf_bitmap gfxFont) (bitmapOffset g) (i * gl_width g + j) = Some True"

lemma digits_reach_down: "list_all (\<lambda>(c, i, j). low_pixel_of (gf_glyph gfxFont ! (c - 32)) i j) low_pixels"
  by (simp add: low_pixels_def low_pixel_of_def bitmap_bit_def gfxFont_def length_bitmaps FreeMonoBold12pt7bGlyphs_def glyph_def)
    (simp add: FreeMonoBold12pt7bBitmaps_def)

lemma digit_low_pixel: "c \<in> {48 .. 57} \<Longrightarrow> \<exists>i j. low_pixel_of (gf_glyph gfxFont ! (c - 32)) i j"
proof -
  assume "c \<in> {48 .. 57}"
  then have "c \<in> fst ` set low_pixels" unfolding low_pixels_def by simp arith
  then show ?thesis using digits_reach_down unfolding list_all_iff by force
qed

text \<open>A digit on the second line of the strip leaves it.\<close>

lemma digit_leaves_strip:
  assumes "of_char c \<in> {48 .. 57 :: nat}" "same_frame (strip_fb strip) fb" "length strip = 2 * 240 * 48"
  shows "fb_gfx_putc gfxFont 40 36 color (of_char c) fb = None"
proof -
  let ?g = "gf_glyph gfxFont ! (of_char c - 32)"
  obtain i j where low: "low_pixel_of ?g i j" using digit_low_pixel [OF assms(1)] by blast
  have fb: "fb_width fb = 240" "bytes_per_pixel (fb_format fb) = 2" "length (fb_buf fb) = 2 * 240 * 48"
    using same_frameD [OF assms(2)] assms(3) by (simp_all add: strip_fb_def)
  have "\<not> on_frame fb (40 + xOffset ?g + int j) (36 + yOffset ?g + 17 + int i)"
    using low by (simp add: on_frame_def fb low_pixel_of_def Let_def)
  then have "draw_rows (gf_bitmap gfxFont) (bitmapOffset ?g) 0 (gl_height ?g) (gl_width ?g)
      (40 + xOffset ?g) (36 + yOffset ?g + 17) color fb = None"
    using low draw_rows_some [of "gf_bitmap gfxFont" "bitmapOffset ?g" 0 "gl_height ?g" "gl_width ?g"
      "40 + xOffset ?g" "36 + yOffset ?g + 17" color fb]
    by (cases "draw_rows (gf_bitmap gfxFont) (bitmapOffset ?g) 0 (gl_height ?g) (gl_width ?g)
      (40 + xOffset ?g) (36 + yOffset ?g + 17) color fb") (auto simp: low_pixel_of_def)
  then show ?thesis using assms(1) unfolding putc_rows_only by (simp add: gfxFont_def)
qed

lemma fps_printed:
  assumes "length strip = 2 * 240 * 48"
  shows "(\<exists>r. fb_gfx_printf gfxFont True 40 12 color (fps_text n) (strip_fb strip) = Some r) \<longleftrightarrow> - 99999 \<le> n \<and> n \<le> 999999"
proof -
  let ?fb = "strip_fb strip" and ?t = "fps_text n"
  have full: "frame_full ?fb" using assms by (simp add: frame_full_def strip_fb_def)
  have len: "40 + 14 * int (length (take 14 ?t)) + 1 \<le> int (fb_width ?fb)" by (simp add: strip_fb_def)
  have reg: "list_all regular (take 14 ?t)" using fps_text_regular [of n] by (auto simp: list_all_iff dest: in_set_takeD)
  have "\<exists>fb. same_frame ?fb fb \<and> print_chars gfxFont 40 color (take 14 ?t @ drop 14 ?t) 40 12 ?fb =
      print_chars gfxFont 40 color (drop 14 ?t) (40 + 14 * int (length (take 14 ?t))) 12 fb"
    by (rule print_inside [OF reg full _ len]) (simp_all add: strip_fb_def)
  then obtain fb where same: "same_frame ?fb fb"
    and front: "print_chars gfxFont 40 color (take 14 ?t @ drop 14 ?t) 40 12 ?fb =
      print_chars gfxFont 40 color (drop 14 ?t) (40 + 14 * int (length (take 14 ?t))) 12 fb" by blast
  have some: "(\<exists>r. fb_gfx_printf gfxFont True 40 12 color ?t ?fb = Some r) \<longleftrightarrow>
      (\<exists>r. print_chars gfxFont 40 color ?t 40 12 ?fb = Some r)"
    by (auto simp: fb_gfx_printf_def fb_gfx_print_def Let_def)
  show ?thesis
  proof (cases "length ?t \<le> 14")
    case True
    then show ?thesis using front some fps_text_length [of n] by simp
  next
    case False
    then obtain cs where rest: "drop 14 ?t = ?t ! 14 # cs" by (metis Cons_nth_drop_Suc not_le)
    have digit: "of_char (?t ! 14) \<in> {48 .. 57 :: nat}" using fps_text_digit False by simp
    then have "?t ! 14 \<noteq> CHR 0x0D" "?t ! 14 \<noteq> CHR 0x0A" by auto
    then have "print_chars gfxFont 40 color (drop 14 ?t) 236 12 fb = None"
      unfolding rest using digit_leaves_strip [OF digit same assms] same_frameD [OF same]
      by (simp add: Let_def gfxFont_def FreeMonoBold12pt7bGlyphs_def glyph_def strip_fb_def)
    then show ?thesis using front some False fps_text_length [of n] by simp
  qed
qed

lemma length_strip_fill: "length (concat (replicate n [a, b])) = 2 * n"
  by (induction n) simp_all

lemma fill_strip_some:
  "length strip = 2 * 240 * 48 \<Longrightarrow> \<exists>strip'. fill_strip color strip = Some strip' \<and> length strip' = 2 * 240 * 48"
  by (simp add: fill_strip_def Let_def length_strip_fill)

lemma show_frame_cases:
  assumes "length (strip_buf st) = 2 * 240 * 48"
  shows "case avg_fps (total_frames st + 1) ((now - start_time st) div 1000) of
      None \<Rightarrow> show_frame now picture st = Inl Division_by_zero
    | Some n \<Rightarrow> if - 99999 \<le> n \<and> n \<le> 999999 then \<exists>st'. show_frame now picture st = Inr st'
                else show_frame now picture st = Inl Strip_overrun"
proof -
  obtain strip where fill: "fill_strip (color_det st) (strip_buf st) = Some strip" "length strip = 2 * 240 * 48"
    using fill_strip_some [OF assms] by blast
  show ?thesis
  proof (cases "avg_fps (total_frames st + 1) ((now - start_time st) div 1000)")
    case None
    then show ?thesis using fill by (simp add: show_frame_def draws_def)
  next
    case (Some n)
    show ?thesis
      using Some fill fps_printed [OF fill(2), where color = "0xffff" and n = n]
      by (cases "fb_gfx_printf gfxFont True 40 12 0xffff (fps_text n) (strip_fb strip)")
        (auto simp: show_frame_def draws_def Let_def)
  qed
qed

text \<open>
  With a strip of the size \<^verbatim>\<open>register_lcd\<close> allocates for the screen of 240 x 240, the task shows a
  frame without leaving the strip exactly when the average it prints has at most six characters,
  that is, lies between -99999 and 999999; the text of fifteen characters is broken into a second line,
  and its digit runs below the strip. The other ends are a division by zero in the first
  millisecond and the overrun.
\<close>

theorem strip_holds_six_characters:
  assumes "length (strip_buf st) = 2 * 240 * 48"
  shows "((\<exists>st'. show_frame now picture st = Inr st') \<longleftrightarrow>
      (\<exists>n. avg_fps (total_frames st + 1) ((now - start_time st) div 1000) = Some n \<and> - 99999 \<le> n \<and> n \<le> 999999)) \<and>
    (show_frame now picture st = Inl Division_by_zero \<longleftrightarrow> (now - start_time st) div 1000 = 0)"
  using show_frame_cases [OF assms, of now picture]
  by (auto simp: avg_fps_def split: option.splits if_splits)

definition demo_lcd :: "32 word \<Rightarrow> lcd" where
  "demo_lcd n = lcd_start\<lparr>strip_buf := replicate 23040 0, total_frames := n\<rparr>"

theorem strip_holds_six_characters_witness:
  "(\<exists>st'. show_frame 10000000 [] (demo_lcd 99) = Inr st') \<and> show_frame 999 [] (demo_lcd 0) = Inl Division_by_zero"
proof
  have "avg_fps 100 10000 = Some 10" by (simp add: avg_fps_def)
  then show "\<exists>st'. show_frame 10000000 [] (demo_lcd 99) = Inr st'"
    using strip_holds_six_characters [of "demo_lcd 99" 10000000 "[]"] by (simp add: demo_lcd_def lcd_start_def)
  show "show_frame 999 [] (demo_lcd 0) = Inl Division_by_zero"
    using strip_holds_six_characters [of "demo_lcd 0" 999 "[]"] by (simp add: demo_lcd_def lcd_start_def)
qed

text \<open>
  The count of frames times 1000 leaves the range of a 32 bit integer with frame 2147484. At ten
  frames a second, which is after 60 hours, the frame before is shown with the average 10; this one
  gives the average -14090, and the text of frame 2147487, with the average -134090, runs out of the strip.
\<close>

theorem frame_count_overruns_strip:
  assumes "length (strip_buf st) = 2 * 240 * 48" "start_time st = 0"
  shows "avg_fps 2147483 214748300 = Some 10 \<and> avg_fps 2147484 214748400 = Some (- 14090) \<and>
    (total_frames st = 2147482 \<longrightarrow> (\<exists>st'. show_frame 214748300000 picture st = Inr st')) \<and>
    (total_frames st = 2147486 \<longrightarrow> show_frame 214748700000 picture st = Inl Strip_overrun)"
proof -
  have "avg_fps 2147483 214748300 = Some 10" "avg_fps 2147484 214748400 = Some (- 14090)"
    "avg_fps 2147487 214748700 = Some (- 134090)" by (simp_all add: avg_fps_def)
  then show ?thesis
    using show_frame_cases [OF assms(1), of 214748300000 picture] show_frame_cases [OF assms(1), of 214748700000 picture]
      assms(2) by auto
qed

theorem frame_count_overruns_strip_witness:
  "show_frame 214748700000 [] (demo_lcd 2147486) = Inl Strip_overrun"
  using frame_count_overruns_strip [of "demo_lcd 2147486" "[]"] by (simp add: demo_lcd_def lcd_start_def)

section \<open>A display that was not registered\<close>

text \<open>Turns of a wait in which nothing happens to the queue.\<close>

definition idle :: env_step where
  "idle = \<lparr>es_mid = id, es_expired = False, es_wake = id, es_retry = id\<rparr>"

lemma full_stays_blocked:
  assumes "uxMessagesWaiting q = uxLength q" "cRxLock q = queueUNLOCKED" "cTxLock q = queueUNLOCKED"
  shows "\<exists>q'. xQueueGenericSend_loop place me item True queueSEND_TO_BACK (replicate n idle) q = (still_blocked, q')"
  using assms
proof (induction n arbitrary: q)
  case 0
  then show ?case by (simp add: q_room_def)
next
  case (Suc n)
  let ?q = "prvUnlockQueue ((prvLockQueue q)\<lparr>xTasksWaitingToSend := place me (xTasksWaitingToSend (prvLockQueue q))\<rparr>)"
  have "uxMessagesWaiting ?q = uxLength ?q" "cRxLock ?q = queueUNLOCKED" "cTxLock ?q = queueUNLOCKED"
    using Suc.prems by (simp_all add: prvLockQueue_def prvUnlockQueue_def queueUNLOCKED_def queueLOCKED_UNMODIFIED_def Let_def)
  from Suc.IH [OF this] show ?case
    using Suc.prems by (simp add: q_room_def idle_def prvIsQueueFull_def prvLockQueue_def Let_def)
qed

lemma send_counts:
  "uxMessagesWaiting (send_now q item queueSEND_TO_BACK) = uxMessagesWaiting q + 1"
  "uxLength (send_now q item queueSEND_TO_BACK) = uxLength q"
  "cRxLock (send_now q item queueSEND_TO_BACK) = cRxLock q"
  "cTxLock (send_now q item queueSEND_TO_BACK) = cTxLock q"
  by (auto simp: send_now_def prvCopyDataToQueue_def Let_def)

lemma created_counts:
  assumes "xQueueGenericCreate sz malloc len item = Created q"
  shows "uxMessagesWaiting q = 0" "uxLength q = len" "cRxLock q = queueUNLOCKED" "cTxLock q = queueUNLOCKED"
  using assms by (auto simp: xQueueGenericCreate_def Let_def prvInitialiseNewQueue_def xQueueGenericReset_def
      split: if_splits option.splits)

lemma respond_sends:
  assumes "lcd_queue st = Some q" "uxMessagesWaiting q < uxLength q"
  shows "RespondToDetection env place me waits now (Some a) behind percent st =
    Responded (st\<lparr>color_det := detection_color percent, lcd_queue := Some (send_now q (a @ behind) queueSEND_TO_BACK)\<rparr>)"
proof -
  have "xQueueGenericSend_loop place me item w queueSEND_TO_BACK waits q = (pdPASS, send_now q item queueSEND_TO_BACK)" for item w
    using assms(2) by (cases waits) (simp_all add: q_room_def)
  then show ?thesis using assms(1)
    by (simp add: RespondToDetection_def open_display_def app_lcd_color_for_detection_def xQueueGenericSend_def)
qed

lemma unregistered_display:
  "fst (register_lcd_floor env now st) \<noteq> ESP_OK \<Longrightarrow> lcd_running (snd (register_lcd_floor env now st)) = lcd_running st"
  by (auto simp: register_lcd_floor_def Let_def app_lcd_draw_wallpaper_def app_lcd_set_color_def draws_def split: option.splits)

text \<open>
  The answer of \<^verbatim>\<open>register_lcd\<close> is not looked at. When it fails (no driver, no screen, no memory for the
  strip), no task takes frames from the queue, the first two detections fill it, and the third
  does not return: its wait has no time limit, and for any number of turns in which
  nothing else touches the queue it is still blocked.
\<close>

theorem unregistered_display_blocks_detection:
  assumes "fst (register_lcd_floor env now lcd_start) \<noteq> ESP_OK"
    and "xQueueGenericCreate (le_sizeof_Queue env) (le_queue_alloc env) 2 12 = Created q"
  shows "\<exists>st1 st2 st3.
    RespondToDetection env place me [] now (Some a1) b1 p1 lcd_start = Responded st1 \<and>
    RespondToDetection env place me [] now2 (Some a2) b2 p2 st1 = Responded st2 \<and> \<not> lcd_running st2 \<and>
    RespondToDetection env place me (replicate n idle) now3 (Some a3) b3 p3 st2 = Blocked st3"
proof -
  let ?s0 = "(snd (register_lcd_floor env now lcd_start))\<lparr>lcd_queue := Some q\<rparr>"
  let ?q1 = "send_now q (a1 @ b1) queueSEND_TO_BACK"
  let ?q2 = "send_now ?q1 (a2 @ b2) queueSEND_TO_BACK"
  let ?s1 = "?s0\<lparr>color_det := detection_color p1, lcd_queue := Some ?q1\<rparr>"
  let ?s2 = "?s1\<lparr>color_det := detection_color p2, lcd_queue := Some ?q2\<rparr>"
  note c = created_counts [OF assms(2)]
  have o: "open_display env now lcd_start = ?s0" using assms(2) by (simp add: open_display_def lcd_start_def)
  have "RespondToDetection env place me [] now (Some a1) b1 p1 lcd_start =
      RespondToDetection env place me [] now (Some a1) b1 p1 ?s0"
    unfolding RespondToDetection_def o by (simp add: open_display_def)
  also have "\<dots> = Responded ?s1" using c by (intro respond_sends) simp_all
  finally have one: "RespondToDetection env place me [] now (Some a1) b1 p1 lcd_start = Responded ?s1" .
  have two: "RespondToDetection env place me [] now2 (Some a2) b2 p2 ?s1 = Responded ?s2"
    using c by (intro respond_sends) (simp_all add: send_counts)
  have "\<not> lcd_running ?s2" using unregistered_display [OF assms(1)] by (simp add: lcd_start_def)
  moreover obtain q3 where "xQueueGenericSend_loop place me (a3 @ b3) True queueSEND_TO_BACK (replicate n idle) ?q2 = (still_blocked, q3)"
    using full_stays_blocked [of ?q2 place me "a3 @ b3" n] c by (auto simp: send_counts)
  then have "RespondToDetection env place me (replicate n idle) now3 (Some a3) b3 p3 ?s2 =
      Blocked (?s2\<lparr>color_det := detection_color p3, lcd_queue := Some q3\<rparr>)"
    by (simp add: RespondToDetection_def open_display_def app_lcd_color_for_detection_def xQueueGenericSend_def portMAX_DELAY_def)
  ultimately show ?thesis using one two by blast
qed

definition demo_lcd_env :: lcd_env where
  "demo_lcd_env = \<lparr>le_find = ESP_OK, le_init = ESP_OK, le_width = 240, le_height = 240, le_row_alloc = True,
     le_logo_alloc = True, le_strip_alloc = (\<lambda>_. None), le_fb_alloc = True, le_logo = [], le_sizeof_Queue = 80,
     le_queue_alloc = (\<lambda>n. Some (replicate n 0))\<rparr>"

theorem unregistered_display_blocks_detection_witness:
  "\<exists>st1 st2 st3.
    RespondToDetection demo_lcd_env (\<lambda>me ws. ws @ [me]) 7 [] 0 (Some [1, 2, 3, 4]) (replicate 8 0) 70 lcd_start = Responded st1 \<and>
    RespondToDetection demo_lcd_env (\<lambda>me ws. ws @ [me]) 7 [] 1 (Some [1, 2, 3, 4]) (replicate 8 0) 20 st1 = Responded st2 \<and>
    \<not> lcd_running st2 \<and>
    RespondToDetection demo_lcd_env (\<lambda>me ws. ws @ [me]) 7 (replicate 100 idle) 2 (Some [1, 2, 3, 4]) (replicate 8 0) 20 st2 = Blocked st3"
proof (rule unregistered_display_blocks_detection)
  show "fst (register_lcd_floor demo_lcd_env 0 lcd_start) \<noteq> ESP_OK"
    by (simp add: register_lcd_floor_def demo_lcd_env_def esp_err_defs)
  show "xQueueGenericCreate (le_sizeof_Queue demo_lcd_env) (le_queue_alloc demo_lcd_env) 2 12 =
      Created (prvInitialiseNewQueue 2 12 (replicate 24 0))"
    by (simp add: xQueueGenericCreate_def demo_lcd_env_def wrap32_def)
qed

end
