(* ===== verification/Floor_Detection.thy ===== *)
theory Floor_Detection
  imports Floor_Display
begin

text \<open>
  The floor detection client put together: \<^verbatim>\<open>app_camera_esp.c\<close>, \<^verbatim>\<open>InitCamera\<close> and \<^verbatim>\<open>GetImage\<close> of
  \<^verbatim>\<open>image_provider.cc\<close>, \<^verbatim>\<open>setup\<close>, \<^verbatim>\<open>loop\<close> and \<^verbatim>\<open>run_inference\<close> of \<^verbatim>\<open>main_functions.cc\<close>, for the build with a
  display. The camera driver is the one of \<^verbatim>\<open>esp32-camera\<close>. The interpreter of the neural network is not part
  of the sources: whether the model has the right version, whether its tensors can be allocated, the
  answer of \<^verbatim>\<open>Invoke\<close> for a picture, and the percentage the floating point computation gives for a
  score are parameters.
\<close>

section \<open>The camera\<close>

text \<open>The configuration is a local variable; the field \<^verbatim>\<open>grab_mode\<close> is not set and holds what lies there.\<close>

definition floor_camera_config :: "camera_grab_mode_t \<Rightarrow> camera_config_t" where
  "floor_camera_config garbage = \<lparr>pin_pwdn = -1, pin_reset = -1, pin_xclk = 15, pin_sscb_sda = 4,
     pin_sscb_scl = 5, pin_data = [11, 9, 8, 10, 12, 18, 17, 16], pin_vsync = 6, pin_href = 7,
     pin_pclk = 13, xclk_freq_hz = 15000000, pixel_format = PIXFORMAT_RGB565, frame_size = FRAMESIZE_96X96,
     jpeg_quality = 10, fb_count = 2, fb_location = CAMERA_FB_IN_PSRAM, grab_mode = garbage\<rparr>"

definition app_camera_init :: "'d camera_env \<Rightarrow> camera_grab_mode_t \<Rightarrow> 'd camera \<Rightarrow> (int \<times> 'd camera) option" where
  "app_camera_init env garbage st =
    (case esp_camera_init env (Some (floor_camera_config garbage)) st of
       Camera_aborted \<Rightarrow> None
     | Camera_done err st \<Rightarrow>
         if err \<noteq> ESP_OK then Some (-1, st)
         else Some (0, calls env (Set_vflip 1 #
                (if PID (sen_id st) = OV3660_PID then [Set_brightness 1, Set_saturation (-2)] else [])) st))"

section \<open>State and environment\<close>

record 'd floor =
  fl_arena :: bool
  fl_interpreter :: bool
  fl_input :: "u8 list option"
  fl_display_buf :: "u16 list option"
  fl_camera :: "'d camera"
  fl_lcd :: lcd

record 'd floor_env =
  fe_version_ok :: bool
  fe_arena :: bool
  fe_allocate :: bool
  fe_tensor :: "u8 list"
  fe_invoke :: "u8 list \<Rightarrow> bool \<times> u8 list"
  fe_percent :: "u8 \<Rightarrow> int"
  fe_display_buf :: "u16 list option"
  fe_camera :: "'d camera_env"
  fe_garbage :: camera_grab_mode_t
  fe_lcd :: lcd_env

definition kPersonIndex :: nat where "kPersonIndex = 1"

section \<open>Setup\<close>

text \<open>\<^verbatim>\<open>kTfLiteOk\<close> is \<open>True\<close>; \<open>None\<close> when a check in the camera driver stops the program.\<close>

definition InitCamera :: "'d floor_env \<Rightarrow> 'd floor \<Rightarrow> (bool \<times> 'd floor) option" where
  "InitCamera env st =
    (let st = (if fl_display_buf st = None then st\<lparr>fl_display_buf := fe_display_buf env\<rparr> else st) in
     if fl_display_buf st = None then Some (False, st)
     else case app_camera_init (fe_camera env) (fe_garbage env) (fl_camera st) of
       None \<Rightarrow> None
     | Some (ret, cam) \<Rightarrow> Some (ret = 0, st\<lparr>fl_camera := cam\<rparr>))"

definition setup_floor :: "'d floor_env \<Rightarrow> 'd floor \<Rightarrow> 'd floor option" where
  "setup_floor env st =
    (if \<not> fe_version_ok env then Some st
     else let st = (if fl_arena st then st else st\<lparr>fl_arena := fe_arena env\<rparr>) in
       if \<not> fl_arena st then Some st
       else let st = st\<lparr>fl_interpreter := True\<rparr> in
         if \<not> fe_allocate env then Some st
         else map_option snd (InitCamera env (st\<lparr>fl_input := Some (fe_tensor env)\<rparr>)))"

section \<open>A turn\<close>

text \<open>What the caller of \<^verbatim>\<open>GetImage\<close> sees: the status, the picture it filled, the display's picture and
  the camera; \<open>None\<close> is an access outside the arrays or through a null pointer.\<close>

datatype 'd image_result = Image_crash | Image_waiting | Image bool "u8 list" "u16 list option" "'d camera"

definition frame_bytes :: "'d camera \<Rightarrow> nat \<Rightarrow> u8 list" where
  "frame_bytes cam x = (case drv_obj (cd cam) of None \<Rightarrow> [] | Some (_, c) \<Rightarrow> fb_buf (fr_fb (frames c ! x)))"

definition GetImage :: "cam_wait list \<Rightarrow> u8 list \<Rightarrow> u16 list option \<Rightarrow> 'd camera \<Rightarrow> 'd image_result" where
  "GetImage ws image_data display_buf cam =
    (case esp_camera_fb_get ws cam of
       Fb_crash \<Rightarrow> Image_crash
     | Fb_waiting \<Rightarrow> Image_waiting
     | Fb None cam \<Rightarrow> Image False image_data display_buf cam
     | Fb (Some x) cam \<Rightarrow>
         (case Option.bind display_buf (\<lambda>disp. convert_image (frame_bytes cam x) (image_data, disp)) of
            None \<Rightarrow> Image_crash
          | Some (img, disp) \<Rightarrow> Image True img (Some disp) (esp_camera_fb_return x cam)))"

datatype 'd turn = Turn_crash | Turn_waiting | Turn_blocked "'d floor" | Turn "'d floor"

definition respond_turn :: "'d floor \<Rightarrow> responded \<Rightarrow> 'd turn" where
  "respond_turn st r = (case r of
     Responded l \<Rightarrow> Turn (st\<lparr>fl_lcd := l\<rparr>) | Blocked l \<Rightarrow> Turn_blocked (st\<lparr>fl_lcd := l\<rparr>) | Crashed \<Rightarrow> Turn_crash)"

text \<open>What the call of \<^verbatim>\<open>RespondToDetection\<close> depends on besides the score.\<close>

type_synonym respond_ctx = "(nat \<Rightarrow> nat list \<Rightarrow> nat list) \<times> nat \<times> env_step list \<times> 64 word \<times> u8 list option \<times> u8 list"

definition respond :: "'d floor_env \<Rightarrow> respond_ctx \<Rightarrow> u8 list \<Rightarrow> 'd floor \<Rightarrow> 'd turn" where
  "respond env ctx output st =
    (case ctx of (place, me, waits, now, address, behind) \<Rightarrow>
       if kPersonIndex < length output
       then respond_turn st (RespondToDetection (fe_lcd env) place me waits now address behind
         (fe_percent env (output ! kPersonIndex)) (fl_lcd st))
       else Turn_crash)"

definition loop_floor :: "'d floor_env \<Rightarrow> cam_wait list \<Rightarrow> respond_ctx \<Rightarrow> 'd floor \<Rightarrow> 'd turn" where
  "loop_floor env ws ctx st =
    (case fl_input st of
       None \<Rightarrow> Turn_crash
     | Some img \<Rightarrow>
         (case GetImage ws img (fl_display_buf st) (fl_camera st) of
            Image_crash \<Rightarrow> Turn_crash
          | Image_waiting \<Rightarrow> Turn_waiting
          | Image ok img disp cam \<Rightarrow>
              (if fl_interpreter st
               then respond env ctx (snd (fe_invoke env img))
                 (st\<lparr>fl_input := Some img, fl_display_buf := disp, fl_camera := cam\<rparr>)
               else Turn_crash)))"

text \<open>The detection on a picture of the console: the picture is unsigned.\<close>

definition run_inference :: "'d floor_env \<Rightarrow> respond_ctx \<Rightarrow> u8 list \<Rightarrow> 'd floor \<Rightarrow> 'd turn" where
  "run_inference env ctx ptr st =
    (case fl_input st of
       None \<Rightarrow> Turn_crash
     | Some img \<Rightarrow>
         if kNumCols * kNumRows \<le> length ptr \<and> kNumCols * kNumRows \<le> length img \<and> fl_interpreter st
         then let img = mem_write img 0 (map (\<lambda>b. b XOR 0x80) (take (kNumCols * kNumRows) ptr)) in
           respond env ctx (snd (fe_invoke env img)) (st\<lparr>fl_input := Some img\<rparr>)
         else Turn_crash)"

section \<open>Properties\<close>

text \<open>The unsigned picture becomes signed by subtracting 128.\<close>

lemma quantize: "sint (b XOR 0x80 :: u8) = uint b - 128"
proof -
  have "list_all (\<lambda>n. sint (word_of_nat n XOR 0x80 :: u8) = int n - 128) [0 ..< 256]" by code_simp
  moreover have "unat b < 256" using unsigned_less [of b] by simp
  ultimately have "sint (word_of_nat (unat b) XOR 0x80 :: u8) = int (unat b) - 128"
    unfolding list_all_iff set_upt by (metis atLeastLessThan_iff zero_le)
  then show ?thesis by simp
qed

text \<open>
  The function \<^verbatim>\<open>setup\<close> returns nothing, so the turns that follow do not know how it ended. When it stops early
  (a model of the wrong version, no memory for the arena, tensors that cannot be allocated), there
  is no input tensor and the first turn reads through a null pointer. When only the camera could
  not be started, the turns go on: each judges what the input tensor already holds and reports it.
\<close>

theorem failed_setup_unnoticed:
  assumes "setup_floor env st = Some st'" "fl_input st = None"
  shows "(fl_input st' = None \<longleftrightarrow> \<not> fe_version_ok env \<or> \<not> (fl_arena st \<or> fe_arena env) \<or> \<not> fe_allocate env) \<and>
    (fl_input st' = None \<longrightarrow> loop_floor env ws ctx st' = Turn_crash) \<and>
    (fl_input st' \<noteq> None \<and> s_state (fl_camera st') = None \<longrightarrow>
       loop_floor env ws ctx st' = respond env ctx (snd (fe_invoke env (the (fl_input st')))) st')"
proof -
  have "fl_input st'' = fl_input st \<and> fl_interpreter st'' = fl_interpreter st" if "InitCamera env st = Some (r, st'')" for r st'' st
    using that by (auto simp: InitCamera_def Let_def split: if_splits option.splits prod.splits)
  then have inp: "(fl_input st' = None \<longleftrightarrow> \<not> fe_version_ok env \<or> \<not> (fl_arena st \<or> fe_arena env) \<or> \<not> fe_allocate env) \<and>
      (fl_input st' \<noteq> None \<longrightarrow> fl_interpreter st')"
    using assms by (fastforce simp: setup_floor_def Let_def split: if_splits)
  have "loop_floor env ws ctx st' = respond env ctx (snd (fe_invoke env (the (fl_input st')))) st'"
    if "fl_input st' = Some img" "s_state (fl_camera st') = None" for img
    using that inp by (cases st') (simp add: loop_floor_def GetImage_def esp_camera_fb_get_def)
  then show ?thesis using inp by (auto simp: loop_floor_def)
qed

definition demo_floor_env :: "bool \<Rightarrow> reg_file floor_env" where
  "demo_floor_env ok = \<lparr>fe_version_ok = ok, fe_arena = True, fe_allocate = True, fe_tensor = replicate 9216 0,
     fe_invoke = (\<lambda>img. (True, [0x20, img ! 0])), fe_percent = (\<lambda>b. if b = 0x7A then 95 else 0),
     fe_display_buf = Some (replicate 36864 0), fe_camera = demo_env, fe_garbage = CAMERA_GRAB_LATEST, fe_lcd = demo_lcd_env\<rparr>"

definition demo_floor :: "reg_file floor" where
  "demo_floor = \<lparr>fl_arena = False, fl_interpreter = False, fl_input = None, fl_display_buf = None,
     fl_camera = demo_camera [], fl_lcd = lcd_start\<rparr>"

theorem failed_setup_unnoticed_witness:
  "setup_floor (demo_floor_env False) demo_floor = Some demo_floor \<and>
   loop_floor (demo_floor_env False) [] (\<lambda>me ws. ws, 1, [], 0, None, []) demo_floor = Turn_crash"
proof -
  have s: "setup_floor (demo_floor_env False) demo_floor = Some demo_floor"
    by (simp add: setup_floor_def demo_floor_env_def)
  have i: "fl_input demo_floor = None" "\<not> fe_version_ok (demo_floor_env False)"
    by (simp_all add: demo_floor_def demo_floor_env_def)
  show ?thesis using s i failed_setup_unnoticed [OF s i(1), of "[]" "(\<lambda>me ws. ws, 1, [], 0, None, [])"] by blast
qed

text \<open>
  C21: a turn that gets a frame from the camera, with the tensor and the display's picture in place and
  room in the display's queue, judges that frame: the tensor holds the grey picture of the
  frame's bytes, the display's picture is the frame doubled, the frame goes back to the driver, the
  colour of the strip is the one for the score the network gives for this picture, and one
  address is sent to the display's task.
\<close>

theorem turn_judges_new_frame:
  assumes "fl_input st = Some img" "length img = 96 * 96" "fl_display_buf st = Some disp" "length disp = 192 * 192"
    and "fl_interpreter st" "esp_camera_fb_get ws (fl_camera st) = Fb (Some x) cam" "2 * 96 * 96 \<le> length (frame_bytes cam x)"
    and "lcd_queue (fl_lcd st) = Some q" "uxMessagesWaiting q < uxLength q" "\<And>i. length (snd (fe_invoke env i)) = 2"
  shows "\<exists>img' disp'. loop_floor env ws (place, me, waits, now, Some a, behind) st =
      Turn (st\<lparr>fl_input := Some img', fl_display_buf := Some disp', fl_camera := esp_camera_fb_return x cam,
        fl_lcd := (fl_lcd st)\<lparr>color_det := detection_color (fe_percent env (snd (fe_invoke env img') ! 1)),
          lcd_queue := Some (send_now q (a @ behind) queueSEND_TO_BACK)\<rparr>\<rparr>) \<and>
    (\<forall>k < 96 * 96. img' ! k = grey_pixel (pixel_at (frame_bytes cam x) k)) \<and>
    (\<forall>r < 192. \<forall>c < 192. disp' ! (r * 192 + c) = pixel_at (frame_bytes cam x) (r div 2 * 96 + c div 2))"
proof -
  obtain img' disp' where conv: "convert_image (frame_bytes cam x) (img, disp) = Some (img', disp')"
    and all: "converted (frame_bytes cam x) 96 0 (img', disp')"
    using convert_image_all [OF assms(7,2,4)] by blast
  have "GetImage ws img (Some disp) (fl_camera st) = Image True img' (Some disp') (esp_camera_fb_return x cam)"
    using assms(6) conv by (simp add: GetImage_def)
  then have "loop_floor env ws (place, me, waits, now, Some a, behind) st =
      Turn (st\<lparr>fl_input := Some img', fl_display_buf := Some disp', fl_camera := esp_camera_fb_return x cam,
        fl_lcd := (fl_lcd st)\<lparr>color_det := detection_color (fe_percent env (snd (fe_invoke env img') ! 1)),
          lcd_queue := Some (send_now q (a @ behind) queueSEND_TO_BACK)\<rparr>\<rparr>)"
    using assms(1,3,5,10) respond_sends [OF assms(8,9)]
    by (simp add: loop_floor_def respond_def respond_turn_def kPersonIndex_def)
  then show ?thesis using all by (auto simp: converted_def)
qed

definition demo_shot :: cam_obj_t where
  "demo_shot = cam_obj_zero\<lparr>frame_cnt := 1, frame_buffer_queue := Some \<lparr>cq_block = 2, cq_cap = 1, cq_items = [0]\<rparr>,
     frames := [\<lparr>fr_fb = \<lparr>fb_buf = replicate 18432 0xFF, fb_len = 18432, fb_width = 96, fb_height = 96,
       fb_format = PIXFORMAT_RGB565, fb_tv_sec = 0, fb_tv_usec = 0\<rparr>, fr_addr = 9, fr_en = False, fr_dma = None, fr_offset = 0\<rparr>]\<rparr>"

definition demo_running :: "reg_file floor" where
  "demo_running = demo_floor\<lparr>fl_arena := True, fl_interpreter := True, fl_input := Some (replicate 9216 0),
     fl_display_buf := Some (replicate 36864 0),
     fl_camera := (demo_camera [])\<lparr>cd := (demo_driver [])\<lparr>drv_obj := Some (1, demo_shot)\<rparr>, s_state := Some 3\<rparr>,
     fl_lcd := lcd_start\<lparr>lcd_queue := Some (prvInitialiseNewQueue 2 12 (replicate 24 0))\<rparr>\<rparr>"

theorem turn_judges_new_frame_witness:
  "\<exists>st'. loop_floor (demo_floor_env True) [\<lparr>w_others = id, w_elapsed = 0, w_behind = (\<lambda>_. 0)\<rparr>]
      (\<lambda>me ws. ws, 1, [], 0, Some [1, 2, 3, 4], replicate 8 0) demo_running = Turn st' \<and>
    color_det (fl_lcd st') = 0x7C0 \<and> (\<exists>img. fl_input st' = Some img \<and> img ! 5 = 0x7A)"
proof -
  let ?ws = "[\<lparr>w_others = id, w_elapsed = 0, w_behind = (\<lambda>_. 0)\<rparr>] :: cam_wait list"
  have "\<exists>cam. esp_camera_fb_get ?ws (fl_camera demo_running) = Fb (Some 0) cam \<and> frame_bytes cam 0 = replicate 18432 0xFF"
    by (simp add: esp_camera_fb_get_def demo_running_def demo_shot_def cam_obj_zero_def cq_get_def
        take_received_def frame_bytes_def upd_frame_def upd_fb_def Let_def)
  then obtain cam where get: "esp_camera_fb_get ?ws (fl_camera demo_running) = Fb (Some 0) cam"
    and bytes: "frame_bytes cam 0 = replicate 18432 0xFF" by blast
  have p: "pixel_at (replicate 18432 0xFF) k = 0xFFFF" if "k < 9216" for k using that by (simp add: pixel_at_def)
  have white: "grey_pixel 0xFFFF = 0x7A" by (simp add: grey_pixel_def pixel_r_def pixel_g_def pixel_b_def)
  let ?q = "prvInitialiseNewQueue 2 12 (replicate 24 0)"
  have "\<exists>img' disp'. loop_floor (demo_floor_env True) ?ws (\<lambda>me ws. ws, 1, [], 0, Some [1, 2, 3, 4], replicate 8 0) demo_running =
      Turn (demo_running\<lparr>fl_input := Some img', fl_display_buf := Some disp', fl_camera := esp_camera_fb_return 0 cam,
        fl_lcd := (fl_lcd demo_running)\<lparr>color_det := detection_color (fe_percent (demo_floor_env True) (snd (fe_invoke (demo_floor_env True) img') ! 1)),
          lcd_queue := Some (send_now ?q ([1, 2, 3, 4] @ replicate 8 0) queueSEND_TO_BACK)\<rparr>\<rparr>) \<and>
      (\<forall>k < 96 * 96. img' ! k = grey_pixel (pixel_at (frame_bytes cam 0) k)) \<and>
      (\<forall>r < 192. \<forall>c < 192. disp' ! (r * 192 + c) = pixel_at (frame_bytes cam 0) (r div 2 * 96 + c div 2))"
    by (rule turn_judges_new_frame [where img = "replicate 9216 0" and disp = "replicate 36864 0"])
      (use get bytes in \<open>simp_all add: demo_running_def demo_floor_env_def prvInitialiseNewQueue_def xQueueGenericReset_def\<close>)
  then show ?thesis using bytes p white by (auto simp: demo_floor_env_def detection_color_def)
qed

end
