(* ===== verification/Spi_Bus.thy ===== *)
theory Spi_Bus
  imports FreeRTOS_Mutex
begin

text \<open>
  The bus component \<^verbatim>\<open>bus/spi_bus.c\<close>: the two SPI buses, the devices on them with a mutex each, and the
  transfers. The SPI master driver, the allocator and the mutexes are the functions of an environment,
  over a state \<open>'h\<close> of the hardware and of the kernel. A handle is the index of the bus or the
  address of the device, \<open>None\<close> for \<^verbatim>\<open>NULL\<close>; an access outside a buffer makes the transfer \<open>None\<close>.
  The contract of an undisturbed link is a locale; it is interpreted on a controller whose mutex is
  the one of \<^verbatim>\<open>queue.c\<close>.
\<close>

section \<open>Configurations, buses and devices\<close>

record spi_config_t =
  miso_io_num :: int
  mosi_io_num :: int
  sclk_io_num :: int
  max_transfer_sz :: int

record spi_bus_config_t = spi_config_t +
  quadwp_io_num :: int
  quadhd_io_num :: int

record spi_device_config_t =
  cs_io_num :: int
  dev_mode :: u8
  clock_speed_hz :: int

record spi_device_interface_config_t =
  command_bits :: u8
  address_bits :: u8
  dummy_bits :: u8
  dc_mode :: u8
  duty_cycle_pos :: u16
  cs_ena_posttrans :: u8
  dc_clock_speed_hz :: int
  spics_io_num :: int
  queue_size :: int

record spi_bus_t =
  host_id :: nat
  is_init :: bool
  bus_conf :: spi_bus_config_t

record spi_device_t =
  dev_spi :: nat
  dev_bus :: nat
  dev_conf :: spi_device_interface_config_t
  dev_mutex :: nat

text \<open>A transaction: its length in bits, the bytes sent (\<open>None\<close>: no transmit buffer) and whether
  received bytes are stored.\<close>

record spi_transaction_t =
  trans_length :: nat
  trans_tx :: "u8 list option"
  trans_rx :: bool

record 'h spi_env =
  sp_bus_initialize :: "nat \<Rightarrow> spi_bus_config_t \<Rightarrow> 'h \<Rightarrow> esp_err_t \<times> 'h"
  sp_bus_free :: "nat \<Rightarrow> 'h \<Rightarrow> esp_err_t \<times> 'h"
  sp_malloc :: "'h \<Rightarrow> nat option \<times> 'h"
  sp_add_device :: "nat \<Rightarrow> spi_device_interface_config_t \<Rightarrow> 'h \<Rightarrow> (esp_err_t \<times> nat) \<times> 'h"
  sp_remove_device :: "nat \<Rightarrow> 'h \<Rightarrow> esp_err_t \<times> 'h"
  sp_mutex_create :: "'h \<Rightarrow> nat option \<times> 'h"
  sp_mutex_delete :: "nat \<Rightarrow> 'h \<Rightarrow> 'h"
  sp_take :: "nat \<Rightarrow> nat \<Rightarrow> 'h \<Rightarrow> bool \<times> 'h"
  sp_give :: "nat \<Rightarrow> 'h \<Rightarrow> bool \<times> 'h"
  sp_transmit :: "nat \<Rightarrow> spi_transaction_t \<Rightarrow> 'h \<Rightarrow> (esp_err_t \<times> u8 list) \<times> 'h"

text \<open>The variable \<^verbatim>\<open>s_spi_bus\<close> and the allocated devices.\<close>

record 'h spi_world =
  s_spi_bus :: "spi_bus_t list"
  spi_devs :: "nat \<rightharpoonup> spi_device_t"
  spi_hw :: 'h

definition ESP_SPI_MUTEX_TICKS_TO_WAIT :: nat where "ESP_SPI_MUTEX_TICKS_TO_WAIT = 2"

text \<open>\<^verbatim>\<open>SPI1_HOST\<close> to \<^verbatim>\<open>SPI3_HOST\<close> are 0 to 2.\<close>

definition SPI1_HOST :: nat where "SPI1_HOST = 0"
definition SPI3_HOST :: nat where "SPI3_HOST = 2"

definition zero_bus :: spi_bus_t where
  "zero_bus = \<lparr>host_id = 0, is_init = False,
     bus_conf = \<lparr>miso_io_num = 0, mosi_io_num = 0, sclk_io_num = 0, max_transfer_sz = 0, quadwp_io_num = 0, quadhd_io_num = 0\<rparr>\<rparr>"

definition bus_config_of :: "spi_config_t \<Rightarrow> spi_bus_config_t" where
  "bus_config_of c = \<lparr>miso_io_num = miso_io_num c, mosi_io_num = mosi_io_num c, sclk_io_num = sclk_io_num c,
     max_transfer_sz = max_transfer_sz c, quadwp_io_num = -1, quadhd_io_num = -1\<rparr>"

definition spi_bus_create :: "'h spi_env \<Rightarrow> nat \<Rightarrow> spi_config_t \<Rightarrow> 'h spi_world \<Rightarrow> nat option \<times> 'h spi_world" where
  "spi_bus_create env host conf w =
    (if \<not> (SPI1_HOST < host \<and> host \<le> SPI3_HOST) then (None, w)
     else let index = host - 1; buscfg = bus_config_of conf in
       case sp_bus_initialize env host buscfg (spi_hw w) of (ret, h) \<Rightarrow>
         if ret \<noteq> ESP_OK then (None, w\<lparr>spi_hw := h\<rparr>)
         else (Some index, w\<lparr>spi_hw := h, s_spi_bus := (s_spi_bus w)[index := \<lparr>host_id = host, is_init = True, bus_conf = buscfg\<rparr>]\<rparr>))"

text \<open>Deleting through a pointer to a handle: the result holds the handle after the call.\<close>

definition spi_bus_delete :: "'h spi_env \<Rightarrow> nat option option \<Rightarrow> 'h spi_world \<Rightarrow> esp_err_t \<times> nat option option \<times> 'h spi_world" where
  "spi_bus_delete env p w =
    (case p of
       Some (Some b) \<Rightarrow>
         (let bus = s_spi_bus w ! b in
          if \<not> is_init bus then (ESP_ERR_INVALID_STATE, p, w)
          else case sp_bus_free env (host_id bus) (spi_hw w) of (ret, h) \<Rightarrow>
            if ret \<noteq> ESP_OK then (ESP_FAIL, p, w\<lparr>spi_hw := h\<rparr>)
            else (ESP_OK, Some None, w\<lparr>spi_hw := h, s_spi_bus := (s_spi_bus w)[b := zero_bus]\<rparr>))
     | _ \<Rightarrow> (ESP_ERR_INVALID_ARG, p, w))"

definition device_config_of :: "spi_device_config_t \<Rightarrow> spi_device_interface_config_t" where
  "device_config_of c = \<lparr>command_bits = 0, address_bits = 0, dummy_bits = 0, dc_mode = dev_mode c,
     duty_cycle_pos = 128, cs_ena_posttrans = 3, dc_clock_speed_hz = clock_speed_hz c,
     spics_io_num = cs_io_num c, queue_size = 3\<rparr>"

text \<open>The result of \<^verbatim>\<open>malloc\<close> is not tested: without memory the driver is given an address inside \<^verbatim>\<open>NULL\<close>
  to store the handle at.\<close>

datatype dev_create = Null_deref | Dev_handle "nat option"

definition spi_bus_device_create ::
    "'h spi_env \<Rightarrow> nat option \<Rightarrow> spi_device_config_t \<Rightarrow> 'h spi_world \<Rightarrow> dev_create \<times> 'h spi_world" where
  "spi_bus_device_create env bus conf w =
    (case bus of None \<Rightarrow> (Dev_handle None, w)
     | Some b \<Rightarrow>
       (case sp_malloc env (spi_hw w) of (mem, h) \<Rightarrow>
        let devcfg = device_config_of conf in
        case sp_add_device env (host_id (s_spi_bus w ! b)) devcfg h of ((ret, handle), h) \<Rightarrow>
          if ret \<noteq> ESP_OK then (Dev_handle None, w\<lparr>spi_hw := h\<rparr>)
          else case mem of None \<Rightarrow> (Null_deref, w\<lparr>spi_hw := h\<rparr>)
            | Some a \<Rightarrow>
              (case sp_mutex_create env h of
                 (None, h) \<Rightarrow> (Dev_handle None, w\<lparr>spi_hw := h\<rparr>)
               | (Some m, h) \<Rightarrow> (Dev_handle (Some a),
                   w\<lparr>spi_hw := h, spi_devs := (spi_devs w)(a \<mapsto>
                      \<lparr>dev_spi = handle, dev_bus = b, dev_conf = devcfg, dev_mutex = m\<rparr>)\<rparr>))))"

text \<open>A handle that is not that of a device is a dangling pointer, and its use \<open>None\<close>.\<close>

definition spi_bus_device_delete ::
    "'h spi_env \<Rightarrow> nat option option \<Rightarrow> 'h spi_world \<Rightarrow> (esp_err_t \<times> nat option option \<times> 'h spi_world) option" where
  "spi_bus_device_delete env p w =
    (case p of
       Some (Some a) \<Rightarrow> Option.bind (spi_devs w a) (\<lambda>dev.
         (case sp_take env (dev_mutex dev) ESP_SPI_MUTEX_TICKS_TO_WAIT (spi_hw w) of (taken, h) \<Rightarrow>
          if \<not> taken then Some (ESP_FAIL, p, w\<lparr>spi_hw := h\<rparr>)
          else case sp_remove_device env (dev_spi dev) h of (ret, h) \<Rightarrow>
            case sp_give env (dev_mutex dev) h of (given, h) \<Rightarrow>
              if \<not> given then Some (ESP_FAIL, p, w\<lparr>spi_hw := h\<rparr>)
              else if ret \<noteq> ESP_OK then Some (ret, p, w\<lparr>spi_hw := h\<rparr>)
              else Some (ESP_OK, Some None,
                w\<lparr>spi_hw := sp_mutex_delete env (dev_mutex dev) h, spi_devs := (spi_devs w)(a := None)\<rparr>)))
     | _ \<Rightarrow> Some (ESP_ERR_INVALID_ARG, p, w))"

section \<open>Transfers\<close>

text \<open>A transaction under the mutex of the device (\<^verbatim>\<open>_spi_device_polling_transmit\<close>); the bytes are those
  received.\<close>

definition device_polling_transmit ::
    "'h spi_env \<Rightarrow> spi_device_t option \<Rightarrow> spi_transaction_t \<Rightarrow> 'h \<Rightarrow> (esp_err_t \<times> u8 list) \<times> 'h" where
  "device_polling_transmit env dev tr h =
    (case dev of None \<Rightarrow> ((ESP_ERR_INVALID_ARG, []), h)
     | Some d \<Rightarrow>
       (case sp_take env (dev_mutex d) ESP_SPI_MUTEX_TICKS_TO_WAIT h of (taken, h) \<Rightarrow>
        if \<not> taken then ((ESP_FAIL, []), h)
        else case sp_transmit env (dev_spi d) tr h of (r, h) \<Rightarrow>
          case sp_give env (dev_mutex d) h of (given, h) \<Rightarrow>
            if \<not> given then ((ESP_FAIL, []), h) else (r, h)))"

definition inline_trans :: "u8 list \<Rightarrow> spi_transaction_t" where
  "inline_trans bs = \<lparr>trans_length = 8 * length bs, trans_tx = Some bs, trans_rx = True\<rparr>"

definition spi_bus_transfer_byte ::
    "'h spi_env \<Rightarrow> spi_device_t option \<Rightarrow> u8 \<Rightarrow> u8 option \<Rightarrow> 'h \<Rightarrow> esp_err_t \<times> u8 option \<times> 'h" where
  "spi_bus_transfer_byte env dev data_out data_in h =
    (case device_polling_transmit env dev (inline_trans [data_out]) h of ((ret, rx), h) \<Rightarrow>
       if ret \<noteq> ESP_OK then (ret, data_in, h)
       else (ESP_OK, map_option (\<lambda>_. rx ! 0) data_in, h))"

text \<open>The loop of \<^verbatim>\<open>spi_bus_transfer_bytes\<close>. A buffer is the bytes from its address to the end of the
  array it lies in.\<close>

function transfer_loop ::
    "'h spi_env \<Rightarrow> spi_device_t option \<Rightarrow> u8 list option \<Rightarrow> nat \<Rightarrow> nat \<Rightarrow> u8 list option \<Rightarrow> 'h \<Rightarrow>
     (esp_err_t \<times> u8 list option \<times> 'h) option" where
  "transfer_loop env dev data_out data_len remain data_in h =
    (if remain = 0 then Some (ESP_OK, data_in, h)
     else
       (let chunk_len = min remain 2048; pos = data_len - remain;
            tr = \<lparr>trans_length = chunk_len * 8, trans_tx = map_option (\<lambda>d. mem_read d pos chunk_len) data_out,
              trans_rx = data_in \<noteq> None\<rparr>
        in if (case data_out of Some d \<Rightarrow> length d < pos + chunk_len | None \<Rightarrow> False) \<or>
              (case data_in of Some d \<Rightarrow> length d < pos + chunk_len | None \<Rightarrow> False)
           then None
           else case device_polling_transmit env dev tr h of ((ret, rx), h) \<Rightarrow>
             if ret \<noteq> ESP_OK then Some (ret, data_in, h)
             else transfer_loop env dev data_out data_len (remain - chunk_len)
               (map_option (\<lambda>d. mem_write d pos rx) data_in) h))"
  by pat_completeness auto
termination
  by (relation "measure (\<lambda>(env, dev, out, len, remain, inb, h). remain)") auto

definition spi_bus_transfer_bytes ::
    "'h spi_env \<Rightarrow> spi_device_t option \<Rightarrow> u8 list option \<Rightarrow> u8 list option \<Rightarrow> nat \<Rightarrow> 'h \<Rightarrow>
     (esp_err_t \<times> u8 list option \<times> 'h) option" where
  "spi_bus_transfer_bytes env dev data_out data_in data_len h =
    transfer_loop env dev data_out data_len data_len data_in h"

definition spi_bus_transmit_begin ::
    "'h spi_env \<Rightarrow> spi_device_t option \<Rightarrow> spi_transaction_t \<Rightarrow> 'h \<Rightarrow> (esp_err_t \<times> u8 list) \<times> 'h" where
  "spi_bus_transmit_begin env dev tr h = device_polling_transmit env dev tr h"

definition reg16_bytes :: "u16 \<Rightarrow> u8 list" where
  "reg16_bytes v = [ucast (drop_bit 8 v AND 0xff), ucast (v AND 0xff)]"

definition reg16_value :: "u8 list \<Rightarrow> u16" where
  "reg16_value rx = push_bit 8 (ucast (rx ! 0)) OR ucast (rx ! 1)"

definition spi_bus_transfer_reg16 ::
    "'h spi_env \<Rightarrow> spi_device_t option \<Rightarrow> u16 \<Rightarrow> u16 option \<Rightarrow> 'h \<Rightarrow> esp_err_t \<times> u16 option \<times> 'h" where
  "spi_bus_transfer_reg16 env dev data_out data_in h =
    (case device_polling_transmit env dev (inline_trans (reg16_bytes data_out)) h of ((ret, rx), h) \<Rightarrow>
       if ret \<noteq> ESP_OK then (ret, data_in, h)
       else (ESP_OK, map_option (\<lambda>_. reg16_value rx) data_in, h))"

definition reg32_bytes :: "u32 \<Rightarrow> u8 list" where
  "reg32_bytes v = [ucast (drop_bit 24 v AND 0xff), ucast (drop_bit 16 v AND 0xff),
     ucast (drop_bit 8 v AND 0xff), ucast (v AND 0xff)]"

definition reg32_value :: "u8 list \<Rightarrow> u32" where
  "reg32_value rx = push_bit 24 (ucast (rx ! 0)) OR push_bit 16 (ucast (rx ! 1)) OR
     push_bit 8 (ucast (rx ! 2)) OR ucast (rx ! 3)"

definition spi_bus_transfer_reg32 ::
    "'h spi_env \<Rightarrow> spi_device_t option \<Rightarrow> u32 \<Rightarrow> u32 option \<Rightarrow> 'h \<Rightarrow> esp_err_t \<times> u32 option \<times> 'h" where
  "spi_bus_transfer_reg32 env dev data_out data_in h =
    (case device_polling_transmit env dev (inline_trans (reg32_bytes data_out)) h of ((ret, rx), h) \<Rightarrow>
       if ret \<noteq> ESP_OK then (ret, data_in, h)
       else (ESP_OK, map_option (\<lambda>_. reg32_value rx) data_in, h))"


section \<open>The pieces of a transfer\<close>

text \<open>The reference: the data cut into pieces, sent one after the other up to the first error.\<close>

fun send_pieces :: "'h spi_env \<Rightarrow> spi_device_t option \<Rightarrow> u8 list list \<Rightarrow> 'h \<Rightarrow> esp_err_t \<times> 'h" where
  "send_pieces env dev [] h = (ESP_OK, h)"
| "send_pieces env dev (p # ps) h =
    (case device_polling_transmit env dev \<lparr>trans_length = 8 * length p, trans_tx = Some p, trans_rx = False\<rparr> h of
       ((ret, _), h) \<Rightarrow> if ret \<noteq> ESP_OK then (ret, h) else send_pieces env dev ps h)"

definition pieces_ok :: "u8 list list \<Rightarrow> bool" where
  "pieces_ok ps \<longleftrightarrow> (\<forall>p\<in>set ps. 0 < length p \<and> length p \<le> 2048)"

declare transfer_loop.simps [simp del]

lemma mem_read_split: "c \<le> n \<Longrightarrow> mem_read d a n = mem_read d a c @ mem_read d (a + c) (n - c)"
  using take_add [of c "n - c" "drop a d"] by (simp add: mem_read_def add.commute)

lemma pieces_count: "remain \<noteq> 0 \<Longrightarrow> (remain + 2047) div 2048 = Suc ((remain - min remain 2048 + 2047) div 2048)"
proof (cases "remain \<le> 2048")
  case False
  then have "remain + 2047 = remain - 2048 + 2047 + 1 * 2048" by simp
  then show ?thesis using False div_mult_self1 [of 2048 "remain - 2048 + 2047" 1] by simp
qed (simp add: div_nat_eqI)

lemma transfer_loop_pieces:
  assumes "n \<le> length d" "remain \<le> n"
  shows "\<exists>ps. concat ps = mem_read d (n - remain) remain \<and> pieces_ok ps \<and> length ps = (remain + 2047) div 2048 \<and>
    transfer_loop env dev (Some d) n remain None h = Some (case send_pieces env dev ps h of (r, h') \<Rightarrow> (r, None, h'))"
  using assms(2)
proof (induction remain arbitrary: h rule: less_induct)
  case (less remain)
  show ?case
  proof (cases "remain = 0")
    case True
    then show ?thesis
      by (intro exI [of _ "[]"]) (simp add: transfer_loop.simps mem_read_def pieces_ok_def)
  next
    case False
    let ?c = "min remain 2048" let ?p = "mem_read d (n - remain) ?c"
    have len: "length ?p = ?c" using assms(1) less.prems by (simp add: mem_read_def)
    have inside: "\<not> length d < n - remain + ?c" using assms(1) less.prems by auto
    obtain ret rx h1 where t: "device_polling_transmit env dev
        \<lparr>trans_length = ?c * 8, trans_tx = Some ?p, trans_rx = False\<rparr> h = ((ret, rx), h1)"
      by (metis prod.exhaust)
    have lt: "remain - ?c < remain" and le: "remain - ?c \<le> n" using False less.prems by auto
    obtain ps where ps: "concat ps = mem_read d (n - (remain - ?c)) (remain - ?c)" "pieces_ok ps"
      "length ps = (remain - ?c + 2047) div 2048"
      "transfer_loop env dev (Some d) n (remain - ?c) None h1 = Some (case send_pieces env dev ps h1 of (r, h') \<Rightarrow> (r, None, h'))"
      using less.IH [OF lt le] by blast
    have "n - (remain - ?c) = n - remain + ?c" using less.prems by auto
    then have cat: "concat (?p # ps) = mem_read d (n - remain) remain"
      by (simp only: concat.simps ps(1) mem_read_split [of ?c remain d "n - remain", OF min.cobounded1])
    have "(remain + 2047) div 2048 = Suc ((remain - ?c + 2047) div 2048)" using pieces_count [OF False] .
    then have "length (?p # ps) = (remain + 2047) div 2048" by (simp add: ps(3))
    moreover have "0 < length ?p \<and> length ?p \<le> 2048" unfolding len using False by simp
    then have "pieces_ok (?p # ps)" using ps(2) by (simp add: pieces_ok_def)
    moreover have "transfer_loop env dev (Some d) n remain None h =
        Some (case send_pieces env dev (?p # ps) h of (r, h') \<Rightarrow> (r, None, h'))"
      using inside t ps(4) len
      by (subst transfer_loop.simps, simp only: Let_def False if_False option.case option.map simp_thms prod.case
          send_pieces.simps mult.commute [of 8] split: if_split) blast
    ultimately show ?thesis using cat by blast
  qed
qed

text \<open>
  C24: Transfers in pieces. For every driver, mutex and state, a transfer of bytes that lie in the
  buffer ends, never reads outside the buffer, and is the transfer of consecutive pieces of at most 2048
  bytes that together are the data, as few as possible, one transaction each, stopped at the first
  transaction that fails, whose error is returned.
\<close>

theorem transfer_in_pieces:
  assumes "n \<le> length d"
  shows "\<exists>ps. concat ps = take n d \<and> (\<forall>p\<in>set ps. 0 < length p \<and> length p \<le> 2048) \<and>
    length ps = (n + 2047) div 2048 \<and>
    spi_bus_transfer_bytes env dev (Some d) None n h = Some (case send_pieces env dev ps h of (r, h') \<Rightarrow> (r, None, h'))"
  using transfer_loop_pieces [OF assms le_refl, of env dev h]
  by (simp add: spi_bus_transfer_bytes_def pieces_ok_def mem_read_def)

section \<open>An undisturbed link\<close>

text \<open>
  What a driver of a device relies on: while the link is \<open>ready\<close>, a transaction that fits the
  controller succeeds, puts its bytes on the wire together with the level of a pin the receiver
  looks at, and leaves the link ready.
\<close>

locale spi_link =
  fixes env :: "'h spi_env" and dev :: spi_device_t and ready :: "'h \<Rightarrow> bool"
    and level :: "'h \<Rightarrow> bool" and wire :: "'h \<Rightarrow> (bool \<times> u8) list"
  assumes transmit: "ready h \<Longrightarrow> trans_tx tr = Some d \<Longrightarrow> trans_length tr = 8 * length d \<Longrightarrow>
    0 < length d \<Longrightarrow> length d \<le> 2048 \<Longrightarrow>
    \<exists>rx h'. device_polling_transmit env (Some dev) tr h = ((ESP_OK, rx), h') \<and> ready h' \<and>
      level h' = level h \<and> wire h' = wire h @ map (Pair (level h)) d"
begin

lemma pieces_sent:
  assumes "ready h" "pieces_ok ps"
  shows "\<exists>h'. send_pieces env (Some dev) ps h = (ESP_OK, h') \<and> ready h' \<and> level h' = level h \<and>
    wire h' = wire h @ map (Pair (level h)) (concat ps)"
  using assms
proof (induction ps arbitrary: h)
  case (Cons p ps)
  then obtain rx h1 where h1: "device_polling_transmit env (Some dev)
      \<lparr>trans_length = 8 * length p, trans_tx = Some p, trans_rx = False\<rparr> h = ((ESP_OK, rx), h1)"
    "ready h1" "level h1 = level h" "wire h1 = wire h @ map (Pair (level h)) p"
    using transmit [of h "\<lparr>trans_length = 8 * length p, trans_tx = Some p, trans_rx = False\<rparr>" p]
    by (auto simp: pieces_ok_def)
  have "pieces_ok ps" using Cons.prems(2) by (simp add: pieces_ok_def)
  from Cons.IH [OF h1(2) this] show ?case using h1 by auto
qed simp

lemma bytes_sent:
  assumes "ready h" "n \<le> length d"
  shows "\<exists>h'. spi_bus_transfer_bytes env (Some dev) (Some d) None n h = Some (ESP_OK, None, h') \<and> ready h' \<and>
    level h' = level h \<and> wire h' = wire h @ map (Pair (level h)) (take n d)"
proof -
  obtain ps where ps: "concat ps = take n d" "pieces_ok ps" "transfer_loop env (Some dev) (Some d) n n None h =
      Some (case send_pieces env (Some dev) ps h of (r, h') \<Rightarrow> (r, None, h'))"
    using transfer_loop_pieces [OF assms(2) le_refl, of env "Some dev" h] by (auto simp: mem_read_def)
  show ?thesis
    using pieces_sent [OF assms(1) ps(2)] ps by (auto simp: spi_bus_transfer_bytes_def)
qed

end

text \<open>
  The controller on the kernel of \<^verbatim>\<open>queue.c\<close>: one device, its mutex, the tasks, the level of the pin and
  the bytes put on the wire so far. \<open>me\<close> is the task that transfers; \<open>place\<close> and \<open>es\<close> are
  what the kernel does while it waits. The SPI driver sends what it is given, up to the size for which the bus
  was initialised.
\<close>

record spi_port =
  port_sem :: Semaphore_t
  port_tasks :: tasks
  port_level :: bool
  port_wire :: "(bool \<times> u8) list"

definition port_take :: "(nat \<Rightarrow> nat list \<Rightarrow> nat list) \<Rightarrow> nat \<Rightarrow> sem_env list \<Rightarrow> nat \<Rightarrow> spi_port \<Rightarrow> bool \<times> spi_port" where
  "port_take place me es ticks h = (case xQueueSemaphoreTake place me es (port_sem h) ticks (port_tasks h) of
     (r, s, ts) \<Rightarrow> (r = pdPASS, h\<lparr>port_sem := s, port_tasks := ts\<rparr>))"

definition port_give :: "nat \<Rightarrow> spi_port \<Rightarrow> bool \<times> spi_port" where
  "port_give me h = (case sem_give me (port_sem h) (port_tasks h) of
     (r, s, ts) \<Rightarrow> (r = pdPASS, h\<lparr>port_sem := s, port_tasks := ts\<rparr>))"

definition port_transmit :: "nat \<Rightarrow> spi_transaction_t \<Rightarrow> spi_port \<Rightarrow> (esp_err_t \<times> u8 list) \<times> spi_port" where
  "port_transmit max_sz tr h =
    (if trans_length tr \<le> max_sz * 8
     then ((ESP_OK, replicate (trans_length tr div 8) 0),
           h\<lparr>port_wire := port_wire h @ map (Pair (port_level h)) (case trans_tx tr of None \<Rightarrow> [] | Some d \<Rightarrow> d)\<rparr>)
     else ((ESP_ERR_INVALID_ARG, []), h))"

definition port_env :: "nat \<Rightarrow> (nat \<Rightarrow> nat list \<Rightarrow> nat list) \<Rightarrow> nat \<Rightarrow> sem_env list \<Rightarrow> spi_port spi_env" where
  "port_env max_sz place me es =
    \<lparr>sp_bus_initialize = (\<lambda>_ _ h. (ESP_OK, h)), sp_bus_free = (\<lambda>_ h. (ESP_OK, h)),
     sp_malloc = (\<lambda>h. (Some 0, h)), sp_add_device = (\<lambda>_ _ h. ((ESP_OK, 0), h)),
     sp_remove_device = (\<lambda>_ h. (ESP_OK, h)), sp_mutex_create = (\<lambda>h. (Some 0, h)), sp_mutex_delete = (\<lambda>_ h. h),
     sp_take = (\<lambda>_. port_take place me es), sp_give = (\<lambda>_. port_give me), sp_transmit = (\<lambda>_. port_transmit max_sz)\<rparr>"

definition port_ready :: "spi_port \<Rightarrow> bool" where
  "port_ready h \<longleftrightarrow> sem_inv (port_sem h) \<and> sm_is_mutex (port_sem h) \<and> xMutexHolder (port_sem h) = None"

text \<open>A free mutex is taken at once, and its holder can give it back.\<close>

lemma free_mutex_taken:
  assumes "sem_inv s" "sm_is_mutex s" "xMutexHolder s = None"
  shows "\<exists>s' ts'. xQueueSemaphoreTake place me es s n ts = (pdPASS, s', ts') \<and> sem_inv s' \<and> sm_is_mutex s' \<and>
    xMutexHolder s' = Some me \<and> 0 < uxMutexesHeld (ts' me)"
proof -
  have s: "uxItemSize (sm_q s) = 0" "uxMessagesWaiting (sm_q s) > 0" using assms by (simp_all add: sem_inv_def)
  obtain s' ts' where t: "sem_take_now me s ts = (s', ts')" by fastforce
  have "xQueueSemaphoreTake_loop place me (n \<noteq> 0) False es (s, ts) = (pdPASS, s', ts')"
    using s t by (cases es) simp_all
  then show ?thesis
    using s sem_take_now_inv [OF assms(1) s(2) t] assms(2) by (simp add: xQueueSemaphoreTake_def)
qed

lemma held_mutex_given:
  assumes "sem_inv s" "sm_is_mutex s" "xMutexHolder s = Some me" "0 < uxMutexesHeld (ts me)"
  shows "\<exists>s' ts'. sem_give me s ts = (pdPASS, s', ts') \<and> sem_inv s' \<and> sm_is_mutex s' \<and> xMutexHolder s' = None"
proof -
  obtain r s' ts' where g: "sem_give me s ts = (r, s', ts')" by (metis prod.exhaust)
  have "xTaskPriorityDisinherit me (xMutexHolder s) ts \<noteq> None"
    using assms(3,4) by (auto simp: xTaskPriorityDisinherit_def Let_def)
  with assms(1) g have "r = pdPASS \<and> xMutexHolder s' = None"
    by (cases rule: sem_give_cases) (use assms in \<open>auto simp: sem_inv_def\<close>)
  then show ?thesis using g sem_give_inv [OF assms(1) g] assms(2) by simp
qed

lemma port_transaction:
  assumes "port_ready h" "2048 \<le> max_sz" "trans_tx tr = Some d" "trans_length tr = 8 * length d" "length d \<le> 2048"
  shows "\<exists>rx h'. device_polling_transmit (port_env max_sz place me es) (Some dv) tr h = ((ESP_OK, rx), h') \<and> port_ready h' \<and>
    port_level h' = port_level h \<and> port_wire h' = port_wire h @ map (Pair (port_level h)) d"
proof -
  obtain s1 ts1 where t: "xQueueSemaphoreTake place me es (port_sem h) ESP_SPI_MUTEX_TICKS_TO_WAIT (port_tasks h) = (pdPASS, s1, ts1)"
    "sem_inv s1" "sm_is_mutex s1" "xMutexHolder s1 = Some me" "0 < uxMutexesHeld (ts1 me)"
    using free_mutex_taken [of "port_sem h" place me es] assms(1) unfolding port_ready_def by blast
  obtain s2 ts2 where g: "sem_give me s1 ts1 = (pdPASS, s2, ts2)" "sem_inv s2" "sm_is_mutex s2" "xMutexHolder s2 = None"
    using held_mutex_given [of s1 me ts1] t by blast
  show ?thesis
    using assms t g
    by (simp add: device_polling_transmit_def port_env_def port_take_def port_transmit_def port_give_def port_ready_def)
qed

interpretation kernel_port: spi_link "port_env 4092 place me es" dv port_ready port_level port_wire
  for place me es dv
  by unfold_locales (simp add: port_transaction)

text \<open>The state of the controller on a new mutex.\<close>

definition demo_port :: spi_port where
  "demo_port = \<lparr>port_sem = demo_mutex, port_tasks = demo_tasks, port_level = True, port_wire = []\<rparr>"

lemma demo_port_ready [simp]: "port_ready demo_port" "port_level demo_port" "port_wire demo_port = []"
  using demo_mutex_free by (simp_all add: demo_port_def port_ready_def)

definition demo_device :: spi_device_t where
  "demo_device = \<lparr>dev_spi = 0, dev_bus = 1,
     dev_conf = device_config_of \<lparr>cs_io_num = 44, dev_mode = 0, clock_speed_hz = 40000000\<rparr>, dev_mutex = 0\<rparr>"

theorem transfer_in_pieces_witness:
  "\<exists>ps. concat ps = replicate 5000 7 \<and> length ps = 3 \<and>
    spi_bus_transfer_bytes (port_env 4092 (\<lambda>_ ws. ws) 3 []) (Some demo_device) (Some (replicate 5000 7)) None 5000 demo_port =
      Some (case send_pieces (port_env 4092 (\<lambda>_ ws. ws) 3 []) (Some demo_device) ps demo_port of (r, h') \<Rightarrow> (r, None, h'))"
  using transfer_in_pieces [of 5000 "replicate 5000 7" "port_env 4092 (\<lambda>_ ws. ws) 3 []" "Some demo_device" demo_port]
  by auto

section \<open>Registers and buses\<close>

text \<open>A register sent to a device that echoes its bytes comes back unchanged.\<close>

declare masked_byte [simp]

lemma reg16_round_trip [simp]: "reg16_value (reg16_bytes v) = v"
  by (rule bit_word_eqI) (auto simp: reg16_value_def reg16_bytes_def bit_simps)

lemma reg32_round_trip [simp]: "reg32_value (reg32_bytes v) = v"
proof (rule bit_word_eqI)
  fix n assume "n < LENGTH(32)"
  then consider "n < 8" | "8 \<le> n" "n < 16" | "16 \<le> n" "n < 24" | "24 \<le> n" "n < 32" by fastforce
  then show "bit (reg32_value (reg32_bytes v)) n = bit v n"
    by cases (simp add: reg32_value_def reg32_bytes_def bit_simps numeral_3_eq_3; arith)+
qed

text \<open>An initialised entry of the table is the bus of its own host; creating and deleting keep this, a
  handle names an initialised entry, and deleting a bus clears its entry.\<close>

definition buses_wf :: "spi_bus_t list \<Rightarrow> bool" where
  "buses_wf bs \<longleftrightarrow> length bs = 2 \<and> (\<forall>i<2. is_init (bs ! i) \<longrightarrow> host_id (bs ! i) = i + 1)"

lemma spi_bus_create_wf:
  assumes "buses_wf (s_spi_bus w)" "spi_bus_create env host conf w = (r, w')"
  shows "buses_wf (s_spi_bus w')" "r = Some b \<Longrightarrow> b < 2 \<and> is_init (s_spi_bus w' ! b) \<and> host = b + 1"
  using assms
  by (auto simp: spi_bus_create_def buses_wf_def Let_def SPI1_HOST_def SPI3_HOST_def nth_list_update
      split: if_splits prod.splits)

lemma spi_bus_delete_wf:
  assumes "buses_wf (s_spi_bus w)" "spi_bus_delete env p w = (r, p', w')" "\<forall>b. p = Some (Some b) \<longrightarrow> b < 2"
  shows "buses_wf (s_spi_bus w')" "r = ESP_OK \<Longrightarrow> p' = Some None"
    "p = Some (Some b) \<Longrightarrow> r = ESP_OK \<longleftrightarrow> is_init (s_spi_bus w ! b) \<and> \<not> is_init (s_spi_bus w' ! b)"
  using assms
  by (auto simp: spi_bus_delete_def buses_wf_def Let_def zero_bus_def nth_list_update esp_err_defs
      split: if_splits prod.splits option.splits)

end
