(* ===== verification/Screen_Interface.thy ===== *)
theory Screen_Interface
  imports Spi_Bus
begin

text \<open>
  The interface drivers of the screens, \<^verbatim>\<open>screen/interface_driver/scr_interface_driver.c\<close> as built for the
  ESP32-S3: SPI over the bus component, I2C, and the parallel interface, which that chip does not
  support. The record \<open>scr_interface_driver\<close> holds the functions a controller driver calls, with the
  handle they are bound to applied; a state \<open>'h spi_world\<close> has the buses, the devices and the hardware.
  The locale \<open>screen_iface\<close> is what a controller driver relies on; the SPI driver provides it.
\<close>

section \<open>Configurations and handles\<close>

datatype scr_interface_type_t = SCREEN_IFACE_I2C | SCREEN_IFACE_8080 | SCREEN_IFACE_SPI | SCREEN_IFACE_OTHER int

record scr_interface_spi_config_t =
  cfg_spi_bus :: "nat option"
  pin_num_cs :: int
  cfg_pin_num_dc :: int
  clk_freq :: int
  cfg_swap_data :: bool

record scr_interface_i2c_config_t =
  cfg_i2c_bus :: nat
  clk_speed :: nat
  slave_addr :: u16

record 's scr_interface_driver =
  if_type :: scr_interface_type_t
  write_cmd :: "u16 \<Rightarrow> 's \<Rightarrow> esp_err_t \<times> 's"
  write_data :: "u16 \<Rightarrow> 's \<Rightarrow> esp_err_t \<times> 's"
  if_write :: "u8 list \<Rightarrow> nat \<Rightarrow> 's \<Rightarrow> (esp_err_t \<times> u8 list \<times> 's) option"
  if_read :: "u8 list \<Rightarrow> nat \<Rightarrow> 's \<Rightarrow> (esp_err_t \<times> u8 list \<times> 's) option"
  bus_acquire :: "'s \<Rightarrow> esp_err_t \<times> 's"
  bus_release :: "'s \<Rightarrow> esp_err_t \<times> 's"

record interface_spi_handle_t =
  spi_wr_dev :: "nat option"
  pin_num_dc :: int
  swap_data :: bool

text \<open>What the drivers call besides the bus: pins, memory, and the I2C bus component.\<close>

record 'h iface_env =
  ie_spi :: "'h spi_env"
  ie_output :: "int \<Rightarrow> 'h \<Rightarrow> 'h"
  ie_set_level :: "int \<Rightarrow> nat \<Rightarrow> 'h \<Rightarrow> 'h"
  ie_malloc :: "'h \<Rightarrow> bool \<times> 'h"
  ie_i2c_create :: "nat \<Rightarrow> u16 \<Rightarrow> nat \<Rightarrow> 'h \<Rightarrow> nat option \<times> 'h"
  ie_i2c_delete :: "nat \<Rightarrow> 'h \<Rightarrow> 'h"
  ie_i2c_write :: "nat \<Rightarrow> u8 option \<Rightarrow> u8 list \<Rightarrow> 'h \<Rightarrow> esp_err_t \<times> 'h"
  ie_i2s_deinit :: "nat \<Rightarrow> 'h \<Rightarrow> 'h"

definition on_hw :: "('h \<Rightarrow> 'h) \<Rightarrow> 'h spi_world \<Rightarrow> 'h spi_world" where
  "on_hw f w = w\<lparr>spi_hw := f (spi_hw w)\<rparr>"

section \<open>The parallel interface on the ESP32-S3\<close>

definition i2s_lcd_write_data :: "u16 \<Rightarrow> 's \<Rightarrow> esp_err_t \<times> 's" where
  "i2s_lcd_write_data v s = (ESP_ERR_NOT_SUPPORTED, s)"
definition i2s_lcd_write_cmd :: "u16 \<Rightarrow> 's \<Rightarrow> esp_err_t \<times> 's" where
  "i2s_lcd_write_cmd v s = (ESP_ERR_NOT_SUPPORTED, s)"
definition i2s_lcd_write :: "u8 list \<Rightarrow> nat \<Rightarrow> 's \<Rightarrow> (esp_err_t \<times> u8 list \<times> 's) option" where
  "i2s_lcd_write d n s = Some (ESP_ERR_NOT_SUPPORTED, d, s)"
definition i2s_lcd_read :: "u8 list \<Rightarrow> nat \<Rightarrow> 's \<Rightarrow> (esp_err_t \<times> u8 list \<times> 's) option" where
  "i2s_lcd_read d n s = Some (ESP_ERR_NOT_SUPPORTED, d, s)"
definition i2s_lcd_acquire :: "'s \<Rightarrow> esp_err_t \<times> 's" where
  "i2s_lcd_acquire s = (ESP_ERR_NOT_SUPPORTED, s)"
definition i2s_lcd_release :: "'s \<Rightarrow> esp_err_t \<times> 's" where
  "i2s_lcd_release s = (ESP_ERR_NOT_SUPPORTED, s)"

section \<open>I2C\<close>

definition SSD1306_WRITE_CMD :: u8 where "SSD1306_WRITE_CMD = 0x00"
definition SSD1306_WRITE_DAT :: u8 where "SSD1306_WRITE_DAT = 0x40"

definition i2c_lcd_driver_init ::
    "'h iface_env \<Rightarrow> scr_interface_i2c_config_t \<Rightarrow> 'h spi_world \<Rightarrow> (esp_err_t \<times> nat option) \<times> 'h spi_world" where
  "i2c_lcd_driver_init env cfg w =
    (case ie_i2c_create env (cfg_i2c_bus cfg) (slave_addr cfg) (clk_speed cfg) (spi_hw w) of
       (None, h) \<Rightarrow> ((ESP_FAIL, None), w\<lparr>spi_hw := h\<rparr>)
     | (Some d, h) \<Rightarrow> ((ESP_OK, Some d), w\<lparr>spi_hw := h\<rparr>))"

definition i2c_lcd_driver_deinit :: "'h iface_env \<Rightarrow> nat \<Rightarrow> 'h spi_world \<Rightarrow> esp_err_t \<times> 'h spi_world" where
  "i2c_lcd_driver_deinit env d w = (ESP_OK, on_hw (ie_i2c_delete env d) w)"

text \<open>The buffer of two bytes goes out without a memory address (\<^verbatim>\<open>NULL_I2C_MEM_ADDR\<close>, here \<open>None\<close>).\<close>

definition i2c_lcd_write_byte :: "'h iface_env \<Rightarrow> nat \<Rightarrow> u8 \<Rightarrow> u8 \<Rightarrow> 'h spi_world \<Rightarrow> esp_err_t \<times> 'h spi_world" where
  "i2c_lcd_write_byte env d ctrl data w =
    (case ie_i2c_write env d None [ctrl, data] (spi_hw w) of (ret, h) \<Rightarrow>
       (if ret \<noteq> ESP_OK then ESP_FAIL else ESP_OK, w\<lparr>spi_hw := h\<rparr>))"

definition i2c_lcd_write_cmd :: "'h iface_env \<Rightarrow> nat \<Rightarrow> u16 \<Rightarrow> 'h spi_world \<Rightarrow> esp_err_t \<times> 'h spi_world" where
  "i2c_lcd_write_cmd env d cmd w = i2c_lcd_write_byte env d SSD1306_WRITE_CMD (ucast cmd) w"

definition i2c_lcd_write_data :: "'h iface_env \<Rightarrow> nat \<Rightarrow> u16 \<Rightarrow> 'h spi_world \<Rightarrow> esp_err_t \<times> 'h spi_world" where
  "i2c_lcd_write_data env d data w = i2c_lcd_write_byte env d SSD1306_WRITE_DAT (ucast data) w"

definition i2c_lcd_write ::
    "'h iface_env \<Rightarrow> nat \<Rightarrow> u8 list \<Rightarrow> nat \<Rightarrow> 'h spi_world \<Rightarrow> (esp_err_t \<times> u8 list \<times> 'h spi_world) option" where
  "i2c_lcd_write env d data n w =
    (if length data < n then None
     else case ie_i2c_write env d (Some SSD1306_WRITE_DAT) (take n data) (spi_hw w) of (ret, h) \<Rightarrow>
       Some (if ret \<noteq> ESP_OK then ESP_FAIL else ESP_OK, data, w\<lparr>spi_hw := h\<rparr>))"

definition i2c_lcd_read :: "u8 list \<Rightarrow> nat \<Rightarrow> 's \<Rightarrow> (esp_err_t \<times> u8 list \<times> 's) option" where
  "i2c_lcd_read d n s = Some (ESP_ERR_NOT_SUPPORTED, d, s)"
definition i2c_lcd_acquire :: "'s \<Rightarrow> esp_err_t \<times> 's" where
  "i2c_lcd_acquire s = (ESP_ERR_NOT_SUPPORTED, s)"
definition i2c_lcd_release :: "'s \<Rightarrow> esp_err_t \<times> 's" where
  "i2c_lcd_release s = (ESP_ERR_NOT_SUPPORTED, s)"

section \<open>SPI\<close>

definition LCD_CMD_LEV :: nat where "LCD_CMD_LEV = 0"
definition LCD_DATA_LEV :: nat where "LCD_DATA_LEV = 1"

text \<open>The pins of the ESP32-S3 that can be outputs; a negative number is no pin.\<close>

definition gpio_valid_output :: "int \<Rightarrow> bool" where
  "gpio_valid_output n \<longleftrightarrow> 0 \<le> n \<and> n < 49 \<and> n \<notin> {22, 23, 24, 25}"

datatype spi_init = Init_fault | Init_result esp_err_t interface_spi_handle_t

definition spi_lcd_driver_init ::
    "'h iface_env \<Rightarrow> scr_interface_spi_config_t \<Rightarrow> 'h spi_world \<Rightarrow> spi_init \<times> 'h spi_world" where
  "spi_lcd_driver_init env cfg w =
    (let hd0 = \<lparr>spi_wr_dev = None, pin_num_dc = cfg_pin_num_dc cfg, swap_data = cfg_swap_data cfg\<rparr> in
     if \<not> gpio_valid_output (pin_num_cs cfg) then (Init_result ESP_ERR_INVALID_ARG hd0, w)
     else if \<not> gpio_valid_output (cfg_pin_num_dc cfg) then (Init_result ESP_ERR_INVALID_ARG hd0, w)
     else let w = on_hw (ie_output env (cfg_pin_num_dc cfg)) w;
              devcfg = \<lparr>cs_io_num = pin_num_cs cfg, dev_mode = 0, clock_speed_hz = clk_freq cfg\<rparr>
       in case spi_bus_device_create (ie_spi env) (cfg_spi_bus cfg) devcfg w of
         (Null_deref, w) \<Rightarrow> (Init_fault, w)
       | (Dev_handle None, w) \<Rightarrow> (Init_result ESP_FAIL hd0, w)
       | (Dev_handle (Some a), w) \<Rightarrow> (Init_result ESP_OK (hd0\<lparr>spi_wr_dev := Some a\<rparr>), w))"

text \<open>The result of deleting the device is ignored; \<open>None\<close> stands for the use of a dangling handle.\<close>

definition spi_lcd_driver_deinit ::
    "'h iface_env \<Rightarrow> interface_spi_handle_t \<Rightarrow> 'h spi_world \<Rightarrow> (esp_err_t \<times> 'h spi_world) option" where
  "spi_lcd_driver_deinit env i w =
    map_option (\<lambda>(_, _, w). (ESP_OK, w)) (spi_bus_device_delete (ie_spi env) (Some (spi_wr_dev i)) w)"

definition spi_lcd_driver_acquire :: "'s \<Rightarrow> esp_err_t \<times> 's" where
  "spi_lcd_driver_acquire s = (ESP_ERR_NOT_SUPPORTED, s)"
definition spi_lcd_driver_release :: "'s \<Rightarrow> esp_err_t \<times> 's" where
  "spi_lcd_driver_release s = (ESP_ERR_NOT_SUPPORTED, s)"

definition device_at :: "interface_spi_handle_t \<Rightarrow> 'h spi_world \<Rightarrow> spi_device_t option" where
  "device_at i w = Option.bind (spi_wr_dev i) (spi_devs w)"

definition lcd_spi_rw ::
    "'h iface_env \<Rightarrow> interface_spi_handle_t \<Rightarrow> u8 list option \<Rightarrow> u8 list option \<Rightarrow> nat \<Rightarrow> 'h spi_world \<Rightarrow>
     (esp_err_t \<times> u8 list option \<times> 'h spi_world) option" where
  "lcd_spi_rw env i output input n w =
    (if n = 0 then Some (ESP_ERR_INVALID_ARG, input, w)
     else map_option (\<lambda>(ret, inb, h). (ret, inb, w\<lparr>spi_hw := h\<rparr>))
       (spi_bus_transfer_bytes (ie_spi env) (device_at i w) output input n (spi_hw w)))"

text \<open>The transfer of the one byte of a local variable stays inside it.\<close>

definition spi_send_byte ::
    "'h iface_env \<Rightarrow> interface_spi_handle_t \<Rightarrow> u8 \<Rightarrow> 'h spi_world \<Rightarrow> esp_err_t \<times> 'h spi_world" where
  "spi_send_byte env i b w = (case lcd_spi_rw env i (Some [b]) None 1 w of
     Some (ret, _, w) \<Rightarrow> (ret, w) | None \<Rightarrow> (ESP_FAIL, w))"

definition spi_lcd_driver_write_cmd ::
    "'h iface_env \<Rightarrow> interface_spi_handle_t \<Rightarrow> u16 \<Rightarrow> 'h spi_world \<Rightarrow> esp_err_t \<times> 'h spi_world" where
  "spi_lcd_driver_write_cmd env i v w =
    (let w = on_hw (ie_set_level env (pin_num_dc i) LCD_CMD_LEV) w in
     case spi_send_byte env i (ucast v) w of (ret, w) \<Rightarrow>
       let w = on_hw (ie_set_level env (pin_num_dc i) LCD_DATA_LEV) w in
       (if ret \<noteq> ESP_OK then ESP_FAIL else ESP_OK, w))"

definition spi_lcd_driver_write_data ::
    "'h iface_env \<Rightarrow> interface_spi_handle_t \<Rightarrow> u16 \<Rightarrow> 'h spi_world \<Rightarrow> esp_err_t \<times> 'h spi_world" where
  "spi_lcd_driver_write_data env i v w =
    (case spi_send_byte env i (ucast v) w of (ret, w) \<Rightarrow> (if ret \<noteq> ESP_OK then ESP_FAIL else ESP_OK, w))"

definition spi_lcd_driver_read ::
    "'h iface_env \<Rightarrow> interface_spi_handle_t \<Rightarrow> u8 list \<Rightarrow> nat \<Rightarrow> 'h spi_world \<Rightarrow> (esp_err_t \<times> u8 list \<times> 'h spi_world) option" where
  "spi_lcd_driver_read env i d n w =
    map_option (\<lambda>(ret, inb, w). (if ret \<noteq> ESP_OK then ESP_FAIL else ESP_OK, case inb of None \<Rightarrow> d | Some d \<Rightarrow> d, w))
      (lcd_spi_rw env i None (Some d) n w)"

text \<open>The loops that exchange the bytes of \<open>k\<close> halfwords from number \<open>j\<close> on; memory is little-endian.\<close>

definition half_at :: "u8 list \<Rightarrow> nat \<Rightarrow> u16" where
  "half_at d j = ucast (d ! (2 * j)) OR push_bit 8 (ucast (d ! (2 * j + 1)))"

definition put_half :: "u8 list \<Rightarrow> nat \<Rightarrow> u16 \<Rightarrow> u8 list" where
  "put_half d j t = d[2 * j := ucast t, 2 * j + 1 := ucast (drop_bit 8 t)]"

fun swap_loop :: "nat \<Rightarrow> nat \<Rightarrow> u8 list \<Rightarrow> u8 list option" where
  "swap_loop 0 j d = Some d"
| "swap_loop (Suc k) j d =
    (if 2 * j + 1 < length d
     then let t = half_at d j in swap_loop k (j + 1) (put_half d j (drop_bit 8 t OR push_bit 8 t))
     else None)"

definition spi_lcd_driver_write ::
    "'h iface_env \<Rightarrow> interface_spi_handle_t \<Rightarrow> u8 list \<Rightarrow> nat \<Rightarrow> 'h spi_world \<Rightarrow> (esp_err_t \<times> u8 list \<times> 'h spi_world) option" where
  "spi_lcd_driver_write env i d n w =
    (let l = n div 2 in
     Option.bind (if swap_data i then swap_loop l 0 d else Some d) (\<lambda>d1.
     Option.bind (lcd_spi_rw env i (Some d1) None n w) (\<lambda>(ret, _, w).
     Option.bind (if swap_data i then swap_loop l 0 d1 else Some d1) (\<lambda>d2.
       Some (if ret \<noteq> ESP_OK then ESP_FAIL else ESP_OK, d2, w)))))"

section \<open>Creating and deleting an interface\<close>

datatype iface = Iface_I2S nat | Iface_I2C nat | Iface_SPI interface_spi_handle_t

text \<open>The functions of an interface, bound to its handle.\<close>

definition iface_driver :: "'h iface_env \<Rightarrow> iface \<Rightarrow> 'h spi_world scr_interface_driver" where
  "iface_driver env i = (case i of
     Iface_I2S _ \<Rightarrow> \<lparr>if_type = SCREEN_IFACE_8080, write_cmd = i2s_lcd_write_cmd, write_data = i2s_lcd_write_data,
       if_write = i2s_lcd_write, if_read = i2s_lcd_read, bus_acquire = i2s_lcd_acquire, bus_release = i2s_lcd_release\<rparr>
   | Iface_SPI s \<Rightarrow> \<lparr>if_type = SCREEN_IFACE_SPI, write_cmd = spi_lcd_driver_write_cmd env s,
       write_data = spi_lcd_driver_write_data env s, if_write = spi_lcd_driver_write env s,
       if_read = spi_lcd_driver_read env s, bus_acquire = spi_lcd_driver_acquire, bus_release = spi_lcd_driver_release\<rparr>
   | Iface_I2C d \<Rightarrow> \<lparr>if_type = SCREEN_IFACE_I2C, write_cmd = i2c_lcd_write_cmd env d, write_data = i2c_lcd_write_data env d,
       if_write = i2c_lcd_write env d, if_read = i2c_lcd_read, bus_acquire = i2c_lcd_acquire, bus_release = i2c_lcd_release\<rparr>)"

text \<open>
  \<^verbatim>\<open>config\<close> points to the structure of the type asked for. On the ESP32-S3 the handle of the parallel
  interface is not set before it is compared with \<^verbatim>\<open>NULL\<close>: \<open>garbage\<close> is what the allocated memory held.
  The result has the value put into \<^verbatim>\<open>*out_driver\<close>, \<open>None\<close> when it is left as it was.
\<close>

datatype iface_config = Config_SPI scr_interface_spi_config_t | Config_I2C scr_interface_i2c_config_t | Config_8080

datatype iface_create = Iface_fault | Iface_result esp_err_t "iface option"

definition scr_interface_create ::
    "'h iface_env \<Rightarrow> nat option \<Rightarrow> scr_interface_type_t \<Rightarrow> iface_config option \<Rightarrow> bool \<Rightarrow> 'h spi_world \<Rightarrow>
     iface_create \<times> 'h spi_world" where
  "scr_interface_create env garbage type config has_out w =
    (if config = None then (Iface_result ESP_ERR_INVALID_ARG None, w)
     else if \<not> has_out then (Iface_result ESP_ERR_INVALID_ARG None, w)
     else case (type, config) of
       (SCREEN_IFACE_8080, _) \<Rightarrow>
         (case ie_malloc env (spi_hw w) of (ok, h) \<Rightarrow> let w = w\<lparr>spi_hw := h\<rparr> in
            if \<not> ok then (Iface_result ESP_ERR_NO_MEM None, w)
            else case garbage of None \<Rightarrow> (Iface_result ESP_FAIL None, w)
              | Some g \<Rightarrow> (Iface_result ESP_OK (Some (Iface_I2S g)), w))
     | (SCREEN_IFACE_SPI, Some (Config_SPI cfg)) \<Rightarrow>
         (case ie_malloc env (spi_hw w) of (ok, h) \<Rightarrow> let w = w\<lparr>spi_hw := h\<rparr> in
            if \<not> ok then (Iface_result ESP_ERR_NO_MEM None, w)
            else case spi_lcd_driver_init env cfg w of
              (Init_fault, w) \<Rightarrow> (Iface_fault, w)
            | (Init_result ret i, w) \<Rightarrow>
                if ret \<noteq> ESP_OK then (Iface_result ESP_FAIL None, w)
                else (Iface_result ESP_OK (Some (Iface_SPI i)), w))
     | (SCREEN_IFACE_I2C, Some (Config_I2C cfg)) \<Rightarrow>
         (case ie_malloc env (spi_hw w) of (ok, h) \<Rightarrow> let w = w\<lparr>spi_hw := h\<rparr> in
            if \<not> ok then (Iface_result ESP_ERR_NO_MEM None, w)
            else case i2c_lcd_driver_init env cfg w of
              ((ret, None), w) \<Rightarrow> (Iface_result ESP_FAIL None, w)
            | ((ret, Some d), w) \<Rightarrow> (Iface_result ESP_OK (Some (Iface_I2C d)), w))
     | (SCREEN_IFACE_OTHER _, _) \<Rightarrow> (Iface_result ESP_OK None, w)
     | _ \<Rightarrow> (Iface_fault, w))"

definition scr_interface_delete :: "'h iface_env \<Rightarrow> iface option \<Rightarrow> 'h spi_world \<Rightarrow> (esp_err_t \<times> 'h spi_world) option" where
  "scr_interface_delete env driver w =
    (case driver of None \<Rightarrow> Some (ESP_ERR_INVALID_ARG, w)
     | Some (Iface_I2S g) \<Rightarrow> Some (ESP_OK, on_hw (ie_i2s_deinit env g) w)
     | Some (Iface_SPI i) \<Rightarrow> map_option (\<lambda>(_, w). (ESP_OK, w)) (spi_lcd_driver_deinit env i w)
     | Some (Iface_I2C d) \<Rightarrow> Some (ESP_OK, snd (i2c_lcd_driver_deinit env d w)))"

section \<open>Exchanging bytes\<close>

text \<open>The first \<open>k\<close> pairs of bytes exchanged.\<close>

fun swapped :: "nat \<Rightarrow> u8 list \<Rightarrow> u8 list" where
  "swapped (Suc k) (a # b # d) = b # a # swapped k d"
| "swapped _ d = d"

lemma length_swapped [simp]: "length (swapped k d) = length d"
  by (induction k d rule: swapped.induct) auto

lemma swapped_twice [simp]: "swapped k (swapped k d) = d"
  by (induction k d rule: swapped.induct) auto

lemma swap_halfword:
  fixes a b :: u8
  defines "t \<equiv> ucast a OR push_bit 8 (ucast b) :: u16"
  shows "ucast (drop_bit 8 t OR push_bit 8 t) = b" "ucast (drop_bit 8 (drop_bit 8 t OR push_bit 8 t)) = a"
  by (rule bit_word_eqI; auto simp: t_def bit_simps dest: bit_imp_le_length)+

lemma swap_loop_swapped:
  "length p = 2 * j \<Longrightarrow> 2 * k \<le> length d \<Longrightarrow> swap_loop k j (p @ d) = Some (p @ swapped k d)"
proof (induction k arbitrary: j p d)
  case (Suc k)
  then obtain a b d' where d: "d = a # b # d'" by (cases d; cases "tl d") auto
  have half: "half_at (p @ d) j = ucast a OR push_bit 8 (ucast b)"
    using Suc.prems(1) by (simp add: half_at_def d nth_append)
  have put: "put_half (p @ d) j t = (p @ [ucast t, ucast (drop_bit 8 t)]) @ d'" for t
    using Suc.prems(1) by (simp add: put_half_def d list_update_append)
  have "swap_loop k (j + 1) ((p @ [b, a]) @ d') = Some ((p @ [b, a]) @ swapped k d')"
    by (rule Suc.IH) (use Suc.prems d in auto)
  then show ?case
    using Suc.prems half put swap_halfword [of a b] by (simp add: d Let_def)
qed simp

lemma swap_loop_all: "2 * k \<le> length d \<Longrightarrow> swap_loop k 0 d = Some (swapped k d)"
  using swap_loop_swapped [of "[]" 0] by simp

lemma take_swapped: "take n (swapped (n div 2) d) = swapped (n div 2) (take n d)"
proof (induction "n div 2" d arbitrary: n rule: swapped.induct)
  case (1 k a b d)
  then obtain m where n: "n = Suc (Suc m)" by (cases n; cases "n - 1") auto
  then show ?case using 1 by simp
qed (auto simp: take_Cons split: nat.split)

section \<open>What a controller driver relies on\<close>

text \<open>
  \<open>sent\<close> is what reached the controller: each byte with the level of the data pin, \<open>False\<close> for a
  command. A command can be sent while the interface is \<open>up\<close>; after it the pin is at the level of
  data and the interface \<open>ready\<close>. A block is unchanged by being written.
\<close>

locale screen_iface =
  fixes drv :: "'s scr_interface_driver" and up :: "'s \<Rightarrow> bool" and ready :: "'s \<Rightarrow> bool"
    and swaps :: bool and sent :: "'s \<Rightarrow> (bool \<times> u8) list"
  assumes ready_up: "ready s \<Longrightarrow> up s"
    and cmd: "up s \<Longrightarrow> \<exists>s'. write_cmd drv c s = (ESP_OK, s') \<and> ready s' \<and> sent s' = sent s @ [(False, ucast c)]"
    and data: "ready s \<Longrightarrow> \<exists>s'. write_data drv c s = (ESP_OK, s') \<and> ready s' \<and> sent s' = sent s @ [(True, ucast c)]"
    and block: "ready s \<Longrightarrow> 0 < n \<Longrightarrow> n \<le> length d \<Longrightarrow>
      \<exists>s'. if_write drv d n s = Some (ESP_OK, d, s') \<and> ready s' \<and>
        sent s' = sent s @ map (Pair True) (if swaps then swapped (n div 2) (take n d) else take n d)"
    and acquire: "up s \<Longrightarrow> up (snd (bus_acquire drv s)) \<and> ready (snd (bus_acquire drv s)) = ready s \<and> sent (snd (bus_acquire drv s)) = sent s"
    and release: "ready s \<Longrightarrow> ready (snd (bus_release drv s)) \<and> sent (snd (bus_release drv s)) = sent s"

text \<open>The SPI driver over an undisturbed link, with the pin of the data level.\<close>

definition world_up :: "nat \<Rightarrow> spi_device_t \<Rightarrow> ('h \<Rightarrow> bool) \<Rightarrow> 'h spi_world \<Rightarrow> bool" where
  "world_up a dev ready w \<longleftrightarrow> spi_devs w a = Some dev \<and> ready (spi_hw w)"

definition world_ready :: "nat \<Rightarrow> spi_device_t \<Rightarrow> ('h \<Rightarrow> bool) \<Rightarrow> ('h \<Rightarrow> bool) \<Rightarrow> 'h spi_world \<Rightarrow> bool" where
  "world_ready a dev ready level w \<longleftrightarrow> world_up a dev ready w \<and> level (spi_hw w)"

locale spi_screen = spi_link "ie_spi ienv" dev ready level wire
  for ienv :: "'h iface_env" and dev :: spi_device_t and ready :: "'h \<Rightarrow> bool"
    and level :: "'h \<Rightarrow> bool" and wire :: "'h \<Rightarrow> (bool \<times> u8) list" +
  fixes i :: interface_spi_handle_t and a :: nat
  assumes handle: "spi_wr_dev i = Some a"
    and set_level: "ready h \<Longrightarrow> ready (ie_set_level ienv (pin_num_dc i) n h) \<and>
      level (ie_set_level ienv (pin_num_dc i) n h) = (n \<noteq> 0) \<and> wire (ie_set_level ienv (pin_num_dc i) n h) = wire h"
begin

lemma rw_sent:
  assumes "world_up a dev ready w" "0 < n" "n \<le> length d"
  shows "\<exists>w'. lcd_spi_rw ienv i (Some d) None n w = Some (ESP_OK, None, w') \<and> world_up a dev ready w' \<and>
    level (spi_hw w') = level (spi_hw w) \<and>
    wire (spi_hw w') = wire (spi_hw w) @ map (Pair (level (spi_hw w))) (take n d)"
  using bytes_sent [of "spi_hw w" n d] assms handle
  by (auto simp: lcd_spi_rw_def device_at_def world_up_def)

lemma send_byte:
  assumes "world_up a dev ready w"
  shows "\<exists>w'. spi_send_byte ienv i b w = (ESP_OK, w') \<and> world_up a dev ready w' \<and>
    level (spi_hw w') = level (spi_hw w) \<and> wire (spi_hw w') = wire (spi_hw w) @ [(level (spi_hw w), b)]"
  using rw_sent [OF assms, of 1 "[b]"] by (auto simp: spi_send_byte_def)

lemma level_world:
  assumes "world_up a dev ready w"
  shows "world_up a dev ready (on_hw (ie_set_level ienv (pin_num_dc i) n) w)"
    "level (spi_hw (on_hw (ie_set_level ienv (pin_num_dc i) n) w)) = (n \<noteq> 0)"
    "wire (spi_hw (on_hw (ie_set_level ienv (pin_num_dc i) n) w)) = wire (spi_hw w)"
  using assms set_level by (simp_all add: world_up_def on_hw_def)

lemma command_sent:
  assumes "world_up a dev ready w"
  shows "\<exists>w'. spi_lcd_driver_write_cmd ienv i c w = (ESP_OK, w') \<and> world_ready a dev ready level w' \<and>
    wire (spi_hw w') = wire (spi_hw w) @ [(False, ucast c)]"
  using send_byte [OF level_world(1) [OF assms, of LCD_CMD_LEV], of "ucast c"] level_world [OF assms, of LCD_CMD_LEV]
    level_world [of _ LCD_DATA_LEV]
  by (auto simp: spi_lcd_driver_write_cmd_def Let_def world_ready_def LCD_CMD_LEV_def LCD_DATA_LEV_def)

lemma block_sent:
  assumes "world_ready a dev ready level w" "0 < n" "n \<le> length d"
  shows "\<exists>w'. spi_lcd_driver_write ienv i d n w = Some (ESP_OK, d, w') \<and> world_ready a dev ready level w' \<and>
    wire (spi_hw w') = wire (spi_hw w) @ map (Pair True) (if swap_data i then swapped (n div 2) (take n d) else take n d)"
proof -
  have k: "2 * (n div 2) \<le> length d" using assms(3) by simp
  show ?thesis
    using rw_sent [of w n "if swap_data i then swapped (n div 2) d else d"] assms swap_loop_all [OF k]
      swap_loop_all [of "n div 2" "swapped (n div 2) d"] k
    by (auto simp: spi_lcd_driver_write_def Let_def world_ready_def take_swapped split: if_splits)
qed

end

sublocale spi_screen \<subseteq> screen: screen_iface "iface_driver ienv (Iface_SPI i)" "world_up a dev ready"
    "world_ready a dev ready level" "swap_data i" "\<lambda>w. wire (spi_hw w)"
proof unfold_locales
  fix w c
  assume "world_ready a dev ready level w"
  then show "\<exists>w'. write_data (iface_driver ienv (Iface_SPI i)) c w = (ESP_OK, w') \<and> world_ready a dev ready level w' \<and>
      wire (spi_hw w') = wire (spi_hw w) @ [(True, ucast c)]"
    using send_byte [of w "ucast c"] by (auto simp: iface_driver_def spi_lcd_driver_write_data_def world_ready_def)
qed (use command_sent block_sent in \<open>auto simp: iface_driver_def world_ready_def spi_lcd_driver_acquire_def spi_lcd_driver_release_def\<close>)

text \<open>The controller of the theory of the bus with the pin: the interface on the kernel's mutex.\<close>

definition port_iface :: "(nat \<Rightarrow> nat list \<Rightarrow> nat list) \<Rightarrow> nat \<Rightarrow> sem_env list \<Rightarrow> int \<Rightarrow> spi_port iface_env" where
  "port_iface place me es dc =
    \<lparr>ie_spi = port_env 4092 place me es, ie_output = (\<lambda>_ h. h),
     ie_set_level = (\<lambda>pin n h. if pin = dc then h\<lparr>port_level := n \<noteq> 0\<rparr> else h), ie_malloc = (\<lambda>h. (True, h)),
     ie_i2c_create = (\<lambda>_ _ _ h. (None, h)), ie_i2c_delete = (\<lambda>_ h. h), ie_i2c_write = (\<lambda>_ _ _ h. (ESP_FAIL, h)),
     ie_i2s_deinit = (\<lambda>_ h. h)\<rparr>"

lemma port_ready_level [simp]: "port_ready (h\<lparr>port_level := b\<rparr>) = port_ready h"
  by (simp add: port_ready_def)

interpretation port_screen: spi_screen "port_iface place me es dc" dv port_ready port_level port_wire
    "\<lparr>spi_wr_dev = Some a, pin_num_dc = dc, swap_data = sw\<rparr>" a
  for place me es dc dv a sw
  by unfold_locales (simp_all add: port_iface_def port_transaction)

end
