(* ===== verification/St7789.thy ===== *)
theory St7789
  imports Screen_Interface
begin

text \<open>
  The driver of the panel, \<^verbatim>\<open>screen/controller_driver/st7789/st7789.c\<close>, with the parts of
  \<^verbatim>\<open>screen/screen_utility\<close> it uses and the choice of a driver in \<^verbatim>\<open>screen_driver.c\<close>. Coordinates are
  16 bit words, as in the source. The driver is a client of the locale \<open>screen_iface\<close>; what its bytes mean
  is given by an interpreter of the commands it uses, as the comments at their definitions and the
  drawings of the directions in \<^verbatim>\<open>screen_driver.h\<close> describe them. \<open>None\<close> is the use of a null pointer or
  of memory outside a buffer.
\<close>

section \<open>Handle, configuration and commands\<close>

definition SCR_DIR_MAX :: nat where "SCR_DIR_MAX = 8"

record 's scr_handle_t =
  interface_drv :: "'s scr_interface_driver option"
  original_width :: u16
  original_height :: u16
  scr_width :: u16
  scr_height :: u16
  offset_hor :: u16
  offset_ver :: u16
  scr_dir :: nat

record 's scr_controller_config_t =
  conf_drv :: "'s scr_interface_driver option"
  pin_num_rst :: int
  pin_num_bckl :: int
  rst_active_level :: u8
  bckl_active_level :: u8
  conf_width :: u16
  conf_height :: u16
  conf_offset_hor :: u16
  conf_offset_ver :: u16
  rotate :: nat

datatype scr_color_type_t = SCR_COLOR_TYPE_MONO | SCR_COLOR_TYPE_GRAY | SCR_COLOR_TYPE_RGB565

record scr_info_t =
  info_width :: u16
  info_height :: u16
  info_dir :: nat
  info_color_type :: scr_color_type_t
  info_name :: string
  info_bpp :: nat

text \<open>Pins and delays.\<close>

record 's pin_env =
  pin_output :: "int \<Rightarrow> 's \<Rightarrow> 's"
  pin_level :: "int \<Rightarrow> u8 \<Rightarrow> 's \<Rightarrow> 's"
  task_delay :: "nat \<Rightarrow> 's \<Rightarrow> 's"

definition LCD_INVOFF :: u16 where "LCD_INVOFF = 0x20"
definition LCD_INVON :: u16 where "LCD_INVON = 0x21"
definition LCD_CASET :: u16 where "LCD_CASET = 0x2A"
definition LCD_PASET :: u16 where "LCD_PASET = 0x2B"
definition LCD_RAMWR :: u16 where "LCD_RAMWR = 0x2C"
definition LCD_MADCTL :: u16 where "LCD_MADCTL = 0x36"

definition MADCTL_MY :: u8 where "MADCTL_MY = 0x80"
definition MADCTL_MX :: u8 where "MADCTL_MX = 0x40"
definition MADCTL_MV :: u8 where "MADCTL_MV = 0x20"

definition ST7789_RESOLUTION_HOR :: u16 where "ST7789_RESOLUTION_HOR = 240"
definition ST7789_RESOLUTION_VER :: u16 where "ST7789_RESOLUTION_VER = 320"

lemmas lcd_command_defs = LCD_INVOFF_def LCD_INVON_def LCD_CASET_def LCD_PASET_def LCD_RAMWR_def LCD_MADCTL_def
lemmas madctl_defs = MADCTL_MY_def MADCTL_MX_def MADCTL_MV_def
lemmas st7789_resolution = ST7789_RESOLUTION_HOR_def ST7789_RESOLUTION_VER_def

text \<open>A sequence of \<^verbatim>\<open>LCD_WRITE_CMD\<close> and \<^verbatim>\<open>LCD_WRITE_DATA\<close>, with their results joined by \<^verbatim>\<open>|=\<close>.\<close>

datatype lcd_write = Cmd u16 | Data u16

definition lcd_write1 :: "'s scr_interface_driver \<Rightarrow> lcd_write \<Rightarrow> 's \<Rightarrow> esp_err_t \<times> 's" where
  "lcd_write1 drv c s = (case c of Cmd v \<Rightarrow> write_cmd drv v s | Data v \<Rightarrow> write_data drv v s)"

fun lcd_writes :: "'s scr_interface_driver \<Rightarrow> lcd_write list \<Rightarrow> esp_err_t \<Rightarrow> 's \<Rightarrow> esp_err_t \<times> 's" where
  "lcd_writes drv [] ret s = (ret, s)"
| "lcd_writes drv (c # cs) ret s = (case lcd_write1 drv c s of (r, s) \<Rightarrow> lcd_writes drv cs (ret OR r) s)"

definition LCD_WRITE_REG :: "'s scr_interface_driver \<Rightarrow> u16 \<Rightarrow> u16 \<Rightarrow> 's \<Rightarrow> esp_err_t \<times> 's" where
  "LCD_WRITE_REG drv cmd data s = (case lcd_writes drv [Cmd cmd, Data data] 0 s of
     (ret, s) \<Rightarrow> (if ret \<noteq> ESP_OK then ESP_FAIL else ESP_OK, s))"

section \<open>Offsets\<close>

definition apply_offset_dir :: "nat \<Rightarrow> nat" where
  "apply_offset_dir dir = (if SCR_DIR_MAX < dir then drop_bit 5 dir else dir)"

definition scr_offsets :: "'s scr_handle_t \<Rightarrow> u16 \<Rightarrow> u16 \<Rightarrow> u16 \<times> u16" where
  "scr_offsets g res_hor res_ver =
    (let dir = apply_offset_dir (scr_dir g); ho = offset_hor g; ve = offset_ver g;
         hm = res_hor - offset_hor g - original_width g; vm = res_ver - offset_ver g - original_height g
     in if dir = 0 then (ho, ve) else if dir = 1 then (ho, vm)
        else if dir = 2 then (hm, ve) else if dir = 3 then (hm, vm)
        else if dir = 4 then (ve, ho) else if dir = 5 then (vm, ho)
        else if dir = 6 then (ve, hm) else if dir = 7 then (vm, hm) else (0, 0))"

definition scr_utility_apply_offset ::
    "'s scr_handle_t \<Rightarrow> u16 \<Rightarrow> u16 \<Rightarrow> u16 \<times> u16 \<times> u16 \<times> u16 \<Rightarrow> u16 \<times> u16 \<times> u16 \<times> u16" where
  "scr_utility_apply_offset g res_hor res_ver = (\<lambda>(x0, y0, x1, y1).
    (case scr_offsets g res_hor res_ver of (xo, yo) \<Rightarrow> (x0 + xo, y0 + yo, x1 + xo, y1 + yo)))"

section \<open>The operations of the driver\<close>

definition init_reg_writes :: "lcd_write list" where
  "init_reg_writes =
    [Cmd 0x3A, Data 0x05,
     Cmd 0xB2, Data 0x0C, Data 0x0C, Data 0x00, Data 0x33, Data 0x33,
     Cmd 0xB7, Data 0x35,
     Cmd 0xBB, Data 0x19,
     Cmd 0xC0, Data 0x2C,
     Cmd 0xC2, Data 0x01,
     Cmd 0xC3, Data 0x12,
     Cmd 0xC4, Data 0x20,
     Cmd 0xC6, Data 0x0F,
     Cmd 0xD0, Data 0xA4, Data 0xA1,
     Cmd 0xE0, Data 0xD0, Data 0x04, Data 0x0D, Data 0x11, Data 0x13, Data 0x2B, Data 0x3F,
       Data 0x54, Data 0x4C, Data 0x18, Data 0x0D, Data 0x0B, Data 0x1F, Data 0x23,
     Cmd 0xE1, Data 0xD0, Data 0x04, Data 0x0C, Data 0x11, Data 0x13, Data 0x2C, Data 0x3F,
       Data 0x44, Data 0x51, Data 0x2F, Data 0x1F, Data 0x1F, Data 0x20, Data 0x23,
     Cmd 0x21, Cmd 0x11, Cmd 0x29]"

definition lcd_st7789_init_reg :: "'s scr_interface_driver \<Rightarrow> 's \<Rightarrow> 's" where
  "lcd_st7789_init_reg drv s = snd (lcd_writes drv init_reg_writes ESP_OK s)"

definition rotation_reg :: "nat \<Rightarrow> u8" where
  "rotation_reg dir =
    (if dir = 1 then MADCTL_MY else if dir = 2 then MADCTL_MX else if dir = 3 then MADCTL_MX OR MADCTL_MY
     else if dir = 4 then MADCTL_MV else if dir = 5 then MADCTL_MY OR MADCTL_MV
     else if dir = 6 then MADCTL_MX OR MADCTL_MV else if dir = 7 then MADCTL_MX OR MADCTL_MY OR MADCTL_MV else 0)"

text \<open>The size of the screen is changed before the register is written.\<close>

definition lcd_st7789_set_rotation :: "nat \<Rightarrow> 's scr_handle_t \<Rightarrow> 's \<Rightarrow> (esp_err_t \<times> 's scr_handle_t \<times> 's) option" where
  "lcd_st7789_set_rotation dir g s =
    (let dir = (if SCR_DIR_MAX < dir then drop_bit 5 dir else dir) in
     if \<not> dir < 8 then Some (ESP_ERR_INVALID_ARG, g, s)
     else let g = (if dir < 4 then g\<lparr>scr_width := original_width g, scr_height := original_height g\<rparr>
                   else g\<lparr>scr_width := original_height g, scr_height := original_width g\<rparr>)
       in Option.bind (interface_drv g) (\<lambda>drv.
         case LCD_WRITE_REG drv LCD_MADCTL (ucast (rotation_reg dir)) s of (ret, s) \<Rightarrow>
           if ret \<noteq> ESP_OK then Some (ESP_FAIL, g, s) else Some (ESP_OK, g\<lparr>scr_dir := dir\<rparr>, s)))"

definition lcd_st7789_set_invert :: "bool \<Rightarrow> 's scr_handle_t \<Rightarrow> 's \<Rightarrow> (esp_err_t \<times> 's) option" where
  "lcd_st7789_set_invert is_invert g s =
    Option.bind (interface_drv g) (\<lambda>drv. Some (write_cmd drv (if is_invert then LCD_INVON else LCD_INVOFF) s))"

definition reset_pulse :: "'s pin_env \<Rightarrow> 's scr_controller_config_t \<Rightarrow> 's \<Rightarrow> 's" where
  "reset_pulse env conf s =
    (if 0 \<le> pin_num_rst conf
     then task_delay env 100 (pin_level env (pin_num_rst conf) (NOT (rst_active_level conf) AND 1)
       (task_delay env 100 (pin_level env (pin_num_rst conf) (rst_active_level conf AND 1)
         (pin_output env (pin_num_rst conf) s))))
     else s)"

definition backlight_on :: "'s pin_env \<Rightarrow> 's scr_controller_config_t \<Rightarrow> 's \<Rightarrow> 's" where
  "backlight_on env conf s =
    (if 0 \<le> pin_num_bckl conf
     then pin_level env (pin_num_bckl conf) (bckl_active_level conf AND 1) (pin_output env (pin_num_bckl conf) s)
     else s)"

text \<open>The configuration is read before it is compared with \<^verbatim>\<open>NULL\<close>, so that \<^verbatim>\<open>NULL\<close> faults.\<close>

definition lcd_st7789_init ::
    "'s pin_env \<Rightarrow> 's scr_controller_config_t option \<Rightarrow> 's scr_handle_t \<Rightarrow> 's \<Rightarrow> (esp_err_t \<times> 's scr_handle_t \<times> 's) option" where
  "lcd_st7789_init env lcd_conf g s = Option.bind lcd_conf (\<lambda>conf.
    (if \<not> conf_width conf \<le> ST7789_RESOLUTION_HOR then Some (ESP_ERR_INVALID_ARG, g, s)
     else if \<not> conf_height conf \<le> ST7789_RESOLUTION_VER then Some (ESP_ERR_INVALID_ARG, g, s)
     else Option.bind (conf_drv conf) (\<lambda>drv.
       let s = reset_pulse env conf s;
           g = g\<lparr>interface_drv := Some drv, original_width := conf_width conf, original_height := conf_height conf,
             offset_hor := conf_offset_hor conf, offset_ver := conf_offset_ver conf\<rparr>;
           s = backlight_on env conf (lcd_st7789_init_reg drv s)
       in Option.bind (lcd_st7789_set_rotation (rotate conf) g s) (\<lambda>(ret, g, s).
         if ret \<noteq> ESP_OK then Some (ESP_FAIL, g, s)
         else Option.bind (lcd_st7789_set_invert True g s) (\<lambda>(ret, s).
           if ret \<noteq> ESP_OK then Some (ESP_FAIL, g, s) else Some (ESP_OK, g, s))))))"

definition lcd_st7789_deinit :: "'s scr_handle_t \<Rightarrow> esp_err_t \<times> 's scr_handle_t" where
  "lcd_st7789_deinit g = (ESP_OK, \<lparr>interface_drv = None, original_width = 0, original_height = 0, scr_width = 0,
     scr_height = 0, offset_hor = 0, offset_ver = 0, scr_dir = 0\<rparr>)"

definition lcd_st7789_get_info :: "bool \<Rightarrow> 's scr_handle_t \<Rightarrow> esp_err_t \<times> scr_info_t option" where
  "lcd_st7789_get_info has_info g =
    (if \<not> has_info then (ESP_ERR_INVALID_ARG, None)
     else (ESP_OK, Some \<lparr>info_width = scr_width g, info_height = scr_height g, info_dir = scr_dir g,
       info_color_type = SCR_COLOR_TYPE_RGB565, info_name = ''ST7789'', info_bpp = 16\<rparr>))"

definition window_writes :: "u16 \<times> u16 \<times> u16 \<times> u16 \<Rightarrow> lcd_write list" where
  "window_writes = (\<lambda>(x0, y0, x1, y1).
    [Cmd LCD_CASET, Data (drop_bit 8 x0), Data (x0 AND 0xff), Data (drop_bit 8 x1), Data (x1 AND 0xff),
     Cmd LCD_PASET, Data (drop_bit 8 y0), Data (y0 AND 0xff), Data (drop_bit 8 y1), Data (y1 AND 0xff),
     Cmd LCD_RAMWR])"

definition lcd_st7789_set_window :: "u16 \<Rightarrow> u16 \<Rightarrow> u16 \<Rightarrow> u16 \<Rightarrow> 's scr_handle_t \<Rightarrow> 's \<Rightarrow> (esp_err_t \<times> 's) option" where
  "lcd_st7789_set_window x0 y0 x1 y1 g s =
    (if \<not> (x1 < scr_width g \<and> y1 < scr_height g) then Some (ESP_ERR_INVALID_ARG, s)
     else if \<not> (x0 \<le> x1 \<and> y0 \<le> y1) then Some (ESP_ERR_INVALID_ARG, s)
     else Option.bind (interface_drv g) (\<lambda>drv.
       case lcd_writes drv (window_writes (scr_utility_apply_offset g ST7789_RESOLUTION_HOR ST7789_RESOLUTION_VER (x0, y0, x1, y1))) ESP_OK s of
         (ret, s) \<Rightarrow> Some (if ret \<noteq> ESP_OK then ESP_FAIL else ESP_OK, s)))"

definition lcd_st7789_write_ram_data :: "u16 \<Rightarrow> 's scr_handle_t \<Rightarrow> 's \<Rightarrow> (esp_err_t \<times> 's) option" where
  "lcd_st7789_write_ram_data color g s =
    Option.bind (interface_drv g) (\<lambda>drv.
      map_option (\<lambda>(ret, _, s). (ret, s)) (if_write drv [ucast (color AND 0xff), ucast (drop_bit 8 color)] 2 s))"

definition lcd_st7789_draw_pixel :: "u16 \<Rightarrow> u16 \<Rightarrow> u16 \<Rightarrow> 's scr_handle_t \<Rightarrow> 's \<Rightarrow> (esp_err_t \<times> 's) option" where
  "lcd_st7789_draw_pixel x y color g s =
    Option.bind (lcd_st7789_set_window x y x y g s) (\<lambda>(ret, s).
      if ret \<noteq> ESP_OK then Some (ESP_FAIL, s) else lcd_st7789_write_ram_data color g s)"

text \<open>The bitmap is the bytes of the array from the address given; \<^verbatim>\<open>w * h\<close> is a product of \<^verbatim>\<open>int\<close>. When the
  window is refused the bus stays acquired.\<close>

definition lcd_st7789_draw_bitmap ::
    "u16 \<Rightarrow> u16 \<Rightarrow> u16 \<Rightarrow> u16 \<Rightarrow> u8 list option \<Rightarrow> 's scr_handle_t \<Rightarrow> 's \<Rightarrow> (esp_err_t \<times> u8 list option \<times> 's) option" where
  "lcd_st7789_draw_bitmap x y w h bitmap g s =
    (case bitmap of None \<Rightarrow> Some (ESP_ERR_INVALID_ARG, None, s)
     | Some d \<Rightarrow> Option.bind (interface_drv g) (\<lambda>drv.
       let s = snd (bus_acquire drv s) in
       Option.bind (lcd_st7789_set_window x y (x + w - 1) (y + h - 1) g s) (\<lambda>(ret, s).
         if ret \<noteq> ESP_OK then Some (ESP_FAIL, Some d, s)
         else Option.bind (if_write drv d (2 * (unat w * unat h)) s) (\<lambda>(ret, d, s).
           let s = snd (bus_release drv s) in
           Some (if ret \<noteq> ESP_OK then ESP_FAIL else ESP_OK, Some d, s)))))"

section \<open>Choosing a driver\<close>

datatype scr_controller_t =
  SCREEN_CONTROLLER_ILI9341 | SCREEN_CONTROLLER_ILI9806 | SCREEN_CONTROLLER_ILI9486 | SCREEN_CONTROLLER_ILI9488
| SCREEN_CONTROLLER_NT35510 | SCREEN_CONTROLLER_RM68120 | SCREEN_CONTROLLER_ST7789 | SCREEN_CONTROLLER_ST7796
| SCREEN_CONTROLLER_SSD1351 | SCREEN_CONTROLLER_SSD1963 | SCREEN_CONTROLLER_SSD1306 | SCREEN_CONTROLLER_SSD1307
| SCREEN_CONTROLLER_SSD1322

record 's scr_driver_t =
  drv_init :: "'s scr_controller_config_t option \<Rightarrow> 's scr_handle_t \<Rightarrow> 's \<Rightarrow> (esp_err_t \<times> 's scr_handle_t \<times> 's) option"
  drv_deinit :: "'s scr_handle_t \<Rightarrow> esp_err_t \<times> 's scr_handle_t"
  drv_set_direction :: "nat \<Rightarrow> 's scr_handle_t \<Rightarrow> 's \<Rightarrow> (esp_err_t \<times> 's scr_handle_t \<times> 's) option"
  drv_set_window :: "u16 \<Rightarrow> u16 \<Rightarrow> u16 \<Rightarrow> u16 \<Rightarrow> 's scr_handle_t \<Rightarrow> 's \<Rightarrow> (esp_err_t \<times> 's) option"
  drv_write_ram_data :: "u16 \<Rightarrow> 's scr_handle_t \<Rightarrow> 's \<Rightarrow> (esp_err_t \<times> 's) option"
  drv_draw_pixel :: "u16 \<Rightarrow> u16 \<Rightarrow> u16 \<Rightarrow> 's scr_handle_t \<Rightarrow> 's \<Rightarrow> (esp_err_t \<times> 's) option"
  drv_draw_bitmap :: "u16 \<Rightarrow> u16 \<Rightarrow> u16 \<Rightarrow> u16 \<Rightarrow> u8 list option \<Rightarrow> 's scr_handle_t \<Rightarrow> 's \<Rightarrow> (esp_err_t \<times> u8 list option \<times> 's) option"
  drv_get_info :: "bool \<Rightarrow> 's scr_handle_t \<Rightarrow> esp_err_t \<times> scr_info_t option"

definition lcd_st7789_default_driver :: "'s pin_env \<Rightarrow> 's scr_driver_t" where
  "lcd_st7789_default_driver env = \<lparr>drv_init = lcd_st7789_init env, drv_deinit = lcd_st7789_deinit,
     drv_set_direction = lcd_st7789_set_rotation, drv_set_window = lcd_st7789_set_window,
     drv_write_ram_data = lcd_st7789_write_ram_data, drv_draw_pixel = lcd_st7789_draw_pixel,
     drv_draw_bitmap = lcd_st7789_draw_bitmap, drv_get_info = lcd_st7789_get_info\<rparr>"

text \<open>The two controllers the configuration enables; the driver of the other one is an argument.\<close>

definition scr_find_driver ::
    "'s scr_driver_t \<Rightarrow> 's pin_env \<Rightarrow> scr_controller_t \<Rightarrow> bool \<Rightarrow> esp_err_t \<times> 's scr_driver_t option" where
  "scr_find_driver ili9341 env controller has_out =
    (if \<not> has_out then (ESP_ERR_INVALID_ARG, None)
     else case controller of
       SCREEN_CONTROLLER_ILI9341 \<Rightarrow> (ESP_OK, Some ili9341)
     | SCREEN_CONTROLLER_ST7789 \<Rightarrow> (ESP_OK, Some (lcd_st7789_default_driver env))
     | _ \<Rightarrow> (ESP_ERR_NOT_FOUND, None))"

section \<open>The panel\<close>

text \<open>
  The memory of the panel by place on the glass, column and line, and what the commands change: the window, the
  place the next pixel goes to, and the order of the memory. A pixel is two bytes, the high one first;
  at the end of a line of the window the next one starts, after the last one the first again.
\<close>

record panel =
  p_cmd :: u8
  p_args :: "u8 list"
  p_xs :: nat
  p_xe :: nat
  p_ys :: nat
  p_ye :: nat
  p_col :: nat
  p_row :: nat
  p_half :: "u8 option"
  p_madctl :: u8
  p_glass :: "nat \<times> nat \<Rightarrow> u16"

definition glass_pos :: "u8 \<Rightarrow> nat \<times> nat \<Rightarrow> nat \<times> nat" where
  "glass_pos m = (\<lambda>(c, r).
    (let (pc, pr) = (if m AND MADCTL_MV \<noteq> 0 then (r, c) else (c, r))
     in (if m AND MADCTL_MX \<noteq> 0 then 239 - pc else pc, if m AND MADCTL_MY \<noteq> 0 then 319 - pr else pr)))"

definition pixel_word :: "u8 \<Rightarrow> u8 \<Rightarrow> u16" where
  "pixel_word hi lo = push_bit 8 (ucast hi) OR ucast lo"

definition paint :: "u16 \<Rightarrow> panel \<Rightarrow> panel" where
  "paint v p = p\<lparr>p_half := None,
     p_glass := (p_glass p)(glass_pos (p_madctl p) (p_col p, p_row p) := v),
     p_col := (if p_col p = p_xe p then p_xs p else p_col p + 1),
     p_row := (if p_col p = p_xe p then (if p_row p = p_ye p then p_ys p else p_row p + 1) else p_row p)\<rparr>"

definition panel_args :: "u8 list \<Rightarrow> panel \<Rightarrow> panel" where
  "panel_args args p =
    (let p = p\<lparr>p_args := args\<rparr> in
     if length args = 4 \<and> p_cmd p = 0x2A
     then p\<lparr>p_xs := unat (pixel_word (args ! 0) (args ! 1)), p_xe := unat (pixel_word (args ! 2) (args ! 3))\<rparr>
     else if length args = 4 \<and> p_cmd p = 0x2B
     then p\<lparr>p_ys := unat (pixel_word (args ! 0) (args ! 1)), p_ye := unat (pixel_word (args ! 2) (args ! 3))\<rparr>
     else if length args = 1 \<and> p_cmd p = 0x36 then p\<lparr>p_madctl := args ! 0\<rparr>
     else p)"

definition feed :: "panel \<Rightarrow> bool \<times> u8 \<Rightarrow> panel" where
  "feed p = (\<lambda>(data, b).
    (if \<not> data then
       (if b = 0x2C then p\<lparr>p_cmd := b, p_args := [], p_half := None, p_col := p_xs p, p_row := p_ys p\<rparr>
        else p\<lparr>p_cmd := b, p_args := []\<rparr>)
     else if p_cmd p = 0x2C then
       (case p_half p of None \<Rightarrow> p\<lparr>p_half := Some b\<rparr> | Some hi \<Rightarrow> paint (pixel_word hi b) p)
     else panel_args (p_args p @ [b]) p))"

definition panel_after :: "panel \<Rightarrow> (bool \<times> u8) list \<Rightarrow> panel" where
  "panel_after p bs = foldl feed p bs"

lemma panel_after_simps [simp]:
  "panel_after p [] = p" "panel_after p (b # bs) = panel_after (feed p b) bs"
  "panel_after p (bs @ cs) = panel_after (panel_after p bs) cs"
  by (simp_all add: panel_after_def)

text \<open>Where the directions of \<^verbatim>\<open>screen_driver.h\<close> put the pixel in column \<open>x\<close> and line \<open>y\<close>, on glass whose visible part
  starts at the offsets.\<close>

definition screen_pos :: "'s scr_handle_t \<Rightarrow> nat \<Rightarrow> nat \<Rightarrow> nat \<times> nat" where
  "screen_pos g x y =
    (let W = unat (original_width g); H = unat (original_height g);
         (a, b) = (if scr_dir g \<in> {4, 5, 6, 7} then (y, x) else (x, y))
     in (unat (offset_hor g) + (if scr_dir g \<in> {2, 3, 6, 7} then W - 1 - a else a),
         unat (offset_ver g) + (if scr_dir g \<in> {1, 3, 5, 7} then H - 1 - b else b)))"

definition handle_wf :: "'s scr_handle_t \<Rightarrow> bool" where
  "handle_wf g \<longleftrightarrow> scr_dir g < 8 \<and>
     unat (offset_hor g) + unat (original_width g) \<le> 240 \<and> unat (offset_ver g) + unat (original_height g) \<le> 320 \<and>
     (scr_width g, scr_height g) =
       (if scr_dir g < 4 then (original_width g, original_height g) else (original_height g, original_width g))"

lemma unat_margin:
  fixes a b r :: u16
  assumes "unat a + unat b \<le> unat r"
  shows "unat (r - a - b) = unat r - unat a - unat b"
proof -
  have "unat (r - a) = unat r - unat a" using assms by (intro unat_sub) (simp add: word_le_nat_alt)
  moreover from this have "unat (r - a - b) = unat (r - a) - unat b" using assms by (intro unat_sub) (simp add: word_le_nat_alt)
  ultimately show ?thesis by simp
qed

definition origin :: "'s scr_handle_t \<Rightarrow> nat \<times> nat" where
  "origin g = (case scr_offsets g ST7789_RESOLUTION_HOR ST7789_RESOLUTION_VER of (xo, yo) \<Rightarrow> (unat xo, unat yo))"

lemma dir_cases:
  assumes "d < (8::nat)"
  obtains "d = 0" | "d = 1" | "d = 2" | "d = 3" | "d = 4" | "d = 5" | "d = 6" | "d = 7"
  using assms by linarith

lemma margins:
  assumes "handle_wf g"
  shows "unat (240 - offset_hor g - original_width g) = 240 - unat (offset_hor g) - unat (original_width g)"
    "unat (320 - offset_ver g - original_height g) = 320 - unat (offset_ver g) - unat (original_height g)"
  using assms unat_margin [of "offset_hor g" "original_width g" 240] unat_margin [of "offset_ver g" "original_height g" 320]
  by (simp_all add: handle_wf_def)

lemma origin_fits:
  assumes "handle_wf g"
  shows "fst (origin g) + unat (scr_width g) \<le> 320" "snd (origin g) + unat (scr_height g) \<le> 320"
proof -
  have d: "scr_dir g < 8" using assms by (simp add: handle_wf_def)
  show "fst (origin g) + unat (scr_width g) \<le> 320" "snd (origin g) + unat (scr_height g) \<le> 320"
    using d by (cases rule: dir_cases; use assms margins [OF assms] in
      \<open>simp add: origin_def scr_offsets_def apply_offset_dir_def SCR_DIR_MAX_def st7789_resolution handle_wf_def\<close>)+
qed

lemma glass_pos_screen:
  assumes "handle_wf g" "x < unat (scr_width g)" "y < unat (scr_height g)"
  shows "glass_pos (rotation_reg (scr_dir g)) (fst (origin g) + x, snd (origin g) + y) = screen_pos g x y"
proof -
  have d: "scr_dir g < 8" using assms by (simp add: handle_wf_def)
  show ?thesis
    using d by (cases rule: dir_cases; use assms margins [OF assms(1)] in
      \<open>simp add: origin_def scr_offsets_def apply_offset_dir_def SCR_DIR_MAX_def st7789_resolution handle_wf_def
        glass_pos_def screen_pos_def rotation_reg_def madctl_defs\<close>)
qed

text \<open>Two visible pixels are never at the same place.\<close>

lemma screen_pos_inj:
  assumes "handle_wf g" "x < unat (scr_width g)" "y < unat (scr_height g)" "x' < unat (scr_width g)" "y' < unat (scr_height g)"
    and "screen_pos g x y = screen_pos g x' y'"
  shows "x = x' \<and> y = y'"
proof -
  have d: "scr_dir g < 8" using assms by (simp add: handle_wf_def)
  show ?thesis
    using d by (cases rule: dir_cases; use assms in \<open>auto simp: handle_wf_def screen_pos_def\<close>)
qed

section \<open>Pixels on the panel\<close>

fun pixels_of :: "u8 list \<Rightarrow> u16 list" where
  "pixels_of (a # b # bs) = pixel_word a b # pixels_of bs"
| "pixels_of _ = []"

lemma paint_keeps [simp]:
  "p_cmd (paint v p) = p_cmd p" "p_half (paint v p) = None" "p_madctl (paint v p) = p_madctl p"
  "p_xs (paint v p) = p_xs p" "p_xe (paint v p) = p_xe p" "p_ys (paint v p) = p_ys p" "p_ye (paint v p) = p_ye p"
  by (simp_all add: paint_def)

lemma paint_moves:
  "p_glass (paint v p) = (p_glass p)(glass_pos (p_madctl p) (p_col p, p_row p) := v)"
  "p_col (paint v p) = (if p_col p = p_xe p then p_xs p else p_col p + 1)"
  "p_row (paint v p) = (if p_col p = p_xe p then (if p_row p = p_ye p then p_ys p else p_row p + 1) else p_row p)"
  by (simp_all add: paint_def)

lemma fold_paint_keeps [simp]:
  "p_cmd (fold paint vs p) = p_cmd p" "p_madctl (fold paint vs p) = p_madctl p"
  "p_xs (fold paint vs p) = p_xs p" "p_xe (fold paint vs p) = p_xe p" "p_ys (fold paint vs p) = p_ys p" "p_ye (fold paint vs p) = p_ye p"
  by (induction vs arbitrary: p) simp_all

lemma bytes_paint:
  "even (length bs) \<Longrightarrow> p_cmd p = 0x2C \<Longrightarrow> p_half p = None \<Longrightarrow>
   panel_after p (map (Pair True) bs) = fold paint (pixels_of bs) p"
proof (induction bs arbitrary: p rule: pixels_of.induct)
  case (1 a b bs)
  have "feed (feed p (True, a)) (True, b) = paint (pixel_word a b) p"
    using 1(3,4) by (simp add: feed_def paint_def)
  then show ?case using 1 by simp
qed auto

text \<open>The pixels of a window, line by line, at the places \<open>pos\<close> gives them.\<close>

definition drawn :: "(nat \<Rightarrow> nat \<Rightarrow> nat \<times> nat) \<Rightarrow> nat \<Rightarrow> u16 list \<Rightarrow> (nat \<times> nat \<Rightarrow> u16) \<Rightarrow> nat \<times> nat \<Rightarrow> u16" where
  "drawn pos w vs gl = fold (\<lambda>k gl. gl(pos (k mod w) (k div w) := vs ! k)) [0 ..< length vs] gl"

lemma drawn_snoc: "drawn pos w (vs @ [v]) gl = (drawn pos w vs gl)(pos (length vs mod w) (length vs div w) := v)"
proof -
  have "fold (\<lambda>k gl. gl(pos (k mod w) (k div w) := (vs @ [v]) ! k)) [0 ..< length vs] gl = drawn pos w vs gl"
    unfolding drawn_def by (rule fold_cong) (auto simp: nth_append)
  then show ?thesis by (simp add: drawn_def)
qed

definition in_window :: "nat \<Rightarrow> nat \<Rightarrow> nat \<Rightarrow> nat \<Rightarrow> panel \<Rightarrow> bool" where
  "in_window X Y w h p \<longleftrightarrow> p_xs p = X \<and> p_xe p + 1 = X + w \<and> p_ys p = Y \<and> p_ye p + 1 = Y + h"

lemma next_place:
  assumes "n < w * (h::nat)"
  shows "(n mod w = w - 1 \<longrightarrow> Suc n mod w = 0 \<and> Suc n div w = Suc (n div w)) \<and>
    (n mod w \<noteq> w - 1 \<longrightarrow> Suc n mod w = Suc (n mod w) \<and> Suc n div w = n div w)"
  using assms by (cases "w = 0") (auto simp: mod_Suc div_Suc)

lemma window_painted:
  assumes "in_window X Y w h p" "p_col p = X" "p_row p = Y" "length vs \<le> w * h"
  shows "(length vs < w * h \<longrightarrow> p_col (fold paint vs p) = X + length vs mod w \<and> p_row (fold paint vs p) = Y + length vs div w) \<and>
    p_glass (fold paint vs p) = drawn (\<lambda>i j. glass_pos (p_madctl p) (X + i, Y + j)) w vs (p_glass p)"
  using assms(4)
proof (induction vs rule: rev_induct)
  case Nil
  then show ?case using assms(2,3) by (simp add: drawn_def)
next
  case (snoc v vs)
  then have n: "length vs < w * h" by simp
  then have "0 < w" by (cases w) auto
  then have w: "0 < w" "length vs mod w < w" by simp_all
  have row: "length vs div w < h" using n by (simp add: less_mult_imp_div_less mult.commute)
  have at_end: "X + length vs mod w = p_xe p \<longleftrightarrow> length vs mod w = w - 1"
    using assms(1) w by (auto simp: in_window_def)
  have "Suc (length vs) < w * h \<Longrightarrow> length vs mod w = w - 1 \<Longrightarrow> Y + length vs div w \<noteq> p_ye p"
    using assms(1) next_place [OF n] less_mult_imp_div_less [of "Suc (length vs)" h w]
    by (auto simp: in_window_def mult.commute)
  then show ?case
    using snoc.IH n next_place [OF n] at_end assms(1)
    by (auto simp: drawn_snoc paint_moves in_window_def)
qed

lemma drawn_at:
  assumes "\<And>i j i' j'. i < w \<Longrightarrow> i' < w \<Longrightarrow> j < h \<Longrightarrow> j' < h \<Longrightarrow> pos i j = pos i' j' \<Longrightarrow> i = i' \<and> j = j'"
    and "length vs \<le> w * h"
  shows "k < length vs \<Longrightarrow> drawn pos w vs gl (pos (k mod w) (k div w)) = vs ! k"
    "(\<And>i j. i < w \<Longrightarrow> j < h \<Longrightarrow> q \<noteq> pos i j) \<Longrightarrow> drawn pos w vs gl q = gl q"
proof -
  have place: "n mod w < w \<and> n div w < h" if "n < w * h" for n
    using that by (metis less_mult_imp_div_less mod_less_divisor mult.commute mult_0 neq0_conv not_less_zero)
  show "drawn pos w vs gl (pos (k mod w) (k div w)) = vs ! k" if "k < length vs"
    using that assms(2)
  proof (induction vs rule: rev_induct)
    case (snoc v vs)
    show ?case
    proof (cases "k = length vs")
      case False
      then have k: "k < length vs" "k < w * h" "length vs < w * h" using snoc.prems by auto
      have "pos (k mod w) (k div w) \<noteq> pos (length vs mod w) (length vs div w)"
        using assms(1) [of "k mod w" "length vs mod w" "k div w" "length vs div w"] place [OF k(2)] place [OF k(3)] k(1)
        by (metis div_mult_mod_eq less_irrefl)
      then show ?thesis using snoc k by (simp add: drawn_snoc nth_append)
    qed (simp add: drawn_snoc)
  qed simp
  show "drawn pos w vs gl q = gl q" if "\<And>i j. i < w \<Longrightarrow> j < h \<Longrightarrow> q \<noteq> pos i j"
    using assms(2)
  proof (induction vs rule: rev_induct)
    case Nil
    then show ?case by (simp add: drawn_def)
  next
    case (snoc v vs)
    then show ?case using that place [of "length vs"] by (simp add: drawn_snoc)
  qed
qed

section \<open>What the driver sends\<close>

fun wire_of :: "lcd_write \<Rightarrow> bool \<times> u8" where
  "wire_of (Cmd c) = (False, ucast c)"
| "wire_of (Data c) = (True, ucast c)"

lemma pixel_word_of [simp]: "pixel_word (ucast (drop_bit 8 v)) (ucast (v AND 0xff)) = v" "pixel_word (ucast (drop_bit 8 v)) (ucast v) = v"
  using reg16_round_trip [of v] by (simp_all add: pixel_word_def reg16_value_def reg16_bytes_def)

lemma window_opened:
  fixes p :: panel and x0 y0 x1 y1 :: u16
  defines "p' \<equiv> panel_after p (map wire_of (window_writes (x0, y0, x1, y1)))"
  shows "p_cmd p' = 0x2C \<and> p_half p' = None \<and> p_xs p' = unat x0 \<and> p_xe p' = unat x1 \<and> p_ys p' = unat y0 \<and> p_ye p' = unat y1 \<and>
    p_col p' = unat x0 \<and> p_row p' = unat y0 \<and> p_madctl p' = p_madctl p \<and> p_glass p' = p_glass p"
  by (simp add: p'_def window_writes_def feed_def panel_args_def lcd_command_defs)

lemma init_writes_keep:
  "p_glass (panel_after p (map wire_of init_reg_writes)) = p_glass p \<and>
   p_madctl (panel_after p (map wire_of init_reg_writes)) = p_madctl p"
  by (simp add: init_reg_writes_def feed_def panel_args_def)

lemma rotation_sent:
  fixes p :: panel and m :: u8
  defines "p' \<equiv> panel_after p [(False, 0x36), (True, m)]"
  shows "p_madctl p' = m \<and> p_glass p' = p_glass p"
  by (simp add: p'_def feed_def panel_args_def)

section \<open>Windows\<close>

text \<open>The test of the window, in words that may wrap around, is the test that the rectangle is not empty and
  lies on the screen.\<close>

lemma span_fits:
  fixes x n b :: u16
  shows "(x + n - 1 < b \<and> x \<le> x + n - 1) \<longleftrightarrow> 0 < unat n \<and> unat x + unat n \<le> unat b"
proof (cases "n = 0")
  case True
  have "\<not> (x - 1 < b \<and> x \<le> x - 1)"
  proof (cases "x = 0")
    case False
    then have "unat (x - 1) < unat x" by (simp add: unat_minus_one unat_gt_0)
    then show ?thesis by (simp add: word_le_nat_alt)
  qed (simp add: not_less)
  then show ?thesis using True by simp
next
  case False
  then have n: "unat (n - 1) = unat n - 1" "0 < unat n" by (auto simp: unat_minus_one unat_gt_0)
  have e: "x + n - 1 = x + (n - 1)" by simp
  have "x \<le> x + (n - 1) \<longleftrightarrow> unat x + unat (n - 1) < 2 ^ 16" using no_olen_add_nat [of x "n - 1"] by simp
  moreover have "unat x + unat (n - 1) < 2 ^ 16 \<Longrightarrow> unat (x + (n - 1)) = unat x + unat (n - 1)"
    using unat_add_lem [of x "n - 1"] by simp
  ultimately show ?thesis
    unfolding e using n unsigned_less [of b, where 'a = nat] by (auto simp: word_less_nat_alt)
qed

lemma span_end:
  fixes x n b :: u16
  assumes "0 < unat n" "unat x + unat n \<le> unat b"
  shows "unat (x + n - 1) = unat x + unat n - 1"
proof -
  have "n \<noteq> 0" using assms(1) by auto
  then have n: "unat (n - 1) = unat n - 1" by (simp add: unat_minus_one)
  have e: "x + n - 1 = x + (n - 1)" by simp
  have "unat x + unat (n - 1) < 2 ^ 16" using n assms unsigned_less [of b, where 'a = nat] by simp
  then show ?thesis unfolding e using n assms(1) unat_add_lem [of x "n - 1"] by simp
qed

text \<open>The pixels of a bitmap in memory.\<close>

definition shown :: "bool \<Rightarrow> u8 list \<Rightarrow> nat \<Rightarrow> u16" where
  "shown swaps d k = (if swaps then half_at d k else pixel_word (d ! (2 * k)) (d ! (2 * k + 1)))"

lemma pixels_of_block:
  "2 * m \<le> length d \<Longrightarrow> pixels_of (take (2 * m) d) = map (shown False d) [0 ..< m] \<and>
   pixels_of (swapped m (take (2 * m) d)) = map (shown True d) [0 ..< m]"
proof (induction m arbitrary: d)
  case (Suc m)
  then obtain a b d' where d: "d = a # b # d'" by (cases d; cases "tl d") auto
  have next_pixel: "shown sw d (Suc k) = shown sw d' k" for sw k by (simp add: d shown_def half_at_def)
  have first: "shown True d 0 = pixel_word b a" "shown False d 0 = pixel_word a b"
    by (simp_all add: d shown_def half_at_def pixel_word_def or.commute)
  have upt: "[0 ..< Suc m] = 0 # map Suc [0 ..< m]" by (simp add: upt_conv_Cons map_Suc_upt del: upt_Suc)
  show ?case
    using Suc.IH [of d'] Suc.prems unfolding upt by (simp add: first next_pixel d [symmetric] o_def) (simp add: d)
qed simp

text \<open>A rectangle of the screen drawn with the pixels \<open>v\<close>, by number.\<close>

definition shows_rect :: "'s scr_handle_t \<Rightarrow> nat \<Rightarrow> nat \<Rightarrow> nat \<Rightarrow> nat \<Rightarrow> (nat \<Rightarrow> u16) \<Rightarrow>
    (nat \<times> nat \<Rightarrow> u16) \<Rightarrow> (nat \<times> nat \<Rightarrow> u16) \<Rightarrow> bool" where
  "shows_rect g x y w h v old new \<longleftrightarrow>
     (\<forall>i<w. \<forall>j<h. new (screen_pos g (x + i) (y + j)) = v (j * w + i)) \<and>
     (\<forall>q. (\<forall>i<w. \<forall>j<h. q \<noteq> screen_pos g (x + i) (y + j)) \<longrightarrow> new q = old q)"

lemma drawn_shows:
  assumes wf: "handle_wf g" and fits: "x + w \<le> unat (scr_width g)" "y + h \<le> unat (scr_height g)"
    and vs: "length vs = w * h"
    and pos: "\<And>i j. i < w \<Longrightarrow> j < h \<Longrightarrow> pos i j = screen_pos g (x + i) (y + j)"
  shows "shows_rect g x y w h (\<lambda>k. vs ! k) gl (drawn pos w vs gl)"
proof -
  have inj: "i = i' \<and> j = j'" if "i < w" "i' < w" "j < h" "j' < h" "pos i j = pos i' j'" for i j i' j'
    using screen_pos_inj [OF wf, of "x + i" "y + j" "x + i'" "y + j'"] that fits pos by auto
  have "drawn pos w vs gl (screen_pos g (x + i) (y + j)) = vs ! (j * w + i)" if "i < w" "j < h" for i j
  proof -
    have "j * w + i < length vs"
      using that vs mult_le_mono1 [of "Suc j" h w] by (simp add: mult.commute)
    then have "drawn pos w vs gl (pos ((j * w + i) mod w) ((j * w + i) div w)) = vs ! (j * w + i)"
      by (intro drawn_at(1) [where h = h] inj) (simp_all only: vs le_refl)
    then show ?thesis using that pos [OF that] by simp
  qed
  moreover have "drawn pos w vs gl q = gl q" if "\<forall>i<w. \<forall>j<h. q \<noteq> screen_pos g (x + i) (y + j)" for q
    by (rule drawn_at(2) [where h = h, OF inj]) (use that pos vs in \<open>simp_all only: le_refl, blast+\<close>)
  ultimately show ?thesis by (simp add: shows_rect_def)
qed

lemma window_place:
  fixes x y w h :: u16 and p :: panel
  assumes wf: "handle_wf g" and fits: "0 < unat w" "0 < unat h"
      "unat x + unat w \<le> unat (scr_width g)" "unat y + unat h \<le> unat (scr_height g)"
  defines "p' \<equiv> panel_after p (map wire_of (window_writes
      (scr_utility_apply_offset g ST7789_RESOLUTION_HOR ST7789_RESOLUTION_VER (x, y, x + w - 1, y + h - 1))))"
  shows "in_window (fst (origin g) + unat x) (snd (origin g) + unat y) (unat w) (unat h) p'"
    "p_col p' = fst (origin g) + unat x" "p_row p' = snd (origin g) + unat y"
    "p_cmd p' = 0x2C" "p_half p' = None" "p_madctl p' = p_madctl p" "p_glass p' = p_glass p"
proof -
  obtain xo yo where o: "scr_offsets g ST7789_RESOLUTION_HOR ST7789_RESOLUTION_VER = (xo, yo)" by fastforce
  have lim: "unat xo + unat (scr_width g) \<le> 320" "unat yo + unat (scr_height g) \<le> 320"
    using origin_fits [OF wf] by (simp_all add: origin_def o)
  have e: "unat (x + w - 1) = unat x + unat w - 1" "unat (y + h - 1) = unat y + unat h - 1"
    using span_end fits by blast+
  have add: "unat (a + b) = unat a + unat b" if "unat a + unat b \<le> 320" for a b :: u16
    using unat_add_lem [of a b] that by simp
  have "unat (x + xo) = unat x + unat xo" "unat (y + yo) = unat y + unat yo"
      "unat (x + w - 1 + xo) = unat x + unat w - 1 + unat xo" "unat (y + h - 1 + yo) = unat y + unat h - 1 + unat yo"
    using fits lim e by (auto intro!: add [THEN trans])
  then show "in_window (fst (origin g) + unat x) (snd (origin g) + unat y) (unat w) (unat h) p'"
    "p_col p' = fst (origin g) + unat x" "p_row p' = snd (origin g) + unat y"
    "p_cmd p' = 0x2C" "p_half p' = None" "p_madctl p' = p_madctl p" "p_glass p' = p_glass p"
    using window_opened [where ?p = p and ?x0.0 = "x + xo" and ?y0.0 = "y + yo" and ?x1.0 = "x + w - 1 + xo" and ?y1.0 = "y + h - 1 + yo"] fits
    by (simp_all add: p'_def scr_utility_apply_offset_def o origin_def in_window_def)
qed

lemma byte_widened [simp]: "ucast (ucast b :: u16) = b" for b :: u8
  by (rule bit_word_eqI) (simp add: bit_simps)

text \<open>Pins that do not disturb the interface.\<close>

definition pin_quiet :: "('s \<Rightarrow> bool) \<Rightarrow> ('s \<Rightarrow> (bool \<times> u8) list) \<Rightarrow> 's pin_env \<Rightarrow> int \<Rightarrow> bool" where
  "pin_quiet up sent env pin \<longleftrightarrow> (\<forall>s n t. up s \<longrightarrow>
     up (pin_output env pin s) \<and> sent (pin_output env pin s) = sent s \<and>
     up (pin_level env pin n s) \<and> sent (pin_level env pin n s) = sent s \<and>
     up (task_delay env t s) \<and> sent (task_delay env t s) = sent s)"

lemma reset_pulse_quiet:
  "pin_quiet up sent env (pin_num_rst conf) \<Longrightarrow> up s \<Longrightarrow> up (reset_pulse env conf s) \<and> sent (reset_pulse env conf s) = sent s"
  by (simp add: reset_pulse_def pin_quiet_def)

lemma backlight_quiet:
  "pin_quiet up sent env (pin_num_bckl conf) \<Longrightarrow> up s \<Longrightarrow> up (backlight_on env conf s) \<and> sent (backlight_on env conf s) = sent s"
  by (simp add: backlight_on_def pin_quiet_def)

text \<open>A configuration whose visible part lies on the panel, and the direction asked for.\<close>

definition conf_fits :: "'s scr_controller_config_t \<Rightarrow> bool" where
  "conf_fits conf \<longleftrightarrow> unat (conf_offset_hor conf) + unat (conf_width conf) \<le> 240 \<and>
     unat (conf_offset_ver conf) + unat (conf_height conf) \<le> 320 \<and> apply_offset_dir (rotate conf) < 8"

text \<open>A screen in use: the handle is sound and the panel has the order of memory of its direction.\<close>

definition screen_on :: "'s scr_interface_driver \<Rightarrow> ('s \<Rightarrow> bool) \<Rightarrow> ('s \<Rightarrow> (bool \<times> u8) list) \<Rightarrow> panel \<Rightarrow> 's scr_handle_t \<Rightarrow> 's \<Rightarrow> bool" where
  "screen_on drv ready sent p g s \<longleftrightarrow> ready s \<and> interface_drv g = Some drv \<and> handle_wf g \<and>
     p_madctl (panel_after p (sent s)) = rotation_reg (scr_dir g)"

definition rect_fits :: "'s scr_handle_t \<Rightarrow> u16 \<Rightarrow> u16 \<Rightarrow> u16 \<Rightarrow> u16 \<Rightarrow> bool" where
  "rect_fits g x y w h \<longleftrightarrow> 0 < unat w \<and> 0 < unat h \<and>
     unat x + unat w \<le> unat (scr_width g) \<and> unat y + unat h \<le> unat (scr_height g)"

context screen_iface
begin

lemma one_sent:
  assumes "ready s"
  shows "\<exists>s'. lcd_write1 drv c s = (ESP_OK, s') \<and> ready s' \<and> sent s' = sent s @ [wire_of c]"
  using cmd [OF ready_up [OF assms]] data [OF assms] by (cases c) (auto simp: lcd_write1_def)

lemma writes_sent:
  assumes "ready s"
  shows "\<exists>s'. lcd_writes drv cs ESP_OK s = (ESP_OK, s') \<and> ready s' \<and> sent s' = sent s @ map wire_of cs"
  using assms
proof (induction cs arbitrary: s)
  case (Cons c cs)
  obtain s1 where s1: "lcd_write1 drv c s = (ESP_OK, s1)" "ready s1" "sent s1 = sent s @ [wire_of c]"
    using one_sent [OF Cons.prems] by blast
  then show ?case using Cons.IH [OF s1(2)] by (auto simp: ESP_OK_def)
qed simp

lemma command_first_sent:
  assumes "up s"
  shows "\<exists>s'. lcd_writes drv (Cmd c # cs) ESP_OK s = (ESP_OK, s') \<and> ready s' \<and> sent s' = sent s @ map wire_of (Cmd c # cs)"
proof -
  obtain s1 where s1: "write_cmd drv c s = (ESP_OK, s1)" "ready s1" "sent s1 = sent s @ [(False, ucast c)]"
    using cmd [OF assms] by blast
  then show ?thesis using writes_sent [OF s1(2), of cs] by (auto simp: lcd_write1_def ESP_OK_def)
qed

lemma window_sent:
  assumes "up s" "interface_drv g = Some drv" "x1 < scr_width g" "y1 < scr_height g" "x0 \<le> x1" "y0 \<le> y1"
  shows "\<exists>s'. lcd_st7789_set_window x0 y0 x1 y1 g s = Some (ESP_OK, s') \<and> ready s' \<and>
    sent s' = sent s @ map wire_of (window_writes
      (scr_utility_apply_offset g ST7789_RESOLUTION_HOR ST7789_RESOLUTION_VER (x0, y0, x1, y1)))"
proof -
  obtain cs where cs: "window_writes (scr_utility_apply_offset g ST7789_RESOLUTION_HOR ST7789_RESOLUTION_VER (x0, y0, x1, y1)) =
      Cmd LCD_CASET # cs"
    by (simp add: window_writes_def case_prod_beta)
  show ?thesis
    using command_first_sent [OF assms(1), of LCD_CASET cs] assms(2-) by (auto simp: lcd_st7789_set_window_def cs)
qed

lemma bitmap_drawn:
  assumes "up s" "interface_drv g = Some drv" and wf: "handle_wf g"
    and mad: "p_madctl (panel_after p (sent s)) = rotation_reg (scr_dir g)"
    and fits: "0 < unat w" "0 < unat h" "unat x + unat w \<le> unat (scr_width g)" "unat y + unat h \<le> unat (scr_height g)"
    and d: "2 * (unat w * unat h) \<le> length d"
  shows "\<exists>s'. lcd_st7789_draw_bitmap x y w h (Some d) g s = Some (ESP_OK, Some d, s') \<and> ready s' \<and>
    p_madctl (panel_after p (sent s')) = rotation_reg (scr_dir g) \<and>
    shows_rect g (unat x) (unat y) (unat w) (unat h) (shown swaps d)
      (p_glass (panel_after p (sent s))) (p_glass (panel_after p (sent s')))"
proof -
  let ?m = "unat w * unat h" and ?p = "panel_after p (sent s)"
  let ?ws = "map wire_of (window_writes
      (scr_utility_apply_offset g ST7789_RESOLUTION_HOR ST7789_RESOLUTION_VER (x, y, x + w - 1, y + h - 1)))"
  let ?bs = "if swaps then swapped (2 * ?m div 2) (take (2 * ?m) d) else take (2 * ?m) d"
  let ?vs = "map (shown swaps d) [0 ..< ?m]"
  have "up (snd (bus_acquire drv s))" "sent (snd (bus_acquire drv s)) = sent s" using acquire [OF assms(1)] by simp_all
  moreover have ok: "x + w - 1 < scr_width g \<and> x \<le> x + w - 1" "y + h - 1 < scr_height g \<and> y \<le> y + h - 1"
    using span_fits fits by blast+
  ultimately obtain s1 where s1: "lcd_st7789_set_window x y (x + w - 1) (y + h - 1) g (snd (bus_acquire drv s)) = Some (ESP_OK, s1)"
      "ready s1" "sent s1 = sent s @ ?ws"
    using window_sent [of "snd (bus_acquire drv s)" g "x + w - 1" "y + h - 1" x y] assms(2) by auto
  obtain s2 where s2: "if_write drv d (2 * ?m) s1 = Some (ESP_OK, d, s2)" "ready s2" "sent s2 = sent s1 @ map (Pair True) ?bs"
    using block [OF s1(2), of "2 * ?m" d] d fits by auto
  note place = window_place [OF wf fits, of ?p]
  have bs: "even (length ?bs)" "pixels_of ?bs = ?vs" using pixels_of_block [OF d] d by auto
  have p2: "panel_after p (sent s2) = fold paint ?vs (panel_after ?p ?ws)"
    using bytes_paint [OF bs(1) place(4,5)] s1(3) s2(3) bs(2) by simp
  have "p_glass (panel_after p (sent s2)) = drawn (\<lambda>i j. glass_pos (rotation_reg (scr_dir g))
      (fst (origin g) + unat x + i, snd (origin g) + unat y + j)) (unat w) ?vs (p_glass ?p)"
    unfolding p2 using window_painted [OF place(1-3), of ?vs] place(6,7) mad by simp
  moreover have "glass_pos (rotation_reg (scr_dir g)) (fst (origin g) + unat x + i, snd (origin g) + unat y + j) =
      screen_pos g (unat x + i) (unat y + j)" if "i < unat w" "j < unat h" for i j
    using glass_pos_screen [OF wf, of "unat x + i" "unat y + j"] that fits by (simp add: add.assoc)
  ultimately have "shows_rect g (unat x) (unat y) (unat w) (unat h) (\<lambda>k. ?vs ! k) (p_glass ?p) (p_glass (panel_after p (sent s2)))"
    using drawn_shows [OF wf fits(3,4), of ?vs] by simp
  moreover have "j * unat w + i < ?m" if "i < unat w" "j < unat h" for i j
    using that mult_le_mono1 [of "Suc j" "unat h" "unat w"] by (simp add: mult.commute)
  ultimately have "shows_rect g (unat x) (unat y) (unat w) (unat h) (shown swaps d) (p_glass ?p) (p_glass (panel_after p (sent s2)))"
    by (simp add: shows_rect_def)
  moreover have "p_madctl (panel_after p (sent s2)) = rotation_reg (scr_dir g)" unfolding p2 using place(6) mad by simp
  ultimately show ?thesis
    using s1(1) s2(1) release [OF s2(2)] assms(2) by (simp add: lcd_st7789_draw_bitmap_def Let_def)
qed

lemma rotation_set:
  assumes "up s" "interface_drv g = Some drv" and d: "apply_offset_dir dir < 8"
  shows "\<exists>g' s'. lcd_st7789_set_rotation dir g s = Some (ESP_OK, g', s') \<and> ready s' \<and>
    g' = g\<lparr>scr_dir := apply_offset_dir dir, scr_width := scr_width g', scr_height := scr_height g'\<rparr> \<and>
    (scr_width g', scr_height g') = (if apply_offset_dir dir < 4 then (original_width g, original_height g)
       else (original_height g, original_width g)) \<and>
    p_madctl (panel_after p (sent s')) = rotation_reg (apply_offset_dir dir) \<and>
    p_glass (panel_after p (sent s')) = p_glass (panel_after p (sent s))"
proof -
  let ?r = "rotation_reg (apply_offset_dir dir)"
  obtain s' where s': "lcd_writes drv [Cmd LCD_MADCTL, Data (ucast ?r)] ESP_OK s = (ESP_OK, s')" "ready s'"
      "sent s' = sent s @ [(False, 0x36), (True, ?r)]"
    using command_first_sent [OF assms(1), of LCD_MADCTL "[Data (ucast ?r)]"] by (auto simp: LCD_MADCTL_def)
  then have "p_madctl (panel_after p (sent s')) = ?r \<and> p_glass (panel_after p (sent s')) = p_glass (panel_after p (sent s))"
    using rotation_sent [of "panel_after p (sent s)" ?r] by simp
  then show ?thesis
    using s' assms(2) d
    by (cases g) (auto simp: lcd_st7789_set_rotation_def LCD_WRITE_REG_def Let_def apply_offset_dir_def ESP_OK_def)
qed

lemma panel_initialised:
  assumes "up s" "conf_drv conf = Some drv" and fits: "conf_fits conf"
    and quiet: "pin_quiet up sent env (pin_num_rst conf)" "pin_quiet up sent env (pin_num_bckl conf)"
  shows "\<exists>g' s'. lcd_st7789_init env (Some conf) g s = Some (ESP_OK, g', s') \<and> ready s' \<and> handle_wf g' \<and>
    interface_drv g' = Some drv \<and> scr_dir g' = apply_offset_dir (rotate conf) \<and>
    original_width g' = conf_width conf \<and> original_height g' = conf_height conf \<and>
    offset_hor g' = conf_offset_hor conf \<and> offset_ver g' = conf_offset_ver conf \<and>
    p_madctl (panel_after p (sent s')) = rotation_reg (scr_dir g') \<and>
    p_glass (panel_after p (sent s')) = p_glass (panel_after p (sent s))"
proof -
  define g1 where "g1 = g\<lparr>interface_drv := Some drv, original_width := conf_width conf, original_height := conf_height conf,
    offset_hor := conf_offset_hor conf, offset_ver := conf_offset_ver conf\<rparr>"
  define s1 where "s1 = reset_pulse env conf s"
  have s1: "up s1" "sent s1 = sent s" using reset_pulse_quiet [OF quiet(1) assms(1)] by (simp_all add: s1_def)
  obtain s2 where s2: "lcd_writes drv init_reg_writes ESP_OK s1 = (ESP_OK, s2)" "ready s2" "sent s2 = sent s1 @ map wire_of init_reg_writes"
    using command_first_sent [OF s1(1), of "0x3A" "tl init_reg_writes"] by (auto simp: init_reg_writes_def)
  define s3 where "s3 = backlight_on env conf s2"
  have s3: "up s3" "sent s3 = sent s @ map wire_of init_reg_writes"
    using backlight_quiet [OF quiet(2) ready_up [OF s2(2)]] s2(3) s1(2) by (simp_all add: s3_def)
  obtain g' s4 where s4: "lcd_st7789_set_rotation (rotate conf) g1 s3 = Some (ESP_OK, g', s4)" "ready s4"
      "g' = g1\<lparr>scr_dir := apply_offset_dir (rotate conf), scr_width := scr_width g', scr_height := scr_height g'\<rparr>"
      "(scr_width g', scr_height g') = (if apply_offset_dir (rotate conf) < 4 then (original_width g1, original_height g1)
         else (original_height g1, original_width g1))"
      "p_madctl (panel_after p (sent s4)) = rotation_reg (apply_offset_dir (rotate conf))"
      "p_glass (panel_after p (sent s4)) = p_glass (panel_after p (sent s3))"
    using rotation_set [OF s3(1), of g1 "rotate conf" p] fits by (auto simp: g1_def conf_fits_def)
  obtain s5 where s5: "write_cmd drv LCD_INVON s4 = (ESP_OK, s5)" "ready s5" "sent s5 = sent s4 @ [(False, 0x21)]"
    using cmd [OF ready_up [OF s4(2)], of LCD_INVON] by (auto simp: LCD_INVON_def)
  have f: "interface_drv g' = Some drv" "scr_dir g' = apply_offset_dir (rotate conf)" "original_width g' = conf_width conf"
      "original_height g' = conf_height conf" "offset_hor g' = conf_offset_hor conf" "offset_ver g' = conf_offset_ver conf"
    by (subst s4(3), simp add: g1_def)+
  have "conf_width conf \<le> 240" "conf_height conf \<le> 320" using fits by (simp_all add: conf_fits_def word_le_nat_alt)
  then have "lcd_st7789_init env (Some conf) g s = Some (ESP_OK, g', s5)"
    using assms(2) s2(1) s4(1) s5(1) f(1)
    by (simp add: lcd_st7789_init_def Let_def st7789_resolution lcd_st7789_init_reg_def lcd_st7789_set_invert_def
        flip: g1_def s1_def s3_def)
  moreover have "handle_wf g'" using fits f s4(4) by (auto simp: handle_wf_def conf_fits_def g1_def)
  moreover have "p_madctl (panel_after p (sent s5)) = rotation_reg (scr_dir g') \<and>
      p_glass (panel_after p (sent s5)) = p_glass (panel_after p (sent s))"
    using s4(5,6) s5(3) s3(2) init_writes_keep [of "panel_after p (sent s)"] f(2) by (simp add: feed_def)
  ultimately show ?thesis using f s5(2) by blast
qed

lemma draw_on_screen:
  assumes "screen_on drv ready sent p g s" "rect_fits g x y w h" "2 * (unat w * unat h) \<le> length d"
  shows "\<exists>s'. lcd_st7789_draw_bitmap x y w h (Some d) g s = Some (ESP_OK, Some d, s') \<and> screen_on drv ready sent p g s' \<and>
    shows_rect g (unat x) (unat y) (unat w) (unat h) (shown swaps d)
      (p_glass (panel_after p (sent s))) (p_glass (panel_after p (sent s')))"
  using bitmap_drawn [of s g p w h x y d] assms ready_up by (auto simp: screen_on_def rect_fits_def)

lemma init_turns_on:
  assumes "up s" "conf_drv conf = Some drv" "conf_fits conf"
    "pin_quiet up sent env (pin_num_rst conf)" "pin_quiet up sent env (pin_num_bckl conf)"
  shows "\<exists>g' s'. lcd_st7789_init env (Some conf) g s = Some (ESP_OK, g', s') \<and> screen_on drv ready sent p g' s' \<and>
    scr_dir g' = apply_offset_dir (rotate conf) \<and> original_width g' = conf_width conf \<and> original_height g' = conf_height conf \<and>
    offset_hor g' = conf_offset_hor conf \<and> offset_ver g' = conf_offset_ver conf \<and>
    p_glass (panel_after p (sent s')) = p_glass (panel_after p (sent s))"
  using panel_initialised [OF assms, of g p] by (auto simp: screen_on_def)

end

section \<open>Drawing over the SPI bus\<close>

text \<open>The driver of the panel on the SPI interface, over a controller with the kernel's mutex.\<close>

abbreviation spi_drv :: "(nat \<Rightarrow> nat list \<Rightarrow> nat list) \<Rightarrow> nat \<Rightarrow> sem_env list \<Rightarrow> int \<Rightarrow> nat \<Rightarrow> bool \<Rightarrow> spi_port spi_world scr_interface_driver" where
  "spi_drv place me es dc a sw \<equiv> iface_driver (port_iface place me es dc) (Iface_SPI \<lparr>spi_wr_dev = Some a, pin_num_dc = dc, swap_data = sw\<rparr>)"

abbreviation spi_sent :: "spi_port spi_world \<Rightarrow> (bool \<times> u8) list" where
  "spi_sent w \<equiv> port_wire (spi_hw w)"

text \<open>The other pins of that controller.\<close>

definition port_pins :: "int \<Rightarrow> spi_port spi_world pin_env" where
  "port_pins dc = \<lparr>pin_output = (\<lambda>_ w. w),
     pin_level = (\<lambda>pin n w. if pin = dc then on_hw (\<lambda>h. h\<lparr>port_level := n \<noteq> 0\<rparr>) w else w), task_delay = (\<lambda>_ w. w)\<rparr>"

lemma port_pins_quiet: "pin \<noteq> dc \<Longrightarrow> pin_quiet up sent (port_pins dc) pin"
  by (simp add: pin_quiet_def port_pins_def)

text \<open>
  C4: From pixels to the glass. On a panel with any position and size of the visible part, and any of
  the eight directions, the initialisation over the SPI bus succeeds and leaves the picture as it is.
  From then on every bitmap whose rectangle is not empty and lies on the screen is drawn: the bitmap
  in memory is unchanged afterwards, each of its pixels is at the place on the glass that the
  direction prescribes for its column and line (with its bytes exchanged unless the interface was
  asked to swap them), everything else on the glass is as before, and the screen can be drawn on
  again.
\<close>

theorem bitmap_shown_on_glass:
  fixes p :: panel
  assumes "world_up a dv port_ready w" "conf_drv conf = Some (spi_drv place me es dc a sw)" "conf_fits conf"
    and "pin_num_rst conf \<noteq> dc" "pin_num_bckl conf \<noteq> dc"
  defines "on \<equiv> screen_on (spi_drv place me es dc a sw) (world_ready a dv port_ready port_level) spi_sent p"
    and "glass \<equiv> \<lambda>w. p_glass (panel_after p (spi_sent w))"
  shows "\<exists>g' w1. lcd_st7789_init (port_pins dc) (Some conf) g w = Some (ESP_OK, g', w1) \<and> on g' w1 \<and> glass w1 = glass w \<and>
    scr_dir g' = apply_offset_dir (rotate conf) \<and> original_width g' = conf_width conf \<and> original_height g' = conf_height conf \<and>
    offset_hor g' = conf_offset_hor conf \<and> offset_ver g' = conf_offset_ver conf \<and>
    (\<forall>w2 x y wd ht d. on g' w2 \<and> 0 < unat wd \<and> 0 < unat ht \<and> unat x + unat wd \<le> unat (scr_width g') \<and>
       unat y + unat ht \<le> unat (scr_height g') \<and> 2 * (unat wd * unat ht) \<le> length d \<longrightarrow>
       (\<exists>w3. lcd_st7789_draw_bitmap x y wd ht (Some d) g' w2 = Some (ESP_OK, Some d, w3) \<and> on g' w3 \<and>
         (\<forall>i < unat wd. \<forall>j < unat ht. glass w3 (screen_pos g' (unat x + i) (unat y + j)) =
            (let t = half_at d (j * unat wd + i) in if sw then t else drop_bit 8 t OR push_bit 8 t)) \<and>
         (\<forall>q. (\<forall>i < unat wd. \<forall>j < unat ht. q \<noteq> screen_pos g' (unat x + i) (unat y + j)) \<longrightarrow> glass w3 q = glass w2 q)))"
proof -
  have exch: "shown sw d k = (let t = half_at d k in if sw then t else drop_bit 8 t OR push_bit 8 t)" for d k
    by (rule bit_word_eqI) (auto simp: shown_def half_at_def pixel_word_def bit_simps Let_def dest: bit_imp_le_length)
  show ?thesis
    unfolding on_def glass_def exch [symmetric]
    using port_screen.screen.init_turns_on [OF assms(1,2,3) port_pins_quiet [OF assms(4)] port_pins_quiet [OF assms(5)], of g p]
      port_screen.screen.draw_on_screen [of place me es dc a sw dv p]
    unfolding rect_fits_def shows_rect_def by (auto simp: Let_def)
qed

text \<open>A device at address 0, and a panel whose visible part is the lower 240 lines, read from the bottom left.\<close>

definition demo_world :: "spi_port spi_world" where
  "demo_world = \<lparr>s_spi_bus = [zero_bus, zero_bus], spi_devs = [0 \<mapsto> demo_device], spi_hw = demo_port\<rparr>"

abbreviation demo_drv :: "spi_port spi_world scr_interface_driver" where
  "demo_drv \<equiv> spi_drv (\<lambda>_ ws. ws) 3 [] 43 0 True"

definition demo_conf :: "spi_port spi_world scr_controller_config_t" where
  "demo_conf = \<lparr>conf_drv = Some demo_drv, pin_num_rst = -1, pin_num_bckl = 48, rst_active_level = 0,
     bckl_active_level = 0, conf_width = 240, conf_height = 240, conf_offset_hor = 0, conf_offset_ver = 80, rotate = 5\<rparr>"

definition blank_panel :: panel where
  "blank_panel = \<lparr>p_cmd = 0, p_args = [], p_xs = 0, p_xe = 0, p_ys = 0, p_ye = 0, p_col = 0, p_row = 0, p_half = None,
     p_madctl = 0, p_glass = (\<lambda>_. 0)\<rparr>"

definition blank_handle :: "'s scr_handle_t" where
  "blank_handle = snd (lcd_st7789_deinit undefined)"

theorem bitmap_shown_on_glass_witness:
  "\<exists>g w1 w2. lcd_st7789_init (port_pins 43) (Some demo_conf) blank_handle demo_world = Some (ESP_OK, g, w1) \<and>
    lcd_st7789_draw_bitmap 10 20 2 1 (Some [0x34, 0x12, 0x78, 0x56]) g w1 = Some (ESP_OK, Some [0x34, 0x12, 0x78, 0x56], w2) \<and>
    p_glass (panel_after blank_panel (spi_sent w2)) (20, 309) = 0x1234 \<and>
    p_glass (panel_after blank_panel (spi_sent w2)) (20, 308) = 0x5678"
proof -
  have demo: "world_up 0 demo_device port_ready demo_world" "conf_drv demo_conf = Some demo_drv" "conf_fits demo_conf"
      "pin_num_rst demo_conf \<noteq> 43" "pin_num_bckl demo_conf \<noteq> 43"
    by (simp_all add: demo_world_def world_up_def demo_conf_def conf_fits_def apply_offset_dir_def SCR_DIR_MAX_def)
  have conf: "apply_offset_dir (rotate demo_conf) = 5" "conf_width demo_conf = 240" "conf_height demo_conf = 240"
      "conf_offset_hor demo_conf = 0" "conf_offset_ver demo_conf = 80"
    by (simp_all add: demo_conf_def apply_offset_dir_def SCR_DIR_MAX_def)
  note shown = bitmap_shown_on_glass [OF demo, where p = blank_panel and g = blank_handle, unfolded conf Let_def if_True]
  from shown show ?thesis
  proof (elim exE conjE, goal_cases)
    case (1 g w1)
    note g = 1(1-8) and draw = 1(9) [rule_format, OF conjI]
    have size: "scr_width g = 240" "scr_height g = 240" using g by (simp_all add: screen_on_def handle_wf_def)
    obtain w2 where w2: "lcd_st7789_draw_bitmap 10 20 2 1 (Some [0x34, 0x12, 0x78, 0x56]) g w1 = Some (ESP_OK, Some [0x34, 0x12, 0x78, 0x56], w2)"
        "\<forall>i<2. p_glass (panel_after blank_panel (spi_sent w2)) (screen_pos g (10 + i) 20) = half_at [0x34, 0x12, 0x78, 0x56] i"
      using draw [of w1 2 1 10 20 "[0x34, 0x12, 0x78, 0x56]"] g(2) size by auto
    have "screen_pos g (10 + 0) 20 = (20, 309)" "screen_pos g (10 + 1) 20 = (20, 308)" using g by (simp_all add: screen_pos_def)
    moreover have "half_at [0x34, 0x12, 0x78, 0x56] 0 = 0x1234" "half_at [0x34, 0x12, 0x78, 0x56] 1 = 0x5678"
      by (simp_all add: half_at_def)
    ultimately show ?case using g(1) w2(1) w2(2) [rule_format, of 0] w2(2) [rule_format, of 1] by auto
  qed
qed

text \<open>The results of the writes of a sequence, whatever the interface does; they are joined without losing
  one, so that a window is reported as set exactly when each of its eleven writes succeeded.\<close>

fun write_results :: "'s scr_interface_driver \<Rightarrow> lcd_write list \<Rightarrow> 's \<Rightarrow> esp_err_t list" where
  "write_results drv [] s = []"
| "write_results drv (c # cs) s = (case lcd_write1 drv c s of (r, s) \<Rightarrow> r # write_results drv cs s)"

lemma lcd_writes_ok:
  "fst (lcd_writes drv cs ret s) = ESP_OK \<longleftrightarrow> ret = ESP_OK \<and> (\<forall>r\<in>set (write_results drv cs s). r = ESP_OK)"
  by (induction cs arbitrary: ret s) (auto simp: ESP_OK_def or_eq_0_iff split: prod.split)

lemma window_failure_reported:
  assumes "interface_drv g = Some drv" "x1 < scr_width g" "y1 < scr_height g" "x0 \<le> x1" "y0 \<le> y1"
  shows "(\<exists>s'. lcd_st7789_set_window x0 y0 x1 y1 g s = Some (ESP_OK, s')) \<longleftrightarrow>
    (\<forall>r\<in>set (write_results drv (window_writes
       (scr_utility_apply_offset g ST7789_RESOLUTION_HOR ST7789_RESOLUTION_VER (x0, y0, x1, y1))) s). r = ESP_OK)"
  using assms lcd_writes_ok [of drv "window_writes
      (scr_utility_apply_offset g ST7789_RESOLUTION_HOR ST7789_RESOLUTION_VER (x0, y0, x1, y1))" ESP_OK s]
  by (auto simp: lcd_st7789_set_window_def esp_err_defs split: prod.splits)

text \<open>
  C27: Rectangles that do not fit. Although the corner \<^verbatim>\<open>x + w - 1\<close> is computed in 16 bits and may wrap
  around, a bitmap that is empty or does not lie on the screen is refused, whatever the interface
  driver does: the call returns \<^verbatim>\<open>ESP_FAIL\<close>, the bitmap is not touched and nothing is sent. The only
  thing done is that the bus is acquired, and it is not released. A pixel outside the screen is refused in
  the same way, with nothing done at all.
\<close>

theorem misfit_refused:
  assumes "interface_drv g = Some drv"
    and "\<not> (0 < unat w \<and> 0 < unat h \<and> unat x + unat w \<le> unat (scr_width g) \<and> unat y + unat h \<le> unat (scr_height g))"
  shows "lcd_st7789_draw_bitmap x y w h (Some d) g s = Some (ESP_FAIL, Some d, snd (bus_acquire drv s)) \<and>
    (\<not> (px < scr_width g \<and> py < scr_height g) \<longrightarrow> lcd_st7789_draw_pixel px py v g s = Some (ESP_FAIL, s))"
proof -
  have "\<not> ((x + w - 1 < scr_width g \<and> x \<le> x + w - 1) \<and> (y + h - 1 < scr_height g \<and> y \<le> y + h - 1))"
    unfolding span_fits using assms(2) by blast
  then have "lcd_st7789_set_window x y (x + w - 1) (y + h - 1) g s = Some (ESP_ERR_INVALID_ARG, s)" for s :: 'a
    by (auto simp: lcd_st7789_set_window_def)
  then show ?thesis
    using assms(1) by (simp add: lcd_st7789_draw_bitmap_def lcd_st7789_draw_pixel_def lcd_st7789_set_window_def esp_err_defs)
qed

theorem misfit_refused_witness:
  "lcd_st7789_draw_bitmap 65535 0 2 1 (Some [1, 2, 3, 4]) (blank_handle\<lparr>interface_drv := Some demo_drv, scr_width := 240, scr_height := 240\<rparr>) demo_world =
     Some (ESP_FAIL, Some [1, 2, 3, 4], demo_world)"
  using misfit_refused [where x = 65535 and y = 0 and w = 2 and h = 1 and d = "[1, 2, 3, 4]" and drv = demo_drv and s = demo_world
      and g = "blank_handle\<lparr>interface_drv := Some demo_drv, scr_width := 240, scr_height := 240\<rparr>"]
  by (simp add: iface_driver_def spi_lcd_driver_acquire_def)

end
