(* ===== verification/Floor_Screen.thy ===== *)
theory Floor_Screen
  imports St7789 Floor_Display
begin

text \<open>
  The display of the floor detection client on its panel: the part of \<^verbatim>\<open>register_lcd\<close> in \<^verbatim>\<open>esp_lcd.c\<close> that
  sets up the SPI bus, the interface and the ST7789, and the calls of \<^verbatim>\<open>draw_bitmap\<close> that the theory
  of the display collects, made on the driver of the panel. The composition shows that every pixel
  the display draws is on the glass.
\<close>

section \<open>Setting up the screen\<close>

definition floor_bus_conf :: spi_config_t where
  "floor_bus_conf = \<lparr>miso_io_num = -1, mosi_io_num = 47, sclk_io_num = 21, max_transfer_sz = 2 * 240 * 240 + 10\<rparr>"

definition floor_iface_conf :: "nat option \<Rightarrow> scr_interface_spi_config_t" where
  "floor_iface_conf spi_bus = \<lparr>cfg_spi_bus = spi_bus, pin_num_cs = 44, cfg_pin_num_dc = 43, clk_freq = 40 * 1000000, cfg_swap_data = False\<rparr>"

definition floor_lcd_conf :: "'s scr_interface_driver option \<Rightarrow> 's scr_controller_config_t" where
  "floor_lcd_conf drv = \<lparr>conf_drv = drv, pin_num_rst = -1, pin_num_bckl = 48, rst_active_level = 0, bckl_active_level = 0,
     conf_width = 240, conf_height = 240, conf_offset_hor = 0, conf_offset_ver = 0, rotate = 0\<rparr>"

text \<open>The steps from the bus to the controller, which both programs with a screen take, each with its own
  configurations and its own answer for a missing driver. The result of \<^verbatim>\<open>scr_interface_create\<close> is not looked at; when it
  fails, \<^verbatim>\<open>iface_drv\<close> is not set, and its use is \<open>None\<close>.\<close>

definition lcd_setup ::
    "spi_config_t \<Rightarrow> (nat option \<Rightarrow> scr_interface_spi_config_t) \<Rightarrow>
     ('h spi_world scr_interface_driver option \<Rightarrow> 'h spi_world scr_controller_config_t) \<Rightarrow> (esp_err_t \<Rightarrow> esp_err_t) \<Rightarrow>
     'h iface_env \<Rightarrow> 'h spi_world pin_env \<Rightarrow> 'h spi_world scr_driver_t \<Rightarrow> 'h spi_world scr_handle_t \<Rightarrow> 'h spi_world \<Rightarrow>
     (esp_err_t \<times> 'h spi_world scr_handle_t \<times> 'h spi_world) option" where
  "lcd_setup bconf iface_conf lcd_conf missing env pins ili9341 g w =
    (case spi_bus_create (ie_spi env) 1 bconf w of (spi_bus, w) \<Rightarrow>
     case scr_interface_create env None SCREEN_IFACE_SPI (Some (Config_SPI (iface_conf spi_bus))) True w of
       (Iface_fault, _) \<Rightarrow> None
     | (Iface_result _ iface, w) \<Rightarrow>
         (case scr_find_driver ili9341 pins SCREEN_CONTROLLER_ST7789 True of
            (ret, None) \<Rightarrow> Some (missing ret, g, w)
          | (ret, Some g_lcd) \<Rightarrow>
              Option.bind (drv_init g_lcd (Some (lcd_conf (map_option (iface_driver env) iface))) g w) (\<lambda>(ret, g, w).
                Some (if ret \<noteq> ESP_OK then ESP_FAIL else ESP_OK, g, w))))"

definition floor_screen_setup ::
    "'h iface_env \<Rightarrow> 'h spi_world pin_env \<Rightarrow> 'h spi_world scr_driver_t \<Rightarrow> 'h spi_world scr_handle_t \<Rightarrow> 'h spi_world \<Rightarrow>
     (esp_err_t \<times> 'h spi_world scr_handle_t \<times> 'h spi_world) option" where
  "floor_screen_setup = lcd_setup floor_bus_conf floor_iface_conf floor_lcd_conf (\<lambda>ret. ret)"

section \<open>Drawing\<close>

definition pixel_bytes :: "u16 list \<Rightarrow> u8 list" where
  "pixel_bytes px = concat (map (\<lambda>v. [ucast v, ucast (drop_bit 8 v)]) px)"

text \<open>A call, with its arguments converted to 16 bits; the display ignores the results.\<close>

fun draw_call :: "'s scr_handle_t \<Rightarrow> draw \<Rightarrow> 's \<Rightarrow> (esp_err_t \<times> 's) option" where
  "draw_call g (Draw x y w h px) s =
    map_option (\<lambda>(ret, _, s). (ret, s))
      (lcd_st7789_draw_bitmap (word_of_int x) (word_of_int y) (of_nat w) (of_nat h) (Some (pixel_bytes px)) g s)"

fun draw_calls :: "'s scr_handle_t \<Rightarrow> draw list \<Rightarrow> 's \<Rightarrow> (esp_err_t list \<times> 's) option" where
  "draw_calls g [] s = Some ([], s)"
| "draw_calls g (d # ds) s = Option.bind (draw_call g d s) (\<lambda>(ret, s).
     map_option (\<lambda>(rets, s). (ret # rets, s)) (draw_calls g ds s))"

text \<open>The specification: a picture of 240 x 240, by column and line, that each call paints a rectangle of.
  The interface does not exchange bytes, so the panel takes the low byte of a pixel for the high one.\<close>

definition exchanged :: "u16 \<Rightarrow> u16" where
  "exchanged v = drop_bit 8 v OR push_bit 8 v"

fun painted :: "draw \<Rightarrow> (nat \<times> nat \<Rightarrow> u16) \<Rightarrow> nat \<times> nat \<Rightarrow> u16" where
  "painted (Draw x y w h px) old (c, r) =
    (if nat x \<le> c \<and> c < nat x + w \<and> nat y \<le> r \<and> r < nat y + h then exchanged (px ! ((r - nat y) * w + (c - nat x))) else old (c, r))"

fun draw_ok :: "draw \<Rightarrow> bool" where
  "draw_ok (Draw x y w h px) \<longleftrightarrow> 0 \<le> x \<and> 0 \<le> y \<and> 0 < w \<and> 0 < h \<and> x + int w \<le> 240 \<and> y + int h \<le> 240 \<and> w * h \<le> length px"

lemma length_pixel_bytes [simp]: "length (pixel_bytes px) = 2 * length px"
  by (induction px) (simp_all add: pixel_bytes_def)

lemma pixel_bytes_shown: "k < length px \<Longrightarrow> shown False (pixel_bytes px) k = exchanged (px ! k)"
proof (induction px arbitrary: k)
  case (Cons v px)
  have split: "pixel_bytes (v # px) = ucast v # ucast (drop_bit 8 v) # pixel_bytes px" by (simp add: pixel_bytes_def)
  show ?case
  proof (cases k)
    case 0
    show ?thesis unfolding split 0 exchanged_def
      by (rule bit_word_eqI) (auto simp: shown_def pixel_word_def bit_simps dest: bit_imp_le_length)
  next
    case (Suc m)
    then show ?thesis using Cons unfolding split by (simp add: shown_def)
  qed
qed simp

text \<open>Upright screens of 240 x 240.\<close>

definition upright :: "'s scr_handle_t \<Rightarrow> bool" where
  "upright g \<longleftrightarrow> scr_dir g = 0 \<and> offset_hor g = 0 \<and> offset_ver g = 0 \<and> original_width g = 240 \<and> original_height g = 240"

lemma upright_pos: "upright g \<Longrightarrow> screen_pos g x y = (x, y)"
  by (simp add: upright_def screen_pos_def)

context screen_iface
begin

lemma call_painted:
  assumes "screen_on drv ready sent p g s" "upright g" "\<not> swaps" "draw_ok d"
  shows "\<exists>s'. draw_call g d s = Some (ESP_OK, s') \<and> screen_on drv ready sent p g s' \<and>
    p_glass (panel_after p (sent s')) = painted d (p_glass (panel_after p (sent s)))"
proof (cases d)
  case (Draw x y w h px)
  have size: "scr_width g = 240" "scr_height g = 240" using assms(1,2) by (auto simp: screen_on_def handle_wf_def upright_def)
  have ok: "0 \<le> x" "0 \<le> y" "0 < w" "0 < h" "x + int w \<le> 240" "y + int h \<le> 240" "w * h \<le> length px"
    using assms(4) by (simp_all add: Draw)
  have u: "unat (of_nat w :: u16) = w" "unat (of_nat h :: u16) = h" "unat (word_of_int x :: u16) = nat x" "unat (word_of_int y :: u16) = nat y"
    using ok by (simp_all add: unat_of_nat unsigned_of_int take_bit_eq_mod)
  have end_: "nat x + w \<le> 240" "nat y + h \<le> 240" using ok by linarith+
  obtain s' where s': "lcd_st7789_draw_bitmap (word_of_int x) (word_of_int y) (of_nat w) (of_nat h) (Some (pixel_bytes px)) g s =
        Some (ESP_OK, Some (pixel_bytes px), s')" "screen_on drv ready sent p g s'"
      "shows_rect g (nat x) (nat y) w h (shown False (pixel_bytes px)) (p_glass (panel_after p (sent s))) (p_glass (panel_after p (sent s')))"
    using draw_on_screen [OF assms(1), of "word_of_int x" "word_of_int y" "of_nat w" "of_nat h" "pixel_bytes px"] assms(3) ok end_
    by (auto simp: rect_fits_def u size)
  have "p_glass (panel_after p (sent s')) (c, r) = painted d (p_glass (panel_after p (sent s))) (c, r)" for c r
  proof (cases "nat x \<le> c \<and> c < nat x + w \<and> nat y \<le> r \<and> r < nat y + h")
    case True
    then have i: "c - nat x < w" "r - nat y < h" by auto
    then have k: "(r - nat y) * w + (c - nat x) < length px"
      using ok(7) mult_le_mono1 [of "Suc (r - nat y)" h w] by (simp add: mult.commute)
    have "p_glass (panel_after p (sent s')) (screen_pos g (nat x + (c - nat x)) (nat y + (r - nat y))) =
        shown False (pixel_bytes px) ((r - nat y) * w + (c - nat x))"
      using s'(3) i by (auto simp: shows_rect_def)
    then show ?thesis using True k by (simp add: upright_pos [OF assms(2)] Draw pixel_bytes_shown)
  next
    case False
    then have "(c, r) \<noteq> screen_pos g (nat x + i) (nat y + j)" if "i < w" "j < h" for i j
      using that by (auto simp: upright_pos [OF assms(2)])
    then show ?thesis using s'(3) False by (auto simp: shows_rect_def Draw)
  qed
  then show ?thesis using s' by (auto simp: Draw)
qed

lemma calls_painted:
  assumes "screen_on drv ready sent p g s" "upright g" "\<not> swaps" "\<forall>d\<in>set ds. draw_ok d"
  shows "\<exists>s'. draw_calls g ds s = Some (replicate (length ds) ESP_OK, s') \<and> screen_on drv ready sent p g s' \<and>
    p_glass (panel_after p (sent s')) = fold painted ds (p_glass (panel_after p (sent s)))"
  using assms(1,4)
proof (induction ds arbitrary: s)
  case (Cons d ds)
  obtain s1 where s1: "draw_call g d s = Some (ESP_OK, s1)" "screen_on drv ready sent p g s1"
      "p_glass (panel_after p (sent s1)) = painted d (p_glass (panel_after p (sent s)))"
    using call_painted [OF Cons.prems(1) assms(2,3)] Cons.prems(2) by fastforce
  then show ?case using Cons.IH [OF s1(2)] Cons.prems(2) by fastforce
qed simp

end

section \<open>What the display draws\<close>

text \<open>The display in use: responses to detections, and turns of its task with pictures of 192 x 192.\<close>

inductive display_step :: "lcd_env \<Rightarrow> lcd \<Rightarrow> lcd \<Rightarrow> bool" for env where
  respond: "RespondToDetection env place me waits now address behind percent st = Responded st' \<Longrightarrow> display_step env st st'"
| blocked: "RespondToDetection env place me waits now address behind percent st = Blocked st' \<Longrightarrow> display_step env st st'"
| turn: "lcd_queue st = Some q \<Longrightarrow> length picture = 192 * 192 \<Longrightarrow>
    lcd_turn place me waits now picture q st = Shown item behind st' \<Longrightarrow> display_step env st st'"
| wait: "lcd_queue st = Some q \<Longrightarrow> lcd_turn place me waits now picture q st = Waiting st' \<Longrightarrow> display_step env st st'"

definition draws_inside :: "lcd \<Rightarrow> bool" where
  "draws_inside st \<longleftrightarrow> (\<forall>d\<in>set (lcd_draws st). draw_ok d)"

lemma draws_inside_simps [simp]:
  "draws_inside (draws ds st) \<longleftrightarrow> draws_inside st \<and> (\<forall>d\<in>set ds. draw_ok d)"
  "draws_inside (st\<lparr>color_det := c\<rparr>) = draws_inside st" "draws_inside (st\<lparr>lcd_queue := q\<rparr>) = draws_inside st"
  "draws_inside (st\<lparr>strip_buf := b\<rparr>) = draws_inside st" "draws_inside (st\<lparr>total_frames := n\<rparr>) = draws_inside st"
  "draws_inside (st\<lparr>lcd_running := r\<rparr>) = draws_inside st" "draws_inside (st\<lparr>start_time := t\<rparr>) = draws_inside st"
  by (auto simp: draws_inside_def draws_def)

lemma fill_rect_keeps: "fb_gfx_fillRect x y w h color fb = Some fb' \<Longrightarrow> fb_width fb' = fb_width fb \<and> fb_height fb' = fb_height fb"
  by (auto simp: fb_gfx_fillRect_def Let_def)

lemma end_run_keeps: "end_run x y color v = Some v' \<Longrightarrow> fb_width (pv_fb v') = fb_width (pv_fb v) \<and> fb_height (pv_fb v') = fb_height (pv_fb v)"
  by (auto simp: end_run_def fb_gfx_drawFastHLine_def dest!: fill_rect_keeps split: if_splits)

lemma putc_col_keeps: "putc_col bs x y color v = Some v' \<Longrightarrow> fb_width (pv_fb v') = fb_width (pv_fb v) \<and> fb_height (pv_fb v') = fb_height (pv_fb v)"
  by (auto simp: putc_col_def dest!: end_run_keeps split: if_splits option.splits)

lemma putc_cols_keeps: "putc_cols bs n x y color v = Some v' \<Longrightarrow> fb_width (pv_fb v') = fb_width (pv_fb v) \<and> fb_height (pv_fb v') = fb_height (pv_fb v)"
  by (induction bs n x y color v rule: putc_cols.induct) (auto dest!: putc_col_keeps split: option.splits)

lemma putc_rows_keeps: "putc_rows bs n w x y color v = Some v' \<Longrightarrow> fb_width (pv_fb v') = fb_width (pv_fb v) \<and> fb_height (pv_fb v') = fb_height (pv_fb v)"
  by (induction bs n w x y color v rule: putc_rows.induct) (auto dest!: putc_cols_keeps end_run_keeps split: option.splits)

lemma putc_keeps: "fb_gfx_putc font x y color c fb = Some (n, fb') \<Longrightarrow> fb_width fb' = fb_width fb \<and> fb_height fb' = fb_height fb"
  by (auto simp: fb_gfx_putc_def Let_def dest!: putc_rows_keeps split: if_splits)

lemma print_keeps: "print_chars font x color cs xc yc fb = Some fb' \<Longrightarrow> fb_width fb' = fb_width fb \<and> fb_height fb' = fb_height fb"
  by (induction font x color cs xc yc fb rule: print_chars.induct)
     (auto simp: Let_def dest!: putc_keeps split: if_splits option.splits prod.splits)

lemma printf_keeps: "fb_gfx_printf font m x y color str fb = Some (n, fb', b) \<Longrightarrow> fb_width fb' = fb_width fb \<and> fb_height fb' = fb_height fb"
  by (auto simp: fb_gfx_printf_def fb_gfx_print_def Let_def dest!: print_keeps split: if_splits)

lemma show_frame_inside:
  assumes "draws_inside st" "length picture = 192 * 192" "show_frame now picture st = Inr st'"
  shows "draws_inside st'"
  using assms
  by (auto simp: show_frame_def Let_def strip_fb_def strip_pixels_def dest!: printf_keeps split: option.splits prod.splits)

definition lcd_env_240 :: "lcd_env \<Rightarrow> bool" where
  "lcd_env_240 env \<longleftrightarrow> le_width env = 240 \<and> le_height env = 240 \<and> length (le_logo env) = 240 * 240"

lemma register_inside:
  assumes "lcd_env_240 env" "draws_inside st"
  shows "draws_inside (snd (register_lcd_floor env now st))"
proof -
  have "draws_inside (app_lcd_draw_wallpaper env (app_lcd_set_color env 0 st))"
    using assms by (auto simp: app_lcd_draw_wallpaper_def app_lcd_set_color_def lcd_env_240_def)
  then show ?thesis using assms(2) by (auto simp: register_lcd_floor_def Let_def split: option.splits)
qed

lemma open_display_inside: "lcd_env_240 env \<Longrightarrow> draws_inside st \<Longrightarrow> draws_inside (open_display env now st)"
  using register_inside by (simp add: open_display_def Let_def)

lemma display_step_inside:
  assumes "display_step env st st'" "lcd_env_240 env" "draws_inside st"
  shows "draws_inside st'"
  using assms
proof (induction rule: display_step.induct)
  case (respond place me waits now address behind percent st st')
  then show ?case
    using open_display_inside [of env st now]
    by (auto simp: RespondToDetection_def Let_def app_lcd_color_for_detection_def split: option.splits prod.splits q_result.splits)
next
  case (blocked place me waits now address behind percent st st')
  then show ?case
    using open_display_inside [of env st now]
    by (auto simp: RespondToDetection_def Let_def app_lcd_color_for_detection_def split: option.splits prod.splits q_result.splits)
next
  case (turn st q picture place me waits now item behind st')
  then show ?case
    using show_frame_inside
    by (auto simp: lcd_turn_def split: prod.splits q_result.splits sum.splits dest!: show_frame_inside [rotated 2])
next
  case (wait st q place me waits now picture st')
  then show ?case by (auto simp: lcd_turn_def split: prod.splits q_result.splits sum.splits)
qed

lemma display_run_inside:
  "(display_step env)\<^sup>*\<^sup>* lcd_start st \<Longrightarrow> lcd_env_240 env \<Longrightarrow> draws_inside st"
  by (induction rule: rtranclp_induct) (auto simp: draws_inside_def lcd_start_def dest: display_step_inside [unfolded draws_inside_def])

section \<open>From the display to the glass\<close>

text \<open>The device that the setup adds on the controller of the theory of the bus.\<close>

definition lcd_device :: spi_device_t where
  "lcd_device = \<lparr>dev_spi = 0, dev_bus = 0,
     dev_conf = device_config_of \<lparr>cs_io_num = 44, dev_mode = 0, clock_speed_hz = 40000000\<rparr>, dev_mutex = 0\<rparr>"

abbreviation lcd_on :: "(nat \<Rightarrow> nat list \<Rightarrow> nat list) \<Rightarrow> nat \<Rightarrow> sem_env list \<Rightarrow> int \<Rightarrow> panel \<Rightarrow>
    spi_port spi_world scr_handle_t \<Rightarrow> spi_port spi_world \<Rightarrow> bool" where
  "lcd_on place me es dc p \<equiv>
    screen_on (spi_drv place me es dc 0 False) (world_ready 0 lcd_device port_ready port_level) spi_sent p"

lemma lcd_setup_on:
  fixes p :: panel
  assumes "port_ready (spi_hw w)"
    and iface_conf: "iface_conf (Some 0) = \<lparr>cfg_spi_bus = Some 0, pin_num_cs = 44, cfg_pin_num_dc = dc, clk_freq = 40000000, cfg_swap_data = False\<rparr>"
    and lcd_conf: "\<And>drv. lcd_conf drv = floor_lcd_conf drv"
    and dc: "gpio_valid_output dc" "dc \<noteq> -1" "dc \<noteq> 48"
  shows "\<exists>g' w1. lcd_setup bconf iface_conf lcd_conf missing (port_iface place me es dc) (port_pins dc) ili9341 g w = Some (ESP_OK, g', w1) \<and>
    lcd_on place me es dc p g' w1 \<and> upright g' \<and>
    p_glass (panel_after p (spi_sent w1)) = p_glass (panel_after p (spi_sent w))"
proof -
  let ?drv = "spi_drv place me es dc 0 False" and ?env = "port_iface place me es dc"
  define wb where "wb = w\<lparr>s_spi_bus := (s_spi_bus w)[0 := \<lparr>host_id = 1, is_init = True, bus_conf = bus_config_of bconf\<rparr>]\<rparr>"
  define w0 where "w0 = wb\<lparr>spi_devs := (spi_devs w)(0 \<mapsto> lcd_device)\<rparr>"
  have up: "world_up 0 lcd_device port_ready w0" and sent: "spi_sent w0 = spi_sent w"
    using assms by (simp_all add: w0_def wb_def world_up_def)
  have conf: "conf_drv (floor_lcd_conf (Some ?drv)) = Some ?drv" "conf_fits (floor_lcd_conf (Some ?drv))"
      "pin_num_rst (floor_lcd_conf (Some ?drv)) \<noteq> dc" "pin_num_bckl (floor_lcd_conf (Some ?drv)) \<noteq> dc"
    using dc by (simp_all add: floor_lcd_conf_def conf_fits_def apply_offset_dir_def SCR_DIR_MAX_def)
  obtain g' w1 where i: "lcd_st7789_init (port_pins dc) (Some (floor_lcd_conf (Some ?drv))) g w0 = Some (ESP_OK, g', w1)"
      "lcd_on place me es dc p g' w1" "upright g'"
      "p_glass (panel_after p (spi_sent w1)) = p_glass (panel_after p (spi_sent w))"
    using port_screen.screen.init_turns_on [OF up conf(1,2) port_pins_quiet [OF conf(3)] port_pins_quiet [OF conf(4)], of g p]
    by (auto simp: floor_lcd_conf_def upright_def sent apply_offset_dir_def SCR_DIR_MAX_def)
  have bus: "spi_bus_create (port_env 4092 place me es) 1 bconf w = (Some 0, wb)"
    by (simp add: spi_bus_create_def SPI1_HOST_def SPI3_HOST_def Let_def port_env_def wb_def)
  have iface: "scr_interface_create ?env None SCREEN_IFACE_SPI (Some (Config_SPI (iface_conf (Some 0)))) True wb =
      (Iface_result ESP_OK (Some (Iface_SPI \<lparr>spi_wr_dev = Some 0, pin_num_dc = dc, swap_data = False\<rparr>)), w0)"
    using dc(1)
    by (simp add: scr_interface_create_def port_iface_def iface_conf spi_lcd_driver_init_def gpio_valid_output_def
        on_hw_def spi_bus_device_create_def port_env_def Let_def w0_def wb_def lcd_device_def)
  have "lcd_setup bconf iface_conf lcd_conf missing ?env (port_pins dc) ili9341 g w = Some (ESP_OK, g', w1)"
    using bus iface i(1)
    by (simp add: lcd_setup_def port_iface_def scr_find_driver_def lcd_st7789_default_driver_def lcd_conf)
  then show ?thesis using i by blast
qed

lemma floor_screen_on:
  fixes p :: panel
  assumes "port_ready (spi_hw w)"
  shows "\<exists>g' w1. floor_screen_setup (port_iface place me es 43) (port_pins 43) ili9341 g w = Some (ESP_OK, g', w1) \<and>
    lcd_on place me es 43 p g' w1 \<and> upright g' \<and>
    p_glass (panel_after p (spi_sent w1)) = p_glass (panel_after p (spi_sent w))"
  unfolding floor_screen_setup_def
  by (rule lcd_setup_on [OF assms]) (simp_all add: floor_iface_conf_def gpio_valid_output_def)

text \<open>
  C5: The display on the panel. However the client responds to detections and its display task takes
  frames, with a screen of 240 x 240: setting up the bus, the interface and the panel over a free controller
  succeeds, the driver reports the size the display relies on, every bitmap the display has drawn is
  accepted, and the glass then shows exactly the picture that results from painting those
  rectangles, in the order of the calls, over what was there before.
\<close>

theorem display_reaches_panel:
  fixes p :: panel
  assumes "port_ready (spi_hw w)" "lcd_env_240 env" "(display_step env)\<^sup>*\<^sup>* lcd_start st"
  shows "\<exists>g' w1 w2. floor_screen_setup (port_iface place me es 43) (port_pins 43) ili9341 g w = Some (ESP_OK, g', w1) \<and>
    map_option (\<lambda>i. (info_width i, info_height i)) (snd (lcd_st7789_get_info True g')) = Some (240, 240) \<and>
    draw_calls g' (lcd_draws st) w1 = Some (replicate (length (lcd_draws st)) ESP_OK, w2) \<and>
    p_glass (panel_after p (spi_sent w2)) = fold painted (lcd_draws st) (p_glass (panel_after p (spi_sent w)))"
proof -
  obtain g' w1 where g: "floor_screen_setup (port_iface place me es 43) (port_pins 43) ili9341 g w = Some (ESP_OK, g', w1)"
      "lcd_on place me es 43 p g' w1" "upright g'"
      "p_glass (panel_after p (spi_sent w1)) = p_glass (panel_after p (spi_sent w))"
    using floor_screen_on [OF assms(1)] by blast
  have "\<forall>d\<in>set (lcd_draws st). draw_ok d" using display_run_inside [OF assms(3,2)] by (simp add: draws_inside_def)
  then obtain w2 where "draw_calls g' (lcd_draws st) w1 = Some (replicate (length (lcd_draws st)) ESP_OK, w2)"
      "p_glass (panel_after p (spi_sent w2)) = fold painted (lcd_draws st) (p_glass (panel_after p (spi_sent w1)))"
    using port_screen.screen.calls_painted [OF g(2,3)] by auto
  moreover have "map_option (\<lambda>i. (info_width i, info_height i)) (snd (lcd_st7789_get_info True g')) = Some (240, 240)"
    using g(2,3) by (auto simp: lcd_st7789_get_info_def screen_on_def handle_wf_def upright_def)
  ultimately show ?thesis using g(1,4) by auto
qed

text \<open>A display with a logo and memory for nothing else: its first response draws the logo.\<close>

definition logo_env :: lcd_env where
  "logo_env = \<lparr>le_find = ESP_OK, le_init = ESP_OK, le_width = 240, le_height = 240, le_row_alloc = False, le_logo_alloc = True,
     le_strip_alloc = (\<lambda>_. None), le_fb_alloc = False, le_logo = replicate (240 * 240) 0x00F8, le_sizeof_Queue = 80,
     le_queue_alloc = (\<lambda>n. Some (replicate n 0))\<rparr>"

theorem display_reaches_panel_witness:
  "\<exists>st g' w1 w2. (display_step logo_env)\<^sup>*\<^sup>* lcd_start st \<and>
    floor_screen_setup (port_iface (\<lambda>_ ws. ws) 3 [] 43) (port_pins 43) undefined blank_handle demo_world = Some (ESP_OK, g', w1) \<and>
    draw_calls g' (lcd_draws st) w1 = Some ([ESP_OK], w2) \<and>
    p_glass (panel_after blank_panel (spi_sent w2)) (100, 7) = 0xF800"
proof -
  obtain q where q: "xQueueGenericCreate 80 (\<lambda>n. Some (replicate n 0)) 2 12 = Created q"
    by (simp add: xQueueGenericCreate_def wrap32_def)
  define st0 where "st0 = open_display logo_env 0 lcd_start"
  have st0: "lcd_queue st0 = Some q" "lcd_draws st0 = [Draw 0 0 240 240 (replicate (240 * 240) 0x00F8)]"
    using q by (simp_all add: st0_def open_display_def lcd_start_def register_lcd_floor_def logo_env_def Let_def
        app_lcd_draw_wallpaper_def app_lcd_set_color_def draws_def)
  have "\<exists>st. RespondToDetection logo_env (\<lambda>_ ws. ws) 0 [] 0 (Some [1, 2, 3, 4]) (replicate 8 0) 10 lcd_start = Responded st \<and> lcd_draws st = lcd_draws st0"
    using st0(1) created_counts [OF q]
    by (simp add: RespondToDetection_def st0_def [symmetric] app_lcd_color_for_detection_def xQueueGenericSend_def q_room_def)
  then obtain st where st: "(display_step logo_env)\<^sup>*\<^sup>* lcd_start st" "lcd_draws st = lcd_draws st0"
    using display_step.respond by blast
  have env: "lcd_env_240 logo_env" "port_ready (spi_hw demo_world)" by (simp_all add: lcd_env_240_def logo_env_def demo_world_def)
  obtain g' w1 w2 where r: "floor_screen_setup (port_iface (\<lambda>_ ws. ws) 3 [] 43) (port_pins 43) undefined blank_handle demo_world = Some (ESP_OK, g', w1)"
      "draw_calls g' (lcd_draws st) w1 = Some (replicate (length (lcd_draws st)) ESP_OK, w2)"
      "p_glass (panel_after blank_panel (spi_sent w2)) = fold painted (lcd_draws st) (p_glass (panel_after blank_panel (spi_sent demo_world)))"
    using display_reaches_panel [OF env(2,1) st(1), of "\<lambda>_ ws. ws" 3 "[]" undefined blank_handle blank_panel] by blast
  have "p_glass (panel_after blank_panel (spi_sent w2)) (100, 7) = 0xF800"
    unfolding r(3) st(2) st0(2) by (simp add: exchanged_def)
  moreover have "length (lcd_draws st) = 1" by (simp only: st(2) st0(2) list.size)
  then have "draw_calls g' (lcd_draws st) w1 = Some ([ESP_OK], w2)" using r(2) by simp
  ultimately show ?thesis using st(1) r(1) by blast
qed

end
