(* ===== verification/Code_Recognition.thy ===== *)
theory Code_Recognition
  imports Floor_Screen Floor_Detection
begin

text \<open>
  The code recognition program, \<^verbatim>\<open>code_recognition/main\<close>: the camera and the screen as set up for the
  ESP32-S3-EYE (\<^verbatim>\<open>app_peripherals.c\<close>), and the turns of the task that takes a frame, scans it, shows it and gives
  it back (\<^verbatim>\<open>app_main.c\<close>). The scanner library is binary: its functions are parameters over a state \<open>'z\<close>;
  that destroying a scanner releases what creating it took, and that a configured scanner answers the number of
  symbols in the picture and the first of them, which its header promises, are named hypotheses.
\<close>

section \<open>Camera and screen\<close>

definition code_camera_config :: camera_config_t where
  "code_camera_config = \<lparr>pin_pwdn = -1, pin_reset = -1, pin_xclk = 15, pin_sscb_sda = 4, pin_sscb_scl = 5,
     pin_data = [11, 9, 8, 10, 12, 18, 17, 16], pin_vsync = 6, pin_href = 7, pin_pclk = 13, xclk_freq_hz = 20000000,
     pixel_format = PIXFORMAT_RGB565, frame_size = FRAMESIZE_240X240, jpeg_quality = 12, fb_count = 2,
     fb_location = CAMERA_FB_IN_PSRAM, grab_mode = CAMERA_GRAB_WHEN_EMPTY\<rparr>"

definition GC0308_PID :: u16 where "GC0308_PID = 0x9b"
definition GC032A_PID :: u16 where "GC032A_PID = 0x232a"

definition code_camera_calls :: "u16 \<Rightarrow> sensor_call list" where
  "code_camera_calls no =
    (if no = OV3660_PID \<or> no = OV2640_PID then [Set_vflip 1]
     else if no = GC0308_PID then [Set_hmirror 0]
     else if no = GC032A_PID then [Set_vflip 1] else []) @
    (if no = OV3660_PID then [Set_brightness 2, Set_contrast 3] else [])"

definition code_camera_init :: "'d camera_env \<Rightarrow> 'd camera \<Rightarrow> (esp_err_t \<times> 'd camera) option" where
  "code_camera_init env st =
    (case esp_camera_init env (Some code_camera_config) st of
       Camera_aborted \<Rightarrow> None
     | Camera_done err st \<Rightarrow>
         if err \<noteq> ESP_OK then Some (ESP_FAIL, st) else Some (ESP_OK, calls env (code_camera_calls (PID (sen_id st))) st))"

definition code_bus_conf :: spi_config_t where
  "code_bus_conf = \<lparr>miso_io_num = -1, mosi_io_num = 46, sclk_io_num = 21, max_transfer_sz = 2 * 240 * 240 + 10\<rparr>"

definition code_iface_conf :: "nat option \<Rightarrow> scr_interface_spi_config_t" where
  "code_iface_conf spi_bus = \<lparr>cfg_spi_bus = spi_bus, pin_num_cs = 44, cfg_pin_num_dc = 47, clk_freq = 40 * 1000000, cfg_swap_data = False\<rparr>"

definition code_lcd_conf :: "'s scr_interface_driver option \<Rightarrow> 's scr_controller_config_t" where
  "code_lcd_conf drv = \<lparr>conf_drv = drv, pin_num_rst = -1, pin_num_bckl = 48, rst_active_level = 0, bckl_active_level = 0,
     conf_width = 240, conf_height = 240, conf_offset_hor = 0, conf_offset_ver = 0, rotate = 0\<rparr>"

definition app_lcd_init ::
    "'h iface_env \<Rightarrow> 'h spi_world pin_env \<Rightarrow> 'h spi_world scr_driver_t \<Rightarrow> 'h spi_world scr_handle_t \<Rightarrow> 'h spi_world \<Rightarrow>
     (esp_err_t \<times> 'h spi_world scr_handle_t \<times> 'h spi_world) option" where
  "app_lcd_init = lcd_setup code_bus_conf code_iface_conf code_lcd_conf (\<lambda>_. ESP_FAIL)"

section \<open>The task\<close>

text \<open>The scanner library; a scanner is \<open>None\<close> for \<^verbatim>\<open>NULL\<close>. The symbol found is its type and its text.\<close>

record 'z scanner_env =
  sc_create :: "'z \<Rightarrow> nat option \<times> 'z"
  sc_set_config :: "nat option \<Rightarrow> nat \<Rightarrow> nat \<Rightarrow> 'z \<Rightarrow> esp_err_t \<times> 'z"
  sc_scan :: "nat option \<Rightarrow> u8 list \<Rightarrow> 'z \<Rightarrow> int \<times> 'z"
  sc_result :: "nat option \<Rightarrow> 'z \<Rightarrow> (string \<times> string) \<times> 'z"
  sc_destroy :: "nat option \<Rightarrow> 'z \<Rightarrow> 'z"

record ('d, 'z, 'h) decoder =
  dc_camera :: "'d camera"
  dc_scanner :: 'z
  dc_use_lcd :: bool
  dc_lcd :: "'h spi_world scr_handle_t"
  dc_world :: "'h spi_world"
  dc_log :: "(string \<times> string) list"

datatype ('d, 'z, 'h) decode = Decode_crash | Decode_waiting | Decode_ended "('d, 'z, 'h) decoder" | Decode "('d, 'z, 'h) decoder"

text \<open>Up to the loop: without a camera the task deletes itself, without a screen it goes on.\<close>

definition decode_start ::
    "'d camera_env \<Rightarrow> 'h iface_env \<Rightarrow> 'h spi_world pin_env \<Rightarrow> 'h spi_world scr_driver_t \<Rightarrow> ('d, 'z, 'h) decoder \<Rightarrow> ('d, 'z, 'h) decode" where
  "decode_start env ienv pins ili9341 st =
    (case code_camera_init env (dc_camera st) of
       None \<Rightarrow> Decode_crash
     | Some (err, cam) \<Rightarrow>
         if err \<noteq> ESP_OK then Decode_ended (st\<lparr>dc_camera := cam\<rparr>)
         else (case app_lcd_init ienv pins ili9341 (dc_lcd st) (dc_world st) of
           None \<Rightarrow> Decode_crash
         | Some (ret, g, w) \<Rightarrow> Decode (st\<lparr>dc_camera := cam, dc_use_lcd := (ret = ESP_OK), dc_lcd := g, dc_world := w\<rparr>)))"

definition scan_frame :: "'z scanner_env \<Rightarrow> camera_fb_t \<Rightarrow> 'z \<Rightarrow> (string \<times> string) list \<times> 'z" where
  "scan_frame scn fb z =
    (let (esp_scn, z) = sc_create scn z;
         (_, z) = sc_set_config scn esp_scn (fb_width fb) (fb_height fb) z;
         (decoded_num, z) = sc_scan scn esp_scn (fb_buf fb) z;
         (found, z) = (if decoded_num \<noteq> 0 then (case sc_result scn esp_scn z of (r, z) \<Rightarrow> ([r], z)) else ([], z))
     in (found, sc_destroy scn esp_scn z))"

definition taken_fb :: "'d camera \<Rightarrow> nat \<Rightarrow> camera_fb_t option" where
  "taken_fb cam x = map_option (\<lambda>(_, c). fr_fb (frames c ! x)) (drv_obj (cd cam))"

definition put_bitmap :: "nat \<Rightarrow> u8 list \<Rightarrow> 'd camera \<Rightarrow> 'd camera" where
  "put_bitmap x d cam = cam\<lparr>cd := (cd cam)\<lparr>drv_obj :=
     map_option (map_prod id (upd_frame x (upd_fb (\<lambda>fb. fb\<lparr>fb_buf := d\<rparr>)))) (drv_obj (cd cam))\<rparr>\<rparr>"

definition show_fb :: "nat \<Rightarrow> camera_fb_t \<Rightarrow> ('d, 'z, 'h) decoder \<Rightarrow> ('d, 'z, 'h) decoder option" where
  "show_fb x fb st =
    (if \<not> dc_use_lcd st then Some st
     else Option.bind (lcd_st7789_draw_bitmap 0 0 (of_nat (fb_width fb)) (of_nat (fb_height fb)) (Some (fb_buf fb)) (dc_lcd st) (dc_world st))
       (\<lambda>(_, bitmap, w). Some (st\<lparr>dc_world := w,
          dc_camera := (case bitmap of None \<Rightarrow> dc_camera st | Some d \<Rightarrow> put_bitmap x d (dc_camera st))\<rparr>)))"

definition decode_turn :: "'z scanner_env \<Rightarrow> cam_wait list \<Rightarrow> ('d, 'z, 'h) decoder \<Rightarrow> ('d, 'z, 'h) decode" where
  "decode_turn scn ws st =
    (case esp_camera_fb_get ws (dc_camera st) of
       Fb_crash \<Rightarrow> Decode_crash
     | Fb_waiting \<Rightarrow> Decode_waiting
     | Fb None cam \<Rightarrow> Decode (st\<lparr>dc_camera := cam\<rparr>)
     | Fb (Some x) cam \<Rightarrow>
         (case taken_fb cam x of None \<Rightarrow> Decode_crash
          | Some fb \<Rightarrow>
              (case scan_frame scn fb (dc_scanner st) of (found, z) \<Rightarrow>
               case show_fb x fb (st\<lparr>dc_camera := cam, dc_scanner := z, dc_log := dc_log st @ found\<rparr>) of
                 None \<Rightarrow> Decode_crash
               | Some st \<Rightarrow> Decode (st\<lparr>dc_camera := esp_camera_fb_return x (dc_camera st)\<rparr>))))"

section \<open>Properties\<close>

text \<open>The promise of the library's header: destroying a scanner releases what creating it took, and nothing
  else takes or releases scanners. \<open>live\<close> are the scanners in existence.\<close>

definition scanner_law :: "'z scanner_env \<Rightarrow> ('z \<Rightarrow> nat multiset) \<Rightarrow> bool" where
  "scanner_law scn live \<longleftrightarrow>
     (\<forall>z s z'. sc_create scn z = (s, z') \<longrightarrow> live z' = (case s of None \<Rightarrow> live z | Some a \<Rightarrow> add_mset a (live z))) \<and>
     (\<forall>s w h z. live (snd (sc_set_config scn s w h z)) = live z) \<and> (\<forall>s d z. live (snd (sc_scan scn s d z)) = live z) \<and>
     (\<forall>s z. live (snd (sc_result scn s z)) = live z) \<and>
     (\<forall>s z. live (sc_destroy scn s z) = (case s of None \<Rightarrow> live z | Some a \<Rightarrow> live z - {#a#}))"

text \<open>The other promises: a scanner that was created and configured for a size answers how many symbols it decoded in
  an image, and, when there is one, the result is the first of them. \<open>codes w h d\<close> are the symbols in the image \<open>d\<close>.\<close>

definition scanner_reads :: "'z scanner_env \<Rightarrow> (nat \<Rightarrow> nat \<Rightarrow> u8 list \<Rightarrow> (string \<times> string) list) \<Rightarrow> bool" where
  "scanner_reads scn codes \<longleftrightarrow>
     (\<forall>z a z1 w h z2 d n z3. sc_create scn z = (Some a, z1) \<longrightarrow> sc_set_config scn (Some a) w h z1 = (ESP_OK, z2) \<longrightarrow>
        sc_scan scn (Some a) d z2 = (n, z3) \<longrightarrow>
        n = int (length (codes w h d)) \<and> (\<forall>c cs. codes w h d = c # cs \<longrightarrow> fst (sc_result scn (Some a) z3) = c))"

text \<open>A scanner for pictures of the size can be had.\<close>

definition scanner_available :: "'z scanner_env \<Rightarrow> nat \<Rightarrow> nat \<Rightarrow> 'z \<Rightarrow> bool" where
  "scanner_available scn w h z \<longleftrightarrow>
     (case sc_create scn z of (None, _) \<Rightarrow> False | (Some a, z1) \<Rightarrow> fst (sc_set_config scn (Some a) w h z1) = ESP_OK)"

lemma scan_frame_reads:
  assumes "scanner_reads scn codes" "scanner_available scn (fb_width fb) (fb_height fb) z"
  shows "fst (scan_frame scn fb z) = take 1 (codes (fb_width fb) (fb_height fb) (fb_buf fb))"
proof -
  obtain a z1 where c: "sc_create scn z = (Some a, z1)" "fst (sc_set_config scn (Some a) (fb_width fb) (fb_height fb) z1) = ESP_OK"
    using assms(2) by (auto simp: scanner_available_def split: prod.splits option.splits)
  obtain z2 where z2: "sc_set_config scn (Some a) (fb_width fb) (fb_height fb) z1 = (ESP_OK, z2)"
    using c(2) by (metis prod.collapse)
  obtain n z3 where n: "sc_scan scn (Some a) (fb_buf fb) z2 = (n, z3)" by fastforce
  have "n = int (length (codes (fb_width fb) (fb_height fb) (fb_buf fb)))"
    "\<forall>x xs. codes (fb_width fb) (fb_height fb) (fb_buf fb) = x # xs \<longrightarrow> fst (sc_result scn (Some a) z3) = x"
    using assms(1) c(1) z2 n unfolding scanner_reads_def by blast+
  then show ?thesis
    using c(1) z2 n
    by (cases "codes (fb_width fb) (fb_height fb) (fb_buf fb)") (auto simp: scan_frame_def case_prod_beta)
qed

lemma scan_frame_live:
  assumes "scanner_law scn live"
  shows "live (snd (scan_frame scn fb z)) = live z"
proof -
  obtain s z1 where c: "sc_create scn z = (s, z1)" by fastforce
  let ?z2 = "snd (sc_set_config scn s (fb_width fb) (fb_height fb) z1)"
  let ?r = "sc_scan scn s (fb_buf fb) ?z2"
  let ?z4 = "if fst ?r \<noteq> 0 then snd (sc_result scn s (snd ?r)) else snd ?r"
  have "snd (scan_frame scn fb z) = sc_destroy scn s ?z4"
    using c by (auto simp: scan_frame_def Let_def case_prod_beta)
  moreover have "live ?z4 = (case s of None \<Rightarrow> live z | Some a \<Rightarrow> add_mset a (live z))"
    using assms c by (auto simp: scanner_law_def)
  ultimately show ?thesis using assms by (auto simp: scanner_law_def split: option.splits)
qed

lemma put_same_bitmap:
  assumes "taken_fb cam x = Some fb"
  shows "put_bitmap x (fb_buf fb) cam = cam"
proof -
  obtain b c where c: "drv_obj (cd cam) = Some (b, c)" "fb = fr_fb (frames c ! x)" using assms by (auto simp: taken_fb_def)
  have "upd_fb (\<lambda>fb. fb\<lparr>fb_buf := fb_buf (fr_fb (frames c ! x))\<rparr>) (frames c ! x) = frames c ! x"
    by (cases "frames c ! x"; cases "fr_fb (frames c ! x)") (simp add: upd_fb_def)
  then have "upd_frame x (upd_fb (\<lambda>fb. fb\<lparr>fb_buf := fb_buf (fr_fb (frames c ! x))\<rparr>)) c = c" by (simp add: upd_frame_def)
  moreover have "cam\<lparr>cd := (cd cam)\<lparr>drv_obj := Some (b, c)\<rparr>\<rparr> = cam" using c(1) by simp
  ultimately show ?thesis using c by (simp add: put_bitmap_def)
qed

lemma code_screen_on:
  fixes p :: panel
  assumes "port_ready (spi_hw w)"
  shows "\<exists>g' w1. app_lcd_init (port_iface place me es 47) (port_pins 47) ili9341 g w = Some (ESP_OK, g', w1) \<and>
    lcd_on place me es 47 p g' w1 \<and> upright g' \<and>
    p_glass (panel_after p (spi_sent w1)) = p_glass (panel_after p (spi_sent w))"
  unfolding app_lcd_init_def
  by (rule lcd_setup_on [OF assms]) (simp_all add: code_iface_conf_def gpio_valid_output_def code_lcd_conf_def floor_lcd_conf_def)

text \<open>
  C25: A turn with a frame. Once the screen is set up, which succeeds on a free bus, and whatever the
  scanner does: a turn that gets a frame of 240 x 240 ends, leaves no scanner behind, gives the frame back
  unchanged, and the panel then shows it, every pixel of the frame at its place, high byte first; the
  screen can be drawn on again. When a scanner can be had, the turn notes the first of the symbols in the
  picture of the frame, and nothing when there is none.
\<close>

theorem decoded_frame_shown:
  fixes p :: panel
  assumes "port_ready (spi_hw w)" "scanner_law scn live" "scanner_reads scn codes"
  shows "\<exists>g' w1. app_lcd_init (port_iface place me es 47) (port_pins 47) ili9341 g w = Some (ESP_OK, g', w1) \<and> lcd_on place me es 47 p g' w1 \<and>
    (\<forall>ws st x (cam :: 'd camera) fb. dc_lcd st = g' \<and> dc_use_lcd st \<and> lcd_on place me es 47 p g' (dc_world st) \<and>
       esp_camera_fb_get ws (dc_camera st) = Fb (Some x) cam \<and> taken_fb cam x = Some fb \<and>
       fb_width fb = 240 \<and> fb_height fb = 240 \<and> 2 * 240 * 240 \<le> length (fb_buf fb) \<longrightarrow>
       (\<exists>st'. decode_turn scn ws st = Decode st' \<and> dc_camera st' = esp_camera_fb_return x cam \<and>
         live (dc_scanner st') = live (dc_scanner st) \<and>
         (scanner_available scn 240 240 (dc_scanner st) \<longrightarrow> dc_log st' = dc_log st @ take 1 (codes 240 240 (fb_buf fb))) \<and>
         dc_lcd st' = g' \<and> dc_use_lcd st' \<and> lcd_on place me es 47 p g' (dc_world st') \<and>
         (\<forall>c<240. \<forall>r<240. p_glass (panel_after p (spi_sent (dc_world st'))) (c, r) =
            pixel_word (fb_buf fb ! (2 * (r * 240 + c))) (fb_buf fb ! (2 * (r * 240 + c) + 1)))))"
proof -
  obtain g' w1 where g: "app_lcd_init (port_iface place me es 47) (port_pins 47) ili9341 g w = Some (ESP_OK, g', w1)"
      "lcd_on place me es 47 p g' w1" "upright g'"
    using code_screen_on [OF assms(1)] by blast
  have size: "scr_width g' = 240" "scr_height g' = 240" using g(2,3) by (auto simp: screen_on_def handle_wf_def upright_def)
  have "\<exists>st'. decode_turn scn ws st = Decode st' \<and> dc_camera st' = esp_camera_fb_return x cam \<and>
      live (dc_scanner st') = live (dc_scanner st) \<and>
      (scanner_available scn 240 240 (dc_scanner st) \<longrightarrow> dc_log st' = dc_log st @ take 1 (codes 240 240 (fb_buf fb))) \<and>
      dc_lcd st' = g' \<and> dc_use_lcd st' \<and> lcd_on place me es 47 p g' (dc_world st') \<and>
      (\<forall>c<240. \<forall>r<240. p_glass (panel_after p (spi_sent (dc_world st'))) (c, r) =
         pixel_word (fb_buf fb ! (2 * (r * 240 + c))) (fb_buf fb ! (2 * (r * 240 + c) + 1)))"
    if st: "dc_lcd st = g'" "dc_use_lcd st" "lcd_on place me es 47 p g' (dc_world st)"
      "esp_camera_fb_get ws (dc_camera st) = Fb (Some x) cam" "taken_fb cam x = Some fb"
      "fb_width fb = 240" "fb_height fb = 240" "2 * 240 * 240 \<le> length (fb_buf fb)" for ws st x fb and cam :: "'d camera"
  proof -
    obtain w2 where w2: "lcd_st7789_draw_bitmap 0 0 240 240 (Some (fb_buf fb)) g' (dc_world st) = Some (ESP_OK, Some (fb_buf fb), w2)"
        "lcd_on place me es 47 p g' w2"
        "shows_rect g' 0 0 240 240 (shown False (fb_buf fb)) (p_glass (panel_after p (spi_sent (dc_world st)))) (p_glass (panel_after p (spi_sent w2)))"
      using port_screen.screen.draw_on_screen [OF st(3), of 0 0 240 240 "fb_buf fb"] st(8) size by (auto simp: rect_fits_def)
    obtain found z where scan: "scan_frame scn fb (dc_scanner st) = (found, z)" by fastforce
    have "decode_turn scn ws st = Decode (st\<lparr>dc_camera := esp_camera_fb_return x cam, dc_scanner := z,
        dc_log := dc_log st @ found, dc_world := w2\<rparr>)"
      using st(1,2,4-7) scan w2(1) put_same_bitmap [OF st(5)] by (simp add: decode_turn_def show_fb_def)
    moreover have "p_glass (panel_after p (spi_sent w2)) (c, r) = shown False (fb_buf fb) (r * 240 + c)" if "c < 240" "r < 240" for c r
      using w2(3) that by (auto simp: shows_rect_def upright_pos [OF g(3)])
    ultimately show ?thesis
      using w2(2) st(1,2,6,7) scan scan_frame_live [OF assms(2), of fb "dc_scanner st"]
        scan_frame_reads [OF assms(3), of fb "dc_scanner st"] by (simp add: shown_def)
  qed
  then show ?thesis using g(1,2) by blast
qed

text \<open>A scanner that finds a code in every frame, and a camera with a white frame.\<close>

definition demo_scanner :: "nat multiset scanner_env" where
  "demo_scanner = \<lparr>sc_create = (\<lambda>z. (Some 5, add_mset 5 z)), sc_set_config = (\<lambda>_ _ _ z. (ESP_OK, z)), sc_scan = (\<lambda>_ _ z. (1, z)),
     sc_result = (\<lambda>_ z. ((''QR'', ''eCam''), z)), sc_destroy = (\<lambda>s z. case s of None \<Rightarrow> z | Some a \<Rightarrow> z - {#a#})\<rparr>"

lemma demo_scanner_reads: "scanner_reads demo_scanner (\<lambda>w h d. [(''QR'', ''eCam'')])" "scanner_available demo_scanner w h z"
  by (simp_all add: scanner_reads_def scanner_available_def demo_scanner_def)

lemma demo_scanner_law: "scanner_law demo_scanner id"
  by (auto simp: scanner_law_def demo_scanner_def split: option.split)

definition white_shot :: cam_obj_t where
  "white_shot = cam_obj_zero\<lparr>frame_cnt := 1, frame_buffer_queue := Some \<lparr>cq_block = 2, cq_cap = 1, cq_items = [0]\<rparr>,
     frames := [\<lparr>fr_fb = \<lparr>fb_buf = replicate 115200 0xFF, fb_len = 115200, fb_width = 240, fb_height = 240,
       fb_format = PIXFORMAT_RGB565, fb_tv_sec = 0, fb_tv_usec = 0\<rparr>, fr_addr = 9, fr_en = False, fr_dma = None, fr_offset = 0\<rparr>]\<rparr>"

definition white_camera :: "reg_file camera" where
  "white_camera = (demo_camera [])\<lparr>cd := (demo_driver [])\<lparr>drv_obj := Some (1, white_shot)\<rparr>, s_state := Some 3,
     sen := (sen (demo_camera []))\<lparr>status := status_zero\<lparr>st_framesize := FRAMESIZE_240X240\<rparr>\<rparr>\<rparr>"

theorem decoded_frame_shown_witness:
  "\<exists>g' w1 st'. app_lcd_init (port_iface (\<lambda>_ ws. ws) 3 [] 47) (port_pins 47) undefined blank_handle demo_world = Some (ESP_OK, g', w1) \<and>
    decode_turn demo_scanner [\<lparr>w_others = id, w_elapsed = 0, w_behind = (\<lambda>_. 0)\<rparr>]
      \<lparr>dc_camera = white_camera, dc_scanner = {#}, dc_use_lcd = True, dc_lcd = g', dc_world = w1, dc_log = []\<rparr> = Decode st' \<and>
    dc_scanner st' = {#} \<and> dc_log st' = [(''QR'', ''eCam'')] \<and>
    p_glass (panel_after blank_panel (spi_sent (dc_world st'))) (17, 200) = 0xFFFF"
proof -
  let ?ws = "[\<lparr>w_others = id, w_elapsed = 0, w_behind = (\<lambda>_. 0)\<rparr>] :: cam_wait list"
  have ready: "port_ready (spi_hw demo_world)" by (simp add: demo_world_def)
  have "\<exists>cam fb. esp_camera_fb_get ?ws white_camera = Fb (Some 0) cam \<and> taken_fb cam 0 = Some fb \<and>
      fb_width fb = 240 \<and> fb_height fb = 240 \<and> fb_buf fb = replicate 115200 0xFF"
    by (simp add: esp_camera_fb_get_def white_camera_def white_shot_def cam_obj_zero_def cq_get_def
        take_received_def taken_fb_def upd_frame_def upd_fb_def Let_def resolution_def resolution_table_def res_info_def)
  then obtain cam fb where fb: "esp_camera_fb_get ?ws white_camera = Fb (Some 0) cam" "taken_fb cam 0 = Some fb"
      "fb_width fb = 240" "fb_height fb = 240" "fb_buf fb = replicate 115200 0xFF" by blast
  from decoded_frame_shown [where 'd = reg_file, OF ready demo_scanner_law demo_scanner_reads(1), of "\<lambda>_ ws. ws" 3 "[]" undefined blank_handle blank_panel]
  show ?thesis
  proof (elim exE conjE, goal_cases)
    case (1 g' w1)
    let ?st = "\<lparr>dc_camera = white_camera, dc_scanner = {#}, dc_use_lcd = True, dc_lcd = g', dc_world = w1, dc_log = []\<rparr>"
    obtain st' where st': "decode_turn demo_scanner ?ws ?st = Decode st'" "dc_scanner st' = {#}"
        "dc_log st' = [(''QR'', ''eCam'')]"
        "\<forall>c<240. \<forall>r<240. p_glass (panel_after blank_panel (spi_sent (dc_world st'))) (c, r) =
            pixel_word (fb_buf fb ! (2 * (r * 240 + c))) (fb_buf fb ! (2 * (r * 240 + c) + 1))"
      using 1(3) [rule_format, of ?st ?ws 0 cam fb] 1(2) fb demo_scanner_reads(2) by auto
    have "pixel_word 0xFF 0xFF = 0xFFFF" by (simp add: pixel_word_def)
    then have "p_glass (panel_after blank_panel (spi_sent (dc_world st'))) (17, 200) = 0xFFFF"
      using st'(4) [rule_format, of 17 200] fb(5) by simp
    then show ?case using 1(1) st'(1-3) by blast
  qed
qed

end
