(* ===== verification/Image_Tools.thy ===== *)
theory Image_Tools
  imports Esp_Camera
begin

text \<open>
  The image processing tool \<^verbatim>\<open>ImageProcessing/ESP/RAW_crop_resize_AND_serial.cpp\<close>: it sets the sensor up, takes a
  raw picture of 1600 x 1200, cuts a window of 400 x 300 out of it, reduces it to 96 x 96 by averaging,
  and sends the picture over the serial line. A read or write outside a buffer, and the use of a null
  pointer, is \<open>None\<close>. A picture is the bytes of its buffer.
\<close>

section \<open>Settings\<close>

definition tool_settings :: "sensor_call list" where
  "tool_settings = [Set_brightness 0, Set_contrast 2, Set_saturation 0, Set_special_effect 0, Set_whitebal 0,
     Set_wb_mode 10, Set_exposure_ctrl 0, Set_aec2 0, Set_ae_level 0, Set_aec_value 87, Set_gain_ctrl 1,
     Set_agc_gain 0, Set_gainceiling 5, Set_bpc 1, Set_wpc 1, Set_raw_gma 1, Set_lenc 1, Set_hmirror 1,
     Set_vflip 1, Set_dcw 0, Set_colorbar 0]"

section \<open>The window\<close>

definition crop_pixel :: "u8 list \<Rightarrow> nat \<Rightarrow> nat \<Rightarrow> u8 list \<Rightarrow> u8 list option" where
  "crop_pixel buf y x fb_crop =
    (let k = y * 400 + x; i = (y + 450) * 1600 + x + 600 in
     if i < length buf \<and> k < length fb_crop then Some (fb_crop[k := buf ! i]) else None)"

fun crop_cols :: "nat \<Rightarrow> u8 list \<Rightarrow> nat \<Rightarrow> nat \<Rightarrow> u8 list \<Rightarrow> u8 list option" where
  "crop_cols 0 buf y x out = Some out"
| "crop_cols (Suc n) buf y x out = Option.bind (crop_pixel buf y x out) (crop_cols n buf y (x + 1))"

fun crop_rows :: "nat \<Rightarrow> u8 list \<Rightarrow> nat \<Rightarrow> u8 list \<Rightarrow> u8 list option" where
  "crop_rows 0 buf y out = Some out"
| "crop_rows (Suc n) buf y out = Option.bind (crop_cols 400 buf y 0 out) (crop_rows n buf (y + 1))"

text \<open>\<open>mem\<close> is what \<^verbatim>\<open>malloc\<close> answers for the 120000 bytes.\<close>

definition crop :: "u8 list option \<Rightarrow> u8 list \<Rightarrow> u8 list option" where
  "crop mem buf = Option.bind mem (crop_rows 300 buf 0)"

section \<open>The reduction\<close>

fun sum_cols :: "nat \<Rightarrow> u8 list \<Rightarrow> nat \<Rightarrow> nat \<Rightarrow> nat \<Rightarrow> nat \<Rightarrow> u32 \<Rightarrow> u32 option" where
  "sum_cols 0 buf yw xw y x pixsum = Some pixsum"
| "sum_cols (Suc n) buf yw xw y x pixsum =
    (let i = (yw * 8 + 432 + y) * 1600 + xw * 16 + x in
     if i < length buf then sum_cols n buf yw xw y (x + 1) (pixsum + ucast (buf ! i)) else None)"

fun sum_rows :: "nat \<Rightarrow> u8 list \<Rightarrow> nat \<Rightarrow> nat \<Rightarrow> nat \<Rightarrow> u32 \<Rightarrow> u32 option" where
  "sum_rows 0 buf yw xw y pixsum = Some pixsum"
| "sum_rows (Suc n) buf yw xw y pixsum = Option.bind (sum_cols 16 buf yw xw y 0 pixsum) (sum_rows n buf yw xw (y + 1))"

definition resize_pixel :: "u8 list \<Rightarrow> nat \<Rightarrow> nat \<Rightarrow> u8 list \<times> nat \<Rightarrow> (u8 list \<times> nat) option" where
  "resize_pixel buf yw xw = (\<lambda>(fb_rez, k). Option.bind (sum_rows 8 buf yw xw 0 0) (\<lambda>pixsum.
     if k < length fb_rez then Some (fb_rez[k := ucast (drop_bit 7 pixsum)], k + 1) else None))"

fun resize_cols :: "nat \<Rightarrow> u8 list \<Rightarrow> nat \<Rightarrow> nat \<Rightarrow> u8 list \<times> nat \<Rightarrow> (u8 list \<times> nat) option" where
  "resize_cols 0 buf yw xw s = Some s"
| "resize_cols (Suc n) buf yw xw s = Option.bind (resize_pixel buf yw xw s) (resize_cols n buf yw (xw + 1))"

fun resize_rows :: "nat \<Rightarrow> u8 list \<Rightarrow> nat \<Rightarrow> u8 list \<times> nat \<Rightarrow> (u8 list \<times> nat) option" where
  "resize_rows 0 buf yw s = Some s"
| "resize_rows (Suc n) buf yw s = Option.bind (resize_cols 96 buf yw 0 s) (resize_rows n buf (yw + 1))"

definition resize :: "u8 list option \<Rightarrow> u8 list \<Rightarrow> u8 list option" where
  "resize mem buf = Option.bind mem (\<lambda>fb_rez. map_option fst (resize_rows 96 buf 0 (fb_rez, 0)))"

section \<open>The serial line\<close>

text \<open>\<^verbatim>\<open>printf("%s", p)\<close> sends the bytes from \<open>p\<close> up to the next zero; the counter has 8 bits, the length 32.\<close>

function transmit :: "u8 list \<Rightarrow> nat \<Rightarrow> u8 \<Rightarrow> nat \<Rightarrow> u8 list \<Rightarrow> u8 list option" where
  "transmit buf len i pos out =
    (if unat i < len
     then if pos < length buf \<and> 0 \<in> set (drop pos buf)
          then transmit buf len (i + 1) (pos + 1) (out @ takeWhile (\<lambda>b. b \<noteq> 0) (drop pos buf))
          else None
     else Some out)"
  by pat_completeness auto
termination
  by (relation "measure (\<lambda>(buf, len, i, pos, out). length buf - pos)") auto

declare transmit.simps [simp del]

definition start_sequence :: "u8 list" where
  "start_sequence = [0, 255, 0, 255]"

text \<open>The answers of \<^verbatim>\<open>scanf\<close> until one is 1 (\<open>None\<close> stands for an answer that sets nothing).\<close>

fun wait_valid :: "int \<Rightarrow> int option list \<Rightarrow> bool" where
  "wait_valid valid [] = (valid = 1)"
| "wait_valid valid (a # as) = (valid = 1 \<or> wait_valid (case a of None \<Rightarrow> valid | Some v \<Rightarrow> v) as)"

datatype tool_result = Tool_crash | Tool_waiting | Tool_done "u8 list"

definition tool_frame :: "'d camera \<Rightarrow> nat \<Rightarrow> u8 list \<times> nat" where
  "tool_frame cam x = (case drv_obj (cd cam) of None \<Rightarrow> ([], 0)
     | Some (_, c) \<Rightarrow> (fb_buf (fr_fb (frames c ! x)), fb_len (fr_fb (frames c ! x))))"

definition tool_main ::
    "'d camera_env \<Rightarrow> cam_wait list \<Rightarrow> u8 list option \<Rightarrow> u8 list option \<Rightarrow> int option list \<Rightarrow> 'd camera \<Rightarrow> tool_result" where
  "tool_main env ws crop_mem rez_mem inputs st =
    (if esp_camera_sensor_get st = None then Tool_crash
     else case esp_camera_fb_get ws (calls env tool_settings st) of
       Fb_crash \<Rightarrow> Tool_crash
     | Fb_waiting \<Rightarrow> Tool_waiting
     | Fb None _ \<Rightarrow> Tool_crash
     | Fb (Some x) st \<Rightarrow>
         (case tool_frame st x of (buf, len) \<Rightarrow>
          if crop crop_mem buf = None \<or> resize rez_mem buf = None then Tool_crash
          else if \<not> wait_valid 0 inputs then Tool_waiting
          else case transmit buf len 0 0 start_sequence of None \<Rightarrow> Tool_crash | Some out \<Rightarrow> Tool_done out))"

section \<open>The pictures\<close>

lemma crop_cols_done:
  assumes "749 * 1600 + 1000 \<le> length buf" "y < 300" "x + n \<le> 400" "length out = 120000"
  shows "\<exists>out'. crop_cols n buf y x out = Some out' \<and> length out' = 120000 \<and>
    (\<forall>k. out' ! k = (if y * 400 + x \<le> k \<and> k < y * 400 + x + n then buf ! ((y + 450) * 1600 + (k - y * 400) + 600) else out ! k))"
  using assms(3,4)
proof (induction n arbitrary: x out)
  case (Suc n)
  have i: "(y + 450) * 1600 + x + 600 < length buf" "y * 400 + x < 120000" using assms(1,2) Suc.prems(1) by (simp_all add: add_mult_distrib)
  then have step: "crop_pixel buf y x out = Some (out[y * 400 + x := buf ! ((y + 450) * 1600 + x + 600)])"
    using Suc.prems(2) by (simp add: crop_pixel_def Let_def)
  obtain out' where out': "crop_cols n buf y (x + 1) (out[y * 400 + x := buf ! ((y + 450) * 1600 + x + 600)]) = Some out'"
      "length out' = 120000"
      "\<forall>k. out' ! k = (if y * 400 + (x + 1) \<le> k \<and> k < y * 400 + (x + 1) + n then buf ! ((y + 450) * 1600 + (k - y * 400) + 600)
         else out[y * 400 + x := buf ! ((y + 450) * 1600 + x + 600)] ! k)"
    using Suc.IH [of "x + 1" "out[y * 400 + x := buf ! ((y + 450) * 1600 + x + 600)]"] Suc.prems by auto
  have "out' ! k = (if y * 400 + x \<le> k \<and> k < y * 400 + x + Suc n then buf ! ((y + 450) * 1600 + (k - y * 400) + 600) else out ! k)" for k
    using out'(3) [rule_format, of k] i(2) Suc.prems(2) by (cases "k = y * 400 + x") (auto simp: nth_list_update)
  then show ?case using step out' by simp
qed auto

lemma crop_rows_done:
  assumes "749 * 1600 + 1000 \<le> length buf" "y + n \<le> 300" "length out = 120000"
  shows "\<exists>out'. crop_rows n buf y out = Some out' \<and> length out' = 120000 \<and>
    (\<forall>r c. c < 400 \<longrightarrow> y \<le> r \<and> r < y + n \<longrightarrow> out' ! (r * 400 + c) = buf ! ((r + 450) * 1600 + c + 600)) \<and>
    (\<forall>k < y * 400. out' ! k = out ! k)"
  using assms(2,3)
proof (induction n arbitrary: y out)
  case (Suc n)
  obtain out1 where out1: "crop_cols 400 buf y 0 out = Some out1" "length out1 = 120000"
      "\<forall>k. out1 ! k = (if y * 400 \<le> k \<and> k < y * 400 + 400 then buf ! ((y + 450) * 1600 + (k - y * 400) + 600) else out ! k)"
    using crop_cols_done [OF assms(1), of y 0 400 out] Suc.prems by auto
  obtain out' where out': "crop_rows n buf (y + 1) out1 = Some out'" "length out' = 120000"
      "\<forall>r c. c < 400 \<longrightarrow> y + 1 \<le> r \<and> r < y + 1 + n \<longrightarrow> out' ! (r * 400 + c) = buf ! ((r + 450) * 1600 + c + 600)"
      "\<forall>k < (y + 1) * 400. out' ! k = out1 ! k"
    using Suc.IH [of "y + 1" out1] Suc.prems out1(2) by auto
  have "out' ! (y * 400 + c) = buf ! ((y + 450) * 1600 + c + 600)" if "c < 400" for c
    using out'(4) [rule_format, of "y * 400 + c"] out1(3) [rule_format, of "y * 400 + c"] that by simp
  then have "out' ! (r * 400 + c) = buf ! ((r + 450) * 1600 + c + 600)" if "c < 400" "y \<le> r" "r < y + Suc n" for r c
    using out'(3) that by (cases "r = y") auto
  moreover have "\<forall>k < y * 400. out' ! k = out ! k" using out'(4) out1(3) by auto
  ultimately show ?case using out1(1) out'(1,2) by auto
qed auto

text \<open>The sum of a window.\<close>

definition window_sum :: "u8 list \<Rightarrow> nat \<Rightarrow> nat \<Rightarrow> nat" where
  "window_sum buf yw xw = (\<Sum>y<8. \<Sum>x<16. unat (buf ! ((yw * 8 + 432 + y) * 1600 + xw * 16 + x)))"

lemma sum_cols_done:
  assumes "1200 * 1600 \<le> length buf" "yw < 96" "xw < 96" "y < 8" "x + n \<le> 16"
    and "unat s + n * 255 < 2 ^ 32"
  shows "\<exists>s'. sum_cols n buf yw xw y x s = Some s' \<and> unat s' \<le> unat s + n * 255 \<and>
    unat s' = unat s + (\<Sum>c<n. unat (buf ! ((yw * 8 + 432 + y) * 1600 + xw * 16 + (x + c))))"
  using assms(5,6)
proof (induction n arbitrary: x s)
  case (Suc n)
  let ?i = "(yw * 8 + 432 + y) * 1600 + xw * 16 + x"
  have i: "?i < length buf" using assms(1-4) Suc.prems(1) by (simp add: add_mult_distrib)
  have b: "unat (buf ! ?i) \<le> 255" "unat (ucast (buf ! ?i) :: u32) = unat (buf ! ?i)"
    using unsigned_less [of "buf ! ?i", where 'a = nat] by (simp_all add: unsigned_ucast_eq take_bit_nat_eq_self)
  have s: "unat (s + ucast (buf ! ?i)) = unat s + unat (buf ! ?i)"
    using unat_add_lem [of s "ucast (buf ! ?i)"] b Suc.prems(2) by simp
  obtain s' where s': "sum_cols n buf yw xw y (x + 1) (s + ucast (buf ! ?i)) = Some s'"
      "unat s' \<le> unat s + unat (buf ! ?i) + n * 255"
      "unat s' = unat s + unat (buf ! ?i) + (\<Sum>c<n. unat (buf ! ((yw * 8 + 432 + y) * 1600 + xw * 16 + (x + 1 + c))))"
    using Suc.IH [of "x + 1" "s + ucast (buf ! ?i)"] Suc.prems b s by auto
  have "(\<Sum>c<Suc n. unat (buf ! ((yw * 8 + 432 + y) * 1600 + xw * 16 + (x + c)))) = unat (buf ! ?i) +
      (\<Sum>c<n. unat (buf ! ((yw * 8 + 432 + y) * 1600 + xw * 16 + (x + 1 + c))))"
    by (subst sum.lessThan_Suc_shift) (simp add: add.assoc)
  then show ?case using i s' b(1) by (simp add: Let_def)
qed simp

lemma sum_rows_done:
  assumes "1200 * 1600 \<le> length buf" "yw < 96" "xw < 96" "y + n \<le> 8" "unat s + n * 4080 < 2 ^ 32"
  shows "\<exists>s'. sum_rows n buf yw xw y s = Some s' \<and> unat s' \<le> unat s + n * 4080 \<and>
    unat s' = unat s + (\<Sum>r<n. \<Sum>x<16. unat (buf ! ((yw * 8 + 432 + (y + r)) * 1600 + xw * 16 + x)))"
  using assms(4,5)
proof (induction n arbitrary: y s)
  case (Suc n)
  obtain s1 where s1: "sum_cols 16 buf yw xw y 0 s = Some s1" "unat s1 \<le> unat s + 4080"
      "unat s1 = unat s + (\<Sum>x<16. unat (buf ! ((yw * 8 + 432 + y) * 1600 + xw * 16 + x)))"
    using sum_cols_done [OF assms(1-3), of y 0 16 s] Suc.prems by auto
  obtain s' where s': "sum_rows n buf yw xw (y + 1) s1 = Some s'" "unat s' \<le> unat s1 + n * 4080"
      "unat s' = unat s1 + (\<Sum>r<n. \<Sum>x<16. unat (buf ! ((yw * 8 + 432 + (y + 1 + r)) * 1600 + xw * 16 + x)))"
    using Suc.IH [of "y + 1" s1] Suc.prems s1(2) by auto
  have "(\<Sum>r<Suc n. \<Sum>x<16. unat (buf ! ((yw * 8 + 432 + (y + r)) * 1600 + xw * 16 + x))) =
      (\<Sum>x<16. unat (buf ! ((yw * 8 + 432 + y) * 1600 + xw * 16 + x))) +
      (\<Sum>r<n. \<Sum>x<16. unat (buf ! ((yw * 8 + 432 + (y + 1 + r)) * 1600 + xw * 16 + x)))"
    by (subst sum.lessThan_Suc_shift) (simp add: add.assoc)
  then show ?case using s1 s' by simp
qed simp

lemma window_mean:
  assumes "1200 * 1600 \<le> length buf" "yw < 96" "xw < 96"
  shows "\<exists>s. sum_rows 8 buf yw xw 0 0 = Some s \<and> unat (ucast (drop_bit 7 s) :: u8) = window_sum buf yw xw div 128 \<and>
    window_sum buf yw xw \<le> 128 * 255"
proof -
  obtain s where s: "sum_rows 8 buf yw xw 0 0 = Some s" "unat s \<le> 8 * 4080" "unat s = window_sum buf yw xw"
    using sum_rows_done [OF assms, of 0 8 0] by (auto simp: window_sum_def)
  have "unat (drop_bit 7 s) = unat s div 128" by (simp add: drop_bit_eq_div unat_div)
  moreover have "unat s div 128 < 256" using s(2) by simp
  ultimately have "unat (ucast (drop_bit 7 s) :: u8) = unat s div 128" by (simp add: unsigned_ucast_eq take_bit_nat_eq_self)
  then show ?thesis using s by simp
qed

lemma resize_cols_done:
  assumes "1200 * 1600 \<le> length buf" "yw < 96" "xw + n \<le> 96" "length out = 9216"
  shows "\<exists>out'. resize_cols n buf yw xw (out, yw * 96 + xw) = Some (out', yw * 96 + xw + n) \<and> length out' = 9216 \<and>
    (\<forall>c. xw \<le> c \<and> c < xw + n \<longrightarrow> unat (out' ! (yw * 96 + c)) = window_sum buf yw c div 128) \<and>
    (\<forall>k < yw * 96 + xw. out' ! k = out ! k)"
  using assms(3,4)
proof (induction n arbitrary: xw out)
  case (Suc n)
  obtain s where s: "sum_rows 8 buf yw xw 0 0 = Some s" "unat (ucast (drop_bit 7 s) :: u8) = window_sum buf yw xw div 128"
    using window_mean [OF assms(1,2), of xw] Suc.prems(1) by auto
  let ?k = "yw * 96 + xw" and ?v = "ucast (drop_bit 7 s) :: u8"
  have k: "?k < 9216" using assms(2) Suc.prems(1) by simp
  have step: "resize_pixel buf yw xw (out, ?k) = Some (out[?k := ?v], ?k + 1)"
    using s(1) k Suc.prems(2) by (simp add: resize_pixel_def)
  obtain out' where out': "resize_cols n buf yw (xw + 1) (out[?k := ?v], ?k + 1) = Some (out', ?k + 1 + n)" "length out' = 9216"
      "\<forall>c. xw + 1 \<le> c \<and> c < xw + 1 + n \<longrightarrow> unat (out' ! (yw * 96 + c)) = window_sum buf yw c div 128"
      "\<forall>j < ?k + 1. out' ! j = out[?k := ?v] ! j"
    using Suc.IH [of "xw + 1" "out[?k := ?v]"] Suc.prems by (auto simp: add.assoc)
  have "unat (out' ! ?k) = window_sum buf yw xw div 128" using out'(4) k Suc.prems(2) s(2) by simp
  then have "\<forall>c. xw \<le> c \<and> c < xw + Suc n \<longrightarrow> unat (out' ! (yw * 96 + c)) = window_sum buf yw c div 128"
    using out'(3) by (metis Suc_eq_plus1 add_Suc_right add_Suc_shift le_neq_implies_less not_less_eq_eq Suc_leI)
  moreover have "\<forall>j < ?k. out' ! j = out ! j" using out'(4) by auto
  ultimately show ?case using step out'(1,2) by simp
qed auto

lemma resize_rows_done:
  assumes "1200 * 1600 \<le> length buf" "yw + n \<le> 96" "length out = 9216"
  shows "\<exists>out'. resize_rows n buf yw (out, yw * 96) = Some (out', (yw + n) * 96) \<and> length out' = 9216 \<and>
    (\<forall>r c. c < 96 \<longrightarrow> yw \<le> r \<and> r < yw + n \<longrightarrow> unat (out' ! (r * 96 + c)) = window_sum buf r c div 128) \<and>
    (\<forall>k < yw * 96. out' ! k = out ! k)"
  using assms(2,3)
proof (induction n arbitrary: yw out)
  case (Suc n)
  obtain out1 where out1: "resize_cols 96 buf yw 0 (out, yw * 96) = Some (out1, yw * 96 + 96)" "length out1 = 9216"
      "\<forall>c < 96. unat (out1 ! (yw * 96 + c)) = window_sum buf yw c div 128" "\<forall>k < yw * 96. out1 ! k = out ! k"
    using resize_cols_done [OF assms(1), of yw 0 96 out] Suc.prems by auto
  obtain out' where out': "resize_rows n buf (yw + 1) (out1, (yw + 1) * 96) = Some (out', (yw + 1 + n) * 96)" "length out' = 9216"
      "\<forall>r c. c < 96 \<longrightarrow> yw + 1 \<le> r \<and> r < yw + 1 + n \<longrightarrow> unat (out' ! (r * 96 + c)) = window_sum buf r c div 128"
      "\<forall>k < (yw + 1) * 96. out' ! k = out1 ! k"
    using Suc.IH [of "yw + 1" out1] Suc.prems out1(2) by auto
  have "unat (out' ! (yw * 96 + c)) = window_sum buf yw c div 128" if "c < 96" for c
    using out'(4) [rule_format, of "yw * 96 + c"] out1(3) that by simp
  then have "unat (out' ! (r * 96 + c)) = window_sum buf r c div 128" if "c < 96" "yw \<le> r" "r < yw + Suc n" for r c
    using out'(3) that by (cases "r = yw") auto
  moreover have "\<forall>k < yw * 96. out' ! k = out ! k" using out'(4) out1(4) by auto
  moreover have "resize_cols 96 buf yw 0 (out, yw * 96) = Some (out1, (yw + 1) * 96)" using out1(1) by (simp add: add.commute)
  ultimately show ?case using out'(1,2) by (auto simp: add.assoc)
qed auto

text \<open>
  C26: The window and the reduced picture. For every picture of at least 1600 x 1200 bytes, and when there is
  memory, cutting and reducing stay inside their buffers. The window has the 400 x 300 pixels from column
  600 and line 450 on; a pixel of the reduced picture is the mean of its field of 16 x 8 pixels, rounded down, and
  the sum it is computed from never exceeds 32640. The fields begin at line 432 and column 0: the
  432 lines at the top and the 64 columns at the right are not looked at.
\<close>

theorem tool_pictures_exact:
  assumes "1600 * 1200 \<le> length buf" "length mem = 120000" "length mem' = 9216"
  shows "\<exists>c r. crop (Some mem) buf = Some c \<and> length c = 120000 \<and> resize (Some mem') buf = Some r \<and> length r = 9216 \<and>
    (\<forall>y<300. \<forall>x<400. c ! (y * 400 + x) = buf ! ((y + 450) * 1600 + (x + 600))) \<and>
    (\<forall>y<96. \<forall>x<96. (\<Sum>j<8. \<Sum>i<16. unat (buf ! ((432 + y * 8 + j) * 1600 + (x * 16 + i)))) \<le> 32640 \<and>
       unat (r ! (y * 96 + x)) = (\<Sum>j<8. \<Sum>i<16. unat (buf ! ((432 + y * 8 + j) * 1600 + (x * 16 + i)))) div 128)"
proof -
  obtain c where c: "crop_rows 300 buf 0 mem = Some c" "length c = 120000"
      "\<forall>y<300. \<forall>x<400. c ! (y * 400 + x) = buf ! ((y + 450) * 1600 + (x + 600))"
    using crop_rows_done [of buf 0 300 mem] assms by (auto simp: add.assoc)
  obtain r where r: "resize_rows 96 buf 0 (mem', 0) = Some (r, 96 * 96)" "length r = 9216"
      "\<forall>y<96. \<forall>x<96. unat (r ! (y * 96 + x)) = window_sum buf y x div 128"
    using resize_rows_done [of buf 0 96 mem'] assms by auto
  have sum: "window_sum buf y x = (\<Sum>j<8. \<Sum>i<16. unat (buf ! ((432 + y * 8 + j) * 1600 + (x * 16 + i))))" for y x
    by (simp add: window_sum_def add.assoc add.left_commute)
  have "window_sum buf y x \<le> 32640" if "y < 96" "x < 96" for y x
    using window_mean [of buf y x] assms(1) that by auto
  then show ?thesis using c r unfolding sum by (auto simp: crop_def resize_def)
qed

theorem tool_pictures_exact_witness:
  "\<exists>c r. crop (Some (replicate 120000 0)) (replicate 1920000 7) = Some c \<and> length c = 120000 \<and>
     resize (Some (replicate 9216 0)) (replicate 1920000 7) = Some r \<and> length r = 9216"
  using tool_pictures_exact [of "replicate 1920000 7" "replicate 120000 0" "replicate 9216 0"] by auto

section \<open>The transmission\<close>

lemma transmit_long: "256 \<le> len \<Longrightarrow> transmit buf len i pos out = None"
proof (induction buf len i pos out rule: transmit.induct)
  case (1 buf len i pos out)
  have "unat i < 256" using unsigned_less [of i, where 'a = nat] by simp
  then show ?case using 1 by (subst transmit.simps) simp
qed

lemma zero_ahead: "pos < length buf \<Longrightarrow> last buf = (0::u8) \<Longrightarrow> 0 \<in> set (drop pos buf)"
  by (metis drop_eq_Nil last_drop last_in_set not_le)

lemma transmit_short:
  assumes "length buf < 256" "pos \<le> length buf"
  shows "transmit buf (length buf) (of_nat pos) pos out =
    (if pos = length buf \<or> last buf = 0
     then Some (out @ concat (map (\<lambda>j. takeWhile (\<lambda>b. b \<noteq> 0) (drop j buf)) [pos ..< length buf])) else None)"
  using assms(2)
proof (induction "length buf - pos" arbitrary: pos out)
  case 0
  then show ?case using assms(1) by (subst transmit.simps) (simp add: unat_of_nat)
next
  case (Suc n)
  then have p: "pos < length buf" by simp
  let ?s = "takeWhile (\<lambda>b. b \<noteq> 0) (drop pos buf)"
  have i: "unat (of_nat pos :: u8) = pos" using p assms(1) by (simp add: unat_of_nat)
  have step: "transmit buf (length buf) (of_nat pos) pos out =
      (if 0 \<in> set (drop pos buf) then transmit buf (length buf) (of_nat (Suc pos)) (Suc pos) (out @ ?s) else None)"
    using p i by (subst transmit.simps) (simp add: add.commute)
  have ih: "transmit buf (length buf) (of_nat (Suc pos)) (Suc pos) (out @ ?s) =
      (if Suc pos = length buf \<or> last buf = 0
       then Some (out @ ?s @ concat (map (\<lambda>j. takeWhile (\<lambda>b. b \<noteq> 0) (drop j buf)) [Suc pos ..< length buf])) else None)"
    using Suc.hyps(1) [of "Suc pos" "out @ ?s"] Suc.hyps(2) p by simp
  have last: "Suc pos = length buf \<Longrightarrow> 0 \<in> set (drop pos buf) \<longleftrightarrow> last buf = 0"
    using p by (metis Cons_nth_drop_Suc drop_all empty_set insert_iff last_drop last_ConsL le_refl list.simps(15) empty_iff)
  show ?case
    unfolding step ih using zero_ahead [OF p] last p by (auto simp: upt_conv_Cons)
qed

text \<open>
  C34: The transmission. The counter of the loop has eight bits: for a length of 256 bytes or more it is always
  below the length, and the loop leaves the buffer, whatever the picture. A shorter picture is sent
  without leaving the buffer exactly when it is empty or ends in a zero byte; what is sent is, for each position, the
  bytes up to the next zero, and this is never the picture itself, unless it is empty. So the
  program never ends with a picture from the camera sent.
\<close>

theorem picture_never_sent:
  "(256 \<le> len \<longrightarrow> transmit buf len 0 0 out = None) \<and>
   (length buf < 256 \<longrightarrow> transmit buf (length buf) 0 0 out =
     (if buf = [] \<or> last buf = 0
      then Some (out @ concat (map (\<lambda>j. takeWhile (\<lambda>b. b \<noteq> 0) (drop j buf)) [0 ..< length buf])) else None)) \<and>
   (buf \<noteq> [] \<longrightarrow> transmit buf (length buf) 0 0 out \<noteq> Some (out @ buf)) \<and>
   ((\<forall>x cam. esp_camera_fb_get ws (calls env tool_settings st) = Fb (Some x) cam \<longrightarrow> 256 \<le> snd (tool_frame cam x)) \<longrightarrow>
     tool_main env ws m1 m2 inputs st \<noteq> Tool_done sent)"
proof -
  have short: "transmit buf (length buf) 0 0 out = (if buf = [] \<or> last buf = 0
      then Some (out @ concat (map (\<lambda>j. takeWhile (\<lambda>b. b \<noteq> 0) (drop j buf)) [0 ..< length buf])) else None)" if "length buf < 256" for buf
    using transmit_short [OF that, of 0 out] by auto
  have zeros: "0 \<notin> set (concat (map (\<lambda>j. takeWhile (\<lambda>b. b \<noteq> 0) (drop j buf)) js))" for js
    by (auto dest: set_takeWhileD)
  have differs: "transmit buf (length buf) 0 0 out \<noteq> Some (out @ buf)" if "buf \<noteq> []"
  proof (cases "length buf < 256")
    case True
    have "out @ concat (map (\<lambda>j. takeWhile (\<lambda>b. b \<noteq> 0) (drop j buf)) [0 ..< length buf]) \<noteq> out @ buf" if "last buf = 0"
      using zeros [of "[0 ..< length buf]"] last_in_set [OF \<open>buf \<noteq> []\<close>] that by (metis same_append_eq)
    then show ?thesis using short [OF True] that by simp
  qed (simp add: transmit_long)
  have main: "tool_main env ws m1 m2 inputs st \<noteq> Tool_done sent"
    if "\<forall>x cam. esp_camera_fb_get ws (calls env tool_settings st) = Fb (Some x) cam \<longrightarrow> 256 \<le> snd (tool_frame cam x)"
    using that transmit_long by (auto simp: tool_main_def split: fb_result.splits option.splits prod.splits if_splits)
  show ?thesis by (intro conjI impI) (erule transmit_long short differs main)+
qed

theorem picture_never_sent_witness:
  "transmit (replicate 9216 7) 9216 0 0 start_sequence = None \<and>
   transmit [5, 6, 0] (length [5, 6, 0 :: u8]) 0 0 start_sequence = Some (start_sequence @ [5, 6, 6])"
  using picture_never_sent [where len = 9216 and buf = "replicate 9216 7" and out = start_sequence and st = "demo_camera []"
      and env = demo_env and ws = "[]"]
    picture_never_sent [where len = 3 and buf = "[5, 6, 0]" and out = start_sequence and st = "demo_camera []"
      and env = demo_env and ws = "[]"]
  by (simp add: upt_rec)

end
