(* ===== verification/Yuv.thy ===== *)
theory Yuv
  imports Prelude
begin

text \<open>
  \<^verbatim>\<open>esp32-camera/conversions/yuv.c\<close>: the table of the products a YUV pixel is converted with, and
  \<^verbatim>\<open>yuv2rgb\<close>. The table is compared with the equations it tabulates, and the conversion with the
  equations of ITU-R BT.601.
\<close>

record yuv_table_row =
  vY :: int
  vVr :: int
  vVg :: int
  vUg :: int
  vUb :: int

abbreviation yrow :: "int \<Rightarrow> int \<Rightarrow> int \<Rightarrow> int \<Rightarrow> int \<Rightarrow> yuv_table_row" where
  "yrow y vr vg ug ub \<equiv> \<lparr>vY = y, vVr = vr, vVg = vg, vUg = ug, vUb = ub\<rparr>"

definition yuv_table :: "yuv_table_row list" where
  "yuv_table = [
   yrow (-18) (-204) 50 104 (-258), yrow (-17) (-202) 49 103 (-256), yrow (-16) (-201) 49 102 (-254), yrow (-15) (-199) 48 101 (-252),
   yrow (-13) (-197) 48 100 (-250), yrow (-12) (-196) 48 99 (-248), yrow (-11) (-194) 47 99 (-246), yrow (-10) (-193) 47 98 (-244),
   yrow (-9) (-191) 46 97 (-242), yrow (-8) (-189) 46 96 (-240), yrow (-6) (-188) 46 95 (-238), yrow (-5) (-186) 45 95 (-236),
   yrow (-4) (-185) 45 94 (-234), yrow (-3) (-183) 44 93 (-232), yrow (-2) (-181) 44 92 (-230), yrow (-1) (-180) 44 91 (-228),
   yrow 0 (-178) 43 91 (-226), yrow 1 (-177) 43 90 (-223), yrow 2 (-175) 43 89 (-221), yrow 3 (-173) 42 88 (-219),
   yrow 4 (-172) 42 87 (-217), yrow 5 (-170) 41 86 (-215), yrow 6 (-169) 41 86 (-213), yrow 8 (-167) 41 85 (-211),
   yrow 9 (-165) 40 84 (-209), yrow 10 (-164) 40 83 (-207), yrow 11 (-162) 39 82 (-205), yrow 12 (-161) 39 82 (-203),
   yrow 13 (-159) 39 81 (-201), yrow 15 (-158) 38 80 (-199), yrow 16 (-156) 38 79 (-197), yrow 17 (-154) 37 78 (-195),
   yrow 18 (-153) 37 78 (-193), yrow 19 (-151) 37 77 (-191), yrow 20 (-150) 36 76 (-189), yrow 22 (-148) 36 75 (-187),
   yrow 23 (-146) 35 74 (-185), yrow 24 (-145) 35 73 (-183), yrow 25 (-143) 35 73 (-181), yrow 26 (-142) 34 72 (-179),
   yrow 27 (-140) 34 71 (-177), yrow 29 (-138) 34 70 (-175), yrow 30 (-137) 33 69 (-173), yrow 31 (-135) 33 69 (-171),
   yrow 32 (-134) 32 68 (-169), yrow 33 (-132) 32 67 (-167), yrow 34 (-130) 32 66 (-165), yrow 36 (-129) 31 65 (-163),
   yrow 37 (-127) 31 65 (-161), yrow 38 (-126) 30 64 (-159), yrow 39 (-124) 30 63 (-157), yrow 40 (-122) 30 62 (-155),
   yrow 41 (-121) 29 61 (-153), yrow 43 (-119) 29 60 (-151), yrow 44 (-118) 28 60 (-149), yrow 45 (-116) 28 59 (-147),
   yrow 46 (-114) 28 58 (-145), yrow 47 (-113) 27 57 (-143), yrow 48 (-111) 27 56 (-141), yrow 50 (-110) 26 56 (-139),
   yrow 51 (-108) 26 55 (-137), yrow 52 (-106) 26 54 (-135), yrow 53 (-105) 25 53 (-133), yrow 54 (-103) 25 52 (-131),
   yrow 55 (-102) 25 52 (-129), yrow 57 (-100) 24 51 (-127), yrow 58 (-98) 24 50 (-125), yrow 59 (-97) 23 49 (-123),
   yrow 60 (-95) 23 48 (-121), yrow 61 (-94) 23 47 (-119), yrow 62 (-92) 22 47 (-117), yrow 64 (-90) 22 46 (-115),
   yrow 65 (-89) 21 45 (-113), yrow 66 (-87) 21 44 (-110), yrow 67 (-86) 21 43 (-108), yrow 68 (-84) 20 43 (-106),
   yrow 69 (-82) 20 42 (-104), yrow 71 (-81) 19 41 (-102), yrow 72 (-79) 19 40 (-100), yrow 73 (-78) 19 39 (-98),
   yrow 74 (-76) 18 39 (-96), yrow 75 (-75) 18 38 (-94), yrow 76 (-73) 17 37 (-92), yrow 77 (-71) 17 36 (-90),
   yrow 79 (-70) 17 35 (-88), yrow 80 (-68) 16 34 (-86), yrow 81 (-67) 16 34 (-84), yrow 82 (-65) 16 33 (-82),
   yrow 83 (-63) 15 32 (-80), yrow 84 (-62) 15 31 (-78), yrow 86 (-60) 14 30 (-76), yrow 87 (-59) 14 30 (-74),
   yrow 88 (-57) 14 29 (-72), yrow 89 (-55) 13 28 (-70), yrow 90 (-54) 13 27 (-68), yrow 91 (-52) 12 26 (-66),
   yrow 93 (-51) 12 26 (-64), yrow 94 (-49) 12 25 (-62), yrow 95 (-47) 11 24 (-60), yrow 96 (-46) 11 23 (-58),
   yrow 97 (-44) 10 22 (-56), yrow 98 (-43) 10 21 (-54), yrow 100 (-41) 10 21 (-52), yrow 101 (-39) 9 20 (-50),
   yrow 102 (-38) 9 19 (-48), yrow 103 (-36) 8 18 (-46), yrow 104 (-35) 8 17 (-44), yrow 105 (-33) 8 17 (-42),
   yrow 107 (-31) 7 16 (-40), yrow 108 (-30) 7 15 (-38), yrow 109 (-28) 7 14 (-36), yrow 110 (-27) 6 13 (-34),
   yrow 111 (-25) 6 13 (-32), yrow 112 (-23) 5 12 (-30), yrow 114 (-22) 5 11 (-28), yrow 115 (-20) 5 10 (-26),
   yrow 116 (-19) 4 9 (-24), yrow 117 (-17) 4 8 (-22), yrow 118 (-15) 3 8 (-20), yrow 119 (-14) 3 7 (-18),
   yrow 121 (-12) 3 6 (-16), yrow 122 (-11) 2 5 (-14), yrow 123 (-9) 2 4 (-12), yrow 124 (-7) 1 4 (-10),
   yrow 125 (-6) 1 3 (-8), yrow 126 (-4) 1 2 (-6), yrow 128 (-3) 0 1 (-4), yrow 129 (-1) 0 0 (-2),
   yrow 130 0 0 0 0, yrow 131 1 0 0 2, yrow 132 3 0 (-1) 4, yrow 133 4 (-1) (-2) 6,
   yrow 135 6 (-1) (-3) 8, yrow 136 7 (-1) (-4) 10, yrow 137 9 (-2) (-4) 12, yrow 138 11 (-2) (-5) 14,
   yrow 139 12 (-3) (-6) 16, yrow 140 14 (-3) (-7) 18, yrow 142 15 (-3) (-8) 20, yrow 143 17 (-4) (-8) 22,
   yrow 144 19 (-4) (-9) 24, yrow 145 20 (-5) (-10) 26, yrow 146 22 (-5) (-11) 28, yrow 147 23 (-5) (-12) 30,
   yrow 148 25 (-6) (-13) 32, yrow 150 27 (-6) (-13) 34, yrow 151 28 (-7) (-14) 36, yrow 152 30 (-7) (-15) 38,
   yrow 153 31 (-7) (-16) 40, yrow 154 33 (-8) (-17) 42, yrow 155 35 (-8) (-17) 44, yrow 157 36 (-8) (-18) 46,
   yrow 158 38 (-9) (-19) 48, yrow 159 39 (-9) (-20) 50, yrow 160 41 (-10) (-21) 52, yrow 161 43 (-10) (-21) 54,
   yrow 162 44 (-10) (-22) 56, yrow 164 46 (-11) (-23) 58, yrow 165 47 (-11) (-24) 60, yrow 166 49 (-12) (-25) 62,
   yrow 167 51 (-12) (-26) 64, yrow 168 52 (-12) (-26) 66, yrow 169 54 (-13) (-27) 68, yrow 171 55 (-13) (-28) 70,
   yrow 172 57 (-14) (-29) 72, yrow 173 59 (-14) (-30) 74, yrow 174 60 (-14) (-30) 76, yrow 175 62 (-15) (-31) 78,
   yrow 176 63 (-15) (-32) 80, yrow 178 65 (-16) (-33) 82, yrow 179 67 (-16) (-34) 84, yrow 180 68 (-16) (-34) 86,
   yrow 181 70 (-17) (-35) 88, yrow 182 71 (-17) (-36) 90, yrow 183 73 (-17) (-37) 92, yrow 185 75 (-18) (-38) 94,
   yrow 186 76 (-18) (-39) 96, yrow 187 78 (-19) (-39) 98, yrow 188 79 (-19) (-40) 100, yrow 189 81 (-19) (-41) 102,
   yrow 190 82 (-20) (-42) 104, yrow 192 84 (-20) (-43) 106, yrow 193 86 (-21) (-43) 108, yrow 194 87 (-21) (-44) 110,
   yrow 195 89 (-21) (-45) 113, yrow 196 90 (-22) (-46) 115, yrow 197 92 (-22) (-47) 117, yrow 199 94 (-23) (-47) 119,
   yrow 200 95 (-23) (-48) 121, yrow 201 97 (-23) (-49) 123, yrow 202 98 (-24) (-50) 125, yrow 203 100 (-24) (-51) 127,
   yrow 204 102 (-25) (-52) 129, yrow 206 103 (-25) (-52) 131, yrow 207 105 (-25) (-53) 133, yrow 208 106 (-26) (-54) 135,
   yrow 209 108 (-26) (-55) 137, yrow 210 110 (-26) (-56) 139, yrow 211 111 (-27) (-56) 141, yrow 213 113 (-27) (-57) 143,
   yrow 214 114 (-28) (-58) 145, yrow 215 116 (-28) (-59) 147, yrow 216 118 (-28) (-60) 149, yrow 217 119 (-29) (-60) 151,
   yrow 218 121 (-29) (-61) 153, yrow 219 122 (-30) (-62) 155, yrow 221 124 (-30) (-63) 157, yrow 222 126 (-30) (-64) 159,
   yrow 223 127 (-31) (-65) 161, yrow 224 129 (-31) (-65) 163, yrow 225 130 (-32) (-66) 165, yrow 226 132 (-32) (-67) 167,
   yrow 228 134 (-32) (-68) 169, yrow 229 135 (-33) (-69) 171, yrow 230 137 (-33) (-69) 173, yrow 231 138 (-34) (-70) 175,
   yrow 232 140 (-34) (-71) 177, yrow 233 142 (-34) (-72) 179, yrow 235 143 (-35) (-73) 181, yrow 236 145 (-35) (-73) 183,
   yrow 237 146 (-35) (-74) 185, yrow 238 148 (-36) (-75) 187, yrow 239 150 (-36) (-76) 189, yrow 240 151 (-37) (-77) 191,
   yrow 242 153 (-37) (-78) 193, yrow 243 154 (-37) (-78) 195, yrow 244 156 (-38) (-79) 197, yrow 245 158 (-38) (-80) 199,
   yrow 246 159 (-39) (-81) 201, yrow 247 161 (-39) (-82) 203, yrow 249 162 (-39) (-82) 205, yrow 250 164 (-40) (-83) 207,
   yrow 251 165 (-40) (-84) 209, yrow 252 167 (-41) (-85) 211, yrow 253 169 (-41) (-86) 213, yrow 254 170 (-41) (-86) 215,
   yrow 256 172 (-42) (-87) 217, yrow 257 173 (-42) (-88) 219, yrow 258 175 (-43) (-89) 221, yrow 259 177 (-43) (-90) 223,
   yrow 260 178 (-43) (-91) 226, yrow 261 180 (-44) (-91) 228, yrow 263 181 (-44) (-92) 230, yrow 264 183 (-44) (-93) 232,
   yrow 265 185 (-45) (-94) 234, yrow 266 186 (-45) (-95) 236, yrow 267 188 (-46) (-95) 238, yrow 268 189 (-46) (-96) 240,
   yrow 270 191 (-46) (-97) 242, yrow 271 193 (-47) (-98) 244, yrow 272 194 (-47) (-99) 246, yrow 273 196 (-48) (-99) 248,
   yrow 274 197 (-48) (-100) 250, yrow 275 199 (-48) (-101) 252, yrow 277 201 (-49) (-102) 254, yrow 278 202 (-49) (-103) 256]"

definition int16 :: "int \<Rightarrow> int" where
  "int16 v = (v + 2 ^ 15) mod 2 ^ 16 - 2 ^ 15"

definition YUYV_CONSTRAIN :: "int \<Rightarrow> int" where
  "YUYV_CONSTRAIN v = (if v < 0 then 0 else if v > 255 then 255 else v)"

definition yuv2rgb :: "u8 \<Rightarrow> u8 \<Rightarrow> u8 \<Rightarrow> u8 \<times> u8 \<times> u8" where
  "yuv2rgb y u v =
    (let ri = int16 (vY (yuv_table ! unat y) + vVr (yuv_table ! unat v));
         gi = int16 (vY (yuv_table ! unat y) + vUg (yuv_table ! unat u) + vVg (yuv_table ! unat v));
         bi = int16 (vY (yuv_table ! unat y) + vUb (yuv_table ! unat u))
     in (word_of_int (YUYV_CONSTRAIN ri), word_of_int (YUYV_CONSTRAIN gi), word_of_int (YUYV_CONSTRAIN bi)))"

section \<open>The table\<close>

text \<open>C's conversion of a quotient to an integer, towards zero.\<close>

definition toward_zero :: "int \<Rightarrow> int \<Rightarrow> int" where
  "toward_zero n d = (if n < 0 then - ((- n) div d) else n div d)"

definition row_exact :: "nat \<Rightarrow> yuv_table_row \<Rightarrow> bool" where
  "row_exact i r \<longleftrightarrow>
    vY r = toward_zero (1164 * (int i - 16)) 1000 \<and> vVr r = toward_zero (1596 * (int i - 128)) 1000 \<and>
    vVg r = toward_zero (- 391 * (int i - 128)) 1000 \<and> vUg r = toward_zero (- 813 * (int i - 128)) 1000 \<and>
    vUb r = toward_zero (2018 * (int i - 128)) 1000"

fun rows_exact :: "nat \<Rightarrow> yuv_table_row list \<Rightarrow> bool" where
  "rows_exact i [] = True"
| "rows_exact i (r # rs) \<longleftrightarrow> row_exact i r \<and> rows_exact (Suc i) rs"

lemma rows_exact_nth: "rows_exact i rs \<Longrightarrow> k < length rs \<Longrightarrow> row_exact (i + k) (rs ! k)"
proof (induction rs arbitrary: i k)
  case (Cons r rs)
  then show ?case
    by (cases k) (auto dest: Cons.IH [of "Suc i"])
qed simp

lemma table_length: "length yuv_table = 256"
  by (simp add: yuv_table_def)

lemma table_rows_exact: "rows_exact 0 yuv_table"
  by code_simp

lemma table_exact: "row_exact (unat b) (yuv_table ! unat b)" for b :: u8
  using rows_exact_nth [OF table_rows_exact, of "unat b"] unsigned_less [of b, where 'a = nat] by (simp add: table_length)

section \<open>The conversion\<close>

text \<open>
  The equations of BT.601 in thousandths: \<open>y\<close>, \<open>u\<close>, \<open>v\<close> are the bytes of the pixel. \<open>green_as_coded\<close> is
  the equation the code computes: the factors of \<open>u\<close> and \<open>v\<close> in the green are exchanged.
\<close>

definition bt601_red :: "u8 \<Rightarrow> u8 \<Rightarrow> int" where
  "bt601_red y v = 1164 * (uint y - 16) + 1596 * (uint v - 128)"

definition bt601_green :: "u8 \<Rightarrow> u8 \<Rightarrow> u8 \<Rightarrow> int" where
  "bt601_green y u v = 1164 * (uint y - 16) - 391 * (uint u - 128) - 813 * (uint v - 128)"

definition bt601_blue :: "u8 \<Rightarrow> u8 \<Rightarrow> int" where
  "bt601_blue y u = 1164 * (uint y - 16) + 2018 * (uint u - 128)"

definition green_as_coded :: "u8 \<Rightarrow> u8 \<Rightarrow> u8 \<Rightarrow> int" where
  "green_as_coded y u v = 1164 * (uint y - 16) - 813 * (uint u - 128) - 391 * (uint v - 128)"

definition byte_range :: "int \<Rightarrow> int" where
  "byte_range e = max 0 (min 255000 e)"

lemma toward_zero_near: "\<bar>1000 * toward_zero n 1000 - n\<bar> < 1000"
  using div_mult_mod_eq [of n 1000] pos_mod_bound [of 1000 n] pos_mod_sign [of 1000 n]
    div_mult_mod_eq [of "- n" 1000] pos_mod_bound [of 1000 "- n"] pos_mod_sign [of 1000 "- n"]
  unfolding toward_zero_def abs_less_iff by (cases "n < 0") (simp_all only: if_True if_False, linarith+)

lemma constrain_near:
  assumes "\<bar>1000 * s - e\<bar> < k" "\<bar>s\<bar> < 2 ^ 15"
  shows "\<bar>1000 * uint (word_of_int (YUYV_CONSTRAIN (int16 s)) :: u8) - byte_range e\<bar> < k"
proof -
  have "int16 s = s"
    using assms(2) by (simp add: int16_def mod_pos_pos_trivial)
  then show ?thesis
    using assms(1) by (auto simp: YUYV_CONSTRAIN_def byte_range_def uint_word_of_int take_bit_eq_mod max_def min_def)
qed

lemma byte_bounds: "0 \<le> uint b" "uint b < 256" for b :: u8
  using unsigned_less [of b, where 'a = int] by simp_all

lemma cell_near:
  fixes b :: u8
  shows "\<bar>1000 * vY (yuv_table ! unat b) - 1164 * (uint b - 16)\<bar> < 1000"
    and "\<bar>1000 * vVr (yuv_table ! unat b) - 1596 * (uint b - 128)\<bar> < 1000"
    and "\<bar>1000 * vVg (yuv_table ! unat b) + 391 * (uint b - 128)\<bar> < 1000"
    and "\<bar>1000 * vUg (yuv_table ! unat b) + 813 * (uint b - 128)\<bar> < 1000"
    and "\<bar>1000 * vUb (yuv_table ! unat b) - 2018 * (uint b - 128)\<bar> < 1000"
  using table_exact [of b] toward_zero_near [of "1164 * (uint b - 16)"] toward_zero_near [of "1596 * (uint b - 128)"]
    toward_zero_near [of "- 391 * (uint b - 128)"] toward_zero_near [of "- 813 * (uint b - 128)"]
    toward_zero_near [of "2018 * (uint b - 128)"]
  by (simp_all add: row_exact_def)

lemma product_small: "\<bar>1000 * c - e\<bar> < 1000 \<Longrightarrow> \<bar>e\<bar> < 300000 \<Longrightarrow> \<bar>c\<bar> < (1000 :: int)"
  "\<bar>1000 * c + e\<bar> < 1000 \<Longrightarrow> \<bar>e\<bar> < 300000 \<Longrightarrow> \<bar>c\<bar> < (1000 :: int)"
  by linarith+

lemma cell_small:
  fixes b :: u8
  shows "\<bar>vY (yuv_table ! unat b)\<bar> < 1000" "\<bar>vVr (yuv_table ! unat b)\<bar> < 1000" "\<bar>vVg (yuv_table ! unat b)\<bar> < 1000"
    and "\<bar>vUg (yuv_table ! unat b)\<bar> < 1000" "\<bar>vUb (yuv_table ! unat b)\<bar> < 1000"
proof -
  have e: "\<bar>1164 * (uint b - 16)\<bar> < 300000" "\<bar>1596 * (uint b - 128)\<bar> < 300000" "\<bar>391 * (uint b - 128)\<bar> < 300000"
    "\<bar>813 * (uint b - 128)\<bar> < 300000" "\<bar>2018 * (uint b - 128)\<bar> < 300000"
    using byte_bounds(2) [of b] by (simp_all add: abs_less_iff algebra_simps) (use byte_bounds(1) [of b] in linarith)+
  show "\<bar>vY (yuv_table ! unat b)\<bar> < 1000" by (rule product_small(1) [OF cell_near(1) e(1)])
  show "\<bar>vVr (yuv_table ! unat b)\<bar> < 1000" by (rule product_small(1) [OF cell_near(2) e(2)])
  show "\<bar>vVg (yuv_table ! unat b)\<bar> < 1000" by (rule product_small(2) [OF cell_near(3) e(3)])
  show "\<bar>vUg (yuv_table ! unat b)\<bar> < 1000" by (rule product_small(2) [OF cell_near(4) e(4)])
  show "\<bar>vUb (yuv_table ! unat b)\<bar> < 1000" by (rule product_small(1) [OF cell_near(5) e(5)])
qed

lemma small_sum2: "\<bar>s\<bar> < 1000 \<Longrightarrow> \<bar>t\<bar> < 1000 \<Longrightarrow> \<bar>s + t\<bar> < (2 ^ 15 :: int)"
  by (auto simp: abs_less_iff)

lemma small_sum3: "\<bar>s\<bar> < 1000 \<Longrightarrow> \<bar>t\<bar> < 1000 \<Longrightarrow> \<bar>q\<bar> < 1000 \<Longrightarrow> \<bar>s + t + q\<bar> < (2 ^ 15 :: int)"
  by (auto simp: abs_less_iff)

lemma sum_near:
  "\<bar>1000 * s - e\<bar> < 1000 \<Longrightarrow> \<bar>1000 * t - f\<bar> < 1000 \<Longrightarrow> \<bar>1000 * (s + t) - (e + f)\<bar> < (2000 :: int)"
  unfolding abs_less_iff by (auto simp: algebra_simps)

lemma sum3_near:
  "\<bar>1000 * s - e\<bar> < 1000 \<Longrightarrow> \<bar>1000 * t + f\<bar> < 1000 \<Longrightarrow> \<bar>1000 * q + h\<bar> < 1000 \<Longrightarrow>
   \<bar>1000 * (s + t + q) - (e - f - h)\<bar> < (3000 :: int)"
  unfolding abs_less_iff by (auto simp: algebra_simps)

text \<open>
  C36: Red and blue of a converted pixel are less than two steps away from the equations of BT.601, cut to the
  range of a byte, and green less than three steps from the equation with the factors of U and V
  exchanged; the exchange makes pixels whose green is more than a hundred steps away from BT.601.
\<close>

theorem yuv_near_bt601:
  "(case yuv2rgb y u v of (r, g, b) \<Rightarrow>
     \<bar>1000 * uint r - byte_range (bt601_red y v)\<bar> < 2000 \<and>
     \<bar>1000 * uint g - byte_range (green_as_coded y u v)\<bar> < 3000 \<and>
     \<bar>1000 * uint b - byte_range (bt601_blue y u)\<bar> < 2000) \<and>
   (\<exists>y u v. \<bar>1000 * uint (fst (snd (yuv2rgb y u v))) - byte_range (bt601_green y u v)\<bar> > 100000)"
proof
  note red = sum_near [OF cell_near(1,2), of y v]
    and green = sum3_near [OF cell_near(1,4,3), of y u v]
    and blue = sum_near [OF cell_near(1,5), of y u]
  show "case yuv2rgb y u v of (r, g, b) \<Rightarrow>
     \<bar>1000 * uint r - byte_range (bt601_red y v)\<bar> < 2000 \<and>
     \<bar>1000 * uint g - byte_range (green_as_coded y u v)\<bar> < 3000 \<and>
     \<bar>1000 * uint b - byte_range (bt601_blue y u)\<bar> < 2000"
    unfolding yuv2rgb_def Let_def prod.case bt601_red_def green_as_coded_def bt601_blue_def
  proof (intro conjI)
    show "\<bar>1000 * uint (word_of_int (YUYV_CONSTRAIN (int16 (vY (yuv_table ! unat y) + vVr (yuv_table ! unat v)))) :: u8)
        - byte_range (1164 * (uint y - 16) + 1596 * (uint v - 128))\<bar> < 2000"
      by (rule constrain_near [OF red small_sum2 [OF cell_small(1,2)]])
    show "\<bar>1000 * uint (word_of_int (YUYV_CONSTRAIN (int16 (vY (yuv_table ! unat y) + vUg (yuv_table ! unat u)
          + vVg (yuv_table ! unat v)))) :: u8)
        - byte_range (1164 * (uint y - 16) - 813 * (uint u - 128) - 391 * (uint v - 128))\<bar> < 3000"
      by (rule constrain_near [OF green small_sum3 [OF cell_small(1,4,3)]])
    show "\<bar>1000 * uint (word_of_int (YUYV_CONSTRAIN (int16 (vY (yuv_table ! unat y) + vUb (yuv_table ! unat u)))) :: u8)
        - byte_range (1164 * (uint y - 16) + 2018 * (uint u - 128))\<bar> < 2000"
      by (rule constrain_near [OF blue small_sum2 [OF cell_small(1,5)]])
  qed
  have "\<bar>1000 * uint (fst (snd (yuv2rgb 128 255 0))) - byte_range (bt601_green 128 255 0)\<bar> > 100000"
    by code_simp
  then show "\<exists>y u v. \<bar>1000 * uint (fst (snd (yuv2rgb y u v))) - byte_range (bt601_green y u v)\<bar> > 100000"
    by blast
qed

end
