(* ===== verification/Jpg_Decode.thy ===== *)
theory Jpg_Decode
  imports Prelude
begin

text \<open>
  \<^verbatim>\<open>esp32-camera/conversions/esp_jpg_decode.c\<close>: the frame around the JPEG decoder of the chip's ROM. The decoder
  itself is a parameter: a terminating program that asks its input function for bytes, hands rectangles
  to its output function, and returns a result. A callback that leaves its memory is \<open>None\<close>.
\<close>

section \<open>The decoder as a program of requests\<close>

record JRECT =
  left :: u16
  right :: u16
  top :: u16
  bottom :: u16

text \<open>
  \<open>Jd_In n buf k\<close> calls the input function for \<open>n\<close> bytes, into a buffer or (\<open>buf\<close> false) to skip them, and goes on
  with the number it returns and the bytes it stored; \<open>Jd_Out rect bitmap k\<close> calls the output function.
\<close>

datatype 'r jd = Jd_Ret 'r | Jd_In nat bool "nat \<times> u8 list \<Rightarrow> 'r jd" | Jd_Out JRECT "u8 list" "nat \<Rightarrow> 'r jd"

type_synonym JRESULT = nat

definition JDR_OK :: JRESULT where "JDR_OK = 0"

text \<open>What \<^verbatim>\<open>jd_prepare\<close> leaves in the decoder object, and the program \<^verbatim>\<open>jd_decomp\<close> then runs for a scale.\<close>

record jd_prepared =
  prep_result :: JRESULT
  prep_width :: u16
  prep_height :: u16
  prep_decomp :: "nat \<Rightarrow> JRESULT jd"

datatype jpg_scale_t = JPG_SCALE_NONE | JPG_SCALE_2X | JPG_SCALE_4X | JPG_SCALE_8X

fun scale_value :: "jpg_scale_t \<Rightarrow> nat" where
  "scale_value JPG_SCALE_NONE = 0"
| "scale_value JPG_SCALE_2X = 1"
| "scale_value JPG_SCALE_4X = 2"
| "scale_value JPG_SCALE_8X = 3"

section \<open>The callbacks\<close>

text \<open>
  The caller's callbacks work on its own state \<open>'s\<close>, the \<^verbatim>\<open>arg\<close> pointer. The reader returns a number of bytes
  and the bytes stored in the buffer; the writer gets \<open>None\<close> as data for a null pointer.
\<close>

type_synonym 's jpg_reader_cb = "'s \<Rightarrow> nat \<Rightarrow> bool \<Rightarrow> nat \<Rightarrow> ((nat \<times> u8 list) \<times> 's) option"
type_synonym 's jpg_writer_cb = "'s \<Rightarrow> u16 \<Rightarrow> u16 \<Rightarrow> u16 \<Rightarrow> u16 \<Rightarrow> u8 list option \<Rightarrow> (bool \<times> 's) option"

definition jd_jpg_write :: "'s jpg_writer_cb \<Rightarrow> JRECT \<Rightarrow> u8 list \<Rightarrow> 's \<Rightarrow> (nat \<times> 's) option" where
  "jd_jpg_write writer rect bitmap arg =
    (let x = left rect; y = top rect; w = right rect + 1 - x; h = bottom rect + 1 - y in
     map_option (\<lambda>(ok, arg). (if ok then 1 else 0, arg)) (writer arg x y w h (Some bitmap)))"

text \<open>The state of a run is the caller's state and the position \<^verbatim>\<open>index\<close> in the input of \<open>jlen\<close> bytes.\<close>

definition jd_jpg_read :: "'s jpg_reader_cb \<Rightarrow> nat \<Rightarrow> bool \<Rightarrow> nat \<Rightarrow> 's \<times> nat \<Rightarrow> ((nat \<times> u8 list) \<times> 's \<times> nat) option" where
  "jd_jpg_read reader jlen buf n = (\<lambda>(arg, index).
     let rest = wrap32 (jlen + 2 ^ 32 - index);
         n = (if jlen \<noteq> 0 \<and> n > rest then rest else n)
     in if n \<noteq> 0
        then map_option (\<lambda>((n, bytes), arg). ((n, bytes), arg, wrap32 (index + n))) (reader arg index buf n)
        else Some ((0, []), arg, index))"

section \<open>Decoding\<close>

primrec jd_run :: "'s jpg_reader_cb \<Rightarrow> 's jpg_writer_cb \<Rightarrow> nat \<Rightarrow> 'r jd \<Rightarrow> 's \<times> nat \<Rightarrow> ('r \<times> 's \<times> nat) option" where
  "jd_run reader writer jlen (Jd_Ret r) = (\<lambda>st. Some (r, st))"
| "jd_run reader writer jlen (Jd_In n buf k) = (\<lambda>st.
     Option.bind (jd_jpg_read reader jlen buf n st) (\<lambda>(got, st). jd_run reader writer jlen (k got) st))"
| "jd_run reader writer jlen (Jd_Out rect bitmap k) = (\<lambda>(arg, index).
     Option.bind (jd_jpg_write writer rect bitmap arg) (\<lambda>(ok, arg). jd_run reader writer jlen (k ok) (arg, index)))"

text \<open>\<^verbatim>\<open>jd_prepare\<close> has no output function: calling one there is outside the model.\<close>

definition no_output :: "'s jpg_writer_cb" where
  "no_output arg x y w h data = None"

definition esp_jpg_decode :: "jd_prepared jd \<Rightarrow> nat \<Rightarrow> jpg_scale_t \<Rightarrow> 's jpg_reader_cb \<Rightarrow> 's jpg_writer_cb \<Rightarrow> 's \<Rightarrow>
    (esp_err_t \<times> 's) option" where
  "esp_jpg_decode prepare jlen scale reader writer arg =
    Option.bind (jd_run reader no_output jlen prepare (arg, 0)) (\<lambda>(decoder, arg, index).
    if prep_result decoder \<noteq> JDR_OK then Some (ESP_FAIL, arg)
    else
      let output_width = prep_width decoder div 2 ^ scale_value scale;
          output_height = prep_height decoder div 2 ^ scale_value scale
      in Option.bind (writer arg 0 0 output_width output_height None) (\<lambda>(_, arg).
         Option.bind (jd_run reader writer jlen (prep_decomp decoder (scale_value scale)) (arg, index)) (\<lambda>(jres, arg, index).
         Option.bind (writer arg output_width output_height output_width output_height None) (\<lambda>(_, arg).
         if jres \<noteq> JDR_OK then Some (ESP_FAIL, arg)
         else if jlen \<noteq> 0 \<and> index < jlen
         then map_option (\<lambda>(_, arg, _). (ESP_OK, arg)) (jd_jpg_read reader jlen False (jlen - index) (arg, index))
         else Some (ESP_OK, arg)))))"

section \<open>Replaying a decoder\<close>

text \<open>
  What a decoder draws from an input is found by running it with a writer that only notes the rectangles;
  the run of a real writer that accepts them is then the same run, with the rectangles written in order.
\<close>

type_synonym block = "JRECT \<times> u8 list"

definition bytes_at :: "u8 list \<Rightarrow> nat \<Rightarrow> bool \<Rightarrow> nat \<Rightarrow> (nat \<times> u8 list) option" where
  "bytes_at src index buf n =
    (if buf then if index + n \<le> length src then Some (n, mem_read src index n) else None else Some (n, []))"

definition note_reader :: "u8 list \<Rightarrow> 's jpg_reader_cb" where
  "note_reader src s index buf n = map_option (\<lambda>got. (got, s)) (bytes_at src index buf n)"

primrec jd_draws :: "u8 list \<Rightarrow> nat \<Rightarrow> 'r jd \<Rightarrow> nat \<Rightarrow> ('r \<times> block list \<times> nat) option" where
  "jd_draws src jlen (Jd_Ret r) = (\<lambda>index. Some (r, [], index))"
| "jd_draws src jlen (Jd_In n buf k) = (\<lambda>index.
     Option.bind (jd_jpg_read (note_reader src) jlen buf n ((), index)) (\<lambda>(got, _, index). jd_draws src jlen (k got) index))"
| "jd_draws src jlen (Jd_Out rect bitmap k) = (\<lambda>index.
     map_option (\<lambda>(r, bs, index). (r, (rect, bitmap) # bs, index)) (jd_draws src jlen (k 1) index))"

fun write_blocks :: "'s jpg_writer_cb \<Rightarrow> block list \<Rightarrow> 's \<Rightarrow> 's option" where
  "write_blocks writer [] s = Some s"
| "write_blocks writer ((rect, bitmap) # bs) s =
    (case jd_jpg_write writer rect bitmap s of
       Some (ok, s) \<Rightarrow> if ok = 1 then write_blocks writer bs s else None
     | None \<Rightarrow> None)"

locale memory_source =
  fixes reader :: "'s jpg_reader_cb" and writer :: "'s jpg_writer_cb" and source :: "'s \<Rightarrow> u8 list"
  assumes reads_source: "reader s index buf n = map_option (\<lambda>got. (got, s)) (bytes_at (source s) index buf n)"
    and keeps_source: "writer s x y w h d = Some (ok, s') \<Longrightarrow> source s' = source s"
begin

lemma read_noted:
  "jd_jpg_read reader jlen buf n (s, i) =
     map_option (\<lambda>(got, _, i). (got, s, i)) (jd_jpg_read (note_reader (source s)) jlen buf n ((), i))"
  by (auto simp: jd_jpg_read_def Let_def reads_source note_reader_def option.map_comp comp_def split_beta)

lemma write_keeps:
  "jd_jpg_write writer rect d s = Some (ok, s') \<Longrightarrow> source s' = source s"
  by (auto simp: jd_jpg_write_def Let_def dest: keeps_source)

lemma replay:
  "jd_draws (source s) jlen t i = Some (r, bs, j) \<Longrightarrow> write_blocks writer bs s = Some s' \<Longrightarrow>
   jd_run reader writer jlen t (s, i) = Some (r, s', j)"
proof (induction t arbitrary: s i bs)
  case (Jd_In n buf k)
  then show ?case
    by (auto simp: read_noted bind_eq_Some_conv)
next
  case (Jd_Out rect bitmap k)
  from Jd_Out.prems obtain rest s1 where rest: "jd_draws (source s) jlen (k 1) i = Some (r, rest, j)"
    and step: "jd_jpg_write writer rect bitmap s = Some (1, s1)" "write_blocks writer rest s1 = Some s'"
    by (auto split: option.splits if_splits)
  have "jd_run reader writer jlen (k 1) (s1, i) = Some (r, s', j)"
    using Jd_Out.IH [OF _ _ step(2)] rest write_keeps [OF step(1)] by simp
  with step(1) show ?case by simp
qed simp

lemma replay_reading:
  "jd_draws (source s) jlen t i = Some (r, [], j) \<Longrightarrow> jd_run reader no_output jlen t (s, i) = Some (r, s, j)"
proof (induction t arbitrary: i)
  case (Jd_In n buf k)
  then show ?case
    by (auto simp: read_noted bind_eq_Some_conv)
qed auto

lemma first_write_fails:
  "jd_draws (source s) jlen t i = Some (r, (rect, bitmap) # bs, j) \<Longrightarrow> jd_jpg_write writer rect bitmap s = None \<Longrightarrow>
   jd_run reader writer jlen t (s, i) = None"
proof (induction t arbitrary: i)
  case (Jd_In n buf k)
  then show ?case
    by (auto simp: read_noted bind_eq_Some_conv)
qed auto

text \<open>The result of a decoding from what the decoder draws; the second clause is a header that is refused.\<close>

lemma decoded:
  assumes "jd_draws (source s) jlen prepare 0 = Some (p, [], i)" "prep_result p = JDR_OK"
    and "writer s 0 0 (prep_width p div 2 ^ scale_value scale) (prep_height p div 2 ^ scale_value scale) None = Some (ok, s1)"
    and "jd_draws (source s) jlen (prep_decomp p (scale_value scale)) i = Some (r, bs, j)" "write_blocks writer bs s1 = Some s2"
    and "writer s2 (prep_width p div 2 ^ scale_value scale) (prep_height p div 2 ^ scale_value scale)
      (prep_width p div 2 ^ scale_value scale) (prep_height p div 2 ^ scale_value scale) None = Some (ok', s3)"
  shows "esp_jpg_decode prepare jlen scale reader writer s = Some (if r = JDR_OK then ESP_OK else ESP_FAIL, s3)"
proof -
  have "jd_run reader no_output jlen prepare (s, 0) = Some (p, s, i)"
    using assms(1) by (rule replay_reading)
  moreover have "jd_run reader writer jlen (prep_decomp p (scale_value scale)) (s1, i) = Some (r, s2, j)"
    using assms(4,5) keeps_source [OF assms(3)] by (intro replay) simp_all
  moreover have "\<exists>got i'. jd_jpg_read reader jlen False n (s3, j) = Some (got, s3, i')" for n
    by (simp add: jd_jpg_read_def Let_def reads_source bytes_at_def)
  then obtain got i' where "jd_jpg_read reader jlen False (jlen - j) (s3, j) = Some (got, s3, i')" by blast
  ultimately show ?thesis
    using assms(2,3,6) by (simp add: esp_jpg_decode_def Let_def)
qed

lemma decoding_crashes:
  assumes "jd_draws (source s) jlen prepare 0 = Some (p, [], i)" "prep_result p = JDR_OK"
    and "writer s 0 0 (prep_width p div 2 ^ scale_value scale) (prep_height p div 2 ^ scale_value scale) None = Some (ok, s1)"
    and "jd_draws (source s) jlen (prep_decomp p (scale_value scale)) i = Some (r, (rect, bitmap) # bs, j)"
    and "jd_jpg_write writer rect bitmap s1 = None"
  shows "esp_jpg_decode prepare jlen scale reader writer s = None"
proof -
  have "jd_run reader writer jlen (prep_decomp p (scale_value scale)) (s1, i) = None"
    using assms(4,5) keeps_source [OF assms(3)] by (intro first_write_fails [of s1]) simp_all
  with replay_reading [OF assms(1)] assms(2,3) show ?thesis
    by (simp add: esp_jpg_decode_def Let_def)
qed

lemma header_refused:
  "jd_draws (source s) jlen prepare 0 = Some (p, [], i) \<Longrightarrow> prep_result p \<noteq> JDR_OK \<Longrightarrow>
   esp_jpg_decode prepare jlen scale reader writer s = Some (ESP_FAIL, s)"
  using replay_reading [of s jlen prepare 0 p i] by (simp add: esp_jpg_decode_def)

end

end
