(* ===== verification/To_Bmp.thy ===== *)
theory To_Bmp
  imports LL_Cam Yuv Jpg_Decode
begin

text \<open>
  \<^verbatim>\<open>esp32-camera/conversions/to_bmp.c\<close>: frames converted to RGB888 and to BMP files, and the two writers that
  put the rectangles of a decoded JPEG into a picture. A buffer is the list of its bytes; an access outside
  one, the use of a null pointer and an overflow of a signed integer are \<open>None\<close>. \<open>heap\<close> is what the
  allocator answers for a size, the list \<open>live\<close> the sizes of the blocks it has given out.
\<close>

definition BMP_HEADER_LEN :: nat where "BMP_HEADER_LEN = 54"

record rgb_jpg_decoder =
  jpg_width :: u16
  jpg_height :: u16
  data_offset :: u16
  jpg_input :: "u8 list"
  jpg_output :: "u8 list option"

type_synonym heap = "nat \<Rightarrow> u8 list option"
type_synonym jpg_arg = "rgb_jpg_decoder \<times> nat list"

definition malloc_spiram :: "heap \<Rightarrow> nat \<Rightarrow> nat list \<Rightarrow> u8 list option \<times> nat list" where
  "malloc_spiram heap n live = (case heap n of None \<Rightarrow> (None, live) | Some b \<Rightarrow> (Some b, n # live))"

text \<open>A signed integer of 32 bits.\<close>

definition as_int :: "nat \<Rightarrow> nat option" where
  "as_int n = (if n < 2 ^ 31 then Some n else None)"

text \<open>The memory behind a pointer: none behind the null pointer.\<close>

definition memory_of :: "u8 list option \<Rightarrow> u8 list" where
  "memory_of p = (case p of None \<Rightarrow> [] | Some b \<Rightarrow> b)"

section \<open>The writers\<close>

text \<open>The call without data that opens or closes a picture; both writers start with it.\<close>

definition write_start :: "heap \<Rightarrow> jpg_arg \<Rightarrow> u16 \<Rightarrow> u16 \<Rightarrow> u16 \<Rightarrow> u16 \<Rightarrow> (bool \<times> jpg_arg) option" where
  "write_start heap = (\<lambda>(jpeg, live) x y w h.
     if x = 0 \<and> y = 0
     then let jpeg = jpeg\<lparr>jpg_width := w, jpg_height := h\<rparr> in
          case jpg_output jpeg of
            None \<Rightarrow> Option.bind (as_int (unat w * unat h * 3 + unat (data_offset jpeg))) (\<lambda>n.
              case malloc_spiram heap n live of
                (None, live) \<Rightarrow> Some (False, jpeg, live)
              | (Some b, live) \<Rightarrow> Some (True, jpeg\<lparr>jpg_output := Some b\<rparr>, live))
          | Some _ \<Rightarrow> Some (True, jpeg, live)
     else Some (True, jpeg, live))"

function rgb_cols :: "nat \<Rightarrow> u8 list \<Rightarrow> nat \<Rightarrow> nat \<Rightarrow> nat \<Rightarrow> u8 list \<Rightarrow> u8 list option" where
  "rgb_cols w data d out ix buf =
    (if ix < w
     then if d + ix + 2 < length data \<and> out + ix + 2 < length buf
          then rgb_cols w data d out (ix + 3)
            (buf[out + ix := data ! (d + ix + 2), out + ix + 1 := data ! (d + ix + 1), out + ix + 2 := data ! (d + ix)])
          else None
     else Some buf)"
  by pat_completeness auto
termination
  by (relation "measure (\<lambda>(w, data, d, out, ix, buf). w - ix)") auto

declare rgb_cols.simps [simp del]

partial_function (option) rgb_rows :: "nat \<Rightarrow> nat \<Rightarrow> nat \<Rightarrow> nat \<Rightarrow> u8 list \<Rightarrow> nat \<Rightarrow> nat \<Rightarrow> u8 list \<Rightarrow> u8 list option" where
  "rgb_rows jw b base w data d iy buf =
    (if iy < b
     then Option.bind (rgb_cols w data d (base + iy) 0 buf) (\<lambda>buf. rgb_rows jw b base w data (d + w) (wrap32 (iy + jw)) buf)
     else Some buf)"

definition rgb_write :: "heap \<Rightarrow> jpg_arg jpg_writer_cb" where
  "rgb_write heap arg x y w h data =
    (case data of
       None \<Rightarrow> write_start heap arg x y w h
     | Some data \<Rightarrow> (case arg of (jpeg, live) \<Rightarrow>
         let jw = unat (jpg_width jpeg) * 3; t = wrap32 (unat y * jw); b = wrap32 (t + unat h * jw); l = unat x * 3;
             w = w * 3
         in map_option (\<lambda>buf. (True, jpeg\<lparr>jpg_output := map_option (\<lambda>_. buf) (jpg_output jpeg)\<rparr>, live))
              (rgb_rows jw b (unat (data_offset jpeg) + l) (unat w) data 0 t (memory_of (jpg_output jpeg)))))"

definition rgb565 :: "u8 \<Rightarrow> u8 \<Rightarrow> u8 \<Rightarrow> u16" where
  "rgb565 r g b = push_bit 8 (ucast r AND 0xF8) OR push_bit 3 (ucast g AND 0xFC) OR drop_bit 3 (ucast b)"

function rgb565_cols :: "nat \<Rightarrow> u8 list \<Rightarrow> nat \<Rightarrow> nat \<Rightarrow> nat \<Rightarrow> nat \<Rightarrow> u8 list \<Rightarrow> u8 list option" where
  "rgb565_cols w data d out ix ix2 buf =
    (if ix < w
     then if d + ix + 2 < length data \<and> out + ix2 + 1 < length buf
          then let c = rgb565 (data ! (d + ix)) (data ! (d + ix + 1)) (data ! (d + ix + 2)) in
               rgb565_cols w data d out (ix + 3) (ix2 + 2)
                 (buf[out + ix2 + 1 := ucast (drop_bit 8 c), out + ix2 := ucast (c AND 0xff)])
          else None
     else Some buf)"
  by pat_completeness auto
termination
  by (relation "measure (\<lambda>(w, data, d, out, ix, ix2, buf). w - ix)") auto

declare rgb565_cols.simps [simp del]

partial_function (option) rgb565_rows ::
  "nat \<Rightarrow> nat \<Rightarrow> nat \<Rightarrow> nat \<Rightarrow> nat \<Rightarrow> u8 list \<Rightarrow> nat \<Rightarrow> nat \<Rightarrow> nat \<Rightarrow> u8 list \<Rightarrow> u8 list option" where
  "rgb565_rows jw jw2 b base w data d iy iy2 buf =
    (if iy < b
     then Option.bind (rgb565_cols w data d (base + iy2) 0 0 buf)
       (\<lambda>buf. rgb565_rows jw jw2 b base w data (d + w) (wrap32 (iy + jw)) (wrap32 (iy2 + jw2)) buf)
     else Some buf)"

definition rgb565_write :: "heap \<Rightarrow> jpg_arg jpg_writer_cb" where
  "rgb565_write heap arg x y w h data =
    (case data of
       None \<Rightarrow> write_start heap arg x y w h
     | Some data \<Rightarrow> (case arg of (jpeg, live) \<Rightarrow>
         let jw = unat (jpg_width jpeg) * 3; jw2 = unat (jpg_width jpeg) * 2;
             t = wrap32 (unat y * jw); t2 = wrap32 (unat y * jw2); b = wrap32 (t + unat h * jw); l = unat x * 2;
             w = w * 3
         in map_option (\<lambda>buf. (True, jpeg\<lparr>jpg_output := map_option (\<lambda>_. buf) (jpg_output jpeg)\<rparr>, live))
              (rgb565_rows jw jw2 b (unat (data_offset jpeg) + l) (unat w) data 0 t t2 (memory_of (jpg_output jpeg)))))"

definition jpg_read :: "jpg_arg jpg_reader_cb" where
  "jpg_read arg index buf n = map_option (\<lambda>got. (got, arg)) (bytes_at (jpg_input (fst arg)) index buf n)"

section \<open>Decoding a JPEG\<close>

text \<open>
  \<open>prepare\<close> is the decoder of the ROM. The buffer of the caller is \<open>None\<close> for a null pointer; \<open>src\<close> is the memory
  that can be read at the source, of which the first \<open>src_len\<close> bytes are the picture.
\<close>

definition jpg2rgb888 :: "heap \<Rightarrow> jd_prepared jd \<Rightarrow> u8 list \<Rightarrow> nat \<Rightarrow> u8 list option \<Rightarrow> jpg_scale_t \<Rightarrow> nat list \<Rightarrow>
    (bool \<times> jpg_arg) option" where
  "jpg2rgb888 heap prepare src src_len out scale live =
    (let jpeg = \<lparr>jpg_width = 0, jpg_height = 0, data_offset = 0, jpg_input = src, jpg_output = out\<rparr> in
     map_option (\<lambda>(ret, arg). (ret = ESP_OK, arg)) (esp_jpg_decode prepare src_len scale jpg_read (rgb_write heap) (jpeg, live)))"

definition jpg2rgb565 :: "heap \<Rightarrow> jd_prepared jd \<Rightarrow> u8 list \<Rightarrow> nat \<Rightarrow> u8 list option \<Rightarrow> jpg_scale_t \<Rightarrow> nat list \<Rightarrow>
    (bool \<times> jpg_arg) option" where
  "jpg2rgb565 heap prepare src src_len out scale live =
    (let jpeg = \<lparr>jpg_width = 0, jpg_height = 0, data_offset = 0, jpg_input = src, jpg_output = out\<rparr> in
     map_option (\<lambda>(ret, arg). (ret = ESP_OK, arg)) (esp_jpg_decode prepare src_len scale jpg_read (rgb565_write heap) (jpeg, live)))"

section \<open>The file header\<close>

definition le16 :: "u16 \<Rightarrow> u8 list" where
  "le16 v = [ucast v, ucast (drop_bit 8 v)]"

definition le32 :: "u32 \<Rightarrow> u8 list" where
  "le32 v = [ucast v, ucast (drop_bit 8 v), ucast (drop_bit 16 v), ucast (drop_bit 24 v)]"

text \<open>The stores into the two magic bytes and the fields of \<^verbatim>\<open>bmp_header_t\<close> behind them, in the order of the code.\<close>

definition bmp_fields :: "u32 \<Rightarrow> u16 \<Rightarrow> u16 \<Rightarrow> u32 \<Rightarrow> (nat \<times> u8 list) list" where
  "bmp_fields filesize width height imagesize =
    [(0, [0x42]), (1, [0x4D]), (6, le32 0), (2, le32 filesize), (10, le32 (of_nat BMP_HEADER_LEN)), (14, le32 40),
     (18, le32 (ucast width)), (22, le32 (- ucast height)), (26, le16 1), (28, le16 24), (30, le32 0),
     (34, le32 imagesize), (38, le32 0x0B13), (42, le32 0x0B13), (46, le32 0), (50, le32 0)]"

definition write_fields :: "(nat \<times> u8 list) list \<Rightarrow> u8 list \<Rightarrow> u8 list" where
  "write_fields fs buf = fold (\<lambda>(off, bytes) buf. mem_write buf off bytes) fs buf"

definition bmp_header :: "u32 \<Rightarrow> u16 \<Rightarrow> u16 \<Rightarrow> u32 \<Rightarrow> u8 list \<Rightarrow> u8 list option" where
  "bmp_header filesize width height imagesize buf =
    (if length buf < BMP_HEADER_LEN then None
     else Some (write_fields (bmp_fields filesize width height imagesize) buf))"

text \<open>The pair \<open>res\<close> is what the caller's pointers \<^verbatim>\<open>out\<close> and \<^verbatim>\<open>out_len\<close> hold.\<close>

definition jpg2bmp :: "heap \<Rightarrow> jd_prepared jd \<Rightarrow> u8 list \<Rightarrow> nat \<Rightarrow> u8 list option \<times> nat \<Rightarrow> nat list \<Rightarrow>
    (bool \<times> (u8 list option \<times> nat) \<times> nat list) option" where
  "jpg2bmp heap prepare src src_len res live =
    (let jpeg = \<lparr>jpg_width = 0, jpg_height = 0, data_offset = of_nat BMP_HEADER_LEN, jpg_input = src, jpg_output = None\<rparr> in
     Option.bind (esp_jpg_decode prepare src_len JPG_SCALE_NONE jpg_read (rgb_write heap) (jpeg, live)) (\<lambda>(ret, jpeg, live).
     if ret \<noteq> ESP_OK then Some (False, res, live)
     else Option.bind (as_int (unat (jpg_width jpeg) * unat (jpg_height jpeg) * 3)) (\<lambda>output_size.
          Option.bind (jpg_output jpeg) (\<lambda>buf.
          Option.bind (bmp_header (of_nat (output_size + BMP_HEADER_LEN)) (jpg_width jpeg) (jpg_height jpeg) (of_nat output_size) buf)
            (\<lambda>buf. Some (True, (Some buf, output_size + BMP_HEADER_LEN), live))))))"

section \<open>Raw frames\<close>

definition put :: "u8 list \<Rightarrow> nat \<Rightarrow> u8 list \<Rightarrow> u8 list option" where
  "put buf pos bytes = (if pos + length bytes \<le> length buf then Some (mem_write buf pos bytes) else None)"

definition rgb565_bgr :: "u8 \<Rightarrow> u8 \<Rightarrow> u8 list" where
  "rgb565_bgr hb lb = [push_bit 3 (lb AND 0x1F), push_bit 5 (hb AND 0x07) OR drop_bit 3 (lb AND 0xE0), hb AND 0xF8]"

fun rgb565_loop :: "nat \<Rightarrow> u8 list \<Rightarrow> nat \<Rightarrow> nat \<Rightarrow> u8 list \<Rightarrow> u8 list option" where
  "rgb565_loop 0 src s p buf = Some buf"
| "rgb565_loop (Suc n) src s p buf =
    (if s + 1 < length src
     then Option.bind (put buf p (rgb565_bgr (src ! s) (src ! (s + 1)))) (rgb565_loop n src (s + 2) (p + 3))
     else None)"

fun grey_loop :: "nat \<Rightarrow> u8 list \<Rightarrow> nat \<Rightarrow> nat \<Rightarrow> u8 list \<Rightarrow> u8 list option" where
  "grey_loop 0 src s p buf = Some buf"
| "grey_loop (Suc n) src s p buf =
    (if s < length src
     then Option.bind (put buf p [src ! s, src ! s, src ! s]) (grey_loop n src (s + 1) (p + 3))
     else None)"

definition yuv_bgr :: "u8 \<Rightarrow> u8 \<Rightarrow> u8 \<Rightarrow> u8 list" where
  "yuv_bgr y u v = (case yuv2rgb y u v of (r, g, b) \<Rightarrow> [b, g, r])"

fun yuv_loop :: "nat \<Rightarrow> u8 list \<Rightarrow> nat \<Rightarrow> nat \<Rightarrow> u8 list \<Rightarrow> u8 list option" where
  "yuv_loop 0 src s p buf = Some buf"
| "yuv_loop (Suc n) src s p buf =
    (if s + 3 < length src
     then let y0 = src ! s; u = src ! (s + 1); y1 = src ! (s + 2); v = src ! (s + 3) in
          Option.bind (put buf p (yuv_bgr y0 u v)) (\<lambda>buf.
          Option.bind (put buf (p + 3) (yuv_bgr y1 u v)) (yuv_loop n src (s + 4) (p + 6)))
     else None)"

definition copy_in :: "u8 list \<Rightarrow> nat \<Rightarrow> nat \<Rightarrow> u8 list \<Rightarrow> u8 list option" where
  "copy_in src n p buf = (if n \<le> length src then put buf p (take n src) else None)"

text \<open>A size kept in an \<^verbatim>\<open>int\<close>: a loop up to a negative number does not run.\<close>

definition loop_count :: "nat \<Rightarrow> nat" where
  "loop_count n = (if n < 2 ^ 31 then n else 0)"

definition fmt2rgb888 :: "heap \<Rightarrow> jd_prepared jd \<Rightarrow> u8 list \<Rightarrow> nat \<Rightarrow> pixformat_t \<Rightarrow> u8 list \<Rightarrow> nat list \<Rightarrow>
    (bool \<times> u8 list option \<times> nat list) option" where
  "fmt2rgb888 heap prepare src src_len fmt rgb_buf live =
    (let done = map_option (\<lambda>buf. (True, Some buf, live)) in
     case fmt of
       PIXFORMAT_JPEG \<Rightarrow> map_option (\<lambda>(ok, jpeg, live). (ok, jpg_output jpeg, live))
         (jpg2rgb888 heap prepare src src_len (Some rgb_buf) JPG_SCALE_NONE live)
     | PIXFORMAT_RGB888 \<Rightarrow> done (copy_in src src_len 0 rgb_buf)
     | PIXFORMAT_RGB565 \<Rightarrow> done (rgb565_loop (src_len div 2) src 0 0 rgb_buf)
     | PIXFORMAT_GRAYSCALE \<Rightarrow> done (grey_loop (loop_count src_len) src 0 0 rgb_buf)
     | PIXFORMAT_YUV422 \<Rightarrow> done (yuv_loop (src_len div 2 div 2) src 0 0 rgb_buf)
     | _ \<Rightarrow> done (Some rgb_buf))"

definition fmt2bmp :: "heap \<Rightarrow> jd_prepared jd \<Rightarrow> u8 list \<Rightarrow> nat \<Rightarrow> u16 \<Rightarrow> u16 \<Rightarrow> pixformat_t \<Rightarrow> u8 list option \<times> nat \<Rightarrow> nat list \<Rightarrow>
    (bool \<times> (u8 list option \<times> nat) \<times> nat list) option" where
  "fmt2bmp heap prepare src src_len width height fmt res live =
    (if fmt = PIXFORMAT_JPEG then jpg2bmp heap prepare src src_len res live
     else
       let res = (None, 0); pix_count = unat width * unat height in
       Option.bind (as_int (pix_count * 3 + BMP_HEADER_LEN)) (\<lambda>out_size.
       case malloc_spiram heap out_size live of
         (None, live) \<Rightarrow> Some (False, res, live)
       | (Some out_buf, live) \<Rightarrow>
           Option.bind (bmp_header (of_nat out_size) width height (of_nat (pix_count * 3)) out_buf) (\<lambda>out_buf.
           map_option (\<lambda>out_buf. (True, (Some out_buf, out_size), live))
             (case fmt of
                PIXFORMAT_RGB888 \<Rightarrow> copy_in src (pix_count * 3) BMP_HEADER_LEN out_buf
              | PIXFORMAT_RGB565 \<Rightarrow> rgb565_loop pix_count src 0 BMP_HEADER_LEN out_buf
              | PIXFORMAT_GRAYSCALE \<Rightarrow> grey_loop pix_count src 0 BMP_HEADER_LEN out_buf
              | PIXFORMAT_YUV422 \<Rightarrow> yuv_loop (pix_count div 2) src 0 BMP_HEADER_LEN out_buf
              | _ \<Rightarrow> Some out_buf))))"

definition frame2bmp :: "heap \<Rightarrow> jd_prepared jd \<Rightarrow> camera_fb_t \<Rightarrow> u8 list option \<times> nat \<Rightarrow> nat list \<Rightarrow>
    (bool \<times> (u8 list option \<times> nat) \<times> nat list) option" where
  "frame2bmp heap prepare fb res live =
    fmt2bmp heap prepare (fb_buf fb) (fb_len fb) (of_nat (fb_width fb)) (of_nat (fb_height fb)) (fb_format fb) res live"

end
