(* ===== verification/Bmp_Picture.thy ===== *)
theory Bmp_Picture
  imports To_Bmp
begin

text \<open>
  What the conversions of \<^verbatim>\<open>to_bmp.c\<close> produce: a reader of the BMP format finds the size and the pixels of
  the frame, or of the decoded JPEG, in the file, and what happens to memory when decoding fails.
\<close>

section \<open>Reading a BMP file\<close>

fun le_nat :: "u8 list \<Rightarrow> nat" where
  "le_nat [] = 0"
| "le_nat (b # bs) = unat b + 256 * le_nat bs"

definition field_at :: "u8 list \<Rightarrow> nat \<Rightarrow> nat \<Rightarrow> nat" where
  "field_at file off n = le_nat (mem_read file off n)"

text \<open>
  Width and height of an uncompressed file of 24 bits per pixel whose rows run from top to bottom: its height
  is stored negated. The rows of the format are padded to a multiple of four bytes.
\<close>

definition bmp_size :: "u8 list \<Rightarrow> (nat \<times> nat) option" where
  "bmp_size file =
    (if length file = field_at file 2 4 \<and> take 2 file = [0x42, 0x4D] \<and> field_at file 14 4 = 40 \<and>
        field_at file 26 2 = 1 \<and> field_at file 28 2 = 24 \<and> field_at file 30 4 = 0
     then Some (field_at file 18 4, (2 ^ 32 - field_at file 22 4) mod 2 ^ 32) else None)"

definition bmp_stride :: "nat \<Rightarrow> nat" where
  "bmp_stride w = (24 * w + 31) div 32 * 4"

definition bmp_colour :: "u8 list \<Rightarrow> nat \<Rightarrow> nat \<Rightarrow> u8 list" where
  "bmp_colour file x y = mem_read file (field_at file 10 4 + y * bmp_stride (field_at file 18 4) + 3 * x) 3"

lemma low_byte_of: "unat (ucast v :: u8) = unat v mod 256" for v :: "'a::len word"
  by (simp add: unsigned_ucast_eq take_bit_eq_mod)

lemma unat_shifted: "unat (drop_bit k v) = unat v div 2 ^ k" for v :: "'a::len word"
  by (subst unat_drop_bit_eq) (simp add: drop_bit_eq_div)

lemma digits: "n mod 256 + 256 * (n div 256) = n" for n :: nat
  by (simp add: mult.commute)

lemma le_nat_le16: "le_nat (le16 v) = unat v"
  using unsigned_less [of v, where 'a = nat] digits [of "unat v"]
  by (simp add: le16_def low_byte_of unat_shifted less_mult_imp_div_less)

lemma le_nat_le32: "le_nat (le32 v) = unat v"
  using unsigned_less [of v, where 'a = nat] digits [of "unat v"] digits [of "unat v div 256"] digits [of "unat v div 65536"]
  by (simp add: le32_def low_byte_of unat_shifted less_mult_imp_div_less div_mult2_eq [symmetric])

definition header_bytes :: "u32 \<Rightarrow> u16 \<Rightarrow> u16 \<Rightarrow> u32 \<Rightarrow> u8 list" where
  "header_bytes filesize width height imagesize =
    [0x42, 0x4D] @ le32 filesize @ le32 0 @ le32 54 @ le32 40 @ le32 (ucast width) @ le32 (- ucast height) @ le16 1 @ le16 24 @
    le32 0 @ le32 imagesize @ le32 0x0B13 @ le32 0x0B13 @ le32 0 @ le32 0"

lemma length_le [simp]: "length (le16 v) = 2" "length (le32 w) = 4"
  by (simp_all add: le16_def le32_def)

lemma length_header [simp]: "length (header_bytes f w h i) = 54"
  by (simp add: header_bytes_def)

lemma header_written:
  assumes "54 \<le> length buf"
  shows "bmp_header f w h i buf = Some (header_bytes f w h i @ drop 54 buf)"
  using assms by (simp add: bmp_header_def BMP_HEADER_LEN_def write_fields_def bmp_fields_def mem_write_def header_bytes_def)

lemma fields_read:
  fixes f i :: u32 and w h :: u16 and px :: "u8 list"
  defines "file \<equiv> header_bytes f w h i @ px"
  shows "field_at file 2 4 = unat f" "take 2 file = [0x42, 0x4D]" "field_at file 10 4 = 54" "field_at file 14 4 = 40"
    "field_at file 18 4 = unat w" "field_at file 22 4 = unat (- ucast h :: u32)" "field_at file 26 2 = 1"
    "field_at file 28 2 = 24" "field_at file 30 4 = 0"
  by (simp_all add: file_def field_at_def mem_read_def header_bytes_def le_nat_le16 le_nat_le32 unsigned_ucast_eq
      take_bit_nat_eq_self order_less_trans [OF unsigned_less])

lemma negated_height: "(2 ^ 32 - unat (- ucast h :: u32)) mod 2 ^ 32 = unat h" for h :: u16
proof -
  have "unat (ucast h :: u32) = unat h" "unat h < 2 ^ 32"
    using unsigned_less [of h, where 'a = nat] by (simp_all add: unsigned_ucast_eq take_bit_nat_eq_self)
  then show ?thesis
    using unat_sub_if' [of 0 "ucast h :: u32"] by (cases "unat h = 0") auto
qed

lemma bmp_read_back:
  assumes "unat f = 54 + length px"
  shows "bmp_size (header_bytes f w h i @ px) = Some (unat w, unat h)"
    and "4 dvd unat w \<Longrightarrow> bmp_colour (header_bytes f w h i @ px) x y = mem_read px (3 * (y * unat w + x)) 3"
proof -
  show "bmp_size (header_bytes f w h i @ px) = Some (unat w, unat h)"
    using assms fields_read [of f w h i px] negated_height [of h] by (simp only: bmp_size_def length_append length_header simp_thms if_True)
  assume "4 dvd unat w"
  then have "bmp_stride (unat w) = 3 * unat w"
    by (auto simp: bmp_stride_def)
  then show "bmp_colour (header_bytes f w h i @ px) x y = mem_read px (3 * (y * unat w + x)) 3"
    by (simp add: bmp_colour_def fields_read mem_read_def algebra_simps)
qed

section \<open>The pixels of raw frames\<close>

text \<open>The colour of pixel \<open>k\<close> of a frame, as the blue, green and red bytes of a BMP file.\<close>

definition raw_colour :: "pixformat_t \<Rightarrow> u8 list \<Rightarrow> nat \<Rightarrow> u8 list" where
  "raw_colour fmt src k =
    (case fmt of
       PIXFORMAT_RGB888 \<Rightarrow> [src ! (3 * k), src ! (3 * k + 1), src ! (3 * k + 2)]
     | PIXFORMAT_RGB565 \<Rightarrow> rgb565_bgr (src ! (2 * k)) (src ! (2 * k + 1))
     | PIXFORMAT_GRAYSCALE \<Rightarrow> [src ! k, src ! k, src ! k]
     | PIXFORMAT_YUV422 \<Rightarrow>
         (let q = 4 * (k div 2) in yuv_bgr (src ! (if even k then q else q + 2)) (src ! (q + 1)) (src ! (q + 3)))
     | _ \<Rightarrow> [])"

fun bytes_per_pixel :: "pixformat_t \<Rightarrow> nat" where
  "bytes_per_pixel PIXFORMAT_RGB888 = 3"
| "bytes_per_pixel PIXFORMAT_RGB565 = 2"
| "bytes_per_pixel PIXFORMAT_GRAYSCALE = 1"
| "bytes_per_pixel PIXFORMAT_YUV422 = 2"
| "bytes_per_pixel _ = 0"

definition picture :: "pixformat_t \<Rightarrow> u8 list \<Rightarrow> nat \<Rightarrow> nat \<Rightarrow> u8 list" where
  "picture fmt src k n = concat (map (raw_colour fmt src) [k..<k + n])"

lemma mem_write_append:
  "p + length a + length b \<le> length buf \<Longrightarrow> mem_write (mem_write buf p a) (p + length a) b = mem_write buf p (a @ b)"
  by (simp add: mem_write_def ac_simps)

lemma length_colours [simp]: "length (rgb565_bgr hb lb) = 3" "length (yuv_bgr y u v) = 3"
  by (simp_all add: rgb565_bgr_def yuv_bgr_def split: prod.split)

lemma length_raw_colour: "0 < bytes_per_pixel fmt \<Longrightarrow> length (raw_colour fmt src k) = 3"
  by (cases fmt) (simp_all add: raw_colour_def Let_def)

lemma length_picture: "0 < bytes_per_pixel fmt \<Longrightarrow> length (picture fmt src k n) = 3 * n"
  by (induction n) (simp_all add: picture_def length_raw_colour)

lemma picture_Suc: "picture fmt src k (Suc n) = raw_colour fmt src k @ picture fmt src (Suc k) n"
  by (simp add: picture_def upt_conv_Cons del: upt_Suc)

lemma picture_pixel:
  assumes "0 < bytes_per_pixel fmt"
  shows "i < n \<Longrightarrow> mem_read (picture fmt src k n) (3 * i) 3 = raw_colour fmt src (k + i)"
proof (induction n arbitrary: k i)
  case (Suc n)
  then show ?case
    using length_raw_colour [OF assms, of src k]
    by (cases i) (auto simp: picture_Suc mem_read_def simp flip: Suc.IH [of _ "Suc k"])
qed simp

lemma put_fits: "p + length bytes \<le> length buf \<Longrightarrow> put buf p bytes = Some (mem_write buf p bytes)"
  by (simp add: put_def)

lemma rgb565_loop_result:
  "2 * (k + n) \<le> length src \<Longrightarrow> p + 3 * n \<le> length buf \<Longrightarrow>
   rgb565_loop n src (2 * k) p buf = Some (mem_write buf p (picture PIXFORMAT_RGB565 src k n))"
proof (induction n arbitrary: k p buf)
  case (Suc n)
  then show ?case
    using Suc.IH [of "Suc k" "p + 3" "mem_write buf p (rgb565_bgr (src ! (2 * k)) (src ! (2 * k + 1)))"]
      mem_write_append [of p "raw_colour PIXFORMAT_RGB565 src k" "picture PIXFORMAT_RGB565 src (Suc k) n" buf]
    by (simp add: put_fits picture_Suc raw_colour_def length_picture)
qed (simp add: picture_def mem_write_def)

lemma grey_loop_result:
  "k + n \<le> length src \<Longrightarrow> p + 3 * n \<le> length buf \<Longrightarrow>
   grey_loop n src k p buf = Some (mem_write buf p (picture PIXFORMAT_GRAYSCALE src k n))"
proof (induction n arbitrary: k p buf)
  case (Suc n)
  then show ?case
    using Suc.IH [of "Suc k" "p + 3" "mem_write buf p [src ! k, src ! k, src ! k]"]
      mem_write_append [of p "raw_colour PIXFORMAT_GRAYSCALE src k" "picture PIXFORMAT_GRAYSCALE src (Suc k) n" buf]
    by (simp add: put_fits picture_Suc raw_colour_def length_picture numeral_3_eq_3)
qed (simp add: picture_def mem_write_def)

lemma yuv_pair:
  "raw_colour PIXFORMAT_YUV422 src (2 * k) = yuv_bgr (src ! (4 * k)) (src ! (4 * k + 1)) (src ! (4 * k + 3))"
  "raw_colour PIXFORMAT_YUV422 src (Suc (2 * k)) = yuv_bgr (src ! (4 * k + 2)) (src ! (4 * k + 1)) (src ! (4 * k + 3))"
  by (simp_all add: raw_colour_def Let_def)

lemma yuv_loop_result:
  "4 * (k + n) \<le> length src \<Longrightarrow> p + 6 * n \<le> length buf \<Longrightarrow>
   yuv_loop n src (4 * k) p buf = Some (mem_write buf p (picture PIXFORMAT_YUV422 src (2 * k) (2 * n)))"
proof (induction n arbitrary: k p buf)
  case (Suc n)
  let ?a = "raw_colour PIXFORMAT_YUV422 src (2 * k)" and ?b = "raw_colour PIXFORMAT_YUV422 src (Suc (2 * k))"
    and ?r = "picture PIXFORMAT_YUV422 src (2 * Suc k) (2 * n)"
  have len: "length ?a = 3" "length ?b = 3" "length ?r = 6 * n"
    by (simp_all add: length_raw_colour length_picture)
  have "yuv_loop (Suc n) src (4 * k) p buf = yuv_loop n src (4 * Suc k) (p + 6) (mem_write buf p (?a @ ?b))"
    using Suc.prems len mem_write_append [of p ?a ?b buf] by (simp add: Let_def put_fits yuv_pair add.commute [of 4])
  also have "\<dots> = Some (mem_write (mem_write buf p (?a @ ?b)) (p + 6) ?r)"
    using Suc.prems len by (intro Suc.IH) simp_all
  also have "\<dots> = Some (mem_write buf p (?a @ ?b @ ?r))"
    using Suc.prems len mem_write_append [of p "?a @ ?b" ?r buf] by simp
  finally show ?case
    by (simp add: picture_Suc)
qed (simp add: picture_def mem_write_def)

lemma picture_rgb888: "3 * (k + n) \<le> length src \<Longrightarrow> picture PIXFORMAT_RGB888 src k n = take (3 * n) (drop (3 * k) src)"
proof (induction n arbitrary: k)
  case (Suc n)
  then have "take (3 * Suc n) (drop (3 * k) src) = raw_colour PIXFORMAT_RGB888 src k @ take (3 * n) (drop (3 * Suc k) src)"
    by (simp add: raw_colour_def numeral_3_eq_3 Cons_nth_drop_Suc [symmetric])
  with Suc show ?case
    by (simp add: picture_Suc)
qed (simp add: picture_def)

definition raw_pixels :: "pixformat_t \<Rightarrow> u8 list \<Rightarrow> nat \<Rightarrow> nat \<Rightarrow> u8 list \<Rightarrow> u8 list option" where
  "raw_pixels fmt src n p buf =
    (case fmt of
       PIXFORMAT_RGB888 \<Rightarrow> copy_in src (n * 3) p buf
     | PIXFORMAT_RGB565 \<Rightarrow> rgb565_loop n src 0 p buf
     | PIXFORMAT_GRAYSCALE \<Rightarrow> grey_loop n src 0 p buf
     | PIXFORMAT_YUV422 \<Rightarrow> yuv_loop (n div 2) src 0 p buf
     | _ \<Rightarrow> Some buf)"

lemma raw_pixels_result:
  assumes "0 < bytes_per_pixel fmt" "bytes_per_pixel fmt * n \<le> length src" "fmt = PIXFORMAT_YUV422 \<Longrightarrow> even n"
    "p + 3 * n \<le> length buf"
  shows "raw_pixels fmt src n p buf = Some (mem_write buf p (picture fmt src 0 n))"
  using assms rgb565_loop_result [of 0 n src p buf] grey_loop_result [of 0 n src p buf] yuv_loop_result [of 0 "n div 2" src p buf]
    picture_rgb888 [of 0 n src]
  by (cases fmt) (auto simp: raw_pixels_def copy_in_def put_fits mult.commute elim!: evenE)

lemma fmt2bmp_raw:
  assumes "fmt \<noteq> PIXFORMAT_JPEG" "54 + 3 * (unat w * unat h) < 2 ^ 31"
  shows "fmt2bmp heap prepare src src_len w h fmt res live =
    (let n = unat w * unat h in
     case heap (54 + 3 * n) of
       None \<Rightarrow> Some (False, (None, 0), live)
     | Some buf \<Rightarrow>
         Option.bind (bmp_header (of_nat (54 + 3 * n)) w h (of_nat (3 * n)) buf) (\<lambda>buf.
           map_option (\<lambda>buf. (True, (Some buf, 54 + 3 * n), (54 + 3 * n) # live)) (raw_pixels fmt src n 54 buf)))"
  using assms unfolding fmt2bmp_def raw_pixels_def BMP_HEADER_LEN_def
  by (simp add: Let_def as_int_def malloc_spiram_def ac_simps split: option.split)

text \<open>A decoder that finds no JPEG in anything.\<close>

definition refuse_jpeg :: "jd_prepared jd" where
  "refuse_jpeg = Jd_Ret \<lparr>prep_result = 6, prep_width = 0, prep_height = 0, prep_decomp = \<lambda>_. Jd_Ret 6\<rparr>"

text \<open>
  C19: \<^verbatim>\<open>frame2bmp\<close> turns a complete frame of one of the raw formats into a BMP file of exactly the announced length, in
  which a reader finds the size of the frame and, for widths divisible by four, the colour of every pixel of the frame.
\<close>

theorem frame_read_from_bmp:
  fixes fb :: camera_fb_t and heap :: heap
  defines "n \<equiv> fb_width fb * fb_height fb"
  assumes "0 < bytes_per_pixel (fb_format fb)" "bytes_per_pixel (fb_format fb) * n \<le> length (fb_buf fb)"
    and "fb_format fb = PIXFORMAT_YUV422 \<Longrightarrow> even n"
    and "fb_width fb < 2 ^ 16" "fb_height fb < 2 ^ 16" "54 + 3 * n < 2 ^ 31"
    and "heap (54 + 3 * n) = Some buf" "length buf = 54 + 3 * n"
  shows "\<exists>file. frame2bmp heap prepare fb res live = Some (True, (Some file, 54 + 3 * n), (54 + 3 * n) # live) \<and>
    length file = 54 + 3 * n \<and> bmp_size file = Some (fb_width fb, fb_height fb) \<and>
    (4 dvd fb_width fb \<longrightarrow> (\<forall>x < fb_width fb. \<forall>y < fb_height fb.
       bmp_colour file x y = raw_colour (fb_format fb) (fb_buf fb) (y * fb_width fb + x)))"
proof -
  let ?w = "of_nat (fb_width fb) :: u16" and ?h = "of_nat (fb_height fb) :: u16"
  let ?px = "picture (fb_format fb) (fb_buf fb) 0 n" and ?f = "of_nat (54 + 3 * n) :: u32"
  let ?file = "header_bytes ?f ?w ?h (of_nat (3 * n)) @ ?px"
  have w: "unat ?w = fb_width fb" "unat ?h = fb_height fb" "unat ?f = 54 + 3 * n"
    using assms(5,6,7) by (simp_all add: unat_of_nat del: of_nat_add of_nat_mult semiring_1_class.of_nat_simps)
  have px: "length ?px = 3 * n"
    using assms(2) by (rule length_picture)
  have raw: "fb_format fb \<noteq> PIXFORMAT_JPEG"
    using assms(2) by auto
  have "raw_pixels (fb_format fb) (fb_buf fb) n 54 (header_bytes ?f ?w ?h (of_nat (3 * n)) @ drop 54 buf) = Some ?file"
    using assms px by (subst raw_pixels_result) (simp_all add: mem_write_def)
  then have "frame2bmp heap prepare fb res live = Some (True, (Some ?file, 54 + 3 * n), (54 + 3 * n) # live)"
    using assms w unfolding frame2bmp_def
    by (subst fmt2bmp_raw [OF raw]) (simp_all add: Let_def header_written n_def)
  moreover have "bmp_colour ?file x y = raw_colour (fb_format fb) (fb_buf fb) (y * fb_width fb + x)"
    if "4 dvd fb_width fb" "x < fb_width fb" "y < fb_height fb" for x y
  proof -
    have "y * fb_width fb + x < n"
      using that mult_le_mono1 [of "Suc y" "fb_height fb" "fb_width fb"] by (simp add: n_def mult.commute)
    from picture_pixel [OF assms(2) this, of "fb_buf fb" 0] show ?thesis
      using bmp_read_back(2) [of ?f ?px ?w] that w px by simp
  qed
  ultimately show ?thesis
    using bmp_read_back(1) [of ?f ?px ?w ?h] w px by auto
qed

theorem frame_read_from_bmp_witness:
  "\<exists>file. frame2bmp (\<lambda>n. Some (replicate n 0)) refuse_jpeg
     \<lparr>fb_buf = [0xF8, 0, 0x07, 0xE0, 0, 0x1F, 0xFF, 0xFF], fb_len = 8, fb_width = 4, fb_height = 1,
       fb_format = PIXFORMAT_RGB565, fb_tv_sec = 0, fb_tv_usec = 0\<rparr> (None, 0) [] = Some (True, (Some file, 66), [66]) \<and>
   bmp_size file = Some (4, 1) \<and>
   bmp_colour file 0 0 = [0, 0, 0xF8] \<and> bmp_colour file 1 0 = [0, 0xFC, 0] \<and> bmp_colour file 2 0 = [0xF8, 0, 0]"
proof -
  define fb where "fb = \<lparr>fb_buf = [0xF8, 0, 0x07, 0xE0, 0, 0x1F, 0xFF, 0xFF], fb_len = 8, fb_width = 4, fb_height = 1,
    fb_format = PIXFORMAT_RGB565, fb_tv_sec = 0, fb_tv_usec = 0\<rparr>"
  have "\<exists>file. frame2bmp (\<lambda>n. Some (replicate n 0)) refuse_jpeg fb (None, 0) [] = Some (True, (Some file, 66), [66]) \<and>
    bmp_size file = Some (4, 1) \<and>
    (\<forall>x < 4. \<forall>y < 1. bmp_colour file x y = raw_colour PIXFORMAT_RGB565 (fb_buf fb) (y * 4 + x))"
    using frame_read_from_bmp [of fb "\<lambda>n. Some (replicate n 0)" "replicate 66 0" refuse_jpeg "(None, 0)" "[]"]
    by (auto simp: fb_def)
  then show ?thesis
    by (auto simp: fb_def raw_colour_def rgb565_bgr_def)
qed

end
