(* ===== verification/Jpeg_Picture.thy ===== *)
theory Jpeg_Picture
  imports Bmp_Picture
begin

text \<open>
  The pictures the two writers of \<^verbatim>\<open>to_bmp.c\<close> assemble from the rectangles of a JPEG decoder. What a writer
  does with one rectangle is the contract of a locale; that rectangles covering a picture give the picture is
  proved once from it. The results are the functions that decode a JPEG, and what is left when one fails.
\<close>

section \<open>Rectangles\<close>

fun block_width :: "block \<Rightarrow> nat" where
  "block_width (rect, d) = unat (right rect) + 1 - unat (left rect)"

fun block_height :: "block \<Rightarrow> nat" where
  "block_height (rect, d) = unat (bottom rect) + 1 - unat (top rect)"

fun in_block :: "block \<Rightarrow> nat \<Rightarrow> nat \<Rightarrow> bool" where
  "in_block (rect, d) x y \<longleftrightarrow> unat (left rect) \<le> x \<and> x \<le> unat (right rect) \<and> unat (top rect) \<le> y \<and> y \<le> unat (bottom rect)"

definition block_rgb :: "block \<Rightarrow> nat \<Rightarrow> nat \<Rightarrow> u8 list" where
  "block_rgb blk x y =
    mem_read (snd blk) (3 * ((y - unat (top (fst blk))) * block_width blk + (x - unat (left (fst blk))))) 3"

text \<open>A rectangle inside a picture, with its bytes; its width in bytes fits the 16 bits the writers keep it in.\<close>

definition block_fits :: "nat \<Rightarrow> nat \<Rightarrow> block \<Rightarrow> bool" where
  "block_fits W H blk \<longleftrightarrow>
     left (fst blk) \<le> right (fst blk) \<and> unat (right (fst blk)) < W \<and> top (fst blk) \<le> bottom (fst blk) \<and>
     unat (bottom (fst blk)) < H \<and> 3 * (block_width blk * block_height blk) \<le> length (snd blk) \<and> 3 * block_width blk < 2 ^ 16"

definition block_shows :: "(nat \<Rightarrow> nat \<Rightarrow> u8 list) \<Rightarrow> block \<Rightarrow> bool" where
  "block_shows pic blk \<longleftrightarrow>
     (\<forall>x \<in> set [unat (left (fst blk))..<unat (right (fst blk)) + 1].
      \<forall>y \<in> set [unat (top (fst blk))..<unat (bottom (fst blk)) + 1]. block_rgb blk x y = pic x y)"

definition covers :: "nat \<Rightarrow> nat \<Rightarrow> block list \<Rightarrow> bool" where
  "covers W H bs \<longleftrightarrow> (\<forall>x \<in> set [0..<W]. \<forall>y \<in> set [0..<H]. \<exists>blk \<in> set bs. in_block blk x y)"

section \<open>Lines of a rectangle in a picture\<close>

definition row_bytes :: "(u8 list \<Rightarrow> u8 list) \<Rightarrow> u8 list \<Rightarrow> nat \<Rightarrow> nat \<Rightarrow> nat \<Rightarrow> u8 list" where
  "row_bytes conv data d k n = concat (map (\<lambda>c. conv (mem_read data (d + 3 * c) 3)) [k..<n])"

fun put_lines :: "nat \<Rightarrow> (u8 list \<Rightarrow> u8 list) \<Rightarrow> u8 list \<Rightarrow> nat \<Rightarrow> nat \<Rightarrow> nat \<Rightarrow> nat \<Rightarrow> u8 list \<Rightarrow> u8 list" where
  "put_lines 0 conv data d n pos step buf = buf"
| "put_lines (Suc m) conv data d n pos step buf =
    put_lines m conv data (d + 3 * n) n (pos + step) step (mem_write buf pos (row_bytes conv data d 0 n))"

lemma row_bytes_Cons:
  "k < n \<Longrightarrow> row_bytes conv data d k n = conv (mem_read data (d + 3 * k) 3) @ row_bytes conv data d (Suc k) n"
  by (simp add: row_bytes_def upt_conv_Cons)

lemma row_bytes_Nil [simp]: "n \<le> k \<Longrightarrow> row_bytes conv data d k n = []"
  by (simp add: row_bytes_def)

lemma length_row_bytes [simp]:
  "(\<And>p. length (conv p) = bpp) \<Longrightarrow> length (row_bytes conv data d k n) = bpp * (n - k)"
  by (induction n) (auto simp: row_bytes_def Suc_diff_le)

lemma row_pixel:
  assumes "\<And>p. length (conv p) = bpp"
  shows "i < n \<Longrightarrow> mem_read (row_bytes conv data d 0 n) (bpp * i) bpp = conv (mem_read data (d + 3 * i) 3)"
proof (induction n)
  case (Suc n)
  have split: "row_bytes conv data d 0 (Suc n) = row_bytes conv data d 0 n @ conv (mem_read data (d + 3 * n) 3)"
    by (simp add: row_bytes_def)
  show ?case
  proof (cases "i = n")
    case True
    then show ?thesis using assms by (simp add: split mem_read_def)
  next
    case False
    with Suc.prems have "bpp * i + bpp \<le> bpp * n"
      using mult_le_mono2 [of "Suc i" n bpp] by simp
    then show ?thesis
      using Suc False assms by (simp add: split mem_read_def)
  qed
qed simp

lemma mem_read_inside:
  assumes "off + length d \<le> length st" "i + n \<le> length d"
  shows "mem_read (mem_write st off d) (off + i) n = mem_read d i n"
  using assms by (simp add: mem_read_def mem_write_def)

text \<open>Rows of a picture are apart from each other.\<close>

lemma row_apart:
  fixes W r py :: nat
  assumes "x + n \<le> W" "px < W" "\<not> (py = r \<and> x \<le> px \<and> px < x + n)"
  shows "bpp * (py * W + px) + bpp \<le> bpp * (r * W + x) \<or> bpp * (r * W + x) + bpp * n \<le> bpp * (py * W + px)"
proof -
  have "Suc (py * W + px) \<le> r * W + x \<or> r * W + x + n \<le> py * W + px"
  proof (cases py r rule: linorder_cases)
    case less
    then show ?thesis using mult_le_mono1 [of "Suc py" r W] assms by simp
  next
    case greater
    then show ?thesis using mult_le_mono1 [of "Suc r" py W] assms by simp
  qed (use assms in auto)
  then show ?thesis
    using mult_le_mono2 [of "Suc (py * W + px)" "r * W + x" bpp] mult_le_mono2 [of "r * W + x + n" "py * W + px" bpp]
    by (auto simp: algebra_simps)
qed

lemma pixel_inside:
  fixes W H :: nat
  assumes "x + n \<le> W" "r < H"
  shows "bpp * (r * W + x) + bpp * n \<le> bpp * (W * H)"
proof -
  have "r * W + x + n \<le> W * H"
    using assms mult_le_mono1 [of "Suc r" H W] by (simp add: mult.commute)
  then show ?thesis
    using mult_le_mono2 [of "r * W + x + n" "W * H" bpp] by (simp add: algebra_simps)
qed

lemma put_lines_pixels:
  assumes conv: "\<And>p. length (conv p) = bpp" and "x + n \<le> W" "r + m \<le> H" "base + bpp * (W * H) \<le> length buf"
  shows "length (put_lines m conv data d n (base + bpp * (r * W + x)) (bpp * W) buf) = length buf \<and>
    (\<forall>px < W. \<forall>py < H. mem_read (put_lines m conv data d n (base + bpp * (r * W + x)) (bpp * W) buf) (base + bpp * (py * W + px)) bpp =
      (if r \<le> py \<and> py < r + m \<and> x \<le> px \<and> px < x + n then conv (mem_read data (d + 3 * ((py - r) * n + (px - x))) 3)
       else mem_read buf (base + bpp * (py * W + px)) bpp))"
  using assms
proof (induction m arbitrary: r d buf)
  case (Suc m)
  let ?pos = "base + bpp * (r * W + x)" and ?row = "row_bytes conv data d 0 n"
  let ?buf = "mem_write buf ?pos ?row"
  have len: "length ?row = bpp * n" using conv by simp
  have fits: "?pos + length ?row \<le> length buf"
    using pixel_inside [of x n W r H bpp] Suc.prems len by simp
  have row: "mem_read ?buf (base + bpp * (py * W + px)) bpp =
      (if py = r \<and> x \<le> px \<and> px < x + n then conv (mem_read data (d + 3 * (px - x)) 3) else mem_read buf (base + bpp * (py * W + px)) bpp)"
    if "px < W" "py < H" for px py
  proof (cases "py = r \<and> x \<le> px \<and> px < x + n")
    case True
    then have "bpp * (px - x) + bpp \<le> bpp * n"
      using mult_le_mono2 [of "Suc (px - x)" n bpp] by (simp add: add.commute less_diff_conv2 Suc_le_eq)
    moreover have "base + bpp * (py * W + px) = ?pos + bpp * (px - x)"
      using True by (simp only: add.assoc flip: add_mult_distrib2) simp
    ultimately show ?thesis
      using True mem_read_inside [OF fits, of "bpp * (px - x)" bpp] row_pixel [where conv = conv, OF conv, of "px - x" n data d] len
      by (simp add: add.assoc less_diff_conv2 add.commute [of n])
  next
    case False
    show ?thesis
      using mem_read_write_disjoint [OF fits, of "base + bpp * (py * W + px)" bpp] row_apart [OF Suc.prems(2) that(1) False, of bpp]
        pixel_inside [of px 1 W py H bpp] that Suc.prems(4) len False by auto
  qed
  have pos: "?pos + bpp * W = base + bpp * (Suc r * W + x)" by (simp add: algebra_simps)
  have IH: "length (put_lines m conv data (d + 3 * n) n (base + bpp * (Suc r * W + x)) (bpp * W) ?buf) = length ?buf \<and>
    (\<forall>px < W. \<forall>py < H. mem_read (put_lines m conv data (d + 3 * n) n (base + bpp * (Suc r * W + x)) (bpp * W) ?buf) (base + bpp * (py * W + px)) bpp =
      (if Suc r \<le> py \<and> py < Suc r + m \<and> x \<le> px \<and> px < x + n then conv (mem_read data (d + 3 * n + 3 * ((py - Suc r) * n + (px - x))) 3)
       else mem_read ?buf (base + bpp * (py * W + px)) bpp))"
    using Suc.prems fits by (intro Suc.IH) auto
  have shift: "conv (mem_read data (d + 3 * n + 3 * ((py - Suc r) * n + (px - x))) 3) = conv (mem_read data (d + 3 * ((py - r) * n + (px - x))) 3)"
    if "Suc r \<le> py" for px py
  proof -
    have "py - r = Suc (py - Suc r)" using that by simp
    then show ?thesis by (simp only: mult_Suc add_mult_distrib2 add.assoc)
  qed
  have "mem_read (put_lines m conv data (d + 3 * n) n (base + bpp * (Suc r * W + x)) (bpp * W) ?buf) (base + bpp * (py * W + px)) bpp =
      (if r \<le> py \<and> py < r + Suc m \<and> x \<le> px \<and> px < x + n then conv (mem_read data (d + 3 * ((py - r) * n + (px - x))) 3)
       else mem_read buf (base + bpp * (py * W + px)) bpp)" if "px < W" "py < H" for px py
    using IH row [OF that] shift [of py px] that by (cases "Suc r \<le> py") (auto simp del: add_diff_assoc add_diff_assoc2 distrib_left_numeral)
  with IH fits show ?case
    unfolding put_lines.simps pos by simp
qed auto

section \<open>The loops of the writers\<close>

definition bgr :: "u8 list \<Rightarrow> u8 list" where
  "bgr p = [p ! 2, p ! 1, p ! 0]"

definition pack565 :: "u8 list \<Rightarrow> u8 list" where
  "pack565 p = le16 (rgb565 (p ! 0) (p ! 1) (p ! 2))"

lemma length_packed [simp]: "length (bgr p) = 3" "length (pack565 p) = 2"
  by (simp_all add: bgr_def pack565_def)

lemma three_read: "d + 2 < length data \<Longrightarrow> mem_read data d 3 = [data ! d, data ! (d + 1), data ! (d + 2)]"
  by (simp add: mem_read_def numeral_3_eq_3 Cons_nth_drop_Suc [symmetric])

lemma update_three:
  "p + 2 < length buf \<Longrightarrow> buf[p := a, p + 1 := b, p + 2 := c] = mem_write buf p [a, b, c]"
  by (rule nth_equalityI) (auto simp: nth_mem_write nth_list_update nth_Cons' )

lemma update_two: "p + 1 < length buf \<Longrightarrow> buf[p + 1 := b, p := a] = mem_write buf p [a, b]"
  by (rule nth_equalityI) (auto simp: nth_mem_write nth_list_update nth_Cons')

lemma rgb_cols_result:
  "k \<le> n \<Longrightarrow> d + 3 * n \<le> length data \<Longrightarrow> out + 3 * n \<le> length buf \<Longrightarrow>
   rgb_cols (3 * n) data d out (3 * k) buf = Some (mem_write buf (out + 3 * k) (row_bytes bgr data d k n))"
proof (induction "n - k" arbitrary: k buf)
  case 0
  then show ?case by (subst rgb_cols.simps) (simp add: mem_write_def)
next
  case (Suc m)
  then have k: "k < n" by simp
  let ?px = "bgr (mem_read data (d + 3 * k) 3)"
  have px: "?px = [data ! (d + 3 * k + 2), data ! (d + 3 * k + 1), data ! (d + 3 * k)]"
    using k Suc.prems by (subst three_read) (simp_all add: bgr_def)
  have "rgb_cols (3 * n) data d out (3 * k) buf = rgb_cols (3 * n) data d out (3 * Suc k) (mem_write buf (out + 3 * k) ?px)"
    using k Suc.prems update_three [of "out + 3 * k" buf] by (subst rgb_cols.simps) (simp add: px add.commute [of 3])
  also have "\<dots> = Some (mem_write (mem_write buf (out + 3 * k) ?px) (out + 3 * Suc k) (row_bytes bgr data d (Suc k) n))"
    using Suc.prems Suc.hyps(2) k px by (intro Suc.hyps(1)) simp_all
  also have "\<dots> = Some (mem_write buf (out + 3 * k) (row_bytes bgr data d k n))"
    using mem_write_append [of "out + 3 * k" ?px "row_bytes bgr data d (Suc k) n" buf] k Suc.prems
    by (simp add: row_bytes_Cons length_row_bytes [where bpp = 3] ac_simps)
  finally show ?case .
qed

lemma rgb565_cols_result:
  "k \<le> n \<Longrightarrow> d + 3 * n \<le> length data \<Longrightarrow> out + 2 * n \<le> length buf \<Longrightarrow>
   rgb565_cols (3 * n) data d out (3 * k) (2 * k) buf = Some (mem_write buf (out + 2 * k) (row_bytes pack565 data d k n))"
proof (induction "n - k" arbitrary: k buf)
  case 0
  then show ?case by (subst rgb565_cols.simps) (simp add: mem_write_def)
next
  case (Suc m)
  then have k: "k < n" by simp
  let ?px = "pack565 (mem_read data (d + 3 * k) 3)"
  have px: "?px = le16 (rgb565 (data ! (d + 3 * k)) (data ! (d + 3 * k + 1)) (data ! (d + 3 * k + 2)))"
    using k Suc.prems by (subst three_read) (simp_all add: pack565_def)
  have "rgb565_cols (3 * n) data d out (3 * k) (2 * k) buf =
      rgb565_cols (3 * n) data d out (3 * Suc k) (2 * Suc k) (mem_write buf (out + 2 * k) ?px)"
    using k Suc.prems update_two [of "out + 2 * k" buf]
    by (subst rgb565_cols.simps) (simp add: px le16_def masked_byte Let_def add.commute [of 3] add.commute [of 2])
  also have "\<dots> = Some (mem_write (mem_write buf (out + 2 * k) ?px) (out + 2 * Suc k) (row_bytes pack565 data d (Suc k) n))"
    using Suc.prems Suc.hyps(2) k by (intro Suc.hyps(1)) simp_all
  also have "\<dots> = Some (mem_write buf (out + 2 * k) (row_bytes pack565 data d k n))"
    using mem_write_append [of "out + 2 * k" ?px "row_bytes pack565 data d (Suc k) n" buf] k Suc.prems
    by (simp add: row_bytes_Cons length_row_bytes [where bpp = 2] ac_simps)
  finally show ?case .
qed

lemma rgb_rows_result:
  "0 < W \<Longrightarrow> 3 * W * (r + m) < 2 ^ 32 \<Longrightarrow> d + 3 * (m * n) \<le> length data \<Longrightarrow>
   (\<And>i. i < r + m \<Longrightarrow> base + 3 * W * i + 3 * n \<le> length buf) \<Longrightarrow>
   rgb_rows (3 * W) (3 * W * (r + m)) base (3 * n) data d (3 * W * r) buf =
     Some (put_lines m bgr data d n (base + 3 * W * r) (3 * W) buf)"
proof (induction m arbitrary: r d buf)
  case 0
  then show ?case by (subst rgb_rows.simps) simp
next
  case (Suc m)
  let ?buf = "mem_write buf (base + 3 * W * r) (row_bytes bgr data d 0 n)"
  have fits: "base + 3 * W * r + 3 * n \<le> length buf" using Suc.prems(4) [of r] by simp
  then have len: "length ?buf = length buf" by (simp add: length_row_bytes [where bpp = 3])
  have cols: "rgb_cols (3 * n) data d (base + 3 * W * r) 0 buf = Some ?buf"
    using rgb_cols_result [of 0 n d data "base + 3 * W * r" buf] Suc.prems(3) fits by simp
  have row_below: "3 * W * r < 3 * W + 3 * W * (r + m)" using Suc.prems(1) by (simp add: algebra_simps)
  have next_row: "wrap32 (3 * W * r + 3 * W) = 3 * W * Suc r"
    using Suc.prems(2) by (simp add: algebra_simps)
  have "rgb_rows (3 * W) (3 * W * (r + Suc m)) base (3 * n) data d (3 * W * r) buf =
      rgb_rows (3 * W) (3 * W * (Suc r + m)) base (3 * n) data (d + 3 * n) (3 * W * Suc r) ?buf"
    using Suc.prems(1) cols next_row row_below by (subst rgb_rows.simps) simp
  also have "\<dots> = Some (put_lines m bgr data (d + 3 * n) n (base + 3 * W * Suc r) (3 * W) ?buf)"
    using Suc.prems len by (intro Suc.IH) (auto simp: algebra_simps)
  finally show ?case
    by (simp add: algebra_simps)
qed

lemma rgb565_rows_result:
  "0 < W \<Longrightarrow> 3 * W * (r + m) < 2 ^ 32 \<Longrightarrow> d + 3 * (m * n) \<le> length data \<Longrightarrow>
   (\<And>i. i < r + m \<Longrightarrow> base + 2 * W * i + 2 * n \<le> length buf) \<Longrightarrow>
   rgb565_rows (3 * W) (2 * W) (3 * W * (r + m)) base (3 * n) data d (3 * W * r) (2 * W * r) buf =
     Some (put_lines m pack565 data d n (base + 2 * W * r) (2 * W) buf)"
proof (induction m arbitrary: r d buf)
  case 0
  then show ?case by (subst rgb565_rows.simps) simp
next
  case (Suc m)
  let ?buf = "mem_write buf (base + 2 * W * r) (row_bytes pack565 data d 0 n)"
  have fits: "base + 2 * W * r + 2 * n \<le> length buf" using Suc.prems(4) [of r] by simp
  then have len: "length ?buf = length buf" by (simp add: length_row_bytes [where bpp = 2])
  have cols: "rgb565_cols (3 * n) data d (base + 2 * W * r) 0 0 buf = Some ?buf"
    using rgb565_cols_result [of 0 n d data "base + 2 * W * r" buf] Suc.prems(3) fits by simp
  have row_below: "3 * W * r < 3 * W + 3 * W * (r + m)" using Suc.prems(1) by (simp add: algebra_simps)
  have next_row: "wrap32 (3 * W * r + 3 * W) = 3 * W * Suc r" "wrap32 (2 * W * r + 2 * W) = 2 * W * Suc r"
    using Suc.prems(2) by (simp_all add: algebra_simps)
  have "rgb565_rows (3 * W) (2 * W) (3 * W * (r + Suc m)) base (3 * n) data d (3 * W * r) (2 * W * r) buf =
      rgb565_rows (3 * W) (2 * W) (3 * W * (Suc r + m)) base (3 * n) data (d + 3 * n) (3 * W * Suc r) (2 * W * Suc r) ?buf"
    using Suc.prems(1) cols next_row row_below by (subst rgb565_rows.simps) simp
  also have "\<dots> = Some (put_lines m pack565 data (d + 3 * n) n (base + 2 * W * Suc r) (2 * W) ?buf)"
    using Suc.prems len by (intro Suc.IH) (auto simp: algebra_simps)
  finally show ?case
    by (simp add: algebra_simps)
qed

section \<open>The contract of a writer\<close>

text \<open>
  A writer that is \<open>ready\<close> for a picture of \<open>W\<close> by \<open>H\<close> pixels accepts every rectangle inside it, stays ready, and
  changes exactly the pixels of the rectangle.
\<close>

locale block_writer =
  fixes writer :: "'s jpg_writer_cb" and pixel :: "'s \<Rightarrow> nat \<Rightarrow> nat \<Rightarrow> u8 list" and colour :: "u8 list \<Rightarrow> u8 list"
    and ready :: "'s \<Rightarrow> bool" and W :: nat and H :: nat
  assumes block_written: "ready s \<Longrightarrow> block_fits W H blk \<Longrightarrow>
    \<exists>s'. jd_jpg_write writer (fst blk) (snd blk) s = Some (1, s') \<and> ready s' \<and>
      (\<forall>x < W. \<forall>y < H. pixel s' x y = (if in_block blk x y then colour (block_rgb blk x y) else pixel s x y))"
begin

lemma blocks_written:
  assumes "ready s" "\<forall>blk \<in> set bs. block_fits W H blk \<and> block_shows pic blk"
  shows "\<exists>s'. write_blocks writer bs s = Some s' \<and> ready s' \<and>
    (\<forall>x < W. \<forall>y < H. pixel s' x y = (if \<exists>blk \<in> set bs. in_block blk x y then colour (pic x y) else pixel s x y))"
  using assms
proof (induction bs arbitrary: s)
  case (Cons blk bs)
  from Cons.prems obtain s1 where s1: "jd_jpg_write writer (fst blk) (snd blk) s = Some (1, s1)" "ready s1"
    and px: "\<forall>x < W. \<forall>y < H. pixel s1 x y = (if in_block blk x y then colour (block_rgb blk x y) else pixel s x y)"
    using block_written [of s blk] by auto
  from Cons.IH [OF s1(2)] Cons.prems(2) obtain s' where s': "write_blocks writer bs s1 = Some s'" "ready s'"
    and px': "\<forall>x < W. \<forall>y < H. pixel s' x y = (if \<exists>blk \<in> set bs. in_block blk x y then colour (pic x y) else pixel s1 x y)"
    by auto
  have "block_rgb blk x y = pic x y" if "in_block blk x y" for x y
    using that Cons.prems(2) unfolding block_shows_def by (cases blk) (simp del: upt_Suc)
  then have "\<forall>x < W. \<forall>y < H. pixel s' x y =
      (if \<exists>b \<in> set (blk # bs). in_block b x y then colour (pic x y) else pixel s x y)"
    using px px' by auto
  with s1 s' show ?case by (cases blk) auto
qed simp

lemma blocks_accepted:
  "ready s \<Longrightarrow> \<forall>blk \<in> set bs. block_fits W H blk \<Longrightarrow> \<exists>s'. write_blocks writer bs s = Some s' \<and> ready s'"
proof (induction bs arbitrary: s)
  case (Cons blk bs)
  from block_written [of s blk] Cons.prems obtain s1 where "jd_jpg_write writer (fst blk) (snd blk) s = Some (1, s1)" "ready s1"
    by auto
  with Cons show ?case by (cases blk) auto
qed simp

lemma picture_written:
  assumes "ready s" "\<forall>blk \<in> set bs. block_fits W H blk \<and> block_shows pic blk" "covers W H bs"
  shows "\<exists>s'. write_blocks writer bs s = Some s' \<and> ready s' \<and> (\<forall>x < W. \<forall>y < H. pixel s' x y = colour (pic x y))"
  using blocks_written [OF assms(1,2)] assms(3) by (fastforce simp: covers_def)

end

section \<open>The two writers\<close>

definition out_pixel :: "nat \<Rightarrow> jpg_arg \<Rightarrow> nat \<Rightarrow> nat \<Rightarrow> u8 list" where
  "out_pixel bpp arg x y =
    (let jpeg = fst arg in
     mem_read (memory_of (jpg_output jpeg)) (unat (data_offset jpeg) + bpp * (y * unat (jpg_width jpeg) + x)) bpp)"

text \<open>The output of the picture described by \<open>j\<close> is open, with \<open>len\<close> bytes, and the rest is as \<open>j\<close> and \<open>live\<close> say.\<close>

definition out_ready :: "nat \<Rightarrow> rgb_jpg_decoder \<Rightarrow> nat list \<Rightarrow> nat \<Rightarrow> jpg_arg \<Rightarrow> bool" where
  "out_ready bpp j live len arg \<longleftrightarrow>
    (\<exists>buf. arg = (j\<lparr>jpg_output := Some buf\<rparr>, live) \<and> length buf = len) \<and>
    unat (data_offset j) + bpp * (unat (jpg_width j) * unat (jpg_height j)) \<le> len \<and>
    3 * (unat (jpg_width j) * unat (jpg_height j)) < 2 ^ 32"

lemma block_words:
  assumes "block_fits W H (rect, d)" "W < 2 ^ 16" "H < 2 ^ 16"
  shows "unat (right rect + 1 - left rect) = block_width (rect, d)"
    and "unat (bottom rect + 1 - top rect) = block_height (rect, d)"
    and "unat ((right rect + 1 - left rect) * 3) = 3 * block_width (rect, d)"
proof -
  have *: "unat (b + 1 - a) = unat b + 1 - unat a" if "a \<le> b" "unat b + 1 < 2 ^ 16" for a b :: u16
  proof -
    have "unat (b + 1) = unat b + 1" using that(2) by (simp add: unat_word_ariths)
    moreover from this that have "a \<le> b + 1" by (simp add: word_le_nat_alt)
    ultimately show ?thesis by (simp add: unat_sub_if' word_le_nat_alt)
  qed
  have **: "unat (v * 3) = 3 * unat v" if "3 * unat v < 2 ^ 16" for v :: u16
    using that by (simp add: unat_word_ariths mult.commute)
  show w: "unat (right rect + 1 - left rect) = block_width (rect, d)"
    using assms by (subst *) (auto simp: block_fits_def)
  show "unat (bottom rect + 1 - top rect) = block_height (rect, d)"
    using assms by (subst *) (auto simp: block_fits_def)
  show "unat ((right rect + 1 - left rect) * 3) = 3 * block_width (rect, d)"
    using assms(1) ** [of "right rect + 1 - left rect"] unfolding w block_fits_def by simp
qed

lemma block_room:
  assumes "block_fits W H (rect, d)"
  shows "unat (left rect) + block_width (rect, d) \<le> W" "unat (top rect) + block_height (rect, d) \<le> H"
    "0 < W" "3 * (block_height (rect, d) * block_width (rect, d)) \<le> length d"
    "in_block (rect, d) x y \<longleftrightarrow> unat (top rect) \<le> y \<and> y < unat (top rect) + block_height (rect, d) \<and>
       unat (left rect) \<le> x \<and> x < unat (left rect) + block_width (rect, d)"
  using assms by (auto simp: block_fits_def word_le_nat_alt mult.commute)

lemma rows_room:
  assumes "x + n \<le> W" "e \<le> H" "off + bpp * (W * H) \<le> len" "i < e"
  shows "off + bpp * x + bpp * W * i + bpp * n \<le> (len :: nat)"
  using pixel_inside [OF assms(1), of i H bpp] assms(2-4) by (simp add: algebra_simps)

lemma rows_no_wrap:
  assumes "e \<le> H" "3 * (W * H) < (N :: nat)"
  shows "3 * W * e < N"
proof -
  have "3 * W * e \<le> 3 * W * H" using assms(1) by (rule mult_le_mono2)
  with assms(2) show ?thesis by (simp only: mult.assoc)
qed

definition lines_drawn :: "nat \<Rightarrow> (u8 list \<Rightarrow> u8 list) \<Rightarrow> block \<Rightarrow> jpg_arg \<Rightarrow> jpg_arg" where
  "lines_drawn bpp conv blk = (\<lambda>(jpeg, live).
    (jpeg\<lparr>jpg_output := Some (put_lines (block_height blk) conv (snd blk) 0 (block_width blk)
       (unat (data_offset jpeg) + bpp * (unat (top (fst blk)) * unat (jpg_width jpeg) + unat (left (fst blk))))
       (bpp * unat (jpg_width jpeg)) (memory_of (jpg_output jpeg)))\<rparr>, live))"

lemma lines_drawn_law:
  assumes ready: "out_ready bpp j live len s" and fits: "block_fits (unat (jpg_width j)) (unat (jpg_height j)) blk"
    and conv: "\<And>p. length (conv p) = bpp"
  shows "out_ready bpp j live len (lines_drawn bpp conv blk s) \<and>
    (\<forall>x < unat (jpg_width j). \<forall>y < unat (jpg_height j). out_pixel bpp (lines_drawn bpp conv blk s) x y =
       (if in_block blk x y then conv (block_rgb blk x y) else out_pixel bpp s x y))"
proof -
  obtain rect d where blk: "blk = (rect, d)" by (cases blk)
  obtain buf where s: "s = (j\<lparr>jpg_output := Some buf\<rparr>, live)" "length buf = len"
    using ready by (auto simp: out_ready_def)
  note room = block_room [OF fits [unfolded blk]]
  have "unat (data_offset j) + bpp * (unat (jpg_width j) * unat (jpg_height j)) \<le> length buf"
    using ready s by (simp add: out_ready_def)
  note lines = put_lines_pixels [where conv = conv and data = d and d = 0, OF conv room(1,2) this]
  show ?thesis
    using lines ready s room(5) unfolding blk
    by (simp add: lines_drawn_def out_ready_def out_pixel_def block_rgb_def memory_of_def
        del: block_width.simps block_height.simps in_block.simps) blast
qed

text \<open>The ranges of the loops over a rectangle, as the writers compute them from its 16 bit corners.\<close>

lemma block_ranges:
  assumes ready: "out_ready bpp j live len s" and fits: "block_fits (unat (jpg_width j)) (unat (jpg_height j)) (rect, d)"
  obtains buf where "s = (j\<lparr>jpg_output := Some buf\<rparr>, live)"
    and "unat ((right rect + 1 - left rect) * 3) = 3 * block_width (rect, d)"
    and "unat (bottom rect + 1 - top rect) = block_height (rect, d)"
    and "3 * unat (jpg_width j) * (unat (top rect) + block_height (rect, d)) < 2 ^ 32"
    and "3 * unat (jpg_width j) * unat (top rect) < 2 ^ 32"
    and "\<And>i. i < unat (top rect) + block_height (rect, d) \<Longrightarrow>
      unat (data_offset j) + bpp * unat (left rect) + bpp * unat (jpg_width j) * i + bpp * block_width (rect, d) \<le> length buf"
proof -
  obtain buf where s: "s = (j\<lparr>jpg_output := Some buf\<rparr>, live)" "length buf = len"
    using ready by (auto simp: out_ready_def)
  have small: "unat (jpg_width j) < 2 ^ 16" "unat (jpg_height j) < 2 ^ 16"
    using unsigned_less [of "jpg_width j", where 'a = nat] unsigned_less [of "jpg_height j", where 'a = nat] by simp_all
  note room = block_room [OF fits]
  have end_small: "3 * unat (jpg_width j) * (unat (top rect) + block_height (rect, d)) < 2 ^ 32"
    using ready room(2) by (intro rows_no_wrap) (auto simp: out_ready_def)
  then have start_small: "3 * unat (jpg_width j) * unat (top rect) < 2 ^ 32"
    by (rule order_le_less_trans [rotated]) simp
  have "unat (data_offset j) + bpp * unat (left rect) + bpp * unat (jpg_width j) * i + bpp * block_width (rect, d) \<le> length buf"
    if "i < unat (top rect) + block_height (rect, d)" for i
    using ready s that by (intro rows_room [OF room(1,2)]) (auto simp: out_ready_def)
  with s(1) block_words(3,2) [OF fits small] end_small start_small show thesis by (rule that)
qed

lemma rgb_block:
  assumes ready: "out_ready 3 j live len s" and fits: "block_fits (unat (jpg_width j)) (unat (jpg_height j)) (rect, d)"
  shows "jd_jpg_write (rgb_write heap) rect d s = Some (1, lines_drawn 3 bgr (rect, d) s)"
proof -
  from block_ranges [OF ready fits] obtain buf where s: "s = (j\<lparr>jpg_output := Some buf\<rparr>, live)"
    and ranges: "unat ((right rect + 1 - left rect) * 3) = 3 * block_width (rect, d)"
      "unat (bottom rect + 1 - top rect) = block_height (rect, d)"
      "3 * unat (jpg_width j) * (unat (top rect) + block_height (rect, d)) < 2 ^ 32"
      "3 * unat (jpg_width j) * unat (top rect) < 2 ^ 32"
    and rows: "\<And>i. i < unat (top rect) + block_height (rect, d) \<Longrightarrow>
      unat (data_offset j) + 3 * unat (left rect) + 3 * unat (jpg_width j) * i + 3 * block_width (rect, d) \<le> length buf"
    by metis
  note loop = rgb_rows_result [where data = d and d = 0, OF _ ranges(3) _ rows]
  then show ?thesis
    using ranges block_room(3,4) [OF fits]
    by (simp add: s jd_jpg_write_def rgb_write_def Let_def memory_of_def lines_drawn_def algebra_simps
        del: block_width.simps block_height.simps)
qed

lemma rgb565_block:
  assumes ready: "out_ready 2 j live len s" and fits: "block_fits (unat (jpg_width j)) (unat (jpg_height j)) (rect, d)"
  shows "jd_jpg_write (rgb565_write heap) rect d s = Some (1, lines_drawn 2 pack565 (rect, d) s)"
proof -
  from block_ranges [OF ready fits] obtain buf where s: "s = (j\<lparr>jpg_output := Some buf\<rparr>, live)"
    and ranges: "unat ((right rect + 1 - left rect) * 3) = 3 * block_width (rect, d)"
      "unat (bottom rect + 1 - top rect) = block_height (rect, d)"
      "3 * unat (jpg_width j) * (unat (top rect) + block_height (rect, d)) < 2 ^ 32"
      "3 * unat (jpg_width j) * unat (top rect) < 2 ^ 32"
    and rows: "\<And>i. i < unat (top rect) + block_height (rect, d) \<Longrightarrow>
      unat (data_offset j) + 2 * unat (left rect) + 2 * unat (jpg_width j) * i + 2 * block_width (rect, d) \<le> length buf"
    by metis
  note loop = rgb565_rows_result [where data = d and d = 0, OF _ ranges(3) _ rows]
  have "2 * unat (jpg_width j) * unat (top rect) < 2 ^ 32"
    by (rule order_le_less_trans [OF mult_le_mono1 ranges(4)]) simp
  with loop show ?thesis
    using ranges block_room(3,4) [OF fits]
    by (simp add: s jd_jpg_write_def rgb565_write_def Let_def memory_of_def lines_drawn_def algebra_simps
        del: block_width.simps block_height.simps)
qed

interpretation rgb: block_writer "rgb_write heap" "out_pixel 3" bgr "out_ready 3 j live len" "unat (jpg_width j)" "unat (jpg_height j)"
  for heap j live len
proof unfold_locales
  fix s blk
  assume "out_ready 3 j live len s" "block_fits (unat (jpg_width j)) (unat (jpg_height j)) blk"
  then show "\<exists>s'. jd_jpg_write (rgb_write heap) (fst blk) (snd blk) s = Some (1, s') \<and> out_ready 3 j live len s' \<and>
      (\<forall>x < unat (jpg_width j). \<forall>y < unat (jpg_height j).
         out_pixel 3 s' x y = (if in_block blk x y then bgr (block_rgb blk x y) else out_pixel 3 s x y))"
    using lines_drawn_law [where conv = bgr and blk = blk] by (cases blk) (auto simp: rgb_block simp del: in_block.simps)
qed

interpretation rgb16: block_writer "rgb565_write heap" "out_pixel 2" pack565 "out_ready 2 j live len" "unat (jpg_width j)" "unat (jpg_height j)"
  for heap j live len
proof unfold_locales
  fix s blk
  assume "out_ready 2 j live len s" "block_fits (unat (jpg_width j)) (unat (jpg_height j)) blk"
  then show "\<exists>s'. jd_jpg_write (rgb565_write heap) (fst blk) (snd blk) s = Some (1, s') \<and> out_ready 2 j live len s' \<and>
      (\<forall>x < unat (jpg_width j). \<forall>y < unat (jpg_height j).
         out_pixel 2 s' x y = (if in_block blk x y then pack565 (block_rgb blk x y) else out_pixel 2 s x y))"
    using lines_drawn_law [where conv = pack565 and blk = blk] by (cases blk) (auto simp: rgb565_block simp del: in_block.simps)
qed

lemma start_keeps_input: "write_start heap s x y w h = Some (ok, s') \<Longrightarrow> jpg_input (fst s') = jpg_input (fst s)"
  by (auto simp: write_start_def malloc_spiram_def Let_def bind_eq_Some_conv split: prod.splits option.splits if_splits)

interpretation rgb_source: memory_source jpg_read "rgb_write heap" "\<lambda>s. jpg_input (fst s)" for heap
  by unfold_locales
    (auto simp: jpg_read_def rgb_write_def Let_def start_keeps_input split: option.splits prod.splits)

interpretation rgb16_source: memory_source jpg_read "rgb565_write heap" "\<lambda>s. jpg_input (fst s)" for heap
  by unfold_locales
    (auto simp: jpg_read_def rgb565_write_def Let_def start_keeps_input split: option.splits prod.splits)

text \<open>Without an output buffer the first byte of a rectangle is written through a null pointer.\<close>

lemma null_block:
  assumes none: "jpg_output j = None" and fits: "block_fits (unat (jpg_width j)) (unat (jpg_height j)) (rect, d)"
    and small: "3 * (unat (jpg_width j) * unat (jpg_height j)) < 2 ^ 31"
  shows "jd_jpg_write (rgb_write heap) rect d (j, live) = None"
proof -
  let ?W = "unat (jpg_width j)" and ?r = "unat (top rect)" and ?m = "block_height (rect, d)"
  have words: "unat ((right rect + 1 - left rect) * 3) = 3 * block_width (rect, d)" "unat (bottom rect + 1 - top rect) = ?m"
    using block_words(3,2) [OF fits] unsigned_less [of "jpg_width j", where 'a = nat] unsigned_less [of "jpg_height j", where 'a = nat]
    by simp_all
  note room = block_room [OF fits]
  have pos: "0 < ?m" "0 < block_width (rect, d)"
    using fits by (auto simp: block_fits_def word_le_nat_alt)
  have "3 * ?W * (?r + ?m) < 2 ^ 31"
    using small room(2) by (intro rows_no_wrap) simp_all
  moreover from this have "3 * ?W * ?r < 2 ^ 31"
    by (rule order_le_less_trans [rotated]) simp
  moreover have "3 * ?W * ?r < 3 * ?W * (?r + ?m)"
    using room(3) pos by (simp del: block_width.simps block_height.simps)
  moreover have "rgb_cols (3 * block_width (rect, d)) d 0 q 0 [] = None" for q
    using pos by (subst rgb_cols.simps) simp
  ultimately have "rgb_rows (3 * ?W) (3 * ?W * (?r + ?m)) q (3 * block_width (rect, d)) d 0 (3 * ?W * ?r) [] = None" for q
    by (subst rgb_rows.simps) (simp del: block_width.simps block_height.simps)
  with words \<open>3 * ?W * (?r + ?m) < 2 ^ 31\<close> \<open>3 * ?W * ?r < 2 ^ 31\<close> none show ?thesis
    by (simp add: jd_jpg_write_def rgb_write_def Let_def memory_of_def algebra_simps del: block_width.simps block_height.simps)
qed

end
