(* ===== verification/Jpeg_Decoding.thy ===== *)
theory Jpeg_Decoding
  imports Jpeg_Picture
begin

text \<open>
  The functions of \<^verbatim>\<open>to_bmp.c\<close> that decode a JPEG, for every decoder of the ROM that hands out the rectangles of a
  picture: the picture is in the BMP file and in the RGB565 buffer. What is left of the memory when decoding fails.
\<close>

text \<open>
  The decoder finds the picture \<open>pic\<close> of \<open>w\<close> by \<open>h\<close> pixels in the source at a scale: it accepts the header, and its
  rectangles lie inside the picture, have its pixels, and cover it.
\<close>

definition jpeg_shows :: "jd_prepared jd \<Rightarrow> u8 list \<Rightarrow> nat \<Rightarrow> jpg_scale_t \<Rightarrow> u16 \<Rightarrow> u16 \<Rightarrow> (nat \<Rightarrow> nat \<Rightarrow> u8 list) \<Rightarrow> bool" where
  "jpeg_shows prepare src src_len scale w h pic =
    (case jd_draws src src_len prepare 0 of
       Some (p, [], i) \<Rightarrow>
         prep_result p = JDR_OK \<and> prep_width p div 2 ^ scale_value scale = w \<and> prep_height p div 2 ^ scale_value scale = h \<and>
         (case jd_draws src src_len (prep_decomp p (scale_value scale)) i of
            Some (r, bs, _) \<Rightarrow> r = JDR_OK \<and> list_all (\<lambda>blk. block_fits (unat w) (unat h) blk \<and> block_shows pic blk) bs \<and>
              covers (unat w) (unat h) bs
          | None \<Rightarrow> False)
     | _ \<Rightarrow> False)"

lemma jpeg_showsE:
  assumes "jpeg_shows prepare src src_len scale w h pic"
  obtains p i bs j where "jd_draws src src_len prepare 0 = Some (p, [], i)" "prep_result p = JDR_OK"
    "prep_width p div 2 ^ scale_value scale = w" "prep_height p div 2 ^ scale_value scale = h"
    "jd_draws src src_len (prep_decomp p (scale_value scale)) i = Some (JDR_OK, bs, j)"
    "\<forall>blk \<in> set bs. block_fits (unat w) (unat h) blk \<and> block_shows pic blk" "covers (unat w) (unat h) bs"
  using assms by (auto simp: jpeg_shows_def list_all_iff split: option.splits prod.splits list.splits)

lemma close_ready:
  assumes "out_ready bpp j live len s" "jpg_width j = w" "jpg_height j = h"
  shows "write_start heap s w h w h = Some (True, s)"
  using assms by (cases j) (auto simp: write_start_def out_ready_def Let_def)

lemma open_given:
  assumes "jpg_output j = Some buf"
  shows "write_start heap (j, live) 0 0 w h = Some (True, j\<lparr>jpg_width := w, jpg_height := h\<rparr>, live)"
  using assms by (simp add: write_start_def Let_def)

lemma open_allocated:
  assumes "jpg_output j = None" "heap (unat w * unat h * 3 + unat (data_offset j)) = Some buf"
    "unat w * unat h * 3 + unat (data_offset j) < 2 ^ 31"
  shows "write_start heap (j, live) 0 0 w h =
    Some (True, j\<lparr>jpg_width := w, jpg_height := h, jpg_output := Some buf\<rparr>, (unat w * unat h * 3 + unat (data_offset j)) # live)"
  using assms by (simp add: write_start_def Let_def as_int_def malloc_spiram_def)

text \<open>A writer whose source is in memory and that leaves its picture alone when it is closed.\<close>

locale picture_decoder = memory_source reader writer source + block_writer writer pixel colour ready "unat w" "unat h"
  for reader :: "'s jpg_reader_cb" and writer :: "'s jpg_writer_cb" and source :: "'s \<Rightarrow> u8 list"
    and pixel :: "'s \<Rightarrow> nat \<Rightarrow> nat \<Rightarrow> u8 list" and colour :: "u8 list \<Rightarrow> u8 list" and ready :: "'s \<Rightarrow> bool" and w :: u16 and h :: u16 +
  assumes closes: "ready s \<Longrightarrow> writer s w h w h None = Some (True, s)"
begin

lemma picture_decoded:
  assumes shown: "jpeg_shows prepare (source s0) src_len scale w h pic"
    and opened: "writer s0 0 0 w h None = Some (ok, s1)" "ready s1"
  shows "\<exists>s. esp_jpg_decode prepare src_len scale reader writer s0 = Some (ESP_OK, s) \<and> ready s \<and>
    (\<forall>x < unat w. \<forall>y < unat h. pixel s x y = colour (pic x y))"
proof -
  from shown obtain p i bs k where p: "jd_draws (source s0) src_len prepare 0 = Some (p, [], i)" "prep_result p = JDR_OK"
    "prep_width p div 2 ^ scale_value scale = w" "prep_height p div 2 ^ scale_value scale = h"
    "jd_draws (source s0) src_len (prep_decomp p (scale_value scale)) i = Some (JDR_OK, bs, k)"
    and bs: "\<forall>blk \<in> set bs. block_fits (unat w) (unat h) blk \<and> block_shows pic blk" "covers (unat w) (unat h) bs"
    by (rule jpeg_showsE)
  from picture_written [OF opened(2) bs] obtain s where s: "write_blocks writer bs s1 = Some s" "ready s"
    and px: "\<forall>x < unat w. \<forall>y < unat h. pixel s x y = colour (pic x y)"
    by blast
  have "esp_jpg_decode prepare src_len scale reader writer s0 = Some (ESP_OK, s)"
    using decoded [of s0 src_len prepare p i scale ok s1 JDR_OK bs k s True s] p opened(1) s closes [OF s(2)] by simp
  with s px show ?thesis by blast
qed

end

interpretation rgb_picture: picture_decoder jpg_read "rgb_write heap" "\<lambda>s. jpg_input (fst s)" "out_pixel 3" bgr
    "out_ready 3 j live len" "jpg_width j" "jpg_height j"
  for heap j live len
  by unfold_locales (simp add: rgb_write_def close_ready)

interpretation rgb16_picture: picture_decoder jpg_read "rgb565_write heap" "\<lambda>s. jpg_input (fst s)" "out_pixel 2" pack565
    "out_ready 2 j live len" "jpg_width j" "jpg_height j"
  for heap j live len
  by unfold_locales (simp add: rgb565_write_def close_ready)

text \<open>The RGB565 picture has the low byte of every pixel first.\<close>

theorem jpg2rgb565_picture:
  assumes "jpeg_shows prepare src src_len scale w h pic"
    and "length buf = 2 * (unat w * unat h)" "3 * (unat w * unat h) < 2 ^ 32"
  shows "\<exists>jpeg buf'. jpg2rgb565 heap prepare src src_len (Some buf) scale live = Some (True, jpeg, live) \<and>
    jpg_output jpeg = Some buf' \<and> length buf' = length buf \<and>
    (\<forall>x < unat w. \<forall>y < unat h. mem_read buf' (2 * (y * unat w + x)) 2 = pack565 (pic x y))"
proof -
  let ?start = "\<lparr>jpg_width = 0, jpg_height = 0, data_offset = 0, jpg_input = src, jpg_output = Some buf\<rparr>"
  let ?j = "?start\<lparr>jpg_width := w, jpg_height := h\<rparr>"
  have "out_ready 2 ?j live (length buf) (?j, live)"
    using assms(2,3) by (auto simp: out_ready_def)
  with rgb16_picture.picture_decoded [of prepare "(?start, live)" src_len scale ?j pic heap True "(?j, live)" live "length buf"] assms(1)
  obtain s where "esp_jpg_decode prepare src_len scale jpg_read (rgb565_write heap) (?start, live) = Some (ESP_OK, s)"
    "out_ready 2 ?j live (length buf) s" "\<forall>x < unat w. \<forall>y < unat h. out_pixel 2 s x y = pack565 (pic x y)"
    by (auto simp: rgb565_write_def open_given)
  then show ?thesis
    by (auto simp: jpg2rgb565_def Let_def out_ready_def out_pixel_def memory_of_def)
qed

text \<open>\<^verbatim>\<open>jpg2bmp\<close> starts without a buffer, and the call that opens the picture allocates the file.\<close>

abbreviation bmp_start :: "u8 list \<Rightarrow> rgb_jpg_decoder" where
  "bmp_start src \<equiv> \<lparr>jpg_width = 0, jpg_height = 0, data_offset = of_nat BMP_HEADER_LEN, jpg_input = src, jpg_output = None\<rparr>"

abbreviation bmp_open :: "u8 list \<Rightarrow> u16 \<Rightarrow> u16 \<Rightarrow> u8 list \<Rightarrow> rgb_jpg_decoder" where
  "bmp_open src w h buf \<equiv>
    \<lparr>jpg_width = w, jpg_height = h, data_offset = of_nat BMP_HEADER_LEN, jpg_input = src, jpg_output = Some buf\<rparr>"

lemma header_offset: "unat (of_nat BMP_HEADER_LEN :: u16) = 54"
  by (simp add: BMP_HEADER_LEN_def)

lemma bmp_opened:
  fixes w h :: u16
  assumes "n = 54 + 3 * (unat w * unat h)" "n < 2 ^ 31" "heap n = Some buf" "length buf = n"
  shows "write_start heap (bmp_start src, live) 0 0 w h = Some (True, bmp_open src w h buf, n # live)"
    and "out_ready 3 (bmp_open src w h buf) (n # live) n (bmp_open src w h buf, n # live)"
proof -
  have n: "unat w * unat h * 3 + 54 = n" using assms(1) by simp
  show "write_start heap (bmp_start src, live) 0 0 w h = Some (True, bmp_open src w h buf, n # live)"
    using open_allocated [of "bmp_start src" heap w h buf live] assms(2-4) header_offset n by simp
  show "out_ready 3 (bmp_open src w h buf) (n # live) n (bmp_open src w h buf, n # live)"
    using assms header_offset by (auto simp: out_ready_def)
qed

text \<open>
  C20: For every decoder that finds a picture in the source, \<^verbatim>\<open>jpg2bmp\<close> allocates a file of exactly the length it reports,
  in which a reader of BMP files finds the size of the picture and, for widths divisible by four, its pixels.
\<close>

theorem jpeg_read_from_bmp:
  fixes w h :: u16 and heap :: heap
  defines "n \<equiv> 54 + 3 * (unat w * unat h)"
  assumes "jpeg_shows prepare src src_len JPG_SCALE_NONE w h pic" "n < 2 ^ 31" "heap n = Some buf" "length buf = n"
  shows "\<exists>file. jpg2bmp heap prepare src src_len res live = Some (True, (Some file, n), n # live) \<and> length file = n \<and>
    bmp_size file = Some (unat w, unat h) \<and>
    (4 dvd unat w \<longrightarrow> (\<forall>x < unat w. \<forall>y < unat h. bmp_colour file x y = bgr (pic x y)))"
proof -
  let ?start = "bmp_start src" and ?j = "bmp_open src w h buf"
  note off = header_offset
  have n: "unat w * unat h * 3 + 54 = n" by (simp add: n_def)
  note opened = bmp_opened [where heap = heap, OF meta_eq_to_obj_eq [OF n_def] assms(3-5), of src live]
  from rgb_picture.picture_decoded [of prepare "(?start, live)" src_len JPG_SCALE_NONE ?j pic heap True "(?j, n # live)" "n # live" n]
    assms(2) opened
  obtain s where dec: "esp_jpg_decode prepare src_len JPG_SCALE_NONE jpg_read (rgb_write heap) (?start, live) = Some (ESP_OK, s)"
    and s: "out_ready 3 ?j (n # live) n s" and px: "\<forall>x < unat w. \<forall>y < unat h. out_pixel 3 s x y = bgr (pic x y)"
    by (auto simp: rgb_write_def)
  from s obtain b where b: "s = (?j\<lparr>jpg_output := Some b\<rparr>, n # live)" "length b = n"
    by (auto simp: out_ready_def)
  let ?f = "of_nat n :: u32" and ?i = "of_nat (3 * (unat w * unat h)) :: u32"
  let ?file = "header_bytes ?f w h ?i @ drop 54 b"
  have f: "unat ?f = 54 + length (drop 54 b)"
    using assms(3) b n by (simp add: unat_of_nat)
  have "jpg2bmp heap prepare src src_len res live = Some (True, (Some ?file, n), n # live)"
    using dec b assms(3) header_written [of b ?f w h ?i]
    by (simp add: jpg2bmp_def Let_def as_int_def n_def BMP_HEADER_LEN_def ac_simps)
  moreover have "bmp_colour ?file x y = bgr (pic x y)" if "4 dvd unat w" "x < unat w" "y < unat h" for x y
  proof -
    have "mem_read b (54 + 3 * (y * unat w + x)) 3 = bgr (pic x y)"
      using px that b off by (auto simp: out_pixel_def memory_of_def)
    then show ?thesis
      using bmp_read_back(2) [OF f that(1)] by (simp add: mem_read_def add.commute)
  qed
  moreover have "length ?file = n" "bmp_size ?file = Some (unat w, unat h)"
    using bmp_read_back(1) [OF f] b by (simp_all add: n_def)
  ultimately show ?thesis by blast
qed

text \<open>
  A small decoder: a byte that marks a picture of four by one pixels, then two rectangles of two pixels as they are.
\<close>

definition pair_of_blocks :: "JRESULT \<Rightarrow> JRESULT jd" where
  "pair_of_blocks end_result =
    Jd_In 6 True (\<lambda>(_, d). Jd_Out \<lparr>left = 0, right = 1, top = 0, bottom = 0\<rparr> d (\<lambda>ok.
    if ok = 0 then Jd_Ret 1
    else Jd_In 6 True (\<lambda>(_, d). Jd_Out \<lparr>left = 2, right = 3, top = 0, bottom = 0\<rparr> d (\<lambda>ok. Jd_Ret end_result))))"

definition plain_decoder :: "JRESULT \<Rightarrow> jd_prepared jd" where
  "plain_decoder end_result = Jd_In 1 True (\<lambda>(_, b).
     Jd_Ret \<lparr>prep_result = (if b = [0xFF] then JDR_OK else 6), prep_width = 4, prep_height = 1,
       prep_decomp = \<lambda>_. pair_of_blocks end_result\<rparr>)"

definition plain_jpeg :: "u8 list" where
  "plain_jpeg = [0xFF, 1, 2, 3, 4, 5, 6, 7, 8, 9, 10, 11, 12]"

definition plain_blocks :: "block list" where
  "plain_blocks = [(\<lparr>left = 0, right = 1, top = 0, bottom = 0\<rparr>, [1, 2, 3, 4, 5, 6]),
     (\<lparr>left = 2, right = 3, top = 0, bottom = 0\<rparr>, [7, 8, 9, 10, 11, 12])]"

lemmas plain_defs = plain_decoder_def pair_of_blocks_def plain_jpeg_def plain_blocks_def jd_jpg_read_def note_reader_def bytes_at_def
  mem_read_def wrap32_def

lemma plain_header:
  "jd_draws plain_jpeg 13 (plain_decoder r) 0 =
     Some (\<lparr>prep_result = JDR_OK, prep_width = 4, prep_height = 1, prep_decomp = \<lambda>_. pair_of_blocks r\<rparr>, [], 1)"
  by (simp add: plain_defs)

lemma plain_draws: "jd_draws plain_jpeg 13 (pair_of_blocks r) 1 = Some (r, plain_blocks, 13)"
  by (simp add: plain_defs)

lemma plain_fits: "\<forall>blk \<in> set plain_blocks. block_fits 4 1 blk"
  by (simp add: plain_blocks_def block_fits_def)

lemma plain_pixels: "\<forall>blk \<in> set plain_blocks. block_shows (\<lambda>x y. mem_read plain_jpeg (1 + 3 * x) 3) blk"
proof -
  have "2 \<le> x \<and> x < 3 \<longleftrightarrow> x = 2" for x :: nat by arith
  then show ?thesis by (simp add: plain_defs block_shows_def block_rgb_def)
qed

lemma plain_covers: "covers 4 1 plain_blocks"
  by (simp add: plain_blocks_def covers_def upt_rec)

lemma plain_shows:
  "jpeg_shows (plain_decoder 0) plain_jpeg 13 JPG_SCALE_NONE 4 1 (\<lambda>x y. mem_read plain_jpeg (1 + 3 * x) 3)"
  using plain_fits plain_pixels plain_covers by (simp add: jpeg_shows_def plain_header plain_draws [simplified] JDR_OK_def list_all_iff)

theorem jpeg_read_from_bmp_witness:
  "\<exists>file. jpg2bmp (\<lambda>n. Some (replicate n 0)) (plain_decoder 0) plain_jpeg 13 (None, 0) [] = Some (True, (Some file, 66), [66]) \<and>
    bmp_size file = Some (4, 1) \<and> bmp_colour file 0 0 = [3, 2, 1] \<and> bmp_colour file 3 0 = [12, 11, 10]"
  using jpeg_read_from_bmp [OF plain_shows, of "\<lambda>n. Some (replicate n 0)" "replicate 66 0" "(None, 0)" "[]"]
  by (auto simp: bgr_def mem_read_def plain_jpeg_def)

section \<open>Decoding that fails\<close>

lemma decoding_fails:
  assumes "jd_draws src src_len prepare 0 = Some (p, [], i)" "prep_result p = JDR_OK"
    and n: "n = 54 + 3 * (unat (prep_width p) * unat (prep_height p))" "n < 2 ^ 31" "heap n = Some buf" "length buf = n"
    and "jd_draws src src_len (prep_decomp p 0) i = Some (r, bs, k)" "r \<noteq> JDR_OK"
    and "\<forall>blk \<in> set bs. block_fits (unat (prep_width p)) (unat (prep_height p)) blk"
  shows "jpg2bmp heap prepare src src_len res live = Some (False, res, n # live)"
proof -
  let ?j = "bmp_open src (prep_width p) (prep_height p) buf"
  note opened = bmp_opened [where heap = heap, OF n, of src live]
  from rgb.blocks_accepted [OF opened(2), of bs heap] assms(9) obtain s where
    s: "write_blocks (rgb_write heap) bs (?j, n # live) = Some s" "out_ready 3 ?j (n # live) n s"
    by auto
  have "esp_jpg_decode prepare src_len JPG_SCALE_NONE jpg_read (rgb_write heap) (bmp_start src, live) = Some (ESP_FAIL, s)"
    using rgb_source.decoded [of "(bmp_start src, live)" src_len prepare p i heap JPG_SCALE_NONE True "(?j, n # live)" r bs k s True s]
      assms opened(1) s close_ready [OF s(2), of "prep_width p" "prep_height p"] by (simp add: rgb_write_def)
  then show ?thesis
    using s(2) by (auto simp: jpg2bmp_def ESP_OK_def ESP_FAIL_def out_ready_def)
qed

lemma decoding_without_memory:
  assumes "jd_draws src src_len prepare 0 = Some (p, [], i)" "prep_result p = JDR_OK"
    and "54 + 3 * (unat (prep_width p) * unat (prep_height p)) < 2 ^ 31"
      "heap (54 + 3 * (unat (prep_width p) * unat (prep_height p))) = None"
    and "jd_draws src src_len (prep_decomp p 0) i = Some (r, (rect, d) # bs, k)"
    and "block_fits (unat (prep_width p)) (unat (prep_height p)) (rect, d)"
  shows "jpg2bmp heap prepare src src_len res live = None"
proof -
  let ?j = "(bmp_start src)\<lparr>jpg_width := prep_width p, jpg_height := prep_height p\<rparr>"
  have "write_start heap (bmp_start src, live) 0 0 (prep_width p) (prep_height p) = Some (False, ?j, live)"
    using assms(3,4) header_offset by (simp add: write_start_def Let_def as_int_def malloc_spiram_def ac_simps)
  moreover have "jd_jpg_write (rgb_write heap) rect d (?j, live) = None"
    using assms(3,6) by (intro null_block) simp_all
  ultimately have "esp_jpg_decode prepare src_len JPG_SCALE_NONE jpg_read (rgb_write heap) (bmp_start src, live) = None"
    using rgb_source.decoding_crashes [of "(bmp_start src, live)" src_len prepare p i heap JPG_SCALE_NONE False "(?j, live)" r rect d bs k]
      assms by (simp add: rgb_write_def)
  then show ?thesis
    by (simp add: jpg2bmp_def)
qed

text \<open>
  C35: When the decoder accepts a header and then fails, \<^verbatim>\<open>jpg2bmp\<close> reports failure and hands nothing to the caller,
  but the block it allocated for the picture stays allocated; when there is no memory for the picture, the
  refusal is ignored and the first rectangle is written through a null pointer. A refused header costs nothing.
\<close>

theorem failed_decoding_leaks:
  fixes heap :: heap and w h :: u16
  defines "n \<equiv> 54 + 3 * (unat w * unat h)"
  assumes header: "jd_draws src src_len prepare 0 = Some (p, [], i)" "prep_width p = w" "prep_height p = h" "n < 2 ^ 31"
    and drawn: "jd_draws src src_len (prep_decomp p 0) i = Some (r, bs, k)" "\<forall>blk \<in> set bs. block_fits (unat w) (unat h) blk"
  shows "(prep_result p \<noteq> JDR_OK \<longrightarrow> jpg2bmp heap prepare src src_len res live = Some (False, res, live)) \<and>
    (prep_result p = JDR_OK \<and> r \<noteq> JDR_OK \<and> (\<exists>buf. heap n = Some buf \<and> length buf = n) \<longrightarrow>
       jpg2bmp heap prepare src src_len res live = Some (False, res, n # live)) \<and>
    (prep_result p = JDR_OK \<and> heap n = None \<and> bs \<noteq> [] \<longrightarrow> jpg2bmp heap prepare src src_len res live = None)"
proof (intro conjI impI)
  assume "prep_result p \<noteq> JDR_OK"
  then show "jpg2bmp heap prepare src src_len res live = Some (False, res, live)"
    using rgb_source.header_refused [of "(bmp_start src, live)" src_len prepare p i JPG_SCALE_NONE heap] header(1)
    by (simp add: jpg2bmp_def ESP_OK_def ESP_FAIL_def)
next
  assume fail: "prep_result p = JDR_OK \<and> r \<noteq> JDR_OK \<and> (\<exists>buf. heap n = Some buf \<and> length buf = n)"
  then obtain buf where "heap n = Some buf" "length buf = n" by blast
  then show "jpg2bmp heap prepare src src_len res live = Some (False, res, n # live)"
    using fail header(2-4) drawn(2) by (intro decoding_fails [OF header(1) _ _ _ _ _ drawn(1)]) (auto simp: n_def)
next
  assume crash: "prep_result p = JDR_OK \<and> heap n = None \<and> bs \<noteq> []"
  then obtain rect d bs' where "bs = (rect, d) # bs'" by (cases bs) auto
  then show "jpg2bmp heap prepare src src_len res live = None"
    using crash header(2-4) drawn by (intro decoding_without_memory [OF header(1), of heap r rect d bs' k]) (auto simp: n_def)
qed

theorem failed_decoding_leaks_witness:
  "jpg2bmp (\<lambda>n. Some (replicate n 0)) (plain_decoder 6) plain_jpeg 13 (None, 0) [] = Some (False, (None, 0), [66]) \<and>
   jpg2bmp (\<lambda>n. None) (plain_decoder 0) plain_jpeg 13 (None, 0) [] = None"
proof
  show "jpg2bmp (\<lambda>n. Some (replicate n 0)) (plain_decoder 6) plain_jpeg 13 (None, 0) [] = Some (False, (None, 0), [66])"
    using failed_decoding_leaks [OF plain_header [of 6], of 4 1 6 plain_blocks 13 "\<lambda>n. Some (replicate n 0)" "(None, 0)" "[]"]
      plain_draws [of 6] plain_fits by (simp add: JDR_OK_def)
  show "jpg2bmp (\<lambda>n. None) (plain_decoder 0) plain_jpeg 13 (None, 0) [] = None"
    using failed_decoding_leaks [OF plain_header [of 0], of 4 1 0 plain_blocks 13 "\<lambda>n. None" "(None, 0)" "[]"]
      plain_draws [of 0] plain_fits by (simp add: JDR_OK_def plain_blocks_def)
qed

end
