(* ===== verification/Spec2Isabelle.thy ===== *)
theory Spec2Isabelle
  imports Prelude FreeRTOS_Queue Camera_Sensor LL_Cam Cam_Hal Cam_Setup QR_Posing SCCB
    OV2640_Settings OV2640 OV2640_Chip OV2640_Status OV2640_Window Esp_Camera
    Event_Group Wifi_Connection Api_Communication FreeRTOS_Mutex Split_Argv Console Esp_Cli
    Frame_Pipeline FreeMono_Font Fb_Gfx Floor_Display Floor_Detection
    Spi_Bus Screen_Interface St7789 Floor_Screen Code_Recognition Image_Tools
    Yuv Jpg_Decode To_Bmp Bmp_Picture Jpeg_Picture Jpeg_Decoding
begin

text \<open>
  Verification of the eCam client firmware.

  The program is the firmware of a small autonomous vehicle with a camera, for the ESP32-S3. An
  OV2640 sensor delivers frames through a parallel interface into memory by DMA; a driver task
  assembles them and hands them over a FreeRTOS queue; a task finds the square frames of codes in
  them and reports their position. Around this core the repository has a client that talks to a
  server over Wi-Fi, a floor detection client that runs a neural network on the pictures and shows
  the result on a display, a code recognition program, a tool that takes raw pictures, and the whole
  of ESP-IDF as vendored code. The development models the core in C, from the sensor to the position,
  the client of the server, the floor detection client with its console, the code recognition and
  the picture tool, the screen down to the bytes on its bus, and what these use of FreeRTOS and ESP-IDF.

  \<^bold>\<open>Theories.\<close>

  \<^item> \<open>Prelude\<close>: C integer types, result codes, block copies, truncating division.
  \<^item> \<open>FreeRTOS_Queue\<close>: \<^verbatim>\<open>components/freertos/queue.c\<close>, the queue as the kernel has it: a ring of
    bytes with read and write pointers, the lock counters, and the blocking loops of
    \<^verbatim>\<open>xQueueGenericSend\<close> and \<^verbatim>\<open>xQueueReceive\<close> with the rest of the system as an argument. The
    abstract queue is a bounded list; the locale that states its contract is interpreted on the
    kernel's definitions.
  \<^item> \<open>Camera_Sensor\<close>: \<^verbatim>\<open>esp32-camera/driver/sensor.c\<close> and \<^verbatim>\<open>sensor.h\<close>, the tables of sensors and
    resolutions.
  \<^item> \<open>LL_Cam\<close>: \<^verbatim>\<open>ESP/updated_driver_files/ll_cam.c\<close>, the register level of the camera interface,
    the DMA sizes and the copy of pixels.
  \<^item> \<open>Cam_Hal\<close>: the running part of \<^verbatim>\<open>ESP/updated_driver_files/cam_hal.c\<close>: the event task, the
    interrupts, taking and giving frames, as a step relation in which the task, the interrupts,
    the hardware and the application interleave.
  \<^item> \<open>Cam_Setup\<close>: the set-up and tear-down of \<^verbatim>\<open>cam_hal.c\<close> over a heap whose answers are arguments.
  \<^item> \<open>SCCB\<close>: \<^verbatim>\<open>esp32-camera/driver/sccb.c\<close>, the control bus; the I2C controller and the chip are a
    parameter that answers command links.
  \<^item> \<open>OV2640_Settings\<close>, \<open>OV2640\<close>: \<^verbatim>\<open>ov2640_settings.h\<close> and \<^verbatim>\<open>ov2640.c\<close> of
    \<^verbatim>\<open>ESP/updated_driver_files\<close>, every table and every function of the sensor driver.
  \<^item> \<open>OV2640_Chip\<close>, \<open>OV2640_Status\<close>, \<open>OV2640_Window\<close>: the driver against the chip. The chip is a law
    about the bus (a banked register file); the locale \<open>banked_registers\<close> states what the
    driver's register functions promise on it and is interpreted on them.
  \<^item> \<open>Esp_Camera\<close>: \<^verbatim>\<open>ESP/updated_driver_files/esp_camera.c\<close>, the front end that composes the above:
    probing for a sensor, initialisation and its undoing, access to frames, settings in flash.
  \<^item> \<open>QR_Posing\<close>: \<^verbatim>\<open>app/QR_Posing.c\<close> and \<^verbatim>\<open>modules/QR_Posing/QR_Posing.c\<close>, the search for code
    frames in an image and the report.
  \<^item> \<open>Event_Group\<close>: \<^verbatim>\<open>components/freertos/event_groups.c\<close>, flags that tasks wait for, as a step
    relation over the blocking calls of any number of tasks.
  \<^item> \<open>Wifi_Connection\<close>: \<^verbatim>\<open>eCamClientV2/main/wifi_connection.c\<close>, the handler of network events and the
    start-up that waits for it. What it needs of the flags is the locale \<open>flag_waiter\<close>, which the
    event group interprets.
  \<^item> \<open>Api_Communication\<close>: \<^verbatim>\<open>eCamClientV2/main/api_communication.c\<close> and \<^verbatim>\<open>main.c\<close>, the requests as
    they are put together in arrays, and the tasks that send them, as a step relation.
  \<^item> \<open>FreeRTOS_Mutex\<close>: the rest of \<^verbatim>\<open>queue.c\<close>, semaphores and mutexes, with the functions of
    \<^verbatim>\<open>tasks.c\<close> that lend priorities and the ordered insertion of \<^verbatim>\<open>list.c\<close>. The lending is followed through
    the wait for orderly tasks: one that waits does nothing else, and one that waits for a mutex holds none.
  \<^item> \<open>Frame_Pipeline\<close>: \<^verbatim>\<open>main.cpp\<close> and \<^verbatim>\<open>modules/camera/who_camera.c\<close>: the camera task, the queue of
    pointers, the QR task and the driver composed into one step relation.
  \<^item> \<open>Split_Argv\<close>, \<open>Console\<close>: \<^verbatim>\<open>components/console/split_argv.c\<close> and \<^verbatim>\<open>commands.c\<close>, the splitting of a
    command line and the registry of commands. The locale \<open>command_table\<close> states what a table by
    name promises and is interpreted on the registry's list.
  \<^item> \<open>Esp_Cli\<close>: \<^verbatim>\<open>floor_detection/main/esp_cli.c\<close>, the console task that collects lines from the
    serial port, and its commands.
  \<^item> \<open>FreeMono_Font\<close>, \<open>Fb_Gfx\<close>: \<^verbatim>\<open>components/fb_gfx\<close>, the font and the drawing into a frame.
  \<^item> \<open>Floor_Display\<close>, \<open>Floor_Detection\<close>: \<^verbatim>\<open>esp_lcd.c\<close>, \<^verbatim>\<open>app_camera_esp.c\<close> and the C++ files of
    \<^verbatim>\<open>floor_detection/main\<close> around them: the display task, the conversion of pictures, the response
    to a detection, and the main loop over the camera front end. The network is a parameter.
  \<^item> \<open>Spi_Bus\<close>: \<^verbatim>\<open>components/bus/spi_bus.c\<close>, the SPI buses, devices and transfers over the SPI master driver as a
    parameter. The locale \<open>spi_link\<close> is an undisturbed link; it is interpreted on a controller whose
    mutex is the kernel's.
  \<^item> \<open>Screen_Interface\<close>: \<^verbatim>\<open>components/screen/interface_driver\<close>, the drivers a screen is reached by. What a
    controller driver relies on is the locale \<open>screen_iface\<close>; the SPI driver over a link provides it (a
    sublocale of \<open>spi_screen\<close>, which extends the link), and the kernel's controller interprets both.
  \<^item> \<open>St7789\<close>: \<^verbatim>\<open>components/screen/controller_driver/st7789\<close>, \<^verbatim>\<open>screen_utility\<close> and \<^verbatim>\<open>screen_driver.c\<close>, the
    driver of the panel, proved in \<open>screen_iface\<close> against an interpreter of the panel's commands.
  \<^item> \<open>Floor_Screen\<close>: the screen part of \<^verbatim>\<open>register_lcd\<close> in \<^verbatim>\<open>esp_lcd.c\<close>, and the display of the floor
    detection composed with the panel.
  \<^item> \<open>Code_Recognition\<close>: \<^verbatim>\<open>code_recognition/main\<close>, camera front end, scanner (a parameter) and screen
    composed.
  \<^item> \<open>Image_Tools\<close>: \<^verbatim>\<open>ImageProcessing/ESP/RAW_crop_resize_AND_serial.cpp\<close>.
  \<^item> \<open>Yuv\<close>, \<open>Jpg_Decode\<close>, \<open>To_Bmp\<close>: \<^verbatim>\<open>yuv.c\<close>, \<^verbatim>\<open>esp_jpg_decode.c\<close> and \<^verbatim>\<open>to_bmp.c\<close> of
    \<^verbatim>\<open>esp32-camera/conversions\<close>. The JPEG decoder of the ROM is a parameter: a terminating program that asks
    for input and hands out rectangles. The locale \<open>memory_source\<close> relates a run to what the decoder draws.
  \<^item> \<open>Bmp_Picture\<close>, \<open>Jpeg_Picture\<close>, \<open>Jpeg_Decoding\<close>: the conversions against a reader of BMP files. The locale
    \<open>block_writer\<close> is what a writer does with one rectangle, \<open>picture_decoder\<close> joins it with the source; both
    writers of the code interpret them.

  \<^bold>\<open>What is shown.\<close>

  \<^item> Queues: the byte ring behaves as a bounded list; blocking operations fail only when they may.
  \<^item> Camera driver: whatever the interleaving, a frame is queued once, held once or free, and a
    held frame is not written; the driver does not stall while a frame is left; the frame ends at
    its marker; set-up and tear-down leak nothing whichever allocation fails; sizes and DMA rings
    are right; the driver's use of its queue agrees with the kernel's queue.
  \<^item> Sensor driver: the cached register bank is the selected one after every method; a bit update
    changes exactly its bits; reading the status makes the record mirror the registers, and controls keep it so; the window registers
    decode to the window; the window fits the sensor; tables are never left.
  \<^item> Front end: initialisation is all or nothing, whatever fails; saved settings are restored once
    they are committed, which the code leaves out.
  \<^item> QR task: a code frame is found with its corners; the table of codes stays well formed; the
    report is in range.
  \<^item> Client: nobody waits for a flag that is set; the connection is reported as the network events
    have it; the sending tasks give back every socket; a status update fits its buffers exactly
    for identifiers of four characters, and announces its length.
  \<^item> Mutexes: whatever is borrowed is given back; among orderly tasks a holder runs at least at the
    priority of a waiting task for as long as that task waits; a recursive mutex has one holder.
  \<^item> Pipeline: the frames pass the tasks in order, unharmed, and the tasks never wait for each
    other for good.
  \<^item> Console: the in-place splitting gives the words of a recursive tokenizer; a quoted line runs
    its command with exactly the quoted strings; a typed line runs its command once.
  \<^item> Floor detection: drawing by runs equals drawing bit by bit; the picture is grey and doubled as
    it should; each turn judges the frame it got; the text of the display fits its strip exactly
    up to six characters.
  \<^item> Screen: a transfer is its pieces in order up to the first error; a bitmap that fits is shown
    at exactly the places of the glass its direction prescribes, one that does not is refused,
    also when its corner wraps around; all the display of the floor detection draws is on the glass.
  \<^item> Code recognition and tool: a turn notes the first code of its frame exactly when there is one, shows and
    returns the frame and leaves no scanner behind; the window and the reduced picture are exact.
  \<^item> Conversions: the size and the pixels of a frame, or of a decoded JPEG, are read back from the BMP file;
    the table of YUV conversion is exact, and the result near BT.601 but for the green.
  \<^item> Where the code errs, the theorem says what it does instead: reads outside the image, one byte
    per pixel for every format, an event queue of length 0, JPEG lengths beyond the buffer, a
    timeout that wraps, a lost bank selection or read that is believed, an inverted switch, a
    second initialisation that loses the running camera, settings that are never committed, a request that is never sent and headers
    that never end, a hint used after it is freed, a line buffer that bursts overrun, a detection
    that hangs without a display, a frame counter that overflows, a transmission that never ends, exchanged factors of a colour, and a
    block of memory lost when decoding fails.

  \<^bold>\<open>Bounds and fuel.\<close> The blocking loops of the queue take a list of what happens while the task is
  suspended and end with it; the theorems hold for every list. The searches of the DMA size
  calculation and of the scan recurse on numbers that decrease. Numbers of C are words where they
  wrap and otherwise naturals or integers with the wrap-around written out (\<open>wrap32\<close>). The row loops of the
  JPEG writers, whose counter may wrap, are partial functions; the theorems show that they return.

  \<^bold>\<open>Not modelled.\<close> Log messages and delays; the hardware behind registers beyond what a write leaves
  to be read, and beyond the panel's commands that the driver uses for pictures; the ESP-IDF apart from
  queues, mutexes, event groups, the console, the SPI bus, the screen and the drawing of text; queue sets
  and kernel objects in static memory; the neural network and its floating point score; the code
  scanner, which is there only in binary form; the JPEG encoder; the sensors and screens the product
  does not carry; the build of the floor detection without a display. Tasks are always created (the failures of
  \<^verbatim>\<open>xTaskCreate\<close> in \<^verbatim>\<open>cam_hal.c\<close> and \<^verbatim>\<open>esp_lcd.c\<close>, and a task's memory, are left out). A blocking call
  that timed out but finds its queue changed may wait again, where the kernel leaves it no time: the
  model has more runs. The echo of a console line that is not finished is not recorded.
\<close>

end
